(* ===== verification/Prelude.thy ===== *)
theory Prelude
  imports Main "HOL-Library.Char_ord" "HOL-Library.List_Lexorder" "HOL-Library.Multiset"
    "HOL-Library.AList"
begin

text \<open>
  The parts of the Go language and of its standard library that the components share:
  byte strings with the operations of the packages \<open>strings\<close> and \<open>strconv\<close>, Go maps as
  association lists with an explicit iteration order, and the lemma collections of the
  development.

  A Go string is a sequence of bytes, here a \<^typ>\<open>string\<close> (a list of 8-bit characters).
  \<open>TrimSpace\<close> removes the UTF-8 encodings of every Unicode white-space character.
  \<open>ToLower\<close> and \<open>ToUpper\<close> map the ASCII letters; bytes from 0x80 on are kept (the Unicode
  case tables are not modelled), so the model is exact on strings whose letters are ASCII.
\<close>

named_theorems go_str \<open>characteristic equations of the Go string operations\<close>
named_theorems go_map \<open>lookups after updates of a Go map\<close>

section \<open>Characters\<close>

definition byte :: "char \<Rightarrow> int" where
  "byte c = of_char c"

definition is_digit :: "char \<Rightarrow> bool" where
  "is_digit c \<longleftrightarrow> 48 \<le> byte c \<and> byte c \<le> 57"

definition lower_char :: "char \<Rightarrow> char" where
  "lower_char c = (if 65 \<le> byte c \<and> byte c \<le> 90 then char_of (byte c + 32) else c)"

definition upper_char :: "char \<Rightarrow> char" where
  "upper_char c = (if 97 \<le> byte c \<and> byte c \<le> 122 then char_of (byte c - 32) else c)"

definition ToLower :: "string \<Rightarrow> string" where
  "ToLower s = map lower_char s"

definition ToUpper :: "string \<Rightarrow> string" where
  "ToUpper s = map upper_char s"

section \<open>Prefixes, suffixes and trimming\<close>

definition HasPrefix :: "string \<Rightarrow> string \<Rightarrow> bool" where
  "HasPrefix s p \<longleftrightarrow> take (length p) s = p"

definition HasSuffix :: "string \<Rightarrow> string \<Rightarrow> bool" where
  "HasSuffix s p \<longleftrightarrow> HasPrefix (rev s) (rev p)"

definition TrimPrefix :: "string \<Rightarrow> string \<Rightarrow> string" where
  "TrimPrefix s p = (if HasPrefix s p then drop (length p) s else s)"

definition TrimSuffix :: "string \<Rightarrow> string \<Rightarrow> string" where
  "TrimSuffix s p = (if HasSuffix s p then take (length s - length p) s else s)"

text \<open>The UTF-8 encodings of the characters for which \<open>unicode.IsSpace\<close> holds.\<close>

definition space_seqs :: "string list" where
  "space_seqs =
     [[CHR 0x09], [CHR 0x0A], [CHR 0x0B], [CHR 0x0C], [CHR 0x0D], [CHR 0x20],
      [CHR 0xC2, CHR 0x85], [CHR 0xC2, CHR 0xA0], [CHR 0xE1, CHR 0x9A, CHR 0x80],
      [CHR 0xE2, CHR 0x80, CHR 0x80], [CHR 0xE2, CHR 0x80, CHR 0x81],
      [CHR 0xE2, CHR 0x80, CHR 0x82], [CHR 0xE2, CHR 0x80, CHR 0x83],
      [CHR 0xE2, CHR 0x80, CHR 0x84], [CHR 0xE2, CHR 0x80, CHR 0x85],
      [CHR 0xE2, CHR 0x80, CHR 0x86], [CHR 0xE2, CHR 0x80, CHR 0x87],
      [CHR 0xE2, CHR 0x80, CHR 0x88], [CHR 0xE2, CHR 0x80, CHR 0x89],
      [CHR 0xE2, CHR 0x80, CHR 0x8A], [CHR 0xE2, CHR 0x80, CHR 0xA8],
      [CHR 0xE2, CHR 0x80, CHR 0xA9], [CHR 0xE2, CHR 0x80, CHR 0xAF],
      [CHR 0xE2, CHR 0x81, CHR 0x9F], [CHR 0xE3, CHR 0x80, CHR 0x80]]"

definition front_seq :: "string list \<Rightarrow> string \<Rightarrow> string option" where
  "front_seq W s = find (\<lambda>w. w \<noteq> [] \<and> HasPrefix s w) W"

lemma front_seq_SomeD:
  assumes "front_seq W s = Some w"
  shows "w \<in> set W" and "w \<noteq> []" and "HasPrefix s w" and "s \<noteq> []"
  using assms by (auto simp: front_seq_def find_Some_iff HasPrefix_def)

function trim_front :: "string list \<Rightarrow> string \<Rightarrow> string" where
  "trim_front W s =
     (case front_seq W s of None \<Rightarrow> s | Some w \<Rightarrow> trim_front W (drop (length w) s))"
  by pat_completeness auto
termination
proof (relation "measure (\<lambda>(W, s). length s)", goal_cases)
  case 1
  then show ?case by simp
next
  case (2 W s w)
  from front_seq_SomeD[OF 2] show ?case by (cases w; cases s) auto
qed

declare trim_front.simps [simp del]

definition TrimSpace :: "string \<Rightarrow> string" where
  "TrimSpace s = rev (trim_front (map rev space_seqs) (rev (trim_front space_seqs s)))"

section \<open>Searching, cutting and splitting at a byte\<close>

fun Contains :: "string \<Rightarrow> string \<Rightarrow> bool" where
  "Contains [] p = (p = [])"
| "Contains (c # s) p = (HasPrefix (c # s) p \<or> Contains s p)"

text \<open>\<open>strings.Cut\<close> at a one-byte separator: the text before it, the text after it and
  whether it was found.\<close>

definition Cut :: "string \<Rightarrow> char \<Rightarrow> string \<times> string \<times> bool" where
  "Cut s c =
     (case dropWhile (\<lambda>x. x \<noteq> c) s of
        [] \<Rightarrow> (s, [], False)
      | _ # t \<Rightarrow> (takeWhile (\<lambda>x. x \<noteq> c) s, t, True))"

fun Split :: "string \<Rightarrow> char \<Rightarrow> string list" where
  "Split [] c = [[]]"
| "Split (x # s) c =
     (if x = c then [] # Split s c
      else case Split s c of [] \<Rightarrow> [[x]] | p # ps \<Rightarrow> (x # p) # ps)"

fun Join :: "string list \<Rightarrow> string \<Rightarrow> string" where
  "Join [] sep = []"
| "Join [s] sep = s"
| "Join (s # t # ss) sep = s @ sep @ Join (t # ss) sep"

section \<open>Decimal numbers\<close>

definition digit_val :: "char \<Rightarrow> int" where
  "digit_val c = byte c - 48"

definition digits_val :: "string \<Rightarrow> int" where
  "digits_val ds = foldl (\<lambda>a c. a * 10 + digit_val c) 0 ds"

text \<open>\<open>strconv.Atoi\<close> on a 64-bit platform: an optional sign, at least one decimal digit,
  nothing else, and a value in the range of \<open>int\<close>.\<close>

definition split_sign :: "string \<Rightarrow> bool \<times> string" where
  "split_sign s =
     (case s of
        [] \<Rightarrow> (False, [])
      | c # r \<Rightarrow> if c = CHR ''-'' then (True, r) else if c = CHR ''+'' then (False, r) else (False, s))"

definition Atoi :: "string \<Rightarrow> int option" where
  "Atoi s =
     (let neg = fst (split_sign s); ds = snd (split_sign s) in
      if ds = [] \<or> \<not> list_all is_digit ds then None
      else let v = (if neg then - digits_val ds else digits_val ds) in
        if - (9223372036854775808) \<le> v \<and> v < 9223372036854775808 then Some v else None)"

definition digit_char :: "int \<Rightarrow> char" where
  "digit_char d = char_of (48 + d)"

function nat_str :: "int \<Rightarrow> string" where
  "nat_str n = (if n < 10 then [digit_char n] else nat_str (n div 10) @ [digit_char (n mod 10)])"
  by pat_completeness auto
termination
  by (relation "measure nat") auto

declare nat_str.simps [simp del]

definition Itoa :: "int \<Rightarrow> string" where
  "Itoa n = (if n < 0 then CHR ''-'' # nat_str (- n) else nat_str n)"

section \<open>Go maps\<close>

text \<open>
  A Go map is an association list with distinct keys. The order in which a \<open>range\<close> loop
  visits a map is not specified by the language: where a map is built and then iterated, the
  order is an argument of the model, and \<open>range_order\<close> says that it visits every entry once.
\<close>

type_synonym 'v gomap = "(string \<times> 'v) list"

definition range_order :: "('a list \<Rightarrow> 'a list) \<Rightarrow> bool" where
  "range_order f \<longleftrightarrow> (\<forall>xs. mset (f xs) = mset xs)"

definition slice :: "'a list option \<Rightarrow> 'a list" where
  "slice xs = (case xs of None \<Rightarrow> [] | Some ys \<Rightarrow> ys)"

section \<open>Lemmas on strings\<close>

lemma slice_simps [simp]: "slice None = []" "slice (Some xs) = xs"
  by (simp_all add: slice_def)

lemma byte_less: "0 \<le> byte c" "byte c < 256"
  by (simp_all add: byte_def of_char_def horner_sum_bit_eq_take_bit)

lemma byte_char_of [simp]: "0 \<le> n \<Longrightarrow> n < 256 \<Longrightarrow> byte (char_of n) = n"
  by (simp add: byte_def)

lemma byte_inject [simp]: "byte c = byte d \<longleftrightarrow> c = d"
  by (simp add: byte_def)

lemma lower_char_idem [simp]: "lower_char (lower_char c) = lower_char c"
  by (auto simp: lower_char_def)

lemma ToLower_idem [simp]: "ToLower (ToLower s) = ToLower s"
  by (simp add: ToLower_def)

lemma ToLower_Nil [simp]: "ToLower s = [] \<longleftrightarrow> s = []"
  by (simp add: ToLower_def)

lemma HasPrefix_append [simp]: "HasPrefix (p @ s) p"
  by (simp add: HasPrefix_def)

lemma HasPrefix_iff: "HasPrefix s p \<longleftrightarrow> (\<exists>t. s = p @ t)"
  by (metis HasPrefix_append HasPrefix_def append_take_drop_id)

lemma HasPrefix_Nil [simp]: "HasPrefix s []"
  by (simp add: HasPrefix_def)

lemma HasPrefix_trans: "HasPrefix s p \<Longrightarrow> HasPrefix p q \<Longrightarrow> HasPrefix s q"
  by (auto simp: HasPrefix_iff)

lemma HasSuffix_iff: "HasSuffix s p \<longleftrightarrow> (\<exists>t. s = t @ p)"
proof -
  have "HasSuffix s p \<longleftrightarrow> (\<exists>t. rev s = rev p @ t)"
    by (simp add: HasSuffix_def HasPrefix_iff)
  also have "\<dots> \<longleftrightarrow> (\<exists>t. s = t @ p)"
    by (metis rev_append rev_rev_ident)
  finally show ?thesis .
qed


subsection \<open>Trimming\<close>

lemma trim_front_stop: "front_seq W s = None \<Longrightarrow> trim_front W s = s"
  by (simp add: trim_front.simps[of W s])

lemma trim_front_Nil [simp]: "trim_front W [] = []"
  by (rule trim_front_stop) (auto simp: front_seq_def find_None_iff HasPrefix_def)

lemma front_seq_trim_front [simp]: "front_seq W (trim_front W s) = None"
proof (induction W s rule: trim_front.induct)
  case (1 W s)
  then show ?case
    by (cases "front_seq W s") (simp_all add: trim_front.simps[of W s])
qed

lemma trim_front_suffix: "\<exists>t. s = t @ trim_front W s"
proof (induction W s rule: trim_front.induct)
  case (1 W s)
  show ?case
  proof (cases "front_seq W s")
    case None
    then show ?thesis by (simp add: trim_front_stop)
  next
    case (Some w)
    from 1[OF Some] obtain t where "drop (length w) s = t @ trim_front W (drop (length w) s)"
      by blast
    then have "s = (take (length w) s @ t) @ trim_front W s"
      using Some by (simp add: trim_front.simps[of W s])
    then show ?thesis by blast
  qed
qed

lemma front_seq_None_prefix:
  assumes "front_seq W (s @ t) = None"
  shows "front_seq W s = None"
  using assms by (auto simp: front_seq_def find_None_iff HasPrefix_iff)

lemma TrimSpace_idem [simp]: "TrimSpace (TrimSpace s) = TrimSpace s"
proof -
  let ?l = "trim_front space_seqs s"
  let ?r = "trim_front (map rev space_seqs) (rev ?l)"
  obtain t where "rev ?l = t @ ?r" using trim_front_suffix by blast
  then have "?l = rev ?r @ rev t" by (metis rev_append rev_rev_ident)
  moreover have "front_seq space_seqs ?l = None" by (rule front_seq_trim_front)
  ultimately have "front_seq space_seqs (rev ?r) = None"
    by (metis front_seq_None_prefix)
  then show ?thesis
    by (simp add: TrimSpace_def trim_front_stop)
qed

text \<open>A string that starts and ends with a printable ASCII byte is not changed by trimming.\<close>

definition graphic :: "char \<Rightarrow> bool" where
  "graphic c \<longleftrightarrow> 33 \<le> byte c \<and> byte c < 127"

lemma not_graphic_space_hd: "\<forall>w \<in> set space_seqs. \<not> graphic (hd w)"
  by (simp add: space_seqs_def graphic_def byte_def)

lemma not_graphic_space_last: "\<forall>w \<in> set (map rev space_seqs). \<not> graphic (hd w)"
  by (simp add: space_seqs_def graphic_def byte_def)

lemma front_seq_graphic:
  assumes "\<forall>w \<in> set W. \<not> graphic (hd w)" and "s \<noteq> [] \<Longrightarrow> graphic (hd s)"
  shows "front_seq W s = None"
  using assms by (auto simp: front_seq_def find_None_iff HasPrefix_iff hd_append)

lemma TrimSpace_graphic:
  assumes "s \<noteq> [] \<Longrightarrow> graphic (hd s)" and "s \<noteq> [] \<Longrightarrow> graphic (last s)"
  shows "TrimSpace s = s"
proof -
  have "trim_front space_seqs s = s"
    by (intro trim_front_stop front_seq_graphic not_graphic_space_hd assms)
  moreover have "trim_front (map rev space_seqs) (rev s) = rev s"
    by (intro trim_front_stop front_seq_graphic not_graphic_space_last)
      (use assms in \<open>auto simp: hd_rev\<close>)
  ultimately show ?thesis by (simp add: TrimSpace_def)
qed

lemma TrimSpace_all_graphic: "list_all graphic s \<Longrightarrow> TrimSpace s = s"
  by (rule TrimSpace_graphic) (auto simp: list_all_iff)

lemma TrimSpace_Nil [simp]: "TrimSpace [] = []"
  by (simp add: TrimSpace_def)

subsection \<open>Cut and Split\<close>

lemma Cut_absent: "c \<notin> set s \<Longrightarrow> Cut s c = (s, [], False)"
proof -
  assume "c \<notin> set s"
  then have "dropWhile (\<lambda>x. x \<noteq> c) s = []" by (auto simp: dropWhile_eq_Nil_conv)
  then show ?thesis by (simp only: Cut_def list.case)
qed

lemma Cut_present:
  assumes "c \<notin> set s"
  shows "Cut (s @ c # t) c = (s, t, True)"
proof -
  have "dropWhile (\<lambda>x. x \<noteq> c) (s @ c # t) = c # t" "takeWhile (\<lambda>x. x \<noteq> c) (s @ c # t) = s"
    using assms by (induction s) auto
  then show ?thesis by (simp add: Cut_def)
qed

lemma Cut_found_iff: "snd (snd (Cut s c)) \<longleftrightarrow> c \<in> set s"
proof (cases "c \<in> set s")
  case True
  then obtain a b where "s = a @ c # b" "c \<notin> set a"
    by (meson split_list_first)
  then show ?thesis by (simp add: Cut_present)
qed (simp add: Cut_absent)

lemma Split_not_Nil [simp]: "Split s c \<noteq> []"
  by (induction s) (auto split: list.splits)

lemma Split_absent: "c \<notin> set s \<Longrightarrow> Split s c = [s]"
  by (induction s) auto

lemma Split_present: "c \<notin> set s \<Longrightarrow> Split (s @ c # t) c = s # Split t c"
  by (induction s) auto

lemma Join_Split: "Join (Split s c) [c] = s"
proof (induction s)
  case (Cons x s)
  show ?case
  proof (cases "Split s c")
    case Nil
    then show ?thesis using Split_not_Nil by blast
  next
    case (Cons p ps)
    with Cons.IH show ?thesis by (cases ps) auto
  qed
qed simp

subsection \<open>Decimal round trip\<close>

lemma byte_digit_char: "0 \<le> d \<Longrightarrow> d < 10 \<Longrightarrow> byte (digit_char d) = 48 + d"
  by (simp add: digit_char_def)

lemma is_digit_digit_char: "0 \<le> d \<Longrightarrow> d < 10 \<Longrightarrow> is_digit (digit_char d)"
  by (simp add: is_digit_def byte_digit_char)

lemma nat_str_not_Nil [simp]: "nat_str n \<noteq> []"
  by (subst nat_str.simps) simp

lemma nat_str_digits: "0 \<le> n \<Longrightarrow> list_all is_digit (nat_str n)"
proof (induction n rule: nat_str.induct)
  case (1 n)
  then show ?case
    by (subst nat_str.simps) (auto simp: is_digit_digit_char)
qed

lemma digits_val_snoc: "digits_val (ds @ [c]) = digits_val ds * 10 + digit_val c"
  by (simp add: digits_val_def)

lemma digits_val_nat_str [simp]: "0 \<le> n \<Longrightarrow> digits_val (nat_str n) = n"
proof (induction n rule: nat_str.induct)
  case (1 n)
  show ?case
  proof (cases "n < 10")
    case True
    with 1 show ?thesis
      by (subst nat_str.simps) (simp add: digits_val_def digit_val_def byte_digit_char)
  next
    case False
    with 1 show ?thesis
      by (subst nat_str.simps) (simp add: digits_val_snoc digit_val_def byte_digit_char)
  qed
qed

lemma nat_str_inject: "0 \<le> m \<Longrightarrow> 0 \<le> n \<Longrightarrow> nat_str m = nat_str n \<longleftrightarrow> m = n"
  by (metis digits_val_nat_str)

lemma split_sign_digits: "list_all is_digit ds \<Longrightarrow> split_sign ds = (False, ds)"
  by (cases ds) (auto simp: split_sign_def is_digit_def byte_def)

lemma Atoi_digits:
  assumes "list_all is_digit ds" and "ds \<noteq> []"
  shows "Atoi ds = (if digits_val ds < 9223372036854775808 \<and> - (9223372036854775808) \<le> digits_val ds then Some (digits_val ds) else None)"
  using assms by (auto simp: Atoi_def split_sign_digits)

lemma Atoi_Itoa: "0 \<le> n \<Longrightarrow> n < 9223372036854775808 \<Longrightarrow> Atoi (Itoa n) = Some n"
  by (simp add: Itoa_def Atoi_digits nat_str_digits)

lemma Itoa_inject: "0 \<le> m \<Longrightarrow> 0 \<le> n \<Longrightarrow> Itoa m = Itoa n \<longleftrightarrow> m = n"
  by (auto simp: Itoa_def nat_str_inject)

lemma Itoa_digits: "0 \<le> n \<Longrightarrow> list_all is_digit (Itoa n) \<and> Itoa n \<noteq> []"
  by (simp add: Itoa_def nat_str_digits)

lemma is_digit_graphic: "is_digit c \<Longrightarrow> graphic c"
  by (simp add: is_digit_def graphic_def)

lemma digits_notin: "list_all is_digit ds \<Longrightarrow> \<not> is_digit c \<Longrightarrow> c \<notin> set ds"
  by (auto simp: list_all_iff)

lemma not_digit_sep [simp]: "\<not> is_digit CHR '':''" "\<not> is_digit CHR ''/''"
  by (simp_all add: is_digit_def byte_def)

lemma TrimSpace_digits: "list_all is_digit ds \<Longrightarrow> TrimSpace ds = ds"
  by (rule TrimSpace_all_graphic) (auto simp: list_all_iff is_digit_graphic)

section \<open>Lemmas on Go maps\<close>

lemma map_of_update [go_map]: "map_of (AList.update k v m) = (map_of m)(k \<mapsto> v)"
  by (rule update_conv')

lemma map_of_delete [go_map]: "map_of (AList.delete k m) = (map_of m)(k := None)"
  by (rule delete_conv')

lemma distinct_keys_update: "distinct (map fst m) \<Longrightarrow> distinct (map fst (AList.update k v m))"
  by (rule distinct_update)

lemma distinct_keys_delete: "distinct (map fst m) \<Longrightarrow> distinct (map fst (AList.delete k m))"
  by (rule distinct_delete)

lemma range_order_set: "range_order f \<Longrightarrow> set (f xs) = set xs"
  by (metis range_order_def set_mset_mset)

lemma range_order_length: "range_order f \<Longrightarrow> length (f xs) = length xs"
  by (metis range_order_def size_mset)

lemma range_order_distinct_keys:
  assumes "range_order f"
  shows "distinct (map g (f xs)) \<longleftrightarrow> distinct (map g xs)"
proof -
  have "mset (map g (f xs)) = mset (map g xs)"
    using assms by (simp add: range_order_def)
  then show ?thesis by (metis mset_eq_imp_distinct_iff)
qed

lemma map_of_perm:
  assumes "mset xs = mset ys" and "distinct (map fst ys)"
  shows "map_of xs = map_of ys"
proof -
  have "distinct (map fst xs)" using assms by (metis mset_eq_imp_distinct_iff mset_map)
  moreover have "set xs = set ys" using assms(1) by (metis set_mset_mset)
  ultimately show ?thesis using assms(2) by (metis map_of_inject_set)
qed

lemma map_of_range_order [go_map]:
  "range_order f \<Longrightarrow> distinct (map fst m) \<Longrightarrow> map_of (f m) = map_of m"
  by (rule map_of_perm) (simp_all add: range_order_def)

lemma range_order_id [simp]: "range_order id" "range_order (\<lambda>xs. xs)" "range_order rev"
  by (simp_all add: range_order_def)

text \<open>Filling a map from a list: later elements replace earlier ones.\<close>

definition gomap_of :: "('a \<Rightarrow> string) \<Rightarrow> 'a list \<Rightarrow> 'a gomap" where
  "gomap_of key xs = fold (\<lambda>x m. AList.update (key x) x m) xs []"

lemma gomap_of_snoc:
  "gomap_of key (xs @ [x]) = AList.update (key x) x (gomap_of key xs)"
  by (simp add: gomap_of_def)

lemma gomap_of_distinct [simp]: "distinct (map fst (gomap_of key xs))"
  by (induction xs rule: rev_induct) (simp_all add: gomap_of_def distinct_update)

lemma set_update_subset: "set (AList.update k v m) \<subseteq> insert (k, v) (set m)"
  by (induction m) auto

lemma gomap_of_key: "(k, x) \<in> set (gomap_of key xs) \<Longrightarrow> key x = k \<and> x \<in> set xs"
proof (induction xs arbitrary: k x rule: rev_induct)
  case (snoc y ys)
  with set_update_subset[of "key y" y "gomap_of key ys"] show ?case
    by (auto simp: gomap_of_snoc)
qed (simp add: gomap_of_def)

lemma map_of_gomap_of:
  "map_of (gomap_of key xs) k = find (\<lambda>x. key x = k) (rev xs)"
  by (induction xs rule: rev_induct) (auto simp: gomap_of_snoc go_map, simp add: gomap_of_def)

lemma gomap_of_map_of_distinct:
  assumes "distinct (map key xs)"
  shows "map_of (gomap_of key xs) k = Some x \<longleftrightarrow> x \<in> set xs \<and> key x = k"
proof -
  have *: "distinct (map key ys) \<Longrightarrow> find (\<lambda>x. key x = k) ys = Some x \<longleftrightarrow> x \<in> set ys \<and> key x = k"
    for ys by (induction ys) auto
  from assms have "distinct (map key (rev xs))" by (metis distinct_rev rev_map)
  from *[OF this] show ?thesis by (simp add: map_of_gomap_of)
qed

end
