(* ===== verification/Store.thy ===== *)
theory Store
  imports Prelude
begin

text \<open>
  The shared module \<open>src/store/store.go\<close>: deployments and image registries kept in one JSON
  file, every operation a read-modify-write of that file under a lock.

  The state is the file and its temporary sibling (\<open>disk\<close>). File contents are decoded JSON
  documents: the current object format, the older array format, or text that decodes as
  neither. \<open>json_Deployment\<close> is the value that encoding and decoding a deployment gives back:
  fields tagged \<open>json:"-"\<close> are lost, and a slice tagged \<open>omitempty\<close> comes back nil when it was
  empty. A nilable slice or map is an option where the code tells nil from empty.

  What the operating system may do wrong and the order in which Go visits a map are in
  \<open>store_env\<close>. The mutex and the \<open>flock\<close> serialise operations, so an execution is a sequence
  of whole operations; \<open>store_reach\<close> is the set of files such sequences produce.
\<close>

section \<open>Data\<close>

type_synonym Status = string
type_synonym StatusReason = string

definition StatusIdle :: Status where [simp]: "StatusIdle = ''idle''"
definition StatusDeploying :: Status where [simp]: "StatusDeploying = ''deploying''"
definition StatusHealthy :: Status where [simp]: "StatusHealthy = ''healthy''"
definition StatusFailed :: Status where [simp]: "StatusFailed = ''failed''"

record BasicAuthUser =
  bau_Username :: string
  bau_Password :: string

record BasicAuthConfig =
  bac_Users :: "BasicAuthUser list"

record SecurityConfig =
  sc_WAFEnabled :: bool
  sc_WAFMode :: string
  sc_IPDenylist :: "string list"
  sc_IPAllowlist :: "string list"
  sc_CustomRules :: "string list"

record FileMount =
  fm_Source :: string
  fm_Target :: string
  fm_Content :: string
  fm_UID :: "int option"
  fm_GID :: "int option"
  fm_FileMode :: string
  fm_ReadOnly :: bool

record Deployment =
  d_ID :: string
  d_Name :: string
  d_Image :: string
  d_Envs :: "string gomap option"
  d_Ports :: "string list option"
  d_ProxyPort :: int
  d_Volumes :: "string list option"
  d_FileMounts :: "FileMount list option"
  d_Domain :: string
  d_Public :: bool
  d_PublicSet :: bool
  d_ProxyPortSet :: bool
  d_BasicAuth :: "BasicAuthConfig option"
  d_Security :: "SecurityConfig option"
  d_Status :: Status
  d_Reason :: StatusReason
  d_Error :: string

text \<open>Go's zero value of the struct, from which composite literals start.\<close>

definition zero_Deployment :: Deployment where
  "zero_Deployment = \<lparr>d_ID = [], d_Name = [], d_Image = [], d_Envs = None, d_Ports = None,
     d_ProxyPort = 0, d_Volumes = None, d_FileMounts = None, d_Domain = [], d_Public = False,
     d_PublicSet = False, d_ProxyPortSet = False, d_BasicAuth = None, d_Security = None,
     d_Status = [], d_Reason = [], d_Error = []\<rparr>"

record Registry =
  r_ID :: string
  r_Prefix :: string
  r_Username :: string
  r_Secret :: string

record RegistryEntry =
  re_ID :: string
  re_Prefix :: string
  re_Username :: string

record RegistryAuth =
  ra_Username :: string
  ra_Password :: string

record RegistryExport =
  rx_Prefix :: string
  rx_Username :: string
  rx_Password :: string

record persistedState =
  ps_Deployments :: "Deployment list"
  ps_Registries :: "Registry list"

datatype store_error =
    ErrNotFound | ErrDuplicateName | ErrRegistryNotFound | ErrDuplicateRegistryPrefix
  | ErrPathEmpty | ErrPathNotAbsolute | ErrCreateDataDir
  | ErrRegistryFieldsRequired | ErrLockOpen | ErrLockAcquire
  | ErrOpen | ErrRewind | ErrDecode
  | ErrCreateTemp | ErrEncode | ErrSync | ErrClose | ErrRename
  | ErrNonce | ErrDecodeSecret | ErrSecretPayload | ErrDecryptSecret

section \<open>The file\<close>

datatype store_doc =
    ObjectDoc "Deployment list option" "Registry list option"
  | ArrayDoc "Deployment list"
  | CorruptDoc

record disk =
  dk_file :: "store_doc option"
  dk_tmp :: "store_doc option"

datatype persist_step = CreateTmp | EncodeTmp | SyncTmp | CloseTmp | RenameTmp

record store_env =
  se_lock_open :: bool
  se_flock :: bool
  se_open :: bool
  se_seek :: bool
  se_open2 :: bool
  se_seek2 :: bool
  se_persist :: "persist_step option"
  se_order :: "(string \<times> Deployment) list \<Rightarrow> (string \<times> Deployment) list"

definition json_Deployment :: "Deployment \<Rightarrow> Deployment" where
  "json_Deployment d = d\<lparr>d_PublicSet := False, d_ProxyPortSet := False,
     d_FileMounts := (if slice (d_FileMounts d) = [] then None else d_FileMounts d)\<rparr>"

definition encode_state :: "persistedState \<Rightarrow> store_doc" where
  "encode_state st = ObjectDoc (Some (map json_Deployment (ps_Deployments st)))
     (if ps_Registries st = [] then None else Some (ps_Registries st))"

definition NewJSONStore :: "bool \<Rightarrow> string \<Rightarrow> store_error + string" where
  "NewJSONStore mkdir_fails path =
     (if path = [] then Inl ErrPathEmpty
      else if \<not> HasPrefix path ''/'' then Inl ErrPathNotAbsolute
      else if mkdir_fails then Inl ErrCreateDataDir
      else Inr path)"

definition withLock :: "store_env \<Rightarrow> (disk \<Rightarrow> (store_error + 'a) \<times> disk) \<Rightarrow> disk
    \<Rightarrow> (store_error + 'a) \<times> disk" where
  "withLock e fn dk =
     (if se_lock_open e then (Inl ErrLockOpen, dk)
      else if se_flock e then (Inl ErrLockAcquire, dk)
      else fn dk)"

definition withRLock :: "store_env \<Rightarrow> (disk \<Rightarrow> store_error + 'a) \<Rightarrow> disk \<Rightarrow> store_error + 'a" where
  "withRLock e fn dk =
     (if se_lock_open e then Inl ErrLockOpen
      else if se_flock e then Inl ErrLockAcquire
      else fn dk)"

definition readState :: "bool \<Rightarrow> bool \<Rightarrow> disk \<Rightarrow> store_error + persistedState" where
  "readState open_fails seek_fails dk =
     (case dk_file dk of
        None \<Rightarrow> Inr \<lparr>ps_Deployments = [], ps_Registries = []\<rparr>
      | Some doc \<Rightarrow>
          if open_fails then Inl ErrOpen
          else case doc of
            ObjectDoc ds rs \<Rightarrow> Inr \<lparr>ps_Deployments = slice ds, ps_Registries = slice rs\<rparr>
          | ArrayDoc ds \<Rightarrow>
              if seek_fails then Inl ErrRewind
              else Inr \<lparr>ps_Deployments = ds, ps_Registries = []\<rparr>
          | CorruptDoc \<Rightarrow> if seek_fails then Inl ErrRewind else Inl ErrDecode)"

definition read_map :: "store_env \<Rightarrow> disk \<Rightarrow> store_error + Deployment gomap" where
  "read_map e dk =
     (case readState (se_open e) (se_seek e) dk of
        Inl err \<Rightarrow> Inl err
      | Inr st \<Rightarrow> Inr (gomap_of d_ID (ps_Deployments st)))"

subsection \<open>Writing: a temporary file, then a rename\<close>

fun persist_error :: "persist_step \<Rightarrow> store_error" where
  "persist_error CreateTmp = ErrCreateTemp"
| "persist_error EncodeTmp = ErrEncode"
| "persist_error SyncTmp = ErrSync"
| "persist_error CloseTmp = ErrClose"
| "persist_error RenameTmp = ErrRename"

fun persist_effect :: "store_doc \<Rightarrow> persist_step \<Rightarrow> disk \<Rightarrow> disk" where
  "persist_effect doc CreateTmp dk = dk\<lparr>dk_tmp := Some CorruptDoc\<rparr>"
| "persist_effect doc EncodeTmp dk = dk\<lparr>dk_tmp := Some doc\<rparr>"
| "persist_effect doc SyncTmp dk = dk"
| "persist_effect doc CloseTmp dk = dk"
| "persist_effect doc RenameTmp dk = dk\<lparr>dk_file := dk_tmp dk, dk_tmp := None\<rparr>"

definition persist_steps :: "persist_step list" where
  "persist_steps = [CreateTmp, EncodeTmp, SyncTmp, CloseTmp, RenameTmp]"

fun run_persist :: "store_doc \<Rightarrow> persist_step option \<Rightarrow> persist_step list \<Rightarrow> disk
    \<Rightarrow> (store_error + unit) \<times> disk" where
  "run_persist doc failing [] dk = (Inr (), dk)"
| "run_persist doc failing (s # ss) dk =
     (if failing = Some s
      then (Inl (persist_error s), if s = CreateTmp then dk else dk\<lparr>dk_tmp := None\<rparr>)
      else run_persist doc failing ss (persist_effect doc s dk))"

definition persistState :: "store_env \<Rightarrow> persistedState \<Rightarrow> disk \<Rightarrow> (store_error + unit) \<times> disk" where
  "persistState e st dk = run_persist (encode_state st) (se_persist e) persist_steps dk"

text \<open>The disk a machine that stops after \<open>k\<close> steps of the write leaves behind.\<close>

definition persist_crash :: "persistedState \<Rightarrow> nat \<Rightarrow> disk \<Rightarrow> disk" where
  "persist_crash st k dk = fold (persist_effect (encode_state st)) (take k persist_steps) dk"

definition persist :: "store_env \<Rightarrow> Deployment gomap \<Rightarrow> disk \<Rightarrow> (store_error + unit) \<times> disk" where
  "persist e data dk =
     (case readState (se_open2 e) (se_seek2 e) dk of
        Inl err \<Rightarrow> (Inl err, dk)
      | Inr st \<Rightarrow> persistState e (st\<lparr>ps_Deployments := map snd (se_order e data)\<rparr>) dk)"

section \<open>Deployments\<close>

definition JS_List :: "store_env \<Rightarrow> disk \<Rightarrow> store_error + Deployment list" where
  "JS_List e = withRLock e (\<lambda>dk.
     case read_map e dk of Inl err \<Rightarrow> Inl err | Inr data \<Rightarrow> Inr (map snd (se_order e data)))"

definition JS_Get :: "store_env \<Rightarrow> string \<Rightarrow> disk \<Rightarrow> store_error + Deployment" where
  "JS_Get e k = withRLock e (\<lambda>dk.
     case read_map e dk of
       Inl err \<Rightarrow> Inl err
     | Inr data \<Rightarrow> (case map_of data k of None \<Rightarrow> Inl ErrNotFound | Some d \<Rightarrow> Inr d))"

text \<open>Every writing operation persists the changed map and returns a value.\<close>

definition persist_returning :: "store_env \<Rightarrow> Deployment gomap \<Rightarrow> 'a \<Rightarrow> disk
    \<Rightarrow> (store_error + 'a) \<times> disk" where
  "persist_returning e data x dk =
     (case persist e data dk of (Inl err, dk') \<Rightarrow> (Inl err, dk') | (Inr _, dk') \<Rightarrow> (Inr x, dk'))"

definition JS_Create :: "store_env \<Rightarrow> Deployment \<Rightarrow> disk \<Rightarrow> (store_error + Deployment) \<times> disk" where
  "JS_Create e d = withLock e (\<lambda>dk.
     case read_map e dk of
       Inl err \<Rightarrow> (Inl err, dk)
     | Inr data \<Rightarrow>
         if \<exists>existing \<in> set (map snd data). d_Name existing = d_Name d
         then (Inl ErrDuplicateName, dk)
         else persist_returning e (AList.update (d_ID d) d data) d dk)"

definition JS_Update :: "store_env \<Rightarrow> Deployment \<Rightarrow> disk \<Rightarrow> (store_error + Deployment) \<times> disk" where
  "JS_Update e d = withLock e (\<lambda>dk.
     case read_map e dk of
       Inl err \<Rightarrow> (Inl err, dk)
     | Inr data \<Rightarrow>
         if map_of data (d_ID d) = None then (Inl ErrNotFound, dk)
         else persist_returning e (AList.update (d_ID d) d data) d dk)"

definition patch_merge :: "Deployment \<Rightarrow> Deployment \<Rightarrow> Deployment" where
  "patch_merge d p = d\<lparr>
     d_Image := (if d_Image p \<noteq> [] then d_Image p else d_Image d),
     d_Envs := (if d_Envs p \<noteq> None then d_Envs p else d_Envs d),
     d_Ports := (if d_Ports p \<noteq> None then d_Ports p else d_Ports d),
     d_Volumes := (if d_Volumes p \<noteq> None then d_Volumes p else d_Volumes d),
     d_FileMounts := (if d_FileMounts p \<noteq> None then d_FileMounts p else d_FileMounts d),
     d_ProxyPort := (if d_ProxyPortSet p then d_ProxyPort p else d_ProxyPort d),
     d_Domain := (if d_Domain p \<noteq> [] then d_Domain p else d_Domain d),
     d_Public := (if d_PublicSet p then d_Public p else d_Public d),
     d_BasicAuth := (if d_BasicAuth p \<noteq> None then d_BasicAuth p else d_BasicAuth d),
     d_Security := (if d_Security p \<noteq> None then d_Security p else d_Security d),
     d_Status := (if d_Status p \<noteq> [] then d_Status p else d_Status d),
     d_Reason := (if d_Status p \<noteq> [] then d_Reason p else d_Reason d),
     d_Error := (if d_Status p \<noteq> [] then d_Error p
                 else if d_Error p \<noteq> [] then d_Error p else d_Error d)\<rparr>"

definition JS_Patch :: "store_env \<Rightarrow> string \<Rightarrow> Deployment \<Rightarrow> disk
    \<Rightarrow> (store_error + Deployment) \<times> disk" where
  "JS_Patch e k p = withLock e (\<lambda>dk.
     case read_map e dk of
       Inl err \<Rightarrow> (Inl err, dk)
     | Inr data \<Rightarrow>
         (case map_of data k of
            None \<Rightarrow> (Inl ErrNotFound, dk)
          | Some d \<Rightarrow>
              persist_returning e (AList.update k (patch_merge d p) data) (patch_merge d p) dk))"

definition JS_Delete :: "store_env \<Rightarrow> string \<Rightarrow> disk \<Rightarrow> (store_error + unit) \<times> disk" where
  "JS_Delete e k = withLock e (\<lambda>dk.
     case read_map e dk of
       Inl err \<Rightarrow> (Inl err, dk)
     | Inr data \<Rightarrow>
         if map_of data k = None then (Inl ErrNotFound, dk)
         else persist_returning e (AList.delete k data) () dk)"

definition JS_UpdateStatus :: "store_env \<Rightarrow> string \<Rightarrow> Status \<Rightarrow> disk
    \<Rightarrow> (store_error + unit) \<times> disk" where
  "JS_UpdateStatus e k status = withLock e (\<lambda>dk.
     case read_map e dk of
       Inl err \<Rightarrow> (Inl err, dk)
     | Inr data \<Rightarrow>
         (case map_of data k of
            None \<Rightarrow> (Inr (), dk)
          | Some d \<Rightarrow>
              persist_returning e
                (AList.update k (d\<lparr>d_Status := status, d_Reason := [], d_Error := []\<rparr>) data) () dk))"


section \<open>What the file holds\<close>

definition store_view :: "disk \<Rightarrow> string \<rightharpoonup> Deployment" where
  "store_view dk =
     (case readState False False dk of
        Inl _ \<Rightarrow> Map.empty
      | Inr st \<Rightarrow> map_of (gomap_of d_ID (ps_Deployments st)))"

definition registry_view :: "disk \<Rightarrow> Registry list" where
  "registry_view dk =
     (case readState False False dk of Inl _ \<Rightarrow> [] | Inr st \<Rightarrow> ps_Registries st)"

definition store_inv :: "disk \<Rightarrow> bool" where
  "store_inv dk \<longleftrightarrow> dk_file dk \<noteq> Some CorruptDoc \<and> (\<forall>d \<in> ran (store_view dk). json_Deployment d = d)"

definition env_ok :: "store_env \<Rightarrow> bool" where
  "env_ok e \<longleftrightarrow> range_order (se_order e)"

definition faultless :: "store_env \<Rightarrow> bool" where
  "faultless e \<longleftrightarrow> \<not> se_lock_open e \<and> \<not> se_flock e \<and> \<not> se_open e \<and> \<not> se_seek e \<and>
     \<not> se_open2 e \<and> \<not> se_seek2 e \<and> se_persist e = None"

text \<open>No two deployments have the same name.\<close>

definition names_unique :: "(string \<rightharpoonup> Deployment) \<Rightarrow> bool" where
  "names_unique v \<longleftrightarrow>
     (\<forall>i j a b. v i = Some a \<longrightarrow> v j = Some b \<longrightarrow> d_Name a = d_Name b \<longrightarrow> i = j)"

section \<open>Reading and writing the file\<close>

lemma json_Deployment_idem [simp]: "json_Deployment (json_Deployment d) = json_Deployment d"
  by (simp add: json_Deployment_def)

lemma json_Deployment_fields [simp]:
  "d_ID (json_Deployment d) = d_ID d" "d_Name (json_Deployment d) = d_Name d"
  "d_Image (json_Deployment d) = d_Image d" "d_Envs (json_Deployment d) = d_Envs d"
  "d_Ports (json_Deployment d) = d_Ports d" "d_ProxyPort (json_Deployment d) = d_ProxyPort d"
  "d_Volumes (json_Deployment d) = d_Volumes d" "d_Domain (json_Deployment d) = d_Domain d"
  "d_Public (json_Deployment d) = d_Public d" "d_BasicAuth (json_Deployment d) = d_BasicAuth d"
  "d_Security (json_Deployment d) = d_Security d" "d_Status (json_Deployment d) = d_Status d"
  "d_Reason (json_Deployment d) = d_Reason d" "d_Error (json_Deployment d) = d_Error d"
  "slice (d_FileMounts (json_Deployment d)) = slice (d_FileMounts d)"
  by (simp_all add: json_Deployment_def)

lemma readState_Inr:
  assumes "readState o1 s1 dk = Inr st"
  shows "readState False False dk = Inr st"
  using assms by (auto simp: readState_def split: option.splits store_doc.splits if_splits)

lemma readState_faultless: "dk_file dk \<noteq> Some CorruptDoc \<Longrightarrow> \<exists>st. readState False False dk = Inr st"
  by (auto simp: readState_def split: option.splits store_doc.splits)

lemma read_map_Inr:
  assumes "read_map e dk = Inr data"
  shows "map_of data = store_view dk" and "distinct (map fst data)"
    and "(k, d) \<in> set data \<Longrightarrow> d_ID d = k"
proof -
  from assms obtain st where "readState (se_open e) (se_seek e) dk = Inr st"
    and data: "data = gomap_of d_ID (ps_Deployments st)"
    by (auto simp: read_map_def split: sum.splits)
  then show "map_of data = store_view dk"
    using readState_Inr by (fastforce simp: store_view_def)
  show "distinct (map fst data)" "(k, d) \<in> set data \<Longrightarrow> d_ID d = k"
    by (auto simp: data dest: gomap_of_key)
qed

lemma store_view_key: "store_view dk k = Some d \<Longrightarrow> d_ID d = k"
  by (auto simp: store_view_def dest!: map_of_SomeD gomap_of_key split: sum.splits)

lemma run_persist_ok: "run_persist doc None persist_steps dk = (Inr (), \<lparr>dk_file = Some doc, dk_tmp = None\<rparr>)"
  by (simp add: persist_steps_def)

lemma run_persist_fail:
  "run_persist doc (Some s) persist_steps dk =
     (Inl (persist_error s), if s = CreateTmp then dk else dk\<lparr>dk_tmp := None\<rparr>)"
  by (cases s) (simp_all add: persist_steps_def)

lemma persistState_cases:
  obtains s where "se_persist e = Some s" and "fst (persistState e st dk) = Inl (persist_error s)"
    and "dk_file (snd (persistState e st dk)) = dk_file dk"
  | "se_persist e = None"
    and "persistState e st dk = (Inr (), \<lparr>dk_file = Some (encode_state st), dk_tmp = None\<rparr>)"
proof (cases "se_persist e")
  case None
  then show ?thesis using that(2) by (simp add: persistState_def run_persist_ok)
next
  case (Some s)
  show ?thesis by (rule that(1)[OF Some]) (simp_all add: persistState_def Some run_persist_fail)
qed

text \<open>The views depend on the file alone, not on the temporary one.\<close>

lemma view_cong:
  assumes "dk_file dk' = dk_file dk"
  shows "store_view dk' = store_view dk" and "registry_view dk' = registry_view dk"
    and "store_inv dk' = store_inv dk"
proof -
  have "readState o1 s1 dk' = readState o1 s1 dk" for o1 s1
    using assms by (simp add: readState_def)
  then show "store_view dk' = store_view dk" "registry_view dk' = registry_view dk"
    by (simp_all add: store_view_def registry_view_def)
  with assms show "store_inv dk' = store_inv dk" by (simp add: store_inv_def)
qed

lemma readState_encoded [simp]:
  "readState False s1 \<lparr>dk_file = Some (encode_state st), dk_tmp = t\<rparr> =
     Inr \<lparr>ps_Deployments = map json_Deployment (ps_Deployments st), ps_Registries = ps_Registries st\<rparr>"
  by (simp add: readState_def encode_state_def)

lemma find_map_json:
  "find (\<lambda>x. d_ID x = k) (map json_Deployment xs) = map_option json_Deployment (find (\<lambda>x. d_ID x = k) xs)"
  by (induction xs) auto

lemma view_encoded:
  "store_view \<lparr>dk_file = Some (encode_state st), dk_tmp = t\<rparr> k =
     map_option json_Deployment (map_of (gomap_of d_ID (ps_Deployments st)) k)"
  by (simp add: store_view_def map_of_gomap_of rev_map find_map_json)

lemma registry_view_encoded [simp]:
  "registry_view \<lparr>dk_file = Some (encode_state st), dk_tmp = t\<rparr> = ps_Registries st"
  by (simp add: registry_view_def)

text \<open>A map keyed by deployment ID is unchanged by writing its values out and keying them again.\<close>

lemma gomap_of_values:
  assumes "distinct (map fst data)" and "\<And>k d. (k, d) \<in> set data \<Longrightarrow> d_ID d = k"
    and "range_order ord"
  shows "map_of (gomap_of d_ID (map snd (ord data))) = map_of data"
proof
  fix k
  have keys: "map d_ID (map snd (ord data)) = map fst (ord data)"
    using assms(2) range_order_set[OF assms(3)] by (auto intro!: map_cong)
  then have "distinct (map d_ID (map snd (ord data)))"
    by (simp only: range_order_distinct_keys[OF assms(3)] assms(1))
  note eq = gomap_of_map_of_distinct[OF this]
  have "x \<in> snd ` set data \<and> d_ID x = k \<longleftrightarrow> (k, x) \<in> set data" for x
  proof
    assume "x \<in> snd ` set data \<and> d_ID x = k"
    then obtain j where j: "(j, x) \<in> set data" and "d_ID x = k" by auto
    with assms(2)[OF j] show "(k, x) \<in> set data" by simp
  next
    assume x: "(k, x) \<in> set data"
    from imageI[OF this, of snd] assms(2)[OF x] show "x \<in> snd ` set data \<and> d_ID x = k" by simp
  qed
  then have "map_of (gomap_of d_ID (map snd (ord data))) k = Some d \<longleftrightarrow> map_of data k = Some d" for d
    by (simp add: eq range_order_set[OF assms(3)] map_of_eq_Some_iff[OF assms(1)])
  then show "map_of (gomap_of d_ID (map snd (ord data))) k = map_of data k"
    by (metis option.exhaust)
qed

definition keyed :: "Deployment gomap \<Rightarrow> bool" where
  "keyed data \<longleftrightarrow> distinct (map fst data) \<and> (\<forall>(k, d) \<in> set data. d_ID d = k)"

lemma keyed_read_map: "read_map e dk = Inr data \<Longrightarrow> keyed data"
  by (auto simp: keyed_def read_map_Inr)

lemma keyed_update: "keyed data \<Longrightarrow> d_ID d = k \<Longrightarrow> keyed (AList.update k d data)"
  using set_update_subset[of k d data] by (auto simp: keyed_def distinct_update)

lemma keyed_delete: "keyed data \<Longrightarrow> keyed (AList.delete k data)"
  by (auto simp: keyed_def distinct_delete) (auto simp: AList.delete_eq)

text \<open>The effect of a write: either an error and the same file, or the written map.\<close>

lemma persist_returning_Inr:
  assumes "persist_returning e data x dk = (Inr y, dk')" and "env_ok e" and "keyed data"
  shows "y = x" and "store_view dk' = (\<lambda>k. map_option json_Deployment (map_of data k))"
    and "registry_view dk' = registry_view dk" and "dk_file dk' \<noteq> Some CorruptDoc"
proof -
  from assms(1) obtain st where st: "readState (se_open2 e) (se_seek2 e) dk = Inr st"
    and p: "persistState e (st\<lparr>ps_Deployments := map snd (se_order e data)\<rparr>) dk = (Inr (), dk')"
    and y: "y = x"
    by (auto simp: persist_returning_def persist_def split: prod.splits sum.splits)
  from p have dk': "dk' = \<lparr>dk_file =
      Some (encode_state (st\<lparr>ps_Deployments := map snd (se_order e data)\<rparr>)), dk_tmp = None\<rparr>"
    by (cases rule: persistState_cases[of e "st\<lparr>ps_Deployments := map snd (se_order e data)\<rparr>" dk]) auto
  show "y = x" by (fact y)
  show "store_view dk' = (\<lambda>k. map_option json_Deployment (map_of data k))"
  proof -
    from assms(2,3) have "map_of (gomap_of d_ID (map snd (se_order e data))) = map_of data"
      by (intro gomap_of_values) (auto simp: keyed_def env_ok_def)
    then show ?thesis by (simp add: dk' view_encoded fun_eq_iff)
  qed
  show "registry_view dk' = registry_view dk"
    using readState_Inr[OF st] by (simp add: dk' registry_view_def)
  show "dk_file dk' \<noteq> Some CorruptDoc" by (simp add: dk' encode_state_def)
qed

lemma persist_returning_Inl:
  assumes "persist_returning e data x dk = (Inl err, dk')"
  shows "dk_file dk' = dk_file dk" and "err \<notin> {ErrNotFound, ErrDuplicateName}"
    and "\<not> faultless e \<or> dk_file dk = Some CorruptDoc"
proof -
  consider (read) "readState (se_open2 e) (se_seek2 e) dk = Inl err" and "dk' = dk"
    | (written) st where "persistState e st dk = (Inl err, dk')"
    using assms by (auto simp: persist_returning_def persist_def split: prod.splits sum.splits)
  then have *: "dk_file dk' = dk_file dk \<and> err \<notin> {ErrNotFound, ErrDuplicateName} \<and>
      (\<not> faultless e \<or> dk_file dk = Some CorruptDoc)"
  proof cases
    case read
    then show ?thesis
      by (auto simp: readState_def faultless_def split: option.splits store_doc.splits if_splits)
  next
    case (written st)
    show ?thesis
    proof (cases rule: persistState_cases[of e st dk])
      case (1 s)
      with written show ?thesis by (cases s) (auto simp: faultless_def)
    next
      case 2
      with written show ?thesis by simp
    qed
  qed
  then show "dk_file dk' = dk_file dk" "err \<notin> {ErrNotFound, ErrDuplicateName}"
    "\<not> faultless e \<or> dk_file dk = Some CorruptDoc"
    by auto
qed

lemma withLock_faultless: "faultless e \<Longrightarrow> withLock e fn dk = fn dk" "faultless e \<Longrightarrow> withRLock e gn dk = gn dk"
  by (simp_all add: withLock_def withRLock_def faultless_def)

lemma withLock_Inr:
  "withLock e fn dk = (Inr x, dk') \<Longrightarrow> fn dk = (Inr x, dk')"
  "withRLock e gn dk = Inr y \<Longrightarrow> gn dk = Inr y"
  by (auto simp: withLock_def withRLock_def split: if_splits)


section \<open>The contract of the store\<close>

text \<open>
  What the API, the reconciler, the proxy poller and the configuration tools rely on, over the
  partial map from IDs to deployments that the state represents. An operation given an
  environment of the store may fail for reasons outside the model; it then changes nothing.
\<close>

locale deployment_store =
  fixes view :: "'s \<Rightarrow> string \<rightharpoonup> Deployment"
    and inv :: "'s \<Rightarrow> bool"
    and ok :: "'e \<Rightarrow> bool"
    and list :: "'e \<Rightarrow> 's \<Rightarrow> store_error + Deployment list"
    and get :: "'e \<Rightarrow> string \<Rightarrow> 's \<Rightarrow> store_error + Deployment"
    and create :: "'e \<Rightarrow> Deployment \<Rightarrow> 's \<Rightarrow> (store_error + Deployment) \<times> 's"
    and update :: "'e \<Rightarrow> Deployment \<Rightarrow> 's \<Rightarrow> (store_error + Deployment) \<times> 's"
    and patch :: "'e \<Rightarrow> string \<Rightarrow> Deployment \<Rightarrow> 's \<Rightarrow> (store_error + Deployment) \<times> 's"
    and delete :: "'e \<Rightarrow> string \<Rightarrow> 's \<Rightarrow> (store_error + unit) \<times> 's"
  assumes view_key: "view s k = Some d \<Longrightarrow> d_ID d = k"
    and view_stored: "inv s \<Longrightarrow> view s k = Some d \<Longrightarrow> json_Deployment d = d"
    and list_Inr: "ok e \<Longrightarrow> list e s = Inr ds \<Longrightarrow> distinct (map d_ID ds) \<and> set ds = ran (view s)"
    and get_Inr: "get e k s = Inr d \<Longrightarrow> view s k = Some d"
    and get_NotFound: "get e k s = Inl ErrNotFound \<Longrightarrow> view s k = None"
    and create_Inr: "ok e \<Longrightarrow> inv s \<Longrightarrow> create e d s = (Inr d', s') \<Longrightarrow>
      d' = d \<and> d_Name d \<notin> d_Name ` ran (view s) \<and> inv s' \<and>
      view s' = (view s)(d_ID d \<mapsto> json_Deployment d)"
    and create_Inl: "create e d s = (Inl err, s') \<Longrightarrow> inv s' = inv s \<and> view s' = view s \<and>
      (err = ErrDuplicateName \<longrightarrow> d_Name d \<in> d_Name ` ran (view s))"
    and update_Inr: "ok e \<Longrightarrow> inv s \<Longrightarrow> update e d s = (Inr d', s') \<Longrightarrow>
      d' = d \<and> d_ID d \<in> dom (view s) \<and> inv s' \<and> view s' = (view s)(d_ID d \<mapsto> json_Deployment d)"
    and update_Inl: "update e d s = (Inl err, s') \<Longrightarrow> inv s' = inv s \<and> view s' = view s"
    and patch_Inr: "ok e \<Longrightarrow> inv s \<Longrightarrow> patch e k p s = (Inr d', s') \<Longrightarrow>
      (\<exists>d. view s k = Some d \<and> d' = patch_merge d p) \<and> inv s' \<and>
      view s' = (view s)(k \<mapsto> json_Deployment d')"
    and patch_Inl: "patch e k p s = (Inl err, s') \<Longrightarrow> inv s' = inv s \<and> view s' = view s"
    and delete_Inr: "ok e \<Longrightarrow> inv s \<Longrightarrow> delete e k s = (Inr u, s') \<Longrightarrow>
      k \<in> dom (view s) \<and> inv s' \<and> view s' = (view s)(k := None)"
    and delete_Inl: "delete e k s = (Inl err, s') \<Longrightarrow> inv s' = inv s \<and> view s' = view s"
begin

text \<open>Clients see the map through \<open>list\<close>: it returns each stored deployment once.\<close>

lemma list_lookup:
  assumes "ok e" and "list e s = Inr ds"
  shows "d \<in> set ds \<longleftrightarrow> view s (d_ID d) = Some d"
  using list_Inr[OF assms] view_key by (force simp: ran_def)

lemma get_of_list:
  assumes "ok e" and "list e s = Inr ds" and "get e' k s = Inr d"
  shows "d \<in> set ds"
  using get_Inr[OF assms(3)] view_key list_lookup[OF assms(1,2)] by metis

lemma create_then_get:
  assumes "ok e" and "inv s" and "create e d s = (Inr d', s')" and "get e' (d_ID d) s' = Inr x"
  shows "x = json_Deployment d"
  using create_Inr[OF assms(1-3)] get_Inr[OF assms(4)] by simp

lemma update_then_get:
  assumes "ok e" and "inv s" and "update e d s = (Inr d', s')" and "get e' (d_ID d) s' = Inr x"
  shows "x = json_Deployment d"
  using update_Inr[OF assms(1-3)] get_Inr[OF assms(4)] by simp

lemma patch_then_get:
  assumes "ok e" and "inv s" and "patch e k p s = (Inr d', s')" and "get e' k s' = Inr x"
  shows "x = json_Deployment d'"
  using patch_Inr[OF assms(1-3)] get_Inr[OF assms(4)] by simp

lemma delete_then_get:
  assumes "ok e" and "inv s" and "delete e k s = (Inr u, s')"
  shows "get e' k s' \<noteq> Inr x"
  using delete_Inr[OF assms] get_Inr[of e' k s' x] by auto

lemma create_names_unique:
  assumes "ok e" and "inv s" and "create e d s = (r, s')" and "names_unique (view s)"
  shows "names_unique (view s')"
proof (cases r)
  case (Inl err)
  with assms show ?thesis by (simp add: create_Inl)
next
  case (Inr d')
  with assms create_Inr have "d_Name d \<notin> d_Name ` ran (view s)"
    and v: "view s' = (view s)(d_ID d \<mapsto> json_Deployment d)" by auto
  then have "view s k = Some x \<Longrightarrow> d_Name x \<noteq> d_Name d" for k x
    by (metis imageI ranI)
  with assms(4) show ?thesis
    unfolding names_unique_def v by (auto split: if_splits) metis+
qed

lemma patch_names_unique:
  assumes "ok e" and "inv s" and "patch e k p s = (r, s')" and "names_unique (view s)"
  shows "names_unique (view s')"
proof (cases r)
  case (Inl err)
  with assms show ?thesis by (simp add: patch_Inl)
next
  case (Inr d')
  with assms patch_Inr obtain d where d: "view s k = Some d" "d' = patch_merge d p"
    and v: "view s' = (view s)(k \<mapsto> json_Deployment d')" by blast
  have "d_Name d' = d_Name d" by (simp add: d patch_merge_def)
  then show ?thesis
    unfolding names_unique_def v
    using d(1) assms(4) by (auto simp: names_unique_def split: if_splits)
qed

lemma delete_names_unique:
  assumes "ok e" and "inv s" and "delete e k s = (r, s')" and "names_unique (view s)"
  shows "names_unique (view s')"
proof (cases r)
  case (Inl err)
  with assms show ?thesis by (simp add: delete_Inl)
next
  case (Inr u)
  with assms delete_Inr have "view s' = (view s)(k := None)" by blast
  with assms(4) show ?thesis by (auto simp: names_unique_def split: if_splits)
qed

end

section \<open>The JSON store implements the contract\<close>

lemma store_inv_view: "store_inv dk \<Longrightarrow> map_option json_Deployment (store_view dk k) = store_view dk k"
  by (cases "store_view dk k") (auto simp: store_inv_def ran_def)

lemma store_inv_upd:
  assumes "store_inv dk" and "dk_file dk' \<noteq> Some CorruptDoc"
    and "store_view dk' = (\<lambda>k. map_option json_Deployment (m k))"
  shows "store_inv dk'"
  using assms by (auto simp: store_inv_def ran_def)

text \<open>A write of the map read from the file, changed at one key.\<close>

lemma write_update_Inr:
  assumes "read_map e dk = Inr data" and "env_ok e" and "d_ID d = k"
    and "persist_returning e (AList.update k d data) x dk = (Inr y, dk')" and "store_inv dk"
  shows "y = x \<and> store_inv dk' \<and> store_view dk' = (store_view dk)(k \<mapsto> json_Deployment d) \<and>
    registry_view dk' = registry_view dk"
proof -
  have "keyed (AList.update k d data)"
    using assms(1,3) by (simp add: keyed_update keyed_read_map)
  note w = persist_returning_Inr[OF assms(4,2) this]
  have v: "store_view dk' = (store_view dk)(k \<mapsto> json_Deployment d)"
    using store_inv_view[OF assms(5)]
    by (auto simp: w(2) go_map read_map_Inr(1)[OF assms(1)])
  with w assms(5) show ?thesis by (auto simp: store_inv_upd)
qed

lemma write_delete_Inr:
  assumes "read_map e dk = Inr data" and "env_ok e"
    and "persist_returning e (AList.delete k data) x dk = (Inr y, dk')" and "store_inv dk"
  shows "y = x \<and> store_inv dk' \<and> store_view dk' = (store_view dk)(k := None) \<and>
    registry_view dk' = registry_view dk"
proof -
  have "keyed (AList.delete k data)"
    using assms(1) by (simp add: keyed_delete keyed_read_map)
  note w = persist_returning_Inr[OF assms(3,2) this]
  have v: "store_view dk' = (store_view dk)(k := None)"
    using store_inv_view[OF assms(4)]
    by (auto simp: w(2) go_map read_map_Inr(1)[OF assms(1)])
  with w assms(4) show ?thesis by (auto simp: store_inv_upd)
qed

lemma JS_List_Inr:
  assumes "env_ok e" and "JS_List e dk = Inr ds"
  shows "distinct (map d_ID ds) \<and> set ds = ran (store_view dk)"
proof -
  from assms(2) obtain data where data: "read_map e dk = Inr data"
    and ds: "ds = map snd (se_order e data)"
    by (auto simp: JS_List_def dest!: withLock_Inr split: sum.splits)
  note k = keyed_read_map[OF data] and ord = assms(1)[unfolded env_ok_def]
  have "map d_ID ds = map fst (se_order e data)"
    using k range_order_set[OF ord] by (auto simp: ds keyed_def intro!: map_cong)
  with k have "distinct (map d_ID ds)"
    by (simp only: range_order_distinct_keys[OF ord] keyed_def)
  moreover have "set ds = ran (map_of data)"
    using k range_order_set[OF ord] by (simp add: ds ran_distinct keyed_def)
  ultimately show ?thesis by (simp add: read_map_Inr(1)[OF data])
qed

lemma JS_Create_Inr:
  assumes "env_ok e" and "store_inv dk" and "JS_Create e d dk = (Inr d', dk')"
  shows "d' = d \<and> d_Name d \<notin> d_Name ` ran (store_view dk) \<and> store_inv dk' \<and>
    store_view dk' = (store_view dk)(d_ID d \<mapsto> json_Deployment d) \<and>
    registry_view dk' = registry_view dk"
proof -
  from assms(3) obtain data where data: "read_map e dk = Inr data"
    and new: "\<not> (\<exists>x \<in> set (map snd data). d_Name x = d_Name d)"
    and p: "persist_returning e (AList.update (d_ID d) d data) d dk = (Inr d', dk')"
    by (auto simp: JS_Create_def dest!: withLock_Inr split: sum.splits if_splits)
  have "snd ` set data = ran (store_view dk)"
    using read_map_Inr[OF data] by (metis ran_distinct)
  with new have "d_Name d \<notin> d_Name ` ran (store_view dk)" by auto
  with write_update_Inr[OF data assms(1) refl p assms(2)] show ?thesis by blast
qed

lemma JS_Inl:
  "JS_Create e d dk = (Inl err, dk') \<Longrightarrow> dk_file dk' = dk_file dk"
  "JS_Update e d dk = (Inl err, dk') \<Longrightarrow> dk_file dk' = dk_file dk"
  "JS_Patch e k p dk = (Inl err, dk') \<Longrightarrow> dk_file dk' = dk_file dk"
  "JS_Delete e k dk = (Inl err, dk') \<Longrightarrow> dk_file dk' = dk_file dk"
  "JS_UpdateStatus e k st dk = (Inl err, dk') \<Longrightarrow> dk_file dk' = dk_file dk"
  by (auto simp: JS_Create_def JS_Update_def JS_Patch_def JS_Delete_def JS_UpdateStatus_def
      withLock_def split: if_splits sum.splits option.splits dest: persist_returning_Inl(1))


lemma JS_Update_Inr:
  assumes "env_ok e" and "store_inv dk" and "JS_Update e d dk = (Inr d', dk')"
  shows "d' = d \<and> d_ID d \<in> dom (store_view dk) \<and> store_inv dk' \<and>
    store_view dk' = (store_view dk)(d_ID d \<mapsto> json_Deployment d) \<and>
    registry_view dk' = registry_view dk"
proof -
  from assms(3) obtain data where data: "read_map e dk = Inr data"
    and old: "map_of data (d_ID d) \<noteq> None"
    and p: "persist_returning e (AList.update (d_ID d) d data) d dk = (Inr d', dk')"
    by (auto simp: JS_Update_def dest!: withLock_Inr split: sum.splits if_splits)
  from old have "d_ID d \<in> dom (store_view dk)" by (simp add: read_map_Inr(1)[OF data] dom_def)
  with write_update_Inr[OF data assms(1) refl p assms(2)] show ?thesis by blast
qed

lemma JS_Patch_Inr:
  assumes "env_ok e" and "store_inv dk" and "JS_Patch e k p dk = (Inr d', dk')"
  shows "(\<exists>d. store_view dk k = Some d \<and> d' = patch_merge d p) \<and> store_inv dk' \<and>
    store_view dk' = (store_view dk)(k \<mapsto> json_Deployment d') \<and>
    registry_view dk' = registry_view dk"
proof -
  from assms(3) obtain data d where data: "read_map e dk = Inr data" and d: "map_of data k = Some d"
    and p: "persist_returning e (AList.update k (patch_merge d p) data) (patch_merge d p) dk = (Inr d', dk')"
    by (auto simp: JS_Patch_def dest!: withLock_Inr split: sum.splits option.splits)
  from d have v: "store_view dk k = Some d" by (simp add: read_map_Inr(1)[OF data])
  then have "d_ID (patch_merge d p) = k" by (simp add: patch_merge_def store_view_key)
  from write_update_Inr[OF data assms(1) this p assms(2)] v show ?thesis by blast
qed

lemma JS_Delete_Inr:
  assumes "env_ok e" and "store_inv dk" and "JS_Delete e k dk = (Inr u, dk')"
  shows "k \<in> dom (store_view dk) \<and> store_inv dk' \<and> store_view dk' = (store_view dk)(k := None) \<and>
    registry_view dk' = registry_view dk"
proof -
  from assms(3) obtain data where data: "read_map e dk = Inr data"
    and old: "map_of data k \<noteq> None"
    and p: "persist_returning e (AList.delete k data) () dk = (Inr u, dk')"
    by (auto simp: JS_Delete_def dest!: withLock_Inr split: sum.splits if_splits)
  from old have "k \<in> dom (store_view dk)" by (simp add: read_map_Inr(1)[OF data] dom_def)
  with write_delete_Inr[OF data assms(1) p assms(2)] show ?thesis by blast
qed

lemma JS_UpdateStatus_Inr:
  assumes "env_ok e" and "store_inv dk" and "JS_UpdateStatus e k st dk = (Inr u, dk')"
  shows "store_inv dk' \<and> registry_view dk' = registry_view dk \<and>
    store_view dk' = (case store_view dk k of
        None \<Rightarrow> store_view dk
      | Some d \<Rightarrow> (store_view dk)(k \<mapsto> d\<lparr>d_Status := st, d_Reason := [], d_Error := []\<rparr>))"
proof -
  from assms(3) obtain data where data: "read_map e dk = Inr data"
    and *: "(case map_of data k of None \<Rightarrow> (Inr (), dk)
      | Some d \<Rightarrow> persist_returning e
          (AList.update k (d\<lparr>d_Status := st, d_Reason := [], d_Error := []\<rparr>) data) () dk) = (Inr u, dk')"
    by (auto simp: JS_UpdateStatus_def dest!: withLock_Inr split: sum.splits)
  show ?thesis
  proof (cases "store_view dk k")
    case None
    with * assms(2) show ?thesis by (simp add: read_map_Inr(1)[OF data])
  next
    case (Some d)
    let ?d = "d\<lparr>d_Status := st, d_Reason := [], d_Error := []\<rparr>"
    have p: "persist_returning e (AList.update k ?d data) () dk = (Inr u, dk')"
      using * Some by (simp add: read_map_Inr(1)[OF data])
    have "json_Deployment d = d" using assms(2) Some by (auto simp: store_inv_def ran_def)
    then have "json_Deployment ?d = ?d" by (cases d) (auto simp: json_Deployment_def split: if_splits)
    with write_update_Inr[OF data assms(1) _ p assms(2)] Some show ?thesis
      by (simp add: store_view_key)
  qed
qed

lemma JS_Create_duplicate:
  assumes "JS_Create e d dk = (Inl ErrDuplicateName, dk')"
  shows "d_Name d \<in> d_Name ` ran (store_view dk)"
proof -
  from assms obtain data where data: "read_map e dk = Inr data"
    and "(\<exists>x \<in> set (map snd data). d_Name x = d_Name d) \<or>
      persist_returning e (AList.update (d_ID d) d data) d dk = (Inl ErrDuplicateName, dk')"
    by (auto simp: JS_Create_def withLock_def read_map_def readState_def
        split: sum.splits if_splits option.splits store_doc.splits)
  then obtain x where "x \<in> snd ` set data" "d_Name x = d_Name d"
    using persist_returning_Inl(2) by force
  moreover have "snd ` set data = ran (store_view dk)"
    using read_map_Inr[OF data] by (metis ran_distinct)
  ultimately show ?thesis by (metis imageI)
qed

lemma read_map_not_found: "read_map e dk \<noteq> Inl ErrNotFound"
  by (auto simp: read_map_def readState_def split: sum.splits option.splits store_doc.splits if_splits)

interpretation js: deployment_store store_view store_inv env_ok JS_List JS_Get JS_Create JS_Update JS_Patch JS_Delete
proof (unfold_locales, goal_cases)
  case (1 s k d)
  then show ?case by (rule store_view_key)
next
  case (2 s k d)
  then show ?case by (auto simp: store_inv_def ran_def)
next
  case (3 e s ds)
  then show ?case by (rule JS_List_Inr)
next
  case (4 e k s d)
  then obtain data where "read_map e s = Inr data" "map_of data k = Some d"
    by (auto simp: JS_Get_def dest!: withLock_Inr split: sum.splits option.splits)
  then show ?case by (metis read_map_Inr(1))
next
  case (5 e k s)
  then obtain data where "read_map e s = Inr data" "map_of data k = None"
    by (auto simp: JS_Get_def withRLock_def read_map_not_found split: sum.splits option.splits if_splits)
  then show ?case by (metis read_map_Inr(1))
next
  case (6 e s d d' s')
  with JS_Create_Inr[OF this] show ?case by blast
next
  case (7 e d s err s')
  with JS_Inl(1) JS_Create_duplicate view_cong show ?case by blast
next
  case (8 e s d d' s')
  with JS_Update_Inr[OF this] show ?case by blast
next
  case (9 e d s err s')
  with JS_Inl(2) view_cong show ?case by blast
next
  case (10 e s k p d' s')
  with JS_Patch_Inr[OF this] show ?case by blast
next
  case (11 e k p s err s')
  with JS_Inl(3) view_cong show ?case by blast
next
  case (12 e s k u s')
  with JS_Delete_Inr[OF this] show ?case by blast
next
  case (13 e k s err s')
  with JS_Inl(4) view_cong show ?case by blast
qed


section \<open>Operations without faults\<close>

lemma read_map_faultless:
  assumes "faultless e" and "dk_file dk \<noteq> Some CorruptDoc"
  obtains data where "read_map e dk = Inr data"
  using assms readState_faultless[OF assms(2)] by (auto simp: read_map_def faultless_def)

lemma read_map_inv:
  assumes "faultless e" and "store_inv dk"
  obtains data where "read_map e dk = Inr data" and "map_of data = store_view dk"
    and "snd ` set data = ran (store_view dk)"
proof -
  from assms(2) have "dk_file dk \<noteq> Some CorruptDoc" by (simp add: store_inv_def)
  with assms(1) obtain data where data: "read_map e dk = Inr data" by (rule read_map_faultless)
  from read_map_Inr[OF data] have "snd ` set data = ran (store_view dk)" by (metis ran_distinct)
  with data read_map_Inr(1)[OF data] that show thesis by blast
qed

lemma persist_returning_faultless:
  assumes "faultless e" and "dk_file dk \<noteq> Some CorruptDoc"
  shows "\<exists>dk'. persist_returning e data x dk = (Inr x, dk')"
proof (cases "persist_returning e data x dk")
  case (Pair r dk')
  show ?thesis
  proof (cases r)
    case (Inl err)
    with Pair have "persist_returning e data x dk = (Inl err, dk')" by simp
    from persist_returning_Inl(3)[OF this] assms show ?thesis by blast
  next
    case (Inr y)
    have "y = x" using Pair Inr
      by (auto simp: persist_returning_def split: prod.splits sum.splits)
    with Pair Inr show ?thesis by simp
  qed
qed

lemma JS_Get_faultless:
  assumes "faultless e" and "store_inv dk"
  shows "JS_Get e k dk = (case store_view dk k of None \<Rightarrow> Inl ErrNotFound | Some d \<Rightarrow> Inr d)"
proof -
  from assms obtain data where "read_map e dk = Inr data" "map_of data = store_view dk"
    by (rule read_map_inv)
  with assms(1) show ?thesis by (simp add: JS_Get_def withLock_faultless)
qed

lemma JS_List_faultless:
  assumes "faultless e" and "store_inv dk"
  shows "\<exists>ds. JS_List e dk = Inr ds"
proof -
  from assms obtain data where "read_map e dk = Inr data" by (rule read_map_inv)
  with assms(1) show ?thesis by (simp add: JS_List_def withLock_faultless)
qed

lemma JS_Create_faultless:
  assumes "faultless e" and "store_inv dk" and "d_Name d \<notin> d_Name ` ran (store_view dk)"
  shows "\<exists>dk'. JS_Create e d dk = (Inr d, dk')"
proof -
  from assms(1,2) obtain data where "read_map e dk = Inr data"
    and "snd ` set data = ran (store_view dk)" by (rule read_map_inv)
  moreover from this(2) assms(3) have "\<not> (\<exists>x \<in> set (map snd data). d_Name x = d_Name d)"
    by (metis imageI list.set_map)
  ultimately show ?thesis
    using assms by (simp add: JS_Create_def withLock_faultless persist_returning_faultless store_inv_def)
qed

lemma JS_Patch_faultless:
  assumes "faultless e" and "store_inv dk" and "store_view dk k = Some d"
  shows "\<exists>dk'. JS_Patch e k p dk = (Inr (patch_merge d p), dk')"
proof -
  from assms(1,2) obtain data where "read_map e dk = Inr data" "map_of data = store_view dk"
    by (rule read_map_inv)
  with assms show ?thesis
    by (simp add: JS_Patch_def withLock_faultless persist_returning_faultless store_inv_def)
qed

lemma JS_Update_faultless:
  assumes "faultless e" and "store_inv dk" and "d_ID d \<in> dom (store_view dk)"
  shows "\<exists>dk'. JS_Update e d dk = (Inr d, dk')"
proof -
  from assms(1,2) obtain data where "read_map e dk = Inr data" "map_of data = store_view dk"
    by (rule read_map_inv)
  with assms show ?thesis
    by (auto simp: JS_Update_def withLock_faultless persist_returning_faultless store_inv_def)
qed

lemma JS_Delete_faultless:
  assumes "faultless e" and "store_inv dk" and "k \<in> dom (store_view dk)"
  shows "\<exists>dk'. JS_Delete e k dk = (Inr (), dk')"
proof -
  from assms(1,2) obtain data where "read_map e dk = Inr data" "map_of data = store_view dk"
    by (rule read_map_inv)
  with assms show ?thesis
    by (auto simp: JS_Delete_def withLock_faultless persist_returning_faultless store_inv_def)
qed

lemma patch_merge_idem: "patch_merge (patch_merge d p) p = patch_merge d p"
  by (simp add: patch_merge_def)

lemma json_patch_merge:
  "json_Deployment (patch_merge (json_Deployment d) p) = json_Deployment (patch_merge d p)"
  by (simp add: json_Deployment_def patch_merge_def)

section \<open>Sequences of operations\<close>

text \<open>The files that sequences of operations produce from a missing file. \<open>renames\<close> says
  whether an update may give a deployment a new name.\<close>

inductive store_reach :: "bool \<Rightarrow> disk \<Rightarrow> bool" for renames where
  start: "store_reach renames \<lparr>dk_file = None, dk_tmp = None\<rparr>"
| create: "store_reach renames dk \<Longrightarrow> env_ok e \<Longrightarrow> JS_Create e d dk = (r, dk') \<Longrightarrow>
    store_reach renames dk'"
| update: "store_reach renames dk \<Longrightarrow> env_ok e \<Longrightarrow> JS_Update e d dk = (r, dk') \<Longrightarrow>
    renames \<or> (\<forall>old. store_view dk (d_ID d) = Some old \<longrightarrow> d_Name old = d_Name d) \<Longrightarrow>
    store_reach renames dk'"
| patch: "store_reach renames dk \<Longrightarrow> env_ok e \<Longrightarrow> JS_Patch e k p dk = (r, dk') \<Longrightarrow>
    store_reach renames dk'"
| delete: "store_reach renames dk \<Longrightarrow> env_ok e \<Longrightarrow> JS_Delete e k dk = (r, dk') \<Longrightarrow>
    store_reach renames dk'"
| status: "store_reach renames dk \<Longrightarrow> env_ok e \<Longrightarrow> JS_UpdateStatus e k st dk = (r, dk') \<Longrightarrow>
    store_reach renames dk'"

lemma update_names_unique:
  assumes "env_ok e" and "store_inv dk" and "JS_Update e d dk = (r, dk')"
    and "names_unique (store_view dk)"
    and "\<forall>old. store_view dk (d_ID d) = Some old \<longrightarrow> d_Name old = d_Name d"
  shows "names_unique (store_view dk')"
proof (cases r)
  case (Inl err)
  with assms show ?thesis by (simp add: js.update_Inl)
next
  case (Inr d')
  with assms js.update_Inr obtain old where "store_view dk (d_ID d) = Some old"
    and v: "store_view dk' = (store_view dk)(d_ID d \<mapsto> json_Deployment d)" by blast
  with assms(4,5) show ?thesis
    unfolding names_unique_def v by (auto split: if_splits)
qed

lemma status_step:
  assumes "env_ok e" and "store_inv dk" and "JS_UpdateStatus e k st dk = (r, dk')"
  shows "store_inv dk'" and "names_unique (store_view dk) \<Longrightarrow> names_unique (store_view dk')"
proof -
  have "store_inv dk' \<and> (names_unique (store_view dk) \<longrightarrow> names_unique (store_view dk'))"
  proof (cases r)
    case (Inl err)
    with assms have "dk_file dk' = dk_file dk" using JS_Inl(5) by blast
    from view_cong[OF this] assms(2) show ?thesis by simp
  next
    case (Inr u)
    from JS_UpdateStatus_Inr[OF assms(1,2)] assms(3) Inr show ?thesis
      by (cases "store_view dk k") (auto simp: names_unique_def split: if_splits)
  qed
  then show "store_inv dk'" "names_unique (store_view dk) \<Longrightarrow> names_unique (store_view dk')" by auto
qed

lemma store_reach_keeps:
  "store_reach renames dk \<Longrightarrow> store_inv dk \<and> (renames \<or> names_unique (store_view dk))"
proof (induction rule: store_reach.induct)
  case start
  show ?case by (simp add: store_inv_def store_view_def readState_def gomap_of_def names_unique_def)
next
  case (create dk e d r dk')
  then show ?case
    by (cases r) (auto simp: js.create_names_unique dest: js.create_Inr js.create_Inl)
next
  case (update dk e d r dk')
  then show ?case
    by (cases r) (auto simp: update_names_unique dest: js.update_Inr js.update_Inl)
next
  case (patch dk e k p r dk')
  then show ?case
    by (cases r) (auto simp: js.patch_names_unique dest: js.patch_Inr js.patch_Inl)
next
  case (delete dk e k r dk')
  then show ?case
    by (cases r) (auto simp: js.delete_names_unique dest: js.delete_Inr js.delete_Inl)
next
  case (status dk e k st r dk')
  then show ?case using status_step by blast
qed


section \<open>Properties\<close>

text \<open>A faultless environment that visits maps in insertion order, an empty disk and three
  deployments, for the witnesses.\<close>

definition env0 :: store_env where
  "env0 = \<lparr>se_lock_open = False, se_flock = False, se_open = False, se_seek = False,
     se_open2 = False, se_seek2 = False, se_persist = None, se_order = (\<lambda>xs. xs)\<rparr>"

definition disk0 :: disk where
  "disk0 = \<lparr>dk_file = None, dk_tmp = None\<rparr>"

definition web :: Deployment where
  "web = zero_Deployment\<lparr>d_ID := ''1'', d_Name := ''web'', d_Image := ''nginx:1'',
     d_Status := ''deploying''\<rparr>"

definition api :: Deployment where
  "api = zero_Deployment\<lparr>d_ID := ''2'', d_Name := ''api'', d_Image := ''api:1'',
     d_Status := ''deploying''\<rparr>"

lemma env0_ok [simp]: "env_ok env0" "faultless env0"
  by (simp_all add: env_ok_def faultless_def env0_def)

lemma disk0_inv [simp]: "store_inv disk0" "store_view disk0 = Map.empty"
  by (simp_all add: store_inv_def store_view_def readState_def gomap_of_def disk0_def)

text \<open>
  C1. A deployment that the store accepted is read back. Without input/output faults, creating a
  deployment whose name no stored deployment has succeeds; afterwards \<open>Get\<close> on its ID returns
  the created value (as JSON keeps it) and \<open>Get\<close> on any other ID returns what it returned
  before.
\<close>

theorem create_get_roundtrip:
  assumes "faultless e" and "env_ok e" and "store_inv dk"
    and "d_Name d \<notin> d_Name ` ran (store_view dk)"
  shows "\<exists>dk'. JS_Create e d dk = (Inr d, dk') \<and> JS_Get e (d_ID d) dk' = Inr (json_Deployment d) \<and>
    (\<forall>k. k \<noteq> d_ID d \<longrightarrow> JS_Get e k dk' = JS_Get e k dk)"
proof -
  from JS_Create_faultless[OF assms(1,3,4)] obtain dk' where c: "JS_Create e d dk = (Inr d, dk')" ..
  note spec = js.create_Inr[OF assms(2,3) c]
  with assms show ?thesis by (auto simp: c JS_Get_faultless)
qed

theorem create_get_roundtrip_witness:
  "\<exists>dk'. JS_Create env0 web disk0 = (Inr web, dk') \<and> JS_Get env0 ''1'' dk' = Inr (json_Deployment web) \<and>
    (\<forall>k. k \<noteq> ''1'' \<longrightarrow> JS_Get env0 k dk' = JS_Get env0 k disk0)"
  using create_get_roundtrip[of env0 disk0 web] by (simp add: web_def)


text \<open>
  C3. Every file that a sequence of store operations produces, failed ones included, is readable,
  holds deployments in the form JSON keeps them, and, when updates do not rename, holds no two
  deployments of the same name.
\<close>

theorem store_reach_inv:
  assumes "store_reach renames dk"
  shows "store_inv dk \<and> (renames \<or> names_unique (store_view dk))"
  using assms by (rule store_reach_keeps)

theorem store_reach_inv_witness:
  "store_inv (snd (JS_Create env0 web disk0)) \<and> names_unique (store_view (snd (JS_Create env0 web disk0)))"
proof -
  have "store_reach False (snd (JS_Create env0 web disk0))"
    by (rule store_reach.create[OF store_reach.start env0_ok(1)]) (simp add: disk0_def prod_eq_iff)
  from store_reach_inv[OF this] show ?thesis by simp
qed

text \<open>
  \<open>Update\<close>, unlike \<open>Create\<close>, accepts a name that another deployment has: renaming through
  \<open>Update\<close> reaches a file with two deployments of one name.
\<close>

theorem update_breaks_unique_names:
  "\<exists>dk. store_reach True dk \<and> \<not> names_unique (store_view dk)"
proof -
  let ?a = "snd (JS_Create env0 web disk0)"
  let ?b = "snd (JS_Create env0 api ?a)"
  let ?c = "snd (JS_Update env0 (api\<lparr>d_Name := ''web''\<rparr>) ?b)"
  have b: "store_reach True ?b"
    by (rule store_reach.create[OF store_reach.create[OF store_reach.start]])
      (auto simp: disk0_def prod_eq_iff intro!: env0_ok)
  have c: "store_reach True ?c"
    by (rule store_reach.update[OF b env0_ok(1)]) (auto simp: prod_eq_iff)
  have "map_option d_Name (store_view ?c ''1'') = Some ''web''"
    and "map_option d_Name (store_view ?c ''2'') = Some ''web''"
    by code_simp+
  then obtain x y where "store_view ?c ''1'' = Some x" "store_view ?c ''2'' = Some y"
    "d_Name x = d_Name y" by auto
  then have "\<not> names_unique (store_view ?c)"
    by (fastforce simp only: names_unique_def list.inject char.inject)
  with c show ?thesis by blast
qed

text \<open>
  \<open>Patch\<close> merges exactly the fields the patch sets. Without faults, patching a stored
  deployment succeeds with \<open>patch_merge\<close>; the ID and the name never change; a patch that sets
  a status replaces reason and message with it; and repeating the patch changes nothing.
\<close>

theorem patch_spec:
  assumes "faultless e" and "env_ok e" and "store_inv dk" and "store_view dk k = Some d"
  shows "\<exists>dk'. JS_Patch e k p dk = (Inr (patch_merge d p), dk') \<and>
    store_view dk' = (store_view dk)(k \<mapsto> json_Deployment (patch_merge d p)) \<and>
    d_ID (patch_merge d p) = k \<and> d_Name (patch_merge d p) = d_Name d \<and>
    (d_Status p \<noteq> [] \<longrightarrow> d_Status (patch_merge d p) = d_Status p \<and>
       d_Reason (patch_merge d p) = d_Reason p \<and> d_Error (patch_merge d p) = d_Error p) \<and>
    (\<exists>r dk''. JS_Patch e k p dk' = (Inr r, dk'') \<and> store_view dk'' = store_view dk')"
proof -
  from JS_Patch_faultless[OF assms(1,3,4)] obtain dk'
    where c: "JS_Patch e k p dk = (Inr (patch_merge d p), dk')" by blast
  note spec = js.patch_Inr[OF assms(2,3) c]
  then have v: "store_view dk' = (store_view dk)(k \<mapsto> json_Deployment (patch_merge d p))"
    and inv: "store_inv dk'" by auto
  let ?d = "json_Deployment (patch_merge d p)"
  from v have d': "store_view dk' k = Some ?d" by simp
  from JS_Patch_faultless[OF assms(1) inv d'] obtain dk''
    where c': "JS_Patch e k p dk' = (Inr (patch_merge ?d p), dk'')" by blast
  have "store_view dk'' = store_view dk'"
    using js.patch_Inr[OF assms(2) inv c'] v
    by (simp add: json_patch_merge patch_merge_idem)
  with c v c' store_view_key[OF assms(4)] show ?thesis
    by (auto simp: patch_merge_def)
qed

definition disk1 :: disk where
  "disk1 = \<lparr>dk_file = Some (ObjectDoc (Some [web, api]) None), dk_tmp = None\<rparr>"

lemma disk1_view: "store_view disk1 = [''1'' \<mapsto> web, ''2'' \<mapsto> api]"
  by (auto simp: store_view_def disk1_def readState_def gomap_of_def web_def api_def fun_eq_iff)

lemma json_samples [simp]: "json_Deployment web = web" "json_Deployment api = api"
  by (simp_all add: json_Deployment_def web_def api_def zero_Deployment_def)

lemma disk1_inv [simp]: "store_inv disk1"
  by (simp add: store_inv_def disk1_view) (simp add: disk1_def)

theorem patch_spec_witness:
  "\<exists>dk'. JS_Patch env0 ''1'' (zero_Deployment\<lparr>d_Image := ''nginx:2''\<rparr>) disk1 =
      (Inr (web\<lparr>d_Image := ''nginx:2''\<rparr>), dk')"
proof -
  have "store_view disk1 ''1'' = Some web" by (simp add: disk1_view)
  from patch_spec[OF env0_ok(2,1) disk1_inv this, of "zero_Deployment\<lparr>d_Image := ''nginx:2''\<rparr>"]
  show ?thesis by (auto simp: patch_merge_def zero_Deployment_def web_def)
qed

end
