(* ===== verification/Registries.thy ===== *)
theory Registries
  imports Store
begin

text \<open>
  The registry half of \<open>src/store/store.go\<close>: credentials for image registries, kept in the same
  file as the deployments with their passwords encrypted, and the choice of the credentials for
  an image.

  AES-GCM, base64, SHA-256, the environment variables and the random source are the fields of
  \<open>crypto\<close>; \<open>crypto_ok\<close> states what the code relies on: opening what was sealed under the same
  key and nonce, decoding what was encoded, and nonces of the size GCM asks for. A 32-byte key
  is always accepted by AES, so the code's branches for a refused key cannot be reached.
\<close>

section \<open>Secrets\<close>

record crypto =
  cr_getenv :: "string \<Rightarrow> string"
  cr_path :: string
  cr_sha256 :: "string \<Rightarrow> string"
  cr_nonce :: "string option"
  cr_seal :: "string \<Rightarrow> string \<Rightarrow> string \<Rightarrow> string"
  cr_open :: "string \<Rightarrow> string \<Rightarrow> string \<Rightarrow> string option"
  cr_b64 :: "string \<Rightarrow> string"
  cr_unb64 :: "string \<Rightarrow> string option"

definition nonce_size :: nat where
  "nonce_size = 12"

definition crypto_ok :: "crypto \<Rightarrow> bool" where
  "crypto_ok cr \<longleftrightarrow>
     (\<forall>k n p. cr_open cr k n (cr_seal cr k n p) = Some p) \<and>
     (\<forall>x. cr_unb64 cr (cr_b64 cr x) = Some x) \<and>
     (\<forall>n. cr_nonce cr = Some n \<longrightarrow> length n = nonce_size)"

definition secretKey :: "crypto \<Rightarrow> string" where
  "secretKey cr =
     (let m1 = TrimSpace (cr_getenv cr ''LOTSEN_REGISTRY_SECRET'');
          m2 = (if m1 = [] then TrimSpace (cr_getenv cr ''LOTSEN_JWT_SECRET'') else m1);
          m3 = (if m2 = [] then ''lotsen-registry:'' @ cr_path cr else m2)
      in cr_sha256 cr m3)"

definition encryptSecret :: "crypto \<Rightarrow> string \<Rightarrow> store_error + string" where
  "encryptSecret cr secret =
     (case cr_nonce cr of
        None \<Rightarrow> Inl ErrNonce
      | Some nonce \<Rightarrow> Inr (cr_b64 cr (nonce @ cr_seal cr (secretKey cr) nonce secret)))"

definition decryptSecret :: "crypto \<Rightarrow> string \<Rightarrow> store_error + string" where
  "decryptSecret cr ciphertext =
     (case cr_unb64 cr ciphertext of
        None \<Rightarrow> Inl ErrDecodeSecret
      | Some payload \<Rightarrow>
          if length payload < nonce_size then Inl ErrSecretPayload
          else case cr_open cr (secretKey cr) (take nonce_size payload) (drop nonce_size payload) of
            None \<Rightarrow> Inl ErrDecryptSecret
          | Some plain \<Rightarrow> Inr plain)"

section \<open>Prefixes and image references\<close>

definition normalizeRegistryPrefix :: "string \<Rightarrow> string" where
  "normalizeRegistryPrefix prefix =
     TrimSuffix (TrimPrefix (TrimPrefix (TrimSpace (ToLower prefix)) ''https://'') ''http://'') ''/''"

definition normalizeImageRef :: "string \<Rightarrow> string" where
  "normalizeImageRef img = TrimSpace (ToLower img)"

definition registryMatchesImage :: "string \<Rightarrow> string \<Rightarrow> bool" where
  "registryMatchesImage prefix imageRef =
     (if \<not> HasPrefix imageRef prefix then False
      else if length imageRef = length prefix then True
      else imageRef ! length prefix \<in> {CHR ''/'', CHR '':'', CHR 0x40})"

section \<open>Operations\<close>

definition JS_ListRegistries :: "store_env \<Rightarrow> disk \<Rightarrow> store_error + RegistryEntry list" where
  "JS_ListRegistries e = withRLock e (\<lambda>dk.
     case readState (se_open e) (se_seek e) dk of
       Inl err \<Rightarrow> Inl err
     | Inr st \<Rightarrow> Inr (map (\<lambda>r. \<lparr>re_ID = r_ID r, re_Prefix = r_Prefix r, re_Username = r_Username r\<rparr>)
         (ps_Registries st)))"

text \<open>The registries are replaced in the state that was read, and the whole state written.\<close>

definition write_registries :: "store_env \<Rightarrow> persistedState \<Rightarrow> Registry list \<Rightarrow> disk
    \<Rightarrow> (store_error + unit) \<times> disk" where
  "write_registries e st rs dk = persistState e (st\<lparr>ps_Registries := rs\<rparr>) dk"

definition JS_CreateRegistry :: "crypto \<Rightarrow> store_env \<Rightarrow> string \<Rightarrow> string \<Rightarrow> string \<Rightarrow> string \<Rightarrow> disk
    \<Rightarrow> (store_error + RegistryEntry) \<times> disk" where
  "JS_CreateRegistry cr e k rawPrefix rawUsername rawPassword dk =
     (let prefix = normalizeRegistryPrefix rawPrefix;
          username = TrimSpace rawUsername;
          password = TrimSpace rawPassword in
      if k = [] \<or> prefix = [] \<or> username = [] \<or> password = []
      then (Inl ErrRegistryFieldsRequired, dk)
      else case encryptSecret cr password of
        Inl err \<Rightarrow> (Inl err, dk)
      | Inr secret \<Rightarrow>
          (case withLock e (\<lambda>dk.
             case readState (se_open e) (se_seek e) dk of
               Inl err \<Rightarrow> (Inl err, dk)
             | Inr st \<Rightarrow>
                 if \<exists>r \<in> set (ps_Registries st). r_Prefix r = prefix
                 then (Inl ErrDuplicateRegistryPrefix, dk)
                 else write_registries e st (ps_Registries st @
                   [\<lparr>r_ID = k, r_Prefix = prefix, r_Username = username, r_Secret = secret\<rparr>]) dk) dk
           of (Inl err, dk') \<Rightarrow> (Inl err, dk')
            | (Inr _, dk') \<Rightarrow> (Inr \<lparr>re_ID = k, re_Prefix = prefix, re_Username = username\<rparr>, dk')))"

fun scan_update :: "string \<Rightarrow> string \<Rightarrow> nat \<Rightarrow> nat option \<Rightarrow> Registry list
    \<Rightarrow> store_error + nat option" where
  "scan_update k prefix i index [] = Inr index"
| "scan_update k prefix i index (r # rs) =
     (if r_ID r = k then scan_update k prefix (Suc i) (Some i) rs
      else if r_Prefix r = prefix then Inl ErrDuplicateRegistryPrefix
      else scan_update k prefix (Suc i) index rs)"

definition update_registry_at :: "crypto \<Rightarrow> store_env \<Rightarrow> persistedState \<Rightarrow> nat \<Rightarrow> string \<Rightarrow> string
    \<Rightarrow> string \<Rightarrow> disk \<Rightarrow> (store_error + unit) \<times> disk" where
  "update_registry_at cr e st i prefix username password dk =
     (let updated = (ps_Registries st ! i)\<lparr>r_Prefix := prefix, r_Username := username\<rparr> in
      if password \<noteq> [] then
        (case encryptSecret cr password of
           Inl err \<Rightarrow> (Inl err, dk)
         | Inr secret \<Rightarrow>
             write_registries e st ((ps_Registries st)[i := updated\<lparr>r_Secret := secret\<rparr>]) dk)
      else write_registries e st ((ps_Registries st)[i := updated]) dk)"

definition JS_UpdateRegistry :: "crypto \<Rightarrow> store_env \<Rightarrow> string \<Rightarrow> string \<Rightarrow> string \<Rightarrow> string \<Rightarrow> disk
    \<Rightarrow> (store_error + RegistryEntry) \<times> disk" where
  "JS_UpdateRegistry cr e k rawPrefix rawUsername rawPassword dk =
     (let prefix = normalizeRegistryPrefix rawPrefix;
          username = TrimSpace rawUsername;
          password = TrimSpace rawPassword in
      if k = [] \<or> prefix = [] \<or> username = [] then (Inl ErrRegistryFieldsRequired, dk)
      else case withLock e (\<lambda>dk.
          case readState (se_open e) (se_seek e) dk of
            Inl err \<Rightarrow> (Inl err, dk)
          | Inr st \<Rightarrow>
              (case scan_update k prefix 0 None (ps_Registries st) of
                 Inl err \<Rightarrow> (Inl err, dk)
               | Inr None \<Rightarrow> (Inl ErrRegistryNotFound, dk)
               | Inr (Some i) \<Rightarrow> update_registry_at cr e st i prefix username password dk)) dk
        of (Inl err, dk') \<Rightarrow> (Inl err, dk')
         | (Inr _, dk') \<Rightarrow> (Inr \<lparr>re_ID = k, re_Prefix = prefix, re_Username = username\<rparr>, dk'))"

fun remove_registry :: "string \<Rightarrow> Registry list \<Rightarrow> Registry list option" where
  "remove_registry k [] = None"
| "remove_registry k (r # rs) =
     (if r_ID r \<noteq> k then map_option (Cons r) (remove_registry k rs) else Some rs)"

definition JS_DeleteRegistry :: "store_env \<Rightarrow> string \<Rightarrow> disk \<Rightarrow> (store_error + unit) \<times> disk" where
  "JS_DeleteRegistry e k dk =
     (if TrimSpace k = [] then (Inl ErrRegistryNotFound, dk)
      else withLock e (\<lambda>dk.
        case readState (se_open e) (se_seek e) dk of
          Inl err \<Rightarrow> (Inl err, dk)
        | Inr st \<Rightarrow>
            (case remove_registry k (ps_Registries st) of
               None \<Rightarrow> (Inl ErrRegistryNotFound, dk)
             | Some rs \<Rightarrow> write_registries e st rs dk)) dk)"

fun best_match :: "string \<Rightarrow> Registry option \<Rightarrow> Registry list \<Rightarrow> Registry option" where
  "best_match imageRef m [] = m"
| "best_match imageRef m (candidate # rs) =
     (if \<not> registryMatchesImage (r_Prefix candidate) imageRef then best_match imageRef m rs
      else case m of
        None \<Rightarrow> best_match imageRef (Some candidate) rs
      | Some r \<Rightarrow>
          if length (r_Prefix r) < length (r_Prefix candidate)
          then best_match imageRef (Some candidate) rs
          else best_match imageRef m rs)"

definition JS_ResolveRegistryAuth :: "crypto \<Rightarrow> store_env \<Rightarrow> string \<Rightarrow> disk
    \<Rightarrow> store_error + RegistryAuth option" where
  "JS_ResolveRegistryAuth cr e rawRef dk =
     (let imageRef = normalizeImageRef rawRef in
      if imageRef = [] then Inr None
      else case withRLock e (\<lambda>dk.
          case readState (se_open e) (se_seek e) dk of
            Inl err \<Rightarrow> Inl err
          | Inr st \<Rightarrow> Inr (best_match imageRef None (ps_Registries st))) dk
        of Inl err \<Rightarrow> Inl err
         | Inr None \<Rightarrow> Inr None
         | Inr (Some r) \<Rightarrow>
             (case decryptSecret cr (r_Secret r) of
                Inl err \<Rightarrow> Inl err
              | Inr password \<Rightarrow> Inr (Some \<lparr>ra_Username = r_Username r, ra_Password = password\<rparr>)))"

fun export_registries :: "crypto \<Rightarrow> Registry list \<Rightarrow> store_error + RegistryExport list" where
  "export_registries cr [] = Inr []"
| "export_registries cr (r # rs) =
     (case decryptSecret cr (r_Secret r) of
        Inl err \<Rightarrow> Inl err
      | Inr password \<Rightarrow>
          (case export_registries cr rs of
             Inl err \<Rightarrow> Inl err
           | Inr xs \<Rightarrow>
               Inr (\<lparr>rx_Prefix = r_Prefix r, rx_Username = r_Username r, rx_Password = password\<rparr> # xs)))"

definition JS_ListRegistriesForExport :: "crypto \<Rightarrow> store_env \<Rightarrow> disk
    \<Rightarrow> store_error + RegistryExport list" where
  "JS_ListRegistriesForExport cr e = withRLock e (\<lambda>dk.
     case readState (se_open e) (se_seek e) dk of
       Inl err \<Rightarrow> Inl err
     | Inr st \<Rightarrow> export_registries cr (ps_Registries st))"

section \<open>Lemmas\<close>

lemma decrypt_encrypt:
  assumes "crypto_ok cr" and "encryptSecret cr p = Inr c"
  shows "decryptSecret cr c = Inr p"
  using assms by (auto simp: encryptSecret_def decryptSecret_def crypto_ok_def split: option.splits)

lemma registryMatchesImage_iff:
  "registryMatchesImage prefix img \<longleftrightarrow>
     img = prefix \<or> (\<exists>c rest. img = prefix @ c # rest \<and> c \<in> {CHR ''/'', CHR '':'', CHR 0x40})"
proof (cases "HasPrefix img prefix")
  case False
  then show ?thesis by (auto simp: registryMatchesImage_def HasPrefix_iff)
next
  case True
  then obtain t where "img = prefix @ t" by (auto simp: HasPrefix_iff)
  with True show ?thesis by (cases t) (auto simp: registryMatchesImage_def nth_append)
qed

text \<open>The registries among which the choice is made, and what the choice guarantees.\<close>

definition longest_match :: "string \<Rightarrow> Registry set \<Rightarrow> Registry \<Rightarrow> bool" where
  "longest_match img R r \<longleftrightarrow> r \<in> R \<and> registryMatchesImage (r_Prefix r) img \<and>
     (\<forall>q \<in> R. registryMatchesImage (r_Prefix q) img \<longrightarrow> length (r_Prefix q) \<le> length (r_Prefix r))"

lemma best_match_spec:
  assumes "case m of None \<Rightarrow> (\<forall>q \<in> R. \<not> registryMatchesImage (r_Prefix q) img)
                   | Some r \<Rightarrow> longest_match img R r"
  shows "case best_match img m rs of
      None \<Rightarrow> (\<forall>q \<in> R \<union> set rs. \<not> registryMatchesImage (r_Prefix q) img)
    | Some r \<Rightarrow> longest_match img (R \<union> set rs) r"
  using assms
proof (induction rs arbitrary: m R)
  case Nil
  then show ?case by (simp split: option.splits)
next
  case (Cons c rs)
  let ?m = "if \<not> registryMatchesImage (r_Prefix c) img then m
    else case m of None \<Rightarrow> Some c
      | Some r \<Rightarrow> if length (r_Prefix r) < length (r_Prefix c) then Some c else m"
  have "case ?m of None \<Rightarrow> (\<forall>q \<in> insert c R. \<not> registryMatchesImage (r_Prefix q) img)
                 | Some r \<Rightarrow> longest_match img (insert c R) r"
    using Cons.prems by (auto simp: longest_match_def split: option.splits)
  from Cons.IH[OF this]
  have "case best_match img ?m rs of
      None \<Rightarrow> (\<forall>q \<in> insert c R \<union> set rs. \<not> registryMatchesImage (r_Prefix q) img)
    | Some r \<Rightarrow> longest_match img (insert c R \<union> set rs) r" .
  moreover have "best_match img m (c # rs) = best_match img ?m rs"
    by (simp split: option.splits)
  moreover have "insert c R \<union> set rs = R \<union> set (c # rs)" by auto
  ultimately show ?case by (simp only:)
qed

lemma best_match_None: "best_match img None rs = None \<longleftrightarrow> (\<forall>q \<in> set rs. \<not> registryMatchesImage (r_Prefix q) img)"
  using best_match_spec[where m = None and R = "{}" and img = img and rs = rs] by (auto simp: longest_match_def split: option.splits)

lemma best_match_Some: "best_match img None rs = Some r \<Longrightarrow> longest_match img (set rs) r"
  using best_match_spec[where m = None and R = "{}" and img = img and rs = rs] by (auto split: option.splits)

text \<open>A successful write of the registries: the new list, and the same deployments.\<close>

lemma write_registries_Inr:
  assumes "readState o1 s1 dk = Inr st" and "write_registries e st rs dk = (Inr u, dk')"
    and "store_inv dk"
  shows "registry_view dk' = rs" and "store_view dk' = store_view dk" and "store_inv dk'"
proof -
  from assms(2) have dk': "dk' = \<lparr>dk_file = Some (encode_state (st\<lparr>ps_Registries := rs\<rparr>)), dk_tmp = None\<rparr>"
    by (cases rule: persistState_cases[of e "st\<lparr>ps_Registries := rs\<rparr>" dk])
      (auto simp: write_registries_def)
  show "registry_view dk' = rs" by (simp add: dk')
  have v: "store_view dk' k = map_option json_Deployment (store_view dk k)" for k
    using readState_Inr[OF assms(1)] by (simp add: dk' view_encoded) (simp add: store_view_def)
  then show "store_view dk' = store_view dk"
    using store_inv_view[OF assms(3)] by (simp add: fun_eq_iff)
  with assms(3) show "store_inv dk'"
    by (simp add: store_inv_def) (simp add: dk' encode_state_def)
qed

lemma write_registries_Inl:
  "write_registries e st rs dk = (Inl err, dk') \<Longrightarrow> dk_file dk' = dk_file dk"
  by (cases rule: persistState_cases[of e "st\<lparr>ps_Registries := rs\<rparr>" dk])
    (auto simp: write_registries_def)

lemma registry_view_readState: "readState o1 s1 dk = Inr st \<Longrightarrow> registry_view dk = ps_Registries st"
  using readState_Inr by (fastforce simp: registry_view_def)

text \<open>A write under the lock: either an error, which leaves the file, or the new registries.\<close>

definition registries_written :: "disk \<Rightarrow> Registry list \<Rightarrow> disk \<Rightarrow> bool" where
  "registries_written dk rs dk' \<longleftrightarrow>
     registry_view dk' = rs \<and> store_view dk' = store_view dk \<and> store_inv dk'"

lemma JS_CreateRegistry_Inr:
  assumes "JS_CreateRegistry cr e k p u w dk = (Inr en, dk')" and "store_inv dk"
  obtains secret where "encryptSecret cr (TrimSpace w) = Inr secret"
    and "en = \<lparr>re_ID = k, re_Prefix = normalizeRegistryPrefix p, re_Username = TrimSpace u\<rparr>"
    and "normalizeRegistryPrefix p \<notin> r_Prefix ` set (registry_view dk)"
    and "registries_written dk (registry_view dk @ [\<lparr>r_ID = k, r_Prefix = normalizeRegistryPrefix p,
          r_Username = TrimSpace u, r_Secret = secret\<rparr>]) dk'"
proof -
  from assms(1) obtain secret st u' where s: "encryptSecret cr (TrimSpace w) = Inr secret"
    and en: "en = \<lparr>re_ID = k, re_Prefix = normalizeRegistryPrefix p, re_Username = TrimSpace u\<rparr>"
    and st: "readState (se_open e) (se_seek e) dk = Inr st"
    and new: "\<not> (\<exists>r \<in> set (ps_Registries st). r_Prefix r = normalizeRegistryPrefix p)"
    and wr: "write_registries e st (ps_Registries st @ [\<lparr>r_ID = k, r_Prefix = normalizeRegistryPrefix p,
          r_Username = TrimSpace u, r_Secret = secret\<rparr>]) dk = (Inr u', dk')"
    by (auto simp: JS_CreateRegistry_def Let_def dest!: withLock_Inr split: if_splits sum.splits prod.splits)
  note write_registries_Inr[OF st wr assms(2)]
  then have "registries_written dk (registry_view dk @ [\<lparr>r_ID = k, r_Prefix = normalizeRegistryPrefix p,
          r_Username = TrimSpace u, r_Secret = secret\<rparr>]) dk'"
    by (simp add: registries_written_def registry_view_readState[OF st])
  with s en new show thesis
    by (intro that) (auto simp: registry_view_readState[OF st])
qed

lemma scan_update_Inr:
  assumes "scan_update k prefix i index rs = Inr res"
  shows "(\<forall>r \<in> set rs. r_Prefix r = prefix \<longrightarrow> r_ID r = k) \<and>
    (case res of None \<Rightarrow> index = None \<and> k \<notin> r_ID ` set rs
     | Some j \<Rightarrow> index = Some j \<or> i \<le> j \<and> j < i + length rs \<and> r_ID (rs ! (j - i)) = k)"
  using assms
proof (induction rs arbitrary: i index)
  case Nil
  then show ?case by (auto split: option.splits)
next
  case (Cons r rs)
  have shift: "Suc i \<le> j \<Longrightarrow> (r # rs) ! (j - i) = rs ! (j - Suc i)" for j
    by (simp add: nth_Cons Suc_diff_Suc[symmetric] less_eq_Suc_le split: nat.splits)
  let ?index = "if r_ID r = k then Some i else index"
  have ok: "r_ID r = k \<or> r_Prefix r \<noteq> prefix"
    and "scan_update k prefix (Suc i) ?index rs = Inr res"
    using Cons.prems by (auto split: if_splits)
  from Cons.IH[OF this(2)] ok show ?case
    by (cases res) (auto simp: shift split: if_splits)
qed

lemma update_registry_at_Inr:
  assumes "update_registry_at cr e st i p u w dk = (Inr x, dk')"
  obtains r where "write_registries e st ((ps_Registries st)[i := r]) dk = (Inr x, dk')"
    and "r_ID r = r_ID (ps_Registries st ! i)" and "r_Prefix r = p" and "r_Username r = u"
    and "if w = [] then r_Secret r = r_Secret (ps_Registries st ! i)
         else encryptSecret cr w = Inr (r_Secret r)"
proof (cases "w = []")
  case True
  with assms show thesis
    by (intro that[of "(ps_Registries st ! i)\<lparr>r_Prefix := p, r_Username := u\<rparr>"])
      (simp_all add: update_registry_at_def)
next
  case False
  with assms obtain secret where "encryptSecret cr w = Inr secret"
    by (auto simp: update_registry_at_def split: sum.splits)
  with False assms show thesis
    by (intro that[of "(ps_Registries st ! i)\<lparr>r_Prefix := p, r_Username := u, r_Secret := secret\<rparr>"])
      (simp_all add: update_registry_at_def)
qed

lemma JS_UpdateRegistry_Inr:
  assumes "JS_UpdateRegistry cr e k p u w dk = (Inr en, dk')" and "store_inv dk"
  obtains i r where "i < length (registry_view dk)" and "r_ID (registry_view dk ! i) = k"
    and "r_ID r = k" and "r_Prefix r = normalizeRegistryPrefix p" and "r_Username r = TrimSpace u"
    and "if TrimSpace w = [] then r_Secret r = r_Secret (registry_view dk ! i)
         else encryptSecret cr (TrimSpace w) = Inr (r_Secret r)"
    and "\<forall>q \<in> set (registry_view dk). r_Prefix q = normalizeRegistryPrefix p \<longrightarrow> r_ID q = k"
    and "registries_written dk ((registry_view dk)[i := r]) dk'"
proof -
  let ?p = "normalizeRegistryPrefix p"
  from assms(1) obtain st i u' where st: "readState (se_open e) (se_seek e) dk = Inr st"
    and i: "scan_update k ?p 0 None (ps_Registries st) = Inr (Some i)"
    and up: "update_registry_at cr e st i ?p (TrimSpace u) (TrimSpace w) dk = (Inr u', dk')"
    by (auto simp: JS_UpdateRegistry_def Let_def dest!: withLock_Inr
        split: if_splits sum.splits prod.splits option.splits)
  have rv: "ps_Registries st = registry_view dk" using registry_view_readState[OF st] ..
  from scan_update_Inr[OF i] have i': "i < length (registry_view dk)" "r_ID (registry_view dk ! i) = k"
    "\<forall>q \<in> set (registry_view dk). r_Prefix q = ?p \<longrightarrow> r_ID q = k" by (auto simp: rv)
  from up obtain r where wr: "write_registries e st ((registry_view dk)[i := r]) dk = (Inr u', dk')"
    and r: "r_ID r = r_ID (registry_view dk ! i)" "r_Prefix r = ?p" "r_Username r = TrimSpace u"
    "if TrimSpace w = [] then r_Secret r = r_Secret (registry_view dk ! i)
     else encryptSecret cr (TrimSpace w) = Inr (r_Secret r)"
    unfolding rv[symmetric] by (rule update_registry_at_Inr)
  have "registries_written dk ((registry_view dk)[i := r]) dk'"
    using write_registries_Inr[OF st wr assms(2)] by (simp add: registries_written_def)
  with i' r show thesis by (intro that) simp_all
qed

lemma remove_registry_Some:
  "remove_registry k rs = Some rs' \<Longrightarrow>
     \<exists>as r bs. rs = as @ r # bs \<and> r_ID r = k \<and> rs' = as @ bs"
proof (induction rs arbitrary: rs')
  case (Cons r rs)
  show ?case
  proof (cases "r_ID r = k")
    case True
    with Cons.prems have "r # rs = [] @ r # rs \<and> r_ID r = k \<and> rs' = [] @ rs" by simp
    then show ?thesis by blast
  next
    case False
    with Cons obtain as q bs where "r # rs = (r # as) @ q # bs" "r_ID q = k" "rs' = (r # as) @ bs"
      by fastforce
    then show ?thesis by blast
  qed
qed simp

lemma JS_DeleteRegistry_Inr:
  assumes "JS_DeleteRegistry e k dk = (Inr en, dk')" and "store_inv dk"
  obtains as r bs where "registry_view dk = as @ r # bs" and "r_ID r = k"
    and "registries_written dk (as @ bs) dk'"
proof -
  from assms(1) obtain st rs where st: "readState (se_open e) (se_seek e) dk = Inr st"
    and rm: "remove_registry k (ps_Registries st) = Some rs"
    and wr: "write_registries e st rs dk = (Inr en, dk')"
    by (auto simp: JS_DeleteRegistry_def dest!: withLock_Inr split: if_splits sum.splits option.splits)
  from remove_registry_Some[OF rm] obtain as r bs where "ps_Registries st = as @ r # bs"
    "r_ID r = k" "rs = as @ bs" by blast
  with write_registries_Inr[OF st wr assms(2)] registry_view_readState[OF st] show thesis
    by (intro that) (auto simp: registries_written_def)
qed

lemma update_registry_at_Inl:
  "update_registry_at cr e st i p u w dk = (Inl err, dk') \<Longrightarrow> dk_file dk' = dk_file dk"
  by (auto simp: update_registry_at_def Let_def split: if_splits sum.splits dest: write_registries_Inl)

lemma registry_Inl:
  "JS_CreateRegistry cr e k p u w dk = (Inl err, dk') \<Longrightarrow> dk_file dk' = dk_file dk"
  "JS_UpdateRegistry cr e k p u w dk = (Inl err, dk') \<Longrightarrow> dk_file dk' = dk_file dk"
  "JS_DeleteRegistry e k dk = (Inl err, dk') \<Longrightarrow> dk_file dk' = dk_file dk"
  by (auto simp: JS_CreateRegistry_def JS_UpdateRegistry_def JS_DeleteRegistry_def withLock_def Let_def
      split: if_splits sum.splits option.splits prod.splits
      dest: write_registries_Inl update_registry_at_Inl)

section \<open>The contract of the whole store\<close>

text \<open>
  What the configuration tools rely on beside the contract for deployments: the operations on
  registries leave the deployments alone, whether they succeed or fail.
\<close>

locale state_store =
  deployment_store view inv ok list get create update patch delete
  for view :: "'s \<Rightarrow> string \<rightharpoonup> Deployment"
    and inv :: "'s \<Rightarrow> bool"
    and ok :: "'e \<Rightarrow> bool"
    and list :: "'e \<Rightarrow> 's \<Rightarrow> store_error + Deployment list"
    and get :: "'e \<Rightarrow> string \<Rightarrow> 's \<Rightarrow> store_error + Deployment"
    and create :: "'e \<Rightarrow> Deployment \<Rightarrow> 's \<Rightarrow> (store_error + Deployment) \<times> 's"
    and update :: "'e \<Rightarrow> Deployment \<Rightarrow> 's \<Rightarrow> (store_error + Deployment) \<times> 's"
    and patch :: "'e \<Rightarrow> string \<Rightarrow> Deployment \<Rightarrow> 's \<Rightarrow> (store_error + Deployment) \<times> 's"
    and delete :: "'e \<Rightarrow> string \<Rightarrow> 's \<Rightarrow> (store_error + unit) \<times> 's" +
  fixes createRegistry :: "'e \<Rightarrow> string \<Rightarrow> string \<Rightarrow> string \<Rightarrow> string \<Rightarrow> 's \<Rightarrow> (store_error + RegistryEntry) \<times> 's"
    and updateRegistry :: "'e \<Rightarrow> string \<Rightarrow> string \<Rightarrow> string \<Rightarrow> string \<Rightarrow> 's \<Rightarrow> (store_error + RegistryEntry) \<times> 's"
    and deleteRegistry :: "'e \<Rightarrow> string \<Rightarrow> 's \<Rightarrow> (store_error + unit) \<times> 's"
  assumes createRegistry_keeps: "inv s \<Longrightarrow> createRegistry e k p u w s = (r, s') \<Longrightarrow> inv s' \<and> view s' = view s"
    and updateRegistry_keeps: "inv s \<Longrightarrow> updateRegistry e k p u w s = (r, s') \<Longrightarrow> inv s' \<and> view s' = view s"
    and deleteRegistry_keeps: "inv s \<Longrightarrow> deleteRegistry e k s = (d, s') \<Longrightarrow> inv s' \<and> view s' = view s"

lemma registry_ops_keep_deployments:
  assumes "store_inv dk"
  shows "JS_CreateRegistry cr e k p u w dk = (r, dk') \<Longrightarrow> store_inv dk' \<and> store_view dk' = store_view dk"
    and "JS_UpdateRegistry cr e k p u w dk = (r, dk') \<Longrightarrow> store_inv dk' \<and> store_view dk' = store_view dk"
    and "JS_DeleteRegistry e k dk = (d, dk') \<Longrightarrow> store_inv dk' \<and> store_view dk' = store_view dk"
proof -
  have keep: "store_inv dk' \<and> store_view dk' = store_view dk" if "dk_file dk' = dk_file dk"
    using view_cong[OF that] assms by simp
  have written: "store_inv dk' \<and> store_view dk' = store_view dk" if "registries_written dk rs dk'" for rs
    using that by (simp add: registries_written_def)
  show "JS_CreateRegistry cr e k p u w dk = (r, dk') \<Longrightarrow> store_inv dk' \<and> store_view dk' = store_view dk"
    using assms registry_Inl(1) keep written by (cases r) (blast elim: JS_CreateRegistry_Inr)+
  show "JS_UpdateRegistry cr e k p u w dk = (r, dk') \<Longrightarrow> store_inv dk' \<and> store_view dk' = store_view dk"
    using assms registry_Inl(2) keep written by (cases r) (blast elim: JS_UpdateRegistry_Inr)+
  show "JS_DeleteRegistry e k dk = (d, dk') \<Longrightarrow> store_inv dk' \<and> store_view dk' = store_view dk"
    using assms registry_Inl(3) keep written by (cases d) (blast elim: JS_DeleteRegistry_Inr)+
qed

interpretation jss: state_store store_view store_inv env_ok JS_List JS_Get JS_Create JS_Update JS_Patch JS_Delete
  "JS_CreateRegistry cr" "JS_UpdateRegistry cr" JS_DeleteRegistry for cr
  by unfold_locales (erule registry_ops_keep_deployments; assumption)+

text \<open>The invariant of the registries: prefixes and IDs are unique.\<close>

definition registry_inv :: "Registry list \<Rightarrow> bool" where
  "registry_inv rs \<longleftrightarrow> distinct (map r_Prefix rs) \<and> distinct (map r_ID rs)"

lemma distinct_update_other:
  assumes "distinct xs" and "\<forall>j < length xs. j \<noteq> i \<longrightarrow> xs ! j \<noteq> x"
  shows "distinct (xs[i := x])"
  using assms by (cases "i < length xs") (auto simp: distinct_conv_nth nth_list_update)

lemma registry_inv_update:
  assumes "registry_inv rs" and "i < length rs" and "r_ID (rs ! i) = k" and "r_ID r = k"
    and "\<forall>q \<in> set rs. r_Prefix q = r_Prefix r \<longrightarrow> r_ID q = k"
  shows "registry_inv (rs[i := r])"
proof -
  have id: "j < length rs \<Longrightarrow> r_ID (rs ! j) = k \<Longrightarrow> j = i" for j
    using assms(1-3) by (auto simp: registry_inv_def distinct_conv_nth)
  have "map r_ID (rs[i := r]) = map r_ID rs"
    using assms(2-4) by (simp add: map_update list_update_same_conv)
  then have "distinct (map r_ID (rs[i := r]))" using assms(1) by (simp add: registry_inv_def)
  moreover have "distinct (map r_Prefix (rs[i := r]))"
    using assms(1,5) id by (auto simp: map_update registry_inv_def intro!: distinct_update_other)
  ultimately show ?thesis by (simp add: registry_inv_def)
qed

text \<open>Sample data: a cipher that leaves its argument, and a nonce of twelve bytes.\<close>

definition crypto0 :: crypto where
  "crypto0 = \<lparr>cr_getenv = (\<lambda>_. []), cr_path = ''/data'', cr_sha256 = (\<lambda>x. x),
     cr_nonce = Some (replicate 12 (CHR ''n'')), cr_seal = (\<lambda>k n p. p), cr_open = (\<lambda>k n c. Some c),
     cr_b64 = (\<lambda>x. x), cr_unb64 = Some\<rparr>"

lemma crypto0_ok: "crypto_ok crypto0"
  by (simp add: crypto_ok_def crypto0_def nonce_size_def)

section \<open>Properties\<close>

text \<open>
  Credentials come back as they were entered. When \<open>CreateRegistry\<close> succeeds and the prefix
  it stored matches an image and is longer than every other matching prefix,
  \<open>ResolveRegistryAuth\<close> on that image returns the trimmed user name and the trimmed password
  that were given.
\<close>

theorem registry_resolve_roundtrip:
  assumes "crypto_ok cr" and "faultless e" and "store_inv dk"
    and "JS_CreateRegistry cr e k p u w dk = (Inr en, dk')"
    and "registryMatchesImage (re_Prefix en) (normalizeImageRef ref)"
    and "\<forall>q \<in> set (registry_view dk). registryMatchesImage (r_Prefix q) (normalizeImageRef ref) \<longrightarrow>
      length (r_Prefix q) < length (re_Prefix en)"
  shows "JS_ResolveRegistryAuth cr e ref dk' =
    Inr (Some \<lparr>ra_Username = TrimSpace u, ra_Password = TrimSpace w\<rparr>)"
  using assms(4,3)
proof (rule JS_CreateRegistry_Inr)
  fix secret
  let ?p = "normalizeRegistryPrefix p" and ?i = "normalizeImageRef ref"
  let ?r = "\<lparr>r_ID = k, r_Prefix = ?p, r_Username = TrimSpace u, r_Secret = secret\<rparr>"
  assume s: "encryptSecret cr (TrimSpace w) = Inr secret"
    and en: "en = \<lparr>re_ID = k, re_Prefix = ?p, re_Username = TrimSpace u\<rparr>"
    and wr: "registries_written dk (registry_view dk @ [?r]) dk'"
  from wr obtain st where st: "readState False False dk' = Inr st"
    and rs: "ps_Registries st = registry_view dk @ [?r]"
    using readState_faultless[of dk'] registry_view_readState[of False False dk']
    by (auto simp: registries_written_def store_inv_def)
  have "?i \<noteq> []"
    using assms(4,5) en by (auto simp: registryMatchesImage_iff JS_CreateRegistry_def Let_def split: if_splits)
  moreover have "best_match ?i None (registry_view dk @ [?r]) = Some ?r"
  proof (cases "best_match ?i None (registry_view dk @ [?r])")
    case None
    with assms(5) en show ?thesis by (simp add: best_match_None)
  next
    case (Some r)
    from best_match_Some[OF this] assms(5,6) en show ?thesis
      using Some by (force simp: longest_match_def)
  qed
  ultimately show ?thesis
    using assms(2) decrypt_encrypt[OF assms(1) s] st rs
    by (simp add: JS_ResolveRegistryAuth_def withLock_faultless) (simp add: faultless_def)
qed

theorem registry_resolve_roundtrip_witness:
  "JS_ResolveRegistryAuth crypto0 env0 ''Registry.io/App:1''
     (snd (JS_CreateRegistry crypto0 env0 ''r1'' '' https://registry.io/ '' ''bob '' ''s3cret'' disk1)) =
   Inr (Some \<lparr>ra_Username = ''bob'', ra_Password = ''s3cret''\<rparr>)"
proof -
  let ?c = "JS_CreateRegistry crypto0 env0 ''r1'' '' https://registry.io/ '' ''bob '' ''s3cret'' disk1"
  let ?en = "\<lparr>re_ID = ''r1'', re_Prefix = ''registry.io'', re_Username = ''bob''\<rparr>"
  have "fst ?c = Inr ?en" by code_simp
  then have c: "?c = (Inr ?en, snd ?c)" by (simp add: prod_eq_iff)
  have m: "registryMatchesImage (re_Prefix ?en) (normalizeImageRef ''Registry.io/App:1'')" by code_simp
  have "registry_view disk1 = []" by code_simp
  with registry_resolve_roundtrip[OF crypto0_ok env0_ok(2) disk1_inv c m]
  have "JS_ResolveRegistryAuth crypto0 env0 ''Registry.io/App:1'' (snd ?c) =
    Inr (Some \<lparr>ra_Username = TrimSpace ''bob '', ra_Password = TrimSpace ''s3cret''\<rparr>)" by simp
  moreover have "TrimSpace ''bob '' = ''bob''" "TrimSpace ''s3cret'' = ''s3cret''" by code_simp+
  ultimately show ?thesis by simp
qed

text \<open>
  Which credentials an image gets. Reading the file without faults, \<open>ResolveRegistryAuth\<close>
  answers \<open>None\<close> exactly when no registry prefix matches the image, and otherwise the answer is
  made from a registry whose prefix matches at a path boundary and is longest among those that
  match.
\<close>

theorem resolve_longest_prefix:
  assumes "faultless e" and "store_inv dk" and "normalizeImageRef ref \<noteq> []"
  shows "case JS_ResolveRegistryAuth cr e ref dk of
      Inr None \<Rightarrow> (\<forall>q \<in> set (registry_view dk). \<not> registryMatchesImage (r_Prefix q) (normalizeImageRef ref))
    | Inr (Some auth) \<Rightarrow> (\<exists>r. longest_match (normalizeImageRef ref) (set (registry_view dk)) r \<and>
        decryptSecret cr (r_Secret r) = Inr (ra_Password auth) \<and> ra_Username auth = r_Username r)
    | Inl err \<Rightarrow> (\<exists>r. longest_match (normalizeImageRef ref) (set (registry_view dk)) r \<and>
        decryptSecret cr (r_Secret r) = Inl err)"
proof -
  from assms(2) obtain st where st: "readState False False dk = Inr st"
    using readState_faultless[of dk] by (auto simp: store_inv_def)
  note rv = registry_view_readState[OF st]
  have "JS_ResolveRegistryAuth cr e ref dk =
      (case best_match (normalizeImageRef ref) None (registry_view dk) of
         None \<Rightarrow> Inr None
       | Some r \<Rightarrow> (case decryptSecret cr (r_Secret r) of
            Inl err \<Rightarrow> Inl err
          | Inr password \<Rightarrow> Inr (Some \<lparr>ra_Username = r_Username r, ra_Password = password\<rparr>)))"
    using assms(1,3) st rv
    by (simp add: JS_ResolveRegistryAuth_def withLock_faultless split: option.splits)
      (simp add: faultless_def)
  then show ?thesis
    by (auto simp: best_match_None dest!: best_match_Some split: option.splits sum.splits)
qed

theorem resolve_longest_prefix_witness:
  "case JS_ResolveRegistryAuth crypto0 env0 ''nginx'' disk1 of
      Inr None \<Rightarrow> (\<forall>q \<in> set (registry_view disk1). \<not> registryMatchesImage (r_Prefix q) (normalizeImageRef ''nginx''))
    | Inr (Some auth) \<Rightarrow> (\<exists>r. longest_match (normalizeImageRef ''nginx'') (set (registry_view disk1)) r \<and>
        decryptSecret crypto0 (r_Secret r) = Inr (ra_Password auth) \<and> ra_Username auth = r_Username r)
    | Inl err \<Rightarrow> (\<exists>r. longest_match (normalizeImageRef ''nginx'') (set (registry_view disk1)) r \<and>
        decryptSecret crypto0 (r_Secret r) = Inl err)"
proof (rule resolve_longest_prefix[OF env0_ok(2) disk1_inv])
  have "normalizeImageRef ''nginx'' = ''nginx''" by code_simp
  then show "normalizeImageRef ''nginx'' \<noteq> []" by simp
qed

text \<open>
  The registry operations keep prefixes and IDs unique and never touch the deployments: a
  creation under a fresh ID, an update and a deletion, whether they succeed or report an error,
  preserve the invariant and the deployments of the file, and an error leaves the registries.
\<close>

theorem registry_ops_keep_invariant:
  assumes "store_inv dk" and "registry_inv (registry_view dk)"
    and "(k \<notin> r_ID ` set (registry_view dk) \<and> (res, dk') = JS_CreateRegistry cr e k p u w dk) \<or>
      (res, dk') = JS_UpdateRegistry cr e k p u w dk \<or>
      (map_sum id (\<lambda>_. ()) res, dk') = JS_DeleteRegistry e k dk"
  shows "store_inv dk' \<and> registry_inv (registry_view dk') \<and> store_view dk' = store_view dk \<and>
    (\<forall>err. res = Inl err \<longrightarrow> registry_view dk' = registry_view dk)"
proof (cases res)
  case (Inl err)
  with assms(3) have "dk_file dk' = dk_file dk"
    by (auto dest!: sym[of "(_, dk')"] dest: registry_Inl)
  from view_cong[OF this] assms show ?thesis by simp
next
  case (Inr en)
  with assms(3) consider
      (create) "k \<notin> r_ID ` set (registry_view dk)" "JS_CreateRegistry cr e k p u w dk = (Inr en, dk')"
    | (update) "JS_UpdateRegistry cr e k p u w dk = (Inr en, dk')"
    | (delete) "JS_DeleteRegistry e k dk = (Inr (), dk')"
    by auto
  then obtain rs where "registries_written dk rs dk'" "registry_inv rs"
  proof cases
    case create
    show thesis
      using create(2) assms(1)
    proof (rule JS_CreateRegistry_Inr)
    qed (rule that, assumption, use assms(2) create(1) in \<open>auto simp: registry_inv_def\<close>)
  next
    case update
    show thesis
      using update assms(1)
      by (rule JS_UpdateRegistry_Inr) (rule that, assumption, rule registry_inv_update[OF assms(2)], auto)
  next
    case delete
    show thesis
      using delete assms(1)
      by (rule JS_DeleteRegistry_Inr)
        (rule that, assumption, use assms(2) in \<open>auto simp: registry_inv_def\<close>)
  qed
  with Inr show ?thesis by (simp add: registries_written_def)
qed

theorem registry_ops_keep_invariant_witness:
  "registry_inv (registry_view (snd (JS_CreateRegistry crypto0 env0 ''r1'' ''registry.io'' ''bob'' ''s3cret'' disk1))) \<and>
   store_view (snd (JS_CreateRegistry crypto0 env0 ''r1'' ''registry.io'' ''bob'' ''s3cret'' disk1)) = store_view disk1"
proof -
  let ?c = "JS_CreateRegistry crypto0 env0 ''r1'' ''registry.io'' ''bob'' ''s3cret'' disk1"
  have "registry_view disk1 = []" by code_simp
  then have "registry_inv (registry_view disk1)" "''r1'' \<notin> r_ID ` set (registry_view disk1)"
    by (simp_all add: registry_inv_def)
  from registry_ops_keep_invariant[OF disk1_inv this(1), where res = "fst ?c" and dk' = "snd ?c"] this(2)
  show ?thesis by (metis prod.collapse)
qed

end
