(* ===== verification/Ports.thy ===== *)
theory Ports
  imports Store
begin

text \<open>
  Host ports of deployments, from \<open>src/api/internal/api/handler.go\<close>: port specifications and
  their text form, the assignment of host ports to a deployment, the allocation of a free host
  port, and the check of the proxy port. A Go map with empty values is a list of its keys.
\<close>

section \<open>Port specifications\<close>

definition hostPortRangeMin :: int where "hostPortRangeMin = 32768"
definition hostPortRangeMax :: int where "hostPortRangeMax = 60999"

datatype port_number_error = PortNotNumeric | PortOutOfRange

datatype port_error =
    PortEmpty
  | PortProtocol string
  | PortMapping string
  | PortNumber string port_number_error
  | HostPortConflict int string
  | NoHostPortsAvailable

record portSpec =
  HostPort :: int
  ContainerPort :: int
  Protocol :: string

definition withHostPort :: "portSpec \<Rightarrow> int \<Rightarrow> portSpec" where
  "withHostPort p hostPort = p\<lparr>HostPort := hostPort\<rparr>"

definition containerKey :: "portSpec \<Rightarrow> string" where
  "containerKey p = Itoa (ContainerPort p) @ ''/'' @ Protocol p"

definition hostProtocolKey :: "portSpec \<Rightarrow> string" where
  "hostProtocolKey p = (if HostPort p \<le> 0 then [] else Itoa (HostPort p) @ ''/'' @ Protocol p)"

definition binding :: "portSpec \<Rightarrow> string" where
  "binding p = Itoa (HostPort p) @ '':'' @ Itoa (ContainerPort p) @
     (if Protocol p \<noteq> ''tcp'' then ''/'' @ Protocol p else [])"

definition parseValidPortNumber :: "string \<Rightarrow> port_number_error + int" where
  "parseValidPortNumber value =
     (case Atoi (TrimSpace value) of
        None \<Rightarrow> Inl PortNotNumeric
      | Some port \<Rightarrow> if port < 1 \<or> port > 65535 then Inl PortOutOfRange else Inr port)"

definition portProtocol :: "string \<Rightarrow> bool \<Rightarrow> string option" where
  "portProtocol protocol hasProtocol =
     (if hasProtocol then
        (let q = ToLower (TrimSpace protocol) in
         if q \<noteq> ''tcp'' \<and> q \<noteq> ''udp'' then None else Some q)
      else Some ''tcp'')"

definition parsePortSpec :: "string \<Rightarrow> port_error + portSpec" where
  "parsePortSpec untrimmed =
     (let raw = TrimSpace untrimmed in
      if raw = [] then Inl PortEmpty
      else case Cut raw (CHR ''/'') of (mainPart, rest, hasProtocol) \<Rightarrow>
        (case portProtocol rest hasProtocol of
           None \<Rightarrow> Inl (PortProtocol raw)
         | Some protocol \<Rightarrow>
             (let parts = Split mainPart (CHR '':'') in
              if length parts > 2 then Inl (PortMapping raw)
              else case parseValidPortNumber (TrimSpace (last parts)) of
                Inl err \<Rightarrow> Inl (PortNumber raw err)
              | Inr containerPort \<Rightarrow>
                  (let p = \<lparr>HostPort = 0, ContainerPort = containerPort, Protocol = protocol\<rparr> in
                   if length parts = 1 then Inr p
                   else case parseValidPortNumber (TrimSpace (hd parts)) of
                     Inl err \<Rightarrow> Inl (PortNumber raw err)
                   | Inr hostPort \<Rightarrow> Inr (p\<lparr>HostPort := hostPort\<rparr>)))))"

fun parse_specs_loop :: "string list \<Rightarrow> string list \<Rightarrow> portSpec list \<Rightarrow> string list
    \<Rightarrow> port_error + portSpec list" where
  "parse_specs_loop seenContainer seenBinding parsed [] = Inr parsed"
| "parse_specs_loop seenContainer seenBinding parsed (raw # specs) =
     (case parsePortSpec raw of
        Inl err \<Rightarrow> Inl err
      | Inr p \<Rightarrow>
          if HostPort p > 0 then
            (let key = hostProtocolKey p @ '':'' @ containerKey p in
             if key \<in> set seenBinding then parse_specs_loop seenContainer seenBinding parsed specs
             else parse_specs_loop seenContainer (key # seenBinding) (parsed @ [p]) specs)
          else
            (let key = containerKey p in
             if key \<in> set seenContainer then parse_specs_loop seenContainer seenBinding parsed specs
             else parse_specs_loop (key # seenContainer) seenBinding (parsed @ [p]) specs))"

definition parsePortSpecs :: "string list \<Rightarrow> port_error + portSpec list" where
  "parsePortSpecs specs = parse_specs_loop [] [] [] specs"

section \<open>Assignment\<close>

function allocate_from :: "string list \<Rightarrow> string \<Rightarrow> int \<Rightarrow> port_error + int" where
  "allocate_from used protocol port =
     (if port \<le> hostPortRangeMax then
        (if Itoa port @ ''/'' @ protocol \<notin> set used then Inr port
         else allocate_from used protocol (port + 1))
      else Inl NoHostPortsAvailable)"
  by pat_completeness auto
termination
  by (relation "measure (\<lambda>(used, protocol, port). nat (hostPortRangeMax + 1 - port))") auto

declare allocate_from.simps [simp del]

definition allocateHostPort :: "string list \<Rightarrow> string \<Rightarrow> port_error + int" where
  "allocateHostPort used protocol = allocate_from used protocol hostPortRangeMin"

definition usedHostPorts :: "Deployment list \<Rightarrow> string \<Rightarrow> string list" where
  "usedHostPorts allDeployments skipID =
     concat (map (\<lambda>d. if d_ID d = skipID then [] else
       concat (map (\<lambda>p. case parsePortSpec p of
           Inl _ \<Rightarrow> []
         | Inr spec \<Rightarrow> if hostProtocolKey spec \<noteq> [] then [hostProtocolKey spec] else [])
         (slice (d_Ports d)))) allDeployments)"

definition existingHostPorts :: "string list \<Rightarrow> int gomap" where
  "existingHostPorts currentBindings =
     fold (\<lambda>p m. case parsePortSpec p of
         Inl _ \<Rightarrow> m
       | Inr spec \<Rightarrow> if HostPort spec > 0 then AList.update (containerKey spec) (HostPort spec) m else m)
       currentBindings []"

text \<open>The host port for one requested port, given the keys in use.\<close>

definition carried_over :: "int gomap \<Rightarrow> string list \<Rightarrow> portSpec \<Rightarrow> portSpec option" where
  "carried_over existing used p =
     (case map_of existing (containerKey p) of
        None \<Rightarrow> None
      | Some hp \<Rightarrow>
          if hostProtocolKey (withHostPort p hp) \<notin> set used then Some (withHostPort p hp) else None)"

definition assign_one :: "int gomap \<Rightarrow> string list \<Rightarrow> portSpec \<Rightarrow> port_error + portSpec" where
  "assign_one existing used p =
     (if HostPort p > 0 then
        (if hostProtocolKey p \<in> set used then Inl (HostPortConflict (HostPort p) (Protocol p))
         else Inr p)
      else case carried_over existing used p of
        Some port \<Rightarrow> Inr port
      | None \<Rightarrow>
          (case allocateHostPort used (Protocol p) of
             Inl err \<Rightarrow> Inl err
           | Inr hostPort \<Rightarrow> Inr (withHostPort p hostPort)))"

fun assign_loop :: "int gomap \<Rightarrow> string list \<Rightarrow> string list \<Rightarrow> portSpec list
    \<Rightarrow> port_error + string list" where
  "assign_loop existing used result [] = Inr result"
| "assign_loop existing used result (p # requested) =
     (case assign_one existing used p of
        Inl err \<Rightarrow> Inl err
      | Inr port \<Rightarrow>
          assign_loop existing (hostProtocolKey port # used) (result @ [binding port]) requested)"

definition assignHostPorts :: "Deployment list \<Rightarrow> string \<Rightarrow> string list \<Rightarrow> string list
    \<Rightarrow> port_error + string list" where
  "assignHostPorts allDeployments skipID currentBindings requestedPorts =
     (if requestedPorts = [] then Inr []
      else case parsePortSpecs requestedPorts of
        Inl err \<Rightarrow> Inl err
      | Inr requested \<Rightarrow>
          assign_loop (existingHostPorts currentBindings) (usedHostPorts allDeployments skipID) [] requested)"

section \<open>The proxy port\<close>

definition normalizeDomain :: "string \<Rightarrow> string" where
  "normalizeDomain domain = ToLower (TrimSuffix (TrimSpace domain) ''.'')"

datatype proxy_port_error = ProxyPortRequiresDomain | ProxyPortRequired | ProxyPortUnmatched

definition matches_proxy_port :: "int \<Rightarrow> string \<Rightarrow> bool" where
  "matches_proxy_port proxyPort raw =
     (case parsePortSpec raw of
        Inl _ \<Rightarrow> False
      | Inr spec \<Rightarrow> ContainerPort spec = proxyPort \<and> Protocol spec = ''tcp'')"

definition validateProxyPortSelection :: "string \<Rightarrow> int \<Rightarrow> string list \<Rightarrow> proxy_port_error option" where
  "validateProxyPortSelection domain proxyPort ports =
     (if normalizeDomain domain = [] then
        (if proxyPort \<noteq> 0 then Some ProxyPortRequiresDomain else None)
      else if proxyPort \<le> 0 then Some ProxyPortRequired
      else if \<exists>raw \<in> set ports. matches_proxy_port proxyPort raw then None
      else Some ProxyPortUnmatched)"

section \<open>Parsing\<close>

definition valid_spec :: "portSpec \<Rightarrow> bool" where
  "valid_spec p \<longleftrightarrow> 0 \<le> HostPort p \<and> HostPort p \<le> 65535 \<and> 1 \<le> ContainerPort p \<and>
     ContainerPort p \<le> 65535 \<and> Protocol p \<in> {''tcp'', ''udp''}"

definition bound_spec :: "portSpec \<Rightarrow> bool" where
  "bound_spec p \<longleftrightarrow> valid_spec p \<and> 0 < HostPort p"

lemma parseValidPortNumber_range: "parseValidPortNumber v = Inr n \<Longrightarrow> 1 \<le> n \<and> n \<le> 65535"
  by (auto simp: parseValidPortNumber_def split: option.splits if_splits)

lemma parseValidPortNumber_Itoa:
  "1 \<le> n \<Longrightarrow> n \<le> 65535 \<Longrightarrow> parseValidPortNumber (TrimSpace (Itoa n)) = Inr n"
  by (simp add: parseValidPortNumber_def TrimSpace_digits Itoa_digits Atoi_Itoa)

lemma portProtocol_values: "portProtocol q h = Some p \<Longrightarrow> p \<in> {''tcp'', ''udp''}"
  by (auto simp: portProtocol_def Let_def split: if_splits)

lemma parsePortSpec_valid: "parsePortSpec s = Inr p \<Longrightarrow> valid_spec p"
  by (auto simp: parsePortSpec_def valid_spec_def Let_def split: if_splits prod.splits option.splits
      sum.splits dest!: parseValidPortNumber_range portProtocol_values)

lemma graphic_samples [simp]: "graphic CHR ''/''" "graphic CHR '':''"
  "graphic CHR ''t''" "graphic CHR ''c''" "graphic CHR ''p''" "graphic CHR ''u''" "graphic CHR ''d''"
  by (simp_all add: graphic_def byte_def)

lemma Itoa_graphic: "0 \<le> n \<Longrightarrow> list_all graphic (Itoa n)"
  using Itoa_digits[of n] by (auto simp: list_all_iff is_digit_graphic)

lemma Itoa_sep [simp]: "0 \<le> n \<Longrightarrow> CHR ''/'' \<notin> set (Itoa n)" "0 \<le> n \<Longrightarrow> CHR '':'' \<notin> set (Itoa n)"
  using Itoa_digits[of n] digits_notin[of "Itoa n"] by auto

lemma binding_graphic: "bound_spec p \<Longrightarrow> list_all graphic (binding p) \<and> binding p \<noteq> []"
  by (auto simp: binding_def bound_spec_def valid_spec_def Itoa_graphic)

lemma portProtocol_udp: "portProtocol ''udp'' True = Some ''udp''"
proof -
  have "TrimSpace ''udp'' = ''udp''" by (rule TrimSpace_all_graphic) simp
  moreover have "ToLower ''udp'' = ''udp''" by code_simp
  ultimately show ?thesis by (simp add: portProtocol_def)
qed

lemma Cut_binding:
  assumes "bound_spec p"
  shows "\<exists>rest h. Cut (binding p) (CHR ''/'') = (Itoa (HostPort p) @ '':'' @ Itoa (ContainerPort p), rest, h) \<and>
    portProtocol rest h = Some (Protocol p)"
proof -
  let ?m = "Itoa (HostPort p) @ '':'' @ Itoa (ContainerPort p)"
  have sep: "CHR ''/'' \<notin> set ?m"
    using assms by (auto simp: bound_spec_def valid_spec_def)
  show ?thesis
  proof (cases "Protocol p = ''tcp''")
    case True
    with sep show ?thesis by (intro exI[of _ "[]"] exI[of _ False]) (simp add: binding_def Cut_absent portProtocol_def)
  next
    case False
    with assms have "Protocol p = ''udp''" by (simp add: bound_spec_def valid_spec_def)
    with Cut_present[OF sep, of "''udp''"] show ?thesis
      by (intro exI[of _ "''udp''"] exI[of _ True]) (simp add: binding_def portProtocol_udp)
  qed
qed

lemma parse_binding:
  assumes "bound_spec p"
  shows "parsePortSpec (binding p) = Inr p"
proof -
  from assms have v: "1 \<le> HostPort p" "HostPort p \<le> 65535" "1 \<le> ContainerPort p" "ContainerPort p \<le> 65535"
    by (auto simp: bound_spec_def valid_spec_def)
  have t: "TrimSpace (binding p) = binding p" using binding_graphic[OF assms] by (simp add: TrimSpace_all_graphic)
  from v have s: "Split (Itoa (HostPort p) @ '':'' @ Itoa (ContainerPort p)) (CHR '':'') =
      [Itoa (HostPort p), Itoa (ContainerPort p)]"
    by (simp add: Split_present Split_absent)
  from Cut_binding[OF assms] obtain rest h
    where c: "Cut (binding p) (CHR ''/'') = (Itoa (HostPort p) @ '':'' @ Itoa (ContainerPort p), rest, h)"
      and q: "portProtocol rest h = Some (Protocol p)" by blast
  have "parseValidPortNumber (TrimSpace (Itoa (HostPort p))) = Inr (HostPort p)"
    "parseValidPortNumber (TrimSpace (Itoa (ContainerPort p))) = Inr (ContainerPort p)"
    using v by (simp_all add: parseValidPortNumber_Itoa)
  with t c q s binding_graphic[OF assms] show ?thesis
    by (simp add: parsePortSpec_def del: append.simps)
qed

lemma key_inject:
  assumes "0 \<le> m" and "0 \<le> n"
  shows "Itoa m @ ''/'' @ q = Itoa n @ ''/'' @ r \<longleftrightarrow> m = n \<and> q = r"
proof
  assume *: "Itoa m @ ''/'' @ q = Itoa n @ ''/'' @ r"
  have "Cut (Itoa m @ ''/'' @ q) (CHR ''/'') = (Itoa m, q, True)"
    "Cut (Itoa n @ ''/'' @ r) (CHR ''/'') = (Itoa n, r, True)"
    using assms by (simp_all add: Cut_present)
  with * have "Itoa m = Itoa n \<and> q = r" by simp
  with assms show "m = n \<and> q = r" by (simp add: Itoa_inject)
qed simp

lemma hostProtocolKey_inject:
  "bound_spec p \<Longrightarrow> bound_spec q \<Longrightarrow>
     hostProtocolKey p = hostProtocolKey q \<longleftrightarrow> HostPort p = HostPort q \<and> Protocol p = Protocol q"
  using key_inject[of "HostPort p" "HostPort q" "Protocol p" "Protocol q"]
  by (simp add: hostProtocolKey_def bound_spec_def valid_spec_def)

lemma containerKey_inject:
  "valid_spec p \<Longrightarrow> valid_spec q \<Longrightarrow>
     containerKey p = containerKey q \<longleftrightarrow> ContainerPort p = ContainerPort q \<and> Protocol p = Protocol q"
  using key_inject[of "ContainerPort p" "ContainerPort q" "Protocol p" "Protocol q"]
  by (simp add: containerKey_def valid_spec_def)

lemma full_key_inject:
  assumes "bound_spec p" and "bound_spec q"
    and "hostProtocolKey p @ '':'' @ containerKey p = hostProtocolKey q @ '':'' @ containerKey q"
  shows "p = q"
proof -
  have nc: "CHR '':'' \<notin> set (hostProtocolKey x)" if "bound_spec x" for x
    using that by (auto simp: hostProtocolKey_def bound_spec_def valid_spec_def)
  have c: "Cut (hostProtocolKey x @ '':'' @ y) (CHR '':'') = (hostProtocolKey x, y, True)"
    if "bound_spec x" for x y
    using Cut_present[OF nc[OF that]] by simp
  have "(hostProtocolKey p, containerKey p, True) = (hostProtocolKey q, containerKey q, True)"
    unfolding c[OF assms(1), symmetric] c[OF assms(2), symmetric] assms(3) ..
  then have "hostProtocolKey p = hostProtocolKey q" and "containerKey p = containerKey q" by simp_all
  then have "HostPort p = HostPort q \<and> ContainerPort p = ContainerPort q \<and> Protocol p = Protocol q"
    using hostProtocolKey_inject[OF assms(1,2)] containerKey_inject[of p q] assms(1,2)
    unfolding bound_spec_def by blast
  then show ?thesis by simp
qed

text \<open>Parsing a list keeps each distinct specification once.\<close>

lemma parse_specs_loop_Inr:
  assumes "parse_specs_loop sc sb parsed specs = Inr ps"
    and "sc = rev (map containerKey (filter (\<lambda>p. \<not> HostPort p > 0) parsed))"
    and "sb = rev (map (\<lambda>p. hostProtocolKey p @ '':'' @ containerKey p) (filter (\<lambda>p. HostPort p > 0) parsed))"
    and "\<forall>p \<in> set parsed. valid_spec p" and "distinct parsed"
  shows "distinct ps \<and> (\<forall>p \<in> set ps. valid_spec p) \<and>
    set ps = set parsed \<union> {p. \<exists>raw \<in> set specs. parsePortSpec raw = Inr p} \<and>
    (\<forall>raw \<in> set specs. \<exists>p. parsePortSpec raw = Inr p)"
  using assms
proof (induction specs arbitrary: sc sb parsed)
  case (Cons raw specs)
  from Cons.prems(1) obtain p where p: "parsePortSpec raw = Inr p" by (auto split: sum.splits)
  note v = parsePortSpec_valid[OF p]
  let ?fresh = "p \<notin> set parsed"
  have fresh: "(if HostPort p > 0 then hostProtocolKey p @ '':'' @ containerKey p \<in> set sb
      else containerKey p \<in> set sc) \<longleftrightarrow> \<not> ?fresh"
  proof (cases "HostPort p > 0")
    case True
    have "q \<in> set parsed \<Longrightarrow> HostPort q > 0 \<Longrightarrow>
        hostProtocolKey p @ '':'' @ containerKey p = hostProtocolKey q @ '':'' @ containerKey q \<longleftrightarrow> p = q" for q
      using full_key_inject[of p q] True v Cons.prems(4) by (auto simp: bound_spec_def)
    with True show ?thesis unfolding Cons.prems(3) by auto
  next
    case False
    have "q \<in> set parsed \<Longrightarrow> \<not> HostPort q > 0 \<Longrightarrow> containerKey p = containerKey q \<longleftrightarrow> p = q" for q
      using False v Cons.prems(4) containerKey_inject[of p q] by (auto simp: valid_spec_def)
    with False show ?thesis unfolding Cons.prems(2) by auto
  qed
  show ?case
  proof (cases ?fresh)
    case True
    then have "\<exists>sc' sb'. parse_specs_loop sc' sb' (parsed @ [p]) specs = Inr ps \<and>
        sc' = rev (map containerKey (filter (\<lambda>p. \<not> HostPort p > 0) (parsed @ [p]))) \<and>
        sb' = rev (map (\<lambda>p. hostProtocolKey p @ '':'' @ containerKey p) (filter (\<lambda>p. HostPort p > 0) (parsed @ [p])))"
      using Cons.prems(1-3) p fresh by (auto simp: Let_def split: if_splits)
    then obtain sc' sb' where *: "parse_specs_loop sc' sb' (parsed @ [p]) specs = Inr ps"
      "sc' = rev (map containerKey (filter (\<lambda>p. \<not> HostPort p > 0) (parsed @ [p])))"
      "sb' = rev (map (\<lambda>p. hostProtocolKey p @ '':'' @ containerKey p) (filter (\<lambda>p. HostPort p > 0) (parsed @ [p])))"
      by blast
    have "\<forall>q \<in> set (parsed @ [p]). valid_spec q" "distinct (parsed @ [p])"
      using Cons.prems(4,5) v True by auto
    from Cons.IH[OF * this] p show ?thesis by auto
  next
    case False
    with Cons.prems(1) p fresh have "parse_specs_loop sc sb parsed specs = Inr ps"
      by (auto simp: Let_def split: if_splits)
    from Cons.IH[OF this Cons.prems(2-5)] p False show ?thesis by auto
  qed
qed simp

lemma parsePortSpecs_Inr:
  assumes "parsePortSpecs specs = Inr ps"
  shows "distinct ps" and "\<forall>p \<in> set ps. valid_spec p"
    and "set ps = {p. \<exists>raw \<in> set specs. parsePortSpec raw = Inr p}"
    and "\<forall>raw \<in> set specs. \<exists>p. parsePortSpec raw = Inr p"
  using parse_specs_loop_Inr[OF assms[unfolded parsePortSpecs_def]] by auto

section \<open>Assigning\<close>

lemma allocate_from_Inr:
  "allocate_from used q port = Inr n \<Longrightarrow>
     port \<le> n \<and> n \<le> hostPortRangeMax \<and> Itoa n @ ''/'' @ q \<notin> set used \<and>
     (\<forall>m \<in> {port..<n}. Itoa m @ ''/'' @ q \<in> set used)"
proof (induction used q port rule: allocate_from.induct)
  case (1 used q port)
  show ?case
  proof (cases "port \<le> hostPortRangeMax \<and> Itoa port @ ''/'' @ q \<in> set used")
    case True
    with 1 have *: "port + 1 \<le> n \<and> n \<le> hostPortRangeMax \<and> Itoa n @ ''/'' @ q \<notin> set used \<and>
        (\<forall>m \<in> {port + 1..<n}. Itoa m @ ''/'' @ q \<in> set used)"
      by (simp add: allocate_from.simps[of used q port])
    then have "{port..<n} = insert port {port + 1..<n}" by auto
    with True * show ?thesis by simp
  next
    case False
    with 1(2) show ?thesis by (auto simp: allocate_from.simps[of used q port] split: if_splits)
  qed
qed

lemma allocate_from_Inl:
  "allocate_from used q port = Inl err \<Longrightarrow> err = NoHostPortsAvailable \<and>
     (\<forall>m \<in> {port..hostPortRangeMax}. Itoa m @ ''/'' @ q \<in> set used)"
proof (induction used q port rule: allocate_from.induct)
  case (1 used q port)
  show ?case
  proof (cases "port \<le> hostPortRangeMax")
    case True
    with 1 have "Itoa port @ ''/'' @ q \<in> set used" and "err = NoHostPortsAvailable"
      and "\<forall>m \<in> {port + 1..hostPortRangeMax}. Itoa m @ ''/'' @ q \<in> set used"
      by (simp_all add: allocate_from.simps[of used q port] split: if_splits)
    moreover have "{port..hostPortRangeMax} = insert port {port + 1..hostPortRangeMax}"
      using True by auto
    ultimately show ?thesis by simp
  next
    case False
    with 1(2) show ?thesis by (simp add: allocate_from.simps[of used q port])
  qed
qed

text \<open>What one assignment step does with a request \<open>p\<close>: the answer \<open>q\<close> is a full binding of the
  same container port, and of the same host port when the request names one.\<close>

definition answers :: "portSpec \<Rightarrow> portSpec \<Rightarrow> bool" where
  "answers p q \<longleftrightarrow> bound_spec q \<and> ContainerPort q = ContainerPort p \<and> Protocol q = Protocol p \<and>
     (HostPort p > 0 \<longrightarrow> HostPort q = HostPort p)"

definition ports_map_ok :: "int gomap \<Rightarrow> bool" where
  "ports_map_ok m \<longleftrightarrow> (\<forall>k n. map_of m k = Some n \<longrightarrow> 0 < n \<and> n \<le> 65535)"

lemma existingHostPorts_snoc:
  "existingHostPorts (bs @ [b]) =
     (case parsePortSpec b of
         Inl _ \<Rightarrow> existingHostPorts bs
       | Inr spec \<Rightarrow> if HostPort spec > 0 then AList.update (containerKey spec) (HostPort spec) (existingHostPorts bs)
           else existingHostPorts bs)"
  by (simp add: existingHostPorts_def split: sum.split)

lemma existingHostPorts_ok: "ports_map_ok (existingHostPorts bs)"
proof (induction bs rule: rev_induct)
  case Nil
  then show ?case by (simp add: existingHostPorts_def ports_map_ok_def)
next
  case (snoc b bs)
  then show ?case
    by (auto simp: existingHostPorts_snoc ports_map_ok_def go_map valid_spec_def
        split: sum.splits dest: parsePortSpec_valid)
qed

lemma assign_one_Inr:
  assumes "assign_one ex used p = Inr q" and "valid_spec p" and "ports_map_ok ex"
  shows "answers p q \<and> hostProtocolKey q \<notin> set used"
proof (cases "HostPort p > 0")
  case True
  with assms show ?thesis by (auto simp: assign_one_def answers_def bound_spec_def split: if_splits)
next
  case False
  then consider (old) "carried_over ex used p = Some q"
    | (new) n where "allocateHostPort used (Protocol p) = Inr n" "q = withHostPort p n"
    using assms(1) by (auto simp: assign_one_def split: option.splits sum.splits)
  then show ?thesis
  proof cases
    case old
    then obtain hp where "map_of ex (containerKey p) = Some hp" "q = withHostPort p hp"
      "hostProtocolKey q \<notin> set used"
      by (auto simp: carried_over_def split: option.splits if_splits)
    moreover from this(1) assms(3) have "0 < hp \<and> hp \<le> 65535" unfolding ports_map_ok_def by blast
    ultimately show ?thesis
      using False assms(2) by (auto simp: answers_def bound_spec_def valid_spec_def withHostPort_def)
  next
    case new
    from allocate_from_Inr[OF new(1)[unfolded allocateHostPort_def]] new(2) False assms(2) show ?thesis
      by (auto simp: answers_def bound_spec_def valid_spec_def withHostPort_def hostProtocolKey_def
          hostPortRangeMin_def hostPortRangeMax_def)
  qed
qed

lemma assign_loop_Inr:
  assumes "assign_loop ex used res ps = Inr bs" and "\<forall>p \<in> set ps. valid_spec p" and "ports_map_ok ex"
  shows "\<exists>qs. bs = res @ map binding qs \<and> list_all2 answers ps qs \<and>
    distinct (map hostProtocolKey qs) \<and> hostProtocolKey ` set qs \<inter> set used = {}"
  using assms
proof (induction ps arbitrary: used res)
  case (Cons p ps)
  from Cons.prems(1) obtain q where q: "assign_one ex used p = Inr q"
    and l: "assign_loop ex (hostProtocolKey q # used) (res @ [binding q]) ps = Inr bs"
    by (auto split: sum.splits)
  from Cons.IH[OF l] Cons.prems(2,3) obtain qs where
    "bs = res @ map binding (q # qs)" "list_all2 answers ps qs" "distinct (map hostProtocolKey qs)"
    "hostProtocolKey ` set qs \<inter> set (hostProtocolKey q # used) = {}" by auto
  with assign_one_Inr[OF q] Cons.prems(2,3) show ?case
    by (intro exI[of _ "q # qs"]) auto
qed simp

lemma usedHostPorts_mem:
  "k \<in> set (usedHostPorts ds skip) \<longleftrightarrow>
     (\<exists>d \<in> set ds. d_ID d \<noteq> skip \<and> (\<exists>raw \<in> set (slice (d_Ports d)). \<exists>s. parsePortSpec raw = Inr s \<and>
        HostPort s > 0 \<and> k = hostProtocolKey s))"
proof -
  have "hostProtocolKey s \<noteq> [] \<longleftrightarrow> HostPort s > 0" for s by (auto simp: hostProtocolKey_def)
  then have "k \<in> set (case parsePortSpec raw of Inl _ \<Rightarrow> []
       | Inr spec \<Rightarrow> if hostProtocolKey spec \<noteq> [] then [hostProtocolKey spec] else []) \<longleftrightarrow>
      (\<exists>s. parsePortSpec raw = Inr s \<and> HostPort s > 0 \<and> k = hostProtocolKey s)" for raw
    by (cases "parsePortSpec raw") auto
  then show ?thesis by (auto simp: usedHostPorts_def)
qed

text \<open>A successful assignment, in terms of the specifications behind the texts.\<close>

lemma assignHostPorts_Inr:
  assumes "assignHostPorts ds skip cur req = Inr bs"
  obtains ps qs where "parsePortSpecs req = Inr ps" and "bs = map binding qs"
    and "list_all2 answers ps qs" and "distinct (map hostProtocolKey qs)"
    and "hostProtocolKey ` set qs \<inter> set (usedHostPorts ds skip) = {}"
    and "\<forall>q \<in> set qs. bound_spec q"
proof (cases "req = []")
  case True
  with assms show thesis by (intro that[of "[]" "[]"]) (auto simp: assignHostPorts_def parsePortSpecs_def)
next
  case False
  with assms obtain ps where ps: "parsePortSpecs req = Inr ps"
    and l: "assign_loop (existingHostPorts cur) (usedHostPorts ds skip) [] ps = Inr bs"
    by (auto simp: assignHostPorts_def split: sum.splits)
  from assign_loop_Inr[OF l parsePortSpecs_Inr(2)[OF ps] existingHostPorts_ok] obtain qs where
    qs: "bs = map binding qs" "list_all2 answers ps qs" "distinct (map hostProtocolKey qs)"
    "hostProtocolKey ` set qs \<inter> set (usedHostPorts ds skip) = {}" by auto
  moreover have "\<forall>q \<in> set qs. bound_spec q"
    using qs(2) by (auto simp: list_all2_conv_all_nth answers_def in_set_conv_nth)
  ultimately show thesis using ps by (intro that)
qed

text \<open>Assigning full bindings that are not in use returns them.\<close>

lemma assign_loop_bound:
  assumes "\<forall>q \<in> set qs. bound_spec q" and "distinct (map hostProtocolKey qs)"
    and "hostProtocolKey ` set qs \<inter> set used = {}"
  shows "assign_loop ex used res qs = Inr (res @ map binding qs)"
  using assms
proof (induction qs arbitrary: used res)
  case (Cons q qs)
  then have "assign_one ex used q = Inr q" by (simp add: assign_one_def bound_spec_def)
  moreover have "hostProtocolKey ` set qs \<inter> set (hostProtocolKey q # used) = {}"
    using Cons.prems by auto
  ultimately show ?case using Cons by simp
qed simp

lemma parse_specs_bindings:
  assumes "\<forall>q \<in> set qs. bound_spec q" and "distinct qs"
    and "\<forall>q \<in> set qs. hostProtocolKey q @ '':'' @ containerKey q \<notin> set sb"
  shows "parse_specs_loop sc sb parsed (map binding qs) = Inr (parsed @ qs)"
  using assms
proof (induction qs arbitrary: sb parsed)
  case (Cons q qs)
  have "parsePortSpec (binding q) = Inr q" and "HostPort q > 0"
    using Cons.prems(1) by (simp_all add: parse_binding bound_spec_def)
  moreover have "\<forall>r \<in> set qs. hostProtocolKey r @ '':'' @ containerKey r \<noteq> hostProtocolKey q @ '':'' @ containerKey q"
    using Cons.prems(1,2) full_key_inject by (metis distinct.simps(2) list.set_intros)
  ultimately show ?case using Cons by simp
qed simp

lemma assign_own_bindings:
  assumes "\<forall>q \<in> set qs. bound_spec q" and "distinct (map hostProtocolKey qs)"
    and "hostProtocolKey ` set qs \<inter> set (usedHostPorts ds skip) = {}"
  shows "assignHostPorts ds skip cur (map binding qs) = Inr (map binding qs)"
proof -
  have "parsePortSpecs (map binding qs) = Inr qs"
    using parse_specs_bindings[of qs "[]"] assms(1,2) by (simp add: parsePortSpecs_def distinct_map)
  with assign_loop_bound[OF assms] show ?thesis by (simp add: assignHostPorts_def)
qed

text \<open>The host ports of the current bindings, by container port.\<close>

lemma existingHostPorts_bindings:
  assumes "\<forall>q \<in> set qs. bound_spec q" and "distinct (map containerKey qs)" and "q \<in> set qs"
  shows "map_of (existingHostPorts (map binding qs)) (containerKey q) = Some (HostPort q)"
  using assms
proof (induction qs rule: rev_induct)
  case (snoc r rs)
  have "parsePortSpec (binding r) = Inr r" and "HostPort r > 0"
    using snoc.prems(1) by (simp_all add: parse_binding bound_spec_def)
  then have "existingHostPorts (map binding (rs @ [r])) =
      AList.update (containerKey r) (HostPort r) (existingHostPorts (map binding rs))"
    by (simp add: existingHostPorts_snoc)
  moreover from snoc.prems(2) have "containerKey r \<notin> containerKey ` set rs" by simp
  then have "q \<in> set rs \<Longrightarrow> containerKey q \<noteq> containerKey r" by (metis imageI)
  ultimately show ?case using snoc by (auto simp: go_map)
qed simp

lemma assign_loop_carried:
  assumes "list_all2 answers ps qs" and "\<forall>p \<in> set ps. HostPort p = 0"
    and "\<forall>q \<in> set qs. map_of ex (containerKey q) = Some (HostPort q)"
    and "distinct (map hostProtocolKey qs)" and "hostProtocolKey ` set qs \<inter> set used = {}"
  shows "assign_loop ex used res ps = Inr (res @ map binding qs)"
  using assms
proof (induction ps qs arbitrary: used res rule: list_all2_induct)
  case (Cons p ps q qs)
  have "withHostPort p (HostPort q) = q" "containerKey q = containerKey p"
    using Cons.hyps(1) by (simp_all add: answers_def withHostPort_def containerKey_def)
  then have "assign_one ex used p = Inr q"
    using Cons.prems by (simp add: assign_one_def carried_over_def)
  moreover have "hostProtocolKey ` set qs \<inter> set (hostProtocolKey q # used) = {}"
    using Cons.prems by auto
  ultimately show ?case using Cons by simp
qed simp

section \<open>Properties\<close>

text \<open>
  C13. The bindings a deployment gets are free of conflicts. When \<open>assignHostPorts\<close> succeeds, every
  text it returns parses as a full binding with ports between 1 and 65535, no two of them share a
  host port and protocol, and none shares one with a binding of another deployment of the
  snapshot.
\<close>

theorem assign_conflict_free:
  assumes "assignHostPorts ds skip cur req = Inr bs"
  shows "\<exists>qs. map parsePortSpec bs = map Inr qs \<and> (\<forall>q \<in> set qs. bound_spec q) \<and>
    distinct (map (\<lambda>q. (HostPort q, Protocol q)) qs) \<and>
    (\<forall>q \<in> set qs. \<forall>d \<in> set ds. d_ID d \<noteq> skip \<longrightarrow>
      (\<forall>raw \<in> set (slice (d_Ports d)). \<forall>s. parsePortSpec raw = Inr s \<longrightarrow>
        (HostPort s, Protocol s) \<noteq> (HostPort q, Protocol q)))"
proof -
  from assms obtain qs where bs: "bs = map binding qs" and b: "\<forall>q \<in> set qs. bound_spec q"
    and dis: "distinct (map hostProtocolKey qs)"
    and free: "hostProtocolKey ` set qs \<inter> set (usedHostPorts ds skip) = {}"
    by (rule assignHostPorts_Inr)
  have "map parsePortSpec bs = map Inr qs" using bs b by (simp add: parse_binding)
  moreover have "distinct (map (\<lambda>q. (HostPort q, Protocol q)) qs)"
    using dis b by (auto simp: distinct_map inj_on_def hostProtocolKey_inject)
  moreover have "(HostPort s, Protocol s) \<noteq> (HostPort q, Protocol q)"
    if "q \<in> set qs" "d \<in> set ds" "d_ID d \<noteq> skip" "raw \<in> set (slice (d_Ports d))" "parsePortSpec raw = Inr s"
    for q d raw s
  proof
    assume *: "(HostPort s, Protocol s) = (HostPort q, Protocol q)"
    with that b have "HostPort s > 0" by (simp add: bound_spec_def)
    with that have "hostProtocolKey s \<in> set (usedHostPorts ds skip)"
      unfolding usedHostPorts_mem by blast
    moreover from * have "hostProtocolKey s = hostProtocolKey q" by (simp add: hostProtocolKey_def)
    ultimately show False using free that(1) by auto
  qed
  ultimately show ?thesis using b by blast
qed

text \<open>
  Every requested port is served and nothing else is bound: a successful assignment binds
  exactly the requested container ports and protocols, each explicit host port to itself.
\<close>

theorem assign_serves_request:
  assumes "assignHostPorts ds skip cur req = Inr bs"
  shows "(\<forall>raw \<in> set req. \<exists>p q. parsePortSpec raw = Inr p \<and> binding q \<in> set bs \<and> answers p q) \<and>
    (\<forall>b \<in> set bs. \<exists>raw \<in> set req. \<exists>p q. parsePortSpec raw = Inr p \<and> b = binding q \<and> answers p q)"
proof -
  from assms obtain ps qs where ps: "parsePortSpecs req = Inr ps" and bs: "bs = map binding qs"
    and l: "list_all2 answers ps qs"
    by (rule assignHostPorts_Inr)
  from l have "\<forall>p \<in> set ps. \<exists>q \<in> set qs. answers p q" "\<forall>q \<in> set qs. \<exists>p \<in> set ps. answers p q"
    by (metis list_all2_conv_all_nth in_set_conv_nth)+
  with parsePortSpecs_Inr(3,4)[OF ps] show ?thesis unfolding bs by fastforce
qed

text \<open>
  Assignment is stable. Requesting the assigned bindings again, for the same deployment and
  whatever its current ones are, returns them unchanged; and when the request named container
  ports only, repeating it with the assigned bindings as the current ones returns them too.
\<close>

theorem assign_stable:
  assumes "assignHostPorts ds skip cur req = Inr bs"
  shows "assignHostPorts ds skip cur' bs = Inr bs \<and>
    ((\<forall>raw \<in> set req. \<forall>p. parsePortSpec raw = Inr p \<longrightarrow> HostPort p = 0) \<longrightarrow>
      assignHostPorts ds skip bs req = Inr bs)"
  using assms
proof (rule assignHostPorts_Inr)
  fix ps qs
  assume ps: "parsePortSpecs req = Inr ps" and bs: "bs = map binding qs"
    and l: "list_all2 answers ps qs" and dis: "distinct (map hostProtocolKey qs)"
    and free: "hostProtocolKey ` set qs \<inter> set (usedHostPorts ds skip) = {}"
    and b: "\<forall>q \<in> set qs. bound_spec q"
  note parsed = parsePortSpecs_Inr[OF ps]
  have "assignHostPorts ds skip bs req = Inr bs"
    if "\<forall>raw \<in> set req. \<forall>p. parsePortSpec raw = Inr p \<longrightarrow> HostPort p = 0"
  proof -
    from that parsed(3) have z: "\<forall>p \<in> set ps. HostPort p = 0" by blast
    have "map containerKey ps = map containerKey qs"
      using l by (intro nth_equalityI) (auto simp: list_all2_conv_all_nth answers_def containerKey_def)
    moreover have "distinct (map containerKey ps)"
      using z parsed(1,2) by (auto simp: distinct_map inj_on_def containerKey_inject)
    ultimately have "distinct (map containerKey qs)" by simp
    from existingHostPorts_bindings[OF b this] assign_loop_carried[OF l z _ dis free]
    have "assign_loop (existingHostPorts bs) (usedHostPorts ds skip) [] ps = Inr bs" by (simp add: bs)
    moreover have "req = [] \<Longrightarrow> bs = []" using assms by (simp add: assignHostPorts_def)
    ultimately show ?thesis using ps by (simp add: assignHostPorts_def)
  qed
  with assign_own_bindings[OF b dis free] show ?thesis by (simp add: bs)
qed

text \<open>Two deployments with ports, for the witnesses.\<close>

definition ports_ds :: "Deployment list" where
  "ports_ds = [web\<lparr>d_Ports := Some [''32768:80'', ''53:53/udp'']\<rparr>, api\<lparr>d_Ports := Some [''8080:80'']\<rparr>]"

lemma assign_sample: "assignHostPorts ports_ds ''2'' [] [''80'', '' 9000/TCP '', ''443:443''] =
    Inr [''32769:80'', ''32770:9000'', ''443:443'']"
  by code_simp

theorem assign_conflict_free_witness:
  "\<exists>qs. map parsePortSpec [''32769:80'', ''32770:9000'', ''443:443''] = map Inr qs \<and>
    distinct (map (\<lambda>q. (HostPort q, Protocol q)) qs)"
  using assign_conflict_free[OF assign_sample] by blast

theorem assign_serves_request_witness:
  "\<exists>p q. parsePortSpec ''443:443'' = Inr p \<and> binding q \<in> {''32769:80'', ''32770:9000'', ''443:443''} \<and> answers p q"
  using assign_serves_request[OF assign_sample] by simp

theorem assign_stable_witness:
  "assignHostPorts ports_ds ''2'' [] [''32769:80'', ''32770:9000'', ''443:443''] =
    Inr [''32769:80'', ''32770:9000'', ''443:443'']"
  using assign_stable[OF assign_sample, of "[]"] by blast

text \<open>
  C32. Allocation takes the first free host port of the range 32768 to 60999 for the protocol, and
  fails only when every port of the range is in use.
\<close>

theorem allocate_first_free:
  "case allocateHostPort used q of
     Inr n \<Rightarrow> n \<in> {32768..60999} \<and> Itoa n @ ''/'' @ q \<notin> set used \<and>
       {m \<in> {32768..<n}. Itoa m @ ''/'' @ q \<notin> set used} = {}
   | Inl err \<Rightarrow> err = NoHostPortsAvailable \<and>
       {m \<in> {32768..60999}. Itoa m @ ''/'' @ q \<notin> set used} = {}"
  using allocate_from_Inr[of used q hostPortRangeMin] allocate_from_Inl[of used q hostPortRangeMin]
  by (auto simp: allocateHostPort_def hostPortRangeMin_def hostPortRangeMax_def split: sum.split)

text \<open>
  A request for a container port and, after it, for an explicit host port in the allocation
  range can conflict with itself: the first is given host port 32768, and the explicit 32768 is
  then refused as in use, although no deployment uses it; in the other order the request is
  accepted.
\<close>

theorem assign_self_conflict:
  "assignHostPorts [] ''1'' [] [''80'', ''32768:90''] = Inl (HostPortConflict 32768 ''tcp'') \<and>
   assignHostPorts [] ''1'' [] [''32768:90'', ''80''] = Inr [''32768:90'', ''32769:80'']"
  by code_simp

text \<open>
  A printed binding parses back to the specification it was printed from, for every host and
  container port between 1 and 65535 and both protocols.
\<close>

theorem binding_roundtrip:
  assumes "1 \<le> h" and "h \<le> 65535" and "1 \<le> c" and "c \<le> 65535" and "proto \<in> {''tcp'', ''udp''}"
  shows "parsePortSpec (binding \<lparr>HostPort = h, ContainerPort = c, Protocol = proto\<rparr>) =
    Inr \<lparr>HostPort = h, ContainerPort = c, Protocol = proto\<rparr>"
  using assms by (intro parse_binding) (auto simp: bound_spec_def valid_spec_def)

theorem binding_roundtrip_witness:
  "parsePortSpec (binding \<lparr>HostPort = 53, ContainerPort = 5353, Protocol = ''udp''\<rparr>) =
    Inr \<lparr>HostPort = 53, ContainerPort = 5353, Protocol = ''udp''\<rparr>"
  by (rule binding_roundtrip) simp_all

end
