(* ===== verification/Reconciler.thy ===== *)
theory Reconciler
  imports Ports "HOL-Library.List_Lexorder" "HOL-Library.Char_ord" "HOL-Library.Product_Lexorder"
begin

text \<open>
  The orchestrator's reconciler, \<open>src/orchestrator/internal/reconciler/reconciler.go\<close>: one pass
  lists the stored deployments and the managed containers and moves each deployment along the
  status machine deploying, healthy, failed, with retries of transient failures under a growing
  delay.

  The reconciler reaches the store, the container engine and the API's notifier through
  interfaces; they are the fields of \<open>deps\<close>, over abstract states of the store and the engine.
  The \<open>world\<close> holds these states, the reconciler's own fields, the notifications sent and, for
  stating which containers a pass touches, the engine calls made. An error value is its text.
  Times are nanoseconds, zero for Go's zero time. The loop over deployments works on the list
  read at the start of the pass; \<open>reconcile_one\<close> takes one of its elements and the current world,
  so that operations of the API in between can be stated.
\<close>

section \<open>Interfaces\<close>

record ExitDetails =
  ed_ExitCode :: int
  ed_OOMKilled :: bool
  ed_Error :: string

record ManagedContainer =
  mc_ID :: string
  mc_Name :: string
  mc_DeploymentID :: string
  mc_Running :: bool
  mc_ExitDetails :: "ExitDetails option"

record 'w docker_api =
  da_Ping :: "'w \<Rightarrow> string option"
  da_Start :: "Deployment \<Rightarrow> 'w \<Rightarrow> (string + string list option) \<times> 'w"
  da_StartAndReplace :: "Deployment \<Rightarrow> string \<Rightarrow> 'w \<Rightarrow> (string + string list option) \<times> 'w"
  da_ListManagedContainers :: "'w \<Rightarrow> string + ManagedContainer list"
  da_StopAndRemove :: "string \<Rightarrow> 'w \<Rightarrow> string option \<times> 'w"

record ('s, 'w) deps =
  dp_List :: "'s \<Rightarrow> store_error + Deployment list"
  dp_Patch :: "string \<Rightarrow> Deployment \<Rightarrow> 's \<Rightarrow> (store_error + Deployment) \<times> 's"
  dp_docker :: "'w docker_api"
  dp_notifier :: bool

record retryState =
  rs_attempts :: nat
  rs_nextAllowedAt :: int

record Reconciler =
  rc_hasLastDockerReachable :: bool
  rc_lastDockerReachable :: bool
  rc_retryByDeployment :: "retryState gomap"
  rc_dashboardDomain :: string

datatype docker_call = CallStart string | CallReplace string string | CallRemove string

record ('s, 'w) world =
  w_store :: 's
  w_docker :: 'w
  w_rec :: Reconciler
  w_notes :: "(string \<times> Status \<times> StatusReason \<times> string) list"
  w_calls :: "docker_call list"

definition NewReconciler :: "string \<Rightarrow> Reconciler" where
  "NewReconciler dashboardEnv = \<lparr>rc_hasLastDockerReachable = False, rc_lastDockerReachable = False,
     rc_retryByDeployment = [], rc_dashboardDomain = normalizeDomain dashboardEnv\<rparr>"

section \<open>Failures and retries\<close>

definition dockerUnavailableError :: string where
  "dockerUnavailableError = ''docker daemon is unavailable''"

definition isTransientFailure :: "string \<Rightarrow> bool" where
  "isTransientFailure errorMessage =
     (if errorMessage = [] then False
      else let msg = ToLower errorMessage in
        Contains msg dockerUnavailableError \<or>
        Contains msg ''docker daemon unreachable'' \<or>
        Contains msg ''container is not running'')"

definition second :: int where
  "second = 1000000000"

definition transientRetryBaseDelay :: int where
  "transientRetryBaseDelay = 15 * second"

definition transientRetryMaxDelay :: int where
  "transientRetryMaxDelay = 120 * second"

definition recordDockerReachability :: "bool \<Rightarrow> Reconciler \<Rightarrow> bool \<times> Reconciler" where
  "recordDockerReachability reachable r =
     (if \<not> rc_hasLastDockerReachable r
      then (False, r\<lparr>rc_hasLastDockerReachable := True, rc_lastDockerReachable := reachable\<rparr>)
      else (\<not> rc_lastDockerReachable r \<and> reachable, r\<lparr>rc_lastDockerReachable := reachable\<rparr>))"

definition canRetryTransientFailure :: "string \<Rightarrow> int \<Rightarrow> bool \<Rightarrow> Reconciler \<Rightarrow> bool" where
  "canRetryTransientFailure k now force r =
     (if force then True
      else case map_of (rc_retryByDeployment r) k of
        None \<Rightarrow> True
      | Some state \<Rightarrow> rs_nextAllowedAt state = 0 \<or> \<not> now < rs_nextAllowedAt state)"

fun retry_delay :: "nat \<Rightarrow> int \<Rightarrow> int" where
  "retry_delay 0 delay = delay"
| "retry_delay (Suc i) delay =
     (let delay' = delay * 2 in
      if delay' \<ge> transientRetryMaxDelay then transientRetryMaxDelay else retry_delay i delay')"

definition recordRetryFailure :: "string \<Rightarrow> int \<Rightarrow> Reconciler \<Rightarrow> Reconciler" where
  "recordRetryFailure k now r =
     (let state = (case map_of (rc_retryByDeployment r) k of
                     None \<Rightarrow> \<lparr>rs_attempts = 0, rs_nextAllowedAt = 0\<rparr> | Some s \<Rightarrow> s);
          delay = retry_delay (rs_attempts state) transientRetryBaseDelay in
      r\<lparr>rc_retryByDeployment := AList.update k
          \<lparr>rs_attempts = rs_attempts state + 1, rs_nextAllowedAt = now + delay\<rparr>
          (rc_retryByDeployment r)\<rparr>)"

definition clearRetryState :: "string \<Rightarrow> Reconciler \<Rightarrow> Reconciler" where
  "clearRetryState k r = r\<lparr>rc_retryByDeployment := AList.delete k (rc_retryByDeployment r)\<rparr>"

definition exitMessage :: "ExitDetails option \<Rightarrow> string" where
  "exitMessage ed =
     (case ed of
        None \<Rightarrow> ''container is not running''
      | Some d \<Rightarrow>
          if ed_OOMKilled d
          then ''container killed: out of memory (exit code '' @ Itoa (ed_ExitCode d) @ '')''
          else if ed_Error d \<noteq> []
          then ''container exited with error: '' @ ed_Error d @ '' (exit code '' @ Itoa (ed_ExitCode d) @ '')''
          else if ed_ExitCode d = 0
          then ''container exited cleanly (exit code '' @ Itoa (ed_ExitCode d) @ '')''
          else ''container exited unexpectedly (exit code '' @ Itoa (ed_ExitCode d) @ '')'')"

definition exitReason :: "ExitDetails option \<Rightarrow> StatusReason" where
  "exitReason ed =
     (case ed of None \<Rightarrow> ''container_not_running'' | Some _ \<Rightarrow> ''container_exited'')"

section \<open>Choosing a container\<close>

definition containerSelectionScore :: "ManagedContainer \<Rightarrow> string \<Rightarrow> int" where
  "containerSelectionScore c canonicalName =
     (let name = TrimPrefix (TrimSpace (mc_Name c)) ''/'';
          canonical = (canonicalName \<noteq> [] \<and> name = canonicalName) in
      if mc_Running c \<and> canonical then 4
      else if mc_Running c then 3
      else if canonical then 2
      else 1)"

text \<open>The slice is sorted in place, by falling score and then by ID; the caller goes on with the
  sorted slice.\<close>

definition sort_containers :: "string \<Rightarrow> ManagedContainer list \<Rightarrow> ManagedContainer list" where
  "sort_containers canonical cs =
     sort_key (\<lambda>c. (- containerSelectionScore c canonical, mc_ID c)) cs"

definition choosePrimaryContainer :: "string \<Rightarrow> ManagedContainer list
    \<Rightarrow> ManagedContainer option \<times> ManagedContainer list" where
  "choosePrimaryContainer deploymentName containers =
     (if containers = [] then (None, containers)
      else let sorted = sort_containers (TrimSpace deploymentName) containers in
        (Some (hd sorted), sorted))"

section \<open>Effects\<close>

definition notifyStatus :: "('s, 'w) deps \<Rightarrow> string \<Rightarrow> Status \<Rightarrow> StatusReason \<Rightarrow> string
    \<Rightarrow> ('s, 'w) world \<Rightarrow> ('s, 'w) world" where
  "notifyStatus dp k status reason errorMessage w =
     (if dp_notifier dp then w\<lparr>w_notes := w_notes w @ [(k, status, reason, errorMessage)]\<rparr> else w)"

definition updateStatus :: "('s, 'w) deps \<Rightarrow> string \<Rightarrow> Status \<Rightarrow> StatusReason \<Rightarrow> string
    \<Rightarrow> ('s, 'w) world \<Rightarrow> ('s, 'w) world" where
  "updateStatus dp k status reason errorMessage w =
     notifyStatus dp k status reason errorMessage
       (w\<lparr>w_store := snd (dp_Patch dp k
          (zero_Deployment\<lparr>d_Status := status, d_Reason := reason, d_Error := errorMessage\<rparr>) (w_store w))\<rparr>)"

definition updatePortsAndStatus :: "('s, 'w) deps \<Rightarrow> string \<Rightarrow> string list option \<Rightarrow> Status \<Rightarrow> StatusReason
    \<Rightarrow> ('s, 'w) world \<Rightarrow> ('s, 'w) world" where
  "updatePortsAndStatus dp k ports status reason w =
     notifyStatus dp k status reason []
       (w\<lparr>w_store := snd (dp_Patch dp k
          (zero_Deployment\<lparr>d_Status := status, d_Reason := reason, d_Error := [], d_Ports := ports\<rparr>)
          (w_store w))\<rparr>)"

definition on_rec :: "(Reconciler \<Rightarrow> Reconciler) \<Rightarrow> ('s, 'w) world \<Rightarrow> ('s, 'w) world" where
  "on_rec f w = w\<lparr>w_rec := f (w_rec w)\<rparr>"

definition call_Remove :: "('s, 'w) deps \<Rightarrow> string \<Rightarrow> ('s, 'w) world \<Rightarrow> ('s, 'w) world" where
  "call_Remove dp cid w =
     w\<lparr>w_docker := snd (da_StopAndRemove (dp_docker dp) cid (w_docker w)),
       w_calls := w_calls w @ [CallRemove cid]\<rparr>"

text \<open>Starting a deployment: \<open>StartAndReplace\<close> when it has a container, \<open>Start\<close> otherwise.\<close>

definition call_Start :: "('s, 'w) deps \<Rightarrow> Deployment \<Rightarrow> ManagedContainer option \<Rightarrow> ('s, 'w) world
    \<Rightarrow> (string + string list option) \<times> ('s, 'w) world" where
  "call_Start dp d c w =
     (case c of
        None \<Rightarrow>
          (case da_Start (dp_docker dp) d (w_docker w) of (r, dw) \<Rightarrow>
             (r, w\<lparr>w_docker := dw, w_calls := w_calls w @ [CallStart (d_ID d)]\<rparr>))
      | Some old \<Rightarrow>
          (case da_StartAndReplace (dp_docker dp) d (mc_ID old) (w_docker w) of (r, dw) \<Rightarrow>
             (r, w\<lparr>w_docker := dw, w_calls := w_calls w @ [CallReplace (d_ID d) (mc_ID old)]\<rparr>)))"

section \<open>One deployment\<close>

definition remove_extras :: "('s, 'w) deps \<Rightarrow> ManagedContainer option \<Rightarrow> ManagedContainer list
    \<Rightarrow> ('s, 'w) world \<Rightarrow> ('s, 'w) world" where
  "remove_extras dp c candidates =
     fold (\<lambda>extra w.
       if (case c of None \<Rightarrow> False | Some p \<Rightarrow> mc_ID extra = mc_ID p) then w
       else call_Remove dp (mc_ID extra) w) candidates"

definition reconcile_deploying :: "('s, 'w) deps \<Rightarrow> Deployment \<Rightarrow> ManagedContainer option
    \<Rightarrow> ('s, 'w) world \<Rightarrow> ('s, 'w) world" where
  "reconcile_deploying dp d c w =
     (case call_Start dp d c w of
        (Inl err, w') \<Rightarrow>
          updateStatus dp (d_ID d) StatusFailed
            (if c = None then ''deploy_start_failed'' else ''redeploy_start_failed'') err w'
      | (Inr runtimePorts, w') \<Rightarrow>
          updatePortsAndStatus dp (d_ID d) runtimePorts StatusHealthy
            (if c = None then ''deploy_start_succeeded'' else ''redeploy_start_succeeded'') w')"

definition reconcile_healthy :: "('s, 'w) deps \<Rightarrow> Deployment \<Rightarrow> ManagedContainer option
    \<Rightarrow> ('s, 'w) world \<Rightarrow> ('s, 'w) world" where
  "reconcile_healthy dp d c w =
     (case c of
        None \<Rightarrow> updateStatus dp (d_ID d) StatusFailed (exitReason None) (exitMessage None) w
      | Some p \<Rightarrow>
          if \<not> mc_Running p
          then updateStatus dp (d_ID d) StatusFailed (exitReason (mc_ExitDetails p))
                 (exitMessage (mc_ExitDetails p)) w
          else w)"

definition reconcile_failed :: "('s, 'w) deps \<Rightarrow> int \<Rightarrow> bool \<Rightarrow> Deployment \<Rightarrow> ManagedContainer option
    \<Rightarrow> ('s, 'w) world \<Rightarrow> ('s, 'w) world" where
  "reconcile_failed dp now reconnected d c w =
     (if \<not> isTransientFailure (d_Error d) then w
      else if (case c of None \<Rightarrow> False | Some p \<Rightarrow> mc_Running p)
      then updateStatus dp (d_ID d) StatusHealthy ''retry_recovered_running'' []
             (on_rec (clearRetryState (d_ID d)) w)
      else if \<not> canRetryTransientFailure (d_ID d) now reconnected (w_rec w) then w
      else case call_Start dp d c w of
          (Inl err, w') \<Rightarrow>
            updateStatus dp (d_ID d) StatusFailed ''retry_start_failed_transient'' err
              (on_rec (recordRetryFailure (d_ID d) now) w')
        | (Inr runtimePorts, w') \<Rightarrow>
            updatePortsAndStatus dp (d_ID d) runtimePorts StatusHealthy ''retry_start_succeeded''
              (on_rec (clearRetryState (d_ID d)) w'))"

text \<open>The domain is printed with \<open>%q\<close>; a normalised domain has no character that this escapes.\<close>

definition reserved_message :: "string \<Rightarrow> string" where
  "reserved_message domain = ''domain '' @ [CHR 0x22] @ domain @ [CHR 0x22] @ '' is reserved for dashboard''"

definition reconcile_one :: "('s, 'w) deps \<Rightarrow> int \<Rightarrow> bool \<Rightarrow> ManagedContainer list \<Rightarrow> Deployment
    \<Rightarrow> ('s, 'w) world \<Rightarrow> ('s, 'w) world" where
  "reconcile_one dp now reconnected containers d w0 =
     (let w1 = (if d_Status d \<in> {StatusHealthy, StatusDeploying, StatusIdle}
                then on_rec (clearRetryState (d_ID d)) w0 else w0);
          (c, candidates) = choosePrimaryContainer (d_Name d)
             (filter (\<lambda>x. mc_DeploymentID x = d_ID d) containers);
          w2 = remove_extras dp c candidates w1;
          dashboard = rc_dashboardDomain (w_rec w2) in
      if dashboard \<noteq> [] \<and> normalizeDomain (d_Domain d) = dashboard \<and> d_Status d = StatusDeploying
      then updateStatus dp (d_ID d) StatusFailed ''domain_reserved'' (reserved_message dashboard) w2
      else if d_Status d = StatusDeploying then reconcile_deploying dp d c w2
      else if d_Status d = StatusHealthy then reconcile_healthy dp d c w2
      else if d_Status d = StatusFailed then reconcile_failed dp now reconnected d c w2
      else w2)"

section \<open>A pass\<close>

datatype reconcile_error = ListDeployments store_error | DockerUnavailable string | ListContainers string

definition mark_unavailable :: "('s, 'w) deps \<Rightarrow> Deployment list \<Rightarrow> ('s, 'w) world \<Rightarrow> ('s, 'w) world" where
  "mark_unavailable dp =
     fold (\<lambda>d w. if d_Status d = StatusHealthy \<or> d_Status d = StatusDeploying
       then updateStatus dp (d_ID d) StatusFailed ''docker_unavailable'' dockerUnavailableError w else w)"

definition remove_orphans :: "('s, 'w) deps \<Rightarrow> Deployment list \<Rightarrow> ManagedContainer list
    \<Rightarrow> ('s, 'w) world \<Rightarrow> ('s, 'w) world" where
  "remove_orphans dp deployments =
     fold (\<lambda>c w. if mc_DeploymentID c \<notin> d_ID ` set deployments then call_Remove dp (mc_ID c) w else w)"

definition Reconcile :: "('s, 'w) deps \<Rightarrow> int \<Rightarrow> ('s, 'w) world \<Rightarrow> reconcile_error option \<times> ('s, 'w) world" where
  "Reconcile dp now w =
     (case dp_List dp (w_store w) of
        Inl err \<Rightarrow> (Some (ListDeployments err), w)
      | Inr deployments \<Rightarrow>
          (case da_Ping (dp_docker dp) (w_docker w) of
             Some err \<Rightarrow>
               (Some (DockerUnavailable err),
                mark_unavailable dp deployments
                  (w\<lparr>w_rec := snd (recordDockerReachability False (w_rec w))\<rparr>))
           | None \<Rightarrow>
               (let (reconnected, rec') = recordDockerReachability True (w_rec w);
                    w1 = w\<lparr>w_rec := rec'\<rparr> in
                case da_ListManagedContainers (dp_docker dp) (w_docker w1) of
                  Inl err \<Rightarrow> (Some (ListContainers err), w1)
                | Inr containers \<Rightarrow>
                    (None, remove_orphans dp deployments containers
                       (fold (reconcile_one dp now reconnected containers) deployments w1)))))"

section \<open>The status machine\<close>

text \<open>The edges of the machine: from a status and its message to a status, a reason and a message.\<close>

inductive status_machine :: "Status \<Rightarrow> string \<Rightarrow> Status \<Rightarrow> StatusReason \<Rightarrow> string \<Rightarrow> bool" where
  deployed: "reason \<in> {''deploy_start_succeeded'', ''redeploy_start_succeeded''} \<Longrightarrow>
    status_machine StatusDeploying msg StatusHealthy reason []"
| deploy_failed: "reason \<in> {''deploy_start_failed'', ''redeploy_start_failed'', ''domain_reserved''} \<Longrightarrow>
    status_machine StatusDeploying msg StatusFailed reason err"
| exited: "status_machine StatusHealthy msg StatusFailed (exitReason ed) (exitMessage ed)"
| recovered: "isTransientFailure msg \<Longrightarrow>
    reason \<in> {''retry_recovered_running'', ''retry_start_succeeded''} \<Longrightarrow>
    status_machine StatusFailed msg StatusHealthy reason []"
| retry_failed: "isTransientFailure msg \<Longrightarrow>
    status_machine StatusFailed msg StatusFailed ''retry_start_failed_transient'' err"
| unavailable: "from \<in> {StatusHealthy, StatusDeploying} \<Longrightarrow>
    status_machine from msg StatusFailed ''docker_unavailable'' dockerUnavailableError"

inductive_simps status_machine_from_idle: "status_machine ''idle'' msg to reason err"

text \<open>A patch that the reconciler may send for a deployment it listed.\<close>

definition status_patch :: "Deployment \<Rightarrow> Deployment \<Rightarrow> bool" where
  "status_patch d p \<longleftrightarrow>
     p = zero_Deployment\<lparr>d_Status := d_Status p, d_Reason := d_Reason p, d_Error := d_Error p, d_Ports := d_Ports p\<rparr> \<and>
     status_machine (d_Status d) (d_Error d) (d_Status p) (d_Reason p) (d_Error p)"

text \<open>What happens to the store for one deployment: nothing, or one such patch.\<close>

definition patches :: "('s, 'w) deps \<Rightarrow> Deployment \<Rightarrow> 's \<Rightarrow> 's \<Rightarrow> bool" where
  "patches dp d s s' \<longleftrightarrow> s' = s \<or> (\<exists>p. status_patch d p \<and> s' = snd (dp_Patch dp (d_ID d) p s))"

lemma store_simps [simp]:
  "w_store (notifyStatus dp k st rs msg w) = w_store w"
  "w_store (on_rec f w) = w_store w"
  "w_store (call_Remove dp cid w) = w_store w"
  "w_store (updateStatus dp k st rs msg w) = snd (dp_Patch dp k
     (zero_Deployment\<lparr>d_Status := st, d_Reason := rs, d_Error := msg\<rparr>) (w_store w))"
  "w_store (updatePortsAndStatus dp k ports st rs w) = snd (dp_Patch dp k
     (zero_Deployment\<lparr>d_Status := st, d_Reason := rs, d_Error := [], d_Ports := ports\<rparr>) (w_store w))"
  by (simp_all add: notifyStatus_def on_rec_def call_Remove_def updateStatus_def updatePortsAndStatus_def)

lemma call_Start_store: "call_Start dp d c w = (r, w') \<Longrightarrow> w_store w' = w_store w"
  by (auto simp: call_Start_def split: option.splits prod.splits)

lemma remove_extras_store [simp]: "w_store (remove_extras dp c cs w) = w_store w"
  by (induction cs arbitrary: w) (simp_all add: remove_extras_def)

lemma patches_status:
  "status_machine (d_Status d) (d_Error d) st rs msg \<Longrightarrow>
     patches dp d s (snd (dp_Patch dp (d_ID d) (zero_Deployment\<lparr>d_Status := st, d_Reason := rs, d_Error := msg\<rparr>) s))"
  unfolding patches_def status_patch_def
  by (intro disjI2 exI[of _ "zero_Deployment\<lparr>d_Status := st, d_Reason := rs, d_Error := msg\<rparr>"])
    (simp add: zero_Deployment_def)

lemma patches_ports:
  "status_machine (d_Status d) (d_Error d) st rs [] \<Longrightarrow>
     patches dp d s (snd (dp_Patch dp (d_ID d)
       (zero_Deployment\<lparr>d_Status := st, d_Reason := rs, d_Error := [], d_Ports := ports\<rparr>) s))"
  unfolding patches_def status_patch_def
  by (intro disjI2 exI[of _ "zero_Deployment\<lparr>d_Status := st, d_Reason := rs, d_Error := [], d_Ports := ports\<rparr>"])
    (simp add: zero_Deployment_def)

lemma patches_refl: "patches dp d s s"
  by (simp add: patches_def)

lemma reconcile_deploying_patches:
  assumes "d_Status d = StatusDeploying"
  shows "patches dp d (w_store w) (w_store (reconcile_deploying dp d c w))"
proof (cases "call_Start dp d c w")
  case (Pair r w')
  note st = call_Start_store[OF Pair]
  show ?thesis
  proof (cases r)
    case (Inl err)
    with Pair st assms show ?thesis
      by (auto simp: reconcile_deploying_def simp del: StatusDeploying_def StatusFailed_def
          intro!: patches_status status_machine.deploy_failed)
  next
    case (Inr ports)
    with Pair st assms show ?thesis
      by (auto simp: reconcile_deploying_def simp del: StatusDeploying_def StatusHealthy_def
          intro!: patches_ports status_machine.deployed)
  qed
qed

lemma reconcile_healthy_patches:
  assumes "d_Status d = StatusHealthy"
  shows "patches dp d (w_store w) (w_store (reconcile_healthy dp d c w))"
  using assms
  by (auto simp: reconcile_healthy_def simp del: StatusHealthy_def StatusFailed_def
      intro!: patches_status patches_refl status_machine.exited split: option.split)

lemma reconcile_failed_patches:
  assumes "d_Status d = StatusFailed"
  shows "patches dp d (w_store w) (w_store (reconcile_failed dp now rec d c w))"
proof (cases "call_Start dp d c w")
  case (Pair r w')
  note st = call_Start_store[OF Pair]
  show ?thesis
  proof (cases r)
    case (Inl err)
    with Pair st assms show ?thesis
      by (auto simp: reconcile_failed_def simp del: StatusHealthy_def StatusFailed_def
          intro!: patches_status patches_refl status_machine.retry_failed status_machine.recovered)
  next
    case (Inr ports)
    with Pair st assms show ?thesis
      by (auto simp: reconcile_failed_def simp del: StatusHealthy_def StatusFailed_def
          intro!: patches_status patches_ports patches_refl status_machine.recovered)
  qed
qed

lemma reconcile_one_patches: "patches dp d (w_store w) (w_store (reconcile_one dp now rec cs d w))"
proof -
  let ?w1 = "if d_Status d \<in> {StatusHealthy, StatusDeploying, StatusIdle}
    then on_rec (clearRetryState (d_ID d)) w else w"
  obtain c cands where c: "choosePrimaryContainer (d_Name d) (filter (\<lambda>x. mc_DeploymentID x = d_ID d) cs) = (c, cands)"
    by fastforce
  let ?w2 = "remove_extras dp c cands ?w1"
  have st: "w_store ?w2 = w_store w" by simp
  have "d_Status d = StatusDeploying \<Longrightarrow> patches dp d (w_store w)
      (w_store (updateStatus dp (d_ID d) StatusFailed ''domain_reserved'' msg ?w2))" for msg
    unfolding store_simps st by (rule patches_status, erule ssubst, rule status_machine.deploy_failed) simp
  note ps = this reconcile_deploying_patches[of d dp ?w2 c] reconcile_healthy_patches[of d dp ?w2 c]
    reconcile_failed_patches[of d dp ?w2 now rec c]
  show ?thesis
    using ps unfolding st reconcile_one_def Let_def c
    by (auto simp: patches_refl simp del: StatusDeploying_def StatusHealthy_def StatusFailed_def StatusIdle_def)
qed

section \<open>A pass over the store\<close>

lemma status_machine_status: "status_machine from msg to reason err \<Longrightarrow> to \<noteq> []"
  by (cases rule: status_machine.cases) auto

lemma merge_status_patch:
  assumes "status_patch d p"
  shows "patch_merge x p = x\<lparr>d_Ports := (if d_Ports p \<noteq> None then d_Ports p else d_Ports x),
    d_Status := d_Status p, d_Reason := d_Reason p, d_Error := d_Error p\<rparr>"
proof -
  from assms have "status_machine (d_Status d) (d_Error d) (d_Status p) (d_Reason p) (d_Error p)"
    by (simp only: status_patch_def)
  then have "d_Status p \<noteq> []" by (rule status_machine_status)
  moreover have "d_Image p = [] \<and> d_Envs p = None \<and> d_Volumes p = None \<and> d_FileMounts p = None \<and>
      d_Domain p = [] \<and> \<not> d_ProxyPortSet p \<and> \<not> d_PublicSet p \<and> d_BasicAuth p = None \<and> d_Security p = None"
  proof -
    have p: "p = zero_Deployment\<lparr>d_Status := d_Status p, d_Reason := d_Reason p, d_Error := d_Error p,
        d_Ports := d_Ports p\<rparr>"
      using assms by (simp only: status_patch_def)
    show ?thesis by (intro conjI; subst p; simp add: zero_Deployment_def)
  qed
  ultimately show ?thesis by (cases x) (simp add: patch_merge_def)
qed

lemma json_merge_status_patch:
  assumes "status_patch d p" and "json_Deployment x = x"
  shows "json_Deployment (patch_merge x p) = patch_merge x p"
  using assms(2) unfolding merge_status_patch[OF assms(1)]
  by (cases x) (auto simp: json_Deployment_def split: if_splits)

context deployment_store
begin

lemma fold_patches:
  assumes "ok e" and "\<And>d w. d \<in> set ds \<Longrightarrow> st (f d w) = st w \<or>
      (\<exists>p. status_patch d p \<and> st (f d w) = snd (patch e (d_ID d) p (st w)))"
    and "distinct (map d_ID ds)" and "inv (st w)"
  shows "inv (st (fold f ds w)) \<and>
    (\<forall>k. view (st (fold f ds w)) k = view (st w) k \<or>
      (\<exists>d \<in> set ds. \<exists>p x. d_ID d = k \<and> status_patch d p \<and> view (st w) k = Some x \<and>
        view (st (fold f ds w)) k = Some (patch_merge x p)))"
  using assms(2-4)
proof (induction ds arbitrary: w)
  case (Cons d ds)
  have step: "inv (st (f d w)) \<and> (\<forall>k. view (st (f d w)) k = view (st w) k \<or>
      (\<exists>p x. d_ID d = k \<and> status_patch d p \<and> view (st w) k = Some x \<and>
        view (st (f d w)) k = Some (patch_merge x p)))"
  proof (cases "st (f d w) = st w")
    case True
    with Cons.prems(3) show ?thesis by simp
  next
    case False
    with Cons.prems(1)[of d w] obtain p where p: "status_patch d p"
      and s: "st (f d w) = snd (patch e (d_ID d) p (st w))" by auto
    obtain r s' where r: "patch e (d_ID d) p (st w) = (r, s')" by fastforce
    show ?thesis
    proof (cases r)
      case (Inl err)
      with r s patch_Inl Cons.prems(3) show ?thesis by simp
    next
      case (Inr d')
      from patch_Inr[OF assms(1) Cons.prems(3)] r Inr obtain x where x: "view (st w) (d_ID d) = Some x"
        and "inv s'" "view s' = (view (st w))(d_ID d \<mapsto> json_Deployment (patch_merge x p))" by blast
      with s r p json_merge_status_patch[OF p view_stored[OF Cons.prems(3) x]] show ?thesis by auto
    qed
  qed
  then have "inv (st (f d w))" ..
  note IH = Cons.IH[OF Cons.prems(1) _ this]
  have "inv (st (fold f ds (f d w)))" using IH Cons.prems(2) by simp
  moreover have "view (st (fold f ds (f d w))) k = view (st w) k \<or>
      (\<exists>d' \<in> set (d # ds). \<exists>p x. d_ID d' = k \<and> status_patch d' p \<and> view (st w) k = Some x \<and>
        view (st (fold f ds (f d w))) k = Some (patch_merge x p))" for k
  proof (cases "k = d_ID d")
    case True
    with Cons.prems(2) have "k \<notin> d_ID ` set ds" by simp
    then have "\<not> (\<exists>d' \<in> set ds. d_ID d' = k)" by (metis imageI)
    with IH Cons.prems(2) have "view (st (fold f ds (f d w))) k = view (st (f d w)) k" by auto
    with step True show ?thesis by auto
  next
    case False
    with step have "view (st (f d w)) k = view (st w) k" by auto
    moreover have "view (st (fold f ds (f d w))) k = view (st (f d w)) k \<or>
      (\<exists>d' \<in> set ds. \<exists>p x. d_ID d' = k \<and> status_patch d' p \<and> view (st (f d w)) k = Some x \<and>
        view (st (fold f ds (f d w))) k = Some (patch_merge x p))"
      using IH Cons.prems(2) by simp
    ultimately show ?thesis by auto
  qed
  ultimately show ?case by simp
qed simp

end

text \<open>Either listed deployment stays, or it moves along one edge of the machine.\<close>

definition moved :: "Deployment \<Rightarrow> Deployment \<Rightarrow> bool" where
  "moved d d' \<longleftrightarrow> status_machine (d_Status d) (d_Error d) (d_Status d') (d_Reason d') (d_Error d') \<and>
     d' = d\<lparr>d_Ports := d_Ports d', d_Status := d_Status d', d_Reason := d_Reason d', d_Error := d_Error d'\<rparr>"

lemma moved_patch: "status_patch d p \<Longrightarrow> moved d (patch_merge d p)"
  by (simp add: moved_def merge_status_patch) (simp add: status_patch_def)

lemma remove_orphans_store [simp]: "w_store (remove_orphans dp ds cs w) = w_store w"
  by (induction cs arbitrary: w) (simp_all add: remove_orphans_def)

lemma mark_one_patches:
  "patches dp d (w_store w) (w_store (if d_Status d = StatusHealthy \<or> d_Status d = StatusDeploying
     then updateStatus dp (d_ID d) StatusFailed ''docker_unavailable'' dockerUnavailableError w else w))"
  by (auto simp: patches_refl simp del: StatusDeploying_def StatusHealthy_def StatusFailed_def
      intro!: patches_status status_machine.unavailable)

lemma Reconcile_store:
  fixes w :: "('s, 'w) world"
  assumes "dp_List dp (w_store w) = Inr ds"
  shows "\<exists>f (w1 :: ('s, 'w) world). w_store w1 = w_store w \<and> w_store (snd (Reconcile dp now w)) = w_store (fold f ds w1) \<and>
    (\<forall>d w. patches dp d (w_store w) (w_store (f d w))) \<or>
    w_store (snd (Reconcile dp now w)) = w_store w"
proof (cases "da_Ping (dp_docker dp) (w_docker w)")
  case (Some err)
  let ?f = "\<lambda>d w. if d_Status d = StatusHealthy \<or> d_Status d = StatusDeploying
     then updateStatus dp (d_ID d) StatusFailed ''docker_unavailable'' dockerUnavailableError w else w"
  let ?w = "w\<lparr>w_rec := snd (recordDockerReachability False (w_rec w))\<rparr>"
  have "w_store (snd (Reconcile dp now w)) = w_store (fold ?f ds ?w)" "w_store ?w = w_store w"
    using assms Some by (simp_all add: Reconcile_def mark_unavailable_def)
  with mark_one_patches[of dp] show ?thesis
    by (intro exI[of _ ?f] exI[of _ ?w]) blast
next
  case None
  let ?rec = "recordDockerReachability True (w_rec w)"
  let ?w = "w\<lparr>w_rec := snd ?rec\<rparr>"
  show ?thesis
  proof (cases "da_ListManagedContainers (dp_docker dp) (w_docker w)")
    case (Inl err)
    with assms None show ?thesis by (simp add: Reconcile_def Let_def split: prod.split)
  next
    case (Inr cs)
    with assms None have "w_store (snd (Reconcile dp now w)) =
        w_store (fold (reconcile_one dp now (fst ?rec) cs) ds ?w)" "w_store ?w = w_store w"
      by (simp_all add: Reconcile_def Let_def split: prod.split)
    with reconcile_one_patches show ?thesis by blast
  qed
qed

lemma Reconcile_moves:
  fixes w :: "(disk, 'w) world"
  assumes "dp_List dp = JS_List e" and "dp_Patch dp = JS_Patch e'" and "env_ok e" and "env_ok e'"
    and "store_inv (w_store w)"
  shows "store_inv (w_store (snd (Reconcile dp now w))) \<and>
    (\<forall>k. store_view (w_store (snd (Reconcile dp now w))) k = store_view (w_store w) k \<or>
      (\<exists>d d'. store_view (w_store w) k = Some d \<and>
        store_view (w_store (snd (Reconcile dp now w))) k = Some d' \<and> moved d d'))"
proof (cases "JS_List e (w_store w)")
  case (Inl err)
  with assms show ?thesis by (simp add: Reconcile_def)
next
  case (Inr ds)
  let ?s' = "w_store (snd (Reconcile dp now w))"
  from js.list_Inr[OF assms(3) Inr] have ds: "distinct (map d_ID ds)" by simp
  from Reconcile_store[of dp w ds now] Inr assms(1) consider
      (fold) f and w1 :: "(disk, 'w) world" where "w_store w1 = w_store w" "?s' = w_store (fold f ds w1)"
        "\<forall>d w. patches dp d (w_store w) (w_store (f d w))"
    | (same) "?s' = w_store w" by auto
  then show ?thesis
  proof cases
    case fold
    have "w_store (f d w) = w_store w \<or>
        (\<exists>p. status_patch d p \<and> w_store (f d w) = snd (JS_Patch e' (d_ID d) p (w_store w)))" for d w
      using fold(3) unfolding patches_def assms(2) by blast
    note step = js.fold_patches[OF assms(4), where st = w_store and f = f, OF this ds, of w1]
    have inv: "store_inv ?s'"
      and v: "\<And>k. store_view ?s' k = store_view (w_store w) k \<or>
        (\<exists>d \<in> set ds. \<exists>p x. d_ID d = k \<and> status_patch d p \<and> store_view (w_store w) k = Some x \<and>
          store_view ?s' k = Some (patch_merge x p))"
      using step assms(5) unfolding fold(1,2) by blast+
    have "store_view (w_store w) k = Some x \<Longrightarrow> d \<in> set ds \<Longrightarrow> d_ID d = k \<Longrightarrow> d = x" for k x d
      using js.list_lookup[OF assms(3) Inr] by force
    with inv v moved_patch show ?thesis by metis
  next
    case same
    with assms(5) show ?thesis by simp
  qed
qed

section \<open>Delays\<close>

lemma retry_delay_closed:
  assumes "0 < delay" and "delay \<le> transientRetryMaxDelay"
  shows "retry_delay n delay = min (delay * 2 ^ n) transientRetryMaxDelay"
  using assms
proof (induction n arbitrary: delay)
  case (Suc n)
  show ?case
  proof (cases "delay * 2 \<ge> transientRetryMaxDelay")
    case True
    have "delay * 2 * 1 \<le> delay * 2 * 2 ^ n" using Suc.prems by (intro mult_left_mono) auto
    with True show ?thesis by (simp add: min_def mult.assoc)
  next
    case False
    with Suc show ?thesis by (simp add: mult.assoc)
  qed
qed simp

section \<open>Messages\<close>

lemma Contains_subset: "Contains s p \<Longrightarrow> set p \<subseteq> set s"
proof (induction s)
  case (Cons a s)
  have "HasPrefix (a # s) p \<Longrightarrow> set p \<subseteq> set (a # s)"
    by (metis HasPrefix_iff Un_upper1 set_append)
  with Cons show ?case by auto
qed simp

lemma Contains_self: "Contains (p @ s) p"
  by (metis Contains.elims(3) Contains.simps(1) HasPrefix_append append_is_Nil_conv)

lemma ToLower_append: "ToLower (s @ t) = ToLower s @ ToLower t"
  by (simp add: ToLower_def)

lemma set_ToLower_Itoa: "set (ToLower (Itoa n)) \<subseteq> {c. is_digit c} \<union> {CHR ''-''}"
proof -
  have digits: "list_all is_digit (nat_str m) \<Longrightarrow> set (ToLower (nat_str m)) \<subseteq> {c. is_digit c}" for m
    by (auto simp: ToLower_def list_all_iff lower_char_def is_digit_def)
  have "lower_char (CHR ''-'') = CHR ''-''" by code_simp
  then show ?thesis
    using digits[OF nat_str_digits[of n]] digits[OF nat_str_digits[of "- n"]]
    by (cases "n < 0") (auto simp: Itoa_def ToLower_def)
qed

text \<open>A message is not transient when letters of the three phrases are missing from it.\<close>

lemma not_transient:
  assumes "CHR ''v'' \<notin> set (ToLower msg)" and "CHR ''b'' \<notin> set (ToLower msg)" and "CHR ''g'' \<notin> set (ToLower msg)"
  shows "\<not> isTransientFailure msg"
  using assms Contains_subset[of "ToLower msg" dockerUnavailableError]
    Contains_subset[of "ToLower msg" "''docker daemon unreachable''"]
    Contains_subset[of "ToLower msg" "''container is not running''"]
  by (auto simp: isTransientFailure_def dockerUnavailableError_def Let_def)

lemma exit_text_not_transient:
  assumes "set (ToLower pre) \<inter> {CHR ''v'', CHR ''b'', CHR ''g''} = {}"
  shows "\<not> isTransientFailure (pre @ Itoa n @ '')'')"
proof -
  have "ToLower '')'' = '')''" by code_simp
  then have "set (ToLower (pre @ Itoa n @ '')'')) \<subseteq> set (ToLower pre) \<union> {c. is_digit c} \<union> {CHR ''-'', CHR '')''}"
    using set_ToLower_Itoa[of n] by (auto simp: ToLower_append)
  moreover have "\<not> is_digit CHR ''v''" "\<not> is_digit CHR ''b''" "\<not> is_digit CHR ''g''"
    by (simp_all add: is_digit_def byte_def)
  ultimately show ?thesis using assms by (intro not_transient) auto
qed

section \<open>Containers touched by a pass\<close>

definition removed :: "docker_call list \<Rightarrow> string set" where
  "removed calls = {cid. CallRemove cid \<in> set calls}"

lemma removed_simps [simp]: "removed [] = {}" "removed (xs @ ys) = removed xs \<union> removed ys"
  "removed [CallRemove cid] = {cid}" "removed [CallStart k] = {}" "removed [CallReplace k cid] = {}"
  by (auto simp: removed_def)

lemma calls_simps [simp]:
  "w_calls (notifyStatus dp k st rs msg w) = w_calls w"
  "w_calls (on_rec f w) = w_calls w"
  "w_calls (call_Remove dp cid w) = w_calls w @ [CallRemove cid]"
  "w_calls (updateStatus dp k st rs msg w) = w_calls w"
  "w_calls (updatePortsAndStatus dp k ports st rs w) = w_calls w"
  by (simp_all add: notifyStatus_def on_rec_def call_Remove_def updateStatus_def updatePortsAndStatus_def)

lemma call_Start_removed: "call_Start dp d c w = (r, w') \<Longrightarrow> removed (w_calls w') = removed (w_calls w)"
  by (auto simp: call_Start_def split: option.splits prod.splits)

lemma reconcile_cases_removed:
  "removed (w_calls (reconcile_deploying dp d c w)) = removed (w_calls w)"
  "removed (w_calls (reconcile_healthy dp d c w)) = removed (w_calls w)"
  "removed (w_calls (reconcile_failed dp now rec d c w)) = removed (w_calls w)"
  by (auto simp: reconcile_deploying_def reconcile_healthy_def reconcile_failed_def
      split: option.splits prod.splits sum.splits dest!: call_Start_removed)

lemma remove_extras_removed:
  "removed (w_calls (remove_extras dp c cs w)) = removed (w_calls w) \<union>
     {cid \<in> mc_ID ` set cs. (case c of None \<Rightarrow> True | Some p \<Rightarrow> cid \<noteq> mc_ID p)}"
  by (induction cs arbitrary: w) (auto simp: remove_extras_def split: option.splits)

lemma remove_orphans_removed:
  "removed (w_calls (remove_orphans dp ds cs w)) = removed (w_calls w) \<union>
     mc_ID ` {c \<in> set cs. mc_DeploymentID c \<notin> d_ID ` set ds}"
  by (induction cs arbitrary: w) (auto simp: remove_orphans_def)

definition owned :: "ManagedContainer list \<Rightarrow> Deployment \<Rightarrow> ManagedContainer list" where
  "owned cs d = filter (\<lambda>x. mc_DeploymentID x = d_ID d) cs"

definition primary :: "ManagedContainer list \<Rightarrow> Deployment \<Rightarrow> ManagedContainer option" where
  "primary cs d = fst (choosePrimaryContainer (d_Name d) (owned cs d))"

lemma set_sort_containers [simp]: "set (sort_containers n cs) = set cs"
  by (simp add: sort_containers_def)

lemma choosePrimary_set: "set (snd (choosePrimaryContainer n cs)) = set cs"
  by (simp add: choosePrimaryContainer_def Let_def)

lemma reconcile_one_removed:
  "removed (w_calls (reconcile_one dp now rec cs d w)) = removed (w_calls w) \<union>
     {cid \<in> mc_ID ` set (owned cs d). (case primary cs d of None \<Rightarrow> True | Some p \<Rightarrow> cid \<noteq> mc_ID p)}"
proof -
  let ?p = "choosePrimaryContainer (d_Name d) (owned cs d)"
  have "set (snd ?p) = set (owned cs d)" by (rule choosePrimary_set)
  moreover have "?p = (primary cs d, snd ?p)" by (simp add: primary_def)
  ultimately obtain cands where p: "?p = (primary cs d, cands)" and c: "set cands = set (owned cs d)" by metis
  show ?thesis
    unfolding reconcile_one_def Let_def owned_def[symmetric] p c[symmetric]
    by (simp add: reconcile_cases_removed remove_extras_removed)
qed

lemma fold_reconcile_one_removed:
  "removed (w_calls (fold (reconcile_one dp now rec cs) ds w)) = removed (w_calls w) \<union>
     (\<Union>d \<in> set ds. {cid \<in> mc_ID ` set (owned cs d).
        (case primary cs d of None \<Rightarrow> True | Some p \<Rightarrow> cid \<noteq> mc_ID p)})"
  by (induction ds arbitrary: w) (auto simp: reconcile_one_removed)

section \<open>Patching without faults\<close>

lemma JS_Patch_view:
  assumes "faultless e" and "env_ok e" and "store_inv s"
  shows "store_inv (snd (JS_Patch e k p s)) \<and> store_view (snd (JS_Patch e k p s)) =
    (store_view s)(k := map_option (\<lambda>d. json_Deployment (patch_merge d p)) (store_view s k))"
proof (cases "store_view s k")
  case None
  obtain r s' where r: "JS_Patch e k p s = (r, s')" by fastforce
  have "\<exists>err. r = Inl err"
  proof (cases r)
    case (Inr d')
    with r js.patch_Inr[OF assms(2,3), of k p d' s'] None show ?thesis by simp
  qed simp
  with r js.patch_Inl[of e k p s] assms(3) None show ?thesis by auto
next
  case (Some d)
  from JS_Patch_faultless[OF assms(1,3) Some] obtain s' where "JS_Patch e k p s = (Inr (patch_merge d p), s')"
    by blast
  with js.patch_Inr[OF assms(2,3) this] Some show ?thesis by auto
qed

definition down :: "Deployment \<Rightarrow> Deployment" where
  "down d = (if d_Status d = StatusHealthy \<or> d_Status d = StatusDeploying
     then d\<lparr>d_Status := StatusFailed, d_Reason := ''docker_unavailable'', d_Error := dockerUnavailableError\<rparr>
     else d)"

lemma patch_down:
  assumes "json_Deployment d = d" and "d_Status d = StatusHealthy \<or> d_Status d = StatusDeploying"
  shows "json_Deployment (patch_merge d (zero_Deployment\<lparr>d_Status := StatusFailed,
    d_Reason := ''docker_unavailable'', d_Error := dockerUnavailableError\<rparr>)) = down d"
  using assms by (cases d) (auto simp: patch_merge_def zero_Deployment_def down_def json_Deployment_def split: if_splits)

lemma mark_unavailable_view:
  assumes "faultless e" and "env_ok e" and "dp_Patch dp = JS_Patch e" and "store_inv (w_store w)"
    and "distinct (map d_ID ds)" and "\<forall>d \<in> set ds. store_view (w_store w) (d_ID d) = Some d"
  shows "store_inv (w_store (mark_unavailable dp ds w)) \<and> w_docker (mark_unavailable dp ds w) = w_docker w \<and>
    w_calls (mark_unavailable dp ds w) = w_calls w \<and>
    store_view (w_store (mark_unavailable dp ds w)) k =
      (if k \<in> d_ID ` set ds then map_option down (store_view (w_store w) k) else store_view (w_store w) k)"
  using assms(4-6)
proof (induction ds arbitrary: w)
  case Nil
  then show ?case by (simp add: mark_unavailable_def)
next
  case (Cons d ds)
  let ?w = "if d_Status d = StatusHealthy \<or> d_Status d = StatusDeploying
    then updateStatus dp (d_ID d) StatusFailed ''docker_unavailable'' dockerUnavailableError w else w"
  have step: "mark_unavailable dp (d # ds) w = mark_unavailable dp ds ?w" by (simp add: mark_unavailable_def)
  have d: "store_view (w_store w) (d_ID d) = Some d" using Cons.prems by simp
  with Cons.prems(1) have "json_Deployment d = d" by (rule js.view_stored)
  with d JS_Patch_view[OF assms(1,2) Cons.prems(1), of "d_ID d"] patch_down[of d]
  have v: "store_inv (w_store ?w) \<and> store_view (w_store ?w) = (store_view (w_store w))(d_ID d \<mapsto> down d)"
    using Cons.prems(1) by (auto simp: assms(3) down_def fun_upd_idem)
  have same: "w_docker ?w = w_docker w" "w_calls ?w = w_calls w"
    by (simp_all add: updateStatus_def notifyStatus_def)
  have fresh: "d_ID d \<notin> d_ID ` set ds" using Cons.prems(2) by simp
  then have "x \<in> set ds \<Longrightarrow> d_ID x \<noteq> d_ID d" for x by (metis imageI)
  with v Cons.prems(3) have "\<forall>x \<in> set ds. store_view (w_store ?w) (d_ID x) = Some x" by simp
  from Cons.IH[OF conjunct1[OF v] _ this] Cons.prems(2)
  have IH: "store_inv (w_store (mark_unavailable dp ds ?w))" "w_docker (mark_unavailable dp ds ?w) = w_docker w"
    "w_calls (mark_unavailable dp ds ?w) = w_calls w"
    "store_view (w_store (mark_unavailable dp ds ?w)) k =
      (if k \<in> d_ID ` set ds then map_option down (store_view (w_store ?w) k) else store_view (w_store ?w) k)"
    unfolding same by simp_all
  have "store_view (w_store (mark_unavailable dp ds ?w)) k =
      (if k \<in> d_ID ` set (d # ds) then map_option down (store_view (w_store w) k) else store_view (w_store w) k)"
    using fresh d unfolding IH(4) conjunct2[OF v] by (cases "k = d_ID d") auto
  with IH(1-3) show ?case unfolding step by blast
qed

section \<open>Properties\<close>

text \<open>
  C15. A pass moves deployments only along the status machine. Whatever the container engine
  answers and whatever faults the store has, a pass keeps the store's invariant, adds and removes
  no deployment, and leaves each deployment as it was or moves it along one edge, changing
  nothing but status, reason, message and, possibly, ports. In particular an idle deployment and
  one that failed for a permanent reason stay as they are.
\<close>

theorem reconcile_legal_transitions:
  assumes "dp_List dp = JS_List e" and "dp_Patch dp = JS_Patch e'" and "env_ok e" and "env_ok e'"
    and "store_inv (w_store w)"
  shows "store_inv (w_store (snd (Reconcile dp now w))) \<and>
    (\<forall>k. store_view (w_store (snd (Reconcile dp now w))) k = store_view (w_store w) k \<or>
      (\<exists>d d'. store_view (w_store w) k = Some d \<and>
        store_view (w_store (snd (Reconcile dp now w))) k = Some d' \<and>
        status_machine (d_Status d) (d_Error d) (d_Status d') (d_Reason d') (d_Error d') \<and>
        d' = d\<lparr>d_Ports := d_Ports d', d_Status := d_Status d', d_Reason := d_Reason d', d_Error := d_Error d'\<rparr>))"
  using Reconcile_moves[OF assms, of now] unfolding moved_def .

text \<open>
  An unreachable engine. When the ping fails and the store works, the pass reports it, calls
  nothing of the engine, marks exactly the healthy and the deploying deployments failed with the
  reason \<open>docker_unavailable\<close>, and leaves the others; the message it stores counts as transient,
  so that a later pass retries them.
\<close>

theorem reconcile_docker_down:
  assumes "dp_List dp = JS_List e" and "dp_Patch dp = JS_Patch e" and "env_ok e" and "faultless e"
    and "store_inv (w_store w)" and "da_Ping (dp_docker dp) (w_docker w) = Some err"
  shows "fst (Reconcile dp now w) = Some (DockerUnavailable err) \<and>
    w_docker (snd (Reconcile dp now w)) = w_docker w \<and> w_calls (snd (Reconcile dp now w)) = w_calls w \<and>
    store_view (w_store (snd (Reconcile dp now w))) = (\<lambda>k. map_option down (store_view (w_store w) k)) \<and>
    isTransientFailure dockerUnavailableError"
proof -
  from JS_List_faultless[OF assms(4,5)] obtain ds where ds: "JS_List e (w_store w) = Inr ds" ..
  let ?w = "w\<lparr>w_rec := snd (recordDockerReachability False (w_rec w))\<rparr>"
  have R: "Reconcile dp now w = (Some (DockerUnavailable err), mark_unavailable dp ds ?w)"
    using assms(1,6) ds by (simp add: Reconcile_def)
  have dist: "distinct (map d_ID ds)" and set: "set ds = ran (store_view (w_store w))"
    using js.list_Inr[OF assms(3) ds] by auto
  have "\<forall>d \<in> set ds. store_view (w_store ?w) (d_ID d) = Some d"
    using js.list_lookup[OF assms(3) ds] by simp
  with mark_unavailable_view[OF assms(4,3,2) _ dist, of ?w] assms(5)
  have v: "w_docker (mark_unavailable dp ds ?w) = w_docker w" "w_calls (mark_unavailable dp ds ?w) = w_calls w"
    "\<And>k. store_view (w_store (mark_unavailable dp ds ?w)) k =
      (if k \<in> d_ID ` set ds then map_option down (store_view (w_store w) k) else store_view (w_store w) k)"
    by auto
  have "k \<notin> d_ID ` set ds \<Longrightarrow> store_view (w_store w) k = None" for k
    using set store_view_key[of "w_store w" k] by (cases "store_view (w_store w) k") (auto simp: ran_def)
  with v(3) have "store_view (w_store (mark_unavailable dp ds ?w)) = (\<lambda>k. map_option down (store_view (w_store w) k))"
    by (auto simp: fun_eq_iff)
  moreover have "isTransientFailure dockerUnavailableError" by code_simp
  ultimately show ?thesis using R v(1,2) by simp
qed

lemma hd_sort_key_min: "xs \<noteq> [] \<Longrightarrow> x \<in> set xs \<Longrightarrow> f (hd (sort_key f xs)) \<le> f x"
proof -
  assume "xs \<noteq> []" "x \<in> set xs"
  moreover obtain y ys where "sort_key f xs = y # ys"
    using \<open>xs \<noteq> []\<close> by (cases "sort_key f xs") (auto dest: arg_cong[of _ _ length])
  moreover have "sorted (map f (sort_key f xs))" by (rule sorted_sort_key)
  moreover have "set (sort_key f xs) = set xs" by simp
  ultimately show ?thesis by auto
qed

text \<open>
  Which container stands for a deployment. The choice is a container of the deployment with
  the highest score, the smallest ID among those of that score; in particular a running one when
  there is one, and among the running ones the one that has the deployment's name.
\<close>

theorem choosePrimary_best:
  assumes "fst (choosePrimaryContainer name cs) = Some c"
  shows "c \<in> set cs \<and>
    (\<forall>x \<in> set cs. containerSelectionScore x (TrimSpace name) < containerSelectionScore c (TrimSpace name) \<or>
      containerSelectionScore x (TrimSpace name) = containerSelectionScore c (TrimSpace name) \<and> mc_ID c \<le> mc_ID x) \<and>
    (\<forall>x \<in> set cs. mc_Running x \<longrightarrow> mc_Running c)"
proof -
  let ?f = "\<lambda>c. (- containerSelectionScore c (TrimSpace name), mc_ID c)"
  from assms have ne: "cs \<noteq> []" and c: "c = hd (sort_key ?f cs)"
    by (auto simp: choosePrimaryContainer_def sort_containers_def Let_def split: if_splits)
  have "c \<in> set (sort_key ?f cs)"
    unfolding c using ne by (intro hd_in_set) (metis length_0_conv length_sort)
  then have mem: "c \<in> set cs" by simp
  have "\<forall>x \<in> set cs. containerSelectionScore x (TrimSpace name) < containerSelectionScore c (TrimSpace name) \<or>
      containerSelectionScore x (TrimSpace name) = containerSelectionScore c (TrimSpace name) \<and> mc_ID c \<le> mc_ID x"
  proof
    fix x
    assume "x \<in> set cs"
    from hd_sort_key_min[OF ne this, of ?f] show "containerSelectionScore x (TrimSpace name) < containerSelectionScore c (TrimSpace name) \<or>
      containerSelectionScore x (TrimSpace name) = containerSelectionScore c (TrimSpace name) \<and> mc_ID c \<le> mc_ID x"
      unfolding c[symmetric] by (auto simp: less_eq_prod_def)
  qed
  moreover from this have "\<forall>x \<in> set cs. mc_Running x \<longrightarrow> mc_Running c"
    by (fastforce simp: containerSelectionScore_def Let_def split: if_splits)
  ultimately show ?thesis using mem by blast
qed

text \<open>
  Which containers a pass removes. A pass that reached the engine removes, besides what a
  redeploy replaces, exactly the containers of deployments that the store does not have and, for
  each deployment, all its containers but the chosen one.
\<close>

theorem reconcile_removes_exactly:
  assumes "dp_List dp (w_store w) = Inr ds" and "da_Ping (dp_docker dp) (w_docker w) = None"
    and "da_ListManagedContainers (dp_docker dp) (w_docker w) = Inr cs" and "w_calls w = []"
  shows "fst (Reconcile dp now w) = None \<and>
    {cid. CallRemove cid \<in> set (w_calls (snd (Reconcile dp now w)))} =
      mc_ID ` set (filter (\<lambda>c. mc_DeploymentID c \<notin> d_ID ` set ds) cs) \<union>
      (\<Union>d \<in> set ds. set (filter (\<lambda>cid. case primary cs d of None \<Rightarrow> True | Some p \<Rightarrow> cid \<noteq> mc_ID p)
        (map mc_ID (owned cs d))))"
proof -
  obtain rec r' where r: "recordDockerReachability True (w_rec w) = (rec, r')" by fastforce
  have R: "Reconcile dp now w = (None, remove_orphans dp ds cs
      (fold (reconcile_one dp now rec cs) ds (w\<lparr>w_rec := r'\<rparr>)))"
    using assms(1-3) r by (simp add: Reconcile_def)
  have "{cid. CallRemove cid \<in> set (w_calls (snd (Reconcile dp now w)))} = removed (w_calls (snd (Reconcile dp now w)))"
    by (simp add: removed_def)
  with R assms(4) show ?thesis
    by (simp add: remove_orphans_removed fold_reconcile_one_removed) auto
qed

text \<open>
  Retries back off. After the failure of a retry at time \<open>now\<close>, when \<open>n\<close> retries had failed
  before, the deployment is retried, unless the engine has just reconnected, from exactly
  \<open>15 * 2 ^ n\<close> seconds later on, at most two minutes later, and the count of failures is
  \<open>n + 1\<close>; other deployments are not affected, and clearing the state allows a retry at once.
\<close>

theorem retry_backoff:
  assumes "0 \<le> now"
    and "n = (case map_of (rc_retryByDeployment r) k of None \<Rightarrow> 0 | Some s \<Rightarrow> rs_attempts s)"
  shows "(canRetryTransientFailure k t False (recordRetryFailure k now r) \<longleftrightarrow>
      now + min (15 * 2 ^ n) 120 * 1000000000 \<le> t) \<and>
    map_option rs_attempts (map_of (rc_retryByDeployment (recordRetryFailure k now r)) k) = Some (n + 1) \<and>
    (\<forall>k'. k' \<noteq> k \<longrightarrow> canRetryTransientFailure k' t f (recordRetryFailure k now r) = canRetryTransientFailure k' t f r) \<and>
    canRetryTransientFailure k t f (clearRetryState k r)"
proof -
  let ?D = "min (15 * 2 ^ n) 120 * 1000000000 :: int"
  have D: "retry_delay n transientRetryBaseDelay = ?D"
    by (simp add: retry_delay_closed transientRetryBaseDelay_def transientRetryMaxDelay_def second_def min_def)
  have m: "map_of (rc_retryByDeployment (recordRetryFailure k now r)) k =
      Some \<lparr>rs_attempts = n + 1, rs_nextAllowedAt = now + ?D\<rparr>"
    using assms(2) D by (simp add: recordRetryFailure_def Let_def go_map split: option.splits)
  have "0 < ?D" by simp
  with assms(1) have "now + ?D \<noteq> 0" by linarith
  with m have "canRetryTransientFailure k t False (recordRetryFailure k now r) \<longleftrightarrow> now + ?D \<le> t"
    by (simp add: canRetryTransientFailure_def not_less)
  moreover have "map_option rs_attempts (map_of (rc_retryByDeployment (recordRetryFailure k now r)) k) = Some (n + 1)"
    using m by simp
  ultimately show ?thesis
    by (auto simp: canRetryTransientFailure_def recordRetryFailure_def clearRetryState_def Let_def go_map)
qed

text \<open>
  Why a container stopped decides whether it is retried. A deployment whose container is gone,
  or whose exit could not be inspected, gets a message that counts as transient; a container
  killed for memory, or one that exited without an engine error, gets one that does not, so the
  deployment stays failed.
\<close>

theorem exit_classification:
  "isTransientFailure (exitMessage None) \<and> exitReason None = ''container_not_running'' \<and>
   \<not> isTransientFailure (exitMessage (Some \<lparr>ed_ExitCode = n, ed_OOMKilled = True, ed_Error = msg\<rparr>)) \<and>
   \<not> isTransientFailure (exitMessage (Some \<lparr>ed_ExitCode = n, ed_OOMKilled = oom, ed_Error = []\<rparr>))"
proof -
  have pre: "set (ToLower ''container killed: out of memory (exit code '') \<inter> {CHR ''v'', CHR ''b'', CHR ''g''} = {}"
    "set (ToLower ''container exited cleanly (exit code '') \<inter> {CHR ''v'', CHR ''b'', CHR ''g''} = {}"
    "set (ToLower ''container exited unexpectedly (exit code '') \<inter> {CHR ''v'', CHR ''b'', CHR ''g''} = {}"
    by code_simp+
  have "isTransientFailure (exitMessage None)" by code_simp
  with pre[THEN exit_text_not_transient] show ?thesis by (simp add: exitMessage_def exitReason_def)
qed

text \<open>A small engine for the witnesses: starting succeeds and reports the requested ports.\<close>

definition docker0 :: "ManagedContainer list docker_api" where
  "docker0 = \<lparr>da_Ping = (\<lambda>w. if w = [] then Some ''no daemon'' else None),
     da_Start = (\<lambda>d w. (Inr (d_Ports d), w)), da_StartAndReplace = (\<lambda>d old w. (Inr (d_Ports d), w)),
     da_ListManagedContainers = Inr, da_StopAndRemove = (\<lambda>cid w. (None, filter (\<lambda>c. mc_ID c \<noteq> cid) w))\<rparr>"

definition deps0 :: "(disk, ManagedContainer list) deps" where
  "deps0 = \<lparr>dp_List = JS_List env0, dp_Patch = JS_Patch env0, dp_docker = docker0, dp_notifier = True\<rparr>"

definition cont :: "string \<Rightarrow> string \<Rightarrow> bool \<Rightarrow> ManagedContainer" where
  "cont cid dep running = \<lparr>mc_ID = cid, mc_Name = ''/web'', mc_DeploymentID = dep, mc_Running = running,
     mc_ExitDetails = None\<rparr>"

definition world0 :: "ManagedContainer list \<Rightarrow> (disk, ManagedContainer list) world" where
  "world0 cs = \<lparr>w_store = disk1, w_docker = cs, w_rec = NewReconciler [], w_notes = [], w_calls = []\<rparr>"

lemma deps0_simps [simp]: "dp_List deps0 = JS_List env0" "dp_Patch deps0 = JS_Patch env0" "dp_docker deps0 = docker0"
  by (simp_all add: deps0_def)

lemma world0_simps [simp]: "w_store (world0 cs) = disk1" "w_docker (world0 cs) = cs" "w_calls (world0 cs) = []"
  by (simp_all add: world0_def)

theorem reconcile_legal_transitions_witness:
  "store_inv (w_store (snd (Reconcile deps0 0 (world0 [cont ''c1'' ''1'' True]))))"
  using reconcile_legal_transitions[of deps0 env0 env0 "world0 [cont ''c1'' ''1'' True]" 0] by simp

theorem reconcile_docker_down_witness:
  "fst (Reconcile deps0 0 (world0 [])) = Some (DockerUnavailable ''no daemon'') \<and>
   store_view (w_store (snd (Reconcile deps0 0 (world0 [])))) ''1'' = Some (down web)"
  using reconcile_docker_down[of deps0 env0 "world0 []" "''no daemon''" 0]
  by (simp add: docker0_def disk1_view)

theorem choosePrimary_best_witness:
  "cont ''c1'' ''1'' True \<in> set [cont ''c2'' ''1'' False, cont ''c1'' ''1'' True] \<and>
   containerSelectionScore (cont ''c2'' ''1'' False) (TrimSpace ''web'') <
     containerSelectionScore (cont ''c1'' ''1'' True) (TrimSpace ''web'')"
proof -
  have "fst (choosePrimaryContainer ''web'' [cont ''c2'' ''1'' False, cont ''c1'' ''1'' True]) =
    Some (cont ''c1'' ''1'' True)" by code_simp
  from choosePrimary_best[OF this] have "containerSelectionScore (cont ''c2'' ''1'' False) (TrimSpace ''web'') <
      containerSelectionScore (cont ''c1'' ''1'' True) (TrimSpace ''web'') \<or>
    containerSelectionScore (cont ''c2'' ''1'' False) (TrimSpace ''web'') =
      containerSelectionScore (cont ''c1'' ''1'' True) (TrimSpace ''web'')" by auto
  moreover have "containerSelectionScore (cont ''c2'' ''1'' False) (TrimSpace ''web'') = 2"
    "containerSelectionScore (cont ''c1'' ''1'' True) (TrimSpace ''web'') = 4" by code_simp+
  ultimately show ?thesis by simp
qed

theorem reconcile_removes_exactly_witness:
  "{cid. CallRemove cid \<in> set (w_calls (snd (Reconcile deps0 0
      (world0 [cont ''c1'' ''1'' True, cont ''c9'' ''9'' True]))))} = {''c9''}"
proof -
  let ?cs = "[cont ''c1'' ''1'' True, cont ''c9'' ''9'' True]"
  have l: "JS_List env0 disk1 = Inr [web, api]" by code_simp
  have r: "mc_ID ` set (filter (\<lambda>c. mc_DeploymentID c \<notin> d_ID ` set [web, api]) ?cs) \<union>
      (\<Union>d \<in> set [web, api]. set (filter (\<lambda>cid. case primary ?cs d of None \<Rightarrow> True | Some p \<Rightarrow> cid \<noteq> mc_ID p)
        (map mc_ID (owned ?cs d)))) = {''c9''}"
    by code_simp
  have "dp_List deps0 (w_store (world0 ?cs)) = Inr [web, api]" "da_Ping (dp_docker deps0) (w_docker (world0 ?cs)) = None"
    "da_ListManagedContainers (dp_docker deps0) (w_docker (world0 ?cs)) = Inr ?cs"
    using l by (simp_all add: docker0_def)
  from reconcile_removes_exactly[OF this, of 0] show ?thesis unfolding r by simp
qed

theorem retry_backoff_witness:
  "canRetryTransientFailure ''1'' 15000000000 False (recordRetryFailure ''1'' 0 (NewReconciler [])) \<and>
   \<not> canRetryTransientFailure ''1'' 14999999999 False (recordRetryFailure ''1'' 0 (NewReconciler []))"
  using retry_backoff[of 0 0 "NewReconciler []" "''1''" 15000000000]
    retry_backoff[of 0 0 "NewReconciler []" "''1''" 14999999999]
  by (simp add: NewReconciler_def)

text \<open>
  A change made during a pass is marked as deployed. The loop works on the list read at the
  start of the pass: when the API has stored a new version \<open>x\<close> of a deployment, with another
  image, after it was listed as \<open>d\<close>, and the engine starts \<open>d\<close>, the stored deployment becomes
  healthy with the image of \<open>x\<close>, which was never started, and no longer waits to be deployed.
\<close>

theorem stale_pass_hides_update:
  assumes "faultless e" and "env_ok e" and "dp_Patch dp = JS_Patch e" and "store_inv (w_store w)"
    and "d_Status d = StatusDeploying" and "rc_dashboardDomain (w_rec w) = []"
    and "store_view (w_store w) (d_ID d) = Some x" and "d_Image x \<noteq> d_Image d"
    and "da_Start (dp_docker dp) d (w_docker w) = (Inr ports, dw)" and "owned cs d = []"
  shows "\<exists>x'. store_view (w_store (reconcile_one dp now rec cs d w)) (d_ID d) = Some x' \<and>
    d_Image x' = d_Image x \<and> d_Image x' \<noteq> d_Image d \<and> d_Status x' = StatusHealthy"
proof -
  let ?w1 = "on_rec (clearRetryState (d_ID d)) w"
  let ?p = "zero_Deployment\<lparr>d_Status := StatusHealthy, d_Reason := ''deploy_start_succeeded'', d_Error := [], d_Ports := ports\<rparr>"
  have "choosePrimaryContainer (d_Name d) (filter (\<lambda>x. mc_DeploymentID x = d_ID d) cs) = (None, [])"
    using assms(10) by (simp add: choosePrimaryContainer_def owned_def)
  moreover have "rc_dashboardDomain (w_rec ?w1) = []" "w_docker ?w1 = w_docker w"
    using assms(6) by (simp_all add: on_rec_def clearRetryState_def)
  ultimately have "reconcile_one dp now rec cs d w = reconcile_deploying dp d None ?w1"
    using assms(5) by (simp add: reconcile_one_def remove_extras_def)
  then have "w_store (reconcile_one dp now rec cs d w) = snd (JS_Patch e (d_ID d) ?p (w_store w))"
    using assms(3,9) by (simp add: reconcile_deploying_def call_Start_def) (simp add: on_rec_def)
  with JS_Patch_view[OF assms(1,2,4), of "d_ID d" ?p] assms(7,8) show ?thesis
    by (auto simp: patch_merge_def zero_Deployment_def)
qed

theorem stale_pass_hides_update_witness:
  "\<exists>x'. store_view (w_store (reconcile_one deps0 0 False [] (web\<lparr>d_Image := ''nginx:0''\<rparr>) (world0 []))) ''1'' = Some x' \<and>
    d_Image x' = ''nginx:1'' \<and> d_Status x' = StatusHealthy"
proof -
  have "rc_dashboardDomain (w_rec (world0 [])) = []" by code_simp
  then show ?thesis
    using stale_pass_hides_update[of env0 deps0 "world0 []" "web\<lparr>d_Image := ''nginx:0''\<rparr>" web None "[]" "[]" 0 False]
    by (auto simp: docker0_def disk1_view owned_def web_def zero_Deployment_def)
qed

end
