(* ===== verification/Routing.thy ===== *)
theory Routing
  imports Store
begin

text \<open>
  The proxy's routing table, \<open>src/proxy/internal/routing/table.go\<close>: dynamic routes, which the
  poller and the internal API set and delete by domain, and static ones, fixed at start, which
  take precedence. Every operation holds the table's mutex, so operations are atomic.

  \<open>route_table\<close> is the interface its clients rely on.
\<close>

section \<open>The table\<close>

record Route =
  rt_Upstream :: string
  rt_Public :: bool
  rt_BasicAuth :: "BasicAuthConfig option"
  rt_Security :: "SecurityConfig option"

record Table =
  tb_dynamicRoutes :: "Route gomap"
  tb_staticRoutes :: "string gomap"

definition NewTable :: Table where
  "NewTable = \<lparr>tb_dynamicRoutes = [], tb_staticRoutes = []\<rparr>"

definition Table_Set :: "string \<Rightarrow> string \<Rightarrow> bool \<Rightarrow> BasicAuthConfig option \<Rightarrow> SecurityConfig option
    \<Rightarrow> Table \<Rightarrow> Table" where
  "Table_Set domain upstream public basicAuth security t =
     t\<lparr>tb_dynamicRoutes := AList.update domain
         \<lparr>rt_Upstream = upstream, rt_Public = public, rt_BasicAuth = basicAuth, rt_Security = security\<rparr>
         (tb_dynamicRoutes t)\<rparr>"

definition Table_SetStatic :: "string \<Rightarrow> string \<Rightarrow> Table \<Rightarrow> Table" where
  "Table_SetStatic domain upstream t =
     t\<lparr>tb_staticRoutes := AList.update domain upstream (tb_staticRoutes t)\<rparr>"

definition Table_Get :: "string \<Rightarrow> Table \<Rightarrow> Route option" where
  "Table_Get domain t =
     (case map_of (tb_staticRoutes t) domain of
        Some u \<Rightarrow> Some \<lparr>rt_Upstream = u, rt_Public = False, rt_BasicAuth = None, rt_Security = None\<rparr>
      | None \<Rightarrow> map_of (tb_dynamicRoutes t) domain)"

definition Table_Delete :: "string \<Rightarrow> Table \<Rightarrow> Table" where
  "Table_Delete domain t = t\<lparr>tb_dynamicRoutes := AList.delete domain (tb_dynamicRoutes t)\<rparr>"

section \<open>The interface\<close>

text \<open>
  \<open>dyn\<close> is the map of the dynamic routes and \<open>stat\<close> that of the static ones; a lookup prefers the
  latter, and the operations on dynamic routes leave the static ones.
\<close>

locale route_table =
  fixes dyn :: "'t \<Rightarrow> string \<rightharpoonup> Route"
    and stat :: "'t \<Rightarrow> string \<rightharpoonup> string"
    and tset :: "string \<Rightarrow> string \<Rightarrow> bool \<Rightarrow> BasicAuthConfig option \<Rightarrow> SecurityConfig option \<Rightarrow> 't \<Rightarrow> 't"
    and tdelete :: "string \<Rightarrow> 't \<Rightarrow> 't"
    and tget :: "string \<Rightarrow> 't \<Rightarrow> Route option"
  assumes dyn_set: "dyn (tset dn u p b s t) =
      (dyn t)(dn \<mapsto> \<lparr>rt_Upstream = u, rt_Public = p, rt_BasicAuth = b, rt_Security = s\<rparr>)"
    and stat_set: "stat (tset dn u p b s t) = stat t"
    and dyn_delete: "dyn (tdelete dn t) = (dyn t)(dn := None)"
    and stat_delete: "stat (tdelete dn t) = stat t"
    and get_stat: "stat t dn = Some u \<Longrightarrow> tget dn t = Some \<lparr>rt_Upstream = u, rt_Public = False,
      rt_BasicAuth = None, rt_Security = None\<rparr>"
    and get_dyn: "stat t dn = None \<Longrightarrow> tget dn t = dyn t dn"
begin

lemma get_set:
  assumes "stat t dn = None"
  shows "tget dn (tset dn u p b s t) =
    Some \<lparr>rt_Upstream = u, rt_Public = p, rt_BasicAuth = b, rt_Security = s\<rparr>"
  using assms by (simp add: get_dyn stat_set dyn_set)

lemma get_set_other: "dn \<noteq> dn' \<Longrightarrow> tget dn (tset dn' u p b s t) = tget dn t"
  by (cases "stat t dn") (simp_all add: get_dyn get_stat stat_set dyn_set)

lemma get_delete: "stat t dn = None \<Longrightarrow> tget dn (tdelete dn t) = None"
  by (simp add: get_dyn stat_delete dyn_delete)

lemma get_delete_other: "dn \<noteq> dn' \<Longrightarrow> tget dn (tdelete dn' t) = tget dn t"
  by (cases "stat t dn") (simp_all add: get_dyn get_stat stat_delete dyn_delete)

lemma get_shadowed:
  assumes "stat t dn = Some u"
  shows "tget dn (tset dn' u' p b s t) = tget dn t" and "tget dn (tdelete dn' t) = tget dn t"
  using assms by (simp_all add: get_stat stat_set stat_delete)

end

definition dynamic_routes :: "Table \<Rightarrow> string \<rightharpoonup> Route" where
  "dynamic_routes t = map_of (tb_dynamicRoutes t)"

definition static_routes :: "Table \<Rightarrow> string \<rightharpoonup> string" where
  "static_routes t = map_of (tb_staticRoutes t)"

interpretation rt: route_table dynamic_routes static_routes Table_Set Table_Delete Table_Get
  by unfold_locales
    (simp_all add: dynamic_routes_def static_routes_def Table_Set_def Table_Delete_def Table_Get_def go_map)

lemma dynamic_routes_SetStatic [simp]: "dynamic_routes (Table_SetStatic dn u t) = dynamic_routes t"
  by (simp add: dynamic_routes_def Table_SetStatic_def)

lemma static_routes_SetStatic [simp]: "static_routes (Table_SetStatic dn u t) = (static_routes t)(dn \<mapsto> u)"
  by (simp add: static_routes_def Table_SetStatic_def go_map)

lemma NewTable_empty [simp]: "dynamic_routes NewTable = Map.empty" "static_routes NewTable = Map.empty"
  by (simp_all add: dynamic_routes_def static_routes_def NewTable_def)

end
