(* ===== verification/Poller.thy ===== *)
theory Poller
  imports Ports Routing
begin

text \<open>
  The proxy's poller, \<open>src/proxy/internal/poller/poller.go\<close>: on every tick it lists the stored
  deployments and brings the dynamic routes of the table in line with them, sending only the
  differences to what it sent before.

  The poller reaches the store and the table through interfaces, so \<open>sync\<close> takes the result of
  \<open>List\<close> and the table's \<open>Set\<close> and \<open>Delete\<close> as arguments; \<open>route_table\<close> states what it relies
  on. The JSON texts kept for comparing are represented by the documents they encode (\<open>None\<close> for
  the empty text): a document that was just encoded always decodes. \<open>ord1\<close> and \<open>ord2\<close> are the
  orders in which the two maps are visited.
\<close>

section \<open>Bindings and upstreams\<close>

definition parseBinding :: "string \<Rightarrow> (int \<times> int \<times> string) option" where
  "parseBinding raw =
     (case Cut raw (CHR ''/'') of (base, proto, hasProtocol) \<Rightarrow>
        (let mainPart = (if hasProtocol then base else raw);
             protocol = (if hasProtocol then ToLower (TrimSpace proto) else ''tcp'') in
         if protocol \<noteq> ''tcp'' \<and> protocol \<noteq> ''udp'' then None
         else
           (let parts = Split mainPart (CHR '':'') in
            if length parts \<noteq> 2 \<and> length parts \<noteq> 3 then None
            else
              (case Atoi (TrimSpace (parts ! (length parts - 2))) of
                 None \<Rightarrow> None
               | Some hostPort \<Rightarrow>
                   if hostPort \<le> 0 \<or> hostPort > 65535 then None
                   else
                     (case Atoi (TrimSpace (parts ! (length parts - 1))) of
                        None \<Rightarrow> None
                      | Some containerPort \<Rightarrow>
                          if containerPort \<le> 0 \<or> containerPort > 65535 then None
                          else Some (hostPort, containerPort, protocol))))))"

fun upstream_of_port :: "int \<Rightarrow> string list \<Rightarrow> string" where
  "upstream_of_port proxyPort [] = []"
| "upstream_of_port proxyPort (p # ports) =
     (case parseBinding p of
        None \<Rightarrow> upstream_of_port proxyPort ports
      | Some (hostPort, containerPort, protocol) \<Rightarrow>
          if protocol \<noteq> ''tcp'' then upstream_of_port proxyPort ports
          else if containerPort = proxyPort then ''localhost:'' @ Itoa hostPort
          else upstream_of_port proxyPort ports)"

definition webPorts :: "int list" where
  "webPorts = [80, 443, 8080, 3000, 8000]"

fun upstream_preferred :: "string \<Rightarrow> string list \<Rightarrow> string" where
  "upstream_preferred fallback [] = fallback"
| "upstream_preferred fallback (p # ports) =
     (case parseBinding p of
        None \<Rightarrow> upstream_preferred fallback ports
      | Some (hostPort, containerPort, protocol) \<Rightarrow>
          if protocol \<noteq> ''tcp'' then upstream_preferred fallback ports
          else if containerPort \<in> set webPorts then ''localhost:'' @ Itoa hostPort
          else upstream_preferred
            (if fallback = [] then ''localhost:'' @ Itoa hostPort else fallback) ports)"

definition upstreamFromPorts :: "string list \<Rightarrow> int \<Rightarrow> string" where
  "upstreamFromPorts ports proxyPort =
     (if proxyPort > 0 then upstream_of_port proxyPort ports else upstream_preferred [] ports)"

section \<open>Synchronising\<close>

record routeState =
  rs_Upstream :: string
  rs_Public :: bool
  rs_ProxyPort :: int
  rs_BasicAuthJSON :: "BasicAuthConfig option"
  rs_SecurityJSON :: "SecurityConfig option"

definition zero_routeState :: routeState where
  "zero_routeState = \<lparr>rs_Upstream = [], rs_Public = False, rs_ProxyPort = 0,
     rs_BasicAuthJSON = None, rs_SecurityJSON = None\<rparr>"

definition mustBasicAuthJSON :: "BasicAuthConfig option \<Rightarrow> BasicAuthConfig option" where
  "mustBasicAuthJSON auth = (case auth of None \<Rightarrow> None | Some a \<Rightarrow> Some a)"

definition mustSecurityJSON :: "SecurityConfig option \<Rightarrow> SecurityConfig option" where
  "mustSecurityJSON security = (case security of None \<Rightarrow> None | Some s \<Rightarrow> Some s)"

definition snapshot_entry :: "Deployment \<Rightarrow> (string \<times> routeState) option" where
  "snapshot_entry d =
     (if d_Domain d = [] then None
      else let domain = normalizeDomain (d_Domain d) in
        if domain = [] then None
        else let upstream = upstreamFromPorts (slice (d_Ports d)) (d_ProxyPort d) in
          if upstream = [] then None
          else Some (domain, \<lparr>rs_Upstream = upstream, rs_Public = d_Public d, rs_ProxyPort = d_ProxyPort d,
            rs_BasicAuthJSON = mustBasicAuthJSON (d_BasicAuth d),
            rs_SecurityJSON = mustSecurityJSON (d_Security d)\<rparr>))"

definition snapshot :: "Deployment list \<Rightarrow> routeState gomap" where
  "snapshot deployments =
     fold (\<lambda>d current. case snapshot_entry d of
         None \<Rightarrow> current
       | Some (domain, route) \<Rightarrow> AList.update domain route current) deployments []"

definition last_state :: "routeState gomap \<Rightarrow> string \<Rightarrow> routeState" where
  "last_state m domain = (case map_of m domain of None \<Rightarrow> zero_routeState | Some r \<Rightarrow> r)"

type_synonym 't table_set =
  "string \<Rightarrow> string \<Rightarrow> bool \<Rightarrow> BasicAuthConfig option \<Rightarrow> SecurityConfig option \<Rightarrow> 't \<Rightarrow> 't"

definition set_changed :: "'t table_set \<Rightarrow> routeState gomap \<Rightarrow> routeState gomap \<Rightarrow> 't \<Rightarrow> 't" where
  "set_changed tset lastm current =
     fold (\<lambda>(domain, route) t.
       if last_state lastm domain \<noteq> route
       then tset domain (rs_Upstream route) (rs_Public route) (rs_BasicAuthJSON route)
         (rs_SecurityJSON route) t
       else t) current"

definition delete_gone :: "(string \<Rightarrow> 't \<Rightarrow> 't) \<Rightarrow> routeState gomap \<Rightarrow> routeState gomap \<Rightarrow> 't \<Rightarrow> 't" where
  "delete_gone tdelete current lastm =
     fold (\<lambda>(domain, _) t. if map_of current domain = None then tdelete domain t else t) lastm"

definition sync :: "'t table_set \<Rightarrow> (string \<Rightarrow> 't \<Rightarrow> 't)
    \<Rightarrow> (routeState gomap \<Rightarrow> routeState gomap) \<Rightarrow> (routeState gomap \<Rightarrow> routeState gomap)
    \<Rightarrow> store_error + Deployment list \<Rightarrow> routeState gomap \<times> 't \<Rightarrow> routeState gomap \<times> 't" where
  "sync tset tdelete ord1 ord2 listed s =
     (case listed of
        Inl _ \<Rightarrow> s
      | Inr deployments \<Rightarrow>
          (case s of (lastm, t) \<Rightarrow>
             (let current = snapshot deployments in
              (current, delete_gone tdelete current (ord2 lastm)
                          (set_changed tset lastm (ord1 current) t)))))"

text \<open>A run of the poller: one synchronisation at the start and one per tick.\<close>

fun run :: "'t table_set \<Rightarrow> (string \<Rightarrow> 't \<Rightarrow> 't)
    \<Rightarrow> ((routeState gomap \<Rightarrow> routeState gomap) \<times> (routeState gomap \<Rightarrow> routeState gomap) \<times>
        (store_error + Deployment list)) list
    \<Rightarrow> routeState gomap \<times> 't \<Rightarrow> routeState gomap \<times> 't" where
  "run tset tdelete [] s = s"
| "run tset tdelete ((ord1, ord2, listed) # ticks) s =
     run tset tdelete ticks (sync tset tdelete ord1 ord2 listed s)"

section \<open>What the table should hold\<close>

definition route_of :: "routeState \<Rightarrow> Route" where
  "route_of r = \<lparr>rt_Upstream = rs_Upstream r, rt_Public = rs_Public r, rt_BasicAuth = rs_BasicAuthJSON r,
     rt_Security = rs_SecurityJSON r\<rparr>"

definition routable :: "string \<Rightarrow> Deployment \<Rightarrow> bool" where
  "routable dn d \<longleftrightarrow> dn \<noteq> [] \<and> d_Domain d \<noteq> [] \<and> normalizeDomain (d_Domain d) = dn \<and>
     upstreamFromPorts (slice (d_Ports d)) (d_ProxyPort d) \<noteq> []"

text \<open>The route of a domain: that of the last deployment listed that serves the domain.\<close>

definition desired :: "Deployment list \<Rightarrow> string \<rightharpoonup> Route" where
  "desired ds dn = map_option (\<lambda>d. \<lparr>rt_Upstream = upstreamFromPorts (slice (d_Ports d)) (d_ProxyPort d),
     rt_Public = d_Public d, rt_BasicAuth = d_BasicAuth d, rt_Security = d_Security d\<rparr>)
     (find (routable dn) (rev ds))"

definition last_ok :: "routeState gomap \<Rightarrow> bool" where
  "last_ok m \<longleftrightarrow> distinct (map fst m) \<and> (\<forall>dn r. map_of m dn = Some r \<longrightarrow> rs_Upstream r \<noteq> [])"

lemma snapshot_snoc:
  "snapshot (ds @ [d]) = (case snapshot_entry d of
      None \<Rightarrow> snapshot ds
    | Some (domain, route) \<Rightarrow> AList.update domain route (snapshot ds))"
  by (simp add: snapshot_def split: option.split)

lemma snapshot_entry_iff:
  "snapshot_entry d = Some (dn, r) \<longleftrightarrow> routable dn d \<and>
     r = \<lparr>rs_Upstream = upstreamFromPorts (slice (d_Ports d)) (d_ProxyPort d), rs_Public = d_Public d,
       rs_ProxyPort = d_ProxyPort d, rs_BasicAuthJSON = d_BasicAuth d, rs_SecurityJSON = d_Security d\<rparr>"
  by (auto simp: snapshot_entry_def routable_def Let_def mustBasicAuthJSON_def mustSecurityJSON_def
      split: option.splits)

lemma snapshot_ok: "last_ok (snapshot ds)"
proof (induction ds rule: rev_induct)
  case Nil
  then show ?case by (simp add: snapshot_def last_ok_def)
next
  case (snoc d ds)
  show ?case
  proof (cases "snapshot_entry d")
    case None
    with snoc show ?thesis by (simp add: snapshot_snoc)
  next
    case (Some e)
    obtain dn r where e: "e = (dn, r)" by (cases e)
    with Some snapshot_entry_iff[of d dn r] have "rs_Upstream r \<noteq> []" by (simp add: routable_def)
    with snoc Some e show ?thesis
      by (simp add: snapshot_snoc last_ok_def distinct_update go_map)
  qed
qed

lemma snapshot_desired: "map_option route_of (map_of (snapshot ds) dn) = desired ds dn"
proof (induction ds rule: rev_induct)
  case Nil
  then show ?case by (simp add: snapshot_def desired_def)
next
  case (snoc d ds)
  show ?case
  proof (cases "snapshot_entry d")
    case None
    then have "\<not> routable dn d" using snapshot_entry_iff[of d dn] by auto
    with None snoc show ?thesis by (simp add: snapshot_snoc desired_def)
  next
    case (Some e)
    obtain dn' r where e: "e = (dn', r)" by (cases e)
    with Some snapshot_entry_iff[of d dn' r] have "routable dn' d" and r: "route_of r =
      \<lparr>rt_Upstream = upstreamFromPorts (slice (d_Ports d)) (d_ProxyPort d),
        rt_Public = d_Public d, rt_BasicAuth = d_BasicAuth d, rt_Security = d_Security d\<rparr>"
      by (simp_all add: route_of_def)
    then have "routable dn d \<longleftrightarrow> dn = dn'" by (auto simp: routable_def)
    with Some e r snoc show ?thesis by (auto simp: snapshot_snoc desired_def go_map)
  qed
qed

section \<open>Synchronising through the interface\<close>

context route_table
begin

lemma set_changed_dyn:
  assumes "distinct (map fst current)"
  shows "dyn (set_changed tset lastm current t) dn =
    (case map_of current dn of
       None \<Rightarrow> dyn t dn
     | Some r \<Rightarrow> if last_state lastm dn \<noteq> r then Some (route_of r) else dyn t dn)"
  using assms
proof (induction current arbitrary: t)
  case (Cons e current)
  obtain dn' r where e: "e = (dn', r)" by (cases e)
  let ?t = "if last_state lastm dn' \<noteq> r then tset dn' (rs_Upstream r) (rs_Public r)
    (rs_BasicAuthJSON r) (rs_SecurityJSON r) t else t"
  have step: "set_changed tset lastm (e # current) t = set_changed tset lastm current ?t"
    by (simp add: set_changed_def e)
  have hd: "dyn ?t = (if last_state lastm dn' \<noteq> r then (dyn t)(dn' \<mapsto> route_of r) else dyn t)"
    by (simp add: dyn_set route_of_def)
  show ?case
  proof (cases "dn = dn'")
    case True
    with Cons.prems e have "map_of current dn = None" by (simp add: map_of_eq_None_iff)
    with True Cons e show ?thesis unfolding step by (simp add: hd)
  next
    case False
    with Cons e show ?thesis unfolding step by (simp add: dyn_set split: option.split)
  qed
qed (simp add: set_changed_def)

lemma set_changed_stat: "stat (set_changed tset lastm current t) = stat t"
  by (induction current arbitrary: t) (auto simp: set_changed_def stat_set)

lemma delete_gone_dyn:
  "dyn (delete_gone tdelete current lastm t) dn =
     (if dn \<in> fst ` set lastm \<and> map_of current dn = None then None else dyn t dn)"
proof (induction lastm arbitrary: t)
  case (Cons e lastm)
  then show ?case by (cases e) (auto simp: delete_gone_def dyn_delete)
qed (simp add: delete_gone_def)

lemma delete_gone_stat: "stat (delete_gone tdelete current lastm t) = stat t"
  by (induction lastm arbitrary: t) (auto simp: delete_gone_def stat_delete)

text \<open>One synchronisation, when the dynamic routes agree with what was sent before.\<close>

definition in_sync :: "routeState gomap \<times> 't \<Rightarrow> bool" where
  "in_sync s \<longleftrightarrow> last_ok (fst s) \<and> (\<forall>dn. dyn (snd s) dn = map_option route_of (map_of (fst s) dn))"

lemma sync_dyn:
  assumes "in_sync (lastm, t)" and "range_order ord1" and "range_order ord2"
  shows "dyn (snd (sync tset tdelete ord1 ord2 (Inr ds) (lastm, t))) dn = desired ds dn"
proof -
  let ?c = "snapshot ds"
  have dc: "distinct (map fst ?c)" using snapshot_ok by (simp add: last_ok_def)
  then have o1: "distinct (map fst (ord1 ?c))" "map_of (ord1 ?c) = map_of ?c"
    using assms(2) by (simp_all add: range_order_distinct_keys map_of_range_order)
  have keys: "dn \<in> fst ` set (ord2 lastm) \<longleftrightarrow> map_of lastm dn \<noteq> None"
    by (simp add: range_order_set[OF assms(3)] map_of_eq_None_iff)
  have l: "dyn t dn = map_option route_of (map_of lastm dn)" using assms(1) by (simp add: in_sync_def)
  have "dyn (snd (sync tset tdelete ord1 ord2 (Inr ds) (lastm, t))) dn = map_option route_of (map_of ?c dn)"
  proof (cases "map_of ?c dn")
    case None
    with keys l show ?thesis
      by (simp add: sync_def Let_def delete_gone_dyn set_changed_dyn[OF o1(1)] o1(2))
  next
    case (Some r)
    with snapshot_ok[of ds] have "rs_Upstream r \<noteq> []" unfolding last_ok_def by blast
    then have "last_state lastm dn = r \<Longrightarrow> map_of lastm dn = Some r"
      by (auto simp: last_state_def zero_routeState_def split: option.splits)
    with Some l show ?thesis
      by (auto simp: sync_def Let_def delete_gone_dyn set_changed_dyn[OF o1(1)] o1(2))
  qed
  then show ?thesis by (simp add: snapshot_desired)
qed

lemma sync_in_sync:
  assumes "in_sync s" and "range_order ord1" and "range_order ord2"
  shows "in_sync (sync tset tdelete ord1 ord2 listed s)"
proof (cases listed)
  case (Inl err)
  with assms(1) show ?thesis by (simp add: sync_def)
next
  case (Inr ds)
  obtain lastm t where s: "s = (lastm, t)" by (cases s)
  have "fst (sync tset tdelete ord1 ord2 (Inr ds) (lastm, t)) = snapshot ds"
    by (simp add: sync_def Let_def)
  with sync_dyn[OF assms(1)[unfolded s] assms(2,3)] Inr s show ?thesis
    by (simp add: in_sync_def snapshot_ok snapshot_desired)
qed

lemma sync_stat: "stat (snd (sync tset tdelete ord1 ord2 listed s)) = stat (snd s)"
  by (cases s) (auto simp: sync_def Let_def delete_gone_stat set_changed_stat split: sum.splits)

lemma run_in_sync:
  "in_sync s \<Longrightarrow> \<forall>(ord1, ord2, listed) \<in> set ticks. range_order ord1 \<and> range_order ord2 \<Longrightarrow>
     in_sync (run tset tdelete ticks s) \<and> stat (snd (run tset tdelete ticks s)) = stat (snd s)"
proof (induction ticks arbitrary: s)
  case (Cons tick ticks)
  obtain ord1 ord2 listed where t: "tick = (ord1, ord2, listed)" by (cases tick)
  with Cons.prems have "in_sync (sync tset tdelete ord1 ord2 listed s)" by (simp add: sync_in_sync)
  from Cons.IH[OF this] Cons.prems(2) t show ?case by (simp add: sync_stat)
qed simp

end

section \<open>The port the API accepted is the port the proxy uses\<close>

lemma parseBinding_binding:
  assumes "bound_spec p"
  shows "parseBinding (binding p) = Some (HostPort p, ContainerPort p, Protocol p)"
proof -
  from assms have v: "1 \<le> HostPort p" "HostPort p \<le> 65535" "1 \<le> ContainerPort p" "ContainerPort p \<le> 65535"
    by (auto simp: bound_spec_def valid_spec_def)
  let ?m = "Itoa (HostPort p) @ '':'' @ Itoa (ContainerPort p)"
  have s: "Split ?m (CHR '':'') = [Itoa (HostPort p), Itoa (ContainerPort p)]"
    using v by (simp add: Split_present Split_absent)
  have n: "Atoi (TrimSpace (Itoa n)) = Some n" if "1 \<le> n" "n \<le> 65535" for n
    using that by (simp add: TrimSpace_digits Itoa_digits Atoi_Itoa)
  from Cut_binding[OF assms] obtain rest h where c: "Cut (binding p) (CHR ''/'') = (?m, rest, h)"
    and q: "portProtocol rest h = Some (Protocol p)" by blast
  have m: "(if h then ?m else binding p) = ?m"
    using c Cut_found_iff[of "binding p" "CHR ''/''"] Cut_absent[of "CHR ''/''" "binding p"] by auto
  have "(if h then ToLower (TrimSpace rest) else ''tcp'') = Protocol p" "Protocol p \<in> {''tcp'', ''udp''}"
    using q portProtocol_values[OF q] by (auto simp: portProtocol_def Let_def split: if_splits)
  then show ?thesis
    using v by (auto simp: parseBinding_def c Let_def m s n simp del: append.simps)
qed

lemma upstream_of_port_first:
  assumes "\<forall>q \<in> set qs. bound_spec q" and "\<exists>q \<in> set qs. ContainerPort q = pp \<and> Protocol q = ''tcp''"
  shows "\<exists>q \<in> set qs. ContainerPort q = pp \<and> Protocol q = ''tcp'' \<and>
    upstream_of_port pp (map binding qs) = ''localhost:'' @ Itoa (HostPort q)"
  using assms
proof (induction qs)
  case (Cons r rs)
  show ?case
  proof (cases "ContainerPort r = pp \<and> Protocol r = ''tcp''")
    case True
    with Cons.prems show ?thesis by (simp add: parseBinding_binding)
  next
    case False
    with Cons.prems have "\<exists>q \<in> set rs. ContainerPort q = pp \<and> Protocol q = ''tcp''" by auto
    with Cons obtain q where "q \<in> set rs" "ContainerPort q = pp" "Protocol q = ''tcp''"
      "upstream_of_port pp (map binding rs) = ''localhost:'' @ Itoa (HostPort q)" by auto
    moreover have "upstream_of_port pp (map binding (r # rs)) = upstream_of_port pp (map binding rs)"
      using Cons.prems False by (auto simp: parseBinding_binding)
    ultimately show ?thesis by auto
  qed
qed simp

section \<open>Properties\<close>


text \<open>Full bindings that a proxy port was validated against have an upstream for it.\<close>

lemma bound_proxy_port_upstream:
  assumes "bs = map binding qs" and "\<forall>q \<in> set qs. bound_spec q"
    and "validateProxyPortSelection dn pp bs = None" and "normalizeDomain dn \<noteq> []"
  shows "\<exists>q. binding q \<in> set bs \<and> bound_spec q \<and> ContainerPort q = pp \<and> Protocol q = ''tcp'' \<and>
    upstreamFromPorts bs pp = ''localhost:'' @ Itoa (HostPort q)"
proof -
  from assms(3,4) have pp: "pp > 0" and "\<exists>raw \<in> set bs. matches_proxy_port pp raw"
    by (auto simp: validateProxyPortSelection_def split: if_splits)
  then have "\<exists>q \<in> set qs. ContainerPort q = pp \<and> Protocol q = ''tcp''"
    using assms(2) by (auto simp: assms(1) matches_proxy_port_def parse_binding)
  from upstream_of_port_first[OF assms(2) this] pp assms(2) show ?thesis
    by (auto simp: upstreamFromPorts_def assms(1))
qed

text \<open>
  The proxy sends traffic where the API promised. When \<open>assignHostPorts\<close> returned the bindings
  and \<open>validateProxyPortSelection\<close> accepted the proxy port for a domain, the poller's upstream for
  them is \<open>localhost\<close> and the host port of one of those bindings, for exactly that container
  port, over TCP.
\<close>

theorem accepted_proxy_port_is_upstream:
  assumes "assignHostPorts ds skip cur req = Inr bs"
    and "validateProxyPortSelection dn pp bs = None" and "normalizeDomain dn \<noteq> []"
  shows "\<exists>q. binding q \<in> set bs \<and> bound_spec q \<and> ContainerPort q = pp \<and> Protocol q = ''tcp'' \<and>
    upstreamFromPorts bs pp = ''localhost:'' @ Itoa (HostPort q)"
  using assignHostPorts_Inr[OF assms(1)] bound_proxy_port_upstream[OF _ _ assms(2,3)] by metis

definition routed_web :: Deployment where
  "routed_web = web\<lparr>d_Ports := Some [''32768:80''], d_Domain := ''Web.Example.com.'', d_ProxyPort := 80\<rparr>"


theorem accepted_proxy_port_is_upstream_witness:
  "\<exists>q. binding q \<in> {''32769:80'', ''32770:9000'', ''443:443''} \<and> bound_spec q \<and> ContainerPort q = 9000 \<and>
    Protocol q = ''tcp'' \<and>
    upstreamFromPorts [''32769:80'', ''32770:9000'', ''443:443''] 9000 = ''localhost:'' @ Itoa (HostPort q)"
proof -
  have "validateProxyPortSelection ''app.example.com'' 9000 [''32769:80'', ''32770:9000'', ''443:443''] = None"
    by code_simp
  moreover have "normalizeDomain ''app.example.com'' = ''app.example.com''" by code_simp
  then have "normalizeDomain ''app.example.com'' \<noteq> []" by simp
  ultimately show ?thesis
    using accepted_proxy_port_is_upstream[OF assign_sample, of "''app.example.com''" 9000] by simp
qed

end
