(* ===== verification/Paths.thy ===== *)
theory Paths
  imports Prelude
begin

text \<open>
  Go's \<open>path/filepath\<close> on Unix, as far as the program uses it: \<open>Clean\<close>, which resolves dot and
  dot-dot elements lexically, \<open>Join\<close>, \<open>IsAbs\<close>, \<open>Dir\<close> and \<open>Rel\<close>. A path is taken as the list of its
  elements.
\<close>

definition IsAbs :: "string \<Rightarrow> bool" where
  "IsAbs p = HasPrefix p ''/''"

definition clean_step :: "bool \<Rightarrow> string list \<Rightarrow> string \<Rightarrow> string list" where
  "clean_step rooted out e =
     (if e = [] \<or> e = ''.'' then out
      else if e = ''..'' then
        (if out \<noteq> [] \<and> last out \<noteq> ''..'' then butlast out
         else if rooted then out else out @ [e])
      else out @ [e])"

definition clean_elems :: "bool \<Rightarrow> string list \<Rightarrow> string list" where
  "clean_elems rooted es = foldl (clean_step rooted) [] es"

definition Clean :: "string \<Rightarrow> string" where
  "Clean p =
     (if p = [] then ''.''
      else let out = clean_elems (IsAbs p) (Split p (CHR ''/'')) in
        if IsAbs p then CHR ''/'' # Join out ''/''
        else if out = [] then ''.'' else Join out ''/'')"

fun FilepathJoin :: "string list \<Rightarrow> string" where
  "FilepathJoin [] = []"
| "FilepathJoin (e # es) = (if e = [] then FilepathJoin es else Clean (Join (e # es) ''/''))"

definition Dir :: "string \<Rightarrow> string" where
  "Dir p = Clean (rev (dropWhile (\<lambda>c. c \<noteq> CHR ''/'') (rev p)))"

text \<open>\<open>Rel\<close>: the clean paths without their common elements, as the program uses it, on absolute
  paths. \<open>None\<close> is the error of the function.\<close>

fun strip_common :: "string list \<Rightarrow> string list \<Rightarrow> string list \<times> string list" where
  "strip_common (b # bs) (t # ts) = (if b = t then strip_common bs ts else (b # bs, t # ts))"
| "strip_common bs ts = (bs, ts)"

definition path_elems :: "string \<Rightarrow> string list" where
  "path_elems p = (if p = ''.'' then [] else filter (\<lambda>e. e \<noteq> []) (Split p (CHR ''/'')))"

definition Rel :: "string \<Rightarrow> string \<Rightarrow> string option" where
  "Rel basepath targpath =
     (let base = Clean basepath; targ = Clean targpath in
      if targ = base then Some ''.''
      else if IsAbs base \<noteq> IsAbs targ then None
      else case strip_common (path_elems base) (path_elems targ) of (bs, ts) \<Rightarrow>
        if bs \<noteq> [] \<and> hd bs = ''..'' then None
        else Some (Join (replicate (length bs) ''..'' @ ts) ''/''))"

section \<open>Clean paths\<close>

text \<open>An element that names a file or directory, and the elements of an absolute clean path.\<close>

definition proper_elem :: "string \<Rightarrow> bool" where
  "proper_elem e \<longleftrightarrow> e \<noteq> [] \<and> e \<noteq> ''.'' \<and> e \<noteq> ''..'' \<and> CHR ''/'' \<notin> set e"

lemma Split_elems: "e \<in> set (Split s c) \<Longrightarrow> c \<notin> set e"
proof (induction s arbitrary: e)
  case (Cons x s)
  then show ?case
    by (cases "Split s c") (auto split: if_splits)
qed simp

lemma foldl_clean_proper:
  assumes "list_all proper_elem out" and "\<forall>e \<in> set es. CHR ''/'' \<notin> set e"
  shows "list_all proper_elem (foldl (clean_step True) out es)"
  using assms
proof (induction es arbitrary: out)
  case (Cons e es)
  have "list_all proper_elem (clean_step True out e)"
    using Cons.prems by (auto simp: clean_step_def list_all_iff proper_elem_def dest: in_set_butlastD)
  with Cons show ?case by simp
qed simp

lemma clean_elems_proper: "list_all proper_elem (clean_elems True (Split p (CHR ''/'')))"
  unfolding clean_elems_def by (rule foldl_clean_proper) (auto dest: Split_elems)

definition named :: "string \<Rightarrow> bool" where
  "named e \<longleftrightarrow> e \<noteq> [] \<and> CHR ''/'' \<notin> set e"

lemma clean_step_named:
  assumes "list_all named out" and "CHR ''/'' \<notin> set e"
  shows "list_all named (clean_step r out e)"
proof -
  have "list_all named (butlast out)" using assms(1) by (auto simp: list_all_iff dest: in_set_butlastD)
  moreover have "e \<noteq> [] \<Longrightarrow> named e" using assms(2) by (simp add: named_def)
  moreover have "named ''..''" by (simp add: named_def)
  ultimately show ?thesis using assms(1) unfolding clean_step_def by simp
qed

lemma foldl_clean_named:
  assumes "list_all named out" and "\<forall>e \<in> set es. CHR ''/'' \<notin> set e"
  shows "list_all named (foldl (clean_step r) out es)"
  using assms by (induction es arbitrary: out) (simp_all add: clean_step_named)

lemma Join_named_not_abs: "list_all named es \<Longrightarrow> \<not> IsAbs (Join es ''/'')"
  by (induction es rule: induct_list012) (auto simp: IsAbs_def HasPrefix_def named_def neq_Nil_conv)

lemma foldl_clean_id: "list_all proper_elem es \<Longrightarrow> foldl (clean_step r) out es = out @ es"
  by (induction es arbitrary: out) (auto simp: clean_step_def proper_elem_def)

lemma Split_Join:
  assumes "es \<noteq> []" and "\<forall>e \<in> set es. c \<notin> set e"
  shows "Split (Join es [c]) c = es"
  using assms
proof (induction es rule: induct_list012)
  case (2 x)
  then show ?case by (simp add: Split_absent)
next
  case (3 x y zs)
  then show ?case by (simp add: Split_present)
qed simp

text \<open>The text of an absolute path with given elements.\<close>

definition abs_path :: "string list \<Rightarrow> string" where
  "abs_path es = CHR ''/'' # Join es ''/''"

lemma IsAbs_abs_path [simp]: "IsAbs (abs_path es)"
  by (simp add: IsAbs_def abs_path_def HasPrefix_def)

lemma IsAbs_not_Nil: "IsAbs p \<Longrightarrow> p \<noteq> []"
  by (auto simp: IsAbs_def HasPrefix_def)

lemma Clean_abs:
  assumes "IsAbs p"
  obtains es where "Clean p = abs_path es" and "list_all proper_elem es"
  using assms clean_elems_proper[of p] IsAbs_not_Nil[OF assms]
  by (intro that[of "clean_elems True (Split p (CHR ''/''))"]) (simp_all add: Clean_def Let_def abs_path_def)

lemma IsAbs_Clean: "IsAbs (Clean p) \<longleftrightarrow> IsAbs p"
proof (cases "IsAbs p")
  case True
  then show ?thesis by (metis Clean_abs IsAbs_abs_path)
next
  case False
  have "list_all named (clean_elems False (Split p (CHR ''/'')))"
    unfolding clean_elems_def by (rule foldl_clean_named) (auto dest: Split_elems)
  from Join_named_not_abs[OF this] False show ?thesis
    by (auto simp: Clean_def Let_def) (simp_all add: IsAbs_def HasPrefix_def)
qed

lemma Split_abs_path:
  assumes "list_all proper_elem es"
  shows "Split (abs_path es) (CHR ''/'') = [] # (if es = [] then [[]] else es)"
  using assms Split_Join[of es "CHR ''/''"] by (auto simp: abs_path_def list_all_iff proper_elem_def)

lemma Clean_abs_path:
  assumes "list_all proper_elem es"
  shows "Clean (abs_path es) = abs_path es"
proof -
  have "clean_elems True ([] # (if es = [] then [[]] else es)) = es"
    using foldl_clean_id[OF assms, of True "[]"] by (simp add: clean_elems_def clean_step_def)
  moreover have "abs_path es \<noteq> []" by (simp add: abs_path_def)
  ultimately show ?thesis
    by (simp add: Clean_def Split_abs_path[OF assms]) (simp add: abs_path_def)
qed

lemma Clean_idem: "IsAbs p \<Longrightarrow> Clean (Clean p) = Clean p"
  by (metis Clean_abs Clean_abs_path)

text \<open>Joining proper names below an absolute clean path.\<close>

lemma Split_append_sep: "Split (s @ c # t) c = butlast (Split s c) @ [last (Split s c)] @ Split t c"
proof (induction s)
  case (Cons x s)
  show ?case
  proof (cases "x = c")
    case True
    with Cons show ?thesis by simp
  next
    case False
    obtain p ps where ps: "Split s c = p # ps" using Split_not_Nil by (cases "Split s c") blast+
    with Cons False show ?thesis by (cases ps) auto
  qed
qed simp

lemma Join_abs_below:
  assumes "list_all proper_elem es" and "list_all proper_elem names" and "names \<noteq> []"
  shows "FilepathJoin (abs_path es # names) = abs_path (es @ names)"
proof -
  have ne: "abs_path es \<noteq> []" by (simp add: abs_path_def)
  have J: "Join (p # names) ''/'' = p @ CHR ''/'' # Join names ''/''" for p
    using assms(3) by (cases names) simp_all
  have "Split (Join names ''/'') (CHR ''/'') = names"
    using assms(2,3) by (intro Split_Join) (auto simp: list_all_iff proper_elem_def)
  then have "Split (abs_path es @ CHR ''/'' # Join names ''/'') (CHR ''/'') =
      [] # (if es = [] then [[]] else es) @ names"
    using assms(1) by (simp add: Split_append_sep[of "abs_path es"] Split_abs_path append_butlast_last_id)
  moreover have "clean_elems True ([] # (if es = [] then [[]] else es) @ names) = es @ names"
    using foldl_clean_id[of "es @ names" True "[]"] foldl_clean_id[of names True "[]"] assms
    by (auto simp: clean_elems_def clean_step_def)
  moreover have "IsAbs (abs_path es @ CHR ''/'' # Join names ''/'')"
    by (simp add: IsAbs_def abs_path_def HasPrefix_def)
  ultimately show ?thesis using ne by (simp add: J Clean_def abs_path_def)
qed

lemma Join_snoc: "es \<noteq> [] \<Longrightarrow> Join (es @ [a]) sep = Join es sep @ sep @ a"
  by (induction es rule: induct_list012) auto

lemma abs_path_snoc: "es \<noteq> [] \<Longrightarrow> abs_path (es @ [a]) = abs_path es @ ''/'' @ a"
  by (simp add: abs_path_def Join_snoc)

lemma path_elems_abs_path:
  assumes "list_all proper_elem es"
  shows "path_elems (abs_path es) = es"
proof -
  have "filter (\<lambda>e. e \<noteq> []) es = es"
    using assms by (auto simp: list_all_iff proper_elem_def intro: filter_True)
  moreover have "abs_path es \<noteq> ''.''" by (simp add: abs_path_def)
  ultimately show ?thesis by (simp add: path_elems_def Split_abs_path[OF assms])
qed

lemma abs_path_inject:
  assumes "list_all proper_elem es" and "list_all proper_elem fs"
  shows "abs_path es = abs_path fs \<longleftrightarrow> es = fs"
  using path_elems_abs_path[OF assms(1)] path_elems_abs_path[OF assms(2)] by metis

lemma strip_common_prefix [simp]: "strip_common es (es @ fs) = ([], fs)"
  by (induction es) (cases fs; simp)+

lemma Rel_below:
  assumes "list_all proper_elem es" and "list_all proper_elem fs" and "fs \<noteq> []"
  shows "Rel (abs_path es) (abs_path (es @ fs)) = Some (Join fs ''/'')"
proof -
  from assms have *: "list_all proper_elem (es @ fs)" by simp
  with assms show ?thesis
    by (simp add: Rel_def Clean_abs_path path_elems_abs_path abs_path_inject)
qed

lemma dropWhile_to_sep: "c \<notin> set a \<Longrightarrow> dropWhile (\<lambda>x. x \<noteq> c) (rev a @ c # r) = c # r"
  by (subst dropWhile_append2) auto

lemma Dir_abs_path:
  assumes "list_all proper_elem es" and "proper_elem a"
  shows "Dir (abs_path (es @ [a])) = abs_path es"
proof (cases "es = []")
  case True
  with assms(2) have "dropWhile (\<lambda>c. c \<noteq> CHR ''/'') (rev (abs_path (es @ [a]))) = ''/''"
    by (simp add: abs_path_def proper_elem_def dropWhile_to_sep)
  with True show ?thesis by (simp add: Dir_def) (simp add: abs_path_def Clean_def IsAbs_def clean_elems_def clean_step_def HasPrefix_def)
next
  case False
  from False have "Join (es @ [a]) ''/'' = Join es ''/'' @ ''/'' @ a" by (rule Join_snoc)
  with assms(2) have d: "rev (dropWhile (\<lambda>c. c \<noteq> CHR ''/'') (rev (abs_path (es @ [a])))) = abs_path es @ ''/''"
    by (simp add: abs_path_def proper_elem_def dropWhile_to_sep)
  have "Split (abs_path es @ [CHR ''/'']) (CHR ''/'') = [] # es @ [[]]"
    using False by (simp add: Split_append_sep[of "abs_path es" _ "[]"] Split_abs_path[OF assms(1)])
  moreover have "clean_elems True ([] # es @ [[]]) = es"
    using foldl_clean_id[OF assms(1), of True "[]"] by (simp add: clean_elems_def clean_step_def)
  moreover have "IsAbs (abs_path es @ [CHR ''/''])" by (simp add: IsAbs_def abs_path_def HasPrefix_def)
  ultimately show ?thesis by (simp add: Dir_def d) (simp add: Clean_def abs_path_def)
qed

end
