(* ===== verification/Docker.thy ===== *)
theory Docker
  imports Registries Reconciler Poller Paths
begin

text \<open>
  The container engine adapter, \<open>src/orchestrator/internal/docker/docker.go\<close>: starting a
  deployment's container, replacing a running one, listing and removing containers, pulling
  images, and moving the proxy's route during a replacement.

  The Docker client, the port parser of \<open>go-connections/nat\<close>, the encoding of registry
  credentials and the HTTP call to the proxy are fields of \<open>docker_env\<close>, over an abstract state of
  the engine. The model's state adds to it the log of the calls that change the engine, so that
  theorems can speak of their order. An error is its text; what the client's predicates say of an
  error is part of \<open>client_error\<close>. Statistics are not modelled (floating point, goroutines).
\<close>

section \<open>The environment\<close>

record client_error =
  ce_text :: string
  ce_connection_failed :: bool
  ce_not_modified :: bool
  ce_not_found :: bool
  ce_context :: bool

record container_summary =
  su_ID :: string
  su_Names :: "string list"
  su_Labels :: "string gomap"
  su_State :: string

record inspect_result =
  in_State :: "ExitDetails option"
  in_Ports :: "string list gomap option"

type_synonym port_map = "string list gomap"

record container_spec =
  cs_Image :: string
  cs_Env :: "string list"
  cs_ExposedPorts :: "string list"
  cs_Labels :: "string gomap"
  cs_PortBindings :: port_map
  cs_Binds :: "string list"
  cs_Name :: string

datatype list_filter = AllManaged | RunningWithID string

record 'w docker_env =
  de_Ping :: "'w \<Rightarrow> client_error option"
  de_ImageList :: "string \<Rightarrow> 'w \<Rightarrow> client_error + nat"
  de_ImagePull :: "string \<Rightarrow> string \<Rightarrow> 'w \<Rightarrow> client_error option \<times> 'w"
  de_ContainerCreate :: "container_spec \<Rightarrow> 'w \<Rightarrow> (client_error + string) \<times> 'w"
  de_ContainerStart :: "string \<Rightarrow> 'w \<Rightarrow> client_error option \<times> 'w"
  de_ContainerList :: "list_filter \<Rightarrow> 'w \<Rightarrow> client_error + container_summary list"
  de_ContainerStop :: "string \<Rightarrow> 'w \<Rightarrow> client_error option \<times> 'w"
  de_ContainerRemove :: "string \<Rightarrow> bool \<Rightarrow> 'w \<Rightarrow> client_error option \<times> 'w"
  de_ContainerRename :: "string \<Rightarrow> string \<Rightarrow> 'w \<Rightarrow> client_error option \<times> 'w"
  de_ContainerInspect :: "string \<Rightarrow> 'w \<Rightarrow> client_error + inspect_result"
  de_ParsePortSpecs :: "string list \<Rightarrow> string + (string list \<times> port_map)"
  de_port_Port :: "string \<Rightarrow> string"
  de_port_Proto :: "string \<Rightarrow> string"
  de_route_post :: "string \<Rightarrow> string \<Rightarrow> 'w \<Rightarrow> (string + int) \<times> 'w"
  de_store_path_ok :: bool
  de_crypto :: crypto
  de_store_env :: store_env
  de_disk :: disk
  de_encode_auth :: "RegistryAuth \<Rightarrow> string"
  de_store_error_text :: "store_error \<Rightarrow> string"
  de_managed_files_dir :: string
  de_order :: "string gomap \<Rightarrow> string gomap"

datatype engine_call =
    EngPull string
  | EngCreate string
  | EngStart string
  | EngStop string
  | EngRemove string bool
  | EngRename string string
  | EngRoute string string

record 'w engine =
  en_world :: 'w
  en_log :: "engine_call list"

text \<open>A call of the client that changes the engine.\<close>

definition eng :: "engine_call \<Rightarrow> ('w \<Rightarrow> 'r \<times> 'w) \<Rightarrow> 'w engine \<Rightarrow> 'r \<times> 'w engine" where
  "eng c f s = (case f (en_world s) of (r, w) \<Rightarrow> (r, \<lparr>en_world = w, en_log = en_log s @ [c]\<rparr>))"

definition op_pull :: "'w docker_env \<Rightarrow> string \<Rightarrow> string \<Rightarrow> 'w engine \<Rightarrow> client_error option \<times> 'w engine" where
  "op_pull env ref auth = eng (EngPull ref) (de_ImagePull env ref auth)"

definition op_create :: "'w docker_env \<Rightarrow> container_spec \<Rightarrow> 'w engine \<Rightarrow> (client_error + string) \<times> 'w engine" where
  "op_create env spec = eng (EngCreate (cs_Name spec)) (de_ContainerCreate env spec)"

definition op_start :: "'w docker_env \<Rightarrow> string \<Rightarrow> 'w engine \<Rightarrow> client_error option \<times> 'w engine" where
  "op_start env cid = eng (EngStart cid) (de_ContainerStart env cid)"

definition op_stop :: "'w docker_env \<Rightarrow> string \<Rightarrow> 'w engine \<Rightarrow> client_error option \<times> 'w engine" where
  "op_stop env cid = eng (EngStop cid) (de_ContainerStop env cid)"

definition op_remove :: "'w docker_env \<Rightarrow> string \<Rightarrow> bool \<Rightarrow> 'w engine \<Rightarrow> client_error option \<times> 'w engine" where
  "op_remove env cid force = eng (EngRemove cid force) (de_ContainerRemove env cid force)"

definition op_rename :: "'w docker_env \<Rightarrow> string \<Rightarrow> string \<Rightarrow> 'w engine \<Rightarrow> client_error option \<times> 'w engine" where
  "op_rename env cid name = eng (EngRename cid name) (de_ContainerRename env cid name)"

definition op_route :: "'w docker_env \<Rightarrow> string \<Rightarrow> string \<Rightarrow> 'w engine \<Rightarrow> (string + int) \<times> 'w engine" where
  "op_route env domain upstream = eng (EngRoute domain upstream) (de_route_post env domain upstream)"

text \<open>The error for an unreachable daemon, and the choice between it and another text.\<close>

definition unavailable :: "client_error \<Rightarrow> string" where
  "unavailable e = ''docker daemon unreachable: '' @ ce_text e"

definition client_failure :: "string \<Rightarrow> client_error \<Rightarrow> string" where
  "client_failure context e = (if ce_connection_failed e then unavailable e else context @ ce_text e)"

section \<open>Images and ports\<close>

definition Docker_Ping :: "'w docker_env \<Rightarrow> 'w engine \<Rightarrow> string option" where
  "Docker_Ping env s = map_option unavailable (de_Ping env (en_world s))"

definition isLatestTag :: "string \<Rightarrow> bool" where
  "isLatestTag imageRef =
     (if Contains imageRef [CHR 0x40] then False
      else case Cut imageRef (CHR '':'') of (_, tag, found) \<Rightarrow>
        \<not> found \<or> tag = [] \<or> tag = ''latest'')"

definition resolveRegistryAuth :: "'w docker_env \<Rightarrow> string \<Rightarrow> string + string" where
  "resolveRegistryAuth env imageRef =
     (if \<not> de_store_path_ok env then Inr []
      else case JS_ResolveRegistryAuth (de_crypto env) (de_store_env env) imageRef (de_disk env) of
        Inl err \<Rightarrow> Inl (de_store_error_text env err)
      | Inr None \<Rightarrow> Inr []
      | Inr (Some auth) \<Rightarrow> Inr (de_encode_auth env auth))"

definition present_locally :: "'w docker_env \<Rightarrow> string \<Rightarrow> 'w engine \<Rightarrow> bool" where
  "present_locally env imageRef s =
     (case de_ImageList env imageRef (en_world s) of Inl _ \<Rightarrow> False | Inr n \<Rightarrow> n > 0)"

definition pullImage :: "'w docker_env \<Rightarrow> string \<Rightarrow> 'w engine \<Rightarrow> string option \<times> 'w engine" where
  "pullImage env imageRef s =
     (if \<not> isLatestTag imageRef \<and> present_locally env imageRef s then (None, s)
      else case resolveRegistryAuth env imageRef of
        Inl err \<Rightarrow> (Some (''docker: resolve registry auth for '' @ imageRef @ '': '' @ err), s)
      | Inr auth \<Rightarrow>
          (case op_pull env imageRef auth s of
             (Some e, s') \<Rightarrow> (Some (client_failure (''docker: pull image '' @ imageRef @ '': '') e), s')
           | (None, s') \<Rightarrow> (None, s')))"

definition envsToSlice :: "'w docker_env \<Rightarrow> string gomap \<Rightarrow> string list" where
  "envsToSlice env envs = map (\<lambda>(k, v). k @ ''='' @ v) (de_order env envs)"

definition normalize_port :: "string \<Rightarrow> string" where
  "normalize_port p = (if p \<noteq> [] \<and> \<not> Contains p '':'' then ''0:'' @ p else p)"

definition parsePorts :: "'w docker_env \<Rightarrow> string list \<Rightarrow> string + (string list \<times> port_map)" where
  "parsePorts env ports =
     (if ports = [] then Inr ([], []) else de_ParsePortSpecs env (map normalize_port ports))"

definition managed_base :: "'w docker_env \<Rightarrow> string" where
  "managed_base env =
     (let base = TrimSpace (de_managed_files_dir env) in
      Clean (if base = [] then ''/var/lib/lotsen/files'' else base))"

definition mount_bind :: "'w docker_env \<Rightarrow> string \<Rightarrow> FileMount \<Rightarrow> string list" where
  "mount_bind env depID m =
     (let source = TrimSpace (fm_Source m); target = TrimSpace (fm_Target m) in
      if source = [] \<or> target = [] then []
      else [FilepathJoin [managed_base env, depID, source] @ '':'' @ target @
              (if fm_ReadOnly m then '':ro'' else [])])"

definition deploymentBinds :: "'w docker_env \<Rightarrow> Deployment \<Rightarrow> string list" where
  "deploymentBinds env dep =
     slice (d_Volumes dep) @ concat (map (mount_bind env (d_ID dep)) (slice (d_FileMounts dep)))"

fun first_host_port :: "string list \<Rightarrow> string option" where
  "first_host_port [] = None"
| "first_host_port (h # hs) = (if h = [] then first_host_port hs else Some h)"

definition resolvedPorts :: "'w docker_env \<Rightarrow> string \<Rightarrow> 'w engine \<Rightarrow> string + string list" where
  "resolvedPorts env cid s =
     (case de_ContainerInspect env cid (en_world s) of
        Inl e \<Rightarrow> Inl (client_failure [] e)
      | Inr ins \<Rightarrow>
          (case in_Ports ins of
             None \<Rightarrow> Inl ''network settings not available''
           | Some ports \<Rightarrow>
               Inr (concat (map (\<lambda>key.
                 case map_of ports key of
                   None \<Rightarrow> []
                 | Some hs \<Rightarrow>
                     (case first_host_port hs of
                        None \<Rightarrow> []
                      | Some h \<Rightarrow> [h @ '':'' @ de_port_Port env key]))
                 (sort (map fst ports))))))"

definition desiredExplicitHostPorts :: "'w docker_env \<Rightarrow> string list \<Rightarrow> string + string list" where
  "desiredExplicitHostPorts env ports =
     (if ports = [] then Inr []
      else case parsePorts env ports of
        Inl err \<Rightarrow> Inl err
      | Inr (_, bindings) \<Rightarrow>
          Inr (concat (map (\<lambda>(port, b).
            case b of
              [] \<Rightarrow> []
            | hostPort # _ \<Rightarrow>
                if hostPort = [] \<or> hostPort = ''0'' then [] else [hostPort @ ''/'' @ de_port_Proto env port])
            bindings)))"

definition current_host_ports :: "'w docker_env \<Rightarrow> port_map \<Rightarrow> string list" where
  "current_host_ports env ports =
     concat (map (\<lambda>(port, hs).
       case first_host_port hs of None \<Rightarrow> [] | Some h \<Rightarrow> [h @ ''/'' @ de_port_Proto env port]) ports)"

definition shouldStopBeforeStart :: "'w docker_env \<Rightarrow> string \<Rightarrow> string list \<Rightarrow> 'w engine \<Rightarrow> string + bool" where
  "shouldStopBeforeStart env oldID desiredPorts s =
     (case desiredExplicitHostPorts env desiredPorts of
        Inl err \<Rightarrow> Inl err
      | Inr wanted \<Rightarrow>
          if wanted = [] then Inr False
          else case de_ContainerInspect env oldID (en_world s) of
            Inl e \<Rightarrow> Inl (client_failure [] e)
          | Inr ins \<Rightarrow>
              (case in_Ports ins of
                 None \<Rightarrow> Inr False
               | Some ports \<Rightarrow> Inr (\<exists>p \<in> set wanted. p \<in> set (current_host_ports env ports))))"

fun upstream_runtime_port :: "string \<Rightarrow> string list \<Rightarrow> string" where
  "upstream_runtime_port wanted [] = []"
| "upstream_runtime_port wanted (b # bs) =
     (case Cut b (CHR '':'') of (host, container, found) \<Rightarrow>
        if \<not> found \<or> host = [] \<or> container = [] then upstream_runtime_port wanted bs
        else if container = wanted then ''localhost:'' @ host
        else upstream_runtime_port wanted bs)"

fun upstream_runtime_first :: "string list \<Rightarrow> string" where
  "upstream_runtime_first [] = []"
| "upstream_runtime_first (b # bs) =
     (case Cut b (CHR '':'') of (host, _, found) \<Rightarrow>
        if \<not> found \<or> host = [] then upstream_runtime_first bs else ''localhost:'' @ host)"

definition upstreamFromRuntimePorts :: "string list \<Rightarrow> int \<Rightarrow> string" where
  "upstreamFromRuntimePorts runtimePorts proxyPort =
     (if proxyPort > 0 then upstream_runtime_port (Itoa proxyPort) runtimePorts
      else upstream_runtime_first runtimePorts)"

definition swapProxyRoute :: "'w docker_env \<Rightarrow> string \<Rightarrow> int \<Rightarrow> string list \<Rightarrow> 'w engine
    \<Rightarrow> string option \<times> 'w engine" where
  "swapProxyRoute env rawDomain proxyPort runtimePorts s =
     (let domain = normalizeDomain rawDomain in
      if domain = [] then (None, s)
      else let upstream = upstreamFromRuntimePorts runtimePorts proxyPort in
        if upstream = [] then (Some ''runtime upstream not available'', s)
        else case op_route env domain upstream s of
          (Inl err, s') \<Rightarrow> (Some err, s')
        | (Inr code, s') \<Rightarrow>
            if code \<noteq> 204 then (Some (''unexpected status '' @ Itoa code), s') else (None, s'))"

section \<open>Containers\<close>

definition Docker_StopAndRemove :: "'w docker_env \<Rightarrow> string \<Rightarrow> 'w engine \<Rightarrow> string option \<times> 'w engine" where
  "Docker_StopAndRemove env cid s =
     (let (stopped, s1) = op_stop env cid s;
          fail = (case stopped of
             None \<Rightarrow> None
           | Some e \<Rightarrow>
               if ce_connection_failed e then Some (unavailable e)
               else if \<not> ce_not_modified e \<and> \<not> ce_not_found e
               then Some (''docker: stop container '' @ cid @ '': '' @ ce_text e)
               else None) in
      case fail of
        Some err \<Rightarrow> (Some err, s1)
      | None \<Rightarrow>
          (case op_remove env cid False s1 of
             (None, s2) \<Rightarrow> (None, s2)
           | (Some e, s2) \<Rightarrow>
               (if ce_connection_failed e then (Some (unavailable e), s2)
                else if ce_not_found e then (None, s2)
                else (Some (''docker: remove container '' @ cid @ '': '' @ ce_text e), s2))))"

definition stop_and_discard :: "'w docker_env \<Rightarrow> string \<Rightarrow> 'w engine \<Rightarrow> 'w engine" where
  "stop_and_discard env cid s = snd (op_remove env cid True (snd (op_stop env cid s)))"

definition discard :: "'w docker_env \<Rightarrow> string \<Rightarrow> 'w engine \<Rightarrow> 'w engine" where
  "discard env cid s = snd (op_remove env cid True s)"

definition container_config :: "'w docker_env \<Rightarrow> Deployment \<Rightarrow> string list \<times> port_map \<Rightarrow> string \<Rightarrow> container_spec" where
  "container_config env dep parsed name =
     \<lparr>cs_Image = d_Image dep, cs_Env = envsToSlice env (slice (d_Envs dep)), cs_ExposedPorts = fst parsed,
      cs_Labels = [(''lotsen.managed'', ''true''), (''lotsen.id'', d_ID dep)],
      cs_PortBindings = snd parsed, cs_Binds = deploymentBinds env dep, cs_Name = name\<rparr>"

definition Docker_Start :: "'w docker_env \<Rightarrow> Deployment \<Rightarrow> 'w engine \<Rightarrow> (string + string list option) \<times> 'w engine" where
  "Docker_Start env dep s =
     (case de_Ping env (en_world s) of
        Some e \<Rightarrow> (Inl (unavailable e), s)
      | None \<Rightarrow>
     (case pullImage env (d_Image dep) s of
        (Some err, s1) \<Rightarrow> (Inl err, s1)
      | (None, s1) \<Rightarrow>
     (case parsePorts env (slice (d_Ports dep)) of
        Inl err \<Rightarrow> (Inl (''docker: parse ports: '' @ err), s1)
      | Inr parsed \<Rightarrow>
     (case op_create env (container_config env dep parsed (d_Name dep)) s1 of
        (Inl e, s2) \<Rightarrow> (Inl (client_failure (''docker: create container '' @ d_Name dep @ '': '') e), s2)
      | (Inr cid, s2) \<Rightarrow>
     (case op_start env cid s2 of
        (Some e, s3) \<Rightarrow> (Inl (client_failure (''docker: start container '' @ cid @ '': '') e), s3)
      | (None, s3) \<Rightarrow>
     (case resolvedPorts env cid s3 of
        Inl err \<Rightarrow> (Inl (''docker: resolve runtime ports for '' @ cid @ '': '' @ err), stop_and_discard env cid s3)
      | Inr ports \<Rightarrow> (Inr (Some ports), s3)))))))"

text \<open>After the new container has started: it must run, its ports are read and the route moved to
  it; only then the old container is removed and the new one takes its name.\<close>

definition replace_started :: "'w docker_env \<Rightarrow> Deployment \<Rightarrow> string \<Rightarrow> string \<Rightarrow> 'w engine
    \<Rightarrow> (string + string list option) \<times> 'w engine" where
  "replace_started env dep oldID cid s =
     (case de_ContainerList env (RunningWithID cid) (en_world s) of
        Inl e \<Rightarrow> (Inl (''docker: inspect new container '' @ cid @ '': '' @ ce_text e), stop_and_discard env cid s)
      | Inr running \<Rightarrow>
     (if running = []
      then (Inl (''docker: new container '' @ cid @ '' did not reach running state''), discard env cid s)
      else case resolvedPorts env cid s of
        Inl err \<Rightarrow> (Inl (''docker: resolve runtime ports for '' @ cid @ '': '' @ err), stop_and_discard env cid s)
      | Inr runtimePorts \<Rightarrow>
     (case swapProxyRoute env (d_Domain dep) (d_ProxyPort dep) runtimePorts s of
        (Some err, s1) \<Rightarrow>
          (Inl (''docker: swap proxy route for '' @ [CHR 0x22] @ d_Domain dep @ [CHR 0x22] @ '': '' @ err), stop_and_discard env cid s1)
      | (None, s1) \<Rightarrow>
          (let s2 = snd (Docker_StopAndRemove env oldID s1);
               s3 = snd (op_rename env cid (d_Name dep) s2) in
           (Inr (Some runtimePorts), s3)))))"

definition replace_running :: "'w docker_env \<Rightarrow> Deployment \<Rightarrow> string \<Rightarrow> 'w engine
    \<Rightarrow> (string + string list option) \<times> 'w engine" where
  "replace_running env dep oldID s =
     (case pullImage env (d_Image dep) s of
        (Some err, s1) \<Rightarrow> (Inl err, s1)
      | (None, s1) \<Rightarrow>
     (case parsePorts env (slice (d_Ports dep)) of
        Inl err \<Rightarrow> (Inl (''docker: parse ports: '' @ err), s1)
      | Inr parsed \<Rightarrow>
          (let nextName = d_Name dep @ ''-next'' in
     (case op_create env (container_config env dep parsed nextName) s1 of
        (Inl e, s2) \<Rightarrow> (Inl (client_failure (''docker: create container '' @ nextName @ '': '') e), s2)
      | (Inr cid, s2) \<Rightarrow>
     (case op_start env cid s2 of
        (Some e, s3) \<Rightarrow>
          (Inl (client_failure (''docker: start container '' @ cid @ '': '') e), discard env cid s3)
      | (None, s3) \<Rightarrow> replace_started env dep oldID cid s3)))))"

definition Docker_StartAndReplace :: "'w docker_env \<Rightarrow> Deployment \<Rightarrow> string \<Rightarrow> 'w engine
    \<Rightarrow> (string + string list option) \<times> 'w engine" where
  "Docker_StartAndReplace env dep oldID s =
     (case de_Ping env (en_world s) of
        Some e \<Rightarrow> (Inl (unavailable e), s)
      | None \<Rightarrow>
     (case shouldStopBeforeStart env oldID (slice (d_Ports dep)) s of
        Inl err \<Rightarrow> (Inl (''docker: compare port bindings: '' @ err), s)
      | Inr fallback \<Rightarrow>
          if fallback then
            (case Docker_StopAndRemove env oldID s of
               (Some err, s1) \<Rightarrow>
                 (Inl (''docker: stop old container '' @ oldID @ '' before replace: '' @ err), s1)
             | (None, s1) \<Rightarrow> Docker_Start env dep s1)
          else replace_running env dep oldID s))"

definition managed_container :: "'w docker_env \<Rightarrow> 'w engine \<Rightarrow> container_summary \<Rightarrow> ManagedContainer" where
  "managed_container env s c =
     (let running = (su_State c = ''running'') in
      \<lparr>mc_ID = su_ID c, mc_Name = (case su_Names c of [] \<Rightarrow> [] | n # _ \<Rightarrow> n),
       mc_DeploymentID = (case map_of (su_Labels c) ''lotsen.id'' of None \<Rightarrow> [] | Some v \<Rightarrow> v),
       mc_Running = running,
       mc_ExitDetails = (if running then None
         else case de_ContainerInspect env (su_ID c) (en_world s) of Inl _ \<Rightarrow> None | Inr ins \<Rightarrow> in_State ins)\<rparr>)"

definition Docker_ListManagedContainers :: "'w docker_env \<Rightarrow> 'w engine \<Rightarrow> string + ManagedContainer list" where
  "Docker_ListManagedContainers env s =
     (case de_ContainerList env AllManaged (en_world s) of
        Inl e \<Rightarrow> Inl (if \<not> ce_context e then unavailable e else ''docker: list containers: '' @ ce_text e)
      | Inr cs \<Rightarrow> Inr (map (managed_container env s) cs))"

definition docker_of :: "'w docker_env \<Rightarrow> 'w engine docker_api" where
  "docker_of env = \<lparr>da_Ping = Docker_Ping env, da_Start = Docker_Start env,
     da_StartAndReplace = Docker_StartAndReplace env,
     da_ListManagedContainers = Docker_ListManagedContainers env,
     da_StopAndRemove = Docker_StopAndRemove env\<rparr>"

section \<open>What a replacement touches\<close>

fun touches :: "string \<Rightarrow> engine_call \<Rightarrow> bool" where
  "touches cid (EngStop x) = (x = cid)"
| "touches cid (EngRemove x f) = (x = cid)"
| "touches cid (EngRename x n) = (x = cid)"
| "touches cid _ = False"

text \<open>The calls added to the log, none of which touches a container.\<close>

definition spares :: "string \<Rightarrow> 'w engine \<Rightarrow> 'w engine \<Rightarrow> bool" where
  "spares cid s s' \<longleftrightarrow> (\<exists>calls. en_log s' = en_log s @ calls \<and> (\<forall>c \<in> set calls. \<not> touches cid c))"

lemma spares_refl [simp]: "spares cid s s"
  by (simp add: spares_def)

lemma spares_trans: "spares cid s s1 \<Longrightarrow> spares cid s1 s2 \<Longrightarrow> spares cid s s2"
  unfolding spares_def by (metis (no_types, lifting) Un_iff append.assoc set_append)

lemma eng_log: "eng c f s = (r, s') \<Longrightarrow> en_log s' = en_log s @ [c]"
  by (auto simp: eng_def split: prod.splits)

lemma eng_spares: "eng c f s = (r, s') \<Longrightarrow> \<not> touches cid c \<Longrightarrow> spares cid s s'"
  by (auto simp: spares_def dest: eng_log)

lemma discard_spares: "old \<noteq> cid \<Longrightarrow> spares old s (discard env cid s)"
  "old \<noteq> cid \<Longrightarrow> spares old s (stop_and_discard env cid s)"
proof -
  assume ne: "old \<noteq> cid"
  have r: "spares old s (snd (op_remove env cid True s))" for s
    using ne by (cases "op_remove env cid True s") (auto simp: op_remove_def intro: eng_spares)
  have "spares old s (snd (op_stop env cid s))"
    using ne by (cases "op_stop env cid s") (auto simp: op_stop_def intro: eng_spares)
  with r show "spares old s (discard env cid s)" "spares old s (stop_and_discard env cid s)"
    by (auto simp: discard_def stop_and_discard_def intro: spares_trans)
qed

lemma spares_discard: "spares old s s1 \<Longrightarrow> old \<noteq> cid \<Longrightarrow> spares old s (stop_and_discard env cid s1)"
  by (rule spares_trans[OF _ discard_spares(2)])

lemma pullImage_spares: "pullImage env ref s = (r, s') \<Longrightarrow> spares old s s'"
  by (auto simp: pullImage_def op_pull_def split: if_splits sum.splits prod.splits option.splits intro: eng_spares)

lemma swapProxyRoute_spares: "swapProxyRoute env dn pp ps s = (r, s') \<Longrightarrow> spares old s s'"
  by (auto simp: swapProxyRoute_def op_route_def Let_def split: if_splits sum.splits prod.splits intro: eng_spares)

lemma swapProxyRoute_log:
  "swapProxyRoute env dn pp ps s = (None, s') \<Longrightarrow> normalizeDomain dn \<noteq> [] \<Longrightarrow>
     en_log s' = en_log s @ [EngRoute (normalizeDomain dn) (upstreamFromRuntimePorts ps pp)]"
  by (auto simp: swapProxyRoute_def op_route_def Let_def split: if_splits sum.splits prod.splits dest: eng_log)

lemma StopAndRemove_log:
  assumes "Docker_StopAndRemove env cid s = (r, s')"
  shows "\<exists>rest. en_log s' = en_log s @ EngStop cid # rest"
proof -
  obtain st s1 where st: "op_stop env cid s = (st, s1)" by fastforce
  have l1: "en_log s1 = en_log s @ [EngStop cid]" by (rule eng_log[OF st[unfolded op_stop_def]])
  obtain rm s2 where rm: "op_remove env cid False s1 = (rm, s2)" by fastforce
  have l2: "en_log s2 = en_log s1 @ [EngRemove cid False]" by (rule eng_log[OF rm[unfolded op_remove_def]])
  from assms have "s' = s1 \<or> s' = s2"
    by (auto simp: Docker_StopAndRemove_def st rm Let_def split: option.splits if_splits)
  with l1 l2 show ?thesis by auto
qed

lemma StopAndRemove_ok_log:
  assumes "Docker_StopAndRemove env cid s = (None, s')"
  shows "en_log s' = en_log s @ [EngStop cid, EngRemove cid False]"
proof -
  obtain st s1 where st: "op_stop env cid s = (st, s1)" by fastforce
  have l1: "en_log s1 = en_log s @ [EngStop cid]" by (rule eng_log[OF st[unfolded op_stop_def]])
  obtain rm s2 where rm: "op_remove env cid False s1 = (rm, s2)" by fastforce
  have l2: "en_log s2 = en_log s1 @ [EngRemove cid False]" by (rule eng_log[OF rm[unfolded op_remove_def]])
  from assms have "s' = s2"
    by (auto simp: Docker_StopAndRemove_def st rm Let_def split: option.splits if_splits)
  with l1 l2 show ?thesis by simp
qed

lemma replace_started_Inl:
  assumes "replace_started env dep old cid s = (Inl err, s')" and "old \<noteq> cid"
  shows "spares old s s'"
  using assms
  by (auto simp: replace_started_def Let_def split: sum.splits if_splits prod.splits option.splits
      intro: spares_discard discard_spares dest!: swapProxyRoute_spares[where old = old])

lemma replace_running_Inl:
  assumes "replace_running env dep old s = (Inl err, s')"
    and "\<forall>spec w. fst (de_ContainerCreate env spec w) \<noteq> Inr old"
  shows "spares old s s'"
proof -
  obtain p s1 where p: "pullImage env (d_Image dep) s = (p, s1)" by fastforce
  note sp1 = pullImage_spares[OF p, of old]
  show ?thesis
  proof (cases "p = None \<and> (\<exists>parsed. parsePorts env (slice (d_Ports dep)) = Inr parsed)")
    case False
    with assms(1) p sp1 show ?thesis by (auto simp: replace_running_def split: sum.splits option.splits)
  next
    case True
    then obtain parsed where parsed: "parsePorts env (slice (d_Ports dep)) = Inr parsed" by blast
    let ?spec = "container_config env dep parsed (d_Name dep @ ''-next'')"
    obtain c s2 where c: "op_create env ?spec s1 = (c, s2)" by fastforce
    have sp2: "spares old s s2"
      using eng_spares[OF c[unfolded op_create_def], of old] sp1 spares_trans by fastforce
    show ?thesis
    proof (cases c)
      case (Inl e)
      with assms(1) p True parsed c sp2 show ?thesis by (simp add: replace_running_def Let_def)
    next
      case (Inr cid)
      have "fst (de_ContainerCreate env ?spec (en_world s1)) = c"
        using c by (auto simp: op_create_def eng_def split: prod.splits)
      with assms(2) Inr have ne: "old \<noteq> cid" by metis
      obtain st s3 where st: "op_start env cid s2 = (st, s3)" by fastforce
      have sp3: "spares old s s3"
        using eng_spares[OF st[unfolded op_start_def], of old] sp2 spares_trans by fastforce
      show ?thesis
      proof (cases st)
        case None
        with assms(1) p True parsed c Inr st have "replace_started env dep old cid s3 = (Inl err, s')"
          by (simp add: replace_running_def Let_def)
        from replace_started_Inl[OF this ne] sp3 show ?thesis by (blast intro: spares_trans)
      next
        case (Some e)
        with assms(1) p True parsed c Inr st have "s' = discard env cid s3"
          by (simp add: replace_running_def Let_def)
        with sp3 discard_spares(1)[OF ne] show ?thesis by (blast intro: spares_trans)
      qed
    qed
  qed
qed

lemma replace_started_Inr:
  assumes "replace_started env dep old cid s = (Inr ports, s')" and "normalizeDomain (d_Domain dep) \<noteq> []"
  shows "\<exists>ps rest. ports = Some ps \<and> en_log s' = en_log s @
    EngRoute (normalizeDomain (d_Domain dep)) (upstreamFromRuntimePorts ps (d_ProxyPort dep)) # EngStop old # rest"
proof -
  from assms(1) obtain ps s1 where ps: "ports = Some ps"
    and swap: "swapProxyRoute env (d_Domain dep) (d_ProxyPort dep) ps s = (None, s1)"
    and s': "s' = snd (op_rename env cid (d_Name dep) (snd (Docker_StopAndRemove env old s1)))"
    by (auto simp: replace_started_def Let_def split: sum.splits if_splits prod.splits option.splits)
  obtain r2 s2 where r2: "Docker_StopAndRemove env old s1 = (r2, s2)" by fastforce
  obtain r3 s3 where r3: "op_rename env cid (d_Name dep) s2 = (r3, s3)" by fastforce
  from StopAndRemove_log[OF r2] obtain rest where "en_log s2 = en_log s1 @ EngStop old # rest" by blast
  moreover have "en_log s3 = en_log s2 @ [EngRename cid (d_Name dep)]"
    by (rule eng_log[OF r3[unfolded op_rename_def]])
  moreover have "s' = s3" using s' r2 r3 by simp
  ultimately show ?thesis using ps swapProxyRoute_log[OF swap assms(2)] by simp
qed

lemma replace_running_Inr:
  assumes "replace_running env dep old s = (Inr ports, s')"
  obtains cid s3 where "replace_started env dep old cid s3 = (Inr ports, s')" and "spares old s s3"
proof -
  from assms obtain s1 parsed cid s2 s3 where p: "pullImage env (d_Image dep) s = (None, s1)"
    and c: "op_create env (container_config env dep parsed (d_Name dep @ ''-next'')) s1 = (Inr cid, s2)"
    and st: "op_start env cid s2 = (None, s3)"
    and r: "replace_started env dep old cid s3 = (Inr ports, s')"
    by (auto simp: replace_running_def Let_def split: sum.splits prod.splits option.splits)
  have "spares old s1 s2" "spares old s2 s3"
    using eng_spares[OF c[unfolded op_create_def], of old] eng_spares[OF st[unfolded op_start_def], of old] by auto
  with pullImage_spares[OF p, of old] have "spares old s s3" by (blast intro: spares_trans)
  with r show thesis by (rule that)
qed

section \<open>Routes during and after a replacement\<close>

lemma upstream_runtime_agrees:
  assumes "\<forall>q \<in> set qs. bound_spec q \<and> Protocol q = ''tcp''" and "0 < pp"
  shows "upstream_runtime_port (Itoa pp) (map binding qs) = upstream_of_port pp (map binding qs)"
  using assms(1)
proof (induction qs)
  case (Cons q qs)
  then have v: "1 \<le> HostPort q" "1 \<le> ContainerPort q" and b: "bound_spec q" and t: "Protocol q = ''tcp''"
    by (auto simp: bound_spec_def valid_spec_def)
  then have "Cut (binding q) (CHR '':'') = (Itoa (HostPort q), Itoa (ContainerPort q), True)"
    by (simp add: binding_def Cut_present)
  moreover have "Itoa (HostPort q) \<noteq> []" "Itoa (ContainerPort q) \<noteq> []" using v Itoa_digits by auto
  moreover have "Itoa (ContainerPort q) = Itoa pp \<longleftrightarrow> ContainerPort q = pp" using v assms(2) by (simp add: Itoa_inject)
  ultimately show ?case using Cons t by (simp add: parseBinding_binding[OF b])
qed simp

section \<open>Properties\<close>

text \<open>
  A replacement that fails leaves the old container alone. When the new container does not
  need the old one's host ports and the engine gives it an ID of its own, a failing
  \<open>StartAndReplace\<close> has made no call that stops, removes or renames the old container, whichever
  of its steps failed.
\<close>

theorem failed_replace_keeps_old:
  assumes "shouldStopBeforeStart env old (slice (d_Ports dep)) s = Inr False"
    and "\<forall>spec w. fst (de_ContainerCreate env spec w) \<noteq> Inr old"
    and "Docker_StartAndReplace env dep old s = (Inl err, s')"
  shows "\<exists>calls. en_log s' = en_log s @ calls \<and>
    (\<forall>c \<in> set calls. c \<notin> {EngStop old, EngRemove old True, EngRemove old False} \<and> (\<forall>n. c \<noteq> EngRename old n))"
proof -
  have "spares old s s'"
  proof (cases "de_Ping env (en_world s)")
    case None
    with assms(1,3) have "replace_running env dep old s = (Inl err, s')"
      by (simp add: Docker_StartAndReplace_def)
    from replace_running_Inl[OF this assms(2)] show ?thesis .
  next
    case (Some e)
    with assms(3) show ?thesis by (simp add: Docker_StartAndReplace_def)
  qed
  then show ?thesis by (fastforce simp: spares_def)
qed

text \<open>
  A replacement moves traffic before it stops anything. When \<open>StartAndReplace\<close> succeeds for a
  deployment with a domain and the host ports do not overlap, the first call that touches the old
  container is the stop that follows the proxy's acceptance of the new upstream, and the upstream
  sent is the one for the ports reported.
\<close>

theorem replace_swaps_before_stop:
  assumes "shouldStopBeforeStart env old (slice (d_Ports dep)) s = Inr False"
    and "normalizeDomain (d_Domain dep) \<noteq> []"
    and "Docker_StartAndReplace env dep old s = (Inr ports, s')"
  shows "\<exists>ps before rest. ports = Some ps \<and> en_log s' = en_log s @ before @
      EngRoute (normalizeDomain (d_Domain dep)) (upstreamFromRuntimePorts ps (d_ProxyPort dep)) # EngStop old # rest \<and>
    (\<forall>c \<in> set before. \<not> touches old c)"
proof -
  from assms(1,3) have "replace_running env dep old s = (Inr ports, s')"
    by (auto simp: Docker_StartAndReplace_def split: option.splits)
  then obtain cid s3 where r: "replace_started env dep old cid s3 = (Inr ports, s')" and "spares old s s3"
    by (rule replace_running_Inr)
  then obtain before where "en_log s3 = en_log s @ before" "\<forall>c \<in> set before. \<not> touches old c"
    by (auto simp: spares_def)
  with replace_started_Inr[OF r assms(2)] show ?thesis by (metis append.assoc)
qed

text \<open>
  When the new container needs a host port of the old one, the old one is removed first: if
  starting the new one then fails, \<open>StartAndReplace\<close> reports the failure with the old container
  already stopped and removed.
\<close>

theorem overlapping_replace_removes_old_first:
  assumes "de_Ping env (en_world s) = None"
    and "shouldStopBeforeStart env old (slice (d_Ports dep)) s = Inr True"
    and "Docker_StopAndRemove env old s = (None, s1)" and "Docker_Start env dep s1 = (Inl err, s2)"
  shows "Docker_StartAndReplace env dep old s = (Inl err, s2) \<and>
    en_log s1 = en_log s @ [EngStop old, EngRemove old False]"
  using assms by (simp add: Docker_StartAndReplace_def StopAndRemove_ok_log)

text \<open>
  The route set during a replacement is the one the poller sets later: for runtime ports over
  TCP and a chosen proxy port, the orchestrator and the proxy's poller compute the same upstream.
\<close>

theorem swap_route_agrees_with_poller:
  assumes "\<forall>q \<in> set qs. bound_spec q \<and> Protocol q = ''tcp''" and "0 < pp"
  shows "upstreamFromRuntimePorts (map binding qs) pp = upstreamFromPorts (map binding qs) pp"
  using upstream_runtime_agrees[OF assms] assms(2)
  by (simp add: upstreamFromRuntimePorts_def upstreamFromPorts_def)

text \<open>
  Losing the daemon counts as transient. Every error text that reports an unreachable daemon,
  with whatever context in front of it, is one that the reconciler retries.
\<close>

theorem unavailable_is_transient: "isTransientFailure (context @ unavailable e)"
proof -
  have "Contains (a @ p @ b) p" for a b p :: string
    by (induction a) (simp_all add: Contains_self)
  moreover have "ToLower (context @ unavailable e) =
      ToLower context @ ''docker daemon unreachable'' @ ToLower ('': '' @ ce_text e)"
  proof -
    have "ToLower ''docker daemon unreachable'' = ''docker daemon unreachable''" by code_simp
    moreover have "unavailable e = ''docker daemon unreachable'' @ '': '' @ ce_text e" by (simp add: unavailable_def)
    ultimately show ?thesis by (simp only: ToLower_append)
  qed
  ultimately show ?thesis by (simp only: isTransientFailure_def Let_def) (simp add: unavailable_def)
qed

text \<open>
  The ports reported after a start forget the protocol. A container that publishes UDP port 53
  is reported as \<open>53:53\<close>, which is what the reconciler stores, and which every later reader of
  the stored ports takes for TCP.
\<close>

theorem resolved_ports_forget_udp:
  assumes "de_ContainerInspect env cid (en_world s) = Inr ins" and "in_Ports ins = Some [(''53/udp'', [''53''])]"
    and "de_port_Port env ''53/udp'' = ''53''"
  shows "resolvedPorts env cid s = Inr [''53:53''] \<and>
    parsePortSpec ''53:53'' = Inr \<lparr>HostPort = 53, ContainerPort = 53, Protocol = ''tcp''\<rparr>"
proof -
  have "parsePortSpec ''53:53'' = Inr \<lparr>HostPort = 53, ContainerPort = 53, Protocol = ''tcp''\<rparr>" by code_simp
  with assms show ?thesis by (simp add: resolvedPorts_def)
qed

text \<open>A small engine for the witnesses: containers are created with the ID \<open>new\<close>, starting them
  gives the first argument, and inspecting them the ports of the second.\<close>

definition refused :: client_error where
  "refused = \<lparr>ce_text = ''refused'', ce_connection_failed = False, ce_not_modified = False,
     ce_not_found = False, ce_context = False\<rparr>"

definition port_before :: "char \<Rightarrow> string \<Rightarrow> string" where
  "port_before c p = fst (Cut p c)"

definition port_after :: "char \<Rightarrow> string \<Rightarrow> string" where
  "port_after c p = fst (snd (Cut p c))"

definition denv :: "client_error option \<Rightarrow> port_map \<Rightarrow> unit docker_env" where
  "denv started ports = \<lparr>de_Ping = (\<lambda>_. None), de_ImageList = (\<lambda>_ _. Inr 1), de_ImagePull = (\<lambda>_ _ w. (None, w)),
     de_ContainerCreate = (\<lambda>_ w. (Inr ''new'', w)), de_ContainerStart = (\<lambda>_ w. (started, w)),
     de_ContainerList = (\<lambda>_ _. Inr [\<lparr>su_ID = ''new'', su_Names = [], su_Labels = [], su_State = ''running''\<rparr>]),
     de_ContainerStop = (\<lambda>_ w. (None, w)), de_ContainerRemove = (\<lambda>_ _ w. (None, w)),
     de_ContainerRename = (\<lambda>_ _ w. (None, w)),
     de_ContainerInspect = (\<lambda>_ _. Inr \<lparr>in_State = None, in_Ports = Some ports\<rparr>),
     de_ParsePortSpecs = (\<lambda>ps. Inr ([], map (\<lambda>p. (port_after (CHR '':'') p @ ''/tcp'', [port_before (CHR '':'') p])) ps)),
     de_port_Port = port_before (CHR ''/''), de_port_Proto = port_after (CHR ''/''),
     de_route_post = (\<lambda>_ _ w. (Inr 204, w)), de_store_path_ok = False, de_crypto = crypto0,
     de_store_env = env0, de_disk = disk0, de_encode_auth = ra_Username, de_store_error_text = (\<lambda>_. []),
     de_managed_files_dir = [], de_order = id\<rparr>"

definition idle_engine :: "unit engine" where
  "idle_engine = \<lparr>en_world = (), en_log = []\<rparr>"

lemma denv_create: "\<forall>spec w. fst (de_ContainerCreate (denv st ports) spec w) \<noteq> Inr ''old''"
  by (simp add: denv_def)

theorem failed_replace_keeps_old_witness:
  "\<exists>calls. en_log (snd (Docker_StartAndReplace (denv (Some refused) []) routed_web ''old'' idle_engine)) =
      en_log idle_engine @ calls \<and> (\<forall>c \<in> set calls. c \<notin> {EngStop ''old'', EngRemove ''old'' True, EngRemove ''old'' False} \<and>
        (\<forall>n. c \<noteq> EngRename ''old'' n))"
proof -
  let ?r = "Docker_StartAndReplace (denv (Some refused) []) routed_web ''old'' idle_engine"
  have "shouldStopBeforeStart (denv (Some refused) []) ''old'' (slice (d_Ports routed_web)) idle_engine = Inr False"
    by code_simp
  moreover have "fst ?r = Inl ''docker: start container new: refused''" by code_simp
  then have "?r = (Inl ''docker: start container new: refused'', snd ?r)" by (simp add: prod_eq_iff)
  ultimately show ?thesis by (rule failed_replace_keeps_old[OF _ denv_create])
qed

theorem replace_swaps_before_stop_witness:
  "\<exists>before rest. en_log (snd (Docker_StartAndReplace (denv None [(''80/tcp'', [''40000''])]) routed_web ''old'' idle_engine)) =
     before @ EngRoute ''web.example.com'' ''localhost:40000'' # EngStop ''old'' # rest \<and> (\<forall>c \<in> set before. \<not> touches ''old'' c)"
proof -
  let ?r = "Docker_StartAndReplace (denv None [(''80/tcp'', [''40000''])]) routed_web ''old'' idle_engine"
  have n: "normalizeDomain (d_Domain routed_web) = ''web.example.com''" by code_simp
  have sh: "shouldStopBeforeStart (denv None [(''80/tcp'', [''40000''])]) ''old'' (slice (d_Ports routed_web)) idle_engine = Inr False"
    by code_simp
  have "fst ?r = Inr (Some [''40000:80''])" by code_simp
  then have "?r = (Inr (Some [''40000:80'']), snd ?r)" by (simp add: prod_eq_iff)
  moreover have "upstreamFromRuntimePorts [''40000:80''] (d_ProxyPort routed_web) = ''localhost:40000''" by code_simp
  moreover have "en_log idle_engine = []" by (simp add: idle_engine_def)
  ultimately show ?thesis using replace_swaps_before_stop[OF sh] n by fastforce
qed

theorem overlapping_replace_removes_old_first_witness:
  "en_log (snd (Docker_StopAndRemove (denv (Some refused) [(''80/tcp'', [''32768''])]) ''old'' idle_engine)) =
     [EngStop ''old'', EngRemove ''old'' False]"
proof -
  let ?env = "denv (Some refused) [(''80/tcp'', [''32768''])]"
  let ?r = "Docker_StopAndRemove ?env ''old'' idle_engine"
  let ?q = "Docker_Start ?env routed_web (snd ?r)"
  have "de_Ping ?env (en_world idle_engine) = None" by (simp add: denv_def)
  moreover have "shouldStopBeforeStart ?env ''old'' (slice (d_Ports routed_web)) idle_engine = Inr True" by code_simp
  moreover have "fst ?r = None" by code_simp
  then have "?r = (None, snd ?r)" by (simp add: prod_eq_iff)
  moreover have "fst ?q = Inl ''docker: start container new: refused''" by code_simp
  then have "?q = (Inl ''docker: start container new: refused'', snd ?q)" by (simp add: prod_eq_iff)
  ultimately have "en_log (snd ?r) = en_log idle_engine @ [EngStop ''old'', EngRemove ''old'' False]"
    using overlapping_replace_removes_old_first by blast
  then show ?thesis by (simp add: idle_engine_def)
qed

theorem swap_route_agrees_with_poller_witness:
  "upstreamFromRuntimePorts (map binding [\<lparr>HostPort = 40000, ContainerPort = 80, Protocol = ''tcp''\<rparr>]) 80 =
   upstreamFromPorts (map binding [\<lparr>HostPort = 40000, ContainerPort = 80, Protocol = ''tcp''\<rparr>]) 80"
  by (rule swap_route_agrees_with_poller) (simp_all add: bound_spec_def valid_spec_def)

theorem resolved_ports_forget_udp_witness:
  "resolvedPorts (denv None [(''53/udp'', [''53''])]) ''new'' idle_engine = Inr [''53:53'']"
proof -
  have "de_port_Port (denv None [(''53/udp'', [''53''])]) ''53/udp'' = ''53''" by code_simp
  with resolved_ports_forget_udp[of "denv None [(''53/udp'', [''53''])]" "''new''" idle_engine] show ?thesis
    by (simp add: denv_def)
qed

text \<open>A registry with a port and no tag is taken for a pinned tag.\<close>

lemma latest_tag_registry_port: "\<not> isLatestTag ''localhost:5000/app'' \<and> isLatestTag ''app''"
  by code_simp

end
