(* ===== verification/Net.thy ===== *)
theory Net
  imports Prelude "HOL-Library.Word"
begin

text \<open>
  Go's package \<open>net\<close>, as far as the proxy uses it: \<open>ParseIP\<close>, \<open>ParseCIDR\<close>, \<open>SplitHostPort\<close> and
  membership of an address in a network. A parsed address is sixteen bytes, an IPv4 address in
  its IPv4-in-IPv6 form, as in Go. Text with a zone is not an address for \<open>ParseIP\<close>, so the
  parsers refuse the zone separator.
\<close>

unbundle bit_operations_syntax

type_synonym IP = "8 word list"

section \<open>Addresses\<close>

definition is_hex :: "char \<Rightarrow> bool" where
  "is_hex c \<longleftrightarrow> is_digit c \<or> (97 \<le> byte c \<and> byte c \<le> 102) \<or> (65 \<le> byte c \<and> byte c \<le> 70)"

definition hex_val :: "char \<Rightarrow> int" where
  "hex_val c = (if is_digit c then byte c - 48 else if 97 \<le> byte c then byte c - 87 else byte c - 55)"

definition hexs_val :: "string \<Rightarrow> int" where
  "hexs_val hs = foldl (\<lambda>a c. a * 16 + hex_val c) 0 hs"

definition parse_octet :: "string \<Rightarrow> (8 word) option" where
  "parse_octet f =
     (if f = [] \<or> \<not> list_all is_digit f \<or> (length f > 1 \<and> hd f = CHR ''0'') \<or> digits_val f > 255 then None
      else Some (word_of_int (digits_val f)))"

fun parse_octets :: "string list \<Rightarrow> IP option" where
  "parse_octets [] = Some []"
| "parse_octets (f # fs) =
     (case parse_octet f of
        None \<Rightarrow> None
      | Some b \<Rightarrow> map_option (Cons b) (parse_octets fs))"

definition parseIPv4 :: "string \<Rightarrow> IP option" where
  "parseIPv4 s =
     (let fields = Split s (CHR ''.'') in
      if length fields \<noteq> 4 then None else parse_octets fields)"

definition v4InV6Prefix :: IP where
  "v4InV6Prefix = replicate 10 0 @ [255, 255]"

text \<open>The groups of an IPv6 address: the bytes read, the place of the double colon and the rest.\<close>

function parse6_groups :: "IP \<Rightarrow> nat option \<Rightarrow> string \<Rightarrow> (IP \<times> nat option) option" where
  "parse6_groups out ell s =
     (if length out \<ge> 16 then (if s = [] then Some (out, ell) else None)
      else
        (let h = takeWhile is_hex s; r = dropWhile is_hex s in
         if h = [] \<or> length h > 4 then None
         else if r \<noteq> [] \<and> hd r = CHR ''.'' then
           (if (ell = None \<and> length out \<noteq> 12) \<or> length out + 4 > 16 then None
            else map_option (\<lambda>v4. (out @ v4, ell)) (parseIPv4 s))
         else
           (let out' = out @ [word_of_int (hexs_val h div 256), word_of_int (hexs_val h mod 256)] in
            if r = [] then Some (out', ell)
            else if hd r \<noteq> CHR '':'' \<or> tl r = [] then None
            else if hd (tl r) = CHR '':'' then
              (if ell \<noteq> None then None
               else if tl (tl r) = [] then Some (out', Some (length out'))
               else parse6_groups out' (Some (length out')) (tl (tl r)))
            else parse6_groups out' ell (tl r))))"
  by pat_completeness auto
termination
proof (relation "measure (\<lambda>(out, ell, s). length s)", goal_cases)
  case 1
  then show ?case by simp
next
  case (2 out ell s h r out')
  then have "length (tl (tl r)) < length r" by (cases r) auto
  also have "length r \<le> length s" using 2 by (simp add: length_dropWhile_le)
  finally show ?case by simp
next
  case (3 out ell s h r out')
  then have "length (tl r) < length r" by (cases r) auto
  also have "length r \<le> length s" using 3 by (simp add: length_dropWhile_le)
  finally show ?case by simp
qed

declare parse6_groups.simps [simp del]

definition parse6_expand :: "IP \<times> nat option \<Rightarrow> IP option" where
  "parse6_expand g =
     (case g of (out, ell) \<Rightarrow>
        if length out < 16 then
          (case ell of
             None \<Rightarrow> None
           | Some k \<Rightarrow> Some (take k out @ replicate (16 - length out) 0 @ drop k out))
        else if ell \<noteq> None then None else Some out)"

definition parseIPv6 :: "string \<Rightarrow> IP option" where
  "parseIPv6 s =
     (if HasPrefix s ''::'' then
        (if length s = 2 then Some (replicate 16 0)
         else Option.bind (parse6_groups [] (Some 0) (drop 2 s)) parse6_expand)
      else Option.bind (parse6_groups [] None s) parse6_expand)"

text \<open>\<open>netip.ParseAddr\<close>: the first dot or colon decides the family. The result is the address and
  whether it was written as IPv4.\<close>

definition ParseAddr :: "string \<Rightarrow> (IP \<times> bool) option" where
  "ParseAddr s =
     (if CHR ''%'' \<in> set s then None
      else case dropWhile (\<lambda>c. c \<noteq> CHR ''.'' \<and> c \<noteq> CHR '':'') s of
        [] \<Rightarrow> None
      | c # _ \<Rightarrow>
          if c = CHR ''.'' then map_option (\<lambda>b. (v4InV6Prefix @ b, True)) (parseIPv4 s)
          else map_option (\<lambda>b. (b, False)) (parseIPv6 s))"

definition ParseIP :: "string \<Rightarrow> IP option" where
  "ParseIP s = map_option fst (ParseAddr s)"

definition To4 :: "IP \<Rightarrow> IP option" where
  "To4 ip =
     (if length ip = 4 then Some ip
      else if length ip = 16 \<and> take 12 ip = v4InV6Prefix then Some (drop 12 ip)
      else None)"

section \<open>Networks\<close>

record IPNet =
  net_IP :: IP
  net_Mask :: IP

definition CIDRMask :: "nat \<Rightarrow> nat \<Rightarrow> IP" where
  "CIDRMask ones bytes = map (\<lambda>k. NOT (drop_bit (min 8 (ones - 8 * k)) (- 1))) [0..<bytes]"

definition mask_ip :: "IP \<Rightarrow> IP \<Rightarrow> IP" where
  "mask_ip ip m =
     map2 (AND) (if length m = 4 \<and> length ip = 16 \<and> take 12 ip = v4InV6Prefix then drop 12 ip else ip) m"

definition dtoi :: "string \<Rightarrow> int option" where
  "dtoi s =
     (if s = [] \<or> \<not> list_all is_digit s \<or> digits_val s \<ge> 16777215 then None else Some (digits_val s))"

definition ParseCIDR :: "string \<Rightarrow> IPNet option" where
  "ParseCIDR s =
     (case Cut s (CHR ''/'') of (addr, maskPart, found) \<Rightarrow>
        if \<not> found then None
        else case ParseAddr addr of
          None \<Rightarrow> None
        | Some (ip, is4) \<Rightarrow>
            (case dtoi maskPart of
               None \<Rightarrow> None
             | Some n \<Rightarrow>
                 (let bytes = (if is4 then 4 else 16) in
                  if n > 8 * int bytes then None
                  else Some \<lparr>net_IP = mask_ip ip (CIDRMask (nat n) bytes), net_Mask = CIDRMask (nat n) bytes\<rparr>)))"

text \<open>The network of one address: what \<open>ParseCIDR\<close> gives for the printed address with all bits.\<close>

definition host_net :: "IP \<Rightarrow> IPNet" where
  "host_net ip =
     (case To4 ip of
        Some v4 \<Rightarrow> \<lparr>net_IP = v4, net_Mask = CIDRMask 32 4\<rparr>
      | None \<Rightarrow> \<lparr>net_IP = ip, net_Mask = CIDRMask 128 16\<rparr>)"

definition networkNumberAndMask :: "IPNet \<Rightarrow> IP \<times> IP" where
  "networkNumberAndMask n =
     (case To4 (net_IP n) of
        Some v4 \<Rightarrow> (v4, if length (net_Mask n) = 16 then drop 12 (net_Mask n) else net_Mask n)
      | None \<Rightarrow> (net_IP n, net_Mask n))"

definition net_Contains :: "IPNet \<Rightarrow> IP \<Rightarrow> bool" where
  "net_Contains n ip =
     (let (nn, m) = networkNumberAndMask n;
          x = (case To4 ip of Some v4 \<Rightarrow> v4 | None \<Rightarrow> ip) in
      length x = length nn \<and> mask_ip nn m = mask_ip x m)"

section \<open>Host and port\<close>

definition last_index :: "string \<Rightarrow> char \<Rightarrow> nat option" where
  "last_index s c =
     (if c \<in> set s then Some (length s - 1 - length (takeWhile (\<lambda>x. x \<noteq> c) (rev s))) else None)"

definition SplitHostPort :: "string \<Rightarrow> (string \<times> string) option" where
  "SplitHostPort hostport =
     (case last_index hostport (CHR '':'') of
        None \<Rightarrow> None
      | Some i \<Rightarrow>
          if hd hostport = CHR ''['' then
            (if CHR '']'' \<notin> set hostport then None
             else let e = length (takeWhile (\<lambda>x. x \<noteq> CHR '']'') hostport) in
               if e + 1 \<noteq> i then None
               else if CHR ''['' \<in> set (drop 1 hostport) \<or> CHR '']'' \<in> set (drop (e + 1) hostport) then None
               else Some (take (e - 1) (drop 1 hostport), drop (i + 1) hostport))
          else
            (let host = take i hostport in
             if CHR '':'' \<in> set host then None
             else if CHR ''['' \<in> set hostport \<or> CHR '']'' \<in> set hostport then None
             else Some (host, drop (i + 1) hostport)))"

section \<open>Lemmas\<close>

lemma parse_octets_length: "parse_octets fs = Some b \<Longrightarrow> length b = length fs"
  by (induction fs arbitrary: b) (auto split: option.splits)

lemma parseIPv4_length: "parseIPv4 s = Some b \<Longrightarrow> length b = 4"
  by (auto simp: parseIPv4_def Let_def split: if_splits dest: parse_octets_length)

lemma parse6_groups_length:
  "parse6_groups out ell s = Some (out', ell') \<Longrightarrow> length out \<le> 16 \<Longrightarrow> even (length out) \<Longrightarrow>
     ell \<in> {None} \<union> Some ` {..length out} \<Longrightarrow>
     length out' \<le> 16 \<and> ell' \<in> {None} \<union> Some ` {..length out'}"
proof (induction out ell s arbitrary: out' ell' rule: parse6_groups.induct)
  case (1 out ell s)
  let ?h = "takeWhile is_hex s" and ?r = "dropWhile is_hex s"
  let ?out = "out @ [word_of_int (hexs_val ?h div 256), word_of_int (hexs_val ?h mod 256)]"
  show ?case
  proof (cases "length out < 16 \<and> ?h \<noteq> [] \<and> length ?h \<le> 4 \<and> \<not> (?r \<noteq> [] \<and> hd ?r = CHR ''.'')")
    case False
    with 1(3-6) show ?thesis
      by (auto simp: parse6_groups.simps[of out ell s] Let_def parseIPv4_length split: if_splits)
  next
    case True
    have len: "length ?out \<le> 16" "even (length ?out)" using True 1(5) by (auto elim!: evenE)
    have ell: "ell \<in> {None} \<union> Some ` {..length ?out}" using 1(6) by auto
    note IH1 = 1(1)[OF _ refl refl _ _ refl] and IH2 = 1(2)[OF _ refl refl _ _ refl]
    from True 1(3) consider
        (finish) "out' = ?out \<and> (ell' = ell \<or> ell' = Some (length ?out))"
      | (ellipsis) "?r \<noteq> []" "hd ?r = CHR '':''" "tl ?r \<noteq> []" "hd (tl ?r) = CHR '':''" "ell = None" "tl (tl ?r) \<noteq> []"
          "parse6_groups ?out (Some (length ?out)) (tl (tl ?r)) = Some (out', ell')"
      | (more) "?r \<noteq> []" "hd ?r = CHR '':''" "tl ?r \<noteq> []" "hd (tl ?r) \<noteq> CHR '':''"
          "parse6_groups ?out ell (tl ?r) = Some (out', ell')"
      by (auto simp: parse6_groups.simps[of out ell s] Let_def split: if_splits)
    then show ?thesis
    proof cases
      case finish
      with len ell show ?thesis by auto
    next
      case ellipsis
      with True IH1 len show ?thesis by auto
    next
      case more
      with True IH2 len ell show ?thesis by auto
    qed
  qed
qed

lemma parseIPv6_length: "parseIPv6 s = Some ip \<Longrightarrow> length ip = 16"
proof -
  assume *: "parseIPv6 s = Some ip"
  have expand: "parse6_expand (out, ell) = Some ip \<Longrightarrow> length out \<le> 16 \<Longrightarrow>
      ell \<in> {None} \<union> Some ` {..length out} \<Longrightarrow> length ip = 16" for out ell
    by (auto simp: parse6_expand_def split: if_splits option.splits)
  show ?thesis
  proof (cases "HasPrefix s ''::'' \<and> length s = 2")
    case True
    then have "parseIPv6 s = Some (replicate 16 0)" by (simp add: parseIPv6_def)
    with * show ?thesis by auto
  next
    case False
    with * obtain ell0 t out ell where "parse6_groups [] ell0 t = Some (out, ell)" "ell0 \<in> {None, Some 0}"
      "parse6_expand (out, ell) = Some ip"
      by (auto simp: parseIPv6_def bind_eq_Some_conv split: if_splits)
    with parse6_groups_length[of "[]" ell0 t out ell] expand show ?thesis by auto
  qed
qed

lemma ParseAddr_length: "ParseAddr s = Some (ip, is4) \<Longrightarrow> length ip = 16"
  by (auto simp: ParseAddr_def v4InV6Prefix_def dest: parseIPv4_length parseIPv6_length
      split: if_splits list.splits)

lemma ParseIP_length: "ParseIP s = Some ip \<Longrightarrow> length ip = 16"
  by (auto simp: ParseIP_def dest: ParseAddr_length)

text \<open>The bits of an address, the most significant first, and what a mask compares.\<close>

definition addr_bit :: "IP \<Rightarrow> nat \<Rightarrow> bool" where
  "addr_bit xs i = bit (xs ! (i div 8)) (7 - i mod 8)"

lemma byte_eq_iff: "(x :: 8 word) = y \<longleftrightarrow> (\<forall>j < 8. bit x j = bit y j)"
  by (auto simp: bit_eq_iff)

lemma mask_byte_bit: "j < 8 \<Longrightarrow> r \<le> 8 \<Longrightarrow> bit (NOT (drop_bit r (- 1 :: 8 word))) j \<longleftrightarrow> 8 - r \<le> j"
  by (auto simp: bit_simps)

lemma CIDRMask_nth: "k < bytes \<Longrightarrow> CIDRMask n bytes ! k = NOT (drop_bit (min 8 (n - 8 * k)) (- 1))"
  by (simp add: CIDRMask_def)

lemma CIDRMask_length [simp]: "length (CIDRMask n bytes) = bytes"
  by (simp add: CIDRMask_def)

lemma mask_bytes_eq:
  assumes "k < bytes"
  shows "x AND CIDRMask n bytes ! k = y AND CIDRMask n bytes ! k \<longleftrightarrow>
    (\<forall>j < 8. 8 * k + (7 - j) < n \<longrightarrow> bit x j = bit y j)"
proof -
  have "bit (CIDRMask n bytes ! k) j \<longleftrightarrow> 8 * k + (7 - j) < n" if "j < 8" for j
  proof -
    have "bit (CIDRMask n bytes ! k) j \<longleftrightarrow> 8 - min 8 (n - 8 * k) \<le> j"
      unfolding CIDRMask_nth[OF assms] using that by (rule mask_byte_bit) simp
    also have "\<dots> \<longleftrightarrow> 8 * k + (7 - j) < n" using that by (auto simp: min_def)
    finally show ?thesis .
  qed
  then show ?thesis by (auto simp: byte_eq_iff bit_and_iff)
qed

lemma masked_eq_iff:
  assumes "length a = bytes" and "length b = bytes" and "n \<le> 8 * bytes"
  shows "map2 (AND) a (CIDRMask n bytes) = map2 (AND) b (CIDRMask n bytes) \<longleftrightarrow>
    (\<forall>i < n. addr_bit a i = addr_bit b i)"
proof -
  have "map2 (AND) a (CIDRMask n bytes) = map2 (AND) b (CIDRMask n bytes) \<longleftrightarrow>
      (\<forall>k < bytes. a ! k AND CIDRMask n bytes ! k = b ! k AND CIDRMask n bytes ! k)"
    using assms by (simp add: list_eq_iff_nth_eq)
  also have "\<dots> \<longleftrightarrow> (\<forall>k < bytes. \<forall>j < 8. 8 * k + (7 - j) < n \<longrightarrow> bit (a ! k) j = bit (b ! k) j)"
    by (simp add: mask_bytes_eq)
  also have "\<dots> \<longleftrightarrow> (\<forall>i < n. addr_bit a i = addr_bit b i)"
  proof (rule iffI; intro allI impI)
    fix i
    assume *: "\<forall>k < bytes. \<forall>j < 8. 8 * k + (7 - j) < n \<longrightarrow> bit (a ! k) j = bit (b ! k) j" and "i < n"
    moreover have "i div 8 < bytes" using \<open>i < n\<close> assms(3) by linarith
    moreover have "8 * (i div 8) + (7 - (7 - i mod 8)) = i" by simp
    ultimately show "addr_bit a i = addr_bit b i" by (simp add: addr_bit_def)
  next
    fix k j :: nat
    assume *: "\<forall>i < n. addr_bit a i = addr_bit b i" and "k < bytes" "j < 8" "8 * k + (7 - j) < n"
    have "addr_bit a (8 * k + (7 - j)) = addr_bit b (8 * k + (7 - j))" using * \<open>8 * k + (7 - j) < n\<close> by blast
    moreover have "(8 * k + (7 - j)) div 8 = k" by (rule div_nat_eqI) auto
    moreover have "(8 * k + (7 - j)) mod 8 = 7 - j"
      unfolding mod_mult_self4[of 8 k "7 - j"] by (rule mod_less) auto
    then have "7 - (8 * k + (7 - j)) mod 8 = j" using \<open>j < 8\<close> by simp
    ultimately show "bit (a ! k) j = bit (b ! k) j" by (simp only: addr_bit_def)
  qed
  finally show ?thesis .
qed

lemma mask_twice: "map2 (AND) (map2 (AND) a m) m = map2 (AND) a (m :: IP)"
  by (rule nth_equalityI) (simp_all add: and.assoc)

lemma To4_4 [simp]: "length x = 4 \<Longrightarrow> To4 x = Some x"
  by (simp add: To4_def)

lemma To4_length: "To4 ip = Some x \<Longrightarrow> length x = 4"
  by (auto simp: To4_def split: if_splits)

lemma ParseCIDR_v4:
  assumes "Cut s (CHR ''/'') = (addr, m, True)" and "parseIPv4 addr = Some b"
    and "dtoi m = Some n" and "n \<le> 32" and "CHR ''%'' \<notin> set addr" and "CHR '':'' \<notin> set addr"
  shows "ParseCIDR s = Some \<lparr>net_IP = map2 (AND) b (CIDRMask (nat n) 4), net_Mask = CIDRMask (nat n) 4\<rparr>"
proof -
  have "CHR ''.'' \<in> set addr"
    using assms(2) Split_absent[of "CHR ''.''" addr]
    by (cases "CHR ''.'' \<in> set addr") (simp_all add: parseIPv4_def Let_def)
  then obtain pre rest where "addr = pre @ CHR ''.'' # rest" "CHR ''.'' \<notin> set pre"
    by (meson split_list_first)
  with assms(6) have "dropWhile (\<lambda>c. c \<noteq> CHR ''.'' \<and> c \<noteq> CHR '':'') addr = CHR ''.'' # rest"
    by (induction pre) (auto simp: dropWhile_append)
  with assms(2,5) have "ParseAddr addr = Some (v4InV6Prefix @ b, True)" by (simp add: ParseAddr_def)
  with assms(1,3,4) parseIPv4_length[OF assms(2)] show ?thesis
    by (simp add: ParseCIDR_def mask_ip_def v4InV6Prefix_def)
qed

lemma v4_net_Contains:
  assumes "length b = 4" and "n \<le> 32"
  shows "net_Contains \<lparr>net_IP = map2 (AND) b (CIDRMask n 4), net_Mask = CIDRMask n 4\<rparr> ip \<longleftrightarrow>
    (\<exists>x. To4 ip = Some x \<and> (\<forall>i < n. addr_bit x i = addr_bit b i))"
proof -
  let ?m = "CIDRMask n 4"
  let ?n = "\<lparr>net_IP = map2 (AND) b ?m, net_Mask = ?m\<rparr>"
  let ?x = "case To4 ip of Some v4 \<Rightarrow> v4 | None \<Rightarrow> ip"
  have "networkNumberAndMask ?n = (map2 (AND) b ?m, ?m)"
    using assms(1) by (simp add: networkNumberAndMask_def)
  then have "net_Contains ?n ip \<longleftrightarrow> length ?x = 4 \<and> map2 (AND) b ?m = mask_ip ?x ?m"
    using assms(1) by (simp add: net_Contains_def mask_ip_def mask_twice Let_def)
  also have "\<dots> \<longleftrightarrow> length ?x = 4 \<and> (\<forall>i < n. addr_bit ?x i = addr_bit b i)"
  proof (cases "length ?x = 4")
    case True
    then have "mask_ip ?x ?m = map2 (AND) ?x ?m" by (simp add: mask_ip_def)
    moreover have "(map2 (AND) b ?m = map2 (AND) ?x ?m) = (\<forall>i < n. addr_bit b i = addr_bit ?x i)"
      using masked_eq_iff[OF assms(1) True, of n] assms(2) by simp
    ultimately show ?thesis using True by auto
  qed simp
  also have "\<dots> \<longleftrightarrow> (\<exists>x. To4 ip = Some x \<and> (\<forall>i < n. addr_bit x i = addr_bit b i))"
  proof (cases "To4 ip")
    case None
    then have "length ip \<noteq> 4" using To4_4 by force
    with None show ?thesis by simp
  next
    case (Some x)
    with To4_length[OF Some] show ?thesis by simp
  qed
  finally show ?thesis .
qed

end
