(* ===== verification/Filters.thy ===== *)
theory Filters
  imports Store Net "HOL-Library.List_Lexorder" "HOL-Library.Char_ord"
begin

text \<open>
  The checks of \<open>src/proxy/internal/middleware\<close>: the IP filter, the user agent filter, basic
  authentication and the web application firewall.

  The firewall engine (Coraza), SHA-256 and bcrypt are parameters. The part of a request that the
  checks read is \<open>Request\<close>.
\<close>

record Request =
  rq_Host :: string
  rq_Method :: string
  rq_Path :: string
  rq_RawQuery :: string
  rq_RemoteAddr :: string
  rq_ForwardedFor :: string
  rq_UserAgent :: string
  rq_BasicAuth :: "(string \<times> string) option"
  rq_TokenCookie :: "string option"
  rq_Body :: "(string + string) option"

section \<open>IP filter\<close>

datatype ip_verdict = IPFilterAllowed | IPFilterDenied | IPFilterNotAllowed

record IPFilter =
  ipf_globalDenylist :: "IPNet list"
  ipf_globalAllowlist :: "IPNet list"

fun parseCIDRs :: "string list \<Rightarrow> string + IPNet list" where
  "parseCIDRs [] = Inr []"
| "parseCIDRs (raw # rest) =
     (let entry = TrimSpace raw in
      if entry = [] then parseCIDRs rest
      else case ParseCIDR entry of
        Some network \<Rightarrow> map_sum id (Cons network) (parseCIDRs rest)
      | None \<Rightarrow>
          (case ParseIP entry of
             None \<Rightarrow> Inl entry
           | Some ip \<Rightarrow> map_sum id (Cons (host_net ip)) (parseCIDRs rest)))"

definition ipInNetworks :: "IP \<Rightarrow> IPNet list \<Rightarrow> bool" where
  "ipInNetworks ip nets = (\<exists>network \<in> set nets. net_Contains network ip)"

definition evaluateIPNetworks :: "string \<Rightarrow> IPNet list \<Rightarrow> IPNet list \<Rightarrow> ip_verdict" where
  "evaluateIPNetworks clientIP denylist allowlist =
     (case ParseIP (TrimSpace clientIP) of
        None \<Rightarrow> IPFilterAllowed
      | Some ip \<Rightarrow>
          if ipInNetworks ip denylist then IPFilterDenied
          else if length allowlist > 0 \<and> \<not> ipInNetworks ip allowlist then IPFilterNotAllowed
          else IPFilterAllowed)"

definition NewIPFilter :: "string list \<Rightarrow> string list \<Rightarrow> string + IPFilter" where
  "NewIPFilter globalDenylist globalAllowlist =
     (case parseCIDRs globalDenylist of
        Inl err \<Rightarrow> Inl (''parse global denylist: '' @ err)
      | Inr denylist \<Rightarrow>
          (case parseCIDRs globalAllowlist of
             Inl err \<Rightarrow> Inl (''parse global allowlist: '' @ err)
           | Inr allowlist \<Rightarrow> Inr \<lparr>ipf_globalDenylist = denylist, ipf_globalAllowlist = allowlist\<rparr>))"

definition EvaluateGlobal :: "IPFilter \<Rightarrow> string \<Rightarrow> ip_verdict" where
  "EvaluateGlobal f clientIP = evaluateIPNetworks clientIP (ipf_globalDenylist f) (ipf_globalAllowlist f)"

definition EvaluateDeployment :: "string \<Rightarrow> SecurityConfig option \<Rightarrow> ip_verdict" where
  "EvaluateDeployment clientIP security =
     (case security of
        None \<Rightarrow> IPFilterAllowed
      | Some sc \<Rightarrow>
          (case parseCIDRs (sc_IPDenylist sc) of
             Inl _ \<Rightarrow> IPFilterDenied
           | Inr denylist \<Rightarrow>
               (case parseCIDRs (sc_IPAllowlist sc) of
                  Inl _ \<Rightarrow> IPFilterNotAllowed
                | Inr allowlist \<Rightarrow> evaluateIPNetworks clientIP denylist allowlist)))"

section \<open>User agent filter\<close>

record UAFilter =
  uaf_strict :: bool
  uaf_builtInBlocked :: "string list"
  uaf_strictBlocked :: "string list"
  uaf_customBlocked :: "string list"

definition NewUAFilter :: "bool \<Rightarrow> string list \<Rightarrow> UAFilter" where
  "NewUAFilter strict customBlocked =
     \<lparr>uaf_strict = strict,
      uaf_builtInBlocked = [''nikto'', ''sqlmap'', ''nuclei'', ''masscan'', ''zgrab'', ''wfuzz'', ''dirb'', ''gobuster'',
        ''headlesschrome'', ''phantomjs'', ''selenium'', ''webdriver'', ''puppeteer'', ''playwright''],
      uaf_strictBlocked = [''curl/'', ''wget/'', ''python-requests'', ''scrapy'', ''httpclient'', ''go-http-client''],
      uaf_customBlocked = filter (\<lambda>t. t \<noteq> []) (map (\<lambda>t. ToLower (TrimSpace t)) customBlocked)\<rparr>"

definition UABlocked :: "UAFilter \<Rightarrow> string \<Rightarrow> bool" where
  "UABlocked f userAgent =
     (let ua = ToLower (TrimSpace userAgent) in
      if ua = [] then False
      else (\<exists>token \<in> set (uaf_builtInBlocked f). Contains ua token) \<or>
           (uaf_strict f \<and> (\<exists>token \<in> set (uaf_strictBlocked f). Contains ua token)) \<or>
           (\<exists>token \<in> set (uaf_customBlocked f). Contains ua token))"

section \<open>Basic authentication\<close>

record hashes =
  ha_sha256 :: "string \<Rightarrow> string"
  ha_bcrypt_ok :: "string \<Rightarrow> string \<Rightarrow> bool"

definition ValidBasicAuth :: "hashes \<Rightarrow> Request \<Rightarrow> string \<Rightarrow> string \<Rightarrow> bool" where
  "ValidBasicAuth ha r username password =
     (case rq_BasicAuth r of
        None \<Rightarrow> False
      | Some (providedUser, providedPass) \<Rightarrow>
          ha_sha256 ha providedUser = ha_sha256 ha username \<and>
          ha_sha256 ha providedPass = ha_sha256 ha password)"

definition ValidBasicAuthUsers :: "hashes \<Rightarrow> Request \<Rightarrow> BasicAuthConfig option \<Rightarrow> bool" where
  "ValidBasicAuthUsers ha r auth =
     (case auth of
        None \<Rightarrow> True
      | Some a \<Rightarrow>
          if length (bac_Users a) = 0 then True
          else case rq_BasicAuth r of
            None \<Rightarrow> False
          | Some (providedUser, providedPass) \<Rightarrow>
              (\<exists>user \<in> set (bac_Users a).
                 ha_sha256 ha providedUser = ha_sha256 ha (bau_Username user) \<and>
                 ha_bcrypt_ok ha (bau_Password user) providedPass))"

section \<open>Web application firewall\<close>

definition WAFModeDetection :: string where "WAFModeDetection = ''detection''"
definition WAFModeEnforcement :: string where "WAFModeEnforcement = ''enforcement''"

record WAFResult =
  wr_Detected :: bool
  wr_Blocked :: bool
  wr_Status :: int

text \<open>The engine: compiling directives, and the phases of a transaction, each with the status of an
  interruption if there is one.\<close>

record 'g waf_engine =
  we_build :: "string \<Rightarrow> string + 'g"
  we_headers :: "'g \<Rightarrow> Request \<Rightarrow> string \<Rightarrow> int option"
  we_body_accessible :: "'g \<Rightarrow> bool"
  we_write_body :: "'g \<Rightarrow> Request \<Rightarrow> string \<Rightarrow> string \<Rightarrow> string + int option"
  we_process_body :: "'g \<Rightarrow> Request \<Rightarrow> string \<Rightarrow> string + int option"
  we_matched :: "'g \<Rightarrow> Request \<Rightarrow> string \<Rightarrow> nat"

record 'g WAF =
  waf_base :: "'g gomap"
  waf_cache :: "'g gomap"

definition normalizeWAFMode :: "string \<Rightarrow> string" where
  "normalizeWAFMode mode =
     (if ToLower (TrimSpace mode) = WAFModeEnforcement then WAFModeEnforcement else WAFModeDetection)"

definition normalizeRules :: "string list \<Rightarrow> string list" where
  "normalizeRules customRules = sort (filter (\<lambda>r. r \<noteq> []) (map TrimSpace customRules))"

definition interruptionStatus :: "int \<Rightarrow> int" where
  "interruptionStatus status = (if status \<ge> 400 then status else 403)"

definition hostOnly :: "string \<Rightarrow> string" where
  "hostOnly hostport =
     (let h = TrimSpace hostport in case SplitHostPort h of Some (host, _) \<Rightarrow> host | None \<Rightarrow> h)"

definition newline :: string where
  "newline = [CHR 0x0A]"

definition directives :: "string \<Rightarrow> string list \<Rightarrow> string" where
  "directives mode customRules =
     ''SecRuleEngine '' @ (if normalizeWAFMode mode = WAFModeDetection then ''DetectionOnly'' else ''On'') @ newline @
     concat (map (\<lambda>rule. rule @ newline) (normalizeRules customRules))"

definition buildCorazaWAF :: "'g waf_engine \<Rightarrow> string \<Rightarrow> string list \<Rightarrow> string + 'g" where
  "buildCorazaWAF we mode customRules = we_build we (directives mode customRules)"

definition NewWAF :: "'g waf_engine \<Rightarrow> string + 'g WAF" where
  "NewWAF we =
     (case buildCorazaWAF we WAFModeDetection [] of
        Inl err \<Rightarrow> Inl err
      | Inr baseDetection \<Rightarrow>
          (case buildCorazaWAF we WAFModeEnforcement [] of
             Inl err \<Rightarrow> Inl err
           | Inr baseEnforcement \<Rightarrow>
               Inr \<lparr>waf_base = [(WAFModeDetection, baseDetection), (WAFModeEnforcement, baseEnforcement)],
                    waf_cache = []\<rparr>))"

definition wafForRules :: "'g waf_engine \<Rightarrow> string \<Rightarrow> string list \<Rightarrow> 'g WAF \<Rightarrow> (string + 'g) \<times> 'g WAF" where
  "wafForRules we mode customRules w =
     (case map_of (waf_base w) mode of
        None \<Rightarrow> (Inl (''waf base mode '' @ mode @ '' is unavailable''), w)
      | Some baseWAF \<Rightarrow>
          (let rules = normalizeRules customRules in
           if rules = [] then (Inr baseWAF, w)
           else let key = mode @ newline @ Join rules newline in
             case map_of (waf_cache w) key of
               Some cached \<Rightarrow> (Inr cached, w)
             | None \<Rightarrow>
                 (case buildCorazaWAF we mode rules of
                    Inl err \<Rightarrow> (Inl err, w)
                  | Inr built \<Rightarrow> (Inr built, w\<lparr>waf_cache := AList.update key built (waf_cache w)\<rparr>))))"

definition interrupted :: "string \<Rightarrow> int \<Rightarrow> WAFResult" where
  "interrupted mode status =
     (if mode = WAFModeEnforcement
      then \<lparr>wr_Detected = False, wr_Blocked = True, wr_Status = interruptionStatus status\<rparr>
      else \<lparr>wr_Detected = True, wr_Blocked = False, wr_Status = 0\<rparr>)"

definition zero_WAFResult :: WAFResult where
  "zero_WAFResult = \<lparr>wr_Detected = False, wr_Blocked = False, wr_Status = 0\<rparr>"

definition process_body :: "'g waf_engine \<Rightarrow> 'g \<Rightarrow> Request \<Rightarrow> string \<Rightarrow> string \<Rightarrow> string + WAFResult" where
  "process_body we g r client mode =
     (case we_process_body we g r client of
        Inl err \<Rightarrow> Inl err
      | Inr (Some status) \<Rightarrow> Inr (interrupted mode status)
      | Inr None \<Rightarrow>
          if mode = WAFModeDetection \<and> we_matched we g r client > 0
          then Inr \<lparr>wr_Detected = True, wr_Blocked = False, wr_Status = 0\<rparr>
          else Inr zero_WAFResult)"

definition waf_transaction :: "'g waf_engine \<Rightarrow> 'g \<Rightarrow> Request \<Rightarrow> string \<Rightarrow> string \<Rightarrow> string + WAFResult" where
  "waf_transaction we g r client mode =
     (case we_headers we g r client of
        Some status \<Rightarrow> Inr (interrupted mode status)
      | None \<Rightarrow>
          (case rq_Body r of
             None \<Rightarrow> process_body we g r client mode
           | Some (Inl readErr) \<Rightarrow> Inl readErr
           | Some (Inr body) \<Rightarrow>
               if we_body_accessible we g \<and> length body > 0 then
                 (case we_write_body we g r client body of
                    Inl writeErr \<Rightarrow> Inl writeErr
                  | Inr (Some status) \<Rightarrow> Inr (interrupted mode status)
                  | Inr None \<Rightarrow> process_body we g r client mode)
               else process_body we g r client mode))"

definition WAF_Evaluate :: "'g waf_engine \<Rightarrow> Request \<Rightarrow> string \<Rightarrow> string \<Rightarrow> string list \<Rightarrow> 'g WAF
    \<Rightarrow> (string + WAFResult) \<times> 'g WAF" where
  "WAF_Evaluate we r clientIP rawMode customRules w =
     (let mode = normalizeWAFMode rawMode;
          client = (if TrimSpace clientIP = [] then ''0.0.0.0'' else TrimSpace clientIP) in
      case wafForRules we mode customRules w of
        (Inl err, w') \<Rightarrow> (Inl err, w')
      | (Inr g, w') \<Rightarrow> (waf_transaction we g r client mode, w'))"

section \<open>Lemmas\<close>

lemma parseCIDRs_Nil:
  "parseCIDRs raws = Inr nets \<Longrightarrow> nets = [] \<longleftrightarrow> (\<forall>raw \<in> set raws. TrimSpace raw = [])"
proof (induction raws arbitrary: nets)
  case (Cons raw raws)
  then show ?case
    by (cases "parseCIDRs raws") (auto simp: Let_def split: if_splits option.splits)
qed simp

lemma parseCIDRs_mem:
  "parseCIDRs raws = Inr nets \<Longrightarrow> raw \<in> set raws \<Longrightarrow> ParseCIDR (TrimSpace raw) = Some network \<Longrightarrow> network \<in> set nets"
proof (induction raws arbitrary: nets)
  case (Cons r raws)
  have e: "ParseCIDR [] = None" by (simp add: ParseCIDR_def Cut_def)
  have "\<exists>rest. parseCIDRs raws = Inr rest \<and> set rest \<subseteq> set nets"
    using Cons.prems(1) by (cases "parseCIDRs raws") (auto simp: Let_def split: if_splits option.splits)
  then obtain rest where rest: "parseCIDRs raws = Inr rest" "set rest \<subseteq> set nets" by blast
  show ?case
  proof (cases "raw = r")
    case True
    with Cons.prems(3) e have "TrimSpace r \<noteq> []" by auto
    with True Cons.prems rest(1) show ?thesis by (auto simp: Let_def)
  next
    case False
    with Cons.prems(2) have "raw \<in> set raws" by simp
    from Cons.IH[OF rest(1) this Cons.prems(3)] rest(2) show ?thesis by blast
  qed
qed simp

lemma normalizeRules_idem: "normalizeRules (normalizeRules rs) = normalizeRules rs"
proof -
  let ?n = "filter (\<lambda>r. r \<noteq> []) (map TrimSpace rs)"
  have "map TrimSpace (sort ?n) = sort ?n" by (rule map_idI) auto
  moreover have "filter (\<lambda>r. r \<noteq> []) (sort ?n) = sort ?n" by (rule filter_True) auto
  ultimately have "normalizeRules (normalizeRules rs) = sort (sort ?n)" by (simp only: normalizeRules_def)
  then show ?thesis by (simp only: normalizeRules_def sorted_sort_id[OF sorted_sort])
qed

lemma concat_lines: "rs \<noteq> [] \<Longrightarrow> concat (map (\<lambda>r. r @ newline) rs) = Join rs newline @ newline"
  by (induction rs rule: induct_list012) simp_all

text \<open>The directives depend only on the cache key, so a cached engine is the one that building would
  give.\<close>

definition waf_key :: "string \<Rightarrow> string list \<Rightarrow> string" where
  "waf_key mode rules = mode @ newline @ Join (normalizeRules rules) newline"

lemma waf_key_directives:
  assumes "m1 \<in> {WAFModeDetection, WAFModeEnforcement}" and "m2 \<in> {WAFModeDetection, WAFModeEnforcement}"
    and "waf_key m1 r1 = waf_key m2 r2" and "normalizeRules r1 \<noteq> []" and "normalizeRules r2 \<noteq> []"
  shows "directives m1 r1 = directives m2 r2"
proof -
  have "m1 = m2 \<and> Join (normalizeRules r1) newline = Join (normalizeRules r2) newline"
    using assms(1-3) by (auto simp: waf_key_def WAFModeDetection_def WAFModeEnforcement_def)
  with concat_lines[OF assms(4)] concat_lines[OF assms(5)] show ?thesis by (simp add: directives_def)
qed

definition waf_inv :: "'g waf_engine \<Rightarrow> 'g WAF \<Rightarrow> bool" where
  "waf_inv we w \<longleftrightarrow>
     (\<forall>mode \<in> {WAFModeDetection, WAFModeEnforcement}.
        \<exists>g. map_of (waf_base w) mode = Some g \<and> buildCorazaWAF we mode [] = Inr g) \<and>
     (\<forall>key g. map_of (waf_cache w) key = Some g \<longrightarrow>
        (\<exists>mode \<in> {WAFModeDetection, WAFModeEnforcement}. \<exists>rules. key = waf_key mode rules \<and>
           normalizeRules rules \<noteq> [] \<and> buildCorazaWAF we mode rules = Inr g))"

lemma NewWAF_inv: "NewWAF we = Inr w \<Longrightarrow> waf_inv we w"
  by (auto simp: NewWAF_def waf_inv_def WAFModeDetection_def WAFModeEnforcement_def split: sum.splits)

lemma normalizeWAFMode_values: "normalizeWAFMode m \<in> {WAFModeDetection, WAFModeEnforcement}"
  by (simp add: normalizeWAFMode_def)

lemma wafForRules_spec:
  assumes "waf_inv we w" and "mode \<in> {WAFModeDetection, WAFModeEnforcement}"
  shows "fst (wafForRules we mode rules w) = buildCorazaWAF we mode rules \<and> waf_inv we (snd (wafForRules we mode rules w))"
proof -
  from assms obtain g where g: "map_of (waf_base w) mode = Some g" "buildCorazaWAF we mode [] = Inr g"
    unfolding waf_inv_def by blast
  let ?n = "normalizeRules rules"
  have build: "buildCorazaWAF we mode ?n = buildCorazaWAF we mode rules"
    by (simp add: buildCorazaWAF_def directives_def normalizeRules_idem)
  show ?thesis
  proof (cases "?n = []")
    case True
    then have "buildCorazaWAF we mode rules = buildCorazaWAF we mode []"
      by (simp add: buildCorazaWAF_def directives_def) (simp add: normalizeRules_def)
    with True g assms(1) show ?thesis by (simp add: wafForRules_def)
  next
    case False
    note ne = False
    show ?thesis
    proof (cases "map_of (waf_cache w) (waf_key mode rules)")
      case (Some c)
      with assms(1) obtain m r where mr: "m \<in> {WAFModeDetection, WAFModeEnforcement}" "waf_key mode rules = waf_key m r"
        "normalizeRules r \<noteq> []" "buildCorazaWAF we m r = Inr c" unfolding waf_inv_def by blast
      from waf_key_directives[OF assms(2) mr(1,2) ne mr(3)] mr(4) have "buildCorazaWAF we mode rules = Inr c"
        by (simp add: buildCorazaWAF_def)
      with Some g ne assms(1) show ?thesis by (simp add: wafForRules_def waf_key_def)
    next
      case None
      show ?thesis
      proof (cases "buildCorazaWAF we mode rules")
        case (Inl err)
        with None g ne assms(1) build show ?thesis by (simp add: wafForRules_def waf_key_def)
      next
        case (Inr b)
        with None g ne build have "wafForRules we mode rules w =
            (Inr b, w\<lparr>waf_cache := AList.update (waf_key mode rules) b (waf_cache w)\<rparr>)"
          by (simp add: wafForRules_def waf_key_def)
        moreover have "waf_inv we (w\<lparr>waf_cache := AList.update (waf_key mode rules) b (waf_cache w)\<rparr>)"
          using assms ne Inr unfolding waf_inv_def by (auto simp: go_map)
        ultimately show ?thesis using Inr by simp
      qed
    qed
  qed
qed

lemma waf_transaction_blocked:
  "waf_transaction we g r client mode = Inr res \<Longrightarrow> wr_Blocked res \<Longrightarrow> mode = WAFModeEnforcement \<and> wr_Status res \<ge> 400"
  by (auto simp: waf_transaction_def process_body_def interrupted_def interruptionStatus_def zero_WAFResult_def
      split: option.splits sum.splits if_splits)

section \<open>Properties\<close>

text \<open>
  An IPv4 network entry means its prefix. For an entry \<open>address/n\<close> with an IPv4 address and
  \<open>n \<le> 32\<close>, \<open>ParseCIDR\<close> succeeds, and the network contains exactly the IPv4 addresses, in
  whichever of the two written forms, whose first \<open>n\<close> bits are those of the entry.
\<close>

theorem ipv4_cidr_exact:
  assumes "Cut entry (CHR ''/'') = (addr, m, True)" and "parseIPv4 addr = Some b" and "dtoi m = Some n" and "n \<le> 32"
    and "CHR ''%'' \<notin> set addr" and "CHR '':'' \<notin> set addr"
  shows "\<exists>network. ParseCIDR entry = Some network \<and> (\<forall>ip. net_Contains network ip \<longleftrightarrow>
    (\<exists>x. To4 ip = Some x \<and> (\<forall>i < nat n. addr_bit x i = addr_bit b i)))"
proof -
  have "length b = 4" using assms(2) by (rule parseIPv4_length)
  moreover have "nat n \<le> 32" using assms(4) by simp
  ultimately show ?thesis using ParseCIDR_v4[OF assms] v4_net_Contains[of b "nat n"] by blast
qed

theorem ipv4_cidr_exact_witness:
  "\<exists>network. ParseCIDR ''10.1.0.0/16'' = Some network \<and> net_Contains network (v4InV6Prefix @ [10, 1, 7, 9])"
proof -
  have "Cut ''10.1.0.0/16'' (CHR ''/'') = (''10.1.0.0'', ''16'', True)" by code_simp
  moreover have "parseIPv4 ''10.1.0.0'' = Some [10, 1, 0, 0]" by code_simp
  moreover have "dtoi ''16'' = Some 16" by code_simp
  ultimately obtain network where n: "ParseCIDR ''10.1.0.0/16'' = Some network"
    and c: "\<forall>ip. net_Contains network ip \<longleftrightarrow> (\<exists>x. To4 ip = Some x \<and> (\<forall>i < nat 16. addr_bit x i = addr_bit [10, 1, 0, 0] i))"
    using ipv4_cidr_exact[of "''10.1.0.0/16''" "''10.1.0.0''" "''16''" "[10, 1, 0, 0]" 16] by auto
  have "To4 (v4InV6Prefix @ [10, 1, 7, 9]) = Some [10, 1, 7, 9]" by (simp add: To4_def v4InV6Prefix_def)
  moreover have "\<forall>i < 16. addr_bit [10, 1, 7, 9] i = addr_bit [10, 1, 0, 0] i"
    by (auto simp: addr_bit_def nth_Cons split: nat.splits)
  ultimately show ?thesis using n c by auto
qed

text \<open>
  The filter of a deployment enforces its lists. When a client with a readable address is let
  through, both lists were readable, the address is in no network of the deny list, and it is in
  a network of the allow list unless that has no entry; a list that cannot be read lets nobody
  through.
\<close>

theorem deployment_filter_enforces:
  assumes "EvaluateDeployment client (Some sc) = IPFilterAllowed" and "ParseIP (TrimSpace client) = Some ip"
  shows "\<exists>deny allow. parseCIDRs (sc_IPDenylist sc) = Inr deny \<and> parseCIDRs (sc_IPAllowlist sc) = Inr allow \<and>
    (\<forall>network \<in> set deny. \<not> net_Contains network ip) \<and>
    ((\<forall>raw \<in> set (sc_IPAllowlist sc). TrimSpace raw = []) \<or> (\<exists>network \<in> set allow. net_Contains network ip)) \<and>
    (\<forall>raw \<in> set (sc_IPDenylist sc). \<forall>network. ParseCIDR (TrimSpace raw) = Some network \<longrightarrow> \<not> net_Contains network ip)"
proof -
  from assms(1) obtain deny allow where d: "parseCIDRs (sc_IPDenylist sc) = Inr deny"
    and a: "parseCIDRs (sc_IPAllowlist sc) = Inr allow"
    and e: "evaluateIPNetworks client deny allow = IPFilterAllowed"
    by (auto simp: EvaluateDeployment_def split: sum.splits)
  from e assms(2) have deny: "\<forall>network \<in> set deny. \<not> net_Contains network ip"
    and allow: "allow = [] \<or> (\<exists>network \<in> set allow. net_Contains network ip)"
    by (auto simp: evaluateIPNetworks_def ipInNetworks_def split: if_splits)
  have "\<forall>raw \<in> set (sc_IPDenylist sc). \<forall>network. ParseCIDR (TrimSpace raw) = Some network \<longrightarrow> \<not> net_Contains network ip"
    using parseCIDRs_mem[OF d] deny by blast
  with d a deny allow parseCIDRs_Nil[OF a] show ?thesis by blast
qed

definition sec0 :: SecurityConfig where
  "sec0 = \<lparr>sc_WAFEnabled = True, sc_WAFMode = ''enforcement'', sc_IPDenylist = [''10.0.0.0/8''],
     sc_IPAllowlist = ['' 192.168.1.7 ''], sc_CustomRules = []\<rparr>"

theorem deployment_filter_enforces_witness:
  "\<exists>allow. parseCIDRs (sc_IPAllowlist sec0) = Inr allow \<and>
    (\<exists>network \<in> set allow. net_Contains network (v4InV6Prefix @ [192, 168, 1, 7]))"
proof -
  have "EvaluateDeployment ''192.168.1.7'' (Some sec0) = IPFilterAllowed" by code_simp
  moreover have "ParseIP (TrimSpace ''192.168.1.7'') = Some (v4InV6Prefix @ [192, 168, 1, 7])" by code_simp
  ultimately have "(\<exists>deny allow. parseCIDRs (sc_IPDenylist sec0) = Inr deny \<and> parseCIDRs (sc_IPAllowlist sec0) = Inr allow \<and>
      ((\<forall>raw \<in> set (sc_IPAllowlist sec0). TrimSpace raw = []) \<or>
       (\<exists>network \<in> set allow. net_Contains network (v4InV6Prefix @ [192, 168, 1, 7]))))"
    using deployment_filter_enforces by blast
  moreover have "TrimSpace '' 192.168.1.7 '' = ''192.168.1.7''" by code_simp
  then have "\<not> (\<forall>raw \<in> set (sc_IPAllowlist sec0). TrimSpace raw = [])" by (simp add: sec0_def)
  ultimately show ?thesis by blast
qed

text \<open>
  The firewall's cache does not change its answers. On a firewall whose cache was filled by
  earlier evaluations, an evaluation answers exactly as one with an engine freshly built for its
  mode and rules, and keeps the cache so; it blocks only in enforcement mode, with a status of at
  least 400.
\<close>

theorem waf_cache_transparent:
  assumes "waf_inv we w"
  shows "fst (WAF_Evaluate we r client mode rules w) =
      (case buildCorazaWAF we (normalizeWAFMode mode) rules of
         Inl err \<Rightarrow> Inl err
       | Inr g \<Rightarrow> waf_transaction we g r (if TrimSpace client = [] then ''0.0.0.0'' else TrimSpace client)
           (normalizeWAFMode mode)) \<and>
    waf_inv we (snd (WAF_Evaluate we r client mode rules w)) \<and>
    (\<forall>res. fst (WAF_Evaluate we r client mode rules w) = Inr res \<and> wr_Blocked res \<longrightarrow>
      ToLower (TrimSpace mode) = ''enforcement'' \<and> wr_Status res \<ge> 400)"
proof -
  let ?f = "wafForRules we (normalizeWAFMode mode) rules w"
  note spec = wafForRules_spec[OF assms normalizeWAFMode_values, of mode rules]
  obtain x w' where f: "?f = (x, w')" by fastforce
  with spec have x: "x = buildCorazaWAF we (normalizeWAFMode mode) rules" and i: "waf_inv we w'" by auto
  have m: "normalizeWAFMode mode = WAFModeEnforcement \<Longrightarrow> ToLower (TrimSpace mode) = ''enforcement''"
  proof -
    assume *: "normalizeWAFMode mode = WAFModeEnforcement"
    have "WAFModeDetection \<noteq> WAFModeEnforcement" by (simp add: WAFModeDetection_def WAFModeEnforcement_def)
    with * have "ToLower (TrimSpace mode) = WAFModeEnforcement" unfolding normalizeWAFMode_def by metis
    then show ?thesis by (simp only: WAFModeEnforcement_def)
  qed
  let ?c = "if TrimSpace client = [] then ''0.0.0.0'' else TrimSpace client"
  have E: "WAF_Evaluate we r client mode rules w = (case x of Inl err \<Rightarrow> (Inl err, w')
      | Inr g \<Rightarrow> (waf_transaction we g r ?c (normalizeWAFMode mode), w'))"
    by (simp only: WAF_Evaluate_def Let_def f prod.case)
  show ?thesis
  proof (cases x)
    case (Inl err)
    with i show ?thesis unfolding E x[symmetric] by simp
  next
    case (Inr g)
    have "waf_transaction we g r ?c (normalizeWAFMode mode) = Inr res \<and> wr_Blocked res \<longrightarrow>
        ToLower (TrimSpace mode) = ''enforcement'' \<and> wr_Status res \<ge> 400" for res
    proof (intro impI, elim conjE)
      assume "waf_transaction we g r ?c (normalizeWAFMode mode) = Inr res" "wr_Blocked res"
      from waf_transaction_blocked[OF this] m
      show "ToLower (TrimSpace mode) = ''enforcement'' \<and> wr_Status res \<ge> 400" by blast
    qed
    with i show ?thesis unfolding E x[symmetric] Inr sum.case fst_conv snd_conv by blast
  qed
qed

text \<open>An engine for the witness: it compiles every text to itself and interrupts nothing.\<close>

definition waf_engine0 :: "string waf_engine" where
  "waf_engine0 = \<lparr>we_build = Inr, we_headers = (\<lambda>_ _ _. None), we_body_accessible = (\<lambda>_. True),
     we_write_body = (\<lambda>_ _ _ _. Inr None), we_process_body = (\<lambda>_ _ _. Inr None), we_matched = (\<lambda>_ _ _. 0)\<rparr>"

definition request0 :: Request where
  "request0 = \<lparr>rq_Host = ''web.example.com:443'', rq_Method = ''GET'', rq_Path = ''/'', rq_RawQuery = [],
     rq_RemoteAddr = ''192.168.1.7:5000'', rq_ForwardedFor = [], rq_UserAgent = ''Mozilla/5.0'',
     rq_BasicAuth = None, rq_TokenCookie = None, rq_Body = None\<rparr>"

definition waf0 :: "string WAF" where
  "waf0 = \<lparr>waf_base = [(WAFModeDetection, directives WAFModeDetection []),
     (WAFModeEnforcement, directives WAFModeEnforcement [])], waf_cache = []\<rparr>"

lemma waf0_inv: "waf_inv waf_engine0 waf0"
  by (rule NewWAF_inv) (simp add: NewWAF_def buildCorazaWAF_def waf_engine0_def waf0_def)

theorem waf_cache_transparent_witness:
  "waf_inv waf_engine0 (snd (WAF_Evaluate waf_engine0 request0 [] ''Enforcement'' [''SecRule A''] waf0))"
  using waf_cache_transparent[OF waf0_inv] by blast

end
