(* ===== verification/Proxy.thy ===== *)
theory Proxy
  imports Filters Poller
begin

text \<open>
  The proxy's request handler, \<open>src/proxy/internal/handler\<close>: the scanner limiter, the path rules of
  the hardening profiles, the client address, the whole chain of checks in front of the reverse
  proxy, the internal route API and the access log ring buffer.

  Times are nanoseconds since Go's zero time, so a clock reading is positive. The fields of the
  handler that do not change are \<open>Handler\<close>, those that do are \<open>proxy_state\<close>. The reverse proxy
  itself is the standard library's; a request that reaches it is a \<open>Forward\<close>. The token check is
  that of the \<open>auth\<close> module and a parameter here. The limiter's mutex and the atomic counters make
  each of their operations atomic.
\<close>

section \<open>Hardening profiles\<close>

definition HardeningOff :: string where "HardeningOff = ''off''"
definition HardeningStandard :: string where "HardeningStandard = ''standard''"
definition HardeningStrict :: string where "HardeningStrict = ''strict''"

definition normalizeHardeningProfile :: "string \<Rightarrow> string" where
  "normalizeHardeningProfile profile =
     (let p = ToLower (TrimSpace profile) in
      if p = HardeningOff then HardeningOff
      else if p = HardeningStrict then HardeningStrict
      else HardeningStandard)"

definition hasPathPrefix :: "string \<Rightarrow> string \<Rightarrow> bool" where
  "hasPathPrefix path prefix =
     (if path = prefix then True
      else if HasPrefix path (prefix @ ''/'') then True
      else if prefix = ''/.env'' \<and> HasPrefix path ''/.env.'' then True
      else False)"

definition shouldBlockPath :: "string \<Rightarrow> string \<Rightarrow> bool" where
  "shouldBlockPath path profile =
     (if normalizeHardeningProfile profile = HardeningOff then False
      else
        (let q = ToLower (TrimSpace path); p = (if q = [] then ''/'' else q) in
         if \<exists>prefix \<in> set [''/.git'', ''/.env'', ''/.vscode'', ''/.idea'', ''/.aws'', ''/.ssh'', ''/.svn'', ''/.hg''].
              hasPathPrefix p prefix then True
         else if p \<in> set [''/.ds_store'', ''/docker-compose.yml'', ''/docker-compose.yaml''] then True
         else if normalizeHardeningProfile profile \<noteq> HardeningStrict then False
         else if \<exists>prefix \<in> set [''/wp-admin'', ''/wp-includes'', ''/actuator'', ''/swagger'', ''/api-docs'', ''/debug'',
              ''/telescope'', ''/server-status'', ''/phpmyadmin'']. hasPathPrefix p prefix then True
         else if p \<in> set [''/wp-login.php'', ''/xmlrpc.php'', ''/info.php'', ''/phpinfo.php'', ''/v2/_catalog''] then True
         else if \<exists>prefix \<in> set [''/swagger-'', ''/v2/api-docs'', ''/v3/api-docs'']. HasPrefix p prefix then True
         else False))"

section \<open>The scanner limiter\<close>

record scannerEntry =
  sn_windowStart :: int
  sn_count :: int
  sn_blockedUntil :: int

record scannerLimiter =
  sl_entries :: "scannerEntry gomap"
  sl_window :: int
  sl_threshold :: int
  sl_blockFor :: int
  sl_totalRequests :: int
  sl_suspiciousRequests :: int
  sl_blockedRequests :: int

definition minute :: int where
  "minute = 60000000000"

definition newScannerLimiter :: "string \<Rightarrow> scannerLimiter option" where
  "newScannerLimiter profile =
     (let l = \<lparr>sl_entries = [], sl_window = minute, sl_threshold = 12, sl_blockFor = 10 * minute,
                sl_totalRequests = 0, sl_suspiciousRequests = 0, sl_blockedRequests = 0\<rparr> in
      if normalizeHardeningProfile profile = HardeningOff then None
      else if normalizeHardeningProfile profile = HardeningStrict
      then Some (l\<lparr>sl_threshold := 6, sl_blockFor := 15 * minute\<rparr>)
      else Some l)"

definition IsBlocked :: "string \<Rightarrow> int \<Rightarrow> scannerLimiter \<Rightarrow> bool \<times> scannerLimiter" where
  "IsBlocked ip now l =
     (case map_of (sl_entries l) ip of
        None \<Rightarrow> (False, l)
      | Some e \<Rightarrow>
          if now < sn_blockedUntil e then (True, l)
          else if sn_blockedUntil e \<noteq> 0 then
            (False, l\<lparr>sl_entries := AList.update ip
               (e\<lparr>sn_blockedUntil := 0, sn_windowStart := now, sn_count := 0\<rparr>) (sl_entries l)\<rparr>)
          else (False, l))"

definition suspicious_entry :: "scannerLimiter \<Rightarrow> int \<Rightarrow> scannerEntry \<Rightarrow> scannerEntry" where
  "suspicious_entry l now e0 =
     (let e1 = (if sn_windowStart e0 = 0 \<or> now - sn_windowStart e0 > sl_window l
                then e0\<lparr>sn_windowStart := now, sn_count := 0\<rparr> else e0);
          e2 = e1\<lparr>sn_count := sn_count e1 + 1\<rparr> in
      if sn_count e2 \<ge> sl_threshold l
      then e2\<lparr>sn_blockedUntil := now + sl_blockFor l, sn_windowStart := now, sn_count := 0\<rparr>
      else e2)"

definition RecordSuspicious :: "string \<Rightarrow> int \<Rightarrow> scannerLimiter \<Rightarrow> scannerLimiter" where
  "RecordSuspicious ip now l0 =
     (let l = l0\<lparr>sl_suspiciousRequests := sl_suspiciousRequests l0 + 1\<rparr> in
      if ip = [] then l
      else
        (let e = (case map_of (sl_entries l) ip of
                    None \<Rightarrow> \<lparr>sn_windowStart = 0, sn_count = 0, sn_blockedUntil = 0\<rparr> | Some e \<Rightarrow> e) in
         l\<lparr>sl_entries := AList.update ip (suspicious_entry l now e) (sl_entries l)\<rparr>))"

definition RecordRequest :: "scannerLimiter \<Rightarrow> scannerLimiter" where
  "RecordRequest l = l\<lparr>sl_totalRequests := sl_totalRequests l + 1\<rparr>"

definition RecordBlockedRequest :: "scannerLimiter \<Rightarrow> scannerLimiter" where
  "RecordBlockedRequest l = l\<lparr>sl_blockedRequests := sl_blockedRequests l + 1\<rparr>"

record trafficStatus =
  ts_TotalRequests :: int
  ts_SuspiciousRequests :: int
  ts_BlockedRequests :: int
  ts_ActiveBlockedIPs :: nat
  ts_BlockedIPs :: "(string \<times> int) list"

text \<open>The blocked addresses, the longest blocked first, equal ones by address.\<close>

definition Snapshot :: "(scannerEntry gomap \<Rightarrow> scannerEntry gomap) \<Rightarrow> int \<Rightarrow> scannerLimiter \<Rightarrow> trafficStatus" where
  "Snapshot ord now l =
     (let blocked = concat (map (\<lambda>(ip, e). if now < sn_blockedUntil e then [(ip, sn_blockedUntil e)] else [])
                             (ord (sl_entries l)));
          sorted = sort_key (\<lambda>(ip, _). ip) blocked;
          sorted' = sort_key (\<lambda>(_, t). - t) sorted in
      \<lparr>ts_TotalRequests = sl_totalRequests l, ts_SuspiciousRequests = sl_suspiciousRequests l,
       ts_BlockedRequests = sl_blockedRequests l, ts_ActiveBlockedIPs = length blocked, ts_BlockedIPs = sorted'\<rparr>)"

section \<open>The client address\<close>

definition clientIP :: "Request \<Rightarrow> string" where
  "clientIP r =
     (let forwarded = TrimSpace (rq_ForwardedFor r);
          first = TrimSpace (hd (Split forwarded (CHR '','')));
          remote = TrimSpace (rq_RemoteAddr r) in
      if forwarded \<noteq> [] \<and> ParseIP first \<noteq> None then first
      else case SplitHostPort remote of
          Some (host, _) \<Rightarrow>
            if ParseIP host \<noteq> None then host
            else if ParseIP remote \<noteq> None then remote else []
        | None \<Rightarrow> if ParseIP remote \<noteq> None then remote else [])"

definition request_host :: "Request \<Rightarrow> string" where
  "request_host r =
     normalizeDomain (case SplitHostPort (rq_Host r) of Some (bare, _) \<Rightarrow> bare | None \<Rightarrow> rq_Host r)"

section \<open>The handler\<close>

record DashboardWAFConfig =
  dw_Mode :: string
  dw_IPAllowlist :: "string list"
  dw_CustomRules :: "string list"

record 'g Handler =
  hd_dashboardDomain :: "string option"
  hd_dashboardAccess :: string
  hd_dashboardResolve :: "string option"
  hd_dashboardWAF :: DashboardWAFConfig
  hd_dashboardWAFLoad :: "DashboardWAFConfig option"
  hd_authCookieDomain :: string
  hd_hardening :: string
  hd_ipFilter :: "IPFilter option"
  hd_uaFilter :: "UAFilter option"
  hd_jwtSecret :: "string option"
  hd_hashes :: hashes
  hd_waf_engine :: "'g waf_engine"
  hd_validateToken :: "string \<Rightarrow> string \<Rightarrow> bool"

record 'g proxy_state =
  px_table :: Table
  px_scanner :: "scannerLimiter option"
  px_waf :: "'g WAF option"
  px_wafBlocked :: int
  px_uaBlocked :: int

datatype proxy_result =
    Reject int string
  | LoginRedirect
  | Forward string string

definition normalizeDashboardAccessMode :: "string \<Rightarrow> string" where
  "normalizeDashboardAccessMode mode =
     (let m = ToLower (TrimSpace mode) in
      if m = ''waf_only'' \<or> m = ''waf_and_login'' then m else ''login_only'')"

definition dashboardAccessMode :: "'g Handler \<Rightarrow> string" where
  "dashboardAccessMode h =
     (case hd_dashboardResolve h of
        Some m \<Rightarrow> normalizeDashboardAccessMode m
      | None \<Rightarrow> normalizeDashboardAccessMode (hd_dashboardAccess h))"

definition normalizeDashboardWAFConfig :: "DashboardWAFConfig \<Rightarrow> DashboardWAFConfig" where
  "normalizeDashboardWAFConfig cfg =
     (let mode = ToLower (TrimSpace (dw_Mode cfg)) in
      cfg\<lparr>dw_Mode := (if mode \<noteq> WAFModeEnforcement then WAFModeDetection else mode)\<rparr>)"

definition dashboardWAFConfig :: "'g Handler \<Rightarrow> DashboardWAFConfig" where
  "dashboardWAFConfig h =
     (case hd_dashboardWAFLoad h of
        Some c \<Rightarrow> normalizeDashboardWAFConfig c
      | None \<Rightarrow> normalizeDashboardWAFConfig (hd_dashboardWAF h))"

definition IncludesWAF :: "string \<Rightarrow> bool" where
  "IncludesWAF m =
     (normalizeDashboardAccessMode m = ''waf_only'' \<or> normalizeDashboardAccessMode m = ''waf_and_login'')"

definition is_dashboard :: "'g Handler \<Rightarrow> string \<Rightarrow> bool" where
  "is_dashboard h host = (hd_dashboardDomain h = Some host)"

definition validProxyToken :: "'g Handler \<Rightarrow> Request \<Rightarrow> bool" where
  "validProxyToken h r =
     (case hd_jwtSecret h of
        None \<Rightarrow> True
      | Some secret \<Rightarrow>
          if length secret = 0 then True
          else case rq_TokenCookie r of
            None \<Rightarrow> False
          | Some token \<Rightarrow> hd_validateToken h secret token)"

definition effectiveSecurity :: "'g Handler \<Rightarrow> string \<Rightarrow> Route \<Rightarrow> SecurityConfig option" where
  "effectiveSecurity h host route =
     (if is_dashboard h host
      then Some \<lparr>sc_WAFEnabled = False, sc_WAFMode = [], sc_IPDenylist = [],
                 sc_IPAllowlist = dw_IPAllowlist (dashboardWAFConfig h), sc_CustomRules = []\<rparr>
      else rt_Security route)"

definition applyWAF :: "'g Handler \<Rightarrow> string \<Rightarrow> Route \<Rightarrow> bool" where
  "applyWAF h host route =
     (if is_dashboard h host then IncludesWAF (dashboardAccessMode h)
      else case rt_Security route of None \<Rightarrow> True | Some sc \<Rightarrow> sc_WAFEnabled sc)"

definition waf_parameters :: "'g Handler \<Rightarrow> string \<Rightarrow> Route \<Rightarrow> string \<times> string list" where
  "waf_parameters h host route =
     (if is_dashboard h host then (dw_Mode (dashboardWAFConfig h), dw_CustomRules (dashboardWAFConfig h))
      else case rt_Security route of
        None \<Rightarrow> (WAFModeDetection, [])
      | Some sc \<Rightarrow> (sc_WAFMode sc, sc_CustomRules sc))"

text \<open>The firewall step: a result to stop with, or the outcome so far.\<close>

definition waf_step :: "'g Handler \<Rightarrow> Request \<Rightarrow> string \<Rightarrow> string \<Rightarrow> Route \<Rightarrow> 'g proxy_state
    \<Rightarrow> (proxy_result + string) \<times> 'g proxy_state" where
  "waf_step h r client host route s =
     (case px_waf s of
        None \<Rightarrow> (Inr ''proxied'', s)
      | Some w \<Rightarrow>
          if \<not> applyWAF h host route then (Inr ''proxied'', s)
          else case WAF_Evaluate (hd_waf_engine h) r client (fst (waf_parameters h host route))
                      (snd (waf_parameters h host route)) w of
              (Inl _, w') \<Rightarrow> (Inr ''proxied'', s\<lparr>px_waf := Some w'\<rparr>)
            | (Inr result, w') \<Rightarrow>
                if wr_Blocked result
                then (Inl (Reject (wr_Status result) ''waf_blocked''),
                      s\<lparr>px_waf := Some w', px_wafBlocked := px_wafBlocked s + 1\<rparr>)
                else (Inr (if wr_Detected result then ''waf_detected'' else ''proxied''), s\<lparr>px_waf := Some w'\<rparr>))"

definition auth_step :: "'g Handler \<Rightarrow> Request \<Rightarrow> string \<Rightarrow> Route \<Rightarrow> string \<Rightarrow> proxy_result" where
  "auth_step h r host route outcome =
     (if \<not> ValidBasicAuthUsers (hd_hashes h) r (rt_BasicAuth route) then Reject 401 ''unauthorized''
      else if \<not> rt_Public route \<and> hd_jwtSecret h \<noteq> None \<and> \<not> is_dashboard h host \<and> \<not> validProxyToken h r
      then (if hd_dashboardDomain h = None \<or> hd_authCookieDomain h = [] then Reject 401 ''unauthorized''
            else LoginRedirect)
      else Forward (rt_Upstream route) outcome)"

definition route_step :: "'g Handler \<Rightarrow> Request \<Rightarrow> string \<Rightarrow> string \<Rightarrow> Route \<Rightarrow> 'g proxy_state
    \<Rightarrow> proxy_result \<times> 'g proxy_state" where
  "route_step h r client host route s =
     (case (if hd_ipFilter h = None then IPFilterAllowed
            else EvaluateDeployment client (effectiveSecurity h host route)) of
        IPFilterDenied \<Rightarrow> (Reject 403 ''ip_denied'', s)
      | IPFilterNotAllowed \<Rightarrow> (Reject 403 ''ip_not_allowed'', s)
      | IPFilterAllowed \<Rightarrow>
          if (case hd_uaFilter h of None \<Rightarrow> False | Some f \<Rightarrow> UABlocked f (rq_UserAgent r))
          then (Reject 403 ''ua_blocked'', s\<lparr>px_uaBlocked := px_uaBlocked s + 1\<rparr>)
          else case waf_step h r client host route s of
              (Inl result, s') \<Rightarrow> (result, s')
            | (Inr outcome, s') \<Rightarrow> (auth_step h r host route outcome, s'))"

definition scanner_step :: "string \<Rightarrow> int \<Rightarrow> 'g proxy_state \<Rightarrow> bool \<times> 'g proxy_state" where
  "scanner_step client now s =
     (case px_scanner s of
        None \<Rightarrow> (False, s)
      | Some l0 \<Rightarrow>
          (let l1 = RecordRequest l0 in
           if client = [] then (False, s\<lparr>px_scanner := Some l1\<rparr>)
           else case IsBlocked client now l1 of (blocked, l2) \<Rightarrow>
             (blocked, s\<lparr>px_scanner := Some (if blocked then RecordBlockedRequest l2 else l2)\<rparr>)))"

definition proxy :: "'g Handler \<Rightarrow> int \<Rightarrow> Request \<Rightarrow> 'g proxy_state \<Rightarrow> proxy_result \<times> 'g proxy_state" where
  "proxy h now r s =
     (let client = clientIP r;
          (blocked, s1) = scanner_step client now s in
      if blocked then (Reject 429 ''rate_limited'', s1)
      else case (case hd_ipFilter h of None \<Rightarrow> IPFilterAllowed | Some f \<Rightarrow> EvaluateGlobal f client) of
          IPFilterDenied \<Rightarrow> (Reject 403 ''ip_denied'', s1)
        | IPFilterNotAllowed \<Rightarrow> (Reject 403 ''ip_not_allowed'', s1)
        | IPFilterAllowed \<Rightarrow>
            if shouldBlockPath (rq_Path r) (hd_hardening h)
            then (Reject 404 ''blocked_path'',
                  s1\<lparr>px_scanner := map_option (RecordSuspicious client now) (px_scanner s1)\<rparr>)
            else
              (let host = request_host r in
               case Table_Get host (px_table s1) of
                 None \<Rightarrow> (Reject 404 ''unknown_domain'', s1)
               | Some route \<Rightarrow> route_step h r client host route s1))"

section \<open>The internal API\<close>

definition setRoute :: "(string \<times> string) option \<Rightarrow> Table \<Rightarrow> int \<times> Table" where
  "setRoute body t =
     (case body of
        None \<Rightarrow> (400, t)
      | Some (domain, upstream) \<Rightarrow>
          if domain = [] \<or> upstream = [] then (400, t)
          else (204, Table_Set (normalizeDomain domain) upstream False None None t))"

definition accessLogLimit :: "string \<Rightarrow> int" where
  "accessLogLimit raw0 =
     (let raw = TrimSpace raw0 in
      if raw \<noteq> [] then
        (case Atoi raw of
           Some parsed \<Rightarrow> if parsed > 0 \<and> parsed \<le> 1000 then parsed else 200
         | None \<Rightarrow> 200)
      else 200)"

section \<open>The access log ring\<close>

record 'e AccessLogBuffer =
  al_entries :: "'e list"
  al_next :: nat
  al_count :: nat

definition NewAccessLogBuffer :: "int \<Rightarrow> 'e \<Rightarrow> 'e AccessLogBuffer" where
  "NewAccessLogBuffer capacity zero =
     \<lparr>al_entries = replicate (nat (if capacity \<le> 0 then 1000 else capacity)) zero, al_next = 0, al_count = 0\<rparr>"

definition Buffer_Log :: "'e \<Rightarrow> 'e AccessLogBuffer \<Rightarrow> 'e AccessLogBuffer" where
  "Buffer_Log entry b =
     \<lparr>al_entries = (al_entries b)[al_next b := entry],
      al_next = (al_next b + 1) mod length (al_entries b),
      al_count = (if al_count b < length (al_entries b) then al_count b + 1 else al_count b)\<rparr>"

definition Buffer_List :: "int \<Rightarrow> 'e AccessLogBuffer \<Rightarrow> 'e list" where
  "Buffer_List limit b =
     (if limit \<le> 0 then []
      else let n = (if limit > int (al_count b) then al_count b else nat limit) in
        map (\<lambda>i. al_entries b ! nat ((int (al_next b) - 1 - int i + int (length (al_entries b)))
                   mod int (length (al_entries b)))) [0..<n])"

section \<open>The ring as a bounded list\<close>

definition ring_inv :: "'e AccessLogBuffer \<Rightarrow> bool" where
  "ring_inv b \<longleftrightarrow> al_next b < length (al_entries b) \<and> al_count b \<le> length (al_entries b)"

text \<open>What the buffer holds, the newest entry first.\<close>

definition ring_view :: "'e AccessLogBuffer \<Rightarrow> 'e list" where
  "ring_view b = map (\<lambda>i. al_entries b ! ((al_next b + length (al_entries b) - 1 - i) mod length (al_entries b)))
     [0..<al_count b]"

lemma ring_index:
  assumes "i < n" and "n \<le> (len :: nat)"
  shows "nat ((int nx - 1 - int i + int len) mod int len) = (nx + len - 1 - i) mod len"
proof -
  have "int nx - 1 - int i + int len = int (nx + len - 1 - i)" using assms by auto
  then have "(int nx - 1 - int i + int len) mod int len = int ((nx + len - 1 - i) mod len)"
    by (simp only: zmod_int)
  then show ?thesis by (simp only: nat_int)
qed

lemma Buffer_List_view:
  assumes "ring_inv b"
  shows "Buffer_List limit b = take (nat limit) (ring_view b)"
proof (cases "limit \<le> 0")
  case False
  let ?n = "if limit > int (al_count b) then al_count b else nat limit"
  have n: "?n = min (nat limit) (al_count b)" using False by auto
  have "?n \<le> length (al_entries b)" using assms unfolding n ring_inv_def by linarith
  then have "nat ((int (al_next b) - 1 - int i + int (length (al_entries b))) mod int (length (al_entries b))) =
      (al_next b + length (al_entries b) - 1 - i) mod length (al_entries b)" if "i < ?n" for i
    using that ring_index by blast
  then have "map (\<lambda>i. al_entries b ! nat ((int (al_next b) - 1 - int i + int (length (al_entries b)))
        mod int (length (al_entries b)))) [0..<?n] =
      map (\<lambda>i. al_entries b ! ((al_next b + length (al_entries b) - 1 - i) mod length (al_entries b))) [0..<?n]"
    by (intro map_cong) auto
  with False have "Buffer_List limit b =
      map (\<lambda>i. al_entries b ! ((al_next b + length (al_entries b) - 1 - i) mod length (al_entries b))) [0..<?n]"
    by (simp only: Buffer_List_def Let_def if_False)
  moreover have "take (nat limit) [0..<al_count b] = [0..<?n]"
    unfolding n by (cases "nat limit \<le> al_count b") (simp_all add: min_def)
  ultimately show ?thesis by (simp only: ring_view_def take_map)
qed (simp add: Buffer_List_def)

lemma ring_log_index:
  assumes "nx < len" and "Suc i < (len :: nat)"
  shows "((nx + 1) mod len + len - 1 - Suc i) mod len = (nx + len - 1 - i) mod len"
    and "(nx + len - 1 - i) mod len \<noteq> nx"
proof -
  show "((nx + 1) mod len + len - 1 - Suc i) mod len = (nx + len - 1 - i) mod len"
  proof (cases "nx + 1 = len")
    case True
    then have e: "nx + len - 1 - i = (len - 1 - Suc i) + len" using assms by auto
    from True have "(nx + 1) mod len + len - 1 - Suc i = len - 1 - Suc i" by simp
    then show ?thesis unfolding e by simp
  next
    case False
    with assms have "(nx + 1) mod len = nx + 1" by simp
    then show ?thesis using assms by (simp add: algebra_simps)
  qed
  show "(nx + len - 1 - i) mod len \<noteq> nx"
  proof (cases "i < nx")
    case True
    then have "nx + len - 1 - i = (nx - 1 - i) + len" by auto
    then have "(nx + len - 1 - i) mod len = (nx - 1 - i) mod len" by (simp only: mod_add_self2)
    also have "\<dots> = nx - 1 - i" using assms True by (intro mod_less) simp
    finally have "(nx + len - 1 - i) mod len = nx - 1 - i" .
    with True show ?thesis by auto
  next
    case False
    then have "(nx + len - 1 - i) mod len = nx + len - 1 - i" using assms by simp
    with assms show ?thesis by auto
  qed
qed

lemma ring_view_log:
  assumes "ring_inv b"
  shows "ring_inv (Buffer_Log x b) \<and> ring_view (Buffer_Log x b) = take (length (al_entries b)) (x # ring_view b)"
proof -
  let ?len = "length (al_entries b)" and ?nx = "al_next b"
  let ?c = "if al_count b < ?len then al_count b + 1 else al_count b"
  from assms have nx: "?nx < ?len" and c: "al_count b \<le> ?len" by (auto simp: ring_inv_def)
  have "(?nx + 1) mod ?len < ?len" using nx by (intro mod_less_divisor) linarith
  with c have inv: "ring_inv (Buffer_Log x b)" by (auto simp: ring_inv_def Buffer_Log_def)
  have "ring_view (Buffer_Log x b) = take ?len (x # ring_view b)"
  proof (rule nth_equalityI)
    show "length (ring_view (Buffer_Log x b)) = length (take ?len (x # ring_view b))"
      using c nx by (auto simp: ring_view_def Buffer_Log_def)
  next
    fix i
    assume "i < length (ring_view (Buffer_Log x b))"
    then have i: "i < ?c" by (simp add: ring_view_def Buffer_Log_def)
    have view: "ring_view (Buffer_Log x b) ! i = (al_entries b)[?nx := x] ! (((?nx + 1) mod ?len + ?len - 1 - i) mod ?len)"
      using i by (simp add: ring_view_def Buffer_Log_def)
    show "ring_view (Buffer_Log x b) ! i = take ?len (x # ring_view b) ! i"
    proof (cases i)
      case 0
      have "((?nx + 1) mod ?len + ?len - 1) mod ?len = ?nx"
        using nx by (cases "?nx + 1 = ?len") auto
      moreover obtain k where "?len = Suc k" using nx by (cases ?len) auto
      ultimately show ?thesis using 0 view nx by simp
    next
      case (Suc j)
      then have j: "Suc j < ?len" "j < al_count b" using i c by (auto split: if_splits)
      from ring_log_index[OF nx j(1)] view Suc j show ?thesis by (simp add: ring_view_def)
    qed
  qed
  with inv show ?thesis by blast
qed

lemma ring_fold:
  "ring_inv b \<Longrightarrow> ring_inv (fold Buffer_Log xs b) \<and> length (al_entries (fold Buffer_Log xs b)) = length (al_entries b) \<and>
     ring_view (fold Buffer_Log xs b) = take (length (al_entries b)) (rev xs @ ring_view b)"
proof (induction xs arbitrary: b)
  case Nil
  then show ?case by (simp add: ring_view_def ring_inv_def)
next
  case (Cons x xs)
  have len: "length (al_entries (Buffer_Log x b)) = length (al_entries b)" by (simp add: Buffer_Log_def)
  from ring_view_log[OF Cons.prems] Cons.IH[of "Buffer_Log x b"] len show ?case
    by (simp add: take_append min_def)
qed

section \<open>Scanner lemmas\<close>

definition burst_entry :: "scannerLimiter \<Rightarrow> int list \<Rightarrow> scannerEntry" where
  "burst_entry l ts =
     (if int (length ts) < sl_threshold l
      then \<lparr>sn_windowStart = hd ts, sn_count = int (length ts), sn_blockedUntil = 0\<rparr>
      else \<lparr>sn_windowStart = last ts, sn_count = 0, sn_blockedUntil = last ts + sl_blockFor l\<rparr>)"

lemma RecordSuspicious_fields [simp]:
  "sl_window (RecordSuspicious ip now l) = sl_window l"
  "sl_threshold (RecordSuspicious ip now l) = sl_threshold l"
  "sl_blockFor (RecordSuspicious ip now l) = sl_blockFor l"
  by (simp_all add: RecordSuspicious_def Let_def)

lemma fold_suspicious_fields [simp]:
  "sl_window (fold (RecordSuspicious ip) ts l) = sl_window l"
  "sl_threshold (fold (RecordSuspicious ip) ts l) = sl_threshold l"
  "sl_blockFor (fold (RecordSuspicious ip) ts l) = sl_blockFor l"
  by (induction ts arbitrary: l) simp_all

text \<open>A burst of suspicious requests of one client inside the window, up to the threshold.\<close>

lemma fold_suspicious:
  assumes "ip \<noteq> []" and "map_of (sl_entries l) ip = None" and "ts \<noteq> []" and "0 < hd ts"
    and "\<forall>t \<in> set ts. hd ts \<le> t \<and> t \<le> hd ts + sl_window l" and "int (length ts) \<le> sl_threshold l"
  shows "map_of (sl_entries (fold (RecordSuspicious ip) ts l)) ip = Some (burst_entry l ts)"
  using assms(3-6)
proof (induction ts rule: rev_nonempty_induct)
  case (single t)
  with assms(1,2) show ?case
    by (auto simp: RecordSuspicious_def Let_def go_map suspicious_entry_def burst_entry_def)
next
  case (snoc t ts)
  let ?l = "fold (RecordSuspicious ip) ts l"
  have hd: "hd (ts @ [t]) = hd ts" using snoc.hyps by simp
  have "map_of (sl_entries (fold (RecordSuspicious ip) ts l)) ip = Some (burst_entry l ts)"
    using snoc by (intro snoc.IH) (auto simp: hd)
  moreover have "burst_entry l ts = \<lparr>sn_windowStart = hd ts, sn_count = int (length ts), sn_blockedUntil = 0\<rparr>"
    using snoc.prems(3) by (simp add: burst_entry_def)
  moreover have "0 < hd ts" "t - hd ts \<le> sl_window l" using snoc.prems(1,2) by (auto simp: hd)
  ultimately have e: "map_of (sl_entries ?l) ip = Some \<lparr>sn_windowStart = hd ts, sn_count = int (length ts), sn_blockedUntil = 0\<rparr>"
    and "0 < hd ts" "t - hd ts \<le> sl_window l" by auto
  have "map_of (sl_entries (RecordSuspicious ip t ?l)) ip = Some (burst_entry l (ts @ [t]))"
    using \<open>0 < hd ts\<close> \<open>t - hd ts \<le> sl_window l\<close> assms(1) snoc.hyps
    by (auto simp: RecordSuspicious_def Let_def go_map e suspicious_entry_def burst_entry_def)
  then show ?case by simp
qed

lemma fold_suspicious_other:
  "ip' \<noteq> ip \<Longrightarrow> map_of (sl_entries (fold (RecordSuspicious ip) ts l)) ip' = map_of (sl_entries l) ip'"
  by (induction ts arbitrary: l) (simp_all add: RecordSuspicious_def Let_def go_map)

section \<open>Properties\<close>

text \<open>
  C25. Nothing reaches an upstream unchecked. When the handler forwards a request, the client was not
  blocked by the scanner limiter, the global and the deployment's IP filters let it pass, the path
  and the user agent are not blocked, the firewall did not block it, the basic authentication of
  the route holds, and, unless the route is public, no session secret is configured or the host
  is the dashboard's own, the request carries a valid session token; and the upstream is that of
  the table's route for the host.
\<close>

theorem forwarded_requests_are_checked:
  assumes "proxy h now r s = (Forward upstream outcome, s')"
  shows "\<exists>route. Table_Get (request_host r) (px_table s) = Some route \<and> upstream = rt_Upstream route \<and>
    \<not> fst (scanner_step (clientIP r) now s) \<and>
    (\<forall>f. hd_ipFilter h = Some f \<longrightarrow> EvaluateGlobal f (clientIP r) = IPFilterAllowed \<and>
      EvaluateDeployment (clientIP r) (effectiveSecurity h (request_host r) route) = IPFilterAllowed) \<and>
    \<not> shouldBlockPath (rq_Path r) (hd_hardening h) \<and>
    (\<forall>f. hd_uaFilter h = Some f \<longrightarrow> \<not> UABlocked f (rq_UserAgent r)) \<and>
    (\<forall>w res w'. px_waf s = Some w \<longrightarrow> applyWAF h (request_host r) route \<longrightarrow>
      WAF_Evaluate (hd_waf_engine h) r (clientIP r) (fst (waf_parameters h (request_host r) route))
        (snd (waf_parameters h (request_host r) route)) w = (Inr res, w') \<longrightarrow> \<not> wr_Blocked res) \<and>
    ValidBasicAuthUsers (hd_hashes h) r (rt_BasicAuth route) \<and>
    (rt_Public route \<or> hd_jwtSecret h = None \<or> is_dashboard h (request_host r) \<or> validProxyToken h r)"
proof -
  obtain b s1 where sc: "scanner_step (clientIP r) now s = (b, s1)" by fastforce
  have same: "px_table s1 = px_table s" "px_waf s1 = px_waf s"
    using sc by (auto simp: scanner_step_def Let_def split: option.splits if_splits prod.splits)
  from assms sc have nb: "\<not> b"
    and glob: "(case hd_ipFilter h of None \<Rightarrow> IPFilterAllowed | Some f \<Rightarrow> EvaluateGlobal f (clientIP r)) = IPFilterAllowed"
    and path: "\<not> shouldBlockPath (rq_Path r) (hd_hardening h)"
    by (auto simp: proxy_def Let_def split: if_splits ip_verdict.splits)
  with assms sc same obtain route where route: "Table_Get (request_host r) (px_table s) = Some route"
    and rs: "route_step h r (clientIP r) (request_host r) route s1 = (Forward upstream outcome, s')"
    by (auto simp: proxy_def Let_def split: option.splits)
  from rs have dep: "(if hd_ipFilter h = None then IPFilterAllowed
      else EvaluateDeployment (clientIP r) (effectiveSecurity h (request_host r) route)) = IPFilterAllowed"
    and ua: "\<not> (case hd_uaFilter h of None \<Rightarrow> False | Some f \<Rightarrow> UABlocked f (rq_UserAgent r))"
    by (auto simp: route_step_def split: ip_verdict.splits if_splits)
  obtain v s2 where w: "waf_step h r (clientIP r) (request_host r) route s1 = (v, s2)" by fastforce
  have "v \<noteq> Inl x" if "x = Forward upstream outcome" for x
    using w that by (auto simp: waf_step_def split: option.splits if_splits prod.splits sum.splits)
  with rs dep ua w obtain oc where v: "v = Inr oc"
    and au: "auth_step h r (request_host r) route oc = Forward upstream outcome"
    by (cases v) (auto simp: route_step_def)
  have "\<not> wr_Blocked res" if "px_waf s = Some w0" "applyWAF h (request_host r) route"
    "WAF_Evaluate (hd_waf_engine h) r (clientIP r) (fst (waf_parameters h (request_host r) route))
        (snd (waf_parameters h (request_host r) route)) w0 = (Inr res, w')" for w0 res w'
    using w v that same by (auto simp: waf_step_def split: if_splits)
  moreover from au have "ValidBasicAuthUsers (hd_hashes h) r (rt_BasicAuth route)" "upstream = rt_Upstream route"
    "rt_Public route \<or> hd_jwtSecret h = None \<or> is_dashboard h (request_host r) \<or> validProxyToken h r"
    by (auto simp: auth_step_def split: if_splits)
  ultimately show ?thesis
    using route sc nb glob path dep ua by (intro exI[of _ route]) auto
qed

text \<open>
  A burst of suspicious requests blocks the client, and only it, for exactly the configured
  time. Starting without an entry for the client, as many suspicious requests as the threshold
  within the window have the client blocked from then until the block time after the last of
  them; fewer do not block it; other clients are not affected.
\<close>

theorem scanner_blocks_bursts:
  assumes "ip \<noteq> []" and "map_of (sl_entries l) ip = None" and "ts \<noteq> []" and "0 < hd ts"
    and "\<forall>t \<in> set ts. hd ts \<le> t \<and> t \<le> hd ts + sl_window l" and "int (length ts) \<le> sl_threshold l"
    and "0 \<le> now"
  shows "(fst (IsBlocked ip now (fold (RecordSuspicious ip) ts l)) \<longleftrightarrow>
      int (length ts) = sl_threshold l \<and> now < last ts + sl_blockFor l) \<and>
    (\<forall>ip'. ip' \<noteq> ip \<longrightarrow> fst (IsBlocked ip' now (fold (RecordSuspicious ip) ts l)) = fst (IsBlocked ip' now l))"
proof -
  have "map_of (sl_entries (fold (RecordSuspicious ip) ts l)) ip = Some (burst_entry l ts)"
    using assms(1-6) by (rule fold_suspicious)
  moreover have "map_of (sl_entries (fold (RecordSuspicious ip) ts l)) ip' = map_of (sl_entries l) ip'" if "ip' \<noteq> ip" for ip'
    using that by (rule fold_suspicious_other)
  ultimately show ?thesis
    using assms(6,7) by (auto simp: IsBlocked_def burst_entry_def split: option.splits)
qed

text \<open>
  The access log is the list of the last requests. After logging \<open>xs\<close> into a new buffer,
  \<open>List\<close> returns the newest entries first, at most the limit and at most the capacity, whatever
  was overwritten on the way.
\<close>

theorem access_log_keeps_latest:
  "Buffer_List limit (fold Buffer_Log xs (NewAccessLogBuffer capacity zero)) =
    take (nat limit) (take (nat (if capacity \<le> 0 then 1000 else capacity)) (rev xs))"
proof -
  let ?b = "NewAccessLogBuffer capacity zero"
  have inv: "ring_inv ?b" by (auto simp: ring_inv_def NewAccessLogBuffer_def)
  have "ring_view ?b = []" "length (al_entries ?b) = nat (if capacity \<le> 0 then 1000 else capacity)"
    by (simp_all add: ring_view_def NewAccessLogBuffer_def)
  with ring_fold[OF inv, of xs] show ?thesis by (simp add: Buffer_List_view)
qed

text \<open>
  Stricter profiles block more. Every path that the standard profile blocks the strict one
  blocks too, and the off profile blocks none.
\<close>

theorem strict_blocks_more:
  "(shouldBlockPath path ''standard'' \<longrightarrow> shouldBlockPath path ''strict'') \<and> \<not> shouldBlockPath path ''off''"
proof -
  have "normalizeHardeningProfile ''standard'' = HardeningStandard" "normalizeHardeningProfile ''strict'' = HardeningStrict"
    "normalizeHardeningProfile ''off'' = HardeningOff" by code_simp+
  moreover have "HardeningStandard \<noteq> HardeningOff" "HardeningStrict \<noteq> HardeningOff" "HardeningStandard \<noteq> HardeningStrict"
    by (simp_all add: HardeningStandard_def HardeningStrict_def HardeningOff_def)
  ultimately show ?thesis unfolding shouldBlockPath_def Let_def by simp
qed

text \<open>
  A route set through the internal API loses the deployment's protection, and the poller does
  not restore it. When the poller's table is in line with the deployments and the internal API
  sets the route of a deployment's domain to its own upstream, the route has no basic
  authentication and no security configuration, and this stays so after every synchronisation
  that lists the same deployments.
\<close>

theorem set_route_drops_protection:
  assumes "dynamic_routes t = Map.empty" and "range_order o1" and "range_order o2" and "range_order o3" and "range_order o4"
    and "desired ds dn = Some route" and "static_routes t dn = None" and "normalizeDomain dn = dn"
  shows "\<exists>lastm t1. sync Table_Set Table_Delete o1 o2 (Inr ds) ([], t) = (lastm, t1) \<and> Table_Get dn t1 = Some route \<and>
    Table_Get dn (snd (sync Table_Set Table_Delete o3 o4 (Inr ds) (lastm, snd (setRoute (Some (dn, rt_Upstream route)) t1)))) =
      Some \<lparr>rt_Upstream = rt_Upstream route, rt_Public = False, rt_BasicAuth = None, rt_Security = None\<rparr>"
proof -
  have i: "rt.in_sync ([], t)" using assms(1) by (simp add: rt.in_sync_def last_ok_def)
  obtain lastm t1 where s1: "sync Table_Set Table_Delete o1 o2 (Inr ds) ([], t) = (lastm, t1)" by fastforce
  have l: "lastm = snapshot ds" using s1 by (simp add: sync_def Let_def)
  have st1: "static_routes t1 dn = None"
    using rt.sync_stat[of o1 o2 "Inr ds" "([], t)"] s1 assms(7) by simp
  have "dynamic_routes t1 dn = Some route" using rt.sync_dyn[OF i assms(2,3), of ds dn] s1 assms(6) by simp
  then have g1: "Table_Get dn t1 = Some route" using st1 by (simp add: rt.get_dyn)
  from assms(6) obtain d where "routable dn d" and "rt_Upstream route = upstreamFromPorts (Prelude.slice (d_Ports d)) (d_ProxyPort d)"
    by (auto simp: desired_def find_Some_iff)
  then have ne: "dn \<noteq> []" "rt_Upstream route \<noteq> []" by (auto simp: routable_def)
  let ?t2 = "Table_Set dn (rt_Upstream route) False None None t1"
  have t2: "snd (setRoute (Some (dn, rt_Upstream route)) t1) = ?t2" using ne assms(8) by (simp add: setRoute_def)
  let ?t3 = "snd (sync Table_Set Table_Delete o3 o4 (Inr ds) (lastm, ?t2))"
  have dist: "distinct (map fst (o3 (snapshot ds)))" "map_of (o3 (snapshot ds)) = map_of (snapshot ds)"
    using snapshot_ok[of ds] assms(4) by (simp_all add: last_ok_def range_order_distinct_keys map_of_range_order)
  obtain rs where rs: "map_of (snapshot ds) dn = Some rs"
    using snapshot_desired[of ds dn] assms(6) by auto
  then have "dynamic_routes ?t3 dn = dynamic_routes ?t2 dn"
    by (simp add: sync_def Let_def l rt.delete_gone_dyn rt.set_changed_dyn[OF dist(1)] dist(2) last_state_def)
  moreover have "static_routes ?t3 dn = None"
    using rt.sync_stat[of o3 o4 "Inr ds" "(lastm, ?t2)"] st1 by (simp add: rt.stat_set)
  ultimately have "Table_Get dn ?t3 = Some \<lparr>rt_Upstream = rt_Upstream route, rt_Public = False,
      rt_BasicAuth = None, rt_Security = None\<rparr>"
    by (simp add: rt.get_dyn rt.dyn_set)
  with s1 g1 t2 show ?thesis by auto
qed

section \<open>Witnesses\<close>

definition handler0 :: "string Handler" where
  "handler0 = \<lparr>hd_dashboardDomain = Some ''dash.example.com'', hd_dashboardAccess = ''login_only'', hd_dashboardResolve = None,
     hd_dashboardWAF = \<lparr>dw_Mode = WAFModeDetection, dw_IPAllowlist = [], dw_CustomRules = []\<rparr>, hd_dashboardWAFLoad = None,
     hd_authCookieDomain = ''example.com'', hd_hardening = ''standard'',
     hd_ipFilter = Some \<lparr>ipf_globalDenylist = [], ipf_globalAllowlist = []\<rparr>,
     hd_uaFilter = Some (NewUAFilter True []), hd_jwtSecret = Some ''secret'',
     hd_hashes = \<lparr>ha_sha256 = (\<lambda>x. x), ha_bcrypt_ok = (=)\<rparr>, hd_waf_engine = waf_engine0,
     hd_validateToken = (\<lambda>secret token. token = secret)\<rparr>"

definition protected_table :: Table where
  "protected_table = Table_Set ''web.example.com'' ''localhost:32768'' False
     (Some \<lparr>bac_Users = [\<lparr>bau_Username = ''bob'', bau_Password = ''pw''\<rparr>]\<rparr>) (Some sec0) NewTable"

definition state0 :: "string proxy_state" where
  "state0 = \<lparr>px_table = protected_table, px_scanner = newScannerLimiter ''standard'', px_waf = Some waf0,
     px_wafBlocked = 0, px_uaBlocked = 0\<rparr>"

definition good_request :: Request where
  "good_request = request0\<lparr>rq_BasicAuth := Some (''bob'', ''pw''), rq_TokenCookie := Some ''secret''\<rparr>"

theorem forwarded_requests_are_checked_witness:
  "fst (proxy handler0 100 good_request state0) = Forward ''localhost:32768'' ''proxied'' \<and>
   validProxyToken handler0 good_request"
proof -
  let ?p = "proxy handler0 100 good_request state0"
  have f: "fst ?p = Forward ''localhost:32768'' ''proxied''" by code_simp
  then have "?p = (Forward ''localhost:32768'' ''proxied'', snd ?p)" by (simp add: prod_eq_iff)
  from forwarded_requests_are_checked[OF this] obtain route
    where g: "Table_Get (request_host good_request) (px_table state0) = Some route"
      and t: "rt_Public route \<or> hd_jwtSecret handler0 = None \<or> is_dashboard handler0 (request_host good_request) \<or>
        validProxyToken handler0 good_request" by blast
  have "map_option rt_Public (Table_Get (request_host good_request) (px_table state0)) = Some False"
    "\<not> is_dashboard handler0 (request_host good_request)" by code_simp+
  with g t f show ?thesis by (simp add: handler0_def)
qed

theorem scanner_blocks_bursts_witness:
  "fst (IsBlocked ''10.0.0.1'' 900000000005
     (fold (RecordSuspicious ''10.0.0.1'') [1, 2, 3, 4, 5, 6] (the (newScannerLimiter ''strict''))))"
proof -
  let ?l = "the (newScannerLimiter ''strict'')"
  have "normalizeHardeningProfile ''strict'' = HardeningStrict" by code_simp
  then have "sl_entries ?l = []" "sl_window ?l = minute" "sl_threshold ?l = 6" "sl_blockFor ?l = 15 * minute"
    by (simp_all add: newScannerLimiter_def Let_def HardeningStrict_def HardeningOff_def)
  with scanner_blocks_bursts[of "''10.0.0.1''" ?l "[1, 2, 3, 4, 5, 6]" 900000000005] show ?thesis
    by (simp add: minute_def)
qed

theorem strict_blocks_more_witness: "shouldBlockPath ''/.ENV.local'' ''strict''"
proof -
  have "shouldBlockPath ''/.ENV.local'' ''standard''" by code_simp
  with strict_blocks_more show ?thesis by blast
qed

definition protected_web :: Deployment where
  "protected_web = routed_web\<lparr>d_BasicAuth := Some \<lparr>bac_Users = [\<lparr>bau_Username = ''bob'', bau_Password = ''pw''\<rparr>]\<rparr>\<rparr>"

theorem set_route_drops_protection_witness:
  "\<exists>lastm t1. sync Table_Set Table_Delete id id (Inr [protected_web]) ([], NewTable) = (lastm, t1) \<and>
    map_option (\<lambda>r. rt_BasicAuth r = None) (Table_Get ''web.example.com'' t1) = Some False \<and>
    map_option (\<lambda>r. rt_BasicAuth r = None) (Table_Get ''web.example.com'' (snd (sync Table_Set Table_Delete rev rev (Inr [protected_web])
      (lastm, snd (setRoute (Some (''web.example.com'', ''localhost:32768'')) t1))))) = Some True"
proof -
  let ?r = "\<lparr>rt_Upstream = ''localhost:32768'', rt_Public = False,
    rt_BasicAuth = Some \<lparr>bac_Users = [\<lparr>bau_Username = ''bob'', bau_Password = ''pw''\<rparr>]\<rparr>, rt_Security = None\<rparr>"
  have "desired [protected_web] ''web.example.com'' = Some ?r" by code_simp
  moreover have "normalizeDomain ''web.example.com'' = ''web.example.com''" by code_simp
  ultimately have "\<exists>lastm t1. sync Table_Set Table_Delete id id (Inr [protected_web]) ([], NewTable) = (lastm, t1) \<and>
      Table_Get ''web.example.com'' t1 = Some ?r \<and>
      Table_Get ''web.example.com'' (snd (sync Table_Set Table_Delete rev rev (Inr [protected_web])
        (lastm, snd (setRoute (Some (''web.example.com'', rt_Upstream ?r)) t1)))) =
      Some \<lparr>rt_Upstream = rt_Upstream ?r, rt_Public = False, rt_BasicAuth = None, rt_Security = None\<rparr>"
    using set_route_drops_protection[of NewTable id id rev rev "[protected_web]" "''web.example.com''" ?r] by simp
  then show ?thesis by force
qed

end
