(* ===== verification/Mounts.thy ===== *)
theory Mounts
  imports Store Paths
begin

text \<open>
  Volumes and file mounts of the API, \<open>src/api/internal/api/handler_volumes.go\<close> and
  \<open>handler_file_mounts.go\<close>: turning the mounts of a request into bindings, creating managed
  directories and writing managed files, and reading bindings back as mounts.

  The operating system's calls are the fields of \<open>os_api\<close>, over an abstract file system. The state
  of the model adds to it the log of the calls that change the file system. The environment
  variables that choose the base directories are \<open>os_volumes_dir\<close> and \<open>os_files_dir\<close>.
\<close>

section \<open>The operating system\<close>

datatype stat_result = StatFound bool | StatNotExist | StatFails string

record 'f os_api =
  os_Stat :: "string \<Rightarrow> 'f \<Rightarrow> stat_result"
  os_Lstat :: "string \<Rightarrow> 'f \<Rightarrow> stat_result"
  os_MkdirAll :: "string \<Rightarrow> int \<Rightarrow> 'f \<Rightarrow> string option \<times> 'f"
  os_Chown :: "string \<Rightarrow> int \<Rightarrow> int \<Rightarrow> 'f \<Rightarrow> string option \<times> 'f"
  os_Chmod :: "string \<Rightarrow> int \<Rightarrow> 'f \<Rightarrow> string option \<times> 'f"
  os_OpenTrunc :: "string \<Rightarrow> int \<Rightarrow> 'f \<Rightarrow> string option \<times> 'f"
  os_WriteString :: "string \<Rightarrow> string \<Rightarrow> 'f \<Rightarrow> string option \<times> 'f"
  os_CloseFile :: "string \<Rightarrow> 'f \<Rightarrow> string option \<times> 'f"
  os_volumes_dir :: string
  os_files_dir :: string

datatype os_call =
    CallMkdirAll string int
  | CallChown string int int
  | CallChmod string int
  | CallOpenTrunc string int
  | CallWriteString string string
  | CallCloseFile string

record 'f files =
  fl_world :: 'f
  fl_log :: "os_call list"

definition os_do :: "os_call \<Rightarrow> ('f \<Rightarrow> string option \<times> 'f) \<Rightarrow> 'f files \<Rightarrow> string option \<times> 'f files" where
  "os_do c f s = (case f (fl_world s) of (r, w) \<Rightarrow> (r, \<lparr>fl_world = w, fl_log = fl_log s @ [c]\<rparr>))"

fun run_call :: "'f os_api \<Rightarrow> os_call \<Rightarrow> 'f files \<Rightarrow> string option \<times> 'f files" where
  "run_call os (CallMkdirAll p m) = os_do (CallMkdirAll p m) (os_MkdirAll os p m)"
| "run_call os (CallChown p u g) = os_do (CallChown p u g) (os_Chown os p u g)"
| "run_call os (CallChmod p m) = os_do (CallChmod p m) (os_Chmod os p m)"
| "run_call os (CallOpenTrunc p m) = os_do (CallOpenTrunc p m) (os_OpenTrunc os p m)"
| "run_call os (CallWriteString p t) = os_do (CallWriteString p t) (os_WriteString os p t)"
| "run_call os (CallCloseFile p) = os_do (CallCloseFile p) (os_CloseFile os p)"

datatype mount_error =
    VolumeTargetNotAbsolute | VolumeTargetUsed string | VolumeNameInvalid | VolumeSourceUsed string
  | UidNegative | GidNegative | ModeInvalid | BindSettings | BindSourceNotAbsolute | VolumeModeInvalid
  | BaseNotAbsolute | PathEscapes | OsFails string string
  | FileNameInvalid | FileSourceUsed string | FileTargetNotAbsolute | FileTargetUsed string
  | FileNotUtf8 string | FileTooLong string | FilesTooLong | FileIsSymlink

section \<open>Text\<close>

text \<open>The pattern \<open>^[a-zA-Z0-9][a-zA-Z0-9_.-]{0,63}$\<close> of managed names.\<close>

definition alnum :: "char \<Rightarrow> bool" where
  "alnum c \<longleftrightarrow> 97 \<le> byte c \<and> byte c \<le> 122 \<or> 65 \<le> byte c \<and> byte c \<le> 90 \<or> 48 \<le> byte c \<and> byte c \<le> 57"

definition managedVolumeNamePattern :: "string \<Rightarrow> bool" where
  "managedVolumeNamePattern s =
     (case s of
        [] \<Rightarrow> False
      | c # r \<Rightarrow> alnum c \<and> length r \<le> 63 \<and> list_all (\<lambda>x. alnum x \<or> x \<in> set ''_.-'') r)"

text \<open>\<open>strconv.ParseUint(s, 8, 32)\<close>.\<close>

definition octal_val :: "string \<Rightarrow> int" where
  "octal_val ds = foldl (\<lambda>a c. a * 8 + digit_val c) 0 ds"

definition ParseOctal32 :: "string \<Rightarrow> int option" where
  "ParseOctal32 s =
     (if s = [] \<or> \<not> list_all (\<lambda>c. 48 \<le> byte c \<and> byte c \<le> 55) s then None
      else let v = octal_val s in if v < 4294967296 then Some v else None)"

text \<open>\<open>utf8.ValidString\<close>: the length of the encoding at the front of a text, zero when there is
  none, and the walk over the text.\<close>

definition between :: "char \<Rightarrow> int \<Rightarrow> int \<Rightarrow> bool" where
  "between c lo hi \<longleftrightarrow> lo \<le> byte c \<and> byte c \<le> hi"

definition rune_len :: "string \<Rightarrow> nat" where
  "rune_len s =
     (case s of
        [] \<Rightarrow> 0
      | c # r \<Rightarrow>
          if byte c < 128 then 1
          else if between c 194 223 \<and> length r \<ge> 1 \<and> between (r ! 0) 128 191 then 2
          else if length r \<ge> 2 \<and> between (r ! 1) 128 191 \<and>
             (byte c = 224 \<and> between (r ! 0) 160 191 \<or>
              (between c 225 236 \<or> between c 238 239) \<and> between (r ! 0) 128 191 \<or>
              byte c = 237 \<and> between (r ! 0) 128 159) then 3
          else if length r \<ge> 3 \<and> between (r ! 1) 128 191 \<and> between (r ! 2) 128 191 \<and>
             (byte c = 240 \<and> between (r ! 0) 144 191 \<or>
              between c 241 243 \<and> between (r ! 0) 128 191 \<or>
              byte c = 244 \<and> between (r ! 0) 128 143) then 4
          else 0)"

function utf8_ValidString :: "string \<Rightarrow> bool" where
  "utf8_ValidString s =
     (if s = [] then True
      else if rune_len s = 0 then False
      else utf8_ValidString (drop (rune_len s) s))"
  by pat_completeness auto
termination
  by (relation "measure length") auto

declare utf8_ValidString.simps [simp del]

definition cleanAbsolutePath :: "string \<Rightarrow> string option" where
  "cleanAbsolutePath raw =
     (let cleaned = Clean (TrimSpace raw) in
      if cleaned = ''.'' \<or> \<not> IsAbs cleaned then None else Some cleaned)"

definition isPathWithinBase :: "string \<Rightarrow> string \<Rightarrow> bool" where
  "isPathWithinBase basePath candidate =
     (case Rel basePath candidate of
        None \<Rightarrow> False
      | Some rel \<Rightarrow>
          if rel = ''.'' then True else rel \<noteq> ''..'' \<and> \<not> HasPrefix rel ''../'')"

section \<open>Volumes\<close>

record volumeMountRequest =
  vm_Mode :: string
  vm_Source :: string
  vm_Target :: string
  vm_UID :: "int option"
  vm_GID :: "int option"
  vm_DirMode :: string

record volumeMountResponse =
  vr_Mode :: string
  vr_Source :: string
  vr_Target :: string

text \<open>The settings of a managed directory or file: in the source two types of the same shape.\<close>

record managedSettings =
  ms_uid :: "int option"
  ms_gid :: "int option"
  ms_mode :: "int option"

definition managedVolumesBaseDirFromEnv :: "'f os_api \<Rightarrow> string" where
  "managedVolumesBaseDirFromEnv os =
     (let dir = TrimSpace (os_volumes_dir os) in if dir \<noteq> [] then Clean dir else ''/var/lib/lotsen/volumes'')"

definition settings_of :: "int option \<Rightarrow> int option \<Rightarrow> string \<Rightarrow> mount_error + managedSettings" where
  "settings_of uid gid rawMode =
     (if uid \<noteq> None \<and> the uid < 0 then Inl UidNegative
      else if gid \<noteq> None \<and> the gid < 0 then Inl GidNegative
      else let raw = TrimSpace rawMode in
        if raw \<noteq> [] then
          (case ParseOctal32 raw of
             None \<Rightarrow> Inl ModeInvalid
           | Some parsed \<Rightarrow>
               if parsed > 511 then Inl ModeInvalid
               else Inr \<lparr>ms_uid = uid, ms_gid = gid, ms_mode = Some parsed\<rparr>)
        else Inr \<lparr>ms_uid = uid, ms_gid = gid, ms_mode = None\<rparr>)"

definition managedVolumeSettingsFromRequest :: "volumeMountRequest \<Rightarrow> mount_error + managedSettings" where
  "managedVolumeSettingsFromRequest m = settings_of (vm_UID m) (vm_GID m) (vm_DirMode m)"

text \<open>Ownership, then permissions; a new directory or file without a mode gets the default one.\<close>

definition apply_settings :: "'f os_api \<Rightarrow> int \<Rightarrow> string \<Rightarrow> managedSettings \<Rightarrow> bool \<Rightarrow> 'f files
    \<Rightarrow> mount_error option \<times> 'f files" where
  "apply_settings os defaultMode p st existed s =
     (let mode = (if ms_mode st = None \<and> \<not> existed then Some defaultMode else ms_mode st);
          (chown, s1) =
            (if ms_uid st \<noteq> None \<or> ms_gid st \<noteq> None
             then run_call os (CallChown p (case ms_uid st of None \<Rightarrow> -1 | Some u \<Rightarrow> u)
                                           (case ms_gid st of None \<Rightarrow> -1 | Some g \<Rightarrow> g)) s
             else (None, s)) in
      case chown of
        Some err \<Rightarrow> (Some (OsFails ''ownership'' err), s1)
      | None \<Rightarrow>
          (case mode of
             None \<Rightarrow> (None, s1)
           | Some m \<Rightarrow>
               (case run_call os (CallChmod p m) s1 of
                  (Some err, s2) \<Rightarrow> (Some (OsFails ''permissions'' err), s2)
                | (None, s2) \<Rightarrow> (None, s2))))"

definition applyManagedVolumeSettings :: "'f os_api \<Rightarrow> string \<Rightarrow> managedSettings \<Rightarrow> bool \<Rightarrow> 'f files
    \<Rightarrow> mount_error option \<times> 'f files" where
  "applyManagedVolumeSettings os = apply_settings os 511"

definition ensureManagedVolumeDirectoryWithSettings :: "'f os_api \<Rightarrow> string \<Rightarrow> string \<Rightarrow> managedSettings
    \<Rightarrow> 'f files \<Rightarrow> (mount_error + string) \<times> 'f files" where
  "ensureManagedVolumeDirectoryWithSettings os depID name st s =
     (let base = managedVolumesBaseDirFromEnv os in
      if \<not> IsAbs base then (Inl BaseNotAbsolute, s)
      else let cleanBase = Clean base; volumeDir = FilepathJoin [cleanBase, depID, name] in
        if \<not> isPathWithinBase cleanBase volumeDir then (Inl PathEscapes, s)
        else case os_Stat os volumeDir (fl_world s) of
          StatFails err \<Rightarrow> (Inl (OsFails ''stat'' err), s)
        | stat \<Rightarrow>
            (case run_call os (CallMkdirAll volumeDir 493) s of
               (Some err, s1) \<Rightarrow> (Inl (OsFails ''create'' err), s1)
             | (None, s1) \<Rightarrow>
                 (case applyManagedVolumeSettings os volumeDir st (stat \<noteq> StatNotExist) s1 of
                    (Some err, s2) \<Rightarrow> (Inl err, s2)
                  | (None, s2) \<Rightarrow> (Inr volumeDir, s2))))"

text \<open>One mount after its target was checked: the host path it binds.\<close>

definition mount_source :: "'f os_api \<Rightarrow> string \<Rightarrow> volumeMountRequest \<Rightarrow> 'f files
    \<Rightarrow> (mount_error + string \<times> string) \<times> 'f files" where
  "mount_source os depID m s =
     (let mode = ToLower (TrimSpace (vm_Mode m)); source = TrimSpace (vm_Source m) in
      if mode = ''managed'' then
        (if \<not> managedVolumeNamePattern source then (Inl VolumeNameInvalid, s)
         else case managedVolumeSettingsFromRequest m of
           Inl err \<Rightarrow> (Inl err, s)
         | Inr st \<Rightarrow>
             (case ensureManagedVolumeDirectoryWithSettings os depID source st s of
                (Inl err, s1) \<Rightarrow> (Inl err, s1)
              | (Inr hostPath, s1) \<Rightarrow> (Inr (hostPath, source), s1)))
      else if mode = ''bind'' then
        (if vm_UID m \<noteq> None \<or> vm_GID m \<noteq> None \<or> TrimSpace (vm_DirMode m) \<noteq> [] then (Inl BindSettings, s)
         else case cleanAbsolutePath source of
           None \<Rightarrow> (Inl BindSourceNotAbsolute, s)
         | Some hostPath \<Rightarrow> (Inr (hostPath, hostPath), s))
      else (Inl VolumeModeInvalid, s))"

fun volume_loop :: "'f os_api \<Rightarrow> string \<Rightarrow> string list \<Rightarrow> string list \<Rightarrow> volumeMountRequest list \<Rightarrow> 'f files
    \<Rightarrow> (mount_error + string list) \<times> 'f files" where
  "volume_loop os depID sources targets [] s = (Inr [], s)"
| "volume_loop os depID sources targets (m # ms) s =
     (case cleanAbsolutePath (vm_Target m) of
        None \<Rightarrow> (Inl VolumeTargetNotAbsolute, s)
      | Some target \<Rightarrow>
          if target \<in> set targets then (Inl (VolumeTargetUsed target), s)
          else case mount_source os depID m s of
            (Inl err, s1) \<Rightarrow> (Inl err, s1)
          | (Inr (hostPath, shown), s1) \<Rightarrow>
              if hostPath \<in> set sources then (Inl (VolumeSourceUsed shown), s1)
              else case volume_loop os depID (hostPath # sources) (target # targets) ms s1 of
                (Inl err, s2) \<Rightarrow> (Inl err, s2)
              | (Inr bindings, s2) \<Rightarrow> (Inr ((hostPath @ '':'' @ target) # bindings), s2))"

definition resolveVolumeBindings :: "'f os_api \<Rightarrow> string \<Rightarrow> string list option \<Rightarrow> volumeMountRequest list option
    \<Rightarrow> 'f files \<Rightarrow> (mount_error + string list) \<times> 'f files" where
  "resolveVolumeBindings os depID volumes mounts s =
     (case mounts of
        None \<Rightarrow> (Inr (slice volumes), s)
      | Some ms \<Rightarrow> volume_loop os depID [] [] ms s)"

definition managedVolumeNameForDeployment :: "'f os_api \<Rightarrow> string \<Rightarrow> string \<Rightarrow> string option" where
  "managedVolumeNameForDeployment os depID source =
     (let base = managedVolumesBaseDirFromEnv os in
      if \<not> IsAbs base then None
      else let pre = FilepathJoin [Clean base, depID] @ ''/''; cleanSource = Clean (TrimSpace source) in
        if \<not> HasPrefix cleanSource pre then None
        else let name = TrimPrefix cleanSource pre in
          if Contains name ''/'' then None
          else if \<not> managedVolumeNamePattern name then None
          else Some name)"

definition mount_of_binding :: "'f os_api \<Rightarrow> string \<Rightarrow> string \<Rightarrow> volumeMountResponse list" where
  "mount_of_binding os depID binding =
     (case Cut binding (CHR '':'') of (source, target, found) \<Rightarrow>
        if \<not> found \<or> source = [] then []
        else case managedVolumeNameForDeployment os depID source of
          Some name \<Rightarrow> [\<lparr>vr_Mode = ''managed'', vr_Source = name, vr_Target = target\<rparr>]
        | None \<Rightarrow> [\<lparr>vr_Mode = ''bind'', vr_Source = source, vr_Target = target\<rparr>])"

definition volumeMountsFromBindings :: "'f os_api \<Rightarrow> string \<Rightarrow> string list \<Rightarrow> volumeMountResponse list" where
  "volumeMountsFromBindings os depID bindings = concat (map (mount_of_binding os depID) bindings)"

section \<open>File mounts\<close>

record fileMountRequest =
  fr_Source :: string
  fr_Target :: string
  fr_Content :: string
  fr_UID :: "int option"
  fr_GID :: "int option"
  fr_FileMode :: string
  fr_ReadOnly :: bool

definition managedFilesBaseDirFromEnv :: "'f os_api \<Rightarrow> string" where
  "managedFilesBaseDirFromEnv os =
     (let dir = TrimSpace (os_files_dir os) in if dir \<noteq> [] then Clean dir else ''/var/lib/lotsen/files'')"

definition managedFileSettingsFromRequest :: "fileMountRequest \<Rightarrow> mount_error + managedSettings" where
  "managedFileSettingsFromRequest m = settings_of (fr_UID m) (fr_GID m) (fr_FileMode m)"

definition applyManagedFileSettings :: "'f os_api \<Rightarrow> string \<Rightarrow> managedSettings \<Rightarrow> bool \<Rightarrow> 'f files
    \<Rightarrow> mount_error option \<times> 'f files" where
  "applyManagedFileSettings os = apply_settings os 420"

text \<open>Opening with truncation, writing and closing; a failed write closes the file too.\<close>

definition write_file :: "'f os_api \<Rightarrow> string \<Rightarrow> string \<Rightarrow> 'f files \<Rightarrow> mount_error option \<times> 'f files" where
  "write_file os p content s =
     (case run_call os (CallOpenTrunc p 384) s of
        (Some err, s1) \<Rightarrow> (Some (OsFails ''open'' err), s1)
      | (None, s1) \<Rightarrow>
          (case run_call os (CallWriteString p content) s1 of
             (Some err, s2) \<Rightarrow> (Some (OsFails ''write'' err), snd (run_call os (CallCloseFile p) s2))
           | (None, s2) \<Rightarrow>
               (case run_call os (CallCloseFile p) s2 of
                  (Some err, s3) \<Rightarrow> (Some (OsFails ''close'' err), s3)
                | (None, s3) \<Rightarrow> (None, s3))))"

definition ensureManagedFileWithSettings :: "'f os_api \<Rightarrow> string \<Rightarrow> string \<Rightarrow> string \<Rightarrow> managedSettings
    \<Rightarrow> 'f files \<Rightarrow> (mount_error + string) \<times> 'f files" where
  "ensureManagedFileWithSettings os depID source content st s =
     (let base = managedFilesBaseDirFromEnv os in
      if \<not> IsAbs base then (Inl BaseNotAbsolute, s)
      else let cleanBase = Clean base; filePath = FilepathJoin [cleanBase, depID, source] in
        if \<not> isPathWithinBase cleanBase filePath then (Inl PathEscapes, s)
        else case run_call os (CallMkdirAll (Dir filePath) 493) s of
          (Some err, s1) \<Rightarrow> (Inl (OsFails ''create'' err), s1)
        | (None, s1) \<Rightarrow>
            (case os_Lstat os filePath (fl_world s1) of
               StatFails err \<Rightarrow> (Inl (OsFails ''stat'' err), s1)
             | stat \<Rightarrow>
                 if stat = StatFound True then (Inl FileIsSymlink, s1)
                 else case write_file os filePath content s1 of
                   (Some err, s2) \<Rightarrow> (Inl err, s2)
                 | (None, s2) \<Rightarrow>
                     (case applyManagedFileSettings os filePath st (stat \<noteq> StatNotExist) s2 of
                        (Some err, s3) \<Rightarrow> (Inl err, s3)
                      | (None, s3) \<Rightarrow> (Inr filePath, s3))))"

definition maxFileMountContentLen :: int where "maxFileMountContentLen = 65536"
definition maxFileMountTotalLen :: int where "maxFileMountTotalLen = 524288"

text \<open>The checks of one file mount that come before the file is written: its target.\<close>

definition file_checks :: "string list \<Rightarrow> string list \<Rightarrow> int \<Rightarrow> fileMountRequest \<Rightarrow> mount_error + string \<times> managedSettings" where
  "file_checks sources targets totalBytes m =
     (let source = TrimSpace (fr_Source m) in
      if \<not> managedVolumeNamePattern source then Inl FileNameInvalid
      else if source \<in> set sources then Inl (FileSourceUsed source)
      else case cleanAbsolutePath (fr_Target m) of
        None \<Rightarrow> Inl FileTargetNotAbsolute
      | Some target \<Rightarrow>
          if target \<in> set targets then Inl (FileTargetUsed target)
          else if \<not> utf8_ValidString (fr_Content m) then Inl (FileNotUtf8 source)
          else if int (length (fr_Content m)) > maxFileMountContentLen then Inl (FileTooLong source)
          else if totalBytes + int (length (fr_Content m)) > maxFileMountTotalLen then Inl FilesTooLong
          else case managedFileSettingsFromRequest m of
            Inl err \<Rightarrow> Inl err
          | Inr st \<Rightarrow> Inr (target, st))"

fun file_loop :: "'f os_api \<Rightarrow> string \<Rightarrow> string list \<Rightarrow> string list \<Rightarrow> int \<Rightarrow> fileMountRequest list \<Rightarrow> 'f files
    \<Rightarrow> (mount_error + FileMount list) \<times> 'f files" where
  "file_loop os depID sources targets totalBytes [] s = (Inr [], s)"
| "file_loop os depID sources targets totalBytes (m # ms) s =
     (case file_checks sources targets totalBytes m of
        Inl err \<Rightarrow> (Inl err, s)
      | Inr (target, st) \<Rightarrow>
          (let source = TrimSpace (fr_Source m) in
           case ensureManagedFileWithSettings os depID source (fr_Content m) st s of
             (Inl err, s1) \<Rightarrow> (Inl err, s1)
           | (Inr _, s1) \<Rightarrow>
               (case file_loop os depID (source # sources) (target # targets)
                       (totalBytes + int (length (fr_Content m))) ms s1 of
                  (Inl err, s2) \<Rightarrow> (Inl err, s2)
                | (Inr resolved, s2) \<Rightarrow>
                    (Inr (\<lparr>fm_Source = source, fm_Target = target, fm_Content = fr_Content m,
                            fm_UID = fr_UID m, fm_GID = fr_GID m, fm_FileMode = TrimSpace (fr_FileMode m),
                            fm_ReadOnly = fr_ReadOnly m\<rparr> # resolved), s2))))"

definition resolveFileMounts :: "'f os_api \<Rightarrow> string \<Rightarrow> fileMountRequest list option \<Rightarrow> 'f files
    \<Rightarrow> (mount_error + FileMount list) \<times> 'f files" where
  "resolveFileMounts os depID mounts s =
     (case mounts of None \<Rightarrow> (Inr [], s) | Some ms \<Rightarrow> file_loop os depID [] [] 0 ms s)"

section \<open>Paths\<close>

lemma alnum_graphic: "alnum c \<Longrightarrow> graphic c"
  by (auto simp: alnum_def graphic_def)

lemma managed_name_chars:
  assumes "managedVolumeNamePattern name"
  shows "name \<noteq> []" and "list_all graphic name" and "CHR ''/'' \<notin> set name" and "CHR '':'' \<notin> set name"
    and "alnum (hd name)"
  using assms
  by (auto simp: managedVolumeNamePattern_def list_all_iff alnum_def graphic_def byte_def split: list.splits)

lemma managed_name_proper:
  assumes "managedVolumeNamePattern name"
  shows "proper_elem name"
proof -
  have "\<not> alnum CHR ''.''" by (simp add: alnum_def byte_def)
  with managed_name_chars[OF assms] show ?thesis by (auto simp: proper_elem_def)
qed

lemma default_dirs:
  "''/var/lib/lotsen/volumes'' = abs_path [''var'', ''lib'', ''lotsen'', ''volumes'']"
  "''/var/lib/lotsen/files'' = abs_path [''var'', ''lib'', ''lotsen'', ''files'']"
  by (simp_all add: abs_path_def)

text \<open>A base directory that passes the code's check is an absolute clean path.\<close>

definition base_dir :: "string \<Rightarrow> string list \<Rightarrow> bool" where
  "base_dir base es \<longleftrightarrow> base = abs_path es \<and> list_all proper_elem es"

lemma Clean_base: "base_dir base es \<Longrightarrow> Clean base = base"
  by (simp add: base_dir_def Clean_abs_path)

lemma base_from_clean:
  assumes "IsAbs (Clean dir)"
  shows "\<exists>es. base_dir (Clean dir) es"
  using assms by (metis Clean_abs IsAbs_Clean base_dir_def)

lemma managed_base_dirs:
  "IsAbs (managedVolumesBaseDirFromEnv os) \<Longrightarrow> \<exists>es. base_dir (managedVolumesBaseDirFromEnv os) es"
  "IsAbs (managedFilesBaseDirFromEnv os) \<Longrightarrow> \<exists>es. base_dir (managedFilesBaseDirFromEnv os) es"
proof -
  have "\<exists>es. base_dir ''/var/lib/lotsen/volumes'' es" "\<exists>es. base_dir ''/var/lib/lotsen/files'' es"
    unfolding base_dir_def default_dirs by ((intro exI conjI, rule refl, simp add: proper_elem_def)+)
  then show "IsAbs (managedVolumesBaseDirFromEnv os) \<Longrightarrow> \<exists>es. base_dir (managedVolumesBaseDirFromEnv os) es"
    "IsAbs (managedFilesBaseDirFromEnv os) \<Longrightarrow> \<exists>es. base_dir (managedFilesBaseDirFromEnv os) es"
    by (auto simp: managedVolumesBaseDirFromEnv_def managedFilesBaseDirFromEnv_def Let_def
        intro: base_from_clean split: if_splits)
qed

text \<open>A path inside the directory that a deployment has below a base directory.\<close>

definition below :: "string \<Rightarrow> string \<Rightarrow> string \<Rightarrow> bool" where
  "below base depID p \<longleftrightarrow>
     (\<exists>es rest. base = abs_path es \<and> list_all proper_elem (es @ depID # rest) \<and> p = abs_path (es @ depID # rest))"

lemma managed_join:
  assumes "base_dir base es" and "proper_elem depID" and "proper_elem name"
  shows "FilepathJoin [base, depID, name] = abs_path (es @ [depID, name])"
    and "below base depID (FilepathJoin [base, depID, name])"
    and "below base depID (Dir (FilepathJoin [base, depID, name]))"
    and "isPathWithinBase base (FilepathJoin [base, depID, name])"
proof -
  show j: "FilepathJoin [base, depID, name] = abs_path (es @ [depID, name])"
    using assms Join_abs_below[of es "[depID, name]"] by (simp add: base_dir_def)
  have D: "Dir (abs_path ((es @ [depID]) @ [name])) = abs_path (es @ [depID])"
    using assms by (intro Dir_abs_path) (simp_all add: base_dir_def)
  show "below base depID (FilepathJoin [base, depID, name])"
    unfolding j below_def using assms by (intro exI[of _ es] exI[of _ "[name]"]) (simp add: base_dir_def)
  show "below base depID (Dir (FilepathJoin [base, depID, name]))"
    unfolding j below_def using assms D by (intro exI[of _ es] exI[of _ "[]"]) (simp add: base_dir_def)
  have R: "Rel base (abs_path (es @ [depID, name])) = Some (depID @ ''/'' @ name)"
    using assms Rel_below[of es "[depID, name]"] by (simp add: base_dir_def)
  have "HasPrefix (depID @ ''/'' @ name) ''../'' \<Longrightarrow> depID = ''..''"
    using assms(2) Cut_present[of "CHR ''/''" depID name] Cut_present[of "CHR ''/''" "''..''"]
    by (auto simp: HasPrefix_iff proper_elem_def)
  moreover have "depID @ ''/'' @ name \<noteq> ''..''"
  proof
    assume "depID @ ''/'' @ name = ''..''"
    then have "CHR ''/'' \<in> set ''..''" by (metis in_set_conv_decomp append_Cons append_Nil)
    then show False by simp
  qed
  ultimately show "isPathWithinBase base (FilepathJoin [base, depID, name])"
    using R assms(2) unfolding j by (auto simp: isPathWithinBase_def proper_elem_def)
qed

section \<open>The calls an operation makes\<close>

fun call_path :: "os_call \<Rightarrow> string" where
  "call_path (CallMkdirAll p m) = p"
| "call_path (CallChown p u g) = p"
| "call_path (CallChmod p m) = p"
| "call_path (CallOpenTrunc p m) = p"
| "call_path (CallWriteString p t) = p"
| "call_path (CallCloseFile p) = p"

text \<open>All calls added to the log concern paths of a set.\<close>

definition only_calls :: "(string \<Rightarrow> bool) \<Rightarrow> 'f files \<Rightarrow> 'f files \<Rightarrow> bool" where
  "only_calls P s s' \<longleftrightarrow> (\<exists>calls. fl_log s' = fl_log s @ calls \<and> (\<forall>c \<in> set calls. P (call_path c)))"

lemma only_calls_refl [simp]: "only_calls P s s"
  by (simp add: only_calls_def)

lemma only_calls_trans [trans]: "only_calls P s s1 \<Longrightarrow> only_calls P s1 s2 \<Longrightarrow> only_calls P s s2"
  unfolding only_calls_def by (metis (no_types, lifting) Un_iff append.assoc set_append)

lemma run_call_only: "run_call os c s = (r, s') \<Longrightarrow> P (call_path c) \<Longrightarrow> only_calls P s s'"
  by (cases c) (auto simp: only_calls_def os_do_def split: prod.splits)

lemma run_call_only_snd: "P (call_path c) \<Longrightarrow> only_calls P s (snd (run_call os c s))"
  by (metis prod.collapse run_call_only)

lemma apply_settings_only:
  assumes "apply_settings os m p st ex s = (r, s')" and "P p"
  shows "only_calls P s s'"
proof -
  let ?c = "CallChown p (case ms_uid st of None \<Rightarrow> -1 | Some u \<Rightarrow> u) (case ms_gid st of None \<Rightarrow> -1 | Some g \<Rightarrow> g)"
  obtain e s1 where e: "(if ms_uid st \<noteq> None \<or> ms_gid st \<noteq> None then run_call os ?c s else (None, s)) = (e, s1)"
    by (meson surj_pair)
  then have "only_calls P s s1"
    using run_call_only[of os ?c s e s1 P] assms(2) by (auto split: if_splits)
  moreover have "only_calls P s1 s'"
    using assms e run_call_only[of os "CallChmod p _" s1 _ _ P]
    by (auto simp: apply_settings_def Let_def split: option.splits prod.splits if_splits)
  ultimately show ?thesis by (rule only_calls_trans)
qed

lemma write_file_only:
  assumes "write_file os p t s = (r, s')" and "P p"
  shows "only_calls P s s'"
proof -
  obtain e1 s1 where 1: "run_call os (CallOpenTrunc p 384) s = (e1, s1)" by (meson surj_pair)
  obtain e2 s2 where 2: "run_call os (CallWriteString p t) s1 = (e2, s2)" by (meson surj_pair)
  obtain e3 s3 where 3: "run_call os (CallCloseFile p) s2 = (e3, s3)" by (meson surj_pair)
  note steps = run_call_only[OF 1, of P] run_call_only[OF 2, of P] run_call_only[OF 3, of P]
  have "only_calls P s s1" "only_calls P s s2" "only_calls P s s3"
    using steps assms(2) only_calls_trans by (simp, metis call_path.simps(4,5), metis call_path.simps(4-6))
  moreover have "s' \<in> {s1, s2, s3}"
    using assms(1) 1 2 3 unfolding write_file_def by (auto split: option.splits)
  ultimately show ?thesis by blast
qed

lemma ensure_volume:
  assumes "ensureManagedVolumeDirectoryWithSettings os depID name st s = (r, s')"
    and "proper_elem depID" and "proper_elem name"
  shows "only_calls (below (managedVolumesBaseDirFromEnv os) depID) s s'"
    and "r = Inr p \<Longrightarrow> \<exists>es. base_dir (managedVolumesBaseDirFromEnv os) es \<and> p = abs_path (es @ [depID, name])"
proof -
  let ?base = "managedVolumesBaseDirFromEnv os"
  have "only_calls (below ?base depID) s s' \<and>
      (r = Inr p \<longrightarrow> (\<exists>es. base_dir ?base es \<and> p = abs_path (es @ [depID, name])))"
  proof (cases "IsAbs ?base")
    case False
    with assms(1) show ?thesis by (auto simp: ensureManagedVolumeDirectoryWithSettings_def Let_def)
  next
    case True
    then obtain es where es: "base_dir ?base es" using managed_base_dirs(1) by blast
    note j = managed_join[OF es assms(2,3)]
    let ?p = "abs_path (es @ [depID, name])"
    obtain e1 s1 where 1: "run_call os (CallMkdirAll ?p 493) s = (e1, s1)" by (meson surj_pair)
    have step1: "only_calls (below ?base depID) s s1"
      using run_call_only[OF 1] j(1,2) by simp
    obtain e2 s2 where 2: "apply_settings os 511 ?p st (os_Stat os ?p (fl_world s) \<noteq> StatNotExist) s1 = (e2, s2)"
      by (meson surj_pair)
    have step2: "only_calls (below ?base depID) s s2"
      using apply_settings_only[OF 2, of "below ?base depID"] j(1,2) step1 only_calls_trans by metis
    have "s' \<in> {s, s1, s2} \<and> (\<forall>p. r = Inr p \<longrightarrow> p = ?p)"
      using assms(1) True j(1,4) Clean_base[OF es] 1 2
      unfolding ensureManagedVolumeDirectoryWithSettings_def applyManagedVolumeSettings_def
      by (auto simp: Let_def split: stat_result.splits option.splits)
    with step1 step2 es show ?thesis by auto
  qed
  then show "only_calls (below ?base depID) s s'"
    "r = Inr p \<Longrightarrow> \<exists>es. base_dir ?base es \<and> p = abs_path (es @ [depID, name])" by blast+
qed

lemma ensure_file:
  assumes "ensureManagedFileWithSettings os depID name t st s = (r, s')"
    and "proper_elem depID" and "proper_elem name"
  shows "only_calls (below (managedFilesBaseDirFromEnv os) depID) s s'"
proof (cases "IsAbs (managedFilesBaseDirFromEnv os)")
  case False
  with assms(1) show ?thesis by (auto simp: ensureManagedFileWithSettings_def Let_def)
next
  case True
  let ?base = "managedFilesBaseDirFromEnv os"
  let ?P = "below ?base depID"
  from True obtain es where es: "base_dir ?base es" using managed_base_dirs(2) by blast
  note j = managed_join[OF es assms(2,3)]
  let ?p = "abs_path (es @ [depID, name])"
  obtain e1 s1 where 1: "run_call os (CallMkdirAll (Dir ?p) 493) s = (e1, s1)" by (meson surj_pair)
  obtain e2 s2 where 2: "write_file os ?p t s1 = (e2, s2)" by (meson surj_pair)
  obtain e3 s3 where 3: "apply_settings os 420 ?p st (os_Lstat os ?p (fl_world s1) \<noteq> StatNotExist) s2 = (e3, s3)"
    by (meson surj_pair)
  have P: "?P ?p" "?P (Dir ?p)" using j(1-3) by simp_all
  have step1: "only_calls ?P s s1" using run_call_only[OF 1] P(2) by simp
  have step2: "only_calls ?P s s2" using write_file_only[OF 2, of ?P] P(1) step1 only_calls_trans by metis
  have step3: "only_calls ?P s s3" using apply_settings_only[OF 3, of ?P] P(1) step2 only_calls_trans by metis
  have "s' \<in> {s, s1, s2, s3}"
    using assms(1) True j(1,4) Clean_base[OF es] 1 2 3
    unfolding ensureManagedFileWithSettings_def applyManagedFileSettings_def
    by (auto simp: Let_def split: stat_result.splits option.splits if_splits)
  with step1 step2 step3 show ?thesis by auto
qed

text \<open>What a resolved mount binds: a managed directory of the deployment, or an absolute host path.\<close>

definition managed_mode :: "volumeMountRequest \<Rightarrow> bool" where
  "managed_mode m \<longleftrightarrow> ToLower (TrimSpace (vm_Mode m)) = ''managed''"

definition source_of :: "'f os_api \<Rightarrow> string \<Rightarrow> volumeMountRequest \<Rightarrow> string \<Rightarrow> bool" where
  "source_of os depID m h \<longleftrightarrow>
     (if managed_mode m
      then managedVolumeNamePattern (TrimSpace (vm_Source m)) \<and>
        (\<exists>es. base_dir (managedVolumesBaseDirFromEnv os) es \<and> h = abs_path (es @ [depID, TrimSpace (vm_Source m)]))
      else cleanAbsolutePath (TrimSpace (vm_Source m)) = Some h)"

lemma mount_source:
  assumes "mount_source os depID m s = (r, s')" and "proper_elem depID"
  shows "only_calls (below (managedVolumesBaseDirFromEnv os) depID) s s'"
    and "r = Inr (h, x) \<Longrightarrow> source_of os depID m h"
proof -
  let ?P = "only_calls (below (managedVolumesBaseDirFromEnv os) depID) s s' \<and>
    (r = Inr (h, x) \<longrightarrow> source_of os depID m h)"
  have ?P
  proof (cases "managed_mode m \<and> managedVolumeNamePattern (TrimSpace (vm_Source m))")
    case False
    then show ?thesis
      using assms(1) by (auto simp: mount_source_def managed_mode_def source_of_def Let_def split: if_splits option.splits)
  next
    case True
    then have n: "proper_elem (TrimSpace (vm_Source m))" using managed_name_proper by blast
    show ?thesis
    proof (cases "managedVolumeSettingsFromRequest m")
      case (Inl e)
      with True assms(1) show ?thesis by (auto simp: mount_source_def managed_mode_def Let_def)
    next
      case (Inr st)
      obtain r1 s1 where 1: "ensureManagedVolumeDirectoryWithSettings os depID (TrimSpace (vm_Source m)) st s = (r1, s1)"
        by (meson surj_pair)
      have "s' = s1" and "\<And>h x. r = Inr (h, x) \<Longrightarrow> r1 = Inr h"
        using True Inr 1 assms(1) by (auto simp: mount_source_def managed_mode_def Let_def split: sum.splits)
      with ensure_volume[OF 1 assms(2) n] True show ?thesis by (auto simp: source_of_def)
    qed
  qed
  then show "only_calls (below (managedVolumesBaseDirFromEnv os) depID) s s'"
    "r = Inr (h, x) \<Longrightarrow> source_of os depID m h" by blast+
qed

lemma volume_loop_calls:
  assumes "proper_elem depID"
  shows "only_calls (below (managedVolumesBaseDirFromEnv os) depID) s (snd (volume_loop os depID srcs tgts ms s))"
proof (induction ms arbitrary: srcs tgts s)
  case (Cons m ms)
  obtain r1 s1 where 1: "mount_source os depID m s = (r1, s1)" by (meson surj_pair)
  note step = mount_source(1)[OF 1 assms]
  have "only_calls (below (managedVolumesBaseDirFromEnv os) depID) s
      (snd (volume_loop os depID (h # srcs) (t # tgts) ms s1))" for h t
    using step Cons.IH only_calls_trans by blast
  then show ?case
    using 1 step by (auto split: option.splits sum.splits prod.splits) (metis snd_conv)+
qed simp

lemma file_loop_calls:
  assumes "proper_elem depID"
  shows "only_calls (below (managedFilesBaseDirFromEnv os) depID) s (snd (file_loop os depID srcs tgts n ms s))"
proof (induction ms arbitrary: srcs tgts n s)
  case (Cons m ms)
  show ?case
  proof (cases "file_checks srcs tgts n m")
    case (Inr p)
    obtain t st where p: "p = (t, st)" by (meson surj_pair)
    have name: "proper_elem (TrimSpace (fr_Source m))"
      using Inr managed_name_proper by (auto simp: file_checks_def Let_def split: if_splits)
    obtain r1 s1 where 1: "ensureManagedFileWithSettings os depID (TrimSpace (fr_Source m)) (fr_Content m) st s = (r1, s1)"
      by (meson surj_pair)
    note step = ensure_file[OF 1 assms name]
    have "only_calls (below (managedFilesBaseDirFromEnv os) depID) s
        (snd (file_loop os depID srcs' tgts' n' ms s1))" for srcs' tgts' n'
      using step Cons.IH only_calls_trans by blast
    then show ?thesis
      using 1 step Inr p by (auto simp: Let_def split: sum.splits prod.splits) (metis snd_conv)+
  qed simp
qed simp

lemma volume_loop_Inr:
  assumes "volume_loop os depID srcs tgts ms s = (Inr bs, s')" and "proper_elem depID"
  obtains ps where "bs = map (\<lambda>(h, t). h @ '':'' @ t) ps"
    and "list_all2 (\<lambda>m (h, t). source_of os depID m h \<and> cleanAbsolutePath (vm_Target m) = Some t) ms ps"
    and "distinct (map fst ps)" and "distinct (map snd ps)"
    and "fst ` set ps \<inter> set srcs = {}" and "snd ` set ps \<inter> set tgts = {}"
  using assms(1)
proof (induction ms arbitrary: srcs tgts s bs thesis)
  case Nil
  then show ?case by (auto intro!: Nil.prems(1)[of "[]"])
next
  case (Cons m ms)
  from Cons.prems(2) obtain t where t: "cleanAbsolutePath (vm_Target m) = Some t" and tn: "t \<notin> set tgts"
    by (auto split: option.splits if_splits)
  from Cons.prems(2) t tn obtain h x s1 where 1: "mount_source os depID m s = (Inr (h, x), s1)"
    and hn: "h \<notin> set srcs"
    by (auto split: sum.splits prod.splits if_splits)
  from Cons.prems(2) t tn 1 hn obtain bs1 where
    2: "volume_loop os depID (h # srcs) (t # tgts) ms s1 = (Inr bs1, s')" and bs: "bs = (h @ '':'' @ t) # bs1"
    by (auto split: sum.splits prod.splits)
  from Cons.IH[OF _ 2] obtain ps where "bs1 = map (\<lambda>(h, t). h @ '':'' @ t) ps"
    "list_all2 (\<lambda>m (h, t). source_of os depID m h \<and> cleanAbsolutePath (vm_Target m) = Some t) ms ps"
    "distinct (map fst ps)" "distinct (map snd ps)"
    "fst ` set ps \<inter> set (h # srcs) = {}" "snd ` set ps \<inter> set (t # tgts) = {}"
    by blast
  with bs t tn hn mount_source(2)[OF 1 assms(2), of h x] show ?case
    by (intro Cons.prems(1)[of "(h, t) # ps"]) auto
qed

lemma cleanAbsolutePath_Some:
  assumes "cleanAbsolutePath raw = Some p"
  shows "p = Clean (TrimSpace raw)" and "IsAbs p" and "Clean p = p"
  using assms IsAbs_Clean Clean_idem
  by (auto simp: cleanAbsolutePath_def Let_def split: if_splits)

lemma source_of_abs: "source_of os depID m h \<Longrightarrow> proper_elem depID \<Longrightarrow> IsAbs h \<and> Clean h = h"
  by (auto simp: source_of_def base_dir_def managed_name_proper intro: Clean_abs_path cleanAbsolutePath_Some(2,3)
      split: if_splits)

lemma managed_name_roundtrip:
  assumes "base_dir (managedVolumesBaseDirFromEnv os) es" and "proper_elem depID"
    and "managedVolumeNamePattern name"
  shows "managedVolumeNameForDeployment os depID (abs_path (es @ [depID, name])) = Some name"
proof -
  note n = managed_name_chars[OF assms(3)]
  have pn: "proper_elem name" by (rule managed_name_proper[OF assms(3)])
  have d: "list_all proper_elem (es @ [depID, name])" using assms pn by (simp add: base_dir_def)
  have p: "abs_path (es @ [depID, name]) = abs_path (es @ [depID]) @ ''/'' @ name"
    using abs_path_snoc[of "es @ [depID]" name] by simp
  then have "last (abs_path (es @ [depID, name])) = last name" using n(1) by simp
  moreover have "graphic (last name)" using n(1,2) by (simp add: list_all_iff)
  ultimately have "TrimSpace (abs_path (es @ [depID, name])) = abs_path (es @ [depID, name])"
    by (intro TrimSpace_graphic) (simp_all add: abs_path_def graphic_def byte_def)
  then have c: "Clean (TrimSpace (abs_path (es @ [depID, name]))) = abs_path (es @ [depID]) @ ''/'' @ name"
    using Clean_abs_path[OF d] p by simp
  have "FilepathJoin [abs_path es, depID] = abs_path (es @ [depID])"
    using assms by (intro Join_abs_below) (simp_all add: base_dir_def)
  moreover have "\<not> Contains name ''/''"
    using n(3) by (induction name) (auto simp: HasPrefix_def)
  ultimately show ?thesis
    using assms(3) Clean_base[OF assms(1)] assms(1) HasPrefix_append[of "abs_path (es @ [depID]) @ ''/''" name]
    unfolding managedVolumeNameForDeployment_def c Let_def
    by (simp add: base_dir_def TrimPrefix_def)
qed

lemma sep_in_abs_path:
  assumes "c \<noteq> CHR ''/''"
  shows "c \<in> set (abs_path es) \<longleftrightarrow> (\<exists>e \<in> set es. c \<in> set e)"
proof -
  have "c \<in> set (Join es ''/'') \<longleftrightarrow> (\<exists>e \<in> set es. c \<in> set e)"
    using assms by (induction es rule: induct_list012) auto
  with assms show ?thesis by (simp add: abs_path_def)
qed

text \<open>What the API shows for a mount of a request.\<close>

definition shown_mount :: "volumeMountRequest \<Rightarrow> volumeMountResponse" where
  "shown_mount m =
     \<lparr>vr_Mode = (if managed_mode m then ''managed'' else ''bind''),
      vr_Source = (if managed_mode m then TrimSpace (vm_Source m) else Clean (TrimSpace (vm_Source m))),
      vr_Target = Clean (TrimSpace (vm_Target m))\<rparr>"

text \<open>A bind source that can be told apart from a managed one and from its target.\<close>

definition plain_bind :: "'f os_api \<Rightarrow> string \<Rightarrow> volumeMountRequest \<Rightarrow> bool" where
  "plain_bind os depID m \<longleftrightarrow>
     (let h = Clean (TrimSpace (vm_Source m)) in
      CHR '':'' \<notin> set h \<and> managedVolumeNameForDeployment os depID h = None)"

lemma mount_of_binding_shown:
  assumes "source_of os depID m h" and "cleanAbsolutePath (vm_Target m) = Some t"
    and "proper_elem depID" and "CHR '':'' \<notin> set depID" and "CHR '':'' \<notin> set (managedVolumesBaseDirFromEnv os)"
    and "\<not> managed_mode m \<Longrightarrow> plain_bind os depID m"
  shows "mount_of_binding os depID (h @ '':'' @ t) = [shown_mount m]"
proof (cases "managed_mode m")
  case True
  with assms(1) obtain es where es: "base_dir (managedVolumesBaseDirFromEnv os) es"
    and h: "h = abs_path (es @ [depID, TrimSpace (vm_Source m)])"
    and n: "managedVolumeNamePattern (TrimSpace (vm_Source m))"
    by (auto simp: source_of_def)
  have "CHR '':'' \<notin> set h"
    using assms(4,5) es managed_name_chars(4)[OF n] unfolding h
    by (auto simp: sep_in_abs_path base_dir_def)
  then have "Cut (h @ '':'' @ t) (CHR '':'') = (h, t, True)" by (simp add: Cut_present)
  moreover have "h \<noteq> []" by (simp add: h abs_path_def)
  ultimately show ?thesis
    using managed_name_roundtrip[OF es assms(3) n] True cleanAbsolutePath_Some(1)[OF assms(2)]
    by (simp add: mount_of_binding_def shown_mount_def h)
next
  case False
  with assms(1) have c: "cleanAbsolutePath (TrimSpace (vm_Source m)) = Some h" by (simp add: source_of_def)
  then have h: "h = Clean (TrimSpace (vm_Source m))" "h \<noteq> []"
    using cleanAbsolutePath_Some(1,2)[OF c] IsAbs_not_Nil by auto
  with assms(6)[OF False] have "CHR '':'' \<notin> set h" "managedVolumeNameForDeployment os depID h = None"
    by (simp_all add: plain_bind_def Let_def)
  moreover from this have "Cut (h @ '':'' @ t) (CHR '':'') = (h, t, True)" by (simp add: Cut_present)
  ultimately show ?thesis
    using False h cleanAbsolutePath_Some(1)[OF assms(2)] by (simp add: mount_of_binding_def shown_mount_def)
qed

text \<open>A file mount as it is stored, and the file on disk that belongs to it.\<close>

definition resolved_mount :: "fileMountRequest \<Rightarrow> FileMount \<Rightarrow> bool" where
  "resolved_mount m f \<longleftrightarrow>
     fm_Source f = TrimSpace (fr_Source m) \<and> managedVolumeNamePattern (fm_Source f) \<and>
     cleanAbsolutePath (fr_Target m) = Some (fm_Target f) \<and>
     fm_Content f = fr_Content m \<and> utf8_ValidString (fm_Content f) \<and> length (fm_Content f) \<le> 65536 \<and>
     fm_UID f = fr_UID m \<and> fm_GID f = fr_GID m \<and> fm_FileMode f = TrimSpace (fr_FileMode m) \<and>
     fm_ReadOnly f = fr_ReadOnly m"

definition managed_file :: "'f os_api \<Rightarrow> string \<Rightarrow> string \<Rightarrow> string" where
  "managed_file os depID source = FilepathJoin [Clean (managedFilesBaseDirFromEnv os), depID, source]"

text \<open>The log of a later state extends that of an earlier one.\<close>

definition later :: "'f files \<Rightarrow> 'f files \<Rightarrow> bool" where
  "later s s' \<longleftrightarrow> (\<exists>calls. fl_log s' = fl_log s @ calls)"

lemma later_refl [simp]: "later s s"
  by (simp add: later_def)

lemma later_trans: "later s s1 \<Longrightarrow> later s1 s2 \<Longrightarrow> later s s2"
  by (auto simp: later_def)

lemma later_only_calls: "only_calls P s s' \<Longrightarrow> later s s'"
  by (auto simp: later_def only_calls_def)

lemma later_mem: "later s s' \<Longrightarrow> c \<in> set (fl_log s) \<Longrightarrow> c \<in> set (fl_log s')"
  by (auto simp: later_def)

lemma run_call_logs: "run_call os c s = (r, s') \<Longrightarrow> c \<in> set (fl_log s') \<and> later s s'"
  by (cases c) (auto simp: os_do_def later_def split: prod.splits)

lemma write_file_writes:
  assumes "write_file os p t s = (None, s')"
  shows "CallWriteString p t \<in> set (fl_log s')" and "later s s'"
proof -
  from assms obtain s1 s2 where "run_call os (CallOpenTrunc p 384) s = (None, s1)"
    and "run_call os (CallWriteString p t) s1 = (None, s2)" and "run_call os (CallCloseFile p) s2 = (None, s')"
    by (auto simp: write_file_def split: option.splits prod.splits)
  from this[THEN run_call_logs] show "CallWriteString p t \<in> set (fl_log s')" "later s s'"
    using later_mem later_trans by blast+
qed

lemma ensure_file_writes:
  assumes "ensureManagedFileWithSettings os depID name t st s = (Inr p, s')"
  shows "CallWriteString (managed_file os depID name) t \<in> set (fl_log s')" and "later s s'"
proof -
  let ?p = "managed_file os depID name"
  from assms obtain s1 s2 ex where 1: "run_call os (CallMkdirAll (Dir ?p) 493) s = (None, s1)"
    and 2: "write_file os ?p t s1 = (None, s2)" and 3: "apply_settings os 420 ?p st ex s2 = (None, s')"
    unfolding ensureManagedFileWithSettings_def applyManagedFileSettings_def managed_file_def
    by (auto simp: Let_def split: if_splits stat_result.splits option.splits prod.splits)
  have "later s2 s'" using later_only_calls[OF apply_settings_only[OF 3]] by blast
  then show "CallWriteString ?p t \<in> set (fl_log s')" "later s s'"
    using write_file_writes[OF 2] run_call_logs[OF 1] later_mem later_trans by blast+
qed

lemma file_checks_Inr:
  assumes "file_checks srcs tgts n m = Inr (t, st)"
  shows "managedVolumeNamePattern (TrimSpace (fr_Source m))" and "TrimSpace (fr_Source m) \<notin> set srcs"
    and "cleanAbsolutePath (fr_Target m) = Some t" and "t \<notin> set tgts" and "utf8_ValidString (fr_Content m)"
    and "length (fr_Content m) \<le> 65536" and "n + int (length (fr_Content m)) \<le> 524288"
  using assms
  by (auto simp: file_checks_def Let_def maxFileMountContentLen_def maxFileMountTotalLen_def
      split: if_splits option.splits sum.splits)

lemma file_loop_Inr:
  assumes "file_loop os depID srcs tgts n ms s = (Inr fs, s')"
  shows "list_all2 resolved_mount ms fs \<and> distinct (map fm_Source fs) \<and> distinct (map fm_Target fs) \<and>
    fm_Source ` set fs \<inter> set srcs = {} \<and> fm_Target ` set fs \<inter> set tgts = {} \<and>
    (fs \<noteq> [] \<longrightarrow> n + int (sum_list (map (length \<circ> fm_Content) fs)) \<le> 524288) \<and> later s s' \<and>
    (\<forall>f \<in> set fs. CallWriteString (managed_file os depID (fm_Source f)) (fm_Content f) \<in> set (fl_log s'))"
  using assms
proof (induction ms arbitrary: srcs tgts n s fs)
  case (Cons m ms)
  from Cons.prems obtain t st where c: "file_checks srcs tgts n m = Inr (t, st)"
    by (auto split: sum.splits)
  note chk = file_checks_Inr[OF c]
  from Cons.prems c obtain p s1 where
    1: "ensureManagedFileWithSettings os depID (TrimSpace (fr_Source m)) (fr_Content m) st s = (Inr p, s1)"
    by (auto simp: Let_def split: sum.splits prod.splits)
  from Cons.prems c 1 obtain fs1 where
    2: "file_loop os depID (TrimSpace (fr_Source m) # srcs) (t # tgts) (n + int (length (fr_Content m))) ms s1
        = (Inr fs1, s')"
    and fs0: "fs = \<lparr>fm_Source = TrimSpace (fr_Source m), fm_Target = t, fm_Content = fr_Content m,
      fm_UID = fr_UID m, fm_GID = fr_GID m, fm_FileMode = TrimSpace (fr_FileMode m),
      fm_ReadOnly = fr_ReadOnly m\<rparr> # fs1"
    by (auto simp: Let_def split: sum.splits prod.splits)
  have f0: "resolved_mount m (hd fs)" "fm_Target (hd fs) = t" "fm_Source (hd fs) = TrimSpace (fr_Source m)"
    "fm_Content (hd fs) = fr_Content m" "fs = hd fs # fs1"
    unfolding fs0 by (simp_all add: resolved_mount_def chk)
  then obtain f where fs: "fs = f # fs1" and f: "resolved_mount m f" "fm_Target f = t"
    "fm_Source f = TrimSpace (fr_Source m)" "fm_Content f = fr_Content m"
    by blast
  note ih = Cons.IH[OF 2]
  have "n + int (sum_list (map (length \<circ> fm_Content) fs)) \<le> 524288"
  proof (cases "fs1 = []")
    case False
    with ih have "n + int (length (fr_Content m)) + int (sum_list (map (length \<circ> fm_Content) fs1)) \<le> 524288" by blast
    then show ?thesis by (simp add: fs f)
  qed (use chk(7) in \<open>simp add: fs f\<close>)
  moreover have "CallWriteString (managed_file os depID (TrimSpace (fr_Source m))) (fr_Content m) \<in> set (fl_log s')"
    "later s s'"
  proof -
    from ih have l: "later s1 s'" by (elim conjE)
    show "CallWriteString (managed_file os depID (TrimSpace (fr_Source m))) (fr_Content m) \<in> set (fl_log s')"
      by (rule later_mem[OF l ensure_file_writes(1)[OF 1]])
    show "later s s'" by (rule later_trans[OF ensure_file_writes(2)[OF 1] l])
  qed
  moreover have "fm_Source ` set fs \<inter> set srcs = {}" "fm_Target ` set fs \<inter> set tgts = {}"
    "distinct (map fm_Source fs)" "distinct (map fm_Target fs)"
    using ih chk(2,4) by (auto simp: fs f)
  ultimately show ?case using ih f(1,3,4) by (simp add: fs o_def)
qed simp

section \<open>Properties\<close>

text \<open>
  C28. Managed volumes and files stay in the deployment's own directory. Whatever a request holds,
  every directory created, file opened or written and owner or mode changed while its mounts are
  resolved lies below the base directory, in the directory named after the deployment's ID, with no
  dot elements in the path. The ID must be a proper path element, as generated ones are.
\<close>

theorem managed_calls_confined:
  assumes "proper_elem depID"
  shows "only_calls (below (managedVolumesBaseDirFromEnv os) depID) s
      (snd (resolveVolumeBindings os depID volumes mounts s)) \<and>
    only_calls (below (managedFilesBaseDirFromEnv os) depID) s
      (snd (resolveFileMounts os depID files s))"
  by (cases mounts; cases files)
    (simp_all add: resolveVolumeBindings_def resolveFileMounts_def volume_loop_calls[OF assms] file_loop_calls[OF assms])

text \<open>
  The bindings of a request. When its mounts are resolved, there is one binding per mount, from
  an absolute clean source, which for a managed mount is the directory of that name below the
  deployment's, to the cleaned target; no source and no target occurs twice.
\<close>

theorem volume_bindings_spec:
  assumes "resolveVolumeBindings os depID volumes (Some ms) s = (Inr bs, s')" and "proper_elem depID"
  shows "\<exists>ps. bs = map (\<lambda>(h, t). h @ '':'' @ t) ps \<and> distinct (map fst ps) \<and> distinct (map snd ps) \<and>
    list_all2 (\<lambda>m (h, t). source_of os depID m h \<and> IsAbs h \<and> Clean h = h \<and>
      t = Clean (TrimSpace (vm_Target m)) \<and> IsAbs t) ms ps"
proof -
  from assms(1) have "volume_loop os depID [] [] ms s = (Inr bs, s')" by (simp add: resolveVolumeBindings_def)
  then obtain ps where ps: "bs = map (\<lambda>(h, t). h @ '':'' @ t) ps" "distinct (map fst ps)" "distinct (map snd ps)"
    and l: "list_all2 (\<lambda>m (h, t). source_of os depID m h \<and> cleanAbsolutePath (vm_Target m) = Some t) ms ps"
    using assms(2) by (rule volume_loop_Inr) blast
  from l have "list_all2 (\<lambda>m (h, t). source_of os depID m h \<and> IsAbs h \<and> Clean h = h \<and>
      t = Clean (TrimSpace (vm_Target m)) \<and> IsAbs t) ms ps"
    by (rule list_all2_mono) (auto dest: source_of_abs[OF _ assms(2)] cleanAbsolutePath_Some)
  with ps show ?thesis by blast
qed

text \<open>
  C29. Mounts are shown as they were requested. For a deployment ID and a base directory without a
  colon, the mounts read back from the resolved bindings are those of the request, with mode,
  trimmed name and cleaned paths, as long as bind sources hold no colon and do not themselves lie in
  the deployment's managed directory.
\<close>

theorem volume_mounts_roundtrip:
  assumes "resolveVolumeBindings os depID volumes (Some ms) s = (Inr bs, s')"
    and "proper_elem depID" and "CHR '':'' \<notin> set depID" and "CHR '':'' \<notin> set (managedVolumesBaseDirFromEnv os)"
    and "\<And>m. m \<in> set ms \<Longrightarrow> \<not> managed_mode m \<Longrightarrow> plain_bind os depID m"
  shows "volumeMountsFromBindings os depID bs = map shown_mount ms"
proof -
  from assms(1) have "volume_loop os depID [] [] ms s = (Inr bs, s')" by (simp add: resolveVolumeBindings_def)
  then obtain ps where bs: "bs = map (\<lambda>(h, t). h @ '':'' @ t) ps"
    and l: "list_all2 (\<lambda>m (h, t). source_of os depID m h \<and> cleanAbsolutePath (vm_Target m) = Some t) ms ps"
    using assms(2) by (rule volume_loop_Inr) blast
  from l assms(5) have "concat (map (mount_of_binding os depID) (map (\<lambda>(h, t). h @ '':'' @ t) ps)) = map shown_mount ms"
  proof (induction rule: list_all2_induct)
    case (Cons m ms p ps)
    then show ?case
      using mount_of_binding_shown[of os depID m "fst p" "snd p"] assms(2-4) by (auto simp: split_beta)
  qed simp
  with bs show ?thesis by (simp add: volumeMountsFromBindings_def)
qed

text \<open>
  Resolved file mounts are bounded, distinct and on disk. When the file mounts of a request are
  resolved, each has a valid name, valid UTF-8 content of at most 64 KiB, the contents add up to at
  most 512 KiB, names and targets are distinct, and the content of each was written to its file.
\<close>

theorem file_mounts_spec:
  assumes "resolveFileMounts os depID (Some ms) s = (Inr fs, s')"
  shows "list_all2 resolved_mount ms fs \<and> distinct (map fm_Source fs) \<and> distinct (map fm_Target fs) \<and>
    sum_list (map (length \<circ> fm_Content) fs) \<le> 524288 \<and>
    (\<forall>f \<in> set fs. CallWriteString (managed_file os depID (fm_Source f)) (fm_Content f) \<in> set (fl_log s'))"
proof -
  from assms have "file_loop os depID [] [] 0 ms s = (Inr fs, s')" by (simp add: resolveFileMounts_def)
  from file_loop_Inr[OF this] show ?thesis by (cases "fs = []") auto
qed

text \<open>A machine on which every call succeeds and nothing exists yet, and a request, for the
  witnesses.\<close>

definition os0 :: "unit os_api" where
  "os0 = \<lparr>os_Stat = \<lambda>_ _. StatNotExist, os_Lstat = \<lambda>_ _. StatNotExist, os_MkdirAll = \<lambda>_ _ w. (None, w),
     os_Chown = \<lambda>_ _ _ w. (None, w), os_Chmod = \<lambda>_ _ w. (None, w), os_OpenTrunc = \<lambda>_ _ w. (None, w),
     os_WriteString = \<lambda>_ _ w. (None, w), os_CloseFile = \<lambda>_ w. (None, w),
     os_volumes_dir = '' /srv//data/../volumes/ '', os_files_dir = []\<rparr>"

definition files0 :: "unit files" where
  "files0 = \<lparr>fl_world = (), fl_log = []\<rparr>"

definition mounts0 :: "volumeMountRequest list" where
  "mounts0 =
     [\<lparr>vm_Mode = ''Managed'', vm_Source = '' data '', vm_Target = ''/var/data/'', vm_UID = None, vm_GID = None, vm_DirMode = []\<rparr>,
      \<lparr>vm_Mode = ''bind'', vm_Source = ''/etc/app'', vm_Target = ''/config'', vm_UID = None, vm_GID = None, vm_DirMode = []\<rparr>]"

definition file_mounts0 :: "fileMountRequest list" where
  "file_mounts0 =
     [\<lparr>fr_Source = ''app.conf'', fr_Target = ''/etc/app.conf'', fr_Content = ''x=1'', fr_UID = None, fr_GID = None,
       fr_FileMode = ''600'', fr_ReadOnly = True\<rparr>]"

lemma volumes_sample:
  "resolveVolumeBindings os0 ''dep'' None (Some mounts0) files0 =
     (Inr [''/srv/volumes/dep/data:/var/data'', ''/etc/app:/config''],
      \<lparr>fl_world = (), fl_log = [CallMkdirAll ''/srv/volumes/dep/data'' 493, CallChmod ''/srv/volumes/dep/data'' 511]\<rparr>)"
  by code_simp

lemma file_mounts_sample:
  "resolveFileMounts os0 ''dep'' (Some file_mounts0) files0 =
     (Inr [\<lparr>fm_Source = ''app.conf'', fm_Target = ''/etc/app.conf'', fm_Content = ''x=1'', fm_UID = None,
            fm_GID = None, fm_FileMode = ''600'', fm_ReadOnly = True\<rparr>],
      \<lparr>fl_world = (), fl_log =
        [CallMkdirAll ''/var/lib/lotsen/files/dep'' 493,
         CallOpenTrunc ''/var/lib/lotsen/files/dep/app.conf'' 384,
         CallWriteString ''/var/lib/lotsen/files/dep/app.conf'' ''x=1'',
         CallCloseFile ''/var/lib/lotsen/files/dep/app.conf'',
         CallChmod ''/var/lib/lotsen/files/dep/app.conf'' 384]\<rparr>)"
  by code_simp

lemma dep_proper: "proper_elem ''dep''"
  by (simp add: proper_elem_def)

theorem managed_calls_confined_witness:
  "only_calls (below (managedVolumesBaseDirFromEnv os0) ''dep'') files0
      (snd (resolveVolumeBindings os0 ''dep'' None (Some mounts0) files0)) \<and>
   fl_log (snd (resolveVolumeBindings os0 ''dep'' None (Some mounts0) files0)) \<noteq> []"
  using managed_calls_confined[OF dep_proper, of os0 files0 None "Some mounts0"]
  by (simp add: volumes_sample)

theorem volume_bindings_spec_witness:
  "\<exists>ps. [''/srv/volumes/dep/data:/var/data'', ''/etc/app:/config''] = map (\<lambda>(h, t). h @ '':'' @ t) ps \<and>
    distinct (map fst ps) \<and> distinct (map snd ps)"
  using volume_bindings_spec[OF volumes_sample dep_proper] by (elim exE conjE) (intro exI conjI)

theorem volume_mounts_roundtrip_witness:
  "volumeMountsFromBindings os0 ''dep'' [''/srv/volumes/dep/data:/var/data'', ''/etc/app:/config''] =
     map shown_mount mounts0"
proof (rule volume_mounts_roundtrip[OF volumes_sample dep_proper])
  show "CHR '':'' \<notin> set (managedVolumesBaseDirFromEnv os0)" by code_simp
  fix m assume "m \<in> set mounts0" "\<not> managed_mode m"
  moreover have "list_all (\<lambda>m. managed_mode m \<or> plain_bind os0 ''dep'' m) mounts0" by code_simp
  ultimately show "plain_bind os0 ''dep'' m" by (auto simp: list_all_iff)
qed simp

theorem file_mounts_spec_witness:
  "\<exists>fs. list_all2 resolved_mount file_mounts0 fs \<and> map fm_Content fs = [''x=1''] \<and>
     sum_list (map (length \<circ> fm_Content) fs) \<le> 524288"
  using file_mounts_spec[OF file_mounts_sample] by (intro exI conjI) (blast, simp, blast)

end
