(* ===== verification/Config.thy ===== *)
theory Config
  imports Mounts Ports Net
begin

text \<open>
  Declarative configuration documents (\<open>api/internal/configv1/config.go\<close>): the types of a
  document, its canonical form and its validation.

  Reading and writing JSON is outside the model: \<open>DecodeStrict\<close> and \<open>MarshalCanonical\<close> are the
  decoder and encoder of the standard library around \<open>Canonicalize\<close>. A slice whose absence the
  code never distinguishes from an empty one is a list; \<open>Env\<close> and \<open>Ports\<close>, which are copied into the
  store where the difference shows, are options. \<open>slices.SortFunc\<close> is not stable, so the order it
  gives to elements with equal keys is an argument of the model, as is the order in which a map is
  visited. An error of \<open>Validate\<close> is the pair of a path and a message; the code joins the pairs
  to one text.
\<close>

section \<open>Sorting by a key\<close>

definition sorts_by :: "('a \<Rightarrow> string) \<Rightarrow> ('a list \<Rightarrow> 'a list) \<Rightarrow> bool" where
  "sorts_by key f \<longleftrightarrow> (\<forall>xs. mset (f xs) = mset xs \<and> sorted (map key (f xs)))"

lemma sorts_by_sort_key [simp]: "sorts_by key (sort_key key)"
  by (simp add: sorts_by_def)

lemma sorts_by_perm:
  assumes "sorts_by key f"
  shows "mset (f xs) = mset xs" "set (f xs) = set xs" "length (f xs) = length xs"
    "sorted (map key (f xs))"
  using assms unfolding sorts_by_def by (metis mset_eq_setD mset_eq_length)+

text \<open>With distinct keys there is one sorted order.\<close>

lemma sorted_perm_unique:
  fixes key :: "'a \<Rightarrow> 'b::linorder"
  assumes "mset xs = mset ys" and "distinct (map key xs)" and "sorted (map key xs)" and "sorted (map key ys)"
  shows "xs = ys"
proof -
  have "mset (map key xs) = mset (map key ys)" using assms(1) by simp
  then have "map key xs = map key ys"
    using assms(3,4) by (metis properties_for_sort sorted_sort_id)
  moreover have "set xs = set ys" using assms(1) by (rule mset_eq_setD)
  moreover have "inj_on key (set xs)" using assms(2) by (simp add: distinct_map)
  ultimately show ?thesis by (metis inj_on_map_eq_map Un_absorb)
qed

lemma sorts_by_unique:
  assumes "sorts_by key f" and "sorts_by key g" and "mset xs = mset ys" and "distinct (map key xs)"
  shows "f xs = g ys"
proof (rule sorted_perm_unique[of _ _ key])
  show "mset (f xs) = mset (g ys)" using assms by (simp add: sorts_by_perm)
  show "distinct (map key (f xs))"
    using assms(1,4) by (metis mset_eq_imp_distinct_iff mset_map sorts_by_perm(1))
qed (use assms in \<open>simp_all add: sorts_by_perm\<close>)

lemma sorts_by_id:
  assumes "sorts_by key f" and "distinct (map key xs)" and "sorted (map key xs)"
  shows "f xs = xs"
  using sorts_by_unique[OF assms(1) sorts_by_sort_key refl assms(2)] assms(3)
  by (simp add: sorted_sort_id sort_key_id_if_sorted)

section \<open>Documents\<close>

record Metadata =
  md_Name :: string
  md_Environment :: string
  md_Labels :: "string gomap"

record VolumeMount_v1 =
  v1m_Mode :: string
  v1m_Source :: string
  v1m_Target :: string
  v1m_UID :: "int option"
  v1m_GID :: "int option"
  v1m_DirMode :: string

record FileMount_v1 =
  v1f_Source :: string
  v1f_Target :: string
  v1f_Content :: string
  v1f_UID :: "int option"
  v1f_GID :: "int option"
  v1f_FileMode :: string
  v1f_ReadOnly :: bool

record BasicAuthUser_v1 =
  v1u_Username :: string
  v1u_Password :: string

record Security_v1 =
  v1s_WAFEnabled :: bool
  v1s_WAFMode :: string
  v1s_IPDenylist :: "string list"
  v1s_IPAllowlist :: "string list"
  v1s_CustomRules :: "string list"

record Deployment_v1 =
  v1_Name :: string
  v1_Image :: string
  v1_Domain :: string
  v1_Public :: "bool option"
  v1_Env :: "string gomap option"
  v1_Ports :: "string list option"
  v1_ProxyPort :: "int option"
  v1_VolumeMounts :: "VolumeMount_v1 list"
  v1_FileMounts :: "FileMount_v1 list"
  v1_BasicAuth :: "BasicAuthUser_v1 list option"
  v1_Security :: "Security_v1 option"

record Registry_v1 =
  v1r_Prefix :: string
  v1r_Username :: string
  v1r_Password :: string

record DashboardWAF_v1 =
  v1w_Mode :: string
  v1w_IPAllowlist :: "string list"
  v1w_CustomRules :: "string list"

record Host_v1 =
  v1h_DisplayName :: string
  v1h_DashboardAccessMode :: string
  v1h_DashboardWAF :: "DashboardWAF_v1 option"

record Spec_v1 =
  sp_Deployments :: "Deployment_v1 list"
  sp_Registries :: "Registry_v1 list"
  sp_Host :: "Host_v1 option"

record Document_v1 =
  doc_APIVersion :: string
  doc_Kind :: string
  doc_Metadata :: "Metadata option"
  doc_Spec :: "Spec_v1 option"

text \<open>What the language leaves open: the sorts of equal keys, and the order of map iteration.\<close>

record config_env =
  ce_sort_users :: "BasicAuthUser_v1 list \<Rightarrow> BasicAuthUser_v1 list"
  ce_sort_deployments :: "Deployment_v1 list \<Rightarrow> Deployment_v1 list"
  ce_sort_registries :: "Registry_v1 list \<Rightarrow> Registry_v1 list"
  ce_range :: "string gomap \<Rightarrow> string gomap"

definition config_env_ok :: "config_env \<Rightarrow> bool" where
  "config_env_ok e \<longleftrightarrow> sorts_by v1u_Username (ce_sort_users e) \<and>
     sorts_by v1_Name (ce_sort_deployments e) \<and> sorts_by v1r_Prefix (ce_sort_registries e) \<and>
     range_order (ce_range e)"

section \<open>The canonical form\<close>

definition cloneMap :: "string gomap \<Rightarrow> string gomap" where
  "cloneMap m = fold (\<lambda>(key, val) out. AList.update key val out) m []"

definition canonical_deployment :: "config_env \<Rightarrow> Deployment_v1 \<Rightarrow> Deployment_v1" where
  "canonical_deployment e d = d\<lparr>v1_Env := map_option cloneMap (v1_Env d),
     v1_BasicAuth := map_option (ce_sort_users e) (v1_BasicAuth d)\<rparr>"

definition Canonicalize :: "config_env \<Rightarrow> Document_v1 \<Rightarrow> Document_v1" where
  "Canonicalize e doc =
     (case doc_Spec doc of
        None \<Rightarrow> doc
      | Some spec \<Rightarrow>
          doc\<lparr>doc_Spec := Some
                \<lparr>sp_Deployments = ce_sort_deployments e (map (canonical_deployment e) (sp_Deployments spec)),
                 sp_Registries = ce_sort_registries e (sp_Registries spec),
                 sp_Host = sp_Host spec\<rparr>,
              doc_Metadata := map_option (\<lambda>m. m\<lparr>md_Labels := cloneMap (md_Labels m)\<rparr>) (doc_Metadata doc)\<rparr>)"

section \<open>Secrets and placeholders\<close>

text \<open>The pattern \<open>^\$\{LOTSEN_SECRET_[A-Z0-9_]+\}$\<close>.\<close>

definition placeholder_char :: "char \<Rightarrow> bool" where
  "placeholder_char c \<longleftrightarrow> 65 \<le> byte c \<and> byte c \<le> 90 \<or> 48 \<le> byte c \<and> byte c \<le> 57 \<or> c = CHR ''_''"

definition placeholderPattern :: "string \<Rightarrow> bool" where
  "placeholderPattern s \<longleftrightarrow>
     HasPrefix s ''${LOTSEN_SECRET_'' \<and>
     (let r = drop 16 s in r \<noteq> [] \<and> last r = CHR ''}'' \<and> butlast r \<noteq> [] \<and> list_all placeholder_char (butlast r))"

definition isPlaceholder :: "string \<Rightarrow> bool" where
  "isPlaceholder val = placeholderPattern (TrimSpace val)"

definition looksSensitiveEnvKey :: "string \<Rightarrow> bool" where
  "looksSensitiveEnvKey key =
     (let normalized = ToUpper (TrimSpace key) in
      if normalized = [] then False
      else list_ex (Contains normalized)
             [''SECRET'', ''TOKEN'', ''PASSWORD'', ''DATABASE_URL'', ''PRIVATE_KEY'', ''API_KEY'', ''ACCESS_KEY'', ''_KEY'', ''KEY_''] \<or>
           HasSuffix normalized ''KEY'')"

text \<open>The pattern \<open>^[0-7]{4}$\<close>.\<close>

definition dirModePattern :: "string \<Rightarrow> bool" where
  "dirModePattern s \<longleftrightarrow> length s = 4 \<and> list_all (\<lambda>c. 48 \<le> byte c \<and> byte c \<le> 55) s"

definition isValidCIDRorIP :: "string \<Rightarrow> bool" where
  "isValidCIDRorIP raw =
     (let val = TrimSpace raw in val \<noteq> [] \<and> (ParseCIDR val \<noteq> None \<or> ParseIP val \<noteq> None))"

section \<open>Ports\<close>

definition parsePortSpec_v1 :: "string \<Rightarrow> port_error + portSpec" where
  "parsePortSpec_v1 untrimmed =
     (let raw = TrimSpace untrimmed in
      if raw = [] then Inl PortEmpty
      else case Cut raw (CHR ''/'') of (mainPart, rest, hasProtocol) \<Rightarrow>
        (case portProtocol rest hasProtocol of
           None \<Rightarrow> Inl (PortProtocol (ToLower (TrimSpace rest)))
         | Some protocol \<Rightarrow>
             (let parts = Split mainPart (CHR '':'') in
              if length parts > 2 then Inl (PortMapping raw)
              else case parseValidPortNumber (last parts) of
                Inl err \<Rightarrow> Inl (PortNumber [] err)
              | Inr containerPort \<Rightarrow>
                  (let spec = \<lparr>HostPort = 0, ContainerPort = containerPort, Protocol = protocol\<rparr> in
                   if length parts = 1 then Inr spec
                   else case parseValidPortNumber (hd parts) of
                     Inl err \<Rightarrow> Inl (PortNumber [] err)
                   | Inr hostPort \<Rightarrow> Inr (spec\<lparr>HostPort := hostPort\<rparr>)))))"

section \<open>Validation\<close>

datatype config_message = Text string | PortError port_error

type_synonym config_error = "string \<times> config_message"

definition err_if :: "bool \<Rightarrow> string \<Rightarrow> string \<Rightarrow> config_error list" where
  "err_if c path message = (if c then [(path, Text message)] else [])"

definition at_index :: "string \<Rightarrow> string \<Rightarrow> int \<Rightarrow> string" where
  "at_index path field i = path @ field @ ''['' @ Itoa i @ '']''"

definition validate_metadata :: "config_env \<Rightarrow> Metadata \<Rightarrow> config_error list" where
  "validate_metadata e m =
     err_if (md_Name m \<noteq> [] \<and> length (md_Name m) > 63) ''metadata.name'' ''must be 1..63 characters'' @
     concat (map (\<lambda>(key, val).
       err_if (TrimSpace key = []) ''metadata.labels'' ''keys must be non-empty'' @
       err_if (TrimSpace val = []) (''metadata.labels.'' @ key) ''value must be non-empty'') (ce_range e (md_Labels m)))"

text \<open>The ports of a deployment: the errors, and the container ports of protocol TCP.\<close>

fun validate_ports :: "string \<Rightarrow> int \<Rightarrow> string list \<Rightarrow> config_error list \<times> int list" where
  "validate_ports path i [] = ([], [])"
| "validate_ports path i (raw # rest) =
     (case validate_ports path (i + 1) rest of (errs, tcp) \<Rightarrow>
        (case parsePortSpec_v1 raw of
           Inl err \<Rightarrow> ((at_index path ''.ports'' i, PortError err) # errs, tcp)
         | Inr spec \<Rightarrow> (errs, if Protocol spec = ''tcp'' then ContainerPort spec # tcp else tcp)))"

definition validate_proxy_port :: "string \<Rightarrow> int list \<Rightarrow> int option \<Rightarrow> config_error list" where
  "validate_proxy_port path tcp proxyPort =
     (case proxyPort of
        None \<Rightarrow> []
      | Some p \<Rightarrow>
          if p < 1 \<or> p > 65535 then [(path @ ''.proxyPort'', Text ''must be between 1 and 65535'')]
          else err_if (p \<notin> set tcp) (path @ ''.proxyPort'') ''must match a TCP container port in ports'')"

definition validate_env_entry :: "string \<Rightarrow> string \<times> string \<Rightarrow> config_error list" where
  "validate_env_entry path entry =
     (case entry of (key, val) \<Rightarrow>
        if TrimSpace key = [] then [(path @ ''.env'', Text ''keys must be non-empty'')]
        else err_if (looksSensitiveEnvKey key \<and> \<not> isPlaceholder val) (path @ ''.env.'' @ key)
               ''must use a ${LOTSEN_SECRET_*} placeholder'')"

definition not_absolute :: "string \<Rightarrow> bool" where
  "not_absolute raw = (let p = Clean (TrimSpace raw) in p = ''.'' \<or> \<not> IsAbs p)"

definition negative :: "int option \<Rightarrow> bool" where
  "negative x = (case x of None \<Rightarrow> False | Some n \<Rightarrow> n < 0)"

definition bad_mode :: "string \<Rightarrow> bool" where
  "bad_mode mode \<longleftrightarrow> mode \<noteq> [] \<and> \<not> dirModePattern (TrimSpace mode)"

definition validate_volume_mount :: "string \<Rightarrow> VolumeMount_v1 \<Rightarrow> config_error list" where
  "validate_volume_mount mountPath m =
     (let mode = ToLower (TrimSpace (v1m_Mode m)) in
      err_if (mode \<noteq> ''managed'' \<and> mode \<noteq> ''bind'') (mountPath @ ''.mode'') ''must be managed or bind'' @
      err_if (TrimSpace (v1m_Source m) = []) (mountPath @ ''.source'') ''is required'' @
      err_if (not_absolute (v1m_Target m)) (mountPath @ ''.target'') ''must be an absolute path'' @
      (if mode = ''managed'' then
         err_if (\<not> managedVolumeNamePattern (TrimSpace (v1m_Source m))) (mountPath @ ''.source'')
           ''must match managed volume name pattern'' @
         err_if (negative (v1m_UID m)) (mountPath @ ''.uid'') ''must be >= 0'' @
         err_if (negative (v1m_GID m)) (mountPath @ ''.gid'') ''must be >= 0'' @
         err_if (bad_mode (v1m_DirMode m)) (mountPath @ ''.dirMode'') ''must be an octal permission between 0000 and 0777''
       else []) @
      (if mode = ''bind'' then
         err_if (not_absolute (v1m_Source m)) (mountPath @ ''.source'') ''must be an absolute path for bind mounts'' @
         err_if (v1m_UID m \<noteq> None \<or> v1m_GID m \<noteq> None \<or> TrimSpace (v1m_DirMode m) \<noteq> []) mountPath
           ''uid, gid, and dirMode are only supported for managed mounts''
       else []))"

fun validate_volume_mounts :: "string \<Rightarrow> int \<Rightarrow> VolumeMount_v1 list \<Rightarrow> config_error list" where
  "validate_volume_mounts path i [] = []"
| "validate_volume_mounts path i (m # rest) =
     validate_volume_mount (at_index path ''.volumeMounts'' i) m @ validate_volume_mounts path (i + 1) rest"

text \<open>File mounts: the errors of a mount's source and target, each with the names seen so far.\<close>

definition validate_file_source :: "string \<Rightarrow> string list \<Rightarrow> string \<Rightarrow> config_error list \<times> string list" where
  "validate_file_source mountPath seen source =
     (if source = [] then ([(mountPath @ ''.source'', Text ''is required'')], seen)
      else if \<not> managedVolumeNamePattern source
      then ([(mountPath @ ''.source'', Text ''must match managed file name pattern'')], seen)
      else (err_if (source \<in> set seen) (mountPath @ ''.source'') ''must be unique'', source # seen))"

definition validate_file_target :: "string \<Rightarrow> string list \<Rightarrow> string \<Rightarrow> config_error list \<times> string list" where
  "validate_file_target mountPath seen raw =
     (if not_absolute raw then ([(mountPath @ ''.target'', Text ''must be an absolute path'')], seen)
      else let target = Clean (TrimSpace raw) in
        (err_if (target \<in> set seen) (mountPath @ ''.target'') ''must be unique'', target # seen))"

fun validate_file_mounts :: "string \<Rightarrow> int \<Rightarrow> string list \<Rightarrow> string list \<Rightarrow> FileMount_v1 list \<Rightarrow> config_error list" where
  "validate_file_mounts path i sources targets [] = []"
| "validate_file_mounts path i sources targets (m # rest) =
     (let mountPath = at_index path ''.fileMounts'' i in
      case validate_file_source mountPath sources (TrimSpace (v1f_Source m)) of (errs1, sources') \<Rightarrow>
      case validate_file_target mountPath targets (v1f_Target m) of (errs2, targets') \<Rightarrow>
      errs1 @ errs2 @
      err_if (negative (v1f_UID m)) (mountPath @ ''.uid'') ''must be >= 0'' @
      err_if (negative (v1f_GID m)) (mountPath @ ''.gid'') ''must be >= 0'' @
      err_if (bad_mode (v1f_FileMode m)) (mountPath @ ''.fileMode'') ''must be an octal permission between 0000 and 0777'' @
      validate_file_mounts path (i + 1) sources' targets' rest)"

text \<open>A required key that must be unique among those seen so far.\<close>

definition validate_key :: "string \<Rightarrow> string list \<Rightarrow> string \<Rightarrow> config_error list \<times> string list" where
  "validate_key path seen key =
     (if TrimSpace key = [] then ([(path, Text ''is required'')], seen)
      else (err_if (key \<in> set seen) path ''must be unique'', key # seen))"

fun validate_users :: "string \<Rightarrow> int \<Rightarrow> string list \<Rightarrow> BasicAuthUser_v1 list \<Rightarrow> config_error list" where
  "validate_users path i seen [] = []"
| "validate_users path i seen (u # rest) =
     (let userPath = at_index path ''.basicAuth.users'' i in
      case validate_key (userPath @ ''.username'') seen (v1u_Username u) of (errs, seen') \<Rightarrow>
      errs @
      err_if (\<not> isPlaceholder (v1u_Password u)) (userPath @ ''.password'') ''must use a ${LOTSEN_SECRET_*} placeholder'' @
      validate_users path (i + 1) seen' rest)"

definition validate_basic_auth :: "string \<Rightarrow> BasicAuthUser_v1 list option \<Rightarrow> config_error list" where
  "validate_basic_auth path auth =
     (case auth of
        None \<Rightarrow> []
      | Some users \<Rightarrow> err_if (users = []) (path @ ''.basicAuth.users'') ''must not be empty'' @ validate_users path 0 [] users)"

definition bad_waf_mode :: "string \<Rightarrow> bool" where
  "bad_waf_mode raw \<longleftrightarrow> raw \<noteq> [] \<and>
     (let mode = ToLower (TrimSpace raw) in mode \<noteq> ''detection'' \<and> mode \<noteq> ''enforcement'')"

fun validate_addresses :: "string \<Rightarrow> string \<Rightarrow> int \<Rightarrow> string list \<Rightarrow> config_error list" where
  "validate_addresses path field i [] = []"
| "validate_addresses path field i (entry # rest) =
     err_if (\<not> isValidCIDRorIP entry) (at_index path field i) ''must be a valid CIDR or IP'' @
     validate_addresses path field (i + 1) rest"

definition validate_security :: "string \<Rightarrow> Security_v1 option \<Rightarrow> config_error list" where
  "validate_security path security =
     (case security of
        None \<Rightarrow> []
      | Some s \<Rightarrow>
          err_if (bad_waf_mode (v1s_WAFMode s)) (path @ ''.security.wafMode'') ''must be detection or enforcement'' @
          validate_addresses path ''.security.ipDenylist'' 0 (v1s_IPDenylist s) @
          validate_addresses path ''.security.ipAllowlist'' 0 (v1s_IPAllowlist s))"

definition validate_deployment :: "config_env \<Rightarrow> string \<Rightarrow> Deployment_v1 \<Rightarrow> config_error list" where
  "validate_deployment e path d =
     (case validate_ports path 0 (Prelude.slice (v1_Ports d)) of (port_errs, tcp) \<Rightarrow>
      err_if (TrimSpace (v1_Image d) = []) (path @ ''.image'') ''is required'' @
      err_if (TrimSpace (v1_Domain d) = []) (path @ ''.domain'') ''is required'' @
      err_if (v1_Public d = None) (path @ ''.public'') ''is required'' @
      port_errs @
      validate_proxy_port path tcp (v1_ProxyPort d) @
      concat (map (validate_env_entry path) (ce_range e (Prelude.slice (v1_Env d)))) @
      validate_volume_mounts path 0 (v1_VolumeMounts d) @
      validate_file_mounts path 0 [] [] (v1_FileMounts d) @
      validate_basic_auth path (v1_BasicAuth d) @
      validate_security path (v1_Security d))"

fun validate_deployments :: "config_env \<Rightarrow> int \<Rightarrow> string list \<Rightarrow> Deployment_v1 list \<Rightarrow> config_error list" where
  "validate_deployments e i seen [] = []"
| "validate_deployments e i seen (d # rest) =
     (let path = at_index ''spec'' ''.deployments'' i in
      case validate_key (path @ ''.name'') seen (v1_Name d) of (errs, seen') \<Rightarrow>
      errs @ validate_deployment e path d @ validate_deployments e (i + 1) seen' rest)"

fun validate_registries :: "int \<Rightarrow> string list \<Rightarrow> Registry_v1 list \<Rightarrow> config_error list" where
  "validate_registries i seen [] = []"
| "validate_registries i seen (r # rest) =
     (let path = at_index ''spec'' ''.registries'' i in
      case validate_key (path @ ''.prefix'') seen (v1r_Prefix r) of (errs, seen') \<Rightarrow>
      errs @
      err_if (TrimSpace (v1r_Username r) = []) (path @ ''.username'') ''is required'' @
      err_if (\<not> isPlaceholder (v1r_Password r)) (path @ ''.password'') ''must use a ${LOTSEN_SECRET_*} placeholder'' @
      validate_registries (i + 1) seen' rest)"

definition bad_access_mode :: "string \<Rightarrow> bool" where
  "bad_access_mode raw \<longleftrightarrow> raw \<noteq> [] \<and> ToLower (TrimSpace raw) \<notin> set [''login_only'', ''waf_only'', ''waf_and_login'']"

definition validate_host :: "Host_v1 \<Rightarrow> config_error list" where
  "validate_host h =
     err_if (bad_access_mode (v1h_DashboardAccessMode h)) ''spec.host.dashboardAccessMode''
       ''must be login_only, waf_only, or waf_and_login'' @
     (case v1h_DashboardWAF h of
        None \<Rightarrow> []
      | Some w \<Rightarrow>
          err_if (bad_waf_mode (v1w_Mode w)) ''spec.host.dashboardWaf.mode'' ''must be detection or enforcement'' @
          validate_addresses ''spec.host'' ''.dashboardWaf.ipAllowlist'' 0 (v1w_IPAllowlist w))"

definition APIVersion :: string where "APIVersion = ''lotsen/v1''"
definition Kind_v1 :: string where "Kind_v1 = ''LotsenConfig''"

definition Validate :: "config_env \<Rightarrow> Document_v1 \<Rightarrow> config_error list" where
  "Validate e doc =
     err_if (doc_APIVersion doc \<noteq> APIVersion) ''apiVersion'' ''must equal \"lotsen/v1\"'' @
     err_if (doc_Kind doc \<noteq> Kind_v1) ''kind'' ''must equal \"LotsenConfig\"'' @
     err_if (doc_Spec doc = None) ''spec'' ''is required'' @
     (case doc_Metadata doc of None \<Rightarrow> [] | Some m \<Rightarrow> validate_metadata e m) @
     (case doc_Spec doc of
        None \<Rightarrow> []
      | Some spec \<Rightarrow>
          validate_deployments e 0 [] (sp_Deployments spec) @
          validate_registries 0 [] (sp_Registries spec) @
          (case sp_Host spec of None \<Rightarrow> [] | Some h \<Rightarrow> validate_host h))"

section \<open>What a valid document is\<close>

definition keys_ok :: "string list \<Rightarrow> bool" where
  "keys_ok ks \<longleftrightarrow> distinct ks \<and> (\<forall>k \<in> set ks. TrimSpace k \<noteq> [])"

definition valid_env :: "string gomap \<Rightarrow> bool" where
  "valid_env env \<longleftrightarrow> (\<forall>(key, val) \<in> set env. TrimSpace key \<noteq> [] \<and> (looksSensitiveEnvKey key \<longrightarrow> isPlaceholder val))"

definition valid_volume_mount :: "VolumeMount_v1 \<Rightarrow> bool" where
  "valid_volume_mount m \<longleftrightarrow> \<not> not_absolute (v1m_Target m) \<and> TrimSpace (v1m_Source m) \<noteq> [] \<and>
     (ToLower (TrimSpace (v1m_Mode m)) = ''managed'' \<and> managedVolumeNamePattern (TrimSpace (v1m_Source m)) \<and>
        \<not> negative (v1m_UID m) \<and> \<not> negative (v1m_GID m) \<and> \<not> bad_mode (v1m_DirMode m) \<or>
      ToLower (TrimSpace (v1m_Mode m)) = ''bind'' \<and> \<not> not_absolute (v1m_Source m) \<and>
        v1m_UID m = None \<and> v1m_GID m = None \<and> TrimSpace (v1m_DirMode m) = [])"

definition valid_file_mounts :: "FileMount_v1 list \<Rightarrow> bool" where
  "valid_file_mounts ms \<longleftrightarrow> distinct (map (\<lambda>m. TrimSpace (v1f_Source m)) ms) \<and>
     distinct (map (\<lambda>m. Clean (TrimSpace (v1f_Target m))) ms) \<and>
     (\<forall>m \<in> set ms. managedVolumeNamePattern (TrimSpace (v1f_Source m)) \<and> \<not> not_absolute (v1f_Target m) \<and>
        \<not> negative (v1f_UID m) \<and> \<not> negative (v1f_GID m) \<and> \<not> bad_mode (v1f_FileMode m))"

definition valid_security :: "Security_v1 \<Rightarrow> bool" where
  "valid_security s \<longleftrightarrow> \<not> bad_waf_mode (v1s_WAFMode s) \<and>
     (\<forall>a \<in> set (v1s_IPDenylist s @ v1s_IPAllowlist s). isValidCIDRorIP a)"

definition valid_deployment :: "Deployment_v1 \<Rightarrow> bool" where
  "valid_deployment d \<longleftrightarrow> TrimSpace (v1_Image d) \<noteq> [] \<and> TrimSpace (v1_Domain d) \<noteq> [] \<and> v1_Public d \<noteq> None \<and>
     (\<forall>raw \<in> set (Prelude.slice (v1_Ports d)). \<exists>spec. parsePortSpec raw = Inr spec) \<and>
     (\<forall>p. v1_ProxyPort d = Some p \<longrightarrow> 1 \<le> p \<and> p \<le> 65535 \<and> (\<exists>raw \<in> set (Prelude.slice (v1_Ports d)). matches_proxy_port p raw)) \<and>
     valid_env (Prelude.slice (v1_Env d)) \<and> (\<forall>m \<in> set (v1_VolumeMounts d). valid_volume_mount m) \<and>
     valid_file_mounts (v1_FileMounts d) \<and>
     (\<forall>us. v1_BasicAuth d = Some us \<longrightarrow> us \<noteq> [] \<and> keys_ok (map v1u_Username us) \<and> (\<forall>u \<in> set us. isPlaceholder (v1u_Password u))) \<and>
     (\<forall>s. v1_Security d = Some s \<longrightarrow> valid_security s)"

definition valid_spec_v1 :: "Spec_v1 \<Rightarrow> bool" where
  "valid_spec_v1 spec \<longleftrightarrow>
     keys_ok (map v1_Name (sp_Deployments spec)) \<and> (\<forall>d \<in> set (sp_Deployments spec). valid_deployment d) \<and>
     keys_ok (map v1r_Prefix (sp_Registries spec)) \<and>
     (\<forall>r \<in> set (sp_Registries spec). TrimSpace (v1r_Username r) \<noteq> [] \<and> isPlaceholder (v1r_Password r)) \<and>
     (\<forall>h. sp_Host spec = Some h \<longrightarrow> \<not> bad_access_mode (v1h_DashboardAccessMode h) \<and>
        (\<forall>w. v1h_DashboardWAF h = Some w \<longrightarrow> \<not> bad_waf_mode (v1w_Mode w) \<and>
          (\<forall>a \<in> set (v1w_IPAllowlist w). isValidCIDRorIP a)))"

definition valid_document :: "Document_v1 \<Rightarrow> bool" where
  "valid_document doc \<longleftrightarrow> doc_APIVersion doc = APIVersion \<and> doc_Kind doc = Kind_v1 \<and>
     (\<forall>m. doc_Metadata doc = Some m \<longrightarrow> length (md_Name m) \<le> 63 \<and>
        (\<forall>(key, val) \<in> set (md_Labels m). TrimSpace key \<noteq> [] \<and> TrimSpace val \<noteq> [])) \<and>
     (\<exists>spec. doc_Spec doc = Some spec \<and> valid_spec_v1 spec)"

section \<open>Lemmas\<close>

lemma err_if_Nil [simp]: "err_if c path message = [] \<longleftrightarrow> \<not> c"
  by (simp add: err_if_def)

text \<open>The two parsers of port mappings, of the API and of the configuration, accept the same texts
  and read the same ports from them.\<close>

lemma parsePortSpec_v1_agrees: "parsePortSpec_v1 raw = Inr spec \<longleftrightarrow> parsePortSpec raw = Inr spec"
  by (simp add: parsePortSpec_v1_def parsePortSpec_def parseValidPortNumber_def Let_def TrimSpace_idem
      split: option.split sum.split prod.split)

lemma validate_ports_errors:
  "fst (validate_ports path i ports) = [] \<longleftrightarrow> (\<forall>raw \<in> set ports. \<exists>spec. parsePortSpec raw = Inr spec)"
proof (induction ports arbitrary: i)
  case (Cons raw rest)
  have "(\<exists>spec. parsePortSpec raw = Inr spec) \<longleftrightarrow> (\<exists>spec. parsePortSpec_v1 raw = Inr spec)"
    by (simp add: parsePortSpec_v1_agrees)
  with Cons.IH[of "i + 1"] show ?case
    by (cases "validate_ports path (i + 1) rest"; cases "parsePortSpec_v1 raw") simp_all
qed simp

lemma matches_proxy_port_v1:
  "matches_proxy_port p raw \<longleftrightarrow> (\<exists>spec. parsePortSpec_v1 raw = Inr spec \<and> ContainerPort spec = p \<and> Protocol spec = ''tcp'')"
  unfolding parsePortSpec_v1_agrees by (simp add: matches_proxy_port_def split: sum.split)

lemma validate_ports_tcp:
  "p \<in> set (snd (validate_ports path i ports)) \<longleftrightarrow> (\<exists>raw \<in> set ports. matches_proxy_port p raw)"
proof (induction ports arbitrary: i)
  case (Cons raw rest)
  from Cons.IH[of "i + 1"] show ?case
    by (cases "validate_ports path (i + 1) rest"; cases "parsePortSpec_v1 raw")
      (auto simp: matches_proxy_port_v1[of p raw])
qed simp

lemma validate_proxy_port_Nil:
  "validate_proxy_port path tcp pp = [] \<longleftrightarrow> (\<forall>p. pp = Some p \<longrightarrow> 1 \<le> p \<and> p \<le> 65535 \<and> p \<in> set tcp)"
  by (auto simp: validate_proxy_port_def split: option.split)

lemma validate_env_Nil:
  assumes "range_order f"
  shows "concat (map (validate_env_entry path) (f env)) = [] \<longleftrightarrow> valid_env env"
proof -
  have "set (f env) = set env" using assms unfolding range_order_def by (metis mset_eq_setD)
  moreover have "validate_env_entry path x = [] \<longleftrightarrow>
      (case x of (key, val) \<Rightarrow> TrimSpace key \<noteq> [] \<and> (looksSensitiveEnvKey key \<longrightarrow> isPlaceholder val))" for x
    by (auto simp: validate_env_entry_def split: prod.split)
  ultimately show ?thesis by (simp add: valid_env_def)
qed

lemma validate_volume_mount_Nil: "validate_volume_mount path m = [] \<longleftrightarrow> valid_volume_mount m"
  by (auto simp: validate_volume_mount_def valid_volume_mount_def Let_def)

lemma validate_volume_mounts_Nil: "validate_volume_mounts path i ms = [] \<longleftrightarrow> (\<forall>m \<in> set ms. valid_volume_mount m)"
  by (induction ms arbitrary: i) (simp_all add: validate_volume_mount_Nil)

lemma validate_file_mounts_Nil:
  "validate_file_mounts path i sources targets ms = [] \<longleftrightarrow> valid_file_mounts ms \<and>
     (\<forall>m \<in> set ms. TrimSpace (v1f_Source m) \<notin> set sources \<and> Clean (TrimSpace (v1f_Target m)) \<notin> set targets)"
proof (induction ms arbitrary: i sources targets)
  case (Cons m rest)
  have "managedVolumeNamePattern s \<Longrightarrow> s \<noteq> []" for s by (auto simp: managedVolumeNamePattern_def)
  then show ?case
    by (auto simp: Let_def validate_file_source_def validate_file_target_def Cons.IH valid_file_mounts_def
        intro: rev_image_eqI)
qed (simp add: valid_file_mounts_def)

lemma validate_key_cases:
  obtains "TrimSpace key \<noteq> []" "key \<notin> set seen" "validate_key path seen key = ([], key # seen)"
  | x errs seen' where "TrimSpace key = [] \<or> key \<in> set seen" "validate_key path seen key = (x # errs, seen')"
  by (cases "TrimSpace key = []"; cases "key \<in> set seen") (simp_all add: validate_key_def err_if_def)

lemma validate_users_Nil:
  "validate_users path i seen us = [] \<longleftrightarrow> keys_ok (map v1u_Username us) \<and>
     v1u_Username ` set us \<inter> set seen = {} \<and> (\<forall>u \<in> set us. isPlaceholder (v1u_Password u))"
proof (induction us arbitrary: i seen)
  case (Cons u rest)
  show ?case
    by (rule validate_key_cases[of "v1u_Username u" seen "at_index path ''.basicAuth.users'' i @ ''.username''"])
      (auto simp: Let_def keys_ok_def Cons.IH)
qed (simp add: keys_ok_def)

lemma validate_basic_auth_Nil:
  "validate_basic_auth path auth = [] \<longleftrightarrow> (\<forall>us. auth = Some us \<longrightarrow> us \<noteq> [] \<and> keys_ok (map v1u_Username us) \<and>
     (\<forall>u \<in> set us. isPlaceholder (v1u_Password u)))"
  by (auto simp: validate_basic_auth_def validate_users_Nil split: option.split)

lemma validate_addresses_Nil: "validate_addresses path field i as = [] \<longleftrightarrow> (\<forall>a \<in> set as. isValidCIDRorIP a)"
  by (induction as arbitrary: i) auto

lemma validate_security_Nil: "validate_security path s = [] \<longleftrightarrow> (\<forall>x. s = Some x \<longrightarrow> valid_security x)"
  by (auto simp: validate_security_def valid_security_def validate_addresses_Nil split: option.split)

lemma validate_deployment_Nil:
  assumes "config_env_ok e"
  shows "validate_deployment e path d = [] \<longleftrightarrow> valid_deployment d"
proof -
  obtain errs tcp where v: "validate_ports path 0 (Prelude.slice (v1_Ports d)) = (errs, tcp)" by fastforce
  note ports = validate_ports_errors[of path 0 "Prelude.slice (v1_Ports d)", unfolded v fst_conv]
    validate_ports_tcp[of _ path 0 "Prelude.slice (v1_Ports d)", unfolded v snd_conv]
  from assms have "range_order (ce_range e)" by (simp add: config_env_ok_def)
  note env = validate_env_Nil[OF this]
  show ?thesis
    unfolding validate_deployment_def valid_deployment_def v prod.case append_is_Nil_conv env ports(1)
      validate_proxy_port_Nil ports(2) validate_volume_mounts_Nil validate_file_mounts_Nil validate_basic_auth_Nil
      validate_security_Nil err_if_Nil
    by simp
qed

lemma validate_deployments_Nil:
  assumes "config_env_ok e"
  shows "validate_deployments e i seen ds = [] \<longleftrightarrow> keys_ok (map v1_Name ds) \<and>
     v1_Name ` set ds \<inter> set seen = {} \<and> (\<forall>d \<in> set ds. valid_deployment d)"
proof (induction ds arbitrary: i seen)
  case (Cons d rest)
  show ?case
    by (rule validate_key_cases[of "v1_Name d" seen "at_index ''spec'' ''.deployments'' i @ ''.name''"])
      (auto simp: Let_def keys_ok_def validate_deployment_Nil[OF assms] Cons.IH)
qed (simp add: keys_ok_def)

lemma validate_registries_Nil:
  "validate_registries i seen rs = [] \<longleftrightarrow> keys_ok (map v1r_Prefix rs) \<and> v1r_Prefix ` set rs \<inter> set seen = {} \<and>
     (\<forall>r \<in> set rs. TrimSpace (v1r_Username r) \<noteq> [] \<and> isPlaceholder (v1r_Password r))"
proof (induction rs arbitrary: i seen)
  case (Cons r rest)
  show ?case
    by (rule validate_key_cases[of "v1r_Prefix r" seen "at_index ''spec'' ''.registries'' i @ ''.prefix''"])
      (auto simp: Let_def keys_ok_def Cons.IH)
qed (simp add: keys_ok_def)

lemma validate_host_Nil:
  "validate_host h = [] \<longleftrightarrow> \<not> bad_access_mode (v1h_DashboardAccessMode h) \<and>
     (\<forall>w. v1h_DashboardWAF h = Some w \<longrightarrow> \<not> bad_waf_mode (v1w_Mode w) \<and> (\<forall>a \<in> set (v1w_IPAllowlist w). isValidCIDRorIP a))"
  by (auto simp: validate_host_def validate_addresses_Nil split: option.split)

lemma validate_metadata_Nil:
  assumes "config_env_ok e"
  shows "validate_metadata e m = [] \<longleftrightarrow> length (md_Name m) \<le> 63 \<and>
    (\<forall>(key, val) \<in> set (md_Labels m). TrimSpace key \<noteq> [] \<and> TrimSpace val \<noteq> [])"
proof -
  have "set (ce_range e (md_Labels m)) = set (md_Labels m)"
    using assms unfolding config_env_ok_def range_order_def by (metis mset_eq_setD)
  then show ?thesis by (auto simp: validate_metadata_def)
qed

lemma Validate_Nil:
  assumes "config_env_ok e"
  shows "Validate e doc = [] \<longleftrightarrow> valid_document doc"
  by (cases "doc_Spec doc"; cases "doc_Metadata doc")
    (auto simp: Validate_def valid_document_def valid_spec_v1_def validate_metadata_Nil[OF assms]
      validate_deployments_Nil[OF assms] validate_registries_Nil validate_host_Nil split: option.split)

subsection \<open>The canonical form\<close>

lemma fold_update_append:
  assumes "distinct (map fst (acc @ m))"
  shows "fold (\<lambda>(key, val) out. AList.update key val out) m acc = acc @ m"
  using assms
proof (induction m arbitrary: acc)
  case (Cons x m)
  obtain k v where x: "x = (k, v)" by fastforce
  have "k \<notin> fst ` set acc \<Longrightarrow> AList.update k v acc = acc @ [(k, v)]" for acc :: "('a \<times> 'b) list"
    by (induction acc) auto
  with Cons.prems have "AList.update k v acc = acc @ [(k, v)]" by (auto simp: x)
  with Cons.IH[of "acc @ [x]"] Cons.prems show ?case by (simp add: x)
qed simp

lemma cloneMap_id: "distinct (map fst m) \<Longrightarrow> cloneMap m = m"
  using fold_update_append[of "[]" m] by (simp add: cloneMap_def)

text \<open>A decoded document: its maps have distinct keys.\<close>

definition proper_document :: "Document_v1 \<Rightarrow> bool" where
  "proper_document doc \<longleftrightarrow>
     (\<forall>m. doc_Metadata doc = Some m \<longrightarrow> distinct (map fst (md_Labels m))) \<and>
     (\<forall>spec. doc_Spec doc = Some spec \<longrightarrow> (\<forall>d \<in> set (sp_Deployments spec). distinct (map fst (Prelude.slice (v1_Env d)))))"

lemma canonical_deployment_name [simp]: "v1_Name (canonical_deployment e d) = v1_Name d"
  by (simp add: canonical_deployment_def)

lemma proper_clone_env: "distinct (map fst (Prelude.slice env)) \<Longrightarrow> map_option cloneMap env = env"
  by (cases env) (simp_all add: Prelude.slice_def cloneMap_id)

lemma canonical_deployment_cong:
  assumes "config_env_ok e" and "config_env_ok e'" and "valid_deployment d"
  shows "canonical_deployment e d = canonical_deployment e' d"
proof -
  have "ce_sort_users e us = ce_sort_users e' us" if "v1_BasicAuth d = Some us" for us
    using assms that by (intro sorts_by_unique[of v1u_Username])
      (auto simp: config_env_ok_def valid_deployment_def keys_ok_def)
  then show ?thesis by (cases "v1_BasicAuth d") (simp_all add: canonical_deployment_def)
qed

lemma canonical_deployment_idem:
  assumes "config_env_ok e" and "config_env_ok e'" and "valid_deployment d" and "distinct (map fst (Prelude.slice (v1_Env d)))"
  shows "canonical_deployment e (canonical_deployment e' d) = canonical_deployment e' d"
proof -
  have "ce_sort_users e (ce_sort_users e' us) = ce_sort_users e' us" if "v1_BasicAuth d = Some us" for us
  proof -
    from assms(2) have p: "sorts_by v1u_Username (ce_sort_users e')" by (simp add: config_env_ok_def)
    have "distinct (map v1u_Username us)" using assms(3) that by (simp add: valid_deployment_def keys_ok_def)
    then have "distinct (map v1u_Username (ce_sort_users e' us))"
      using sorts_by_perm(1)[OF p, of us] by (metis mset_eq_imp_distinct_iff mset_map)
    with assms(1) sorts_by_perm(4)[OF p] show ?thesis
      by (intro sorts_by_id[of v1u_Username]) (auto simp: config_env_ok_def)
  qed
  then show ?thesis using proper_clone_env[OF assms(4)]
    by (cases "v1_BasicAuth d") (simp_all add: canonical_deployment_def)
qed

lemma canonical_deployment_valid:
  assumes "config_env_ok e" and "distinct (map fst (Prelude.slice (v1_Env d)))"
  shows "valid_deployment (canonical_deployment e d) \<longleftrightarrow> valid_deployment d"
proof -
  from assms(1) have p: "sorts_by v1u_Username (ce_sort_users e)" by (simp add: config_env_ok_def)
  have "distinct (map v1u_Username (ce_sort_users e us)) \<longleftrightarrow> distinct (map v1u_Username us)" for us
    using sorts_by_perm(1)[OF p, of us] by (metis mset_eq_imp_distinct_iff mset_map)
  moreover have "ce_sort_users e us = [] \<longleftrightarrow> us = []" for us
    using sorts_by_perm(3)[OF p, of us] by (metis length_0_conv)
  ultimately have "(us \<noteq> [] \<and> keys_ok (map v1u_Username us) \<and> (\<forall>u \<in> set us. isPlaceholder (v1u_Password u))) \<longleftrightarrow>
      (ce_sort_users e us \<noteq> [] \<and> keys_ok (map v1u_Username (ce_sort_users e us)) \<and>
       (\<forall>u \<in> set (ce_sort_users e us). isPlaceholder (v1u_Password u)))" for us
    by (simp add: keys_ok_def sorts_by_perm(2)[OF p])
  then show ?thesis
    by (cases "v1_BasicAuth d") (simp_all add: valid_deployment_def canonical_deployment_def proper_clone_env[OF assms(2)])
qed

text \<open>A valid document and what the two forms of it share.\<close>

lemma Canonicalize_Some:
  assumes "doc_Spec doc = Some spec"
  shows "doc_Spec (Canonicalize e doc) = Some
      \<lparr>sp_Deployments = ce_sort_deployments e (map (canonical_deployment e) (sp_Deployments spec)),
       sp_Registries = ce_sort_registries e (sp_Registries spec), sp_Host = sp_Host spec\<rparr>"
    "proper_document doc \<Longrightarrow> doc_Metadata (Canonicalize e doc) = doc_Metadata doc"
    "doc_APIVersion (Canonicalize e doc) = doc_APIVersion doc" "doc_Kind (Canonicalize e doc) = doc_Kind doc"
  using assms
  by (cases "doc_Metadata doc"; simp add: Canonicalize_def proper_document_def cloneMap_id)+

lemma Canonicalize_valid:
  assumes "config_env_ok e" and "proper_document doc" and "valid_document doc"
  shows "valid_document (Canonicalize e doc)"
proof -
  from assms(3) obtain spec where spec: "doc_Spec doc = Some spec" and v: "valid_spec_v1 spec"
    by (auto simp: valid_document_def)
  let ?ds = "ce_sort_deployments e (map (canonical_deployment e) (sp_Deployments spec))"
  let ?rs = "ce_sort_registries e (sp_Registries spec)"
  have pd: "sorts_by v1_Name (ce_sort_deployments e)" and pr: "sorts_by v1r_Prefix (ce_sort_registries e)"
    using assms(1) by (simp_all add: config_env_ok_def)
  have "mset (map v1_Name ?ds) = mset (map v1_Name (sp_Deployments spec))"
    by (simp add: sorts_by_perm(1)[OF pd] image_mset.compositionality comp_def)
  then have "keys_ok (map v1_Name ?ds)"
    using v unfolding valid_spec_v1_def keys_ok_def by (metis mset_eq_imp_distinct_iff mset_eq_setD)
  moreover have "mset (map v1r_Prefix ?rs) = mset (map v1r_Prefix (sp_Registries spec))"
    by (simp add: sorts_by_perm(1)[OF pr])
  then have "keys_ok (map v1r_Prefix ?rs)"
    using v unfolding valid_spec_v1_def keys_ok_def by (metis mset_eq_imp_distinct_iff mset_eq_setD)
  moreover have "\<forall>d \<in> set ?ds. valid_deployment d"
    using v assms(2) spec unfolding sorts_by_perm(2)[OF pd]
    by (auto simp: valid_spec_v1_def proper_document_def canonical_deployment_valid[OF assms(1)])
  ultimately have "valid_spec_v1 \<lparr>sp_Deployments = ?ds, sp_Registries = ?rs, sp_Host = sp_Host spec\<rparr>"
    using v by (simp add: valid_spec_v1_def sorts_by_perm(2)[OF pr])
  then show ?thesis
    using assms(2,3) unfolding valid_document_def by (simp add: Canonicalize_Some[OF spec])
qed

text \<open>Deployments and registries of a valid document in any order have one canonical form.\<close>

lemma canonical_deployments_unique:
  assumes "config_env_ok e" and "config_env_ok e'" and "mset ds = mset ds'" and "distinct (map v1_Name ds)"
    and "\<forall>d \<in> set ds. valid_deployment d"
  shows "ce_sort_deployments e (map (canonical_deployment e) ds) = ce_sort_deployments e' (map (canonical_deployment e') ds')"
proof (rule sorts_by_unique[of v1_Name "ce_sort_deployments e" "ce_sort_deployments e'"])
  have "set ds = set ds'" using assms(3) by (rule mset_eq_setD)
  then have "map (canonical_deployment e') ds' = map (canonical_deployment e) ds'"
    using canonical_deployment_cong[OF assms(1,2)] assms(5) by simp
  then show "mset (map (canonical_deployment e) ds) = mset (map (canonical_deployment e') ds')"
    using assms(3) by (metis mset_map)
qed (use assms in \<open>simp_all add: config_env_ok_def comp_def\<close>)

lemma canonical_deployments_idem:
  assumes "config_env_ok e" and "config_env_ok e'" and "distinct (map v1_Name ds)"
    and "\<forall>d \<in> set ds. valid_deployment d \<and> distinct (map fst (Prelude.slice (v1_Env d)))"
  shows "ce_sort_deployments e (map (canonical_deployment e) (ce_sort_deployments e' (map (canonical_deployment e') ds))) =
    ce_sort_deployments e' (map (canonical_deployment e') ds)" (is "_ = ?ds'")
proof -
  have pd: "sorts_by v1_Name (ce_sort_deployments e')" using assms(2) by (simp add: config_env_ok_def)
  have "canonical_deployment e d = d" if "d \<in> set ?ds'" for d
    using that assms(4) canonical_deployment_idem[OF assms(1,2)] unfolding sorts_by_perm(2)[OF pd] by auto
  then have "map (canonical_deployment e) ?ds' = ?ds'" by (simp add: map_idI)
  moreover have "mset (map v1_Name ?ds') = mset (map v1_Name ds)"
    by (simp add: sorts_by_perm(1)[OF pd] image_mset.compositionality comp_def)
  then have "distinct (map v1_Name ?ds')" using assms(3) by (metis mset_eq_imp_distinct_iff)
  ultimately show ?thesis
    using sorts_by_id[of v1_Name "ce_sort_deployments e" ?ds'] assms(1) sorts_by_perm(4)[OF pd]
    by (simp add: config_env_ok_def)
qed

definition same_content :: "Document_v1 \<Rightarrow> Document_v1 \<Rightarrow> bool" where
  "same_content doc doc' \<longleftrightarrow> doc_APIVersion doc = doc_APIVersion doc' \<and> doc_Kind doc = doc_Kind doc' \<and>
     doc_Metadata doc = doc_Metadata doc' \<and>
     (\<exists>s s'. doc_Spec doc = Some s \<and> doc_Spec doc' = Some s' \<and> sp_Host s = sp_Host s' \<and>
        mset (sp_Deployments s) = mset (sp_Deployments s') \<and> mset (sp_Registries s) = mset (sp_Registries s'))"

lemma same_contentE:
  assumes "same_content doc doc'" and "valid_document doc"
  obtains s s' where "doc_Spec doc = Some s" "doc_Spec doc' = Some s'" "sp_Host s = sp_Host s'"
    "mset (sp_Deployments s) = mset (sp_Deployments s')" "mset (sp_Registries s) = mset (sp_Registries s')"
    "distinct (map v1_Name (sp_Deployments s))" "\<forall>d \<in> set (sp_Deployments s). valid_deployment d"
    "distinct (map v1r_Prefix (sp_Registries s))"
  using assms by (auto simp: same_content_def valid_document_def valid_spec_v1_def keys_ok_def)

lemma Canonicalize_unique:
  assumes "config_env_ok e" and "config_env_ok e'" and "valid_document doc" and "same_content doc doc'"
  shows "Canonicalize e' doc' = Canonicalize e doc"
proof -
  obtain s s' where s: "doc_Spec doc = Some s" "doc_Spec doc' = Some s'" "sp_Host s = sp_Host s'"
    "mset (sp_Deployments s) = mset (sp_Deployments s')" "mset (sp_Registries s) = mset (sp_Registries s')"
    and v: "distinct (map v1_Name (sp_Deployments s))" "\<forall>d \<in> set (sp_Deployments s). valid_deployment d"
      "distinct (map v1r_Prefix (sp_Registries s))"
    using same_contentE[OF assms(4,3)] by blast
  have pr: "sorts_by v1r_Prefix (ce_sort_registries e)" "sorts_by v1r_Prefix (ce_sort_registries e')"
    using assms(1,2) by (simp_all add: config_env_ok_def)
  show ?thesis
    using s assms(4) canonical_deployments_unique[OF assms(1,2) s(4) v(1,2)] sorts_by_unique[OF pr s(5) v(3)]
    by (cases doc; cases doc'; cases "doc_Metadata doc") (auto simp: Canonicalize_def same_content_def)
qed

lemma Canonicalize_idem:
  assumes "config_env_ok e" and "config_env_ok e'" and "valid_document doc" and "proper_document doc"
  shows "Canonicalize e' (Canonicalize e doc) = Canonicalize e doc"
proof -
  from assms(3) obtain s where s: "doc_Spec doc = Some s" by (auto simp: valid_document_def)
  with assms(3) have v: "distinct (map v1_Name (sp_Deployments s))" "\<forall>d \<in> set (sp_Deployments s). valid_deployment d"
      "distinct (map v1r_Prefix (sp_Registries s))"
    by (auto simp: valid_document_def valid_spec_v1_def keys_ok_def)
  have pr: "sorts_by v1r_Prefix (ce_sort_registries e)" "sorts_by v1r_Prefix (ce_sort_registries e')"
    using assms(1,2) by (simp_all add: config_env_ok_def)
  have "distinct (map v1r_Prefix (ce_sort_registries e (sp_Registries s)))"
    using v(3) sorts_by_perm(1)[OF pr(1), of "sp_Registries s"] by (metis mset_eq_imp_distinct_iff mset_map)
  then have "ce_sort_registries e' (ce_sort_registries e (sp_Registries s)) = ce_sort_registries e (sp_Registries s)"
    using sorts_by_id[OF pr(2)] sorts_by_perm(4)[OF pr(1)] by blast
  then show ?thesis
    using s v assms(4) canonical_deployments_idem[OF assms(2,1) v(1)]
    by (cases doc; cases "doc_Metadata doc") (auto simp: Canonicalize_def proper_document_def cloneMap_id)
qed

section \<open>Properties\<close>

text \<open>
  C12. Validation decides validity. \<open>Validate\<close> reports no error exactly for the documents that a
  declarative description admits: version and kind are right, names, registry prefixes, users and
  the sources and targets of file mounts are unique, every port mapping is one the API's own parser
  accepts, the proxy port is a TCP container port, secrets are placeholders, and mounts, modes and
  addresses are well formed. The verdict does not depend on the order in which maps are visited.
\<close>

theorem validate_decides_validity:
  assumes "config_env_ok e"
  shows "Validate e doc = [] \<longleftrightarrow> valid_document doc"
  using assms by (rule Validate_Nil)

text \<open>
  The canonical form is canonical. For a valid document it is again valid, canonicalising it
  once more changes nothing, and it depends neither on the order of the deployments and registries
  in the document nor on how the sort orders equal elements.
\<close>

theorem canonical_form:
  assumes "config_env_ok e" and "config_env_ok e'" and "proper_document doc" and "Validate e doc = []"
    and "same_content doc doc'"
  shows "Validate e (Canonicalize e doc) = [] \<and> Canonicalize e' (Canonicalize e doc) = Canonicalize e doc \<and>
    Canonicalize e' doc' = Canonicalize e doc"
proof -
  have v: "valid_document doc" using assms(1,4) by (simp add: Validate_Nil)
  show ?thesis
    using Validate_Nil[OF assms(1)] Canonicalize_valid[OF assms(1,3) v] Canonicalize_idem[OF assms(1,2) v assms(3)]
      Canonicalize_unique[OF assms(1,2) v assms(5)] by blast
qed

section \<open>Samples\<close>

definition config_env0 :: config_env where
  "config_env0 = \<lparr>ce_sort_users = sort_key v1u_Username, ce_sort_deployments = sort_key v1_Name,
     ce_sort_registries = sort_key v1r_Prefix, ce_range = (\<lambda>m. m)\<rparr>"

lemma config_env0_ok: "config_env_ok config_env0"
  by (simp add: config_env_ok_def config_env0_def)

definition deployment_v1 :: "string \<Rightarrow> Deployment_v1" where
  "deployment_v1 name = \<lparr>v1_Name = name, v1_Image = ''nginx:1'', v1_Domain = name @ ''.example.com'', v1_Public = Some True,
     v1_Env = Some [(''API_KEY'', ''${LOTSEN_SECRET_KEY}''), (''MODE'', ''fast'')], v1_Ports = Some [''80''], v1_ProxyPort = Some 80,
     v1_VolumeMounts = [\<lparr>v1m_Mode = ''managed'', v1m_Source = ''data'', v1m_Target = ''/data'', v1m_UID = None, v1m_GID = None,
       v1m_DirMode = ''0755''\<rparr>], v1_FileMounts = [],
     v1_BasicAuth = Some [\<lparr>v1u_Username = ''bob'', v1u_Password = ''${LOTSEN_SECRET_BOB}''\<rparr>,
       \<lparr>v1u_Username = ''al'', v1u_Password = ''${LOTSEN_SECRET_AL}''\<rparr>], v1_Security = None\<rparr>"

definition document_v1 :: "Deployment_v1 list \<Rightarrow> Document_v1" where
  "document_v1 ds = \<lparr>doc_APIVersion = ''lotsen/v1'', doc_Kind = ''LotsenConfig'', doc_Metadata = None,
     doc_Spec = Some \<lparr>sp_Deployments = ds, sp_Registries = [], sp_Host = None\<rparr>\<rparr>"

theorem validate_decides_validity_witness:
  "valid_document (document_v1 [deployment_v1 ''web'', deployment_v1 ''api''])"
proof -
  have "Validate config_env0 (document_v1 [deployment_v1 ''web'', deployment_v1 ''api'']) = []" by code_simp
  with validate_decides_validity[OF config_env0_ok] show ?thesis by blast
qed

theorem canonical_form_witness:
  "Canonicalize config_env0 (document_v1 [deployment_v1 ''api'', deployment_v1 ''web'']) =
   Canonicalize config_env0 (document_v1 [deployment_v1 ''web'', deployment_v1 ''api''])"
proof -
  have "proper_document (document_v1 [deployment_v1 ''web'', deployment_v1 ''api''])"
    by (simp add: proper_document_def document_v1_def deployment_v1_def Prelude.slice_def)
  moreover have "Validate config_env0 (document_v1 [deployment_v1 ''web'', deployment_v1 ''api'']) = []" by code_simp
  moreover have "same_content (document_v1 [deployment_v1 ''web'', deployment_v1 ''api'']) (document_v1 [deployment_v1 ''api'', deployment_v1 ''web''])"
    by (simp add: same_content_def document_v1_def)
  ultimately show ?thesis using canonical_form[OF config_env0_ok config_env0_ok] by blast
qed

end
