(* ===== verification/Plan.thy ===== *)
theory Plan
  imports Config
begin

text \<open>
  Planning a configuration change (\<open>api/internal/configplan/plan.go\<close>): the comparison of a
  desired document with the live one, the plan of creations, updates and deletions with its
  summary, and the fingerprint under which a plan is approved.

  The functions that plan deployments and registries have the same body over two types; they are
  two instances of \<open>plan_resources\<close>. They append to lists of the plan that no other function
  touches, so they return these lists. The reason of a conflict is a value and not its text; the
  JSON encoder and SHA-256 are arguments.
\<close>

section \<open>Plans\<close>

record ResourceChange =
  rsc_Resource :: string
  rsc_Changes :: "string list"

record ResourceActions =
  act_Create :: "ResourceChange list"
  act_Update :: "ResourceChange list"
  act_Delete :: "ResourceChange list"
  act_Noop :: "ResourceChange list"

record HostActions =
  ha_Update :: "ResourceChange list"
  ha_Noop :: "ResourceChange list"

record Actions =
  ac_Deployments :: ResourceActions
  ac_Registries :: ResourceActions
  ac_Host :: HostActions

datatype conflict_reason = DomainClaimed string string

record Conflict =
  cf_Resource :: string
  cf_Reason :: conflict_reason

record 'a section3 =
  s3_Deployments :: "'a list"
  s3_Registries :: "'a list"
  s3_Host :: "'a list"

record Summary =
  sm_CreateCount :: nat
  sm_UpdateCount :: nat
  sm_DeleteCount :: nat
  sm_NoopCount :: nat
  sm_DriftCount :: nat
  sm_ConflictCount :: nat
  sm_DestructiveCount :: nat

record PlanDocument =
  pl_APIVersion :: string
  pl_Kind :: string
  pl_Fingerprint :: string
  pl_Summary :: Summary
  pl_Actions :: Actions
  pl_Drift :: "ResourceChange section3"
  pl_Conflicts :: "Conflict section3"
  pl_Destructive :: "ResourceChange section3"

text \<open>The orders that the language leaves open, and the encoder and hash of the fingerprint.\<close>

record plan_env = config_env +
  pe_sort_changes :: "ResourceChange list \<Rightarrow> ResourceChange list"
  pe_sort_conflicts :: "Conflict list \<Rightarrow> Conflict list"
  pe_range :: "Deployment_v1 gomap \<Rightarrow> Deployment_v1 gomap"
  pe_json :: "PlanDocument \<Rightarrow> string"
  pe_sha256_hex :: "string \<Rightarrow> string"

definition plan_env_ok :: "plan_env \<Rightarrow> bool" where
  "plan_env_ok e \<longleftrightarrow> config_env_ok (config_env.truncate e) \<and> sorts_by rsc_Resource (pe_sort_changes e) \<and>
     sorts_by cf_Resource (pe_sort_conflicts e) \<and> range_order (pe_range e)"

section \<open>Comparing\<close>

definition equalSecret :: "string \<Rightarrow> string \<Rightarrow> bool" where
  "equalSecret a b \<longleftrightarrow>
     placeholderPattern (TrimSpace a) \<and> placeholderPattern (TrimSpace b) \<or> TrimSpace a = TrimSpace b"

definition equalStringSlices :: "string list \<Rightarrow> string list \<Rightarrow> bool" where
  "equalStringSlices a b \<longleftrightarrow> list_all2 (\<lambda>x y. TrimSpace x = TrimSpace y) a b"

definition equalEnv :: "string gomap \<Rightarrow> string gomap \<Rightarrow> bool" where
  "equalEnv a b \<longleftrightarrow> length a = length b \<and>
     list_all (\<lambda>(key, aValue).
       case map_of b key of
         None \<Rightarrow> False
       | Some bValue \<Rightarrow>
           if looksSensitiveEnvKey key then equalSecret aValue bValue else TrimSpace aValue = TrimSpace bValue) a"

definition equalVolumeMount :: "VolumeMount_v1 \<Rightarrow> VolumeMount_v1 \<Rightarrow> bool" where
  "equalVolumeMount a b \<longleftrightarrow> TrimSpace (v1m_Mode a) = TrimSpace (v1m_Mode b) \<and>
     TrimSpace (v1m_Source a) = TrimSpace (v1m_Source b) \<and> TrimSpace (v1m_Target a) = TrimSpace (v1m_Target b) \<and>
     v1m_UID a = v1m_UID b \<and> v1m_GID a = v1m_GID b \<and> TrimSpace (v1m_DirMode a) = TrimSpace (v1m_DirMode b)"

definition equalVolumeMounts :: "VolumeMount_v1 list \<Rightarrow> VolumeMount_v1 list \<Rightarrow> bool" where
  "equalVolumeMounts a b \<longleftrightarrow> list_all2 equalVolumeMount a b"

definition equalBasicAuth :: "BasicAuthUser_v1 list option \<Rightarrow> BasicAuthUser_v1 list option \<Rightarrow> bool" where
  "equalBasicAuth a b =
     (case (a, b) of
        (None, None) \<Rightarrow> True
      | (Some us, Some vs) \<Rightarrow>
          list_all2 (\<lambda>u v. TrimSpace (v1u_Username u) = TrimSpace (v1u_Username v) \<and>
            equalSecret (v1u_Password u) (v1u_Password v)) us vs
      | _ \<Rightarrow> False)"

definition equalSecurity :: "Security_v1 option \<Rightarrow> Security_v1 option \<Rightarrow> bool" where
  "equalSecurity a b =
     (case (a, b) of
        (None, None) \<Rightarrow> True
      | (Some x, Some y) \<Rightarrow>
          v1s_WAFEnabled x = v1s_WAFEnabled y \<and> TrimSpace (v1s_WAFMode x) = TrimSpace (v1s_WAFMode y) \<and>
          equalStringSlices (v1s_IPDenylist x) (v1s_IPDenylist y) \<and>
          equalStringSlices (v1s_IPAllowlist x) (v1s_IPAllowlist y) \<and>
          equalStringSlices (v1s_CustomRules x) (v1s_CustomRules y)
      | _ \<Rightarrow> False)"

definition normalizeStringList :: "string list \<Rightarrow> string list" where
  "normalizeStringList xs = filter (\<lambda>x. x \<noteq> []) (map TrimSpace xs)"

definition normalizeDashboardWAF_v1 :: "DashboardWAF_v1 option \<Rightarrow> DashboardWAF_v1" where
  "normalizeDashboardWAF_v1 cfg =
     (case cfg of
        None \<Rightarrow> \<lparr>v1w_Mode = ''detection'', v1w_IPAllowlist = [], v1w_CustomRules = []\<rparr>
      | Some c \<Rightarrow>
          \<lparr>v1w_Mode = (if ToLower (TrimSpace (v1w_Mode c)) = ''enforcement'' then ''enforcement'' else ''detection''),
           v1w_IPAllowlist = normalizeStringList (v1w_IPAllowlist c),
           v1w_CustomRules = normalizeStringList (v1w_CustomRules c)\<rparr>)"

definition equalDashboardWAF :: "DashboardWAF_v1 option \<Rightarrow> DashboardWAF_v1 option \<Rightarrow> bool" where
  "equalDashboardWAF a b =
     (let x = normalizeDashboardWAF_v1 a; y = normalizeDashboardWAF_v1 b in
      v1w_Mode x = v1w_Mode y \<and> equalStringSlices (v1w_IPAllowlist x) (v1w_IPAllowlist y) \<and>
      equalStringSlices (v1w_CustomRules x) (v1w_CustomRules y))"

definition normalizeDashboardAccessMode_v1 :: "string \<Rightarrow> string" where
  "normalizeDashboardAccessMode_v1 mode =
     (let normalized = ToLower (TrimSpace mode) in
      if normalized = ''waf_only'' \<or> normalized = ''waf_and_login'' then normalized else ''login_only'')"

definition changed :: "bool \<Rightarrow> string \<Rightarrow> string list" where
  "changed c field = (if c then [field] else [])"

definition diffDeployment :: "Deployment_v1 \<Rightarrow> Deployment_v1 \<Rightarrow> string list" where
  "diffDeployment live desired = sort
     (changed (TrimSpace (v1_Image live) \<noteq> TrimSpace (v1_Image desired)) ''image'' @
      changed (TrimSpace (v1_Domain live) \<noteq> TrimSpace (v1_Domain desired)) ''domain'' @
      changed (v1_Public live \<noteq> v1_Public desired) ''public'' @
      changed (\<not> equalStringSlices (Prelude.slice (v1_Ports live)) (Prelude.slice (v1_Ports desired))) ''ports'' @
      changed (v1_ProxyPort live \<noteq> v1_ProxyPort desired) ''proxyPort'' @
      changed (\<not> equalEnv (Prelude.slice (v1_Env live)) (Prelude.slice (v1_Env desired))) ''env'' @
      changed (\<not> equalVolumeMounts (v1_VolumeMounts live) (v1_VolumeMounts desired)) ''volumeMounts'' @
      changed (\<not> equalBasicAuth (v1_BasicAuth live) (v1_BasicAuth desired)) ''basicAuth'' @
      changed (\<not> equalSecurity (v1_Security live) (v1_Security desired)) ''security'')"

definition diffRegistry :: "Registry_v1 \<Rightarrow> Registry_v1 \<Rightarrow> string list" where
  "diffRegistry live desired = sort
     (changed (TrimSpace (v1r_Username live) \<noteq> TrimSpace (v1r_Username desired)) ''username'' @
      changed (\<not> equalSecret (v1r_Password live) (v1r_Password desired)) ''password'')"

definition diffHost :: "Host_v1 \<Rightarrow> Host_v1 \<Rightarrow> string list" where
  "diffHost live desired = sort
     (changed (TrimSpace (v1h_DisplayName live) \<noteq> TrimSpace (v1h_DisplayName desired)) ''displayName'' @
      changed (normalizeDashboardAccessMode_v1 (v1h_DashboardAccessMode live) \<noteq>
               normalizeDashboardAccessMode_v1 (v1h_DashboardAccessMode desired)) ''dashboardAccessMode'' @
      changed (\<not> equalDashboardWAF (v1h_DashboardWAF live) (v1h_DashboardWAF desired)) ''dashboardWaf'')"

section \<open>Planning\<close>

definition sortedKeys :: "'a gomap \<Rightarrow> string list" where
  "sortedKeys m = sort (map fst m)"

definition change :: "string \<Rightarrow> string list \<Rightarrow> ResourceChange" where
  "change name changes = \<lparr>rsc_Resource = name, rsc_Changes = changes\<rparr>"

record resource_plan = ResourceActions +
  rp_Drift :: "ResourceChange list"
  rp_Destructive :: "ResourceChange list"

definition empty_plan :: resource_plan where
  "empty_plan = \<lparr>act_Create = [], act_Update = [], act_Delete = [], act_Noop = [], rp_Drift = [], rp_Destructive = []\<rparr>"

definition plan_desired :: "('a \<Rightarrow> 'a \<Rightarrow> string list) \<Rightarrow> 'a gomap \<Rightarrow> 'a gomap \<Rightarrow> string \<Rightarrow> resource_plan \<Rightarrow> resource_plan" where
  "plan_desired diff desiredByName liveByName name plan =
     (case map_of liveByName name of
        None \<Rightarrow> plan\<lparr>act_Create := act_Create plan @ [change name []]\<rparr>
      | Some live \<Rightarrow>
          (let changes = diff live (the (map_of desiredByName name)) in
           if changes = [] then plan\<lparr>act_Noop := act_Noop plan @ [change name []]\<rparr>
           else plan\<lparr>act_Update := act_Update plan @ [change name changes],
                     rp_Drift := rp_Drift plan @ [change name changes]\<rparr>))"

definition plan_live :: "'a gomap \<Rightarrow> string \<Rightarrow> resource_plan \<Rightarrow> resource_plan" where
  "plan_live desiredByName name plan =
     (if map_of desiredByName name \<noteq> None then plan
      else plan\<lparr>act_Delete := act_Delete plan @ [change name []], rp_Drift := rp_Drift plan @ [change name []],
                rp_Destructive := rp_Destructive plan @ [change name []]\<rparr>)"

definition plan_resources :: "('a \<Rightarrow> 'a \<Rightarrow> string list) \<Rightarrow> 'a gomap \<Rightarrow> 'a gomap \<Rightarrow> resource_plan" where
  "plan_resources diff desiredByName liveByName =
     fold (plan_live desiredByName) (sortedKeys liveByName)
       (fold (plan_desired diff desiredByName liveByName) (sortedKeys desiredByName) empty_plan)"

definition live_by_domain :: "Deployment_v1 gomap \<Rightarrow> string gomap" where
  "live_by_domain entries = fold (\<lambda>(name, d) m.
     let domain = TrimSpace (v1_Domain d) in
     if domain = [] \<or> map_of m domain \<noteq> None then m else AList.update domain name m) entries []"

definition deploymentConflicts :: "plan_env \<Rightarrow> Deployment_v1 gomap \<Rightarrow> Deployment_v1 gomap \<Rightarrow> Conflict list" where
  "deploymentConflicts e desiredByName liveByName =
     (let liveByDomain = live_by_domain (pe_range e liveByName) in
      pe_sort_conflicts e (concat (map (\<lambda>(name, d).
        let domain = TrimSpace (v1_Domain d) in
        if domain = [] then []
        else case map_of liveByDomain domain of
          None \<Rightarrow> []
        | Some owner \<Rightarrow>
            if owner = name \<or> map_of desiredByName owner = None then []
            else [\<lparr>cf_Resource = name, cf_Reason = DomainClaimed domain owner\<rparr>]) (pe_range e desiredByName))))"

definition planningDeployments :: "plan_env \<Rightarrow> Deployment_v1 list \<Rightarrow> Deployment_v1 list \<Rightarrow> resource_plan \<times> Conflict list" where
  "planningDeployments e desired live =
     (let desiredByName = gomap_of v1_Name desired; liveByName = gomap_of v1_Name live in
      (plan_resources diffDeployment desiredByName liveByName, deploymentConflicts e desiredByName liveByName))"

definition planningRegistries :: "Registry_v1 list \<Rightarrow> Registry_v1 list \<Rightarrow> resource_plan" where
  "planningRegistries desired live = plan_resources diffRegistry (gomap_of v1r_Prefix desired) (gomap_of v1r_Prefix live)"

definition planningHost :: "Host_v1 option \<Rightarrow> Host_v1 option \<Rightarrow> HostActions" where
  "planningHost desiredHost liveHost =
     (case desiredHost of
        None \<Rightarrow> \<lparr>ha_Update = [], ha_Noop = [change ''host'' []]\<rparr>
      | Some desired \<Rightarrow>
          (let live = (case liveHost of
                 None \<Rightarrow> \<lparr>v1h_DisplayName = [], v1h_DashboardAccessMode = [], v1h_DashboardWAF = None\<rparr> | Some h \<Rightarrow> h);
               changes = diffHost live desired in
           if changes = [] then \<lparr>ha_Update = [], ha_Noop = [change ''host'' []]\<rparr>
           else \<lparr>ha_Update = [change ''host'' changes], ha_Noop = []\<rparr>))"

section \<open>The canonical plan and its fingerprint\<close>

definition canonicalizeChanges :: "plan_env \<Rightarrow> ResourceChange list \<Rightarrow> ResourceChange list" where
  "canonicalizeChanges e cs = pe_sort_changes e (map (\<lambda>c. c\<lparr>rsc_Changes := sort (rsc_Changes c)\<rparr>) cs)"

definition canonicalizeResourceActions :: "plan_env \<Rightarrow> ResourceActions \<Rightarrow> ResourceActions" where
  "canonicalizeResourceActions e a = \<lparr>act_Create = canonicalizeChanges e (act_Create a),
     act_Update = canonicalizeChanges e (act_Update a), act_Delete = canonicalizeChanges e (act_Delete a),
     act_Noop = canonicalizeChanges e (act_Noop a)\<rparr>"

definition canonical_section :: "('a list \<Rightarrow> 'a list) \<Rightarrow> 'a section3 \<Rightarrow> 'a section3" where
  "canonical_section f s = \<lparr>s3_Deployments = f (s3_Deployments s), s3_Registries = f (s3_Registries s), s3_Host = f (s3_Host s)\<rparr>"

definition canonicalizePlan :: "plan_env \<Rightarrow> PlanDocument \<Rightarrow> PlanDocument" where
  "canonicalizePlan e plan = plan\<lparr>
     pl_Actions := \<lparr>ac_Deployments = canonicalizeResourceActions e (ac_Deployments (pl_Actions plan)),
       ac_Registries = canonicalizeResourceActions e (ac_Registries (pl_Actions plan)),
       ac_Host = \<lparr>ha_Update = canonicalizeChanges e (ha_Update (ac_Host (pl_Actions plan))),
         ha_Noop = canonicalizeChanges e (ha_Noop (ac_Host (pl_Actions plan)))\<rparr>\<rparr>,
     pl_Drift := canonical_section (canonicalizeChanges e) (pl_Drift plan),
     pl_Conflicts := canonical_section (pe_sort_conflicts e) (pl_Conflicts plan),
     pl_Destructive := canonical_section (canonicalizeChanges e) (pl_Destructive plan)\<rparr>"

definition fingerprint :: "plan_env \<Rightarrow> PlanDocument \<Rightarrow> string" where
  "fingerprint e plan = ''sha256:'' @ pe_sha256_hex e (pe_json e ((canonicalizePlan e plan)\<lparr>pl_Fingerprint := []\<rparr>))"

definition Kind_plan :: string where "Kind_plan = ''LotsenPlan''"

datatype build_error = DesiredSpecRequired | LiveSpecRequired

definition summary_of :: "Actions \<Rightarrow> ResourceChange section3 \<Rightarrow> Conflict section3 \<Rightarrow> ResourceChange section3 \<Rightarrow> Summary" where
  "summary_of a drift conflicts destructive = \<lparr>
     sm_CreateCount = length (act_Create (ac_Deployments a)) + length (act_Create (ac_Registries a)),
     sm_UpdateCount = length (act_Update (ac_Deployments a)) + length (act_Update (ac_Registries a)) + length (ha_Update (ac_Host a)),
     sm_DeleteCount = length (act_Delete (ac_Deployments a)) + length (act_Delete (ac_Registries a)),
     sm_NoopCount = length (act_Noop (ac_Deployments a)) + length (act_Noop (ac_Registries a)) + length (ha_Noop (ac_Host a)),
     sm_DriftCount = length (s3_Deployments drift) + length (s3_Registries drift) + length (s3_Host drift),
     sm_ConflictCount = length (s3_Deployments conflicts) + length (s3_Registries conflicts) + length (s3_Host conflicts),
     sm_DestructiveCount = length (s3_Deployments destructive) + length (s3_Registries destructive) + length (s3_Host destructive)\<rparr>"

definition plan_specs :: "plan_env \<Rightarrow> Spec_v1 \<Rightarrow> Spec_v1 \<Rightarrow> PlanDocument" where
  "plan_specs e desired live =
     (case planningDeployments e (sp_Deployments desired) (sp_Deployments live) of (deps, dep_conflicts) \<Rightarrow>
      (let regs = planningRegistries (sp_Registries desired) (sp_Registries live);
           host = planningHost (sp_Host desired) (sp_Host live);
           actions = \<lparr>ac_Deployments = ResourceActions.truncate deps, ac_Registries = ResourceActions.truncate regs, ac_Host = host\<rparr>;
           drift = \<lparr>s3_Deployments = rp_Drift deps, s3_Registries = rp_Drift regs, s3_Host = ha_Update host\<rparr>;
           conflicts = \<lparr>s3_Deployments = dep_conflicts, s3_Registries = [], s3_Host = []\<rparr>;
           destructive = \<lparr>s3_Deployments = rp_Destructive deps, s3_Registries = rp_Destructive regs, s3_Host = []\<rparr> in
       \<lparr>pl_APIVersion = APIVersion, pl_Kind = Kind_plan, pl_Fingerprint = [],
        pl_Summary = summary_of actions drift conflicts destructive, pl_Actions = actions, pl_Drift = drift,
        pl_Conflicts = conflicts, pl_Destructive = destructive\<rparr>))"

definition Build :: "plan_env \<Rightarrow> Document_v1 \<Rightarrow> Document_v1 \<Rightarrow> build_error + PlanDocument" where
  "Build e desired live =
     (if doc_Spec desired = None then Inl DesiredSpecRequired
      else if doc_Spec live = None then Inl LiveSpecRequired
      else let canonicalDesired = Canonicalize (config_env.truncate e) desired;
               canonicalLive = Canonicalize (config_env.truncate e) live;
               plan = plan_specs e (the (doc_Spec canonicalDesired)) (the (doc_Spec canonicalLive)) in
        Inr (plan\<lparr>pl_Fingerprint := fingerprint e plan\<rparr>))"

section \<open>What a plan holds\<close>

text \<open>The resource has to change: it exists on both sides and the comparison finds a difference.\<close>

definition diff_at :: "('a \<Rightarrow> 'a \<Rightarrow> string list) \<Rightarrow> 'a gomap \<Rightarrow> 'a gomap \<Rightarrow> string \<Rightarrow> string list" where
  "diff_at diff D L n = (case map_of L n of None \<Rightarrow> [] | Some l \<Rightarrow> diff l (the (map_of D n)))"

definition created :: "'a gomap \<Rightarrow> 'a gomap \<Rightarrow> string list" where
  "created D L = filter (\<lambda>n. map_of L n = None) (sortedKeys D)"

definition updated :: "('a \<Rightarrow> 'a \<Rightarrow> string list) \<Rightarrow> 'a gomap \<Rightarrow> 'a gomap \<Rightarrow> string list" where
  "updated diff D L = filter (\<lambda>n. map_of L n \<noteq> None \<and> diff_at diff D L n \<noteq> []) (sortedKeys D)"

definition unchanged :: "('a \<Rightarrow> 'a \<Rightarrow> string list) \<Rightarrow> 'a gomap \<Rightarrow> 'a gomap \<Rightarrow> string list" where
  "unchanged diff D L = filter (\<lambda>n. map_of L n \<noteq> None \<and> diff_at diff D L n = []) (sortedKeys D)"

abbreviation bare :: "string list \<Rightarrow> ResourceChange list" where
  "bare ns \<equiv> map (\<lambda>n. change n []) ns"

lemma plan_desired_diff_at:
  "plan_desired diff D L n plan =
     (if map_of L n = None then plan\<lparr>act_Create := act_Create plan @ [change n []]\<rparr>
      else if diff_at diff D L n = [] then plan\<lparr>act_Noop := act_Noop plan @ [change n []]\<rparr>
      else plan\<lparr>act_Update := act_Update plan @ [change n (diff_at diff D L n)],
                rp_Drift := rp_Drift plan @ [change n (diff_at diff D L n)]\<rparr>)"
  by (simp add: plan_desired_def diff_at_def Let_def split: option.split)

lemma fold_plan_desired:
  "fold (plan_desired diff D L) ns plan = plan\<lparr>
     act_Create := act_Create plan @ bare (filter (\<lambda>n. map_of L n = None) ns),
     act_Noop := act_Noop plan @ bare (filter (\<lambda>n. map_of L n \<noteq> None \<and> diff_at diff D L n = []) ns),
     act_Update := act_Update plan @ map (\<lambda>n. change n (diff_at diff D L n))
       (filter (\<lambda>n. map_of L n \<noteq> None \<and> diff_at diff D L n \<noteq> []) ns),
     rp_Drift := rp_Drift plan @ map (\<lambda>n. change n (diff_at diff D L n))
       (filter (\<lambda>n. map_of L n \<noteq> None \<and> diff_at diff D L n \<noteq> []) ns)\<rparr>"
proof (induction ns arbitrary: plan)
  case (Cons n ns)
  show ?case
    by (cases "map_of L n"; cases "diff_at diff D L n") (simp_all add: Cons.IH plan_desired_diff_at[of diff D L n])
qed simp

lemma fold_plan_live:
  "fold (plan_live D) ns plan = plan\<lparr>
     act_Delete := act_Delete plan @ bare (filter (\<lambda>n. map_of D n = None) ns),
     rp_Drift := rp_Drift plan @ bare (filter (\<lambda>n. map_of D n = None) ns),
     rp_Destructive := rp_Destructive plan @ bare (filter (\<lambda>n. map_of D n = None) ns)\<rparr>"
  by (induction ns arbitrary: plan) (simp_all add: plan_live_def)

lemma plan_resources_spec:
  "plan_resources diff D L = \<lparr>act_Create = bare (created D L),
     act_Update = map (\<lambda>n. change n (diff_at diff D L n)) (updated diff D L),
     act_Delete = bare (created L D), act_Noop = bare (unchanged diff D L),
     rp_Drift = map (\<lambda>n. change n (diff_at diff D L n)) (updated diff D L) @ bare (created L D),
     rp_Destructive = bare (created L D)\<rparr>"
  by (simp add: plan_resources_def fold_plan_live fold_plan_desired empty_plan_def created_def updated_def unchanged_def)

lemma sortedKeys_set [simp]: "set (sortedKeys m) = fst ` set m"
  by (simp add: sortedKeys_def)

lemma sortedKeys_distinct: "distinct (map fst m) \<Longrightarrow> distinct (sortedKeys m)"
  by (simp add: sortedKeys_def)

lemma sortedKeys_sorted [simp]: "sorted (sortedKeys m)"
  by (simp add: sortedKeys_def)

text \<open>The three lists of a plan partition the desired names.\<close>

lemma plan_lists_length:
  "length (created D L) + length (updated diff D L) + length (unchanged diff D L) = length D"
proof -
  have "length (filter P xs) + length (filter (\<lambda>x. \<not> P x \<and> \<not> Q x) xs) + length (filter (\<lambda>x. \<not> P x \<and> Q x) xs) = length xs"
    for P Q and xs :: "string list" by (induction xs) auto
  from this[where P = "\<lambda>n. map_of L n = None" and Q = "\<lambda>n. diff_at diff D L n = []" and xs = "sortedKeys D"] show ?thesis
    by (simp add: created_def updated_def unchanged_def sortedKeys_def)
qed

lemma map_of_None_keys: "map_of m n = None \<longleftrightarrow> n \<notin> fst ` set m"
  by (simp add: map_of_eq_None_iff)

lemma gomap_of_keys [simp]: "fst ` set (gomap_of key xs) = key ` set xs"
  by (induction xs rule: rev_induct) (auto simp: gomap_of_def dom_update)

lemma created_set: "set (created (gomap_of key xs) (gomap_of key' ys)) = key ` set xs - key' ` set ys"
  by (auto simp: created_def map_of_None_keys)

lemma gomap_of_distinct_length: "distinct (map key xs) \<Longrightarrow> length (gomap_of key xs) = length xs"
  using distinct_card[OF gomap_of_distinct, of key xs] distinct_card[of "map key xs"] by simp

lemma gomap_of_lookup:
  "distinct (map key xs) \<Longrightarrow> x \<in> set xs \<Longrightarrow> map_of (gomap_of key xs) (key x) = Some x"
  using gomap_of_map_of_distinct[of key xs "key x" x] by blast

lemma diff_at_lookup:
  assumes "distinct (map key xs)" and "distinct (map key ys)" and "x \<in> set xs" and "y \<in> set ys" and "key x = key y"
  shows "diff_at diff (gomap_of key xs) (gomap_of key ys) (key x) = diff y x"
  using gomap_of_lookup[OF assms(1,3)] gomap_of_lookup[OF assms(2,4)] assms(5) by (simp add: diff_at_def)

subsection \<open>Comparing a resource with itself\<close>

lemma equalSecret_refl [simp]: "equalSecret a a" by (simp add: equalSecret_def)

lemma equalStringSlices_refl [simp]: "equalStringSlices a a"
  by (simp add: equalStringSlices_def list_all2_same)

lemma equalEnv_refl: "distinct (map fst a) \<Longrightarrow> equalEnv a a"
  by (auto simp: equalEnv_def list_all_iff)

lemma changed_Nil [simp]: "changed c f = [] \<longleftrightarrow> \<not> c" by (simp add: changed_def)

lemma sort_Nil_iff: "sort xs = [] \<longleftrightarrow> xs = []" for xs :: "string list"
  by (metis length_0_conv length_sort)

lemma diffDeployment_refl: "distinct (map fst (Prelude.slice (v1_Env d))) \<Longrightarrow> diffDeployment d d = []"
  by (cases "v1_BasicAuth d"; cases "v1_Security d")
    (simp_all add: diffDeployment_def sort_Nil_iff equalEnv_refl equalVolumeMounts_def equalVolumeMount_def
      equalBasicAuth_def equalSecurity_def list_all2_same)

lemma diffRegistry_refl: "diffRegistry r r = []"
  by (simp add: diffRegistry_def sort_Nil_iff)

lemma diffHost_refl: "diffHost h h = []"
  by (simp add: diffHost_def sort_Nil_iff equalDashboardWAF_def Let_def)

lemma plan_resources_same:
  assumes "distinct (map key xs)" and "\<forall>x \<in> set xs. diff x x = []"
  shows "updated diff (gomap_of key xs) (gomap_of key xs) = []" "created (gomap_of key xs) (gomap_of key xs) = []"
proof -
  have "diff_at diff (gomap_of key xs) (gomap_of key xs) (key x) = []" if "x \<in> set xs" for x
    using diff_at_lookup[OF assms(1,1) that that refl] assms(2) that by metis
  then show "updated diff (gomap_of key xs) (gomap_of key xs) = []" by (auto simp: updated_def filter_empty_conv)
  show "created (gomap_of key xs) (gomap_of key xs) = []"
    using created_set[of key xs key xs] by simp
qed

subsection \<open>Plans of documents\<close>

text \<open>The actions a plan needs to make the resources \<open>ys\<close> into the resources \<open>xs\<close>.\<close>

definition describes :: "('a \<Rightarrow> string) \<Rightarrow> ('a \<Rightarrow> 'a \<Rightarrow> string list) \<Rightarrow> 'a list \<Rightarrow> 'a list \<Rightarrow> ResourceActions \<Rightarrow> bool" where
  "describes key diff xs ys a \<longleftrightarrow>
     rsc_Resource ` set (act_Create a) = key ` set xs - key ` set ys \<and>
     rsc_Resource ` set (act_Delete a) = key ` set ys - key ` set xs \<and>
     (\<forall>x \<in> set xs. \<forall>y \<in> set ys. key x = key y \<longrightarrow>
        (if diff y x = [] then change (key x) [] \<in> set (act_Noop a) else change (key x) (diff y x) \<in> set (act_Update a))) \<and>
     length (act_Create a) + length (act_Update a) + length (act_Noop a) = length xs \<and>
     length (act_Delete a) + length (act_Update a) + length (act_Noop a) = length ys"

lemma describes_perm:
  assumes "describes key diff xs ys a" and "mset xs = mset xs'" and "mset ys = mset ys'"
  shows "describes key diff xs' ys' a"
proof -
  have eqs: "set xs = set xs'" "length xs = length xs'" "set ys = set ys'" "length ys = length ys'"
    using assms(2,3) by (auto dest: mset_eq_setD mset_eq_length)
  show ?thesis using assms(1) unfolding describes_def eqs .
qed

lemma created_length:
  assumes "distinct (map key xs)" and "distinct (map key ys)"
  shows "length (created (gomap_of key xs) (gomap_of key ys)) = card (key ` set xs - key ` set ys)"
proof -
  have "distinct (created (gomap_of key xs) (gomap_of key ys))"
    by (simp add: created_def sortedKeys_distinct)
  then show ?thesis using distinct_card created_set by metis
qed

lemma plan_describes:
  assumes "distinct (map key xs)" and "distinct (map key ys)"
  shows "describes key diff xs ys (ResourceActions.truncate (plan_resources diff (gomap_of key xs) (gomap_of key ys)))"
proof -
  let ?D = "gomap_of key xs" and ?L = "gomap_of key ys"
  have res: "rsc_Resource ` set (bare ns) = set ns" for ns by (force simp: change_def)
  have n: "length (created ?D ?L) + length (updated diff ?D ?L) + length (unchanged diff ?D ?L) = length xs"
    using plan_lists_length[of ?D ?L diff] gomap_of_distinct_length[OF assms(1)] by simp
  have "card (key ` set xs) = card (key ` set xs - key ` set ys) + card (key ` set xs \<inter> key ` set ys)"
    "card (key ` set ys) = card (key ` set ys - key ` set xs) + card (key ` set ys \<inter> key ` set xs)"
    by (metis List.finite_set card_Diff_subset_Int card_mono finite_imageI finite_Int inf_le1 le_add_diff_inverse2)+
  moreover have "card (key ` set xs) = length xs" "card (key ` set ys) = length ys"
    using assms distinct_card by (metis length_map set_map)+
  ultimately have m: "length (created ?L ?D) + length (updated diff ?D ?L) + length (unchanged diff ?D ?L) = length ys"
    using n created_length[OF assms] created_length[OF assms(2,1)] by (simp add: Int_commute)
  have pair: "if diff y x = [] then change (key x) [] \<in> set (bare (unchanged diff ?D ?L))
      else change (key x) (diff y x) \<in> set (map (\<lambda>n. change n (diff_at diff ?D ?L n)) (updated diff ?D ?L))"
    if "x \<in> set xs" "y \<in> set ys" "key x = key y" for x y
  proof -
    have l: "map_of ?L (key x) = Some y" using gomap_of_lookup[OF assms(2) that(2)] that(3) by simp
    have "key x \<in> set (sortedKeys ?D)" using that(1) by simp
    with l diff_at_lookup[OF assms that, of diff] show ?thesis
      by (auto simp: unchanged_def updated_def intro!: image_eqI[of _ _ "key x"])
  qed
  show ?thesis
    unfolding describes_def plan_resources_spec ResourceActions.defs
    by (intro conjI ballI impI; (simp only: ResourceActions.select_convs res created_set; fail)?)
      (use n m pair in \<open>simp_all only: ResourceActions.select_convs length_map, blast?\<close>)
qed

lemma Build_Inr:
  assumes "Build e desired live = Inr plan"
  obtains D L where "doc_Spec desired = Some D" "doc_Spec live = Some L"
    "plan = (plan_specs e (the (doc_Spec (Canonicalize (config_env.truncate e) desired)))
        (the (doc_Spec (Canonicalize (config_env.truncate e) live))))\<lparr>pl_Fingerprint := pl_Fingerprint plan\<rparr>"
    "pl_Fingerprint plan = fingerprint e (plan\<lparr>pl_Fingerprint := []\<rparr>)"
proof -
  from assms obtain D L where "doc_Spec desired = Some D" "doc_Spec live = Some L"
    and p: "plan = (let p = plan_specs e (the (doc_Spec (Canonicalize (config_env.truncate e) desired)))
        (the (doc_Spec (Canonicalize (config_env.truncate e) live))) in p\<lparr>pl_Fingerprint := fingerprint e p\<rparr>)"
    by (auto simp: Build_def Let_def split: if_splits)
  moreover have "pl_Fingerprint (plan_specs e a b) = []" for a b
    by (simp add: plan_specs_def Let_def split: prod.split)
  then have "(plan_specs e a b)\<lparr>pl_Fingerprint := []\<rparr> = plan_specs e a b" for a b
    by (metis PlanDocument.surjective PlanDocument.update_convs(3))
  ultimately show ?thesis using that by (simp add: Let_def)
qed

text \<open>The specification that \<open>Build\<close> compares, for a document that is valid.\<close>

abbreviation canon :: "plan_env \<Rightarrow> Deployment_v1 \<Rightarrow> Deployment_v1" where
  "canon e \<equiv> canonical_deployment (config_env.truncate e)"

lemma canonical_spec:
  assumes "plan_env_ok e" and "valid_document doc" and "doc_Spec doc = Some spec"
  obtains ds rs where "doc_Spec (Canonicalize (config_env.truncate e) doc) = Some \<lparr>sp_Deployments = ds, sp_Registries = rs, sp_Host = sp_Host spec\<rparr>"
    "mset ds = mset (map (canon e) (sp_Deployments spec))" "mset rs = mset (sp_Registries spec)"
    "distinct (map v1_Name ds)" "distinct (map v1r_Prefix rs)"
proof -
  let ?e = "config_env.truncate e"
  have "sorts_by v1_Name (ce_sort_deployments ?e)" "sorts_by v1r_Prefix (ce_sort_registries ?e)"
    using assms(1) by (simp_all add: plan_env_ok_def config_env_ok_def)
  note perm = sorts_by_perm(1)[OF this(1)] sorts_by_perm(1)[OF this(2)]
  have v: "distinct (map v1_Name (sp_Deployments spec))" "distinct (map v1r_Prefix (sp_Registries spec))"
    using assms(2,3) by (auto simp: valid_document_def valid_spec_v1_def keys_ok_def)
  have "mset (map v1_Name (ce_sort_deployments ?e (map (canon e) (sp_Deployments spec)))) = mset (map v1_Name (sp_Deployments spec))"
    by (simp add: perm image_mset.compositionality comp_def)
  with v(1) have 1: "distinct (map v1_Name (ce_sort_deployments ?e (map (canon e) (sp_Deployments spec))))"
    by (metis mset_eq_imp_distinct_iff)
  have "mset (map v1r_Prefix (ce_sort_registries ?e (sp_Registries spec))) = mset (map v1r_Prefix (sp_Registries spec))"
    by (simp add: perm)
  with v(2) have "distinct (map v1r_Prefix (ce_sort_registries ?e (sp_Registries spec)))"
    by (metis mset_eq_imp_distinct_iff)
  with 1 show ?thesis using that perm Canonicalize_Some(1)[OF assms(3)] by blast
qed

lemma plan_specs_parts:
  "ac_Deployments (pl_Actions (plan_specs e D L)) =
     ResourceActions.truncate (plan_resources diffDeployment (gomap_of v1_Name (sp_Deployments D)) (gomap_of v1_Name (sp_Deployments L)))"
  "ac_Registries (pl_Actions (plan_specs e D L)) =
     ResourceActions.truncate (plan_resources diffRegistry (gomap_of v1r_Prefix (sp_Registries D)) (gomap_of v1r_Prefix (sp_Registries L)))"
  "ac_Host (pl_Actions (plan_specs e D L)) = planningHost (sp_Host D) (sp_Host L)"
  by (simp_all add: plan_specs_def planningDeployments_def planningRegistries_def Let_def)

lemma plan_specs_drift:
  "sm_DriftCount (pl_Summary (plan_specs e D L)) =
     sm_UpdateCount (pl_Summary (plan_specs e D L)) + sm_DeleteCount (pl_Summary (plan_specs e D L))"
  "sm_DestructiveCount (pl_Summary (plan_specs e D L)) = sm_DeleteCount (pl_Summary (plan_specs e D L))"
  by (simp_all add: plan_specs_def planningDeployments_def planningRegistries_def Let_def summary_of_def
      plan_resources_spec ResourceActions.defs)

lemma plan_specs_counts:
  assumes "describes key diff xs ys (ac_Deployments (pl_Actions (plan_specs e D L)))"
    and "describes key' diff' rs qs (ac_Registries (pl_Actions (plan_specs e D L)))"
  shows "sm_CreateCount (pl_Summary (plan_specs e D L)) + sm_UpdateCount (pl_Summary (plan_specs e D L)) +
    sm_NoopCount (pl_Summary (plan_specs e D L)) = length xs + length rs + 1"
proof -
  have h: "length (ha_Update (planningHost h h')) + length (ha_Noop (planningHost h h')) = 1" for h h'
    by (simp add: planningHost_def Let_def split: option.split)
  have "pl_Summary (plan_specs e D L) = summary_of (pl_Actions (plan_specs e D L)) (pl_Drift (plan_specs e D L))
      (pl_Conflicts (plan_specs e D L)) (pl_Destructive (plan_specs e D L))"
    by (simp add: plan_specs_def Let_def split: prod.split)
  moreover have "length (act_Create a) + length (act_Update a) + length (act_Noop a) = length zs"
    if "describes k d zs ys a" for k d zs ys a using that by (simp add: describes_def)
  from this[OF assms(1)] this[OF assms(2)] h[of "sp_Host D" "sp_Host L"] calculation show ?thesis
    by (simp add: summary_of_def plan_specs_parts(3))
qed

subsection \<open>Plans do not depend on order\<close>

lemma live_by_domain_lookup:
  assumes "\<And>n d n' d'. (n, d) \<in> set entries \<Longrightarrow> (n', d') \<in> set entries \<Longrightarrow> TrimSpace (v1_Domain d) = TrimSpace (v1_Domain d') \<Longrightarrow>
      TrimSpace (v1_Domain d) \<noteq> [] \<Longrightarrow> n = n'"
  shows "map_of (live_by_domain entries) domain = Some owner \<longleftrightarrow>
    domain \<noteq> [] \<and> (\<exists>d. (owner, d) \<in> set entries \<and> TrimSpace (v1_Domain d) = domain)"
  using assms
proof (induction entries arbitrary: domain owner rule: rev_induct)
  case (snoc x entries)
  obtain n d where x: "x = (n, d)" by fastforce
  have ih: "map_of (live_by_domain entries) dm = Some ow \<longleftrightarrow>
      dm \<noteq> [] \<and> (\<exists>d. (ow, d) \<in> set entries \<and> TrimSpace (v1_Domain d) = dm)" for dm ow
    using snoc.IH[of dm ow] snoc.prems by (metis UnI1 set_append)
  have uniq: "n' = n" if "(n', d') \<in> set entries" "TrimSpace (v1_Domain d') = TrimSpace (v1_Domain d)" "TrimSpace (v1_Domain d) \<noteq> []" for n' d'
    using snoc.prems[of n' d' n d] that x by simp
  have *: "live_by_domain (entries @ [x]) = (let dm = TrimSpace (v1_Domain d) in
      if dm = [] \<or> map_of (live_by_domain entries) dm \<noteq> None then live_by_domain entries
      else AList.update dm n (live_by_domain entries))"
    by (simp only: live_by_domain_def fold_append comp_apply fold_simps prod.case x Let_def)
  show ?case
  proof (cases "TrimSpace (v1_Domain d) = [] \<or> map_of (live_by_domain entries) (TrimSpace (v1_Domain d)) \<noteq> None")
    case True
    with * have "live_by_domain (entries @ [x]) = live_by_domain entries" by (simp add: Let_def)
    moreover have "\<exists>d'. (n, d') \<in> set entries \<and> TrimSpace (v1_Domain d') = TrimSpace (v1_Domain d)" if "TrimSpace (v1_Domain d) \<noteq> []"
      using True that ih uniq by (metis not_None_eq)
    ultimately show ?thesis using ih[of domain owner] by (auto simp: x)
  next
    case False
    then have "map_of (live_by_domain (entries @ [x])) = (map_of (live_by_domain entries))(TrimSpace (v1_Domain d) \<mapsto> n)"
      using * by (simp add: Let_def update_conv')
    moreover have "\<not> (\<exists>ow d'. (ow, d') \<in> set entries \<and> TrimSpace (v1_Domain d') = TrimSpace (v1_Domain d))"
      using False ih by (metis option.distinct(1))
    ultimately show ?thesis using False ih[of domain owner] by (auto simp: x)
  qed
qed (simp add: live_by_domain_def)

definition distinct_domains :: "Deployment_v1 list \<Rightarrow> bool" where
  "distinct_domains ds \<longleftrightarrow> (\<forall>d \<in> set ds. \<forall>d' \<in> set ds. TrimSpace (v1_Domain d) = TrimSpace (v1_Domain d') \<longrightarrow>
     TrimSpace (v1_Domain d) \<noteq> [] \<longrightarrow> v1_Name d = v1_Name d')"

lemma distinct_domains_canon:
  assumes "set ls = canon e ` set ds" and "distinct_domains ds"
  shows "distinct_domains ls"
proof -
  have "v1_Domain (canon e d) = v1_Domain d" for d by (simp add: canonical_deployment_def)
  then show ?thesis
    using assms(2) unfolding distinct_domains_def assms(1) ball_simps by (metis canonical_deployment_name)
qed

lemma live_by_domain_perm:
  assumes "mset xs = mset ys" and "distinct_domains ds" and "set xs \<subseteq> set (gomap_of v1_Name ds)"
  shows "map_of (live_by_domain xs) = map_of (live_by_domain ys)"
proof -
  have *: "n = n'" if "(n, d) \<in> set (gomap_of v1_Name ds)" "(n', d') \<in> set (gomap_of v1_Name ds)"
    "TrimSpace (v1_Domain d) = TrimSpace (v1_Domain d')" "TrimSpace (v1_Domain d) \<noteq> []" for n d n' d'
    using gomap_of_key[OF that(1)] gomap_of_key[OF that(2)] that(3,4) assms(2) unfolding distinct_domains_def by metis
  have eq: "set xs = set ys" using assms(1) by (rule mset_eq_setD)
  have lx: "map_of (live_by_domain zs) dm = Some ow \<longleftrightarrow>
      dm \<noteq> [] \<and> (\<exists>d. (ow, d) \<in> set xs \<and> TrimSpace (v1_Domain d) = dm)" if "set zs = set xs" for zs dm ow
    unfolding that[symmetric] by (rule live_by_domain_lookup) (use * assms(3) that in blast)
  show ?thesis
  proof
    fix dm show "map_of (live_by_domain xs) dm = map_of (live_by_domain ys) dm"
      using lx[OF refl, of dm] lx[OF eq[symmetric], of dm] by (metis option.exhaust)
  qed
qed

lemma distinct_concat_optional:
  assumes "\<And>x. f x = [] \<or> (\<exists>c. f x = [c] \<and> key c = fst x)" and "distinct (map fst xs)"
  shows "distinct (map key (concat (map f xs)))"
proof -
  have sub: "key ` set (concat (map f ys)) \<subseteq> fst ` set ys" for ys
  proof (induction ys)
    case (Cons y ys)
    with assms(1)[of y] show ?case by auto
  qed simp
  from assms(2) show ?thesis
  proof (induction xs)
    case (Cons x xs)
    then have ih: "distinct (map key (concat (map f xs)))" and x: "fst x \<notin> fst ` set xs" by auto
    from assms(1)[of x] show ?case
    proof (elim disjE exE conjE)
      fix c assume "f x = [c]" "key c = fst x"
      moreover have "key c \<notin> set (map key (concat (map f xs)))"
        using x sub[of xs] \<open>key c = fst x\<close> by (metis image_set subsetD)
      ultimately show ?thesis using ih by simp
    qed (use ih in simp)
  qed simp
qed

lemma deploymentConflicts_unique:
  assumes "plan_env_ok e" and "plan_env_ok e'" and "distinct_domains ds" and "distinct (map fst D)"
  shows "deploymentConflicts e D (gomap_of v1_Name ds) = deploymentConflicts e' D (gomap_of v1_Name ds)"
proof -
  let ?L = "gomap_of v1_Name ds"
  define f where "f m = (\<lambda>(name, d :: Deployment_v1).
        let domain = TrimSpace (v1_Domain d) in
        if domain = [] then []
        else case m domain of
          None \<Rightarrow> []
        | Some owner \<Rightarrow>
            if owner = name \<or> map_of D owner = None then []
            else [\<lparr>cf_Resource = name, cf_Reason = DomainClaimed domain owner\<rparr>])" for m :: "string \<Rightarrow> string option"
  have dc: "deploymentConflicts e D ?L = pe_sort_conflicts e (concat (map (f (map_of (live_by_domain (pe_range e ?L)))) (pe_range e D)))" for e
    unfolding deploymentConflicts_def f_def Let_def by (rule refl)
  have ro: "mset (pe_range e xs) = mset xs" "mset (pe_range e' xs) = mset xs" for xs
    using assms(1,2) by (simp_all add: plan_env_ok_def range_order_def)
  have m: "map_of (live_by_domain (pe_range e ?L)) = map_of (live_by_domain (pe_range e' ?L))"
  proof (rule live_by_domain_perm[OF _ assms(3)])
    show "mset (pe_range e ?L) = mset (pe_range e' ?L)" by (simp add: ro)
    show "set (pe_range e ?L) \<subseteq> set ?L" using mset_eq_setD[OF ro(1)] by simp
  qed
  have cm: "mset (concat (map g xs)) = mset (concat (map g ys))" if "mset xs = mset ys" for g :: "string \<times> Deployment_v1 \<Rightarrow> Conflict list" and xs ys
  proof -
    have "mset (concat (map g zs)) = sum_mset (image_mset (\<lambda>z. mset (g z)) (mset zs))" for zs
      by (induction zs) simp_all
    then show ?thesis using that by simp
  qed
  show ?thesis unfolding dc m
  proof (rule sorts_by_unique[of cf_Resource "pe_sort_conflicts e" "pe_sort_conflicts e'"])
    show "sorts_by cf_Resource (pe_sort_conflicts e)" "sorts_by cf_Resource (pe_sort_conflicts e')"
      using assms(1,2) by (simp_all add: plan_env_ok_def)
    show "mset (concat (map (f (map_of (live_by_domain (pe_range e' ?L)))) (pe_range e D))) =
        mset (concat (map (f (map_of (live_by_domain (pe_range e' ?L)))) (pe_range e' D)))"
      by (rule cm) (simp add: ro)
    have "f m x = [] \<or> (\<exists>c. f m x = [c] \<and> cf_Resource c = fst x)" for m x
      by (cases x; cases "m (TrimSpace (v1_Domain (snd x)))") (simp_all add: f_def Let_def)
    then have "distinct (map fst xs) \<Longrightarrow> distinct (map cf_Resource (concat (map (f m) xs)))" for xs m
      by (rule distinct_concat_optional)
    then show "distinct (map cf_Resource (concat (map (f (map_of (live_by_domain (pe_range e' ?L)))) (pe_range e D))))"
      using assms(4) ro(1)[of D] by (metis mset_eq_imp_distinct_iff mset_map)
  qed
qed

lemma deploymentConflicts_distinct:
  assumes "plan_env_ok e" and "distinct (map fst D)"
  shows "distinct (map cf_Resource (deploymentConflicts e D L))"
proof -
  have 1: "distinct (map fst (pe_range e D))"
    using assms by (simp add: plan_env_ok_def range_order_distinct_keys)
  have "sorts_by cf_Resource (pe_sort_conflicts e)" using assms(1) by (simp add: plan_env_ok_def)
  then have 2: "distinct (map cf_Resource (pe_sort_conflicts e cs)) \<longleftrightarrow> distinct (map cf_Resource cs)" for cs
    using sorts_by_perm(1) by (metis mset_eq_imp_distinct_iff mset_map)
  show ?thesis unfolding deploymentConflicts_def Let_def 2
  proof (rule distinct_concat_optional[OF _ 1])
    fix x show "(case x of (name, d) \<Rightarrow>
        if TrimSpace (v1_Domain d) = [] then []
        else case map_of (live_by_domain (pe_range e L)) (TrimSpace (v1_Domain d)) of
          None \<Rightarrow> []
        | Some owner \<Rightarrow>
            if owner = name \<or> map_of D owner = None then []
            else [\<lparr>cf_Resource = name, cf_Reason = DomainClaimed (TrimSpace (v1_Domain d)) owner\<rparr>]) = [] \<or>
      (\<exists>c. (case x of (name, d) \<Rightarrow>
        if TrimSpace (v1_Domain d) = [] then []
        else case map_of (live_by_domain (pe_range e L)) (TrimSpace (v1_Domain d)) of
          None \<Rightarrow> []
        | Some owner \<Rightarrow>
            if owner = name \<or> map_of D owner = None then []
            else [\<lparr>cf_Resource = name, cf_Reason = DomainClaimed (TrimSpace (v1_Domain d)) owner\<rparr>]) = [c] \<and> cf_Resource c = fst x)"
      by (simp split: prod.split option.split)
  qed
qed

lemma canonicalizeChanges_unique:
  assumes "plan_env_ok e" and "plan_env_ok e'" and "distinct (map rsc_Resource cs)"
  shows "canonicalizeChanges e cs = canonicalizeChanges e' cs"
  unfolding canonicalizeChanges_def
  by (rule sorts_by_unique[of rsc_Resource "pe_sort_changes e" "pe_sort_changes e'"])
    (use assms in \<open>simp_all add: plan_env_ok_def comp_def\<close>)

lemma sort_conflicts_unique:
  assumes "plan_env_ok e" and "plan_env_ok e'" and "distinct (map cf_Resource cs)"
  shows "pe_sort_conflicts e cs = pe_sort_conflicts e' cs"
  by (rule sorts_by_unique[of cf_Resource "pe_sort_conflicts e" "pe_sort_conflicts e'"])
    (use assms in \<open>simp_all add: plan_env_ok_def\<close>)

lemma plan_resources_distinct:
  assumes "distinct (map fst D)" and "distinct (map fst L)"
  shows "distinct (map rsc_Resource (act_Create (plan_resources diff D L)))"
    "distinct (map rsc_Resource (act_Update (plan_resources diff D L)))"
    "distinct (map rsc_Resource (act_Delete (plan_resources diff D L)))"
    "distinct (map rsc_Resource (act_Noop (plan_resources diff D L)))"
    "distinct (map rsc_Resource (rp_Drift (plan_resources diff D L)))"
    "distinct (map rsc_Resource (rp_Destructive (plan_resources diff D L)))"
proof -
  have d: "distinct (created D L)" "distinct (created L D)" "distinct (updated diff D L)" "distinct (unchanged diff D L)"
    using assms by (simp_all add: created_def updated_def unchanged_def sortedKeys_distinct)
  have "set (updated diff D L) \<inter> set (created L D) = {}"
    by (auto simp: updated_def created_def map_of_eq_None_iff)
  with d show "distinct (map rsc_Resource (act_Create (plan_resources diff D L)))"
    "distinct (map rsc_Resource (act_Update (plan_resources diff D L)))"
    "distinct (map rsc_Resource (act_Delete (plan_resources diff D L)))"
    "distinct (map rsc_Resource (act_Noop (plan_resources diff D L)))"
    "distinct (map rsc_Resource (rp_Drift (plan_resources diff D L)))"
    "distinct (map rsc_Resource (rp_Destructive (plan_resources diff D L)))"
    by (simp_all add: plan_resources_spec change_def comp_def)
qed

lemma canonicalizeResourceActions_unique:
  assumes "plan_env_ok e" and "plan_env_ok e'" and "distinct (map fst D)" and "distinct (map fst L)"
  shows "canonicalizeResourceActions e (ResourceActions.truncate (plan_resources diff D L)) =
    canonicalizeResourceActions e' (ResourceActions.truncate (plan_resources diff D L))"
  using canonicalizeChanges_unique[OF assms(1,2)] plan_resources_distinct[OF assms(3,4)]
  by (simp add: canonicalizeResourceActions_def ResourceActions.defs)

lemma canonical_plan_parts:
  assumes "plan_env_ok e" and "plan_env_ok e'"
  shows "canonicalizeResourceActions e (ResourceActions.truncate (plan_resources diff (gomap_of k xs) (gomap_of k ys))) =
      canonicalizeResourceActions e' (ResourceActions.truncate (plan_resources diff (gomap_of k xs) (gomap_of k ys)))"
    "canonicalizeChanges e (rp_Drift (plan_resources diff (gomap_of k xs) (gomap_of k ys))) =
      canonicalizeChanges e' (rp_Drift (plan_resources diff (gomap_of k xs) (gomap_of k ys)))"
    "canonicalizeChanges e (rp_Destructive (plan_resources diff (gomap_of k xs) (gomap_of k ys))) =
      canonicalizeChanges e' (rp_Destructive (plan_resources diff (gomap_of k xs) (gomap_of k ys)))"
  by (intro canonicalizeResourceActions_unique canonicalizeChanges_unique plan_resources_distinct gomap_of_distinct assms)+

lemma canonicalizeChanges_Nil: "plan_env_ok e \<Longrightarrow> canonicalizeChanges e [] = []" "plan_env_ok e \<Longrightarrow> pe_sort_conflicts e [] = []"
  using sorts_by_perm(1)[of rsc_Resource "pe_sort_changes e" "[]"] sorts_by_perm(1)[of cf_Resource "pe_sort_conflicts e" "[]"]
  by (simp_all add: canonicalizeChanges_def plan_env_ok_def)

lemma planningHost_distinct:
  "distinct (map rsc_Resource (ha_Update (planningHost h h')))" "distinct (map rsc_Resource (ha_Noop (planningHost h h')))"
  by (simp_all add: planningHost_def Let_def split: option.split)

lemma fingerprint_unique:
  assumes "plan_env_ok e" and "plan_env_ok e'" and "pe_json e = pe_json e'" and "pe_sha256_hex e = pe_sha256_hex e'"
  shows "fingerprint e (plan_specs e D L) = fingerprint e' (plan_specs e D L)"
proof -
  have "canonicalizePlan e (plan_specs e D L) = canonicalizePlan e' (plan_specs e D L)"
    unfolding plan_specs_def planningDeployments_def planningRegistries_def canonicalizePlan_def canonical_section_def Let_def prod.case
    by (simp add: canonical_plan_parts[OF assms(1,2)] canonicalizeChanges_Nil assms(1,2)
        canonicalizeChanges_unique[OF assms(1,2) planningHost_distinct(1)]
        canonicalizeChanges_unique[OF assms(1,2) planningHost_distinct(2)]
        sort_conflicts_unique[OF assms(1,2) deploymentConflicts_distinct[OF assms(1) gomap_of_distinct]])
  then show ?thesis by (simp add: fingerprint_def assms(3,4))
qed

lemma plan_specs_unique:
  assumes "plan_env_ok e" and "plan_env_ok e'" and "distinct_domains (sp_Deployments L)"
  shows "plan_specs e D L = plan_specs e' D L"
  using deploymentConflicts_unique[OF assms gomap_of_distinct]
  by (simp add: plan_specs_def planningDeployments_def Let_def)

text \<open>Neither the order of the documents nor those of maps and sorts decide the plan.\<close>

lemma Build_unique:
  assumes "plan_env_ok e" and "plan_env_ok e'" and "pe_json e = pe_json e'" and "pe_sha256_hex e = pe_sha256_hex e'"
    and "Validate (config_env.truncate e) desired = []" and "Validate (config_env.truncate e) live = []"
    and "same_content desired desired'" and "same_content live live'"
    and "\<forall>L. doc_Spec live = Some L \<longrightarrow> distinct_domains (sp_Deployments L)"
  shows "Build e' desired' live' = Build e desired live"
proof -
  have ok: "config_env_ok (config_env.truncate e)" "config_env_ok (config_env.truncate e')"
    using assms(1,2) by (simp_all add: plan_env_ok_def)
  have v: "valid_document desired" "valid_document live" using assms(5,6) by (simp_all add: Validate_Nil[OF ok(1)])
  note eq = Canonicalize_unique[OF ok v(1) assms(7)] Canonicalize_unique[OF ok v(2) assms(8)]
  obtain L where L: "doc_Spec live = Some L" using v(2) by (auto simp: valid_document_def)
  obtain ls rs where c: "doc_Spec (Canonicalize (config_env.truncate e) live) = Some \<lparr>sp_Deployments = ls, sp_Registries = rs, sp_Host = sp_Host L\<rparr>"
    and l: "mset ls = mset (map (canon e) (sp_Deployments L))"
    using canonical_spec[OF assms(1) v(2) L] by blast
  have "set ls = canon e ` set (sp_Deployments L)" using mset_eq_setD[OF l] by simp
  moreover have "distinct_domains (sp_Deployments L)" using assms(9) L by blast
  ultimately have "distinct_domains ls" by (rule distinct_domains_canon)
  then have "plan_specs e' D' (the (doc_Spec (Canonicalize (config_env.truncate e) live))) =
      plan_specs e D' (the (doc_Spec (Canonicalize (config_env.truncate e) live)))" for D'
    using plan_specs_unique[OF assms(2,1)] by (simp add: c)
  moreover have "doc_Spec desired \<noteq> None" "doc_Spec desired' \<noteq> None" "doc_Spec live \<noteq> None" "doc_Spec live' \<noteq> None"
    using assms(7,8) by (auto simp: same_content_def)
  ultimately show ?thesis
    using fingerprint_unique[OF assms(1-4)] by (simp add: Build_def eq Let_def)
qed

section \<open>Properties\<close>


text \<open>
  A live state that already has the desired content needs nothing. Planning a valid document
  against a document with the same content, in whatever order, creates, updates and deletes nothing
  and reports no drift.
\<close>

theorem plan_of_same_content_is_empty:
  assumes "plan_env_ok e" and "Validate (config_env.truncate e) desired = []" and "proper_document desired"
    and "same_content desired live" and "Build e desired live = Inr plan"
  shows "sm_CreateCount (pl_Summary plan) = 0 \<and> sm_UpdateCount (pl_Summary plan) = 0 \<and> sm_DeleteCount (pl_Summary plan) = 0 \<and>
    sm_DriftCount (pl_Summary plan) = 0 \<and> sm_DestructiveCount (pl_Summary plan) = 0"
proof -
  have ok: "config_env_ok (config_env.truncate e)" using assms(1) by (simp add: plan_env_ok_def)
  have v: "valid_document desired" using assms(2) by (simp add: Validate_Nil[OF ok])
  from assms(4) obtain D where D: "doc_Spec desired = Some D" by (auto simp: same_content_def)
  obtain ds rs where d: "doc_Spec (Canonicalize (config_env.truncate e) desired) = Some \<lparr>sp_Deployments = ds, sp_Registries = rs, sp_Host = sp_Host D\<rparr>"
    "mset ds = mset (map (canon e) (sp_Deployments D))" "distinct (map v1_Name ds)" "distinct (map v1r_Prefix rs)"
    using canonical_spec[OF assms(1) v D] by blast
  have l: "doc_Spec (Canonicalize (config_env.truncate e) live) = Some \<lparr>sp_Deployments = ds, sp_Registries = rs, sp_Host = sp_Host D\<rparr>"
    unfolding Canonicalize_unique[OF ok ok v assms(4)] by (rule d(1))
  let ?s = "\<lparr>sp_Deployments = ds, sp_Registries = rs, sp_Host = sp_Host D\<rparr>"
  from Build_Inr[OF assms(5)] have p: "pl_Summary plan = pl_Summary (plan_specs e ?s ?s)"
    unfolding d(1) l option.sel by (metis PlanDocument.select_convs PlanDocument.surjective PlanDocument.update_convs(3))
  have "distinct (map fst (Prelude.slice (v1_Env x)))" if "x \<in> set ds" for x
  proof -
    from that d(2) obtain y where y: "y \<in> set (sp_Deployments D)" "x = canon e y"
      by (metis (no_types, lifting) image_iff image_set mset_eq_setD)
    with assms(3) D have "distinct (map fst (Prelude.slice (v1_Env y)))" by (auto simp: proper_document_def)
    then show ?thesis using y(2) by (simp add: canonical_deployment_def proper_clone_env)
  qed
  then have "\<forall>x \<in> set ds. diffDeployment x x = []" by (simp add: diffDeployment_refl)
  note same = plan_resources_same[OF d(3), of diffDeployment, OF this] plan_resources_same[OF d(4), of diffRegistry]
  have "ha_Update (planningHost h h) = []" for h
    by (cases h) (simp_all add: planningHost_def diffHost_refl)
  with same show ?thesis unfolding p
    by (simp add: plan_specs_def planningDeployments_def planningRegistries_def Let_def summary_of_def plan_resources_spec
        ResourceActions.defs diffRegistry_refl)
qed


section \<open>Samples\<close>

definition plan_env0 :: plan_env where
  "plan_env0 = config_env.extend config_env0 \<lparr>pe_sort_changes = sort_key rsc_Resource, pe_sort_conflicts = sort_key cf_Resource,
     pe_range = (\<lambda>m. m), pe_json = (\<lambda>p. concat (map rsc_Resource (act_Create (ac_Deployments (pl_Actions p))))), pe_sha256_hex = (\<lambda>x. x)\<rparr>"

lemma plan_env0_truncate: "config_env.truncate plan_env0 = config_env0"
  by (simp add: plan_env0_def config_env.defs config_env0_def)

lemma plan_env0_ok: "plan_env_ok plan_env0"
  by (simp add: plan_env_ok_def plan_env0_truncate config_env0_ok) (simp add: plan_env0_def config_env.defs)

definition doc_wa :: Document_v1 where "doc_wa = document_v1 [deployment_v1 ''web'', deployment_v1 ''api'']"
definition doc_aw :: Document_v1 where "doc_aw = document_v1 [deployment_v1 ''api'', deployment_v1 ''web'']"
definition doc_d :: Document_v1 where "doc_d = document_v1 [(deployment_v1 ''web'')\<lparr>v1_Image := ''nginx:2''\<rparr>, deployment_v1 ''db'']"

lemma sample_docs:
  "Validate config_env0 doc_wa = []" "Validate config_env0 doc_d = []" "proper_document doc_wa"
  "same_content doc_wa doc_aw" "same_content doc_d doc_d"
proof -
  show "Validate config_env0 doc_wa = []" by code_simp
  show "Validate config_env0 doc_d = []" by code_simp
qed (simp_all add: proper_document_def same_content_def doc_wa_def doc_aw_def doc_d_def document_v1_def deployment_v1_def Prelude.slice_def)


theorem plan_of_same_content_is_empty_witness:
  "case Build plan_env0 doc_wa doc_aw of Inl _ \<Rightarrow> False | Inr plan \<Rightarrow> sm_DriftCount (pl_Summary plan) = 0"
proof -
  have "doc_Spec doc_wa \<noteq> None" "doc_Spec doc_aw \<noteq> None" by (simp_all add: doc_aw_def doc_wa_def document_v1_def)
  then obtain plan where b: "Build plan_env0 doc_wa doc_aw = Inr plan" by (simp add: Build_def Let_def)
  then show ?thesis
    using plan_of_same_content_is_empty[OF plan_env0_ok _ _ _ b] sample_docs by (simp add: plan_env0_truncate)
qed


end
