(* ===== verification/Api.thy ===== *)
theory Api
  imports Mounts Poller Reconciler
begin

text \<open>
  The API's handlers for deployments, \<open>src/api/internal/api/handler_*_deployment*.go\<close>, and the
  helpers of \<open>handler.go\<close> they share.

  A handler changes the store's file, the managed files and the events published, which together
  are \<open>api_state\<close>; it returns an HTTP error or a status code with a value. What a request's outcome
  depends on besides is in \<open>api_env\<close>: the operating system, the faults of each access to the store,
  the configuration, the random bytes of a new ID and the password hash functions. A body that is
  not valid JSON is \<open>None\<close>. Handlers are written with \<open>bind\<close>, which stops at the first error; the
  reading and the writing half of \<open>createDeployment\<close> are separate definitions because nothing locks
  the store between them.
\<close>

section \<open>State, errors and sequencing\<close>

record StatusEvent =
  ev_DeploymentID :: string
  ev_Status :: string
  ev_Reason :: string
  ev_Error :: string

record 'f api_state =
  as_disk :: disk
  as_files :: "'f files"
  as_events :: "StatusEvent list"

record 'f api_env =
  ae_os :: "'f os_api"
  ae_get :: store_env
  ae_list :: store_env
  ae_write :: store_env
  ae_dashboardDomain :: string
  ae_authCookieDomain :: string
  ae_random :: "int list option"
  ae_bcryptCost :: "string \<Rightarrow> bool"
  ae_bcryptHash :: "string \<Rightarrow> string + string"

datatype api_error =
    Msg string
  | MountMsg mount_error
  | PortMsg port_error
  | ProxyPortMsg proxy_port_error
  | HashMsg string

type_synonym failure = "int \<times> api_error"

definition ok :: "'a \<Rightarrow> 's \<Rightarrow> (failure + 'a) \<times> 's" where
  "ok x s = (Inr x, s)"

definition fail :: "int \<Rightarrow> api_error \<Rightarrow> 's \<Rightarrow> (failure + 'a) \<times> 's" where
  "fail code e s = (Inl (code, e), s)"

definition require :: "bool \<Rightarrow> int \<Rightarrow> api_error \<Rightarrow> 's \<Rightarrow> (failure + unit) \<times> 's" where
  "require b code e = (if b then ok () else fail code e)"

definition bind :: "('s \<Rightarrow> (failure + 'a) \<times> 's) \<Rightarrow> ('a \<Rightarrow> 's \<Rightarrow> (failure + 'b) \<times> 's) \<Rightarrow> 's \<Rightarrow> (failure + 'b) \<times> 's" where
  "bind m f s = (case m s of (Inl e, s') \<Rightarrow> (Inl e, s') | (Inr x, s') \<Rightarrow> f x s')"

definition from_sum :: "('e \<Rightarrow> failure) \<Rightarrow> 'e + 'a \<Rightarrow> 's \<Rightarrow> (failure + 'a) \<times> 's" where
  "from_sum h r s = (map_sum h id r, s)"

text \<open>Access to the store, to the managed files and to the event bus.\<close>

definition reads :: "(store_error \<Rightarrow> failure) \<Rightarrow> (disk \<Rightarrow> store_error + 'a) \<Rightarrow> 'f api_state
    \<Rightarrow> (failure + 'a) \<times> 'f api_state" where
  "reads h f s = (map_sum h id (f (as_disk s)), s)"

definition writes :: "(store_error \<Rightarrow> failure) \<Rightarrow> (disk \<Rightarrow> (store_error + 'a) \<times> disk) \<Rightarrow> 'f api_state
    \<Rightarrow> (failure + 'a) \<times> 'f api_state" where
  "writes h f s = (case f (as_disk s) of (r, dk) \<Rightarrow> (map_sum h id r, s\<lparr>as_disk := dk\<rparr>))"

definition on_files :: "('f files \<Rightarrow> (mount_error + 'a) \<times> 'f files) \<Rightarrow> 'f api_state
    \<Rightarrow> (failure + 'a) \<times> 'f api_state" where
  "on_files f s =
     (case f (as_files s) of (r, fl) \<Rightarrow> (map_sum (\<lambda>e. (400, MountMsg e)) id r, s\<lparr>as_files := fl\<rparr>))"

definition publish :: "StatusEvent \<Rightarrow> 'f api_state \<Rightarrow> (failure + unit) \<times> 'f api_state" where
  "publish e s = (Inr (), s\<lparr>as_events := as_events s @ [e]\<rparr>)"

definition status_event :: "string \<Rightarrow> string \<Rightarrow> StatusEvent" where
  "status_event k st = \<lparr>ev_DeploymentID = k, ev_Status = st, ev_Reason = [], ev_Error = []\<rparr>"

section \<open>Requests and responses\<close>

record basicAuthUserRequest =
  bur_Username :: string
  bur_Password :: string

record basicAuthRequest =
  bar_Users :: "basicAuthUserRequest list"

record deploymentRequest =
  dq_Name :: string
  dq_Image :: string
  dq_Envs :: "string gomap option"
  dq_Ports :: "string list option"
  dq_ProxyPort :: int
  dq_Volumes :: "string list option"
  dq_VolumeMounts :: "volumeMountRequest list option"
  dq_FileMounts :: "fileMountRequest list option"
  dq_Domain :: string
  dq_Public :: bool
  dq_BasicAuth :: "basicAuthRequest option"
  dq_Security :: "SecurityConfig option"

record patchDeploymentRequest =
  pq_Image :: string
  pq_Envs :: "string gomap option"
  pq_Ports :: "string list option"
  pq_ProxyPort :: "int option"
  pq_Volumes :: "string list option"
  pq_VolumeMounts :: "volumeMountRequest list option"
  pq_FileMounts :: "fileMountRequest list option"
  pq_Domain :: string
  pq_Public :: "bool option"
  pq_BasicAuth :: "basicAuthRequest option"
  pq_Security :: "SecurityConfig option"

record 'st deploymentResponse =
  dr_Deployment :: Deployment
  dr_VolumeMounts :: "volumeMountResponse list"
  dr_Stats :: "'st option"

section \<open>Helpers\<close>

definition hex_digit :: "int \<Rightarrow> char" where
  "hex_digit d = (if d < 10 then char_of (48 + d) else char_of (87 + d))"

definition hex :: "int list \<Rightarrow> string" where
  "hex bs = concat (map (\<lambda>b. [hex_digit (b div 16), hex_digit (b mod 16)]) bs)"

definition newID :: "int list \<Rightarrow> string" where
  "newID raw =
     (let b = raw[6 := raw ! 6 mod 16 + 64, 8 := raw ! 8 mod 64 + 128] in
      hex (take 4 b) @ ''-'' @ hex (take 2 (drop 4 b)) @ ''-'' @ hex (take 2 (drop 6 b)) @ ''-'' @
      hex (take 2 (drop 8 b)) @ ''-'' @ hex (drop 10 b))"

definition conflictsWithDashboardDomain :: "string \<Rightarrow> string \<Rightarrow> bool" where
  "conflictsWithDashboardDomain configured domain =
     (let dashboardDomain = normalizeDomain configured in
      if dashboardDomain = [] then False else normalizeDomain domain = dashboardDomain)"

definition privateDomainAllowed :: "string \<Rightarrow> string \<Rightarrow> bool" where
  "privateDomainAllowed authCookieDomain rawDomain =
     (if authCookieDomain = [] then True
      else let domain = normalizeDomain rawDomain in
        if domain = [] then False
        else domain = authCookieDomain \<or> HasSuffix domain (''.'' @ authCookieDomain))"

definition normalizeWAFMode_api :: "string \<Rightarrow> string" where
  "normalizeWAFMode_api mode =
     (if ToLower (TrimSpace mode) = ''enforcement'' then ''enforcement'' else ''detection'')"

definition normalizeSecurityConfig :: "SecurityConfig option \<Rightarrow> SecurityConfig option" where
  "normalizeSecurityConfig cfg = map_option (\<lambda>c. c\<lparr>sc_WAFMode := normalizeWAFMode_api (sc_WAFMode c)\<rparr>) cfg"

definition normalizeDeploymentSecurity :: "Deployment \<Rightarrow> Deployment" where
  "normalizeDeploymentSecurity d = d\<lparr>d_Security := normalizeSecurityConfig (d_Security d)\<rparr>"

definition sanitize_user :: "'f api_env \<Rightarrow> basicAuthUserRequest \<Rightarrow> api_error + BasicAuthUser" where
  "sanitize_user env u =
     (let username = TrimSpace (bur_Username u); password = TrimSpace (bur_Password u) in
      if username = [] then Inl (Msg ''basic auth username is required'')
      else if password = [] then Inl (Msg ''basic auth password is required'')
      else if ae_bcryptCost env password then Inr \<lparr>bau_Username = username, bau_Password = password\<rparr>
      else case ae_bcryptHash env password of
        Inl err \<Rightarrow> Inl (HashMsg err)
      | Inr hashed \<Rightarrow> Inr \<lparr>bau_Username = username, bau_Password = hashed\<rparr>)"

fun sanitize_users :: "'f api_env \<Rightarrow> basicAuthUserRequest list \<Rightarrow> api_error + BasicAuthUser list" where
  "sanitize_users env [] = Inr []"
| "sanitize_users env (u # us) =
     (case sanitize_user env u of
        Inl e \<Rightarrow> Inl e
      | Inr x \<Rightarrow> (case sanitize_users env us of Inl e \<Rightarrow> Inl e | Inr xs \<Rightarrow> Inr (x # xs)))"

definition sanitizeAndHashBasicAuth :: "'f api_env \<Rightarrow> basicAuthRequest option \<Rightarrow> api_error + BasicAuthConfig option" where
  "sanitizeAndHashBasicAuth env input =
     (case input of
        None \<Rightarrow> Inr None
      | Some r \<Rightarrow>
          if bar_Users r = [] then Inr None
          else case sanitize_users env (bar_Users r) of
            Inl e \<Rightarrow> Inl e
          | Inr users \<Rightarrow> Inr (Some \<lparr>bac_Users = users\<rparr>))"

definition equalStringMap :: "string gomap \<Rightarrow> string gomap \<Rightarrow> bool" where
  "equalStringMap a b =
     (if length a \<noteq> length b then False else list_all (\<lambda>(k, av). map_of b k = Some av) a)"

definition equalBasicAuthConfig :: "BasicAuthConfig option \<Rightarrow> basicAuthRequest option \<Rightarrow> bool" where
  "equalBasicAuthConfig existing request =
     (case request of
        None \<Rightarrow> existing = None
      | Some r \<Rightarrow>
          (case existing of
             None \<Rightarrow> False
           | Some e \<Rightarrow>
               length (bac_Users e) = length (bar_Users r) \<and>
               list_all2 (\<lambda>x u. bau_Username x = TrimSpace (bur_Username u) \<and> bau_Password x = TrimSpace (bur_Password u))
                 (bac_Users e) (bar_Users r)))"

definition equalStoredBasicAuthConfig :: "BasicAuthConfig option \<Rightarrow> BasicAuthConfig option \<Rightarrow> bool" where
  "equalStoredBasicAuthConfig a b =
     (case (a, b) of
        (Some x, Some y) \<Rightarrow>
          length (bac_Users x) = length (bac_Users y) \<and>
          list_all2 (\<lambda>u v. bau_Username u = bau_Username v \<and> bau_Password u = bau_Password v) (bac_Users x) (bac_Users y)
      | (None, None) \<Rightarrow> True
      | _ \<Rightarrow> False)"

definition equalSecurityConfig :: "SecurityConfig option \<Rightarrow> SecurityConfig option \<Rightarrow> bool" where
  "equalSecurityConfig existing request =
     (case (existing, request) of
        (Some a, Some b) \<Rightarrow>
          sc_WAFEnabled a = sc_WAFEnabled b \<and>
          normalizeWAFMode_api (sc_WAFMode a) = normalizeWAFMode_api (sc_WAFMode b) \<and>
          sc_IPDenylist a = sc_IPDenylist b \<and> sc_IPAllowlist a = sc_IPAllowlist b \<and>
          sc_CustomRules a = sc_CustomRules b
      | (None, None) \<Rightarrow> True
      | _ \<Rightarrow> False)"

definition equalFileMounts :: "FileMount list \<Rightarrow> fileMountRequest list \<Rightarrow> bool" where
  "equalFileMounts existing request =
     (length existing = length request \<and>
      list_all2 (\<lambda>left right. fm_Source left = TrimSpace (fr_Source right) \<and> fm_Target left = TrimSpace (fr_Target right) \<and>
          fm_Content left = fr_Content right \<and> fm_ReadOnly left = fr_ReadOnly right \<and>
          fm_FileMode left = TrimSpace (fr_FileMode right) \<and> fm_UID left = fr_UID right \<and> fm_GID left = fr_GID right)
        existing request)"

definition updateRequiresRedeploy :: "Deployment \<Rightarrow> deploymentRequest \<Rightarrow> bool" where
  "updateRequiresRedeploy existing body \<longleftrightarrow>
     d_Image existing \<noteq> dq_Image body \<or>
     \<not> equalStringMap (slice (d_Envs existing)) (slice (dq_Envs body)) \<or>
     slice (d_Ports existing) \<noteq> slice (dq_Ports body) \<or>
     d_ProxyPort existing \<noteq> dq_ProxyPort body \<or>
     slice (d_Volumes existing) \<noteq> slice (dq_Volumes body) \<or>
     \<not> equalFileMounts (slice (d_FileMounts existing)) (slice (dq_FileMounts body)) \<or>
     \<not> equalBasicAuthConfig (d_BasicAuth existing) (dq_BasicAuth body)"

definition patchRequiresRedeploy :: "Deployment \<Rightarrow> patchDeploymentRequest \<Rightarrow> bool" where
  "patchRequiresRedeploy existing body \<longleftrightarrow>
     pq_Image body \<noteq> [] \<and> d_Image existing \<noteq> pq_Image body \<or>
     pq_Envs body \<noteq> None \<and> \<not> equalStringMap (slice (d_Envs existing)) (slice (pq_Envs body)) \<or>
     pq_Ports body \<noteq> None \<and> slice (d_Ports existing) \<noteq> slice (pq_Ports body) \<or>
     pq_ProxyPort body \<noteq> None \<and> d_ProxyPort existing \<noteq> the (pq_ProxyPort body) \<or>
     pq_Volumes body \<noteq> None \<and> slice (d_Volumes existing) \<noteq> slice (pq_Volumes body) \<or>
     pq_FileMounts body \<noteq> None \<and> \<not> equalFileMounts (slice (d_FileMounts existing)) (slice (pq_FileMounts body)) \<or>
     pq_BasicAuth body \<noteq> None \<and> \<not> equalBasicAuthConfig (d_BasicAuth existing) (pq_BasicAuth body)"

definition updateRequestMatchesExisting :: "Deployment \<Rightarrow> deploymentRequest \<Rightarrow> BasicAuthConfig option \<Rightarrow> bool" where
  "updateRequestMatchesExisting existing body basicAuth \<longleftrightarrow>
     d_Name existing = dq_Name body \<and> d_Image existing = dq_Image body \<and>
     equalStringMap (slice (d_Envs existing)) (slice (dq_Envs body)) \<and>
     slice (d_Ports existing) = slice (dq_Ports body) \<and> d_ProxyPort existing = dq_ProxyPort body \<and>
     slice (d_Volumes existing) = slice (dq_Volumes body) \<and>
     equalFileMounts (slice (d_FileMounts existing)) (slice (dq_FileMounts body)) \<and>
     d_Domain existing = dq_Domain body \<and> d_Public existing = dq_Public body \<and>
     equalStoredBasicAuthConfig (d_BasicAuth existing) basicAuth \<and>
     equalSecurityConfig (d_Security existing) (dq_Security body)"

definition deploymentResponseFromStore :: "'f os_api \<Rightarrow> Deployment \<Rightarrow> 'st option \<Rightarrow> 'st deploymentResponse" where
  "deploymentResponseFromStore os d stats =
     \<lparr>dr_Deployment = normalizeDeploymentSecurity d,
      dr_VolumeMounts = volumeMountsFromBindings os (d_ID d) (slice (d_Volumes d)), dr_Stats = stats\<rparr>"

text \<open>How a handler answers an error of the store or of the port assignment.\<close>

definition get_failure :: "store_error \<Rightarrow> failure" where
  "get_failure err = (if err = ErrNotFound then (404, Msg ''deployment not found'') else (500, Msg ''failed to get deployment''))"

definition port_failure :: "port_error \<Rightarrow> failure" where
  "port_failure err =
     (case err of
        HostPortConflict _ _ \<Rightarrow> (409, PortMsg err)
      | NoHostPortsAvailable \<Rightarrow> (503, Msg ''no host ports available'')
      | _ \<Rightarrow> (400, PortMsg err))"

section \<open>Create, update and patch\<close>

text \<open>The checks that creating and updating share, up to the resolved mounts.\<close>

definition request_checks :: "'f api_env \<Rightarrow> deploymentRequest \<Rightarrow> 'f api_state \<Rightarrow> (failure + BasicAuthConfig option) \<times> 'f api_state" where
  "request_checks env body =
     bind (require (dq_Name body \<noteq> [] \<and> dq_Image body \<noteq> []) 400 (Msg ''name and image are required'')) (\<lambda>_.
     bind (require (\<not> conflictsWithDashboardDomain (ae_dashboardDomain env) (dq_Domain body)) 409
             (Msg ''domain is reserved for dashboard'')) (\<lambda>_.
     bind (require (dq_Public body \<or> privateDomainAllowed (ae_authCookieDomain env) (dq_Domain body)) 400
             (Msg ''private deployments must use a domain within LOTSEN_AUTH_COOKIE_DOMAIN'')) (\<lambda>_.
     from_sum (Pair 400) (sanitizeAndHashBasicAuth env (dq_BasicAuth body)))))"

definition resolve_mounts :: "'f api_env \<Rightarrow> string \<Rightarrow> deploymentRequest \<Rightarrow> 'f api_state
    \<Rightarrow> (failure + deploymentRequest \<times> FileMount list) \<times> 'f api_state" where
  "resolve_mounts env k body =
     bind (on_files (resolveVolumeBindings (ae_os env) k (dq_Volumes body) (dq_VolumeMounts body))) (\<lambda>volumes.
     bind (on_files (resolveFileMounts (ae_os env) k (dq_FileMounts body))) (\<lambda>mounts.
     ok (body\<lparr>dq_Envs := Some (slice (dq_Envs body)), dq_Volumes := Some volumes,
              dq_Security := normalizeSecurityConfig (dq_Security body)\<rparr>, mounts)))"

definition list_all_deployments :: "'f api_env \<Rightarrow> 'f api_state \<Rightarrow> (failure + Deployment list) \<times> 'f api_state" where
  "list_all_deployments env = reads (\<lambda>_. (500, Msg ''failed to list deployments'')) (JS_List (ae_list env))"

definition get_existing :: "'f api_env \<Rightarrow> string \<Rightarrow> 'f api_state \<Rightarrow> (failure + Deployment) \<times> 'f api_state" where
  "get_existing env k = reads get_failure (JS_Get (ae_get env) k)"

definition check_proxy_port :: "string \<Rightarrow> int \<Rightarrow> string list \<Rightarrow> 's \<Rightarrow> (failure + unit) \<times> 's" where
  "check_proxy_port domain proxyPort ports =
     (case validateProxyPortSelection domain proxyPort ports of None \<Rightarrow> ok () | Some e \<Rightarrow> fail 400 (ProxyPortMsg e))"

definition deployment_of :: "string \<Rightarrow> deploymentRequest \<Rightarrow> FileMount list \<Rightarrow> BasicAuthConfig option \<Rightarrow> Status \<Rightarrow> Deployment" where
  "deployment_of k body mounts basicAuth status =
     zero_Deployment\<lparr>d_ID := k, d_Name := dq_Name body, d_Image := dq_Image body, d_Envs := dq_Envs body,
       d_Ports := dq_Ports body, d_ProxyPort := dq_ProxyPort body, d_Volumes := dq_Volumes body,
       d_FileMounts := Some mounts, d_Domain := dq_Domain body, d_Public := dq_Public body,
       d_BasicAuth := basicAuth, d_Security := dq_Security body, d_Status := status\<rparr>"

definition create_prepare :: "'f api_env \<Rightarrow> deploymentRequest option \<Rightarrow> 'f api_state \<Rightarrow> (failure + Deployment) \<times> 'f api_state" where
  "create_prepare env decoded =
     (case decoded of
        None \<Rightarrow> fail 400 (Msg ''invalid request body'')
      | Some body \<Rightarrow>
          bind (request_checks env body) (\<lambda>basicAuth.
          (case ae_random env of
             None \<Rightarrow> fail 500 (Msg ''failed to generate id'')
           | Some raw \<Rightarrow>
               bind (resolve_mounts env (newID raw) body) (\<lambda>(body', mounts).
               bind (list_all_deployments env) (\<lambda>all.
               bind (from_sum port_failure (assignHostPorts all [] [] (slice (dq_Ports body')))) (\<lambda>ports.
               bind (check_proxy_port (dq_Domain body') (dq_ProxyPort body') ports) (\<lambda>_.
               ok (deployment_of (newID raw) (body'\<lparr>dq_Ports := Some ports\<rparr>) mounts basicAuth StatusDeploying))))))))"

definition create_commit :: "'f api_env \<Rightarrow> Deployment \<Rightarrow> 'f api_state \<Rightarrow> (failure + int \<times> 'st deploymentResponse) \<times> 'f api_state" where
  "create_commit env d =
     bind (writes (\<lambda>err. if err = ErrDuplicateName then (409, Msg ''deployment name already in use'')
                        else (500, Msg ''failed to create deployment'')) (JS_Create (ae_write env) d)) (\<lambda>created.
     bind (publish (status_event (d_ID created) StatusDeploying)) (\<lambda>_.
     ok (201, deploymentResponseFromStore (ae_os env) created None)))"

definition createDeployment :: "'f api_env \<Rightarrow> deploymentRequest option \<Rightarrow> 'f api_state
    \<Rightarrow> (failure + int \<times> 'st deploymentResponse) \<times> 'f api_state" where
  "createDeployment env decoded = bind (create_prepare env decoded) (create_commit env)"

text \<open>Writing a changed deployment: what \<open>updateDeployment\<close> does once the request is checked.\<close>

definition update_write :: "'f api_env \<Rightarrow> string \<Rightarrow> Deployment \<Rightarrow> deploymentRequest \<Rightarrow> FileMount list
    \<Rightarrow> BasicAuthConfig option \<Rightarrow> 'f api_state \<Rightarrow> (failure + int \<times> 'st deploymentResponse) \<times> 'f api_state" where
  "update_write env k existing body mounts basicAuth =
     (if updateRequestMatchesExisting existing body basicAuth
      then ok (200, deploymentResponseFromStore (ae_os env) existing None)
      else
        let nextStatus = (if updateRequiresRedeploy existing body then StatusDeploying else d_Status existing) in
        bind (writes (\<lambda>_. (500, Msg ''failed to update deployment''))
                (JS_Update (ae_write env) (deployment_of k body mounts basicAuth nextStatus))) (\<lambda>updated.
        bind (if nextStatus = StatusDeploying then publish (status_event (d_ID updated) StatusDeploying) else ok ()) (\<lambda>_.
        ok (200, deploymentResponseFromStore (ae_os env) updated None))))"

definition updateDeployment :: "'f api_env \<Rightarrow> string \<Rightarrow> deploymentRequest option \<Rightarrow> 'f api_state
    \<Rightarrow> (failure + int \<times> 'st deploymentResponse) \<times> 'f api_state" where
  "updateDeployment env k decoded =
     (case decoded of
        None \<Rightarrow> fail 400 (Msg ''invalid request body'')
      | Some body \<Rightarrow>
          bind (request_checks env body) (\<lambda>basicAuth.
          bind (resolve_mounts env k body) (\<lambda>(body', mounts).
          bind (get_existing env k) (\<lambda>existing.
          bind (list_all_deployments env) (\<lambda>all.
          bind (from_sum port_failure (assignHostPorts all k (slice (d_Ports existing)) (slice (dq_Ports body')))) (\<lambda>ports.
          bind (check_proxy_port (dq_Domain body') (dq_ProxyPort body') ports) (\<lambda>_.
          update_write env k existing (body'\<lparr>dq_Ports := Some ports\<rparr>) mounts basicAuth)))))))"

text \<open>The mounts of a patch, which replace the stored ones only where the request has them.\<close>

definition patch_mounts :: "'f api_env \<Rightarrow> string \<Rightarrow> patchDeploymentRequest \<Rightarrow> 'f api_state
    \<Rightarrow> (failure + patchDeploymentRequest \<times> FileMount list option) \<times> 'f api_state" where
  "patch_mounts env k body =
     bind (if pq_VolumeMounts body = None then ok (pq_Volumes body)
           else bind (on_files (resolveVolumeBindings (ae_os env) k None (pq_VolumeMounts body))) (\<lambda>vs. ok (Some vs))) (\<lambda>volumes.
     bind (if pq_FileMounts body = None then ok None
           else bind (on_files (resolveFileMounts (ae_os env) k (pq_FileMounts body))) (\<lambda>fs. ok (Some fs))) (\<lambda>mounts.
     ok (body\<lparr>pq_Volumes := volumes, pq_Security := normalizeSecurityConfig (pq_Security body)\<rparr>, mounts)))"

definition patch_ports :: "'f api_env \<Rightarrow> string \<Rightarrow> Deployment \<Rightarrow> patchDeploymentRequest \<Rightarrow> 'f api_state
    \<Rightarrow> (failure + string list option) \<times> 'f api_state" where
  "patch_ports env k existing body =
     (case pq_Ports body of
        None \<Rightarrow> ok None
      | Some requested \<Rightarrow>
          bind (list_all_deployments env) (\<lambda>all.
          bind (from_sum port_failure (assignHostPorts all k (slice (d_Ports existing)) requested)) (\<lambda>ports. ok (Some ports))))"

definition patch_of :: "Deployment \<Rightarrow> patchDeploymentRequest \<Rightarrow> FileMount list option \<Rightarrow> BasicAuthConfig option \<Rightarrow> Deployment" where
  "patch_of existing body mounts basicAuth =
     zero_Deployment\<lparr>d_Image := pq_Image body, d_Envs := pq_Envs body, d_Ports := pq_Ports body,
       d_ProxyPort := (case pq_ProxyPort body of None \<Rightarrow> d_ProxyPort existing | Some p \<Rightarrow> p),
       d_ProxyPortSet := pq_ProxyPort body \<noteq> None, d_Volumes := pq_Volumes body, d_FileMounts := mounts,
       d_Domain := pq_Domain body, d_Public := (case pq_Public body of None \<Rightarrow> d_Public existing | Some p \<Rightarrow> p),
       d_PublicSet := pq_Public body \<noteq> None, d_BasicAuth := basicAuth, d_Security := pq_Security body,
       d_Status := (if patchRequiresRedeploy existing body then StatusDeploying else [])\<rparr>"

text \<open>The part of \<open>patchDeployment\<close> after the stored deployment has been read: the checks on the
  values in effect, and the write.\<close>

definition patch_write :: "'f api_env \<Rightarrow> string \<Rightarrow> Deployment \<Rightarrow> 'f api_state
    \<Rightarrow> (failure + int \<times> 'st deploymentResponse) \<times> 'f api_state" where
  "patch_write env k patch =
     bind (writes (\<lambda>_. (500, Msg ''failed to update deployment'')) (JS_Patch (ae_write env) k patch)) (\<lambda>updated.
     bind (if d_Status patch = StatusDeploying then publish (status_event k StatusDeploying) else ok ()) (\<lambda>_.
     ok (202, deploymentResponseFromStore (ae_os env) updated None)))"

definition patch_existing :: "'f api_env \<Rightarrow> string \<Rightarrow> patchDeploymentRequest \<Rightarrow> FileMount list option \<Rightarrow> BasicAuthConfig option
    \<Rightarrow> Deployment \<Rightarrow> 'f api_state \<Rightarrow> (failure + int \<times> 'st deploymentResponse) \<times> 'f api_state" where
  "patch_existing env k body mounts basicAuth existing =
     (let effectiveDomain = (if pq_Domain body \<noteq> [] then pq_Domain body else d_Domain existing);
          effectivePublic = (case pq_Public body of None \<Rightarrow> d_Public existing | Some p \<Rightarrow> p);
          effectiveProxyPort = (case pq_ProxyPort body of None \<Rightarrow> d_ProxyPort existing | Some p \<Rightarrow> p) in
      bind (require (effectivePublic \<or> privateDomainAllowed (ae_authCookieDomain env) effectiveDomain) 400
              (Msg ''private deployments must use a domain within LOTSEN_AUTH_COOKIE_DOMAIN'')) (\<lambda>_.
      bind (patch_ports env k existing body) (\<lambda>ports.
      bind (check_proxy_port effectiveDomain effectiveProxyPort
              (case ports of None \<Rightarrow> slice (d_Ports existing) | Some ps \<Rightarrow> ps)) (\<lambda>_.
      patch_write env k (patch_of existing (body\<lparr>pq_Ports := ports\<rparr>) mounts basicAuth)))))"

definition patchDeployment :: "'f api_env \<Rightarrow> string \<Rightarrow> patchDeploymentRequest option \<Rightarrow> 'f api_state
    \<Rightarrow> (failure + int \<times> 'st deploymentResponse) \<times> 'f api_state" where
  "patchDeployment env k decoded =
     (case decoded of
        None \<Rightarrow> fail 400 (Msg ''invalid request body'')
      | Some body0 \<Rightarrow>
          bind (require (pq_Domain body0 = [] \<or> \<not> conflictsWithDashboardDomain (ae_dashboardDomain env) (pq_Domain body0))
                  409 (Msg ''domain is reserved for dashboard'')) (\<lambda>_.
          bind (patch_mounts env k body0) (\<lambda>(body, mounts).
          bind (from_sum (Pair 400) (sanitizeAndHashBasicAuth env (pq_BasicAuth body))) (\<lambda>basicAuth.
          bind (get_existing env k) (\<lambda>existing.
          patch_existing env k body mounts basicAuth existing)))))"

section \<open>The other handlers\<close>

definition updateDeploymentStatus :: "'f api_env \<Rightarrow> string \<Rightarrow> (string \<times> string \<times> string) option \<Rightarrow> 'f api_state
    \<Rightarrow> (failure + int \<times> Deployment) \<times> 'f api_state" where
  "updateDeploymentStatus env k decoded =
     (case decoded of
        None \<Rightarrow> fail 400 (Msg ''invalid request body'')
      | Some (status, reason, error) \<Rightarrow>
          bind (require (status \<in> set [StatusIdle, StatusDeploying, StatusHealthy, StatusFailed]) 400 (Msg ''invalid status'')) (\<lambda>_.
          bind (get_existing env k) (\<lambda>d.
          bind (writes (\<lambda>_. (500, Msg ''failed to update deployment''))
                  (JS_Update (ae_write env) (d\<lparr>d_Status := status, d_Reason := reason, d_Error := error\<rparr>))) (\<lambda>updated.
          bind (publish \<lparr>ev_DeploymentID = k, ev_Status = status, ev_Reason = reason, ev_Error = error\<rparr>) (\<lambda>_.
          ok (200, updated))))))"

definition restartDeployment :: "'f api_env \<Rightarrow> string \<Rightarrow> 'f api_state \<Rightarrow> (failure + int \<times> Deployment) \<times> 'f api_state" where
  "restartDeployment env k =
     bind (get_existing env k) (\<lambda>_.
     bind (writes (\<lambda>_. (500, Msg ''failed to restart deployment''))
             (JS_Patch (ae_write env) k (zero_Deployment\<lparr>d_Status := StatusDeploying\<rparr>))) (\<lambda>updated.
     bind (publish (status_event k StatusDeploying)) (\<lambda>_.
     ok (202, updated))))"

definition deleteDeployment :: "'f api_env \<Rightarrow> string \<Rightarrow> 'f api_state \<Rightarrow> (failure + int) \<times> 'f api_state" where
  "deleteDeployment env k =
     bind (writes (\<lambda>err. if err = ErrNotFound then (404, Msg ''deployment not found'')
                        else (500, Msg ''failed to delete deployment'')) (JS_Delete (ae_write env) k)) (\<lambda>_.
     ok 204)"

definition stats_of :: "'st gomap option \<Rightarrow> string \<Rightarrow> 'st option" where
  "stats_of cache k = (case cache of None \<Rightarrow> None | Some m \<Rightarrow> map_of m k)"

definition getDeployment :: "'f api_env \<Rightarrow> 'st gomap option \<Rightarrow> string \<Rightarrow> 'f api_state
    \<Rightarrow> (failure + int \<times> 'st deploymentResponse) \<times> 'f api_state" where
  "getDeployment env cache k =
     bind (get_existing env k) (\<lambda>d. ok (200, deploymentResponseFromStore (ae_os env) d (stats_of cache (d_ID d))))"

definition listDeployments :: "'f api_env \<Rightarrow> 'st gomap option \<Rightarrow> 'f api_state
    \<Rightarrow> (failure + int \<times> 'st deploymentResponse list) \<times> 'f api_state" where
  "listDeployments env cache =
     bind (list_all_deployments env) (\<lambda>ds.
     ok (200, map (\<lambda>d. deploymentResponseFromStore (ae_os env) d (stats_of cache (d_ID d))) ds))"

section \<open>Failed requests\<close>

named_theorems api_intro \<open>which actions leave the store and the events alone\<close>

lemma bind_Inr:
  assumes "bind m f s = (Inr y, s')"
  obtains x s1 where "m s = (Inr x, s1)" and "f x s1 = (Inr y, s')"
  using assms by (auto simp: bind_def split: prod.splits sum.splits)

lemma bind_Inl:
  assumes "bind m f s = (Inl e, s')"
  obtains "m s = (Inl e, s')" | x s1 where "m s = (Inr x, s1)" and "f x s1 = (Inl e, s')"
  using assms by (auto simp: bind_def split: prod.splits sum.splits)

text \<open>The same file and the same events; actions that always leave them, actions that leave them
  when they fail, and actions that do not fail.\<close>

definition quiet :: "'f api_state \<Rightarrow> 'f api_state \<Rightarrow> bool" where
  "quiet s s' \<longleftrightarrow> dk_file (as_disk s') = dk_file (as_disk s) \<and> as_events s' = as_events s"

definition silent :: "('f api_state \<Rightarrow> (failure + 'a) \<times> 'f api_state) \<Rightarrow> bool" where
  "silent m \<longleftrightarrow> (\<forall>s. as_disk (snd (m s)) = as_disk s \<and> as_events (snd (m s)) = as_events s)"

definition atomic :: "('f api_state \<Rightarrow> (failure + 'a) \<times> 'f api_state) \<Rightarrow> bool" where
  "atomic m \<longleftrightarrow> (\<forall>s e s'. m s = (Inl e, s') \<longrightarrow> quiet s s')"

definition unfailing :: "('f api_state \<Rightarrow> (failure + 'a) \<times> 'f api_state) \<Rightarrow> bool" where
  "unfailing m \<longleftrightarrow> (\<forall>s e s'. m s \<noteq> (Inl e, s'))"

lemma quiet_refl [simp]: "quiet s s"
  by (simp add: quiet_def)

lemma silentD: "silent m \<Longrightarrow> m s = (r, s') \<Longrightarrow> as_disk s' = as_disk s \<and> as_events s' = as_events s"
  unfolding silent_def by (metis snd_conv)

lemma silent_basic [api_intro]:
  "silent (ok x)" "silent (fail c e)" "silent (require b c e)" "silent (from_sum h r)" "silent (reads h' f)"
  "silent (on_files g)"
  by (auto simp: silent_def ok_def fail_def require_def from_sum_def reads_def on_files_def split: prod.splits)

lemma silent_bind [api_intro]:
  assumes "silent m" and "\<And>x. silent (f x)"
  shows "silent (bind m f)"
  using assms unfolding silent_def bind_def by (auto split: prod.splits sum.splits) (metis snd_conv)+

lemma silent_case [api_intro]:
  "silent a \<Longrightarrow> silent b \<Longrightarrow> silent (if c then a else b)"
  "silent a \<Longrightarrow> (\<And>x. silent (g x)) \<Longrightarrow> silent (case o' of None \<Rightarrow> a | Some x \<Rightarrow> g x)"
  "(\<And>x y. silent (h x y)) \<Longrightarrow> silent (case p of (x, y) \<Rightarrow> h x y)"
  by (simp_all split: option.splits prod.splits)

lemma silent_atomic [api_intro]: "silent m \<Longrightarrow> atomic m"
  unfolding atomic_def quiet_def using silentD by metis

lemma unfailing_basic [api_intro]: "unfailing (ok x)" "unfailing (publish e)"
  by (simp_all add: unfailing_def ok_def publish_def)

lemma unfailing_bind [api_intro]: "unfailing m \<Longrightarrow> (\<And>x. unfailing (f x)) \<Longrightarrow> unfailing (bind m f)"
  by (auto simp: unfailing_def elim!: bind_Inl)

lemma unfailing_if [api_intro]: "unfailing a \<Longrightarrow> unfailing b \<Longrightarrow> unfailing (if c then a else b)"
  by simp

lemma atomic_after_silent:
  assumes "silent m" and "\<And>x. atomic (f x)"
  shows "atomic (bind m f)"
  unfolding atomic_def
proof (intro allI impI)
  fix s e s'
  assume "bind m f s = (Inl e, s')"
  then show "quiet s s'"
  proof (rule bind_Inl)
    assume "m s = (Inl e, s')"
    with silentD[OF assms(1)] show ?thesis by (simp add: quiet_def)
  next
    fix x s1 assume "m s = (Inr x, s1)" "f x s1 = (Inl e, s')"
    with silentD[OF assms(1), of s] assms(2) show ?thesis unfolding atomic_def quiet_def by metis
  qed
qed

lemma atomic_then_unfailing: "atomic m \<Longrightarrow> (\<And>x. unfailing (f x)) \<Longrightarrow> atomic (bind m f)"
  by (auto simp: atomic_def unfailing_def elim!: bind_Inl)

lemma atomicD: "atomic m \<Longrightarrow> m s = (Inl e, s') \<Longrightarrow> quiet s s'"
  by (cases e) (simp add: atomic_def)

lemma atomic_case:
  "atomic a \<Longrightarrow> atomic b \<Longrightarrow> atomic (if c then a else b)"
  "atomic a \<Longrightarrow> (\<And>x. atomic (g x)) \<Longrightarrow> atomic (case o' of None \<Rightarrow> a | Some x \<Rightarrow> g x)"
  "(\<And>x y. atomic (h x y)) \<Longrightarrow> atomic (case p of (x, y) \<Rightarrow> h x y)"
  by (simp_all split: option.splits prod.splits)

lemma atomic_writes:
  "atomic (writes h (JS_Create e d))" "atomic (writes h (JS_Update e d))" "atomic (writes h (JS_Patch e k d))"
  "atomic (writes h' (JS_Delete e k))"
  by (auto simp: atomic_def writes_def quiet_def dest: JS_Inl split: prod.splits sum.splits)
    (metis JS_Inl map_sum.simps(2) obj_sumE old.sum.distinct(2))+

lemma silent_parts [api_intro]:
  "silent (request_checks env body)" "silent (resolve_mounts env k body)" "silent (list_all_deployments env)"
  "silent (get_existing env k)" "silent (check_proxy_port dm pp ps)" "silent (patch_mounts env k pb)"
  "silent (patch_ports env k d pb)"
  unfolding request_checks_def resolve_mounts_def list_all_deployments_def get_existing_def check_proxy_port_def
    patch_mounts_def patch_ports_def
  by (intro api_intro)+

lemma silent_prepare [api_intro]: "silent (create_prepare env decoded)"
  unfolding create_prepare_def by (intro api_intro)

lemma atomic_commit: "atomic (create_commit env d)"
  unfolding create_commit_def
  by (rule atomic_then_unfailing, rule atomic_writes, intro api_intro)

lemma atomic_update_write: "atomic (update_write env k existing body mounts basicAuth)"
  unfolding update_write_def Let_def
  by (rule atomic_case(1), intro api_intro, rule atomic_then_unfailing, rule atomic_writes, intro api_intro)

lemmas atomic_steps = atomic_after_silent[OF silent_basic(3)] atomic_after_silent[OF silent_basic(4)]
  atomic_after_silent[OF silent_parts(1)] atomic_after_silent[OF silent_parts(2)]
  atomic_after_silent[OF silent_parts(3)] atomic_after_silent[OF silent_parts(4)]
  atomic_after_silent[OF silent_parts(5)] atomic_after_silent[OF silent_parts(6)]
  atomic_after_silent[OF silent_parts(7)] atomic_after_silent[OF silent_prepare]
  atomic_case atomic_commit atomic_update_write silent_atomic[OF silent_basic(2)]

lemma atomic_create: "atomic (createDeployment env decoded)"
  unfolding createDeployment_def by (intro atomic_steps)

lemma atomic_update: "atomic (updateDeployment env k decoded)"
  unfolding updateDeployment_def by (intro atomic_steps)

lemma atomic_patch_existing: "atomic (patch_existing env k body mounts basicAuth existing)"
  unfolding patch_existing_def patch_write_def Let_def
  by (intro atomic_steps; rule atomic_then_unfailing, rule atomic_writes, intro api_intro)

lemma atomic_patch: "atomic (patchDeployment env k decoded)"
  unfolding patchDeployment_def by (intro atomic_steps atomic_patch_existing)

lemma atomic_status: "atomic (updateDeploymentStatus env k decoded)"
  unfolding updateDeploymentStatus_def
  by (intro atomic_steps; rule atomic_then_unfailing, rule atomic_writes, intro api_intro)

lemma atomic_restart: "atomic (restartDeployment env k)"
  unfolding restartDeployment_def
  by (intro atomic_steps; rule atomic_then_unfailing, rule atomic_writes, intro api_intro)

lemma atomic_delete: "atomic (deleteDeployment env k)"
  unfolding deleteDeployment_def by (rule atomic_then_unfailing, rule atomic_writes, intro api_intro)

section \<open>What an accepted request stores\<close>

text \<open>A deployment that the API accepts: its domain is free, its ports are full bindings without
  conflicts among themselves, and its proxy port is one of them.\<close>

definition well_placed :: "string \<Rightarrow> string \<Rightarrow> Deployment \<Rightarrow> bool" where
  "well_placed dash cookie d \<longleftrightarrow>
     \<not> conflictsWithDashboardDomain dash (d_Domain d) \<and> (d_Public d \<or> privateDomainAllowed cookie (d_Domain d)) \<and>
     validateProxyPortSelection (d_Domain d) (d_ProxyPort d) (slice (d_Ports d)) = None \<and>
     (\<exists>qs. slice (d_Ports d) = map binding qs \<and> (\<forall>q \<in> set qs. bound_spec q) \<and> distinct (map hostProtocolKey qs))"

text \<open>The host ports that a deployment's bindings name, and deployments that share none.\<close>

definition host_keys :: "Deployment \<Rightarrow> (int \<times> string) set" where
  "host_keys d = {(HostPort p, Protocol p) | p raw. raw \<in> set (slice (d_Ports d)) \<and> parsePortSpec raw = Inr p \<and> HostPort p > 0}"

definition ports_disjoint :: "(string \<rightharpoonup> Deployment) \<Rightarrow> bool" where
  "ports_disjoint v \<longleftrightarrow> (\<forall>i j a b. v i = Some a \<longrightarrow> v j = Some b \<longrightarrow> i \<noteq> j \<longrightarrow> host_keys a \<inter> host_keys b = {})"

definition api_inv :: "string \<Rightarrow> string \<Rightarrow> disk \<Rightarrow> bool" where
  "api_inv dash cookie dk \<longleftrightarrow> store_inv dk \<and> ports_disjoint (store_view dk) \<and>
     (\<forall>k d. store_view dk k = Some d \<longrightarrow> k \<noteq> [] \<and> well_placed dash cookie d)"

lemma host_keys_mem:
  "y \<in> host_keys d \<longleftrightarrow> (\<exists>raw \<in> set (slice (d_Ports d)). \<exists>p. parsePortSpec raw = Inr p \<and> HostPort p > 0 \<and>
     y = (HostPort p, Protocol p))"
  by (auto simp: host_keys_def)

lemma ports_disjoint_sub:
  assumes "ports_disjoint v" and "\<And>j x. v' j = Some x \<Longrightarrow> v j = Some x"
  shows "ports_disjoint v'"
  unfolding ports_disjoint_def
proof (intro allI impI)
  fix i j a b
  assume "v' i = Some a" "v' j = Some b" "i \<noteq> j"
  with assms(2) have "v i = Some a" "v j = Some b" by simp_all
  with assms(1) \<open>i \<noteq> j\<close> show "host_keys a \<inter> host_keys b = {}" unfolding ports_disjoint_def by metis
qed

lemma host_keys_cong: "slice (d_Ports a) = slice (d_Ports b) \<Longrightarrow> host_keys a = host_keys b"
  by (simp add: host_keys_def)

lemma well_placed_cong:
  "d_Domain a = d_Domain b \<Longrightarrow> d_Public a = d_Public b \<Longrightarrow> d_ProxyPort a = d_ProxyPort b \<Longrightarrow>
    slice (d_Ports a) = slice (d_Ports b) \<Longrightarrow> well_placed dash cookie a = well_placed dash cookie b"
  by (simp add: well_placed_def)

lemma hostProtocolKey_eq: "HostPort p = HostPort q \<Longrightarrow> Protocol p = Protocol q \<Longrightarrow> hostProtocolKey p = hostProtocolKey q"
  by (simp add: hostProtocolKey_def)

lemma assigned_ports:
  assumes "assignHostPorts ds skip cur req = Inr ps"
  shows "\<exists>qs. ps = map binding qs \<and> (\<forall>q \<in> set qs. bound_spec q) \<and> distinct (map hostProtocolKey qs)"
    and "slice (d_Ports d) = ps \<Longrightarrow> x \<in> set ds \<Longrightarrow> d_ID x \<noteq> skip \<Longrightarrow> host_keys d \<inter> host_keys x = {}"
proof -
  from assms obtain qs where qs: "ps = map binding qs" "\<forall>q \<in> set qs. bound_spec q" "distinct (map hostProtocolKey qs)"
    and free: "hostProtocolKey ` set qs \<inter> set (usedHostPorts ds skip) = {}"
    by (rule assignHostPorts_Inr)
  then show "\<exists>qs. ps = map binding qs \<and> (\<forall>q \<in> set qs. bound_spec q) \<and> distinct (map hostProtocolKey qs)" by blast
  show "host_keys d \<inter> host_keys x = {}" if own: "slice (d_Ports d) = ps" and other: "x \<in> set ds" "d_ID x \<noteq> skip"
  proof (rule ccontr)
    assume "host_keys d \<inter> host_keys x \<noteq> {}"
    then obtain y where y: "y \<in> host_keys d" "y \<in> host_keys x" by auto
    from y(1) obtain p raw where "raw \<in> set ps" "parsePortSpec raw = Inr p" and p: "y = (HostPort p, Protocol p)"
      unfolding host_keys_mem own by metis
    from y(2) obtain r where r: "\<exists>raw \<in> set (slice (d_Ports x)). parsePortSpec raw = Inr r" "HostPort r > 0"
      and "y = (HostPort r, Protocol r)"
      unfolding host_keys_mem by metis
    with p have p: "(HostPort p, Protocol p) = (HostPort r, Protocol r)" by simp
    from \<open>raw \<in> set ps\<close> \<open>parsePortSpec raw = Inr p\<close> have "p \<in> set qs" using qs by (auto simp: parse_binding)
    moreover have "hostProtocolKey r \<in> set (usedHostPorts ds skip)"
      using r other unfolding usedHostPorts_mem by blast
    ultimately show False using free hostProtocolKey_eq[of p r] p by auto
  qed
qed

lemma api_inv_update:
  assumes "api_inv dash cookie dk" and "store_inv dk'" and "store_view dk' = (store_view dk)(k \<mapsto> json_Deployment d)"
    and "well_placed dash cookie d" and "k \<noteq> []"
    and "\<And>j x. store_view dk j = Some x \<Longrightarrow> j \<noteq> k \<Longrightarrow> host_keys d \<inter> host_keys x = {}"
  shows "api_inv dash cookie dk'"
proof -
  have hk: "host_keys (json_Deployment d) = host_keys d" by (rule host_keys_cong) simp
  have wp: "well_placed dash cookie (json_Deployment d)" using assms(4) by (simp add: well_placed_def)
  have "ports_disjoint (store_view dk')"
    using assms(1) assms(6) hk unfolding ports_disjoint_def api_inv_def assms(3)
    by (auto split: if_splits)
  with assms(1,2,5) wp show ?thesis by (simp add: api_inv_def assms(3))
qed

lemma api_inv_same:
  assumes "api_inv dash cookie dk" and "store_inv dk'" and "store_view dk' = (store_view dk)(k \<mapsto> json_Deployment d)"
    and "store_view dk k = Some d0" and "d_Domain d = d_Domain d0" and "d_Public d = d_Public d0"
    and "d_ProxyPort d = d_ProxyPort d0" and "slice (d_Ports d) = slice (d_Ports d0)"
  shows "api_inv dash cookie dk'"
proof (rule api_inv_update[OF assms(1-3)])
  show "well_placed dash cookie d" "k \<noteq> []"
    using assms well_placed_cong[of d d0] by (auto simp: api_inv_def)
  show "host_keys d \<inter> host_keys x = {}" if "store_view dk j = Some x" "j \<noteq> k" for j x
    using assms(1,4) that host_keys_cong[OF assms(8)] by (auto simp: api_inv_def ports_disjoint_def)
qed

lemma api_inv_delete:
  assumes "api_inv dash cookie dk" and "store_inv dk'" and "store_view dk' = (store_view dk)(k := None)"
  shows "api_inv dash cookie dk'"
proof -
  have sub: "store_view dk' j = Some x \<Longrightarrow> store_view dk j = Some x" for j x
    by (simp add: assms(3) split: if_splits)
  have "ports_disjoint (store_view dk')"
    by (rule ports_disjoint_sub[OF _ sub]) (use assms(1) in \<open>simp_all add: api_inv_def\<close>)
  moreover have "\<forall>j x. store_view dk' j = Some x \<longrightarrow> j \<noteq> [] \<and> well_placed dash cookie x"
    using sub assms(1) unfolding api_inv_def by metis
  ultimately show ?thesis using assms(2) by (simp add: api_inv_def)
qed

lemma api_inv_cong: "dk_file dk' = dk_file dk \<Longrightarrow> api_inv dash cookie dk' = api_inv dash cookie dk"
  using view_cong[of dk' dk] by (simp add: api_inv_def)

section \<open>The handlers keep the invariant\<close>

named_theorems api_dest \<open>what a step that succeeded says\<close>

lemma basic_Inr [api_dest]:
  "ok x s = (Inr y, s') \<Longrightarrow> y = x \<and> s' = s"
  "require b c e s = (Inr u, s') \<Longrightarrow> b \<and> s' = s"
  "from_sum h r s = (Inr y, s') \<Longrightarrow> r = Inr y \<and> s' = s"
  "reads h' f t = (Inr y, t') \<Longrightarrow> f (as_disk t) = Inr y \<and> t' = t"
  by (cases r; cases "f (as_disk t)"; auto simp: ok_def require_def fail_def from_sum_def reads_def split: if_splits)+

lemma fail_Inr [simp]: "fail c e s = (Inr y, s') \<longleftrightarrow> False"
  by (simp add: fail_def)

lemma writes_Inr:
  assumes "writes h f s = (Inr y, s')"
  shows "f (as_disk s) = (Inr y, as_disk s')"
  using assms by (cases "fst (f (as_disk s))") (auto simp: writes_def split: prod.splits)

lemma publish_Inr: "publish e s = (Inr u, s') \<Longrightarrow> as_disk s' = as_disk s \<and> as_events s' = as_events s @ [e]"
  by (auto simp: publish_def)

lemma check_proxy_port_Inr:
  "check_proxy_port dm pp ps s = (Inr u, s') \<Longrightarrow> validateProxyPortSelection dm pp ps = None \<and> s' = s"
  by (auto simp: check_proxy_port_def dest: basic_Inr(1) split: option.splits simp: fail_def)

lemma request_checks_Inr:
  assumes "request_checks env body s = (Inr ba, s')"
  shows "s' = s \<and> \<not> conflictsWithDashboardDomain (ae_dashboardDomain env) (dq_Domain body) \<and>
    (dq_Public body \<or> privateDomainAllowed (ae_authCookieDomain env) (dq_Domain body))"
  using assms unfolding request_checks_def by (auto elim!: bind_Inr dest!: basic_Inr)

lemma resolve_mounts_Inr:
  assumes "resolve_mounts env k body s = (Inr (body', mounts), s')"
  shows "as_disk s' = as_disk s \<and> dq_Domain body' = dq_Domain body \<and> dq_Public body' = dq_Public body"
proof -
  have "as_disk s' = as_disk s" using silentD[OF silent_parts(2) assms] by simp
  then show ?thesis using assms unfolding resolve_mounts_def by (auto elim!: bind_Inr dest!: basic_Inr)
qed

text \<open>A request's environment for a fixed configuration.\<close>

definition request_env :: "string \<Rightarrow> string \<Rightarrow> 'f api_env \<Rightarrow> bool" where
  "request_env dash cookie env \<longleftrightarrow> ae_dashboardDomain env = dash \<and> ae_authCookieDomain env = cookie \<and>
     env_ok (ae_list env) \<and> env_ok (ae_write env)"

lemma newID_not_Nil: "newID raw \<noteq> []"
  by (simp add: newID_def Let_def)

lemma create_prepare_Inr:
  assumes "create_prepare env decoded s = (Inr d, s')" and "request_env dash cookie env"
  shows "as_disk s' = as_disk s \<and> d_ID d \<noteq> [] \<and> d_Status d = StatusDeploying \<and> well_placed dash cookie d \<and>
    (\<exists>all req. JS_List (ae_list env) (as_disk s) = Inr all \<and> assignHostPorts all [] [] req = Inr (slice (d_Ports d)))"
proof -
  from assms(1) obtain body where body: "decoded = Some body"
    by (auto simp: create_prepare_def fail_def split: option.splits)
  with assms(1) obtain ba s1 where 1: "request_checks env body s = (Inr ba, s1)"
    by (auto simp: create_prepare_def elim: bind_Inr)
  note c = request_checks_Inr[OF 1]
  from assms(1) body 1 obtain raw where raw: "ae_random env = Some raw"
    by (auto simp: create_prepare_def bind_def fail_def split: option.splits)
  have "bind (resolve_mounts env (newID raw) body) (\<lambda>(body', mounts).
      bind (list_all_deployments env) (\<lambda>all.
      bind (from_sum port_failure (assignHostPorts all [] [] (slice (dq_Ports body')))) (\<lambda>ports.
      bind (check_proxy_port (dq_Domain body') (dq_ProxyPort body') ports) (\<lambda>_.
      ok (deployment_of (newID raw) (body'\<lparr>dq_Ports := Some ports\<rparr>) mounts ba StatusDeploying))))) s = (Inr d, s')"
    using assms(1) body 1 c raw by (simp add: create_prepare_def bind_def[of "request_checks env body"])
  then obtain body' mounts s2 where 2: "resolve_mounts env (newID raw) body s = (Inr (body', mounts), s2)"
    and r2: "bind (list_all_deployments env) (\<lambda>all.
      bind (from_sum port_failure (assignHostPorts all [] [] (slice (dq_Ports body')))) (\<lambda>ports.
      bind (check_proxy_port (dq_Domain body') (dq_ProxyPort body') ports) (\<lambda>_.
      ok (deployment_of (newID raw) (body'\<lparr>dq_Ports := Some ports\<rparr>) mounts ba StatusDeploying)))) s2 = (Inr d, s')"
    by (auto elim: bind_Inr)
  obtain all ports where l: "JS_List (ae_list env) (as_disk s2) = Inr all"
    and p: "assignHostPorts all [] [] (slice (dq_Ports body')) = Inr ports"
    and v: "validateProxyPortSelection (dq_Domain body') (dq_ProxyPort body') ports = None"
    and d: "d = deployment_of (newID raw) (body'\<lparr>dq_Ports := Some ports\<rparr>) mounts ba StatusDeploying" "s' = s2"
    using r2 unfolding list_all_deployments_def
    by (auto elim!: bind_Inr dest!: basic_Inr check_proxy_port_Inr)
  note m = resolve_mounts_Inr[OF 2]
  have "well_placed dash cookie d"
    using c m assms(2) assigned_ports(1)[OF p] v
    by (simp add: well_placed_def d deployment_of_def request_env_def)
  moreover have "JS_List (ae_list env) (as_disk s) = Inr all" using l m by simp
  ultimately show ?thesis using m p by (auto simp: d deployment_of_def newID_not_Nil)
qed

lemma listed_disjoint:
  assumes "env_ok e" and "JS_List e dk = Inr all" and "assignHostPorts all skip cur req = Inr (slice (d_Ports d))"
    and "store_view dk j = Some x" and "j \<noteq> skip"
  shows "host_keys d \<inter> host_keys x = {}"
proof -
  have "d_ID x = j" by (rule store_view_key[OF assms(4)])
  moreover from this have "x \<in> set all" using js.list_lookup[OF assms(1,2)] assms(4) by simp
  ultimately show ?thesis using assigned_ports(2)[OF assms(3) refl] assms(5) by simp
qed

lemma atomic_keeps: "atomic m \<Longrightarrow> m s = (Inl e, s') \<Longrightarrow> api_inv dash cookie (as_disk s) \<Longrightarrow> api_inv dash cookie (as_disk s')"
  using api_inv_cong[of "as_disk s'" "as_disk s"] atomicD[of m s e s'] by (simp add: quiet_def)

lemma create_commit_Inr:
  assumes "create_commit env d s = (Inr y, s')"
  shows "JS_Create (ae_write env) d (as_disk s) = (Inr d, as_disk s') \<and>
    as_events s' = as_events s @ [status_event (d_ID d) StatusDeploying]"
proof -
  from assms obtain created s1 where w': "writes (\<lambda>err. if err = ErrDuplicateName then (409, Msg ''deployment name already in use'')
                        else (500, Msg ''failed to create deployment'')) (JS_Create (ae_write env) d) s = (Inr created, s1)"
    and p: "publish (status_event (d_ID created) StatusDeploying) s1 = (Inr (), s')"
    unfolding create_commit_def by (auto elim!: bind_Inr dest!: basic_Inr)
  note w = writes_Inr[OF w']
  have "created = d"
    using w by (auto simp: JS_Create_def withLock_def persist_returning_def split: if_splits sum.splits prod.splits)
  moreover have "as_events s1 = as_events s" using w' by (auto simp: writes_def split: prod.splits)
  ultimately show ?thesis using w publish_Inr[OF p] by simp
qed

lemma create_keeps:
  assumes "createDeployment env decoded s = (r, s')" and "request_env dash cookie env"
    and "api_inv dash cookie (as_disk s)"
  shows "api_inv dash cookie (as_disk s')"
proof (cases r)
  case (Inl e)
  with assms atomic_keeps[OF atomic_create] show ?thesis by blast
next
  case (Inr y)
  with assms(1) obtain d s1 where 1: "create_prepare env decoded s = (Inr d, s1)"
    and 2: "create_commit env d s1 = (Inr y, s')"
    by (auto simp: createDeployment_def elim: bind_Inr)
  note p = create_prepare_Inr[OF 1 assms(2)] and c = create_commit_Inr[OF 2]
  from p obtain all req where l: "JS_List (ae_list env) (as_disk s) = Inr all"
    "assignHostPorts all [] [] req = Inr (slice (d_Ports d))" by blast
  from p c have "JS_Create (ae_write env) d (as_disk s) = (Inr d, as_disk s')" by simp
  from JS_Create_Inr[OF _ _ this] have w: "store_inv (as_disk s')"
    "store_view (as_disk s') = (store_view (as_disk s))(d_ID d \<mapsto> json_Deployment d)"
    using assms(2,3) by (simp_all add: request_env_def api_inv_def)
  show ?thesis
  proof (rule api_inv_update[OF assms(3) w])
    show "well_placed dash cookie d" "d_ID d \<noteq> []" using p by blast+
    show "host_keys d \<inter> host_keys x = {}" if "store_view (as_disk s) j = Some x" "j \<noteq> d_ID d" for j x
      by (rule listed_disjoint[OF _ l that(1)]) (use assms(2,3) that in \<open>auto simp: request_env_def api_inv_def\<close>)
  qed
qed

lemma update_write_Inr:
  assumes "update_write env k existing body mounts ba s = (Inr y, s')"
  shows "s' = s \<or> (\<exists>st. JS_Update (ae_write env) (deployment_of k body mounts ba st) (as_disk s) =
    (Inr (deployment_of k body mounts ba st), as_disk s') \<and>
    (st = d_Status existing \<or> st = StatusDeploying))"
proof (cases "updateRequestMatchesExisting existing body ba")
  case True
  with assms show ?thesis by (auto simp: update_write_def dest!: basic_Inr)
next
  case False
  define st where "st = (if updateRequiresRedeploy existing body then StatusDeploying else d_Status existing)"
  let ?d = "deployment_of k body mounts ba st"
  from False assms have "bind (writes (\<lambda>_. (500, Msg ''failed to update deployment'')) (JS_Update (ae_write env) ?d)) (\<lambda>updated.
      bind (if st = StatusDeploying then publish (status_event (d_ID updated) StatusDeploying) else ok ()) (\<lambda>_.
      ok (200, deploymentResponseFromStore (ae_os env) updated None))) s = (Inr y, s')"
    unfolding update_write_def Let_def st_def[symmetric] by (simp only: if_False)
  then obtain updated where w: "JS_Update (ae_write env) ?d (as_disk s) = (Inr updated, as_disk s')"
    by (auto elim!: bind_Inr dest!: writes_Inr basic_Inr publish_Inr split: if_splits)
  moreover have "updated = ?d"
    using w by (auto simp: JS_Update_def withLock_def persist_returning_def split: if_splits sum.splits prod.splits)
  moreover have "st = d_Status existing \<or> st = StatusDeploying" by (simp add: st_def)
  ultimately show ?thesis by auto
qed

lemma updateDeployment_Inr:
  assumes "updateDeployment env k decoded s = (Inr y, s')" and "request_env dash cookie env"
  obtains s1 existing all req body mounts ba where "as_disk s1 = as_disk s"
    and "JS_Get (ae_get env) k (as_disk s) = Inr existing"
    and "JS_List (ae_list env) (as_disk s) = Inr all"
    and "assignHostPorts all k (slice (d_Ports existing)) req = Inr (slice (dq_Ports body))"
    and "\<forall>st. well_placed dash cookie (deployment_of k body mounts ba st)"
    and "update_write env k existing body mounts ba s1 = (Inr y, s')"
proof -
  from assms(1) obtain body0 where body0: "decoded = Some body0"
    by (auto simp: updateDeployment_def split: option.splits)
  with assms(1) obtain ba s0 where c: "request_checks env body0 s = (Inr ba, s0)"
    and r0: "bind (resolve_mounts env k body0) (\<lambda>(body', mounts).
          bind (get_existing env k) (\<lambda>existing.
          bind (list_all_deployments env) (\<lambda>all.
          bind (from_sum port_failure (assignHostPorts all k (slice (d_Ports existing)) (slice (dq_Ports body')))) (\<lambda>ports.
          bind (check_proxy_port (dq_Domain body') (dq_ProxyPort body') ports) (\<lambda>_.
          update_write env k existing (body'\<lparr>dq_Ports := Some ports\<rparr>) mounts ba))))) s0 = (Inr y, s')"
    unfolding updateDeployment_def by (auto elim: bind_Inr)
  from r0 obtain body1 mounts s1 where m: "resolve_mounts env k body0 s0 = (Inr (body1, mounts), s1)"
    and r: "bind (get_existing env k) (\<lambda>existing.
          bind (list_all_deployments env) (\<lambda>all.
          bind (from_sum port_failure (assignHostPorts all k (slice (d_Ports existing)) (slice (dq_Ports body1)))) (\<lambda>ports.
          bind (check_proxy_port (dq_Domain body1) (dq_ProxyPort body1) ports) (\<lambda>_.
          update_write env k existing (body1\<lparr>dq_Ports := Some ports\<rparr>) mounts ba)))) s1 = (Inr y, s')"
    by (auto elim: bind_Inr)
  from r obtain existing all ports where
    g: "JS_Get (ae_get env) k (as_disk s1) = Inr existing" and l: "JS_List (ae_list env) (as_disk s1) = Inr all"
    and p: "assignHostPorts all k (slice (d_Ports existing)) (slice (dq_Ports body1)) = Inr ports"
    and v: "validateProxyPortSelection (dq_Domain body1) (dq_ProxyPort body1) ports = None"
    and u: "update_write env k existing (body1\<lparr>dq_Ports := Some ports\<rparr>) mounts ba s1 = (Inr y, s')"
    unfolding list_all_deployments_def get_existing_def
    by (auto elim!: bind_Inr dest!: basic_Inr check_proxy_port_Inr)
  note rm = resolve_mounts_Inr[OF m] and rc = request_checks_Inr[OF c]
  show thesis
  proof (rule that[of s1 existing all "slice (dq_Ports body1)" "body1\<lparr>dq_Ports := Some ports\<rparr>" mounts ba])
    show "\<forall>st. well_placed dash cookie (deployment_of k (body1\<lparr>dq_Ports := Some ports\<rparr>) mounts ba st)"
      using rm rc assms(2) assigned_ports(1)[OF p] v by (simp add: well_placed_def deployment_of_def request_env_def)
  qed (use rm rc g l p u in simp_all)
qed

lemma update_keeps:
  assumes "updateDeployment env k decoded s = (r, s')" and "request_env dash cookie env"
    and "api_inv dash cookie (as_disk s)"
  shows "api_inv dash cookie (as_disk s')"
proof (cases r)
  case (Inl e)
  with assms atomic_keeps[OF atomic_update] show ?thesis by blast
next
  case (Inr y)
  from assms(1,2) obtain s1 existing all req body mounts ba where s1: "as_disk s1 = as_disk s"
    and g: "JS_Get (ae_get env) k (as_disk s) = Inr existing"
    and l: "JS_List (ae_list env) (as_disk s) = Inr all"
    and p: "assignHostPorts all k (slice (d_Ports existing)) req = Inr (slice (dq_Ports body))"
    and wp: "\<forall>st. well_placed dash cookie (deployment_of k body mounts ba st)"
    and u: "update_write env k existing body mounts ba s1 = (Inr y, s')"
    unfolding Inr by (rule updateDeployment_Inr) blast
  from update_write_Inr[OF u] consider "s' = s1"
    | st where "JS_Update (ae_write env) (deployment_of k body mounts ba st) (as_disk s1) =
        (Inr (deployment_of k body mounts ba st), as_disk s')" by blast
  then show ?thesis
  proof cases
    case 1
    with s1 assms(3) show ?thesis by simp
  next
    case (2 st)
    let ?d = "deployment_of k body mounts ba st"
    have "JS_Update (ae_write env) ?d (as_disk s1) = (Inr ?d, as_disk s')" by (rule 2)
    from JS_Update_Inr[OF _ _ this] have w: "store_inv (as_disk s')"
      "store_view (as_disk s') = (store_view (as_disk s))(k \<mapsto> json_Deployment ?d)"
      using assms(2,3) s1 by (simp_all add: request_env_def api_inv_def deployment_of_def)
    have k: "store_view (as_disk s) k = Some existing" by (rule js.get_Inr[OF g])
    show ?thesis
    proof (rule api_inv_update[OF assms(3) w spec[OF wp]])
      show "k \<noteq> []" using k assms(3) by (auto simp: api_inv_def)
      show "host_keys ?d \<inter> host_keys x = {}" if "store_view (as_disk s) j = Some x" "j \<noteq> k" for j x
        by (rule listed_disjoint[OF _ l _ that]) (use assms(2) p in \<open>simp_all add: request_env_def deployment_of_def\<close>)
    qed
  qed
qed

lemma patch_ports_Inr:
  assumes "patch_ports env k existing body s = (Inr ports, s')"
  shows "s' = s \<and> (case ports of
      None \<Rightarrow> True
    | Some ps \<Rightarrow> (\<exists>all req. JS_List (ae_list env) (as_disk s) = Inr all \<and>
        assignHostPorts all k (slice (d_Ports existing)) req = Inr ps))"
  using assms unfolding patch_ports_def list_all_deployments_def
  by (auto elim!: bind_Inr dest!: basic_Inr split: option.splits)

lemma patch_mounts_Inr:
  assumes "patch_mounts env k body0 s = (Inr (body, mounts), s')"
  shows "as_disk s' = as_disk s \<and> pq_Domain body = pq_Domain body0 \<and> pq_Public body = pq_Public body0 \<and>
    pq_ProxyPort body = pq_ProxyPort body0"
proof -
  have "as_disk s' = as_disk s" using silentD[OF silent_parts(6) assms] by simp
  then show ?thesis using assms unfolding patch_mounts_def by (auto elim!: bind_Inr dest!: basic_Inr)
qed

text \<open>The deployment that a patch leaves in the store.\<close>

definition patched :: "Deployment \<Rightarrow> patchDeploymentRequest \<Rightarrow> string list option \<Rightarrow> FileMount list option
    \<Rightarrow> BasicAuthConfig option \<Rightarrow> Deployment" where
  "patched existing body ports mounts ba =
     patch_merge existing (patch_of existing (body\<lparr>pq_Ports := ports\<rparr>) mounts ba)"

lemma patched_fields:
  "d_Domain (patched existing body ports mounts ba) = (if pq_Domain body \<noteq> [] then pq_Domain body else d_Domain existing)"
  "d_Public (patched existing body ports mounts ba) = (case pq_Public body of None \<Rightarrow> d_Public existing | Some p \<Rightarrow> p)"
  "d_ProxyPort (patched existing body ports mounts ba) = (case pq_ProxyPort body of None \<Rightarrow> d_ProxyPort existing | Some p \<Rightarrow> p)"
  "slice (d_Ports (patched existing body ports mounts ba)) = (case ports of None \<Rightarrow> slice (d_Ports existing) | Some ps \<Rightarrow> ps)"
  "d_ID (patched existing body ports mounts ba) = d_ID existing"
  by (auto simp: patched_def patch_merge_def patch_of_def zero_Deployment_def split: option.splits)

lemma patch_existing_Inr:
  assumes "patch_existing env k body mounts ba existing s = (Inr y, s')"
  obtains ports d where "patch_ports env k existing body s = (Inr ports, s)"
    and "d_Public (patched existing body ports mounts ba) \<or>
      privateDomainAllowed (ae_authCookieDomain env) (d_Domain (patched existing body ports mounts ba))"
    and "validateProxyPortSelection (d_Domain (patched existing body ports mounts ba))
      (d_ProxyPort (patched existing body ports mounts ba)) (slice (d_Ports (patched existing body ports mounts ba))) = None"
    and "JS_Patch (ae_write env) k (patch_of existing (body\<lparr>pq_Ports := ports\<rparr>) mounts ba) (as_disk s) = (Inr d, as_disk s')"
proof -
  from assms obtain ports s1 where pub: "(case pq_Public body of None \<Rightarrow> d_Public existing | Some p \<Rightarrow> p) \<or>
      privateDomainAllowed (ae_authCookieDomain env) (if pq_Domain body \<noteq> [] then pq_Domain body else d_Domain existing)"
    and p: "patch_ports env k existing body s = (Inr ports, s1)"
    and v: "validateProxyPortSelection (if pq_Domain body \<noteq> [] then pq_Domain body else d_Domain existing)
      (case pq_ProxyPort body of None \<Rightarrow> d_ProxyPort existing | Some p \<Rightarrow> p)
      (case ports of None \<Rightarrow> slice (d_Ports existing) | Some ps \<Rightarrow> ps) = None"
    and w: "patch_write env k (patch_of existing (body\<lparr>pq_Ports := ports\<rparr>) mounts ba) s1 = (Inr y, s')"
    unfolding patch_existing_def Let_def
    by (elim bind_Inr) (drule basic_Inr check_proxy_port_Inr, elim conjE, simp)+
  have s1: "s1 = s" using patch_ports_Inr[OF p] by simp
  from w obtain d where "JS_Patch (ae_write env) k (patch_of existing (body\<lparr>pq_Ports := ports\<rparr>) mounts ba) (as_disk s1) = (Inr d, as_disk s')"
    unfolding patch_write_def by (auto elim!: bind_Inr dest!: writes_Inr basic_Inr publish_Inr split: if_splits)
  with p pub v s1 show thesis by (intro that[of ports d]) (simp_all only: patched_fields)
qed

lemma patch_keeps:
  assumes "patchDeployment env k decoded s = (r, s')" and "request_env dash cookie env"
    and "api_inv dash cookie (as_disk s)"
  shows "api_inv dash cookie (as_disk s')"
proof (cases r)
  case (Inl e)
  with assms atomic_keeps[OF atomic_patch] show ?thesis by blast
next
  case (Inr y)
  with assms(1) obtain body0 where b0: "decoded = Some body0"
    by (auto simp: patchDeployment_def split: option.splits)
  with assms(1) Inr obtain bm s1 where
    c: "pq_Domain body0 = [] \<or> \<not> conflictsWithDashboardDomain (ae_dashboardDomain env) (pq_Domain body0)"
    and m: "patch_mounts env k body0 s = (Inr bm, s1)"
    and r: "(case bm of (body, mounts) \<Rightarrow>
          bind (from_sum (Pair 400) (sanitizeAndHashBasicAuth env (pq_BasicAuth body))) (\<lambda>basicAuth.
          bind (get_existing env k) (\<lambda>existing.
          patch_existing env k body mounts basicAuth existing))) s1 = (Inr y, s')"
    unfolding patchDeployment_def by (simp del: split_paired_Ex) (elim bind_Inr, drule basic_Inr, elim conjE, simp)
  obtain body mounts where bm: "bm = (body, mounts)" by (cases bm)
  note pm = patch_mounts_Inr[OF m[unfolded bm]]
  from r[unfolded bm prod.case] obtain ba existing where g: "JS_Get (ae_get env) k (as_disk s1) = Inr existing"
    and e: "patch_existing env k body mounts ba existing s1 = (Inr y, s')"
    unfolding get_existing_def by (elim bind_Inr) (drule basic_Inr, elim conjE, simp)+
  have k: "store_view (as_disk s) k = Some existing" using js.get_Inr[OF g] pm by simp
  from e obtain ports d where p: "patch_ports env k existing body s1 = (Inr ports, s1)"
    and pub: "d_Public (patched existing body ports mounts ba) \<or>
      privateDomainAllowed (ae_authCookieDomain env) (d_Domain (patched existing body ports mounts ba))"
    and v: "validateProxyPortSelection (d_Domain (patched existing body ports mounts ba))
      (d_ProxyPort (patched existing body ports mounts ba)) (slice (d_Ports (patched existing body ports mounts ba))) = None"
    and w: "JS_Patch (ae_write env) k (patch_of existing (body\<lparr>pq_Ports := ports\<rparr>) mounts ba) (as_disk s1) = (Inr d, as_disk s')"
    by (rule patch_existing_Inr)
  let ?d = "patched existing body ports mounts ba"
  from JS_Patch_Inr[OF _ _ w] have st: "store_inv (as_disk s')"
    "store_view (as_disk s') = (store_view (as_disk s))(k \<mapsto> json_Deployment ?d)"
    using assms(2,3) pm k by (auto simp: request_env_def api_inv_def patched_def)
  have wp0: "well_placed dash cookie existing" "k \<noteq> []" using k assms(3) by (auto simp: api_inv_def)
  show ?thesis
  proof (cases ports)
    case None
    have "well_placed dash cookie ?d"
      using wp0 pub v c pm assms(2) None
      by (auto simp: well_placed_def patched_fields request_env_def split: if_splits)
    moreover have "host_keys ?d = host_keys existing" by (rule host_keys_cong) (simp add: patched_fields None)
    ultimately show ?thesis
      using assms(3) k wp0(2) by (intro api_inv_update[OF assms(3) st]) (auto simp: api_inv_def ports_disjoint_def)
  next
    case (Some ps)
    with patch_ports_Inr[OF p] obtain all req where l: "JS_List (ae_list env) (as_disk s) = Inr all"
      and a: "assignHostPorts all k (slice (d_Ports existing)) req = Inr (slice (d_Ports ?d))"
      using pm by (auto simp: patched_fields)
    have "well_placed dash cookie ?d"
      using wp0 pub v c pm assms(2) Some assigned_ports(1)[OF a]
      by (auto simp: well_placed_def patched_fields request_env_def split: if_splits)
    then show ?thesis
      using listed_disjoint[OF _ l a] assms(2) wp0(2)
      by (intro api_inv_update[OF assms(3) st]) (auto simp: request_env_def)
  qed
qed

lemma status_keeps:
  assumes "updateDeploymentStatus env k decoded s = (r, s')" and "request_env dash cookie env"
    and "api_inv dash cookie (as_disk s)"
  shows "api_inv dash cookie (as_disk s')"
proof (cases r)
  case (Inl e)
  with assms atomic_keeps[OF atomic_status] show ?thesis by blast
next
  case (Inr y)
  with assms(1) obtain st re er d u where g: "JS_Get (ae_get env) k (as_disk s) = Inr d"
    and w: "JS_Update (ae_write env) (d\<lparr>d_Status := st, d_Reason := re, d_Error := er\<rparr>) (as_disk s) = (Inr u, as_disk s')"
    unfolding updateDeploymentStatus_def get_existing_def
    by (auto elim!: bind_Inr dest!: basic_Inr writes_Inr publish_Inr split: option.splits)
  have k: "store_view (as_disk s) k = Some d" by (rule js.get_Inr[OF g])
  let ?d = "d\<lparr>d_Status := st, d_Reason := re, d_Error := er\<rparr>"
  from JS_Update_Inr[OF _ _ w] have "store_inv (as_disk s')"
    "store_view (as_disk s') = (store_view (as_disk s))(k \<mapsto> json_Deployment ?d)"
    using assms(2,3) store_view_key[OF k] by (auto simp: request_env_def api_inv_def)
  from api_inv_same[OF assms(3) this k] show ?thesis by simp
qed

lemma restart_keeps:
  assumes "restartDeployment env k s = (r, s')" and "request_env dash cookie env"
    and "api_inv dash cookie (as_disk s)"
  shows "api_inv dash cookie (as_disk s')"
proof (cases r)
  case (Inl e)
  with assms atomic_keeps[OF atomic_restart] show ?thesis by blast
next
  case (Inr y)
  let ?p = "zero_Deployment\<lparr>d_Status := StatusDeploying\<rparr>"
  from Inr assms(1) obtain d where w: "JS_Patch (ae_write env) k ?p (as_disk s) = (Inr d, as_disk s')"
    unfolding restartDeployment_def get_existing_def
    by (auto elim!: bind_Inr dest!: basic_Inr writes_Inr publish_Inr)
  from JS_Patch_Inr[OF _ _ w] obtain d0 where k: "store_view (as_disk s) k = Some d0" "d = patch_merge d0 ?p"
    and "store_inv (as_disk s')" "store_view (as_disk s') = (store_view (as_disk s))(k \<mapsto> json_Deployment d)"
    using assms(2,3) by (auto simp: request_env_def api_inv_def)
  from api_inv_same[OF assms(3) this(3,4) k(1)] show ?thesis
    by (simp add: k(2) patch_merge_def zero_Deployment_def)
qed

lemma delete_keeps:
  assumes "deleteDeployment env k s = (r, s')" and "request_env dash cookie env"
    and "api_inv dash cookie (as_disk s)"
  shows "api_inv dash cookie (as_disk s')"
proof (cases r)
  case (Inl e)
  with assms atomic_keeps[OF atomic_delete] show ?thesis by blast
next
  case (Inr y)
  with assms(1) have w: "JS_Delete (ae_write env) k (as_disk s) = (Inr (), as_disk s')"
    unfolding deleteDeployment_def by (auto elim!: bind_Inr dest!: basic_Inr writes_Inr)
  from JS_Delete_Inr[OF _ _ w] show ?thesis
    using assms(2,3) by (intro api_inv_delete[OF assms(3)]) (auto simp: request_env_def api_inv_def)
qed

section \<open>Reachable states\<close>

text \<open>The states that requests to the API produce, one after the other, from an empty store, for a
  fixed configuration and with any faults.\<close>

inductive api_reach :: "string \<Rightarrow> string \<Rightarrow> 'f api_state \<Rightarrow> bool" for dash cookie where
  start: "dk_file (as_disk s) = None \<Longrightarrow> api_reach dash cookie s"
| create: "api_reach dash cookie s \<Longrightarrow> request_env dash cookie env \<Longrightarrow>
    (createDeployment env dreq s :: (failure + int \<times> unit deploymentResponse) \<times> 'f api_state) = (r, s') \<Longrightarrow>
    api_reach dash cookie s'"
| update: "api_reach dash cookie s \<Longrightarrow> request_env dash cookie env \<Longrightarrow>
    (updateDeployment env k dreq s :: (failure + int \<times> unit deploymentResponse) \<times> 'f api_state) = (r, s') \<Longrightarrow>
    api_reach dash cookie s'"
| patch: "api_reach dash cookie s \<Longrightarrow> request_env dash cookie env \<Longrightarrow>
    (patchDeployment env k preq s :: (failure + int \<times> unit deploymentResponse) \<times> 'f api_state) = (r, s') \<Longrightarrow>
    api_reach dash cookie s'"
| status: "api_reach dash cookie s \<Longrightarrow> request_env dash cookie env \<Longrightarrow>
    updateDeploymentStatus env k sreq s = (rs, s') \<Longrightarrow> api_reach dash cookie s'"
| restart: "api_reach dash cookie s \<Longrightarrow> request_env dash cookie env \<Longrightarrow>
    restartDeployment env k s = (rs, s') \<Longrightarrow> api_reach dash cookie s'"
| delete: "api_reach dash cookie s \<Longrightarrow> request_env dash cookie env \<Longrightarrow>
    deleteDeployment env k s = (rd, s') \<Longrightarrow> api_reach dash cookie s'"

lemma api_inv_empty: "dk_file dk = None \<Longrightarrow> api_inv dash cookie dk"
  by (simp add: api_inv_def store_inv_def store_view_def readState_def gomap_of_def ports_disjoint_def)

lemma api_reach_keeps: "api_reach dash cookie s \<Longrightarrow> api_inv dash cookie (as_disk s)"
proof (induction rule: api_reach.induct)
  case (create s env dreq r s')
  then show ?case by (rule_tac create_keeps)
next
  case (update s env k dreq r s')
  then show ?case by (rule_tac update_keeps)
next
  case (patch s env k preq r s')
  then show ?case by (rule_tac patch_keeps)
next
  case (status s env k sreq rs s')
  then show ?case by (rule_tac status_keeps)
next
  case (restart s env k rs s')
  then show ?case by (rule_tac restart_keeps)
next
  case (delete s env k rd s')
  then show ?case by (rule_tac delete_keeps)
qed (simp add: api_inv_empty)

section \<open>Files that creating a deployment touches\<close>

definition files_only :: "(string \<Rightarrow> bool) \<Rightarrow> ('f api_state \<Rightarrow> (failure + 'a) \<times> 'f api_state) \<Rightarrow> bool" where
  "files_only P m \<longleftrightarrow> (\<forall>s. only_calls P (as_files s) (as_files (snd (m s))))"

lemma files_only_basic:
  "files_only P (ok x)" "files_only P (fail c e)" "files_only P (require b c e)" "files_only P (from_sum h r)"
  "files_only P (reads h' f)" "files_only P (writes h' g)" "files_only P (publish e')"
  by (auto simp: files_only_def ok_def fail_def require_def from_sum_def reads_def writes_def publish_def split: prod.splits)

lemma files_only_bind:
  assumes "files_only P m" and "\<And>x. files_only P (f x)"
  shows "files_only P (bind m f)"
  unfolding files_only_def
proof
  fix s
  obtain r s1 where 1: "m s = (r, s1)" by (meson surj_pair)
  have m: "only_calls P (as_files s) (as_files s1)" using assms(1) 1 unfolding files_only_def by (metis snd_conv)
  show "only_calls P (as_files s) (as_files (snd (bind m f s)))"
  proof (cases r)
    case (Inl e)
    with 1 m show ?thesis by (simp add: bind_def)
  next
    case (Inr x)
    have "only_calls P (as_files s1) (as_files (snd (f x s1)))" using assms(2) by (simp add: files_only_def)
    with 1 m Inr show ?thesis by (simp add: bind_def only_calls_trans)
  qed
qed

lemma files_only_on_files:
  assumes "\<And>fl. only_calls P fl (snd (g fl))"
  shows "files_only P (on_files g)"
  using assms unfolding files_only_def on_files_def by (auto split: prod.splits) (metis snd_conv)

lemma files_only_case:
  "files_only P a \<Longrightarrow> (\<And>x. files_only P (g x)) \<Longrightarrow> files_only P (case o' of None \<Rightarrow> a | Some x \<Rightarrow> g x)"
  "(\<And>x y. files_only P (h x y)) \<Longrightarrow> files_only P (case p of (x, y) \<Rightarrow> h x y)"
  by (simp_all split: option.splits prod.splits)

lemma only_calls_mono: "only_calls P s s' \<Longrightarrow> (\<And>p. P p \<Longrightarrow> Q p) \<Longrightarrow> only_calls Q s s'"
  unfolding only_calls_def by blast

text \<open>A generated ID is a path element without a colon.\<close>

lemma hex_digit_chars: "0 \<le> d \<Longrightarrow> d < 16 \<Longrightarrow> graphic (hex_digit d) \<and> hex_digit d \<notin> {CHR ''/'', CHR '':'', CHR ''.''}"
proof -
  assume d: "0 \<le> d" "d < 16"
  then have b: "byte (hex_digit d) = (if d < 10 then 48 + d else 87 + d)" by (simp add: hex_digit_def)
  moreover have "byte (CHR ''/'') = 47" "byte (CHR '':'') = 58" "byte (CHR ''.'') = 46" by (simp_all add: byte_def)
  ultimately show ?thesis using d unfolding graphic_def by (auto split: if_splits)
qed

lemma newID_proper:
  assumes "\<forall>b \<in> set raw. 0 \<le> b \<and> b < 256" and "length raw = 16"
  shows "proper_elem (newID raw)" and "CHR '':'' \<notin> set (newID raw)"
proof -
  define b where "b = raw[6 := raw ! 6 mod 16 + 64, 8 := raw ! 8 mod 64 + 128]"
  have b: "\<forall>x \<in> set b. 0 \<le> x \<and> x < 256"
    unfolding b_def using assms(1) by (auto dest!: set_update_subset_insert[THEN subsetD])
  have hex: "c \<in> set (hex bs) \<Longrightarrow> set bs \<subseteq> set b \<Longrightarrow> c \<notin> {CHR ''/'', CHR '':'', CHR ''.''}" for c bs
  proof -
    assume "c \<in> set (hex bs)" and sub: "set bs \<subseteq> set b"
    then obtain x where x: "x \<in> set bs" and c: "c \<in> {hex_digit (x div 16), hex_digit (x mod 16)}"
      unfolding hex_def by auto
    from x sub b have "0 \<le> x" "x < 256" by blast+
    then have "0 \<le> x div 16" "x div 16 < 16" "0 \<le> x mod 16" "x mod 16 < 16" by auto
    from hex_digit_chars[OF this(1,2)] hex_digit_chars[OF this(3,4)] c show ?thesis by (elim insertE emptyE) simp_all
  qed
  have sub: "set (take n b) \<subseteq> set b" "set (take n (drop m b)) \<subseteq> set b" "set (drop m b) \<subseteq> set b" for n m
    by (auto dest: in_set_takeD in_set_dropD)
  have no: "d \<notin> set (newID raw)" if d: "d \<in> {CHR ''/'', CHR '':'', CHR ''.''}" for d
  proof -
    have "d \<notin> set (hex bs)" if "set bs \<subseteq> set b" for bs using hex[OF _ that] d by blast
    from this[OF sub(1)] this[OF sub(2)] this[OF sub(3)] d show ?thesis
      unfolding newID_def Let_def b_def[symmetric] by auto
  qed
  then have *: "CHR ''/'' \<notin> set (newID raw)" "CHR '':'' \<notin> set (newID raw)" "CHR ''.'' \<notin> set (newID raw)" by simp_all
  then show "CHR '':'' \<notin> set (newID raw)" by simp
  have "newID raw \<noteq> ''.''" "newID raw \<noteq> ''..''" using *(3) by auto
  with * newID_not_Nil show "proper_elem (newID raw)" by (simp add: proper_elem_def)
qed

section \<open>Properties\<close>

text \<open>
  C4. What the API keeps true of every deployment. In every state that a sequence of requests
  produces from an empty store, accepted or not and with any input/output faults, a stored
  deployment does not use the dashboard's domain, is public or lies within the cookie domain, shares
  no host port with another deployment, and, when it has a domain, has an upstream in the proxy: its
  proxy port is published on the host port that the poller chooses.
\<close>

theorem api_reach_inv:
  assumes "api_reach dash cookie s" and "store_view (as_disk s) k = Some d"
  shows "\<not> conflictsWithDashboardDomain dash (d_Domain d) \<and>
    (d_Public d \<or> privateDomainAllowed cookie (d_Domain d)) \<and>
    (\<forall>j x. store_view (as_disk s) j = Some x \<longrightarrow> j \<noteq> k \<longrightarrow> host_keys d \<inter> host_keys x = {}) \<and>
    (normalizeDomain (d_Domain d) \<noteq> [] \<longrightarrow>
      (\<exists>q. binding q \<in> set (slice (d_Ports d)) \<and> ContainerPort q = d_ProxyPort d \<and> Protocol q = ''tcp'' \<and>
        upstreamFromPorts (slice (d_Ports d)) (d_ProxyPort d) = ''localhost:'' @ Itoa (HostPort q)))"
proof -
  note inv = api_reach_keeps[OF assms(1)]
  with assms(2) have wp: "well_placed dash cookie d" by (auto simp: api_inv_def)
  from inv assms(2) have "\<forall>j x. store_view (as_disk s) j = Some x \<longrightarrow> j \<noteq> k \<longrightarrow> host_keys d \<inter> host_keys x = {}"
    unfolding api_inv_def ports_disjoint_def by metis
  moreover have "\<exists>q. binding q \<in> set (slice (d_Ports d)) \<and> ContainerPort q = d_ProxyPort d \<and> Protocol q = ''tcp'' \<and>
        upstreamFromPorts (slice (d_Ports d)) (d_ProxyPort d) = ''localhost:'' @ Itoa (HostPort q)"
    if "normalizeDomain (d_Domain d) \<noteq> []"
    using wp bound_proxy_port_upstream[OF _ _ _ that] unfolding well_placed_def by metis
  ultimately show ?thesis using wp unfolding well_placed_def by blast
qed

text \<open>
  C27. A request that is answered with an error leaves the store's file and the event bus as they
  were, for each of the six handlers that change deployments.
\<close>

theorem failed_requests_change_nothing:
  "(createDeployment env dreq s = (Inl e, s') \<longrightarrow> quiet s s') \<and>
   (updateDeployment env k dreq s = (Inl e, s') \<longrightarrow> quiet s s') \<and>
   (patchDeployment env k preq s = (Inl e, s') \<longrightarrow> quiet s s') \<and>
   (updateDeploymentStatus env k sreq s = (Inl e, s') \<longrightarrow> quiet s s') \<and>
   (restartDeployment env k s = (Inl e, s') \<longrightarrow> quiet s s') \<and>
   (deleteDeployment env k s = (Inl e, s') \<longrightarrow> quiet s s')"
  by (intro conjI impI)
    (erule atomicD[OF atomic_create] atomicD[OF atomic_update] atomicD[OF atomic_patch] atomicD[OF atomic_status]
      atomicD[OF atomic_restart] atomicD[OF atomic_delete])+

text \<open>
  Creating a deployment announces and stores it. When the handler succeeds it answers 201,
  publishes one event that the deployment with the new ID is deploying, and the store holds that
  deployment, with status deploying and every other deployment unchanged.
\<close>

theorem create_stores_and_announces:
  assumes "createDeployment env decoded s = (Inr (code, resp), s')" and "request_env dash cookie env"
    and "store_inv (as_disk s)"
  shows "\<exists>d. store_view (as_disk s') = (store_view (as_disk s))(d_ID d \<mapsto> json_Deployment d) \<and>
    d_Status d = StatusDeploying \<and> well_placed dash cookie d \<and> d_Name d \<notin> d_Name ` ran (store_view (as_disk s)) \<and>
    as_events s' = as_events s @ [status_event (d_ID d) StatusDeploying] \<and>
    code = 201 \<and> dr_Deployment resp = normalizeDeploymentSecurity d"
proof -
  from assms(1) obtain d s1 where 1: "create_prepare env decoded s = (Inr d, s1)"
    and 2: "create_commit env d s1 = (Inr (code, resp), s')"
    by (auto simp: createDeployment_def elim: bind_Inr)
  note p = create_prepare_Inr[OF 1 assms(2)] and c = create_commit_Inr[OF 2]
  have ev: "as_events s1 = as_events s" using silentD[OF silent_prepare 1] by simp
  from p c have "JS_Create (ae_write env) d (as_disk s) = (Inr d, as_disk s')" by simp
  from JS_Create_Inr[OF _ assms(3) this] assms(2) have
    "store_view (as_disk s') = (store_view (as_disk s))(d_ID d \<mapsto> json_Deployment d)"
    "d_Name d \<notin> d_Name ` ran (store_view (as_disk s))" by (auto simp: request_env_def)
  moreover have "code = 201 \<and> dr_Deployment resp = normalizeDeploymentSecurity d"
    using 2 c unfolding create_commit_def
    by (auto simp: deploymentResponseFromStore_def elim!: bind_Inr dest!: basic_Inr writes_Inr)
  ultimately show ?thesis using p c ev by auto
qed

text \<open>
  Creating a deployment touches only its own directories: for 16 random bytes, every directory
  created and file written for a new deployment lies in the directory of its ID below the base for
  volumes or below the base for files.
\<close>

theorem create_files_confined:
  assumes "ae_random env = Some raw" and "length raw = 16" and "\<forall>b \<in> set raw. 0 \<le> b \<and> b < 256"
    and "createDeployment env decoded s = (r, s')"
  shows "only_calls (\<lambda>p. below (managedVolumesBaseDirFromEnv (ae_os env)) (newID raw) p \<or>
    below (managedFilesBaseDirFromEnv (ae_os env)) (newID raw) p) (as_files s) (as_files s')"
proof -
  let ?P = "\<lambda>p. below (managedVolumesBaseDirFromEnv (ae_os env)) (newID raw) p \<or>
    below (managedFilesBaseDirFromEnv (ae_os env)) (newID raw) p"
  note id = newID_proper(1)[OF assms(3,2)]
  have v: "only_calls ?P fl (snd (resolveVolumeBindings (ae_os env) (newID raw) vs ms fl))" for vs ms fl
    by (cases ms) (auto simp: resolveVolumeBindings_def intro: only_calls_mono[OF volume_loop_calls[OF id]])
  have f: "only_calls ?P fl (snd (resolveFileMounts (ae_os env) (newID raw) ms fl))" for ms fl
    by (cases ms) (auto simp: resolveFileMounts_def intro: only_calls_mono[OF file_loop_calls[OF id]])
  have "files_only ?P (createDeployment env decoded)"
    unfolding createDeployment_def create_prepare_def create_commit_def request_checks_def resolve_mounts_def
      list_all_deployments_def check_proxy_port_def assms(1) option.case
    by (intro files_only_bind files_only_case files_only_basic files_only_on_files v f)
  with assms(4) show ?thesis unfolding files_only_def by (metis snd_conv)
qed

text \<open>
  An update that keeps the status drops the reason for it. When a \<open>PUT\<close> is accepted, changes the
  store and leaves the deployment failed, the stored error text is empty; the reconciler then takes
  the failure as permanent and does nothing for the deployment any more, whatever it was before.
\<close>

theorem update_stops_retries:
  assumes "updateDeployment env k decoded s = (Inr y, s')" and "request_env dash cookie env"
    and "store_inv (as_disk s)" and "as_disk s' \<noteq> as_disk s"
    and "store_view (as_disk s') k = Some d" and "d_Status d = StatusFailed"
  shows "d_Error d = [] \<and> d_Reason d = [] \<and> reconcile_failed dp now reconnected d c w = w"
proof -
  from assms(1,2) obtain s1 existing all req body mounts ba where s1: "as_disk s1 = as_disk s"
    and u: "update_write env k existing body mounts ba s1 = (Inr y, s')"
    by (rule updateDeployment_Inr) blast
  from update_write_Inr[OF u] assms(4) s1 obtain st where
    "JS_Update (ae_write env) (deployment_of k body mounts ba st) (as_disk s) =
      (Inr (deployment_of k body mounts ba st), as_disk s')" by auto
  from JS_Update_Inr[OF _ assms(3) this] assms(2,5) have "d = json_Deployment (deployment_of k body mounts ba st)"
    by (auto simp: request_env_def deployment_of_def)
  then have "d_Error d = [] \<and> d_Reason d = []" by (simp add: deployment_of_def zero_Deployment_def)
  moreover have "\<not> isTransientFailure []" by code_simp
  ultimately show ?thesis by (simp add: reconcile_failed_def)
qed

text \<open>Requests and a configuration, for the witnesses and the concrete runs.\<close>

definition api_env0 :: "int \<Rightarrow> unit api_env" where
  "api_env0 n = \<lparr>ae_os = os0, ae_get = env0, ae_list = env0, ae_write = env0, ae_dashboardDomain = ''dash.example.com'',
     ae_authCookieDomain = ''example.com'', ae_random = Some (replicate 16 n), ae_bcryptCost = (\<lambda>_. False),
     ae_bcryptHash = (\<lambda>p. Inr (''hashed:'' @ p))\<rparr>"

definition api_state0 :: "unit api_state" where
  "api_state0 = \<lparr>as_disk = \<lparr>dk_file = None, dk_tmp = None\<rparr>, as_files = files0, as_events = []\<rparr>"

definition api_request :: "string \<Rightarrow> deploymentRequest" where
  "api_request name = \<lparr>dq_Name = name, dq_Image = ''nginx:1'', dq_Envs = None, dq_Ports = Some [''80''], dq_ProxyPort = 80,
     dq_Volumes = None, dq_VolumeMounts = None, dq_FileMounts = Some file_mounts0, dq_Domain = ''app.example.com'',
     dq_Public = False, dq_BasicAuth = None, dq_Security = None\<rparr>"

definition id0 :: string where "id0 = ''00000000-0000-4000-8000-000000000000''"
definition id1 :: string where "id1 = ''01010101-0101-4101-8101-010101010101''"

definition created0 :: "string \<Rightarrow> string \<Rightarrow> Deployment" where
  "created0 k name = zero_Deployment\<lparr>d_ID := k, d_Name := name, d_Image := ''nginx:1'', d_Envs := Some [],
     d_Ports := Some [''32768:80''], d_ProxyPort := 80, d_Volumes := Some [],
     d_FileMounts := Some [\<lparr>fm_Source = ''app.conf'', fm_Target = ''/etc/app.conf'', fm_Content = ''x=1'', fm_UID = None,
            fm_GID = None, fm_FileMode = ''600'', fm_ReadOnly = True\<rparr>],
     d_Domain := ''app.example.com'', d_Status := ''deploying''\<rparr>"

definition created_disk :: "(string \<times> string) list \<Rightarrow> disk" where
  "created_disk ks = \<lparr>dk_file = Some (ObjectDoc (Some (map (\<lambda>(k, n). created0 k n) ks)) None), dk_tmp = None\<rparr>"

lemma request_env0: "request_env ''dash.example.com'' ''example.com'' (api_env0 n)"
  by (simp add: request_env_def api_env0_def)

lemma prepare_sample:
  "fst (create_prepare (api_env0 0) (Some (api_request ''web'')) api_state0) = Inr (created0 id0 ''web'')"
  "fst (create_prepare (api_env0 1) (Some (api_request ''api'')) api_state0) = Inr (created0 id1 ''api'')"
  by code_simp+

definition created_files :: "unit files" where
  "created_files = snd (resolveFileMounts os0 id0 (Some file_mounts0) files0)"

definition created_state :: "unit api_state" where
  "created_state = \<lparr>as_disk = created_disk [(id0, ''web'')], as_files = created_files,
     as_events = [status_event id0 ''deploying'']\<rparr>"

definition created_response :: "unit deploymentResponse" where
  "created_response = \<lparr>dr_Deployment = created0 id0 ''web'', dr_VolumeMounts = [], dr_Stats = None\<rparr>"

lemma create_sample:
  "createDeployment (api_env0 0) (Some (api_request ''web'')) api_state0 = (Inr (201, created_response), created_state)"
  by code_simp

lemma created_view: "store_view (as_disk created_state) id0 = Some (created0 id0 ''web'')"
  by code_simp

lemma created_reach: "api_reach ''dash.example.com'' ''example.com'' created_state"
proof (rule api_reach.create[OF _ request_env0 create_sample])
  show "api_reach ''dash.example.com'' ''example.com'' api_state0"
    by (rule api_reach.start) (simp add: api_state0_def)
qed

lemma created_host_port: "(32768, ''tcp'') \<in> host_keys (created0 k n)"
proof -
  have "parsePortSpec ''32768:80'' = Inr \<lparr>HostPort = 32768, ContainerPort = 80, Protocol = ''tcp''\<rparr>" by code_simp
  then show ?thesis unfolding host_keys_mem created0_def by simp
qed

theorem api_reach_inv_witness:
  "\<not> conflictsWithDashboardDomain ''dash.example.com'' ''app.example.com'' \<and>
   (\<exists>q. binding q \<in> {''32768:80''} \<and> ContainerPort q = 80 \<and>
     upstreamFromPorts [''32768:80''] 80 = ''localhost:'' @ Itoa (HostPort q))"
proof -
  have "normalizeDomain ''app.example.com'' = ''app.example.com''" by code_simp
  with api_reach_inv[OF created_reach created_view] show ?thesis by (auto simp: created0_def)
qed

theorem create_stores_and_announces_witness:
  "\<exists>d. as_events created_state = [status_event (d_ID d) StatusDeploying] \<and> d_Status d = StatusDeploying \<and>
    dr_Deployment created_response = normalizeDeploymentSecurity d"
proof -
  have "store_inv (as_disk api_state0)" "as_events api_state0 = []"
    by (simp_all add: api_state0_def store_inv_def store_view_def readState_def gomap_of_def)
  with create_stores_and_announces[OF create_sample request_env0] show ?thesis by (metis append_Nil)
qed

theorem create_files_confined_witness:
  "only_calls (\<lambda>p. below ''/srv/volumes'' id0 p \<or> below ''/var/lib/lotsen/files'' id0 p) files0 created_files \<and>
   fl_log created_files \<noteq> []"
proof -
  have "managedVolumesBaseDirFromEnv os0 = ''/srv/volumes''" "managedFilesBaseDirFromEnv os0 = ''/var/lib/lotsen/files''"
    "newID (replicate 16 0) = id0" "fl_log created_files \<noteq> []"
    by code_simp+
  with create_files_confined[OF _ _ _ create_sample, of "replicate 16 0"] show ?thesis
    by (simp add: api_env0_def api_state0_def created_state_def)
qed

theorem failed_requests_change_nothing_witness:
  "quiet api_state0 (snd (deleteDeployment (api_env0 0) id0 api_state0))"
proof -
  have "fst (deleteDeployment (api_env0 0) id0 api_state0) = Inl (404, Msg ''deployment not found'')" by code_simp
  then have "deleteDeployment (api_env0 0) id0 api_state0 =
      (Inl (404, Msg ''deployment not found''), snd (deleteDeployment (api_env0 0) id0 api_state0))"
    by (metis prod.collapse)
  with failed_requests_change_nothing show ?thesis by blast
qed

text \<open>The store after the created deployment has failed, and the request that renames it.\<close>

definition failed_state :: "unit api_state" where
  "failed_state = \<lparr>as_disk = \<lparr>dk_file = Some (ObjectDoc (Some [(created0 id0 ''web'')\<lparr>d_Status := ''failed'',
     d_Reason := ''docker_unavailable'', d_Error := ''docker daemon unreachable''\<rparr>]) None), dk_tmp = None\<rparr>,
     as_files = files0, as_events = []\<rparr>"

definition renamed :: Deployment where
  "renamed = (created0 id0 ''site'')\<lparr>d_Status := ''failed''\<rparr>"

lemma rename_sample:
  "updateDeployment (api_env0 0) id0 (Some (api_request ''site'')) failed_state =
     (Inr (200, \<lparr>dr_Deployment = renamed, dr_VolumeMounts = [], dr_Stats = None :: unit option\<rparr>),
      \<lparr>as_disk = \<lparr>dk_file = Some (ObjectDoc (Some [renamed]) None), dk_tmp = None\<rparr>, as_files = created_files, as_events = []\<rparr>)"
  by code_simp

theorem update_stops_retries_witness:
  "isTransientFailure ''docker daemon unreachable'' \<and> d_Error renamed = [] \<and>
   (\<forall>(dp :: ('s, 'w) deps) now reconnected c w. reconcile_failed dp now reconnected renamed c w = w)"
proof -
  let ?dk = "\<lparr>dk_file = Some (ObjectDoc (Some [renamed]) None), dk_tmp = None\<rparr>"
  have "store_view ?dk id0 = Some renamed" "d_Status renamed = StatusFailed" by code_simp+
  moreover have "store_inv (as_disk failed_state)"
  proof -
    have "ran (store_view (as_disk failed_state)) \<subseteq> set (ps_Deployments (projr (readState False False (as_disk failed_state))))"
      by (auto simp: store_view_def failed_state_def readState_def ran_def dest!: map_of_SomeD gomap_of_key)
    moreover have "list_all (\<lambda>d. json_Deployment d = d) (ps_Deployments (projr (readState False False (as_disk failed_state))))"
      by code_simp
    ultimately show ?thesis by (auto simp: store_inv_def failed_state_def list_all_iff)
  qed
  moreover have "?dk \<noteq> as_disk failed_state" by code_simp
  ultimately have *: "d_Error renamed = [] \<and> d_Reason renamed = [] \<and> reconcile_failed dp now reconnected renamed c w = w"
    for dp :: "('s, 'w) deps" and now reconnected c w
    using update_stops_retries[OF rename_sample request_env0, of renamed dp now reconnected c w] by simp
  have "isTransientFailure ''docker daemon unreachable''" by code_simp
  with * show ?thesis by blast
qed

lemma commit_faultless:
  assumes "faultless (ae_write env)" and "env_ok (ae_write env)" and "store_inv (as_disk s)"
    and "d_Name d \<notin> d_Name ` ran (store_view (as_disk s))"
  shows "\<exists>y s'. create_commit env d s = (Inr y, s') \<and> store_inv (as_disk s') \<and>
    store_view (as_disk s') = (store_view (as_disk s))(d_ID d \<mapsto> json_Deployment d)"
proof -
  from JS_Create_faultless[OF assms(1,3,4)] obtain dk' where w: "JS_Create (ae_write env) d (as_disk s) = (Inr d, dk')" by blast
  then have "\<exists>y. create_commit env d s =
      (Inr y, s\<lparr>as_disk := dk', as_events := as_events s @ [status_event (d_ID d) StatusDeploying]\<rparr>)"
    by (simp add: create_commit_def bind_def writes_def publish_def ok_def)
  with JS_Create_Inr[OF assms(2,3) w] show ?thesis by fastforce
qed

definition race1 :: "unit api_state" where
  "race1 = snd (create_prepare (api_env0 0) (Some (api_request ''web'')) api_state0)"

lemma race_prepared:
  "fst (create_prepare (api_env0 1) (Some (api_request ''api'')) race1) = Inr (created0 id1 ''api'')"
  by code_simp

text \<open>
  Two requests that are handled at the same time can get the same host port. The store is read
  by both before either has written, both are assigned the first free port and both are stored: the
  check for conflicts and the write are not one step.
\<close>

theorem concurrent_creates_share_port:
  "\<exists>s1 s2 s3 s4 (y1 :: int \<times> unit deploymentResponse) (y2 :: int \<times> unit deploymentResponse) d1 d2.
     create_prepare (api_env0 0) (Some (api_request ''web'')) api_state0 = (Inr d1, s1) \<and>
     create_prepare (api_env0 1) (Some (api_request ''api'')) s1 = (Inr d2, s2) \<and>
     create_commit (api_env0 0) d1 s2 = (Inr y1, s3) \<and> create_commit (api_env0 1) d2 s3 = (Inr y2, s4) \<and>
     store_view (as_disk s4) (d_ID d1) = Some d1 \<and> store_view (as_disk s4) (d_ID d2) = Some d2 \<and> d_ID d1 \<noteq> d_ID d2 \<and>
     (32768, ''tcp'') \<in> host_keys d1 \<inter> host_keys d2"
proof -
  let ?d1 = "created0 id0 ''web''" and ?d2 = "created0 id1 ''api''"
  have f: "json_Deployment (created0 k n) = created0 k n" "d_ID (created0 k n) = k" "d_Name (created0 k n) = n" for k n
    by (simp_all add: created0_def json_Deployment_def zero_Deployment_def)
  have e: "faultless (ae_write (api_env0 n))" "env_ok (ae_write (api_env0 n))" for n by (simp_all add: api_env0_def)
  have ids: "id0 \<noteq> id1" by code_simp
  have p1: "create_prepare (api_env0 0) (Some (api_request ''web'')) api_state0 = (Inr ?d1, race1)"
    using prepare_sample(1) by (simp add: prod_eq_iff race1_def)
  obtain s2 where p2: "create_prepare (api_env0 1) (Some (api_request ''api'')) race1 = (Inr ?d2, s2)"
    using race_prepared by (metis prod.collapse)
  have "as_disk s2 = as_disk api_state0"
    using silentD[OF silent_prepare p1] silentD[OF silent_prepare p2] by simp
  then have s2: "store_inv (as_disk s2)" "store_view (as_disk s2) = Map.empty"
    by (simp_all add: api_state0_def store_inv_def store_view_def readState_def gomap_of_def)
  with commit_faultless[OF e(1)[of 0] e(2) s2(1), of ?d1] obtain y1 s3 where
    c1: "create_commit (api_env0 0) ?d1 s2 = (Inr (y1 :: int \<times> unit deploymentResponse), s3)"
    and s3: "store_inv (as_disk s3)" "store_view (as_disk s3) = [id0 \<mapsto> ?d1]"
    by (auto simp: f)
  with commit_faultless[OF e(1)[of 1] e(2) s3(1), of ?d2] obtain y2 s4 where
    c2: "create_commit (api_env0 1) ?d2 s3 = (Inr (y2 :: int \<times> unit deploymentResponse), s4)"
    and s4: "store_view (as_disk s4) = [id0 \<mapsto> ?d1, id1 \<mapsto> ?d2]"
    by (auto simp: f)
  show ?thesis
    by (intro exI conjI, rule p1, rule p2, rule c1, rule c2)
      (use s4 ids created_host_port in \<open>simp_all add: f\<close>)
qed

text \<open>
  Managed files are written before the request is accepted. An update for an ID that no
  deployment has is answered with 404, but the file of its mount was written by then; the same
  happens to the files of an existing deployment when the update is rejected later.
\<close>

theorem rejected_update_writes_files:
  "fst (updateDeployment (api_env0 0) ''gone'' (Some (api_request ''web'')) api_state0 ::
      (failure + int \<times> unit deploymentResponse) \<times> unit api_state) = Inl (404, Msg ''deployment not found'') \<and>
   CallWriteString ''/var/lib/lotsen/files/gone/app.conf'' ''x=1'' \<in>
     set (fl_log (as_files (snd (updateDeployment (api_env0 0) ''gone'' (Some (api_request ''web'')) api_state0 ::
      (failure + int \<times> unit deploymentResponse) \<times> unit api_state))))"
  by code_simp

end
