(* ===== verification/Host.thy ===== *)
theory Host
  imports Api Net
begin

text \<open>
  The profile of the host: the file in which the API keeps it
  (\<open>api/internal/api/host_profile_store.go\<close>) and the handlers that show and change it
  (\<open>api/internal/api/handler_host.go\<close>).

  The file holds a profile, or bytes that do not decode. As in theory \<open>Store\<close>, the steps that can
  fail for reasons outside the program are fields of an environment. A decoded request body is an
  argument; the metadata in a response, which comes from the system status, is left out.
\<close>

section \<open>The file\<close>

record HostWAFConfig =
  hw_Mode :: string
  hw_IPAllowlist :: "string list"
  hw_CustomRules :: "string list"

record HostProfile =
  hp_DisplayName :: string
  hp_DashboardAccessMode :: string
  hp_DashboardWAF :: HostWAFConfig

definition zero_HostProfile :: HostProfile where
  "zero_HostProfile = \<lparr>hp_DisplayName = [], hp_DashboardAccessMode = [],
     hp_DashboardWAF = \<lparr>hw_Mode = [], hw_IPAllowlist = [], hw_CustomRules = []\<rparr>\<rparr>"

datatype host_doc = ProfileDoc HostProfile | BadProfile

record host_disk =
  hd_file :: "host_doc option"
  hd_tmp :: "host_doc option"

record host_env =
  he_lock_open :: bool
  he_flock :: bool
  he_open :: bool
  he_persist :: "persist_step option"

datatype host_error = HostPathEmpty | HostPathNotAbsolute | HostMkdir | HostLockOpen | HostLock | HostOpen | HostDecode | HostWrite persist_step

definition NewFileHostProfileStore :: "bool \<Rightarrow> string \<Rightarrow> host_error + string" where
  "NewFileHostProfileStore mkdir_fails path =
     (if path = [] then Inl HostPathEmpty
      else if \<not> HasPrefix path ''/'' then Inl HostPathNotAbsolute
      else if mkdir_fails then Inl HostMkdir
      else Inr path)"

definition host_locked :: "host_env \<Rightarrow> (host_disk \<Rightarrow> (host_error + 'a) \<times> host_disk) \<Rightarrow> host_disk \<Rightarrow> (host_error + 'a) \<times> host_disk" where
  "host_locked e fn dk =
     (if he_lock_open e then (Inl HostLockOpen, dk) else if he_flock e then (Inl HostLock, dk) else fn dk)"

definition host_read :: "host_env \<Rightarrow> host_disk \<Rightarrow> host_error + HostProfile" where
  "host_read e dk =
     (case hd_file dk of
        None \<Rightarrow> Inr zero_HostProfile
      | Some doc \<Rightarrow>
          if he_open e then Inl HostOpen
          else case doc of ProfileDoc p \<Rightarrow> Inr p | BadProfile \<Rightarrow> Inl HostDecode)"

text \<open>Writing goes through a temporary file, which is removed when a later step fails.\<close>

definition host_persist :: "host_env \<Rightarrow> HostProfile \<Rightarrow> host_disk \<Rightarrow> (host_error + unit) \<times> host_disk" where
  "host_persist e p dk =
     (case he_persist e of
        None \<Rightarrow> (Inr (), \<lparr>hd_file = Some (ProfileDoc p), hd_tmp = None\<rparr>)
      | Some CreateTmp \<Rightarrow> (Inl (HostWrite CreateTmp), dk)
      | Some step \<Rightarrow> (Inl (HostWrite step), dk\<lparr>hd_tmp := None\<rparr>))"

definition HP_Get :: "host_env \<Rightarrow> host_disk \<Rightarrow> host_error + HostProfile" where
  "HP_Get e dk = fst (host_locked e (\<lambda>dk. (host_read e dk, dk)) dk)"

definition HP_Update :: "host_env \<Rightarrow> HostProfile \<Rightarrow> host_disk \<Rightarrow> (host_error + HostProfile) \<times> host_disk" where
  "HP_Update e p = host_locked e (\<lambda>dk.
     case host_persist e p dk of (Inl err, dk') \<Rightarrow> (Inl err, dk') | (Inr _, dk') \<Rightarrow> (Inr p, dk'))"

section \<open>The handlers\<close>

definition normalizeCustomRules :: "string list \<Rightarrow> string list" where
  "normalizeCustomRules raw = filter (\<lambda>r. r \<noteq> []) (map TrimSpace raw)"

definition validateCIDRorIPList :: "string list \<Rightarrow> bool" where
  "validateCIDRorIPList entries \<longleftrightarrow> list_all (\<lambda>a. ParseCIDR a \<noteq> None \<or> ParseIP a \<noteq> None) entries"

definition normalizeHostWAFConfig :: "HostWAFConfig \<Rightarrow> HostWAFConfig" where
  "normalizeHostWAFConfig cfg =
     \<lparr>hw_Mode = (if ToLower (TrimSpace (hw_Mode cfg)) = ''enforcement'' then ''enforcement'' else ''detection''),
      hw_IPAllowlist = normalizeCustomRules (hw_IPAllowlist cfg), hw_CustomRules = normalizeCustomRules (hw_CustomRules cfg)\<rparr>"

definition normalizeAccessMode :: "string \<Rightarrow> string" where
  "normalizeAccessMode raw =
     (let mode = ToLower (TrimSpace raw) in if mode = ''waf_only'' \<or> mode = ''waf_and_login'' then mode else ''login_only'')"

text \<open>The access mode in effect, which the proxy and the login of the dashboard use.\<close>

definition host_dashboardAccessMode :: "string \<Rightarrow> (host_env \<times> host_disk) option \<Rightarrow> string" where
  "host_dashboardAccessMode configured hostProfiles =
     (case hostProfiles of
        None \<Rightarrow> configured
      | Some (e, dk) \<Rightarrow>
          (case HP_Get e dk of
             Inl _ \<Rightarrow> configured
           | Inr profile \<Rightarrow>
               if hp_DashboardAccessMode profile = [] then configured
               else normalizeAccessMode (hp_DashboardAccessMode profile)))"

record wafRequest =
  wq_Mode :: "string option"
  wq_IPAllowlist :: "string list option"
  wq_CustomRules :: "string list option"

record hostRequest =
  hq_DisplayName :: "string option"
  hq_DashboardAccessMode :: "string option"
  hq_DashboardWAF :: "wafRequest option"

definition getHost :: "string \<Rightarrow> (host_env \<times> host_disk) option \<Rightarrow> failure + HostProfile" where
  "getHost configured hostProfiles =
     (case (case hostProfiles of None \<Rightarrow> Inr zero_HostProfile | Some (e, dk) \<Rightarrow> HP_Get e dk) of
        Inl _ \<Rightarrow> Inl (500, Msg ''failed to load host profile'')
      | Inr profile \<Rightarrow>
          Inr \<lparr>hp_DisplayName = hp_DisplayName profile,
               hp_DashboardAccessMode =
                 (if hp_DashboardAccessMode profile = [] then host_dashboardAccessMode configured hostProfiles
                  else normalizeAccessMode (hp_DashboardAccessMode profile)),
               hp_DashboardWAF = normalizeHostWAFConfig (hp_DashboardWAF profile)\<rparr>)"

definition maxHostDisplayNameLength :: nat where "maxHostDisplayNameLength = 64"

definition set_display_name :: "string option \<Rightarrow> HostProfile \<Rightarrow> failure + HostProfile" where
  "set_display_name field profile =
     (case field of
        None \<Rightarrow> Inr profile
      | Some raw \<Rightarrow>
          (let displayName = TrimSpace raw in
           if length displayName > maxHostDisplayNameLength then Inl (400, Msg ''displayName too long'')
           else Inr (profile\<lparr>hp_DisplayName := displayName\<rparr>)))"

definition set_access_mode :: "string option \<Rightarrow> HostProfile \<Rightarrow> failure + HostProfile" where
  "set_access_mode field profile =
     (case field of
        None \<Rightarrow> Inr profile
      | Some raw \<Rightarrow>
          (let mode = ToLower (TrimSpace raw) in
           if mode \<in> set [''waf_only'', ''login_only'', ''waf_and_login'']
           then Inr (profile\<lparr>hp_DashboardAccessMode := mode\<rparr>) else Inl (400, Msg ''invalid dashboardAccessMode'')))"

definition set_waf_mode :: "string option \<Rightarrow> HostWAFConfig \<Rightarrow> failure + HostWAFConfig" where
  "set_waf_mode field next =
     (case field of
        None \<Rightarrow> Inr next
      | Some raw \<Rightarrow>
          (let mode = ToLower (TrimSpace raw) in
           if mode = ''detection'' \<or> mode = ''enforcement'' then Inr (next\<lparr>hw_Mode := mode\<rparr>)
           else Inl (400, Msg ''invalid dashboardWaf.mode'')))"

definition set_waf_allowlist :: "string list option \<Rightarrow> HostWAFConfig \<Rightarrow> failure + HostWAFConfig" where
  "set_waf_allowlist field next =
     (case field of
        None \<Rightarrow> Inr next
      | Some raw \<Rightarrow>
          (let entries = normalizeCustomRules raw in
           if validateCIDRorIPList entries then Inr (next\<lparr>hw_IPAllowlist := entries\<rparr>)
           else Inl (400, Msg ''invalid dashboardWaf.ipAllowlist'')))"

definition set_waf :: "wafRequest option \<Rightarrow> HostProfile \<Rightarrow> failure + HostProfile" where
  "set_waf field profile =
     (case field of
        None \<Rightarrow> Inr profile
      | Some w \<Rightarrow>
          (case set_waf_mode (wq_Mode w) (hp_DashboardWAF profile) of
             Inl err \<Rightarrow> Inl err
           | Inr next1 \<Rightarrow>
               (case set_waf_allowlist (wq_IPAllowlist w) next1 of
                  Inl err \<Rightarrow> Inl err
                | Inr next2 \<Rightarrow>
                    (let next3 = (case wq_CustomRules w of
                           None \<Rightarrow> next2 | Some raw \<Rightarrow> next2\<lparr>hw_CustomRules := normalizeCustomRules raw\<rparr>) in
                     Inr (profile\<lparr>hp_DashboardWAF := normalizeHostWAFConfig next3\<rparr>)))))"

definition edit_profile :: "hostRequest \<Rightarrow> HostProfile \<Rightarrow> failure + HostProfile" where
  "edit_profile body profile =
     (case set_display_name (hq_DisplayName body) profile of
        Inl err \<Rightarrow> Inl err
      | Inr p1 \<Rightarrow>
          (case set_access_mode (hq_DashboardAccessMode body) p1 of
             Inl err \<Rightarrow> Inl err
           | Inr p2 \<Rightarrow> set_waf (hq_DashboardWAF body) p2))"

text \<open>\<open>None\<close> for a body that does not decode; an empty body decodes to one without fields. The store
  is absent when the API runs without one. The two calls of the store have their own faults.\<close>

definition updateHost :: "(host_env \<times> host_env) option \<Rightarrow> hostRequest option \<Rightarrow> host_disk \<Rightarrow> (failure + HostProfile) \<times> host_disk" where
  "updateHost hostProfiles decoded dk =
     (case hostProfiles of
        None \<Rightarrow> (Inl (503, Msg ''host profile unavailable''), dk)
      | Some (e1, e2) \<Rightarrow>
          (case decoded of
             None \<Rightarrow> (Inl (400, Msg ''invalid request body''), dk)
           | Some body \<Rightarrow>
               if hq_DisplayName body = None \<and> hq_DashboardAccessMode body = None \<and> hq_DashboardWAF body = None
               then (Inl (400, Msg ''at least one field is required''), dk)
               else case HP_Get e1 dk of
                 Inl _ \<Rightarrow> (Inl (500, Msg ''failed to load host profile''), dk)
               | Inr profile \<Rightarrow>
                   (case edit_profile body profile of
                      Inl err \<Rightarrow> (Inl err, dk)
                    | Inr profile' \<Rightarrow>
                        (case HP_Update e2 profile' dk of
                           (Inl _, dk') \<Rightarrow> (Inl (500, Msg ''failed to update host profile''), dk')
                         | (Inr updated, dk') \<Rightarrow>
                             (Inr \<lparr>hp_DisplayName = hp_DisplayName updated,
                                   hp_DashboardAccessMode = normalizeAccessMode (hp_DashboardAccessMode updated),
                                   hp_DashboardWAF = normalizeHostWAFConfig (hp_DashboardWAF updated)\<rparr>, dk')))))"

section \<open>The contract of the profile store\<close>

locale host_profile_store =
  fixes profile :: "'s \<Rightarrow> HostProfile option"
    and get :: "'e \<Rightarrow> 's \<Rightarrow> host_error + HostProfile"
    and update :: "'e \<Rightarrow> HostProfile \<Rightarrow> 's \<Rightarrow> (host_error + HostProfile) \<times> 's"
  assumes get_Inr: "get e s = Inr p \<Longrightarrow> profile s = Some p"
    and update_Inr: "update e p s = (Inr p', s') \<Longrightarrow> p' = p \<and> profile s' = Some p"
    and update_Inl: "update e p s = (Inl err, s') \<Longrightarrow> profile s' = profile s"
begin

lemma update_then_get:
  assumes "update e p s = (Inr p', s')" and "get e' s' = Inr q"
  shows "q = p"
  using update_Inr[OF assms(1)] get_Inr[OF assms(2)] by simp

end

definition host_view :: "host_disk \<Rightarrow> HostProfile option" where
  "host_view dk = (case hd_file dk of None \<Rightarrow> Some zero_HostProfile | Some (ProfileDoc p) \<Rightarrow> Some p | Some BadProfile \<Rightarrow> None)"

interpretation hps: host_profile_store host_view HP_Get HP_Update
proof (unfold_locales, goal_cases)
  case (1 e s p)
  then show ?case
    by (auto simp: HP_Get_def host_locked_def host_read_def host_view_def split: if_splits option.splits host_doc.splits)
next
  case (2 e p s p' s')
  then show ?case
    by (auto simp: HP_Update_def host_locked_def host_persist_def host_view_def
        split: if_splits option.splits prod.splits sum.splits persist_step.splits)
next
  case (3 e p s err s')
  then have "hd_file s' = hd_file s"
    by (auto simp: HP_Update_def host_locked_def host_persist_def
        split: if_splits option.splits prod.splits sum.splits persist_step.splits)
  then show ?case by (simp add: host_view_def)
qed

section \<open>What a stored profile satisfies\<close>

definition addresses_ok :: "string list \<Rightarrow> bool" where
  "addresses_ok as \<longleftrightarrow> (\<forall>a \<in> set as. TrimSpace a = a \<and> a \<noteq> [] \<and> (ParseCIDR a \<noteq> None \<or> ParseIP a \<noteq> None))"

definition profile_ok :: "HostProfile \<Rightarrow> bool" where
  "profile_ok p \<longleftrightarrow> length (hp_DisplayName p) \<le> 64 \<and> TrimSpace (hp_DisplayName p) = hp_DisplayName p \<and>
     hp_DashboardAccessMode p \<in> set ['''', ''login_only'', ''waf_only'', ''waf_and_login''] \<and>
     hw_Mode (hp_DashboardWAF p) \<in> set ['''', ''detection'', ''enforcement''] \<and>
     addresses_ok (hw_IPAllowlist (hp_DashboardWAF p)) \<and>
     normalizeCustomRules (hw_CustomRules (hp_DashboardWAF p)) = hw_CustomRules (hp_DashboardWAF p)"

lemma normalizeCustomRules_idem [simp]: "normalizeCustomRules (normalizeCustomRules rs) = normalizeCustomRules rs"
  by (induction rs) (simp_all add: normalizeCustomRules_def)

lemma normalizeCustomRules_ok: "addresses_ok as \<Longrightarrow> normalizeCustomRules as = as"
  by (induction as) (auto simp: normalizeCustomRules_def addresses_ok_def)

lemma normalized_addresses: "validateCIDRorIPList (normalizeCustomRules raw) \<Longrightarrow> addresses_ok (normalizeCustomRules raw)"
  by (auto simp: addresses_ok_def validateCIDRorIPList_def list_all_iff normalizeCustomRules_def)

lemma set_waf_mode_Inr:
  "set_waf_mode f w = Inr w' \<Longrightarrow> hw_IPAllowlist w' = hw_IPAllowlist w \<and> hw_CustomRules w' = hw_CustomRules w"
  by (auto simp: set_waf_mode_def Let_def split: option.splits if_splits)

lemma set_waf_allowlist_Inr:
  assumes "set_waf_allowlist f w = Inr w'" and "addresses_ok (hw_IPAllowlist w)"
  shows "addresses_ok (hw_IPAllowlist w') \<and> hw_CustomRules w' = hw_CustomRules w \<and> hw_Mode w' = hw_Mode w"
  using assms by (auto simp: set_waf_allowlist_def Let_def normalized_addresses split: option.splits if_splits)

lemma set_waf_ok:
  assumes "set_waf f p = Inr p'" and "profile_ok p"
  shows "profile_ok p'"
proof (cases f)
  case None
  with assms show ?thesis by (simp add: set_waf_def)
next
  case (Some w)
  with assms(1) obtain n1 n2 where 1: "set_waf_mode (wq_Mode w) (hp_DashboardWAF p) = Inr n1"
    and 2: "set_waf_allowlist (wq_IPAllowlist w) n1 = Inr n2"
    and p': "p' = p\<lparr>hp_DashboardWAF := normalizeHostWAFConfig (case wq_CustomRules w of
        None \<Rightarrow> n2 | Some raw \<Rightarrow> n2\<lparr>hw_CustomRules := normalizeCustomRules raw\<rparr>)\<rparr>"
    by (auto simp: set_waf_def Let_def split: sum.splits)
  have "addresses_ok (hw_IPAllowlist n1)" using set_waf_mode_Inr[OF 1] assms(2) by (simp add: profile_ok_def)
  from set_waf_allowlist_Inr[OF 2 this] have "addresses_ok (hw_IPAllowlist n2)" by simp
  then show ?thesis using assms(2)
    by (simp add: p' profile_ok_def normalizeHostWAFConfig_def normalizeCustomRules_ok split: option.split)
qed

lemma edit_profile_ok:
  assumes "edit_profile body p = Inr p'" and "profile_ok p"
  shows "profile_ok p'"
proof -
  from assms(1) obtain p1 p2 where 1: "set_display_name (hq_DisplayName body) p = Inr p1"
    and 2: "set_access_mode (hq_DashboardAccessMode body) p1 = Inr p2" and 3: "set_waf (hq_DashboardWAF body) p2 = Inr p'"
    by (auto simp: edit_profile_def split: sum.splits)
  have "profile_ok p1" using 1 assms(2)
    by (auto simp: set_display_name_def profile_ok_def maxHostDisplayNameLength_def Let_def split: option.splits if_splits)
  then have "profile_ok p2" using 2
    by (auto simp: set_access_mode_def profile_ok_def Let_def split: option.splits if_splits)
  with 3 show ?thesis by (rule set_waf_ok)
qed

text \<open>Fields that a request leaves out keep their value.\<close>

lemma edit_profile_keeps:
  assumes "edit_profile body p = Inr p'"
  shows "hq_DisplayName body = None \<Longrightarrow> hp_DisplayName p' = hp_DisplayName p"
    "hq_DashboardAccessMode body = None \<Longrightarrow> hp_DashboardAccessMode p' = hp_DashboardAccessMode p"
    "hq_DashboardWAF body = None \<Longrightarrow> hp_DashboardWAF p' = hp_DashboardWAF p"
    "hq_DisplayName body = Some raw \<Longrightarrow> hp_DisplayName p' = TrimSpace raw"
    "hq_DashboardAccessMode body = Some mode \<Longrightarrow> hp_DashboardAccessMode p' = ToLower (TrimSpace mode)"
  using assms
  by (auto simp: edit_profile_def set_display_name_def set_access_mode_def set_waf_def Let_def
      split: sum.splits option.splits if_splits)

section \<open>Properties\<close>

text \<open>
  Changing the profile of the host. A request either fails and leaves the stored profile as it
  was, or stores the profile with the requested fields set, trimmed and checked, and the others
  kept. The profile stays well formed: a trimmed name of at most 64 bytes, known modes, and an
  allow list of addresses and networks.
\<close>

theorem host_update_spec:
  assumes "host_view dk = Some p" and "profile_ok p"
  shows "case updateHost hostProfiles decoded dk of
      (Inl _, dk') \<Rightarrow> host_view dk' = Some p
    | (Inr response, dk') \<Rightarrow> \<exists>body p'. decoded = Some body \<and> host_view dk' = Some p' \<and> profile_ok p' \<and>
        (case hq_DisplayName body of None \<Rightarrow> hp_DisplayName p' = hp_DisplayName p | Some raw \<Rightarrow> hp_DisplayName p' = TrimSpace raw) \<and>
        (case hq_DashboardAccessMode body of None \<Rightarrow> hp_DashboardAccessMode p' = hp_DashboardAccessMode p
          | Some raw \<Rightarrow> hp_DashboardAccessMode p' = ToLower (TrimSpace raw)) \<and>
        (hq_DashboardWAF body = None \<longrightarrow> hp_DashboardWAF p' = hp_DashboardWAF p) \<and>
        hp_DisplayName response = hp_DisplayName p'"
proof (cases "updateHost hostProfiles decoded dk")
  case (Pair r dk')
  show ?thesis
  proof (cases r)
    case (Inl err)
    have "host_view dk' = host_view dk"
      using Pair[unfolded Inl]
      by (auto simp: updateHost_def split: option.splits prod.splits if_splits sum.splits dest: hps.update_Inl)
    with Inl Pair assms(1) show ?thesis by simp
  next
    case (Inr response)
    from Pair[unfolded Inr] obtain e1 e2 body q p' upd where b: "decoded = Some body" and q: "HP_Get e1 dk = Inr q"
      and ed: "edit_profile body q = Inr p'" and up: "HP_Update e2 p' dk = (Inr upd, dk')"
      and rs: "hp_DisplayName response = hp_DisplayName upd"
      by (auto simp: updateHost_def split: option.splits prod.splits if_splits sum.splits)
    have "q = p" using hps.get_Inr[OF q] assms(1) by simp
    note ed = ed[unfolded this]
    from hps.update_Inr[OF up] have "host_view dk' = Some p'" "upd = p'" by auto
    then show ?thesis
      using b rs edit_profile_ok[OF ed assms(2)] edit_profile_keeps[OF ed] Pair Inr by (auto split: option.split)
  qed
qed

section \<open>Samples\<close>

definition host_env0 :: host_env where
  "host_env0 = \<lparr>he_lock_open = False, he_flock = False, he_open = False, he_persist = None\<rparr>"

definition host_request0 :: hostRequest where
  "host_request0 = \<lparr>hq_DisplayName = Some '' box '', hq_DashboardAccessMode = Some ''WAF_only'',
     hq_DashboardWAF = Some \<lparr>wq_Mode = Some ''enforcement'', wq_IPAllowlist = Some [''10.0.0.0/8'', '' ''], wq_CustomRules = None\<rparr>\<rparr>"

theorem host_update_spec_witness:
  "case updateHost (Some (host_env0, host_env0)) (Some host_request0) \<lparr>hd_file = None, hd_tmp = None\<rparr> of
     (Inl _, _) \<Rightarrow> False
   | (Inr _, dk') \<Rightarrow> \<exists>p'. host_view dk' = Some p' \<and> profile_ok p' \<and> hp_DisplayName p' = ''box'' \<and> hp_DashboardAccessMode p' = ''waf_only''"
proof -
  let ?r = "updateHost (Some (host_env0, host_env0)) (Some host_request0) \<lparr>hd_file = None, hd_tmp = None\<rparr>"
  have "host_view \<lparr>hd_file = None, hd_tmp = None\<rparr> = Some zero_HostProfile" by (simp add: host_view_def)
  moreover have "profile_ok zero_HostProfile" by code_simp
  moreover have "isl (fst ?r) = False" by code_simp
  then obtain x dk' where r: "?r = (Inr x, dk')" by (cases ?r; cases "fst ?r") auto
  moreover have "TrimSpace '' box '' = ''box''" "ToLower (TrimSpace ''WAF_only'') = ''waf_only''" by code_simp+
  ultimately show ?thesis
    using host_update_spec[of "\<lparr>hd_file = None, hd_tmp = None\<rparr>" zero_HostProfile "Some host_request0" "Some (host_env0, host_env0)"]
    by (auto simp: host_request0_def)
qed

end
