(* ===== verification/Export.thy ===== *)
theory Export
  imports Plan Host Registries
begin

text \<open>
  The live state as a configuration document (\<open>api/cmd/lotsen/config.go\<close>): what
  \<open>exportConfigDocument\<close> reads from the store and the host profile, and how it hides secrets
  behind placeholders. The command line around it, the reading and writing of files and the JSON
  encoding are outside the model; opening the two stores may fail, which is part of the
  environment.
\<close>

section \<open>Placeholders\<close>

text \<open>Every run of other characters than \<open>A\<close> to \<open>Z\<close> and digits becomes one underscore.\<close>

definition name_char :: "char \<Rightarrow> bool" where
  "name_char c \<longleftrightarrow> 65 \<le> byte c \<and> byte c \<le> 90 \<or> 48 \<le> byte c \<and> byte c \<le> 57"

function placeholderCleanup :: "string \<Rightarrow> string" where
  "placeholderCleanup [] = []"
| "placeholderCleanup (c # r) =
     (if name_char c then c # placeholderCleanup r
      else CHR ''_'' # placeholderCleanup (dropWhile (\<lambda>x. \<not> name_char x) r))"
  by pat_completeness auto
termination
  by (relation "measure length") (auto simp: le_imp_less_Suc length_dropWhile_le)

definition trim_underscores :: "string \<Rightarrow> string" where
  "trim_underscores s = rev (dropWhile (\<lambda>c. c = CHR ''_'') (rev (dropWhile (\<lambda>c. c = CHR ''_'') s)))"

definition placeholderFor :: "string \<Rightarrow> string" where
  "placeholderFor raw =
     (let normalized = trim_underscores (placeholderCleanup (ToUpper (TrimSpace raw))) in
      ''${LOTSEN_SECRET_'' @ (if normalized = [] then ''VALUE'' else normalized) @ ''}'')"

section \<open>Exporting\<close>

definition hide :: "string \<Rightarrow> string \<Rightarrow> string" where
  "hide name val = (if isPlaceholder val then val else placeholderFor name)"

definition exportEnvMap :: "string \<Rightarrow> string gomap option \<Rightarrow> string gomap option" where
  "exportEnvMap deploymentName env =
     map_option (map (\<lambda>(key, val).
       (key, if looksSensitiveEnvKey key \<and> \<not> isPlaceholder val then placeholderFor (''ENV_'' @ deploymentName @ ''_'' @ key) else val))) env"

definition exportBasicAuth :: "string \<Rightarrow> BasicAuthConfig option \<Rightarrow> BasicAuthUser_v1 list option" where
  "exportBasicAuth deploymentName auth =
     map_option (\<lambda>a. map (\<lambda>u. \<lparr>v1u_Username = bau_Username u,
       v1u_Password = hide (''BASIC_AUTH_'' @ deploymentName @ ''_'' @ bau_Username u) (bau_Password u)\<rparr>) (bac_Users a)) auth"

definition exportSecurity :: "SecurityConfig option \<Rightarrow> Security_v1 option" where
  "exportSecurity = map_option (\<lambda>s. \<lparr>v1s_WAFEnabled = sc_WAFEnabled s, v1s_WAFMode = sc_WAFMode s,
     v1s_IPDenylist = sc_IPDenylist s, v1s_IPAllowlist = sc_IPAllowlist s, v1s_CustomRules = sc_CustomRules s\<rparr>)"

definition export_mount :: "'f os_api \<Rightarrow> string \<Rightarrow> string \<Rightarrow> VolumeMount_v1 list" where
  "export_mount os deploymentID raw =
     (case Cut raw (CHR '':'') of (source, target, found) \<Rightarrow>
        if \<not> found \<or> source = [] then []
        else case managedVolumeNameForDeployment os deploymentID source of
          Some managedName \<Rightarrow> [\<lparr>v1m_Mode = ''managed'', v1m_Source = managedName, v1m_Target = target,
            v1m_UID = None, v1m_GID = None, v1m_DirMode = []\<rparr>]
        | None \<Rightarrow> [\<lparr>v1m_Mode = ''bind'', v1m_Source = source, v1m_Target = target,
            v1m_UID = None, v1m_GID = None, v1m_DirMode = []\<rparr>])"

definition exportVolumeMounts :: "'f os_api \<Rightarrow> string \<Rightarrow> string list \<Rightarrow> VolumeMount_v1 list" where
  "exportVolumeMounts os deploymentID bindings = concat (map (export_mount os deploymentID) bindings)"

definition exportFileMounts :: "FileMount list \<Rightarrow> FileMount_v1 list" where
  "exportFileMounts = map (\<lambda>m. \<lparr>v1f_Source = TrimSpace (fm_Source m), v1f_Target = TrimSpace (fm_Target m),
     v1f_Content = fm_Content m, v1f_UID = fm_UID m, v1f_GID = fm_GID m, v1f_FileMode = TrimSpace (fm_FileMode m),
     v1f_ReadOnly = fm_ReadOnly m\<rparr>)"

definition export_deployment :: "'f os_api \<Rightarrow> Deployment \<Rightarrow> Deployment_v1" where
  "export_deployment os d =
     \<lparr>v1_Name = d_Name d, v1_Image = d_Image d, v1_Domain = d_Domain d, v1_Public = Some (d_Public d),
      v1_Env = exportEnvMap (d_Name d) (d_Envs d), v1_Ports = Some (Prelude.slice (d_Ports d)),
      v1_ProxyPort = (if d_ProxyPort d > 0 then Some (d_ProxyPort d) else None),
      v1_VolumeMounts = exportVolumeMounts os (d_ID d) (Prelude.slice (d_Volumes d)),
      v1_FileMounts = exportFileMounts (Prelude.slice (d_FileMounts d)),
      v1_BasicAuth = exportBasicAuth (d_Name d) (d_BasicAuth d), v1_Security = exportSecurity (d_Security d)\<rparr>"

definition export_registry :: "RegistryExport \<Rightarrow> Registry_v1" where
  "export_registry r = \<lparr>v1r_Prefix = rx_Prefix r, v1r_Username = rx_Username r,
     v1r_Password = hide (''REGISTRY_'' @ rx_Prefix r) (rx_Password r)\<rparr>"

definition export_host :: "HostProfile \<Rightarrow> Host_v1" where
  "export_host p =
     (let waf = hp_DashboardWAF p in
      \<lparr>v1h_DisplayName = TrimSpace (hp_DisplayName p), v1h_DashboardAccessMode = TrimSpace (hp_DashboardAccessMode p),
       v1h_DashboardWAF =
         (if hw_Mode waf \<noteq> [] \<or> hw_IPAllowlist waf \<noteq> [] \<or> hw_CustomRules waf \<noteq> []
          then Some \<lparr>v1w_Mode = TrimSpace (hw_Mode waf), v1w_IPAllowlist = hw_IPAllowlist waf, v1w_CustomRules = hw_CustomRules waf\<rparr>
          else None)\<rparr>)"

definition document_of :: "'f os_api \<Rightarrow> Deployment list \<Rightarrow> RegistryExport list \<Rightarrow> HostProfile \<Rightarrow> Document_v1" where
  "document_of os deployments registries profile =
     \<lparr>doc_APIVersion = APIVersion, doc_Kind = Kind_v1, doc_Metadata = None,
      doc_Spec = Some \<lparr>sp_Deployments = map (export_deployment os) deployments,
        sp_Registries = map export_registry registries, sp_Host = Some (export_host profile)\<rparr>\<rparr>"

datatype export_error =
    OpenStore store_error | ListDeployments store_error | ListRegistries store_error
  | OpenHostProfile host_error | GetHostProfile host_error | InvalidExport "config_error list"

record 'f export_env =
  xe_os :: "'f os_api"
  xe_config :: config_env
  xe_crypto :: crypto
  xe_open_store :: "store_error option"
  xe_list :: store_env
  xe_registries :: store_env
  xe_open_host :: "host_error option"
  xe_host :: host_env

definition exportConfigDocument :: "'f export_env \<Rightarrow> disk \<Rightarrow> host_disk \<Rightarrow> export_error + Document_v1" where
  "exportConfigDocument env dk hdk =
     (case xe_open_store env of
        Some err \<Rightarrow> Inl (OpenStore err)
      | None \<Rightarrow>
     (case JS_List (xe_list env) dk of
        Inl err \<Rightarrow> Inl (ListDeployments err)
      | Inr deployments \<Rightarrow>
     (case JS_ListRegistriesForExport (xe_crypto env) (xe_registries env) dk of
        Inl err \<Rightarrow> Inl (ListRegistries err)
      | Inr registries \<Rightarrow>
     (case xe_open_host env of
        Some err \<Rightarrow> Inl (OpenHostProfile err)
      | None \<Rightarrow>
     (case HP_Get (xe_host env) hdk of
        Inl err \<Rightarrow> Inl (GetHostProfile err)
      | Inr profile \<Rightarrow>
          (let doc = document_of (xe_os env) deployments registries profile; errs = Validate (xe_config env) doc in
           if errs \<noteq> [] then Inl (InvalidExport errs) else Inr doc))))))"

section \<open>Lemmas\<close>

lemma placeholderCleanup_chars: "c \<in> set (placeholderCleanup s) \<Longrightarrow> placeholder_char c"
proof (induction s rule: placeholderCleanup.induct)
  case (2 x r)
  then show ?case by (auto simp: placeholder_char_def name_char_def split: if_splits)
qed simp

lemma trim_underscores_subset: "set (trim_underscores s) \<subseteq> set s"
  by (auto simp: trim_underscores_def dest!: set_dropWhileD)

text \<open>Whatever name a secret gets, what stands for it in the document is a placeholder.\<close>

lemma placeholderFor_pattern: "placeholderPattern (placeholderFor raw)"
proof -
  let ?n = "trim_underscores (placeholderCleanup (ToUpper (TrimSpace raw)))"
  define m where "m = (if ?n = [] then ''VALUE'' else ?n)"
  have "list_all placeholder_char ?n"
    using placeholderCleanup_chars trim_underscores_subset by (fastforce simp: list_all_iff)
  moreover have "list_all placeholder_char ''VALUE''" by code_simp
  ultimately have "list_all placeholder_char m" "m \<noteq> []" by (auto simp: m_def)
  moreover have "placeholderFor raw = ''${LOTSEN_SECRET_'' @ m @ ''}''" by (simp add: placeholderFor_def m_def Let_def)
  ultimately show ?thesis by (simp add: placeholderPattern_def HasPrefix_iff butlast_append)
qed

lemma placeholder_graphic:
  assumes "placeholderPattern s"
  shows "list_all graphic s"
proof -
  from assms obtain t where t: "s = ''${LOTSEN_SECRET_'' @ t" by (auto simp: placeholderPattern_def HasPrefix_iff)
  with assms have "t \<noteq> []" "last t = CHR ''}''" and m: "list_all placeholder_char (butlast t)"
    by (simp_all add: placeholderPattern_def Let_def)
  then have s: "s = ''${LOTSEN_SECRET_'' @ butlast t @ ''}''" using t append_butlast_last_id[of t] by simp
  have "placeholder_char c \<Longrightarrow> graphic c" for c
    by (auto simp: placeholder_char_def graphic_def byte_def)
  with m have "list_all graphic (butlast t)" by (auto simp: list_all_iff)
  moreover have "list_all graphic ''${LOTSEN_SECRET_''" "list_all graphic ''}''" by code_simp+
  ultimately show ?thesis unfolding s by (simp only: list_all_append)
qed

lemma isPlaceholder_placeholderFor [simp]: "isPlaceholder (placeholderFor raw)"
  using placeholderFor_pattern[of raw] TrimSpace_all_graphic[OF placeholder_graphic[OF placeholderFor_pattern[of raw]]]
  by (simp add: isPlaceholder_def)

lemma isPlaceholder_hide [simp]: "isPlaceholder (hide name val)"
  by (simp add: hide_def)

lemma export_Inr:
  assumes "exportConfigDocument env dk hdk = Inr doc"
  obtains ds rs profile where "JS_List (xe_list env) dk = Inr ds"
    "JS_ListRegistriesForExport (xe_crypto env) (xe_registries env) dk = Inr rs" "HP_Get (xe_host env) hdk = Inr profile"
    "doc = document_of (xe_os env) ds rs profile" "Validate (xe_config env) doc = []"
  using assms by (auto simp: exportConfigDocument_def Let_def split: option.splits sum.splits if_splits)

subsection \<open>What an observer of the document can tell apart\<close>

text \<open>Two values of a secret look the same in the document when they are equal or when neither is a
  placeholder.\<close>

definition alike :: "string \<Rightarrow> string \<Rightarrow> bool" where
  "alike v v' \<longleftrightarrow> v = v' \<or> \<not> isPlaceholder v \<and> \<not> isPlaceholder v'"

definition env_alike :: "string \<times> string \<Rightarrow> string \<times> string \<Rightarrow> bool" where
  "env_alike x y \<longleftrightarrow> fst x = fst y \<and> (if looksSensitiveEnvKey (fst x) then alike (snd x) (snd y) else snd x = snd y)"

definition user_alike :: "BasicAuthUser \<Rightarrow> BasicAuthUser \<Rightarrow> bool" where
  "user_alike u v \<longleftrightarrow> bau_Username u = bau_Username v \<and> alike (bau_Password u) (bau_Password v)"

definition auth_alike :: "BasicAuthConfig \<Rightarrow> BasicAuthConfig \<Rightarrow> bool" where
  "auth_alike a b \<longleftrightarrow> list_all2 user_alike (bac_Users a) (bac_Users b)"

text \<open>Deployments that differ in secrets only, and in the status that the document does not show.\<close>

definition deployment_alike :: "Deployment \<Rightarrow> Deployment \<Rightarrow> bool" where
  "deployment_alike d d' \<longleftrightarrow>
     d' = d\<lparr>d_Envs := d_Envs d', d_BasicAuth := d_BasicAuth d', d_Status := d_Status d', d_Reason := d_Reason d', d_Error := d_Error d'\<rparr> \<and>
     rel_option (list_all2 env_alike) (d_Envs d) (d_Envs d') \<and> rel_option auth_alike (d_BasicAuth d) (d_BasicAuth d')"

definition registry_alike :: "RegistryExport \<Rightarrow> RegistryExport \<Rightarrow> bool" where
  "registry_alike r r' \<longleftrightarrow> rx_Prefix r = rx_Prefix r' \<and> rx_Username r = rx_Username r' \<and> alike (rx_Password r) (rx_Password r')"

lemma hide_alike: "alike v v' \<Longrightarrow> hide name v = hide name v'"
  by (auto simp: alike_def hide_def)

lemma list_all2_map_eq: "list_all2 R xs ys \<Longrightarrow> (\<And>x y. R x y \<Longrightarrow> f x = f y) \<Longrightarrow> map f xs = map f ys"
  by (induction xs ys rule: list_all2_induct) auto

lemma exportEnvMap_alike: "rel_option (list_all2 env_alike) a b \<Longrightarrow> exportEnvMap name a = exportEnvMap name b"
  by (cases a; cases b) (auto simp: exportEnvMap_def env_alike_def alike_def split: if_splits elim!: list_all2_map_eq)

lemma exportBasicAuth_alike: "rel_option auth_alike a b \<Longrightarrow> exportBasicAuth name a = exportBasicAuth name b"
  by (cases a; cases b)
    (auto simp: exportBasicAuth_def auth_alike_def user_alike_def hide_alike elim!: list_all2_map_eq)

lemma export_deployment_alike:
  assumes "deployment_alike d d'"
  shows "export_deployment os d = export_deployment os d'"
proof -
  from assms have eq: "d' = d\<lparr>d_Envs := d_Envs d', d_BasicAuth := d_BasicAuth d', d_Status := d_Status d', d_Reason := d_Reason d', d_Error := d_Error d'\<rparr>"
    and env: "rel_option (list_all2 env_alike) (d_Envs d) (d_Envs d')" and auth: "rel_option auth_alike (d_BasicAuth d) (d_BasicAuth d')"
    by (simp_all add: deployment_alike_def)
  have "export_deployment os (d\<lparr>d_Envs := e, d_BasicAuth := a, d_Status := st, d_Reason := rs, d_Error := er\<rparr>) =
      (export_deployment os d)\<lparr>v1_Env := exportEnvMap (d_Name d) e, v1_BasicAuth := exportBasicAuth (d_Name d) a\<rparr>" for e a st rs er
    by (simp add: export_deployment_def)
  from trans[OF arg_cong[OF eq, of "export_deployment os"] this] have "export_deployment os d' =
      (export_deployment os d)\<lparr>v1_Env := exportEnvMap (d_Name d) (d_Envs d'), v1_BasicAuth := exportBasicAuth (d_Name d) (d_BasicAuth d')\<rparr>" .
  then show ?thesis
    by (simp add: exportEnvMap_alike[OF env, symmetric] exportBasicAuth_alike[OF auth, symmetric]) (simp add: export_deployment_def)
qed

lemma export_registry_alike: "registry_alike r r' \<Longrightarrow> export_registry r = export_registry r'"
  by (simp add: registry_alike_def export_registry_def hide_alike)

section \<open>Properties\<close>

text \<open>
  C11. An exported configuration gives no secret away. Two live states whose deployments and
  registries differ only in the values of environment variables that look sensitive, in passwords
  of users and registries, and in their status, are exported as the same document.
\<close>

theorem export_hides_secrets:
  assumes "JS_List (xe_list env) dk = Inr ds" and "JS_List (xe_list env) dk' = Inr ds'" and "list_all2 deployment_alike ds ds'"
    and "JS_ListRegistriesForExport (xe_crypto env) (xe_registries env) dk = Inr rs"
    and "JS_ListRegistriesForExport (xe_crypto env) (xe_registries env) dk' = Inr rs'" and "list_all2 registry_alike rs rs'"
  shows "exportConfigDocument env dk hdk = exportConfigDocument env dk' hdk"
proof -
  have "map (export_deployment os) ds = map (export_deployment os) ds'" for os :: "'a os_api"
    using assms(3) by (rule list_all2_map_eq) (rule export_deployment_alike)
  moreover have "map export_registry rs = map export_registry rs'"
    using assms(6) by (rule list_all2_map_eq) (rule export_registry_alike)
  ultimately have docs: "document_of os ds rs p = document_of os ds' rs' p" for os :: "'a os_api" and p
    by (simp add: document_of_def)
  show ?thesis unfolding exportConfigDocument_def assms(1,2,4,5) sum.case docs by (rule refl)
qed

text \<open>
  A deployment without a domain blocks the configuration tools. The API stores deployments that
  have no domain, but the export, on which planning and applying rest, validates its own document
  and fails as long as one is stored.
\<close>

theorem missing_domain_blocks_export:
  assumes "store_view dk k = Some d" and "TrimSpace (d_Domain d) = []" and "env_ok (xe_list env)" and "config_env_ok (xe_config env)"
  shows "exportConfigDocument env dk hdk \<noteq> Inr doc"
proof
  assume "exportConfigDocument env dk hdk = Inr doc"
  then obtain ds rs profile where l: "JS_List (xe_list env) dk = Inr ds" and doc: "doc = document_of (xe_os env) ds rs profile"
    and v: "Validate (xe_config env) doc = []"
    by (rule export_Inr)
  have "d \<in> set ds" using js.list_Inr[OF assms(3) l] assms(1) by (auto intro: ranI)
  moreover have "\<forall>d \<in> set ds. valid_deployment (export_deployment (xe_os env) d)"
    using v unfolding Validate_Nil[OF assms(4)] doc by (auto simp: valid_document_def document_of_def valid_spec_v1_def)
  ultimately show False using assms(2) by (auto simp: valid_deployment_def export_deployment_def)
qed

section \<open>Samples\<close>

definition export_env0 :: "unit export_env" where
  "export_env0 = \<lparr>xe_os = os0, xe_config = config_env0, xe_crypto = crypto0, xe_open_store = None, xe_list = env0,
     xe_registries = env0, xe_open_host = None, xe_host = host_env0\<rparr>"

definition live_web :: "string \<Rightarrow> Deployment" where
  "live_web secret = zero_Deployment\<lparr>d_ID := ''1'', d_Name := ''web'', d_Image := ''nginx:1'', d_Domain := ''web.example.com'',
     d_Public := True, d_Envs := Some [(''API_KEY'', secret), (''MODE'', ''fast'')], d_Ports := Some [''40000:80''], d_ProxyPort := 80,
     d_Status := ''healthy''\<rparr>"

definition live_disk :: "string \<Rightarrow> disk" where
  "live_disk secret = \<lparr>dk_file = Some (ObjectDoc (Some [live_web secret]) None), dk_tmp = None\<rparr>"

definition host_disk0 :: host_disk where "host_disk0 = \<lparr>hd_file = None, hd_tmp = None\<rparr>"

theorem export_hides_secrets_witness:
  "exportConfigDocument export_env0 (live_disk ''hunter2'') host_disk0 = exportConfigDocument export_env0 (live_disk ''swordfish'') host_disk0"
proof (rule export_hides_secrets)
  show "JS_List (xe_list export_env0) (live_disk ''hunter2'') = Inr [live_web ''hunter2'']" by code_simp
  show "JS_List (xe_list export_env0) (live_disk ''swordfish'') = Inr [live_web ''swordfish'']" by code_simp
  show "JS_ListRegistriesForExport (xe_crypto export_env0) (xe_registries export_env0) (live_disk ''hunter2'') = Inr []" by code_simp
  show "JS_ListRegistriesForExport (xe_crypto export_env0) (xe_registries export_env0) (live_disk ''swordfish'') = Inr []" by code_simp
  have "\<not> isPlaceholder ''hunter2''" "\<not> isPlaceholder ''swordfish''" "looksSensitiveEnvKey ''API_KEY''" by code_simp+
  then have "env_alike (''API_KEY'', ''hunter2'') (''API_KEY'', ''swordfish'')" by (simp add: env_alike_def alike_def)
  then show "list_all2 deployment_alike [live_web ''hunter2''] [live_web ''swordfish'']"
    by (simp add: deployment_alike_def live_web_def env_alike_def[of "(''MODE'', _)"] alike_def zero_Deployment_def)
qed simp

theorem missing_domain_blocks_export_witness:
  "\<forall>doc. exportConfigDocument export_env0 disk1 host_disk0 \<noteq> Inr doc"
proof
  fix doc
  have "store_view disk1 ''2'' = Some api" by (simp add: disk1_view)
  moreover have "TrimSpace (d_Domain api) = []" by code_simp
  ultimately show "exportConfigDocument export_env0 disk1 host_disk0 \<noteq> Inr doc"
    by (rule missing_domain_blocks_export) (simp_all add: export_env0_def config_env0_ok)
qed

end
