(* ===== verification/Apply.thy ===== *)
theory Apply
  imports Export
begin

text \<open>
  Applying an approved plan (\<open>api/internal/configapply/apply.go\<close>).

  \<open>Execute\<close> works on two interfaces, the state store and the host profile store; they are records
  of functions, of which the store of theory \<open>Store\<close> with the registries of theory \<open>Registries\<close>
  and the profile store of theory \<open>Host\<close> are the instances the program uses. Every branch of a
  loop of the code that ends in an outcome is a value of an attempt, and the loops fold these
  attempts over the actions of the plan. The bytes for new IDs come from a sequence, one element
  for each call of \<open>newID\<close>.
\<close>

section \<open>Outcomes\<close>

datatype apply_status = StatusApplied | StatusNoop | ApplyFailed

datatype apply_message =
    NoMessage | MissingInDesired | MissingInLive | NewIDFailed
  | StoreMessage store_error | HostMessage host_error | HashMessage string string | UnsupportedMode string

record Outcome =
  oc_ResourceType :: string
  oc_Action :: string
  oc_Resource :: string
  oc_Status :: apply_status
  oc_Message :: apply_message

record Result =
  res_Fingerprint :: string
  res_Outcomes :: "Outcome list"
  res_Applied :: nat
  res_Noop :: nat
  res_Failed :: nat
  res_PartialFailed :: bool

definition appendOutcome :: "Outcome \<Rightarrow> Result \<Rightarrow> Result" where
  "appendOutcome oc r =
     (let r' = r\<lparr>res_Outcomes := res_Outcomes r @ [oc]\<rparr> in
      case oc_Status oc of
        StatusApplied \<Rightarrow> r'\<lparr>res_Applied := res_Applied r + 1\<rparr>
      | StatusNoop \<Rightarrow> r'\<lparr>res_Noop := res_Noop r + 1\<rparr>
      | ApplyFailed \<Rightarrow> r'\<lparr>res_Failed := res_Failed r + 1\<rparr>)"

section \<open>From the document to the store\<close>

record 'f apply_env =
  ay_os :: "'f os_api"
  ay_bcryptCost :: "string \<Rightarrow> bool"
  ay_bcryptHash :: "string \<Rightarrow> string + string"
  ay_random :: "nat \<Rightarrow> int list option"

definition hash_user :: "'f apply_env \<Rightarrow> BasicAuthUser_v1 \<Rightarrow> apply_message + BasicAuthUser" where
  "hash_user env user =
     (let password = TrimSpace (v1u_Password user) in
      if ay_bcryptCost env password
      then Inr \<lparr>bau_Username = TrimSpace (v1u_Username user), bau_Password = password\<rparr>
      else case ay_bcryptHash env password of
        Inl err \<Rightarrow> Inl (HashMessage (v1u_Username user) err)
      | Inr hashed \<Rightarrow> Inr \<lparr>bau_Username = TrimSpace (v1u_Username user), bau_Password = hashed\<rparr>)"

fun hash_users :: "'f apply_env \<Rightarrow> BasicAuthUser_v1 list \<Rightarrow> apply_message + BasicAuthUser list" where
  "hash_users env [] = Inr []"
| "hash_users env (u # us) =
     (case hash_user env u of
        Inl err \<Rightarrow> Inl err
      | Inr x \<Rightarrow> (case hash_users env us of Inl err \<Rightarrow> Inl err | Inr xs \<Rightarrow> Inr (x # xs)))"

definition hashBasicAuth :: "'f apply_env \<Rightarrow> BasicAuthUser_v1 list option \<Rightarrow> apply_message + BasicAuthConfig option" where
  "hashBasicAuth env auth =
     (case auth of
        None \<Rightarrow> Inr None
      | Some users \<Rightarrow>
          if users = [] then Inr None
          else case hash_users env users of Inl err \<Rightarrow> Inl err | Inr us \<Rightarrow> Inr (Some \<lparr>bac_Users = us\<rparr>))"

definition binding_of_mount :: "'f os_api \<Rightarrow> string \<Rightarrow> VolumeMount_v1 \<Rightarrow> apply_message + string" where
  "binding_of_mount os deploymentID mount =
     (let mode = ToLower (TrimSpace (v1m_Mode mount));
          target = TrimSpace (v1m_Target mount); source = TrimSpace (v1m_Source mount) in
      if mode = ''managed'' then Inr (FilepathJoin [managedVolumesBaseDirFromEnv os, deploymentID, source] @ '':'' @ target)
      else if mode = ''bind'' then Inr (source @ '':'' @ target)
      else Inl (UnsupportedMode (v1m_Mode mount)))"

fun bindings_of_mounts :: "'f os_api \<Rightarrow> string \<Rightarrow> VolumeMount_v1 list \<Rightarrow> apply_message + string list" where
  "bindings_of_mounts os deploymentID [] = Inr []"
| "bindings_of_mounts os deploymentID (m # ms) =
     (case binding_of_mount os deploymentID m of
        Inl err \<Rightarrow> Inl err
      | Inr b \<Rightarrow> (case bindings_of_mounts os deploymentID ms of Inl err \<Rightarrow> Inl err | Inr bs \<Rightarrow> Inr (b # bs)))"

definition volumeBindingsFromMounts :: "'f os_api \<Rightarrow> string \<Rightarrow> VolumeMount_v1 list \<Rightarrow> apply_message + string list option" where
  "volumeBindingsFromMounts os deploymentID mounts =
     (if mounts = [] then Inr None
      else case bindings_of_mounts os deploymentID mounts of Inl err \<Rightarrow> Inl err | Inr bs \<Rightarrow> Inr (Some bs))"

definition fileMountsFromDesired :: "FileMount_v1 list \<Rightarrow> FileMount list option" where
  "fileMountsFromDesired ms =
     (if ms = [] then None
      else Some (map (\<lambda>m. \<lparr>fm_Source = TrimSpace (v1f_Source m), fm_Target = TrimSpace (v1f_Target m), fm_Content = v1f_Content m,
        fm_UID = v1f_UID m, fm_GID = v1f_GID m, fm_FileMode = TrimSpace (v1f_FileMode m), fm_ReadOnly = v1f_ReadOnly m\<rparr>) ms))"

definition securityFromDesired :: "Security_v1 option \<Rightarrow> SecurityConfig option" where
  "securityFromDesired = map_option (\<lambda>s. \<lparr>sc_WAFEnabled = v1s_WAFEnabled s, sc_WAFMode = TrimSpace (v1s_WAFMode s),
     sc_IPDenylist = v1s_IPDenylist s, sc_IPAllowlist = v1s_IPAllowlist s, sc_CustomRules = v1s_CustomRules s\<rparr>)"

definition deploymentFromDesired :: "'f apply_env \<Rightarrow> Deployment_v1 \<Rightarrow> string \<Rightarrow> apply_message + Deployment" where
  "deploymentFromDesired env d k =
     (case hashBasicAuth env (v1_BasicAuth d) of
        Inl err \<Rightarrow> Inl err
      | Inr basicAuth \<Rightarrow>
          (case volumeBindingsFromMounts (ay_os env) k (v1_VolumeMounts d) of
             Inl err \<Rightarrow> Inl err
           | Inr volumes \<Rightarrow>
               Inr (zero_Deployment\<lparr>d_ID := k, d_Name := TrimSpace (v1_Name d), d_Image := TrimSpace (v1_Image d),
                 d_Envs := map_option cloneMap (v1_Env d), d_Ports := v1_Ports d, d_Volumes := volumes,
                 d_FileMounts := fileMountsFromDesired (v1_FileMounts d), d_Domain := TrimSpace (v1_Domain d),
                 d_BasicAuth := basicAuth, d_Security := securityFromDesired (v1_Security d),
                 d_Public := (case v1_Public d of None \<Rightarrow> False | Some b \<Rightarrow> b),
                 d_ProxyPort := (case v1_ProxyPort d of None \<Rightarrow> 0 | Some p \<Rightarrow> p)\<rparr>)))"

definition redeployRequired :: "string list \<Rightarrow> bool" where
  "redeployRequired changes \<longleftrightarrow>
     list_ex (\<lambda>f. TrimSpace f \<in> set [''image'', ''env'', ''ports'', ''proxyPort'', ''volumeMounts'', ''basicAuth'']) changes"

definition hostProfileFromDesired :: "Host_v1 \<Rightarrow> HostProfile" where
  "hostProfileFromDesired h =
     \<lparr>hp_DisplayName = TrimSpace (v1h_DisplayName h),
      hp_DashboardAccessMode = normalizeDashboardAccessMode_v1 (v1h_DashboardAccessMode h),
      hp_DashboardWAF =
        (case v1h_DashboardWAF h of
           None \<Rightarrow> \<lparr>hw_Mode = ''detection'', hw_IPAllowlist = [], hw_CustomRules = []\<rparr>
         | Some w \<Rightarrow>
             \<lparr>hw_Mode = (if ToLower (TrimSpace (v1w_Mode w)) = ''enforcement'' then ''enforcement'' else ''detection''),
              hw_IPAllowlist = v1w_IPAllowlist w, hw_CustomRules = v1w_CustomRules w\<rparr>)\<rparr>"

section \<open>Executing a plan\<close>

record ('s, 'h) StateStore =
  ss_List :: "'s \<Rightarrow> store_error + Deployment list"
  ss_Create :: "Deployment \<Rightarrow> 's \<Rightarrow> (store_error + Deployment) \<times> 's"
  ss_Update :: "Deployment \<Rightarrow> 's \<Rightarrow> (store_error + Deployment) \<times> 's"
  ss_Delete :: "string \<Rightarrow> 's \<Rightarrow> (store_error + unit) \<times> 's"
  ss_ListRegistries :: "'s \<Rightarrow> store_error + RegistryEntry list"
  ss_CreateRegistry :: "string \<Rightarrow> string \<Rightarrow> string \<Rightarrow> string \<Rightarrow> 's \<Rightarrow> (store_error + RegistryEntry) \<times> 's"
  ss_UpdateRegistry :: "string \<Rightarrow> string \<Rightarrow> string \<Rightarrow> string \<Rightarrow> 's \<Rightarrow> (store_error + RegistryEntry) \<times> 's"
  ss_DeleteRegistry :: "string \<Rightarrow> 's \<Rightarrow> (store_error + unit) \<times> 's"
  hs_Update :: "HostProfile \<Rightarrow> 'h \<Rightarrow> (host_error + HostProfile) \<times> 'h"

record ('s, 'h) apply_state =
  ap_store :: 's
  ap_host :: 'h
  ap_next :: nat
  ap_result :: Result

type_synonym ('s, 'h) attempt = "ResourceChange \<Rightarrow> ('s, 'h) apply_state \<Rightarrow> (apply_message + unit) \<times> ('s, 'h) apply_state"

definition next_id :: "'f apply_env \<Rightarrow> ('s, 'h) apply_state \<Rightarrow> string option \<times> ('s, 'h) apply_state" where
  "next_id env s = (map_option newID (ay_random env (ap_next s)), s\<lparr>ap_next := ap_next s + 1\<rparr>)"

definition on_store :: "('s \<Rightarrow> (store_error + 'a) \<times> 's) \<Rightarrow> ('s, 'h) apply_state \<Rightarrow> (apply_message + unit) \<times> ('s, 'h) apply_state" where
  "on_store f s =
     (case f (ap_store s) of
        (Inl err, st) \<Rightarrow> (Inl (StoreMessage err), s\<lparr>ap_store := st\<rparr>)
      | (Inr _, st) \<Rightarrow> (Inr (), s\<lparr>ap_store := st\<rparr>))"

definition create_registry :: "'f apply_env \<Rightarrow> ('s, 'h) StateStore \<Rightarrow> Registry_v1 gomap \<Rightarrow> ('s, 'h) attempt" where
  "create_registry env ss desiredRegistries c s =
     (case map_of desiredRegistries (rsc_Resource c) of
        None \<Rightarrow> (Inl MissingInDesired, s)
      | Some r \<Rightarrow>
          (case next_id env s of
             (None, s1) \<Rightarrow> (Inl NewIDFailed, s1)
           | (Some k, s1) \<Rightarrow> on_store (ss_CreateRegistry ss k (v1r_Prefix r) (v1r_Username r) (v1r_Password r)) s1))"

definition update_registry :: "('s, 'h) StateStore \<Rightarrow> Registry_v1 gomap \<Rightarrow> string gomap \<Rightarrow> ('s, 'h) attempt" where
  "update_registry ss desiredRegistries ids c s =
     (case map_of desiredRegistries (rsc_Resource c) of
        None \<Rightarrow> (Inl MissingInDesired, s)
      | Some r \<Rightarrow>
          (case map_of ids (rsc_Resource c) of
             None \<Rightarrow> (Inl MissingInLive, s)
           | Some k \<Rightarrow> on_store (ss_UpdateRegistry ss k (v1r_Prefix r) (v1r_Username r) (v1r_Password r)) s))"

definition delete_registry :: "('s, 'h) StateStore \<Rightarrow> string gomap \<Rightarrow> ('s, 'h) attempt" where
  "delete_registry ss ids c s =
     (case map_of ids (rsc_Resource c) of
        None \<Rightarrow> (Inl MissingInLive, s)
      | Some k \<Rightarrow> on_store (ss_DeleteRegistry ss k) s)"

definition create_deployment :: "'f apply_env \<Rightarrow> ('s, 'h) StateStore \<Rightarrow> Deployment_v1 gomap \<Rightarrow> ('s, 'h) attempt" where
  "create_deployment env ss desiredDeployments c s =
     (case map_of desiredDeployments (rsc_Resource c) of
        None \<Rightarrow> (Inl MissingInDesired, s)
      | Some d \<Rightarrow>
          (case next_id env s of
             (None, s1) \<Rightarrow> (Inl NewIDFailed, s1)
           | (Some k, s1) \<Rightarrow>
               (case deploymentFromDesired env d k of
                  Inl err \<Rightarrow> (Inl err, s1)
                | Inr fresh \<Rightarrow> on_store (ss_Create ss (fresh\<lparr>d_Status := StatusDeploying\<rparr>)) s1)))"

definition updated_deployment :: "ResourceChange \<Rightarrow> Deployment \<Rightarrow> Deployment \<Rightarrow> Deployment" where
  "updated_deployment c existing d =
     (if redeployRequired (rsc_Changes c) then d\<lparr>d_Status := StatusDeploying, d_Reason := [], d_Error := []\<rparr>
      else d\<lparr>d_Status := d_Status existing, d_Reason := d_Reason existing, d_Error := d_Error existing\<rparr>)"

definition update_deployment :: "'f apply_env \<Rightarrow> ('s, 'h) StateStore \<Rightarrow> Deployment_v1 gomap \<Rightarrow> Deployment gomap \<Rightarrow> ('s, 'h) attempt" where
  "update_deployment env ss desiredDeployments liveByName c s =
     (case map_of desiredDeployments (rsc_Resource c) of
        None \<Rightarrow> (Inl MissingInDesired, s)
      | Some d \<Rightarrow>
          (case map_of liveByName (rsc_Resource c) of
             None \<Rightarrow> (Inl MissingInLive, s)
           | Some existing \<Rightarrow>
               (case deploymentFromDesired env d (d_ID existing) of
                  Inl err \<Rightarrow> (Inl err, s)
                | Inr upd \<Rightarrow> on_store (ss_Update ss (updated_deployment c existing upd)) s)))"

definition delete_deployment :: "('s, 'h) StateStore \<Rightarrow> Deployment gomap \<Rightarrow> ('s, 'h) attempt" where
  "delete_deployment ss liveByName c s =
     (case map_of liveByName (rsc_Resource c) of
        None \<Rightarrow> (Inl MissingInLive, s)
      | Some existing \<Rightarrow> on_store (ss_Delete ss (d_ID existing)) s)"

definition update_host :: "('s, 'h) StateStore \<Rightarrow> Host_v1 option \<Rightarrow> ('s, 'h) attempt" where
  "update_host ss desiredHost c s =
     (case desiredHost of
        None \<Rightarrow> (Inl MissingInDesired, s)
      | Some h \<Rightarrow>
          (case hs_Update ss (hostProfileFromDesired h) (ap_host s) of
             (Inl err, hst) \<Rightarrow> (Inl (HostMessage err), s\<lparr>ap_host := hst\<rparr>)
           | (Inr _, hst) \<Rightarrow> (Inr (), s\<lparr>ap_host := hst\<rparr>)))"

definition add_outcome :: "Outcome \<Rightarrow> ('s, 'h) apply_state \<Rightarrow> ('s, 'h) apply_state" where
  "add_outcome oc s = s\<lparr>ap_result := appendOutcome oc (ap_result s)\<rparr>"

definition attempt_action :: "string \<Rightarrow> string \<Rightarrow> ('s, 'h) attempt \<Rightarrow> ResourceChange \<Rightarrow> ('s, 'h) apply_state \<Rightarrow> ('s, 'h) apply_state" where
  "attempt_action ty action f c s =
     (case f c s of
        (Inl msg, s') \<Rightarrow> add_outcome \<lparr>oc_ResourceType = ty, oc_Action = action, oc_Resource = rsc_Resource c, oc_Status = ApplyFailed, oc_Message = msg\<rparr> s'
      | (Inr _, s') \<Rightarrow> add_outcome \<lparr>oc_ResourceType = ty, oc_Action = action, oc_Resource = rsc_Resource c, oc_Status = StatusApplied, oc_Message = NoMessage\<rparr> s')"

definition noop_action :: "string \<Rightarrow> ResourceChange \<Rightarrow> ('s, 'h) apply_state \<Rightarrow> ('s, 'h) apply_state" where
  "noop_action ty c = add_outcome \<lparr>oc_ResourceType = ty, oc_Action = ''noop'', oc_Resource = rsc_Resource c, oc_Status = StatusNoop, oc_Message = NoMessage\<rparr>"

definition run_actions :: "'f apply_env \<Rightarrow> ('s, 'h) StateStore \<Rightarrow> Spec_v1 \<Rightarrow> PlanDocument \<Rightarrow> Deployment list \<Rightarrow> RegistryEntry list
    \<Rightarrow> ('s, 'h) apply_state \<Rightarrow> ('s, 'h) apply_state" where
  "run_actions env ss spec plan live entries s0 =
     (let desiredDeployments = gomap_of v1_Name (sp_Deployments spec);
          desiredRegistries = gomap_of v1r_Prefix (sp_Registries spec);
          liveByName = gomap_of d_Name live;
          ids = fold (\<lambda>en m. AList.update (re_Prefix en) (re_ID en) m) entries [];
          regs = ac_Registries (pl_Actions plan); deps = ac_Deployments (pl_Actions plan); host = ac_Host (pl_Actions plan);
          s1 = fold (noop_action ''registry'') (act_Noop regs) s0;
          s2 = fold (attempt_action ''registry'' ''create'' (create_registry env ss desiredRegistries)) (act_Create regs) s1;
          s3 = fold (attempt_action ''registry'' ''update'' (update_registry ss desiredRegistries ids)) (act_Update regs) s2;
          s4 = fold (noop_action ''deployment'') (act_Noop deps) s3;
          s5 = fold (attempt_action ''deployment'' ''create'' (create_deployment env ss desiredDeployments)) (act_Create deps) s4;
          s6 = fold (attempt_action ''deployment'' ''update'' (update_deployment env ss desiredDeployments liveByName)) (act_Update deps) s5;
          s7 = fold (noop_action ''host'') (ha_Noop host) s6;
          s8 = fold (attempt_action ''host'' ''update'' (update_host ss (sp_Host spec))) (ha_Update host) s7;
          s9 = fold (attempt_action ''deployment'' ''delete'' (delete_deployment ss liveByName)) (act_Delete deps) s8;
          s10 = fold (attempt_action ''registry'' ''delete'' (delete_registry ss ids)) (act_Delete regs) s9
      in s10)"

datatype apply_error = ApplyListDeployments store_error | ApplyListRegistries store_error | FailedActions nat

definition Execute :: "'f apply_env \<Rightarrow> ('s, 'h) StateStore \<Rightarrow> Spec_v1 \<Rightarrow> PlanDocument \<Rightarrow> 's \<times> 'h
    \<Rightarrow> (Result \<times> apply_error option) \<times> ('s \<times> 'h)" where
  "Execute env ss spec plan st =
     (let res0 = \<lparr>res_Fingerprint = pl_Fingerprint plan, res_Outcomes = [], res_Applied = 0, res_Noop = 0, res_Failed = 0, res_PartialFailed = False\<rparr> in
      case ss_List ss (fst st) of
        Inl err \<Rightarrow> ((res0, Some (ApplyListDeployments err)), st)
      | Inr live \<Rightarrow>
          (case ss_ListRegistries ss (fst st) of
             Inl err \<Rightarrow> ((res0, Some (ApplyListRegistries err)), st)
           | Inr entries \<Rightarrow>
               (let s = run_actions env ss spec plan live entries \<lparr>ap_store = fst st, ap_host = snd st, ap_next = 0, ap_result = res0\<rparr>;
                    res = ap_result s in
                if res_Failed res > 0
                then ((res\<lparr>res_PartialFailed := True\<rparr>, Some (FailedActions (res_Failed res))), (ap_store s, ap_host s))
                else ((res, None), (ap_store s, ap_host s)))))"

section \<open>The store behind the interface\<close>

text \<open>Every call of the JSON store meets the conditions of its moment, so the environment of a run is
  a sequence, and the state counts the calls that write.\<close>

definition on_call :: "(store_env \<Rightarrow> disk \<Rightarrow> 'r \<times> disk) \<Rightarrow> (nat \<Rightarrow> store_env) \<Rightarrow> disk \<times> nat \<Rightarrow> 'r \<times> (disk \<times> nat)" where
  "on_call f e s = (case f (e (snd s)) (fst s) of (r, dk) \<Rightarrow> (r, (dk, snd s + 1)))"

definition json_state_store :: "crypto \<Rightarrow> (nat \<Rightarrow> store_env) \<Rightarrow> host_env \<Rightarrow> (disk \<times> nat, host_disk) StateStore" where
  "json_state_store cr e he =
     \<lparr>ss_List = (\<lambda>s. JS_List (e (snd s)) (fst s)),
      ss_Create = (\<lambda>d. on_call (\<lambda>se. JS_Create se d) e),
      ss_Update = (\<lambda>d. on_call (\<lambda>se. JS_Update se d) e),
      ss_Delete = (\<lambda>k. on_call (\<lambda>se. JS_Delete se k) e),
      ss_ListRegistries = (\<lambda>s. JS_ListRegistries (e (snd s)) (fst s)),
      ss_CreateRegistry = (\<lambda>k p u w. on_call (\<lambda>se. JS_CreateRegistry cr se k p u w) e),
      ss_UpdateRegistry = (\<lambda>k p u w. on_call (\<lambda>se. JS_UpdateRegistry cr se k p u w) e),
      ss_DeleteRegistry = (\<lambda>k. on_call (\<lambda>se. JS_DeleteRegistry se k) e),
      hs_Update = HP_Update he\<rparr>"

lemma on_call_eq: "on_call f e s = (r, s') \<longleftrightarrow> f (e (snd s)) (fst s) = (r, fst s') \<and> snd s' = snd s + 1"
  by (cases s'; cases "f (e (snd s)) (fst s)") (auto simp: on_call_def)

interpretation cs: state_store "\<lambda>s. store_view (fst s)" "\<lambda>s. store_inv (fst s)" "\<lambda>e. \<forall>n. env_ok (e n)"
  "\<lambda>e s. JS_List (e (snd s)) (fst s)" "\<lambda>e k s. JS_Get (e (snd s)) k (fst s)"
  "\<lambda>e d. on_call (\<lambda>se. JS_Create se d) e" "\<lambda>e d. on_call (\<lambda>se. JS_Update se d) e"
  "\<lambda>e k d. on_call (\<lambda>se. JS_Patch se k d) e" "\<lambda>e k. on_call (\<lambda>se. JS_Delete se k) e"
  "\<lambda>e k p u w. on_call (\<lambda>se. JS_CreateRegistry cr se k p u w) e" "\<lambda>e k p u w. on_call (\<lambda>se. JS_UpdateRegistry cr se k p u w) e"
  "\<lambda>e k. on_call (\<lambda>se. JS_DeleteRegistry se k) e" for cr
  unfolding state_store_def deployment_store_def state_store_axioms_def on_call_eq
  by (intro conjI allI impI; (elim conjE)?)
    (blast dest: js.view_key js.view_stored js.list_Inr js.get_Inr js.get_NotFound js.create_Inr js.create_Inl js.update_Inr js.update_Inl
      js.patch_Inr js.patch_Inl js.delete_Inr js.delete_Inl jss.createRegistry_keeps jss.updateRegistry_keeps jss.deleteRegistry_keeps)+

section \<open>Counting outcomes\<close>

lemma appendOutcome_simps:
  "length (res_Outcomes (appendOutcome oc r)) = length (res_Outcomes r) + 1"
  "res_Applied (appendOutcome oc r) + res_Noop (appendOutcome oc r) + res_Failed (appendOutcome oc r) =
     res_Applied r + res_Noop r + res_Failed r + 1"
  "res_Failed (appendOutcome oc r) = res_Failed r + (if oc_Status oc = ApplyFailed then 1 else 0)"
  "res_Fingerprint (appendOutcome oc r) = res_Fingerprint r" "res_PartialFailed (appendOutcome oc r) = res_PartialFailed r"
  by (simp_all add: appendOutcome_def Let_def split: apply_status.split)

text \<open>Attempts leave the result alone; only their outcome is recorded.\<close>

definition quiet_attempt :: "('s, 'h) attempt \<Rightarrow> bool" where
  "quiet_attempt f \<longleftrightarrow> (\<forall>c s. ap_result (snd (f c s)) = ap_result s)"

lemma next_id_result: "ap_result (snd (next_id env s)) = ap_result s" "next_id env s = (k, s1) \<Longrightarrow> ap_result s1 = ap_result s"
  by (auto simp: next_id_def)

lemma on_store_result: "ap_result (snd (on_store f s)) = ap_result s"
  by (simp add: on_store_def split: prod.split sum.split)

lemma quiet_attempts:
  "quiet_attempt (create_registry env ss dr)"
  "quiet_attempt (update_registry ss dr ids)"
  "quiet_attempt (delete_registry ss ids)"
  "quiet_attempt (create_deployment env ss dd)"
  "quiet_attempt (update_deployment env ss dd lv)"
  "quiet_attempt (delete_deployment ss lv)"
  "quiet_attempt (update_host ss dh)"
proof -
  show "quiet_attempt (create_registry env ss dr)"
    by (simp add: quiet_attempt_def create_registry_def next_id_def on_store_result split: option.split)
  show "quiet_attempt (update_registry ss dr ids)"
    by (simp add: quiet_attempt_def update_registry_def next_id_def on_store_result split: option.split)
  show "quiet_attempt (delete_registry ss ids)"
    by (simp add: quiet_attempt_def delete_registry_def next_id_def on_store_result split: option.split)
  show "quiet_attempt (create_deployment env ss dd)"
    by (simp add: quiet_attempt_def create_deployment_def next_id_def on_store_result split: option.split sum.split)
  show "quiet_attempt (update_deployment env ss dd lv)"
    by (simp add: quiet_attempt_def update_deployment_def next_id_def on_store_result split: option.split sum.split)
  show "quiet_attempt (delete_deployment ss lv)"
    by (simp add: quiet_attempt_def delete_deployment_def next_id_def on_store_result split: option.split)
  show "quiet_attempt (update_host ss dh)"
    by (simp add: quiet_attempt_def update_host_def next_id_def on_store_result split: option.split prod.split sum.split)
qed

definition tally :: "('s, 'h) apply_state \<Rightarrow> nat \<times> nat \<times> nat" where
  "tally s = (length (res_Outcomes (ap_result s)),
     res_Applied (ap_result s) + res_Noop (ap_result s) + res_Failed (ap_result s), res_Failed (ap_result s))"

lemma add_outcome_tally:
  "tally (add_outcome oc s) = (fst (tally s) + 1, fst (snd (tally s)) + 1, snd (snd (tally s)) + (if oc_Status oc = ApplyFailed then 1 else 0))"
  by (cases "oc_Status oc") (simp_all add: tally_def add_outcome_def appendOutcome_def Let_def)

lemma attempt_tally:
  assumes "quiet_attempt f"
  shows "tally (attempt_action ty a f c s) =
    (fst (tally s) + 1, fst (snd (tally s)) + 1, snd (snd (tally s)) + (if isl (fst (f c s)) then 1 else 0))"
proof -
  have "tally (snd (f c s)) = tally s" using assms by (simp add: quiet_attempt_def tally_def)
  then show ?thesis
    by (cases "f c s"; cases "fst (f c s)") (auto simp: attempt_action_def add_outcome_tally)
qed

lemma fold_attempt_tally:
  assumes "quiet_attempt f"
  shows "\<exists>n. tally (fold (attempt_action ty a f) cs s) = (fst (tally s) + length cs, fst (snd (tally s)) + length cs, snd (snd (tally s)) + n)"
proof (induction cs arbitrary: s)
  case (Cons c cs)
  from Cons.IH[of "attempt_action ty a f c s"] obtain n where
    "tally (fold (attempt_action ty a f) cs (attempt_action ty a f c s)) = (fst (tally s) + 1 + length cs, fst (snd (tally s)) + 1 + length cs,
      snd (snd (tally s)) + (if isl (fst (f c s)) then 1 else 0) + n)"
    by (auto simp: attempt_tally[OF assms])
  then show ?case by (intro exI[of _ "(if isl (fst (f c s)) then 1 else 0) + n"]) (simp add: add.assoc)
qed (intro exI[of _ 0], simp)

lemma fold_noop_tally:
  "tally (fold (noop_action ty) cs s) = (fst (tally s) + length cs, fst (snd (tally s)) + length cs, snd (snd (tally s)))"
  by (induction cs arbitrary: s) (simp_all add: noop_action_def add_outcome_tally)

text \<open>The states between the phases of a run.\<close>

lemma run_actions_phases:
  obtains s1 s2 s3 s4 s5 s6 s7 s8 s9 where
    "s1 = fold (noop_action ''registry'') (act_Noop (ac_Registries (pl_Actions plan))) s0"
    "s2 = fold (attempt_action ''registry'' ''create'' (create_registry env ss (gomap_of v1r_Prefix (sp_Registries spec))))
            (act_Create (ac_Registries (pl_Actions plan))) s1"
    "s3 = fold (attempt_action ''registry'' ''update'' (update_registry ss (gomap_of v1r_Prefix (sp_Registries spec))
            (fold (\<lambda>en m. AList.update (re_Prefix en) (re_ID en) m) entries []))) (act_Update (ac_Registries (pl_Actions plan))) s2"
    "s4 = fold (noop_action ''deployment'') (act_Noop (ac_Deployments (pl_Actions plan))) s3"
    "s5 = fold (attempt_action ''deployment'' ''create'' (create_deployment env ss (gomap_of v1_Name (sp_Deployments spec))))
            (act_Create (ac_Deployments (pl_Actions plan))) s4"
    "s6 = fold (attempt_action ''deployment'' ''update'' (update_deployment env ss (gomap_of v1_Name (sp_Deployments spec)) (gomap_of d_Name live)))
            (act_Update (ac_Deployments (pl_Actions plan))) s5"
    "s7 = fold (noop_action ''host'') (ha_Noop (ac_Host (pl_Actions plan))) s6"
    "s8 = fold (attempt_action ''host'' ''update'' (update_host ss (sp_Host spec))) (ha_Update (ac_Host (pl_Actions plan))) s7"
    "s9 = fold (attempt_action ''deployment'' ''delete'' (delete_deployment ss (gomap_of d_Name live))) (act_Delete (ac_Deployments (pl_Actions plan))) s8"
    "run_actions env ss spec plan live entries s0 = fold (attempt_action ''registry'' ''delete'' (delete_registry ss
            (fold (\<lambda>en m. AList.update (re_Prefix en) (re_ID en) m) entries []))) (act_Delete (ac_Registries (pl_Actions plan))) s9"
  by (simp add: run_actions_def Let_def)

text \<open>The state has \<open>k\<close> more outcomes than \<open>s0\<close>, and no fewer failures.\<close>

definition tallied :: "('s, 'h) apply_state \<Rightarrow> nat \<Rightarrow> ('s, 'h) apply_state \<Rightarrow> bool" where
  "tallied s0 k s \<longleftrightarrow> fst (tally s) = fst (tally s0) + k \<and> fst (snd (tally s)) = fst (snd (tally s0)) + k \<and>
     snd (snd (tally s0)) \<le> snd (snd (tally s))"

lemma tallied_refl: "tallied s 0 s" by (simp add: tallied_def)

lemma tallied_attempts: "tallied s0 k s \<Longrightarrow> quiet_attempt f \<Longrightarrow> tallied s0 (k + length cs) (fold (attempt_action ty a f) cs s)"
  using fold_attempt_tally[of f ty a cs s] by (auto simp: tallied_def)

lemma tallied_noops: "tallied s0 k s \<Longrightarrow> tallied s0 (k + length cs) (fold (noop_action ty) cs s)"
  by (simp add: tallied_def fold_noop_tally)

section \<open>Runs without a failure\<close>

abbreviation failures :: "('s, 'h) apply_state \<Rightarrow> nat" where
  "failures s \<equiv> snd (snd (tally s))"

lemma failures_mono:
  assumes "quiet_attempt f"
  shows "failures s \<le> failures (fold (attempt_action ty a f) cs s)"
  using tallied_attempts[OF tallied_refl assms, of s cs ty a] by (simp add: tallied_def)

text \<open>When no attempt of a loop fails, an assertion that every successful attempt maintains holds at
  its end.\<close>

lemma fold_attempts_inv:
  assumes q: "quiet_attempt f"
    and none: "failures (fold (attempt_action ty a f) cs s) = failures s"
    and start: "I [] s"
    and step: "\<And>pre c suf s s'. cs = pre @ c # suf \<Longrightarrow> I pre s \<Longrightarrow> f c s = (Inr (), s') \<Longrightarrow> I (pre @ [c]) s'"
    and frame: "\<And>pre oc s. I pre s \<Longrightarrow> I pre (add_outcome oc s)"
  shows "I cs (fold (attempt_action ty a f) cs s)"
proof -
  have "I pre (fold (attempt_action ty a f) pre s)" if "cs = pre @ suf" for pre suf
    using that
  proof (induction pre arbitrary: suf rule: rev_induct)
    case (snoc c pre)
    let ?t = "fold (attempt_action ty a f) pre s"
    have ih: "I pre ?t" using snoc by simp
    have "failures (attempt_action ty a f c ?t) \<le> failures s"
      using failures_mono[OF q, of "attempt_action ty a f c ?t" ty a suf] none by (simp add: snoc.prems)
    moreover have "failures s \<le> failures ?t" by (rule failures_mono[OF q])
    ultimately have "\<not> isl (fst (f c ?t))" unfolding attempt_tally[OF q] by (auto split: if_splits)
    then obtain s' where s': "f c ?t = (Inr (), s')" by (cases "f c ?t"; cases "fst (f c ?t)") auto
    then have "fold (attempt_action ty a f) (pre @ [c]) s =
        add_outcome \<lparr>oc_ResourceType = ty, oc_Action = a, oc_Resource = rsc_Resource c, oc_Status = StatusApplied, oc_Message = NoMessage\<rparr> s'"
      by (simp add: attempt_action_def)
    with step[OF _ ih s'] snoc.prems frame show ?case by simp
  qed (simp add: start)
  from this[of cs "[]"] show ?thesis by simp
qed

lemma fold_noops_inv:
  assumes "I s" and "\<And>oc s. I s \<Longrightarrow> I (add_outcome oc s)"
  shows "I (fold (noop_action ty) cs s)"
  using assms(1) by (induction cs arbitrary: s) (simp_all add: noop_action_def assms(2))

subsection \<open>The store on its way to the document\<close>

text \<open>A stored deployment that is the translation of \<open>d\<close>, up to its status, and one that is the
  translation of the desired deployment of its name.\<close>

definition reflects :: "'f apply_env \<Rightarrow> Deployment_v1 \<Rightarrow> Deployment \<Rightarrow> bool" where
  "reflects env d x \<longleftrightarrow> (\<exists>y st rs er. deploymentFromDesired env d (d_ID x) = Inr y \<and>
     x = json_Deployment (y\<lparr>d_Status := st, d_Reason := rs, d_Error := er\<rparr>))"

definition settled :: "'f apply_env \<Rightarrow> Deployment_v1 gomap \<Rightarrow> Deployment \<Rightarrow> bool" where
  "settled env D x \<longleftrightarrow> (\<exists>d. map_of D (d_Name x) = Some d \<and> reflects env d x)"

text \<open>The names in \<open>C\<close> have been created or updated, those in \<open>R\<close> removed; all others are as in \<open>V0\<close>.\<close>

definition progress :: "'f apply_env \<Rightarrow> Deployment_v1 gomap \<Rightarrow> (string \<rightharpoonup> Deployment) \<Rightarrow> string set \<Rightarrow> string set \<Rightarrow> (string \<rightharpoonup> Deployment) \<Rightarrow> bool" where
  "progress env D V0 C R V \<longleftrightarrow>
     (\<forall>k x. d_Name x \<notin> C \<union> R \<longrightarrow> (V k = Some x \<longleftrightarrow> V0 k = Some x)) \<and>
     (\<forall>k x. V k = Some x \<longrightarrow> d_Name x \<notin> R \<and> (d_Name x \<in> C \<longrightarrow> settled env D x)) \<and>
     C \<subseteq> d_Name ` ran V \<and> names_unique V"

lemma progress_refl: "names_unique V \<Longrightarrow> progress env D V {} {} V"
  by (simp add: progress_def)

lemma ran_upd_fresh: "V k = None \<Longrightarrow> ran (V(k \<mapsto> z)) = insert z (ran V)"
  by (simp add: ran_map_upd)

lemma progress_create:
  assumes "progress env D V0 C R V" and "V k = None" and "V0 k = None" and "settled env D z"
    and "d_Name z \<notin> d_Name ` ran V" and "d_Name z \<notin> R"
  shows "progress env D V0 (insert (d_Name z) C) R (V(k \<mapsto> z))"
proof -
  have n: "V i = Some x \<Longrightarrow> d_Name x \<noteq> d_Name z" for i x using assms(5) by (metis imageI ranI)
  have "names_unique (V(k \<mapsto> z))"
    using assms(1) n unfolding progress_def names_unique_def by (metis fun_upd_apply option.inject)
  then show ?thesis
    using assms n unfolding progress_def ran_upd_fresh[of V k, OF assms(2)]
    by (auto split: if_splits)
qed

lemma progress_update:
  assumes "progress env D V0 C R V" and "V0 k = Some x0" and "d_Name x0 = d_Name z" and "settled env D z"
    and "d_Name z \<notin> C \<union> R"
  shows "progress env D V0 (insert (d_Name z) C) R (V(k \<mapsto> z))"
proof -
  have k: "V k = Some x0" using assms unfolding progress_def by metis
  have only: "V i = Some x \<Longrightarrow> d_Name x = d_Name z \<Longrightarrow> i = k" for i x
    using assms(1,3) k unfolding progress_def names_unique_def by metis
  have "names_unique (V(k \<mapsto> z))"
    using assms(1) only unfolding progress_def names_unique_def by (metis fun_upd_apply option.inject)
  moreover have "n \<in> d_Name ` ran (V(k \<mapsto> z))" if "n \<in> insert (d_Name z) C" for n
  proof (cases "n = d_Name z")
    case True
    then show ?thesis by (auto simp: ran_def)
  next
    case False
    with that assms(1) obtain i x where "V i = Some x" "d_Name x = n" by (auto simp: progress_def ran_def)
    moreover from this False k assms(3) have "i \<noteq> k" by auto
    ultimately have "(V(k \<mapsto> z)) i = Some x" by simp
    then have "x \<in> ran (V(k \<mapsto> z))" by (rule ranI)
    with \<open>d_Name x = n\<close> show ?thesis by blast
  qed
  moreover have "(V(k \<mapsto> z)) i = Some x \<longleftrightarrow> V0 i = Some x" if "d_Name x \<notin> insert (d_Name z) C \<union> R" for i x
    using that assms(1,2,3) unfolding progress_def by (cases "i = k") auto
  moreover have "d_Name x \<notin> R \<and> (d_Name x \<in> insert (d_Name z) C \<longrightarrow> settled env D x)" if "(V(k \<mapsto> z)) i = Some x" for i x
  proof (cases "i = k")
    case True
    with that assms(4,5) show ?thesis by simp
  next
    case False
    with that have "V i = Some x" by simp
    with False only[OF this] assms(1) show ?thesis unfolding progress_def by blast
  qed
  ultimately show ?thesis unfolding progress_def by blast
qed

lemma progress_delete:
  assumes "progress env D V0 C R V" and "V0 k = Some x0" and "d_Name x0 \<notin> C \<union> R"
  shows "progress env D V0 C (insert (d_Name x0) R) (V(k := None))"
proof -
  have k: "V k = Some x0" using assms unfolding progress_def by metis
  have only: "V i = Some x \<Longrightarrow> d_Name x = d_Name x0 \<Longrightarrow> i = k" for i x
    using assms(1) k unfolding progress_def names_unique_def by metis
  have "names_unique (V(k := None))"
    using assms(1) unfolding progress_def names_unique_def by (metis fun_upd_apply option.distinct(1))
  moreover have "C \<subseteq> d_Name ` ran (V(k := None))"
  proof
    fix n assume "n \<in> C"
    with assms(1) obtain i x where "V i = Some x" "d_Name x = n" by (auto simp: progress_def ran_def)
    moreover from this \<open>n \<in> C\<close> k assms(3) have "i \<noteq> k" by auto
    ultimately have "(V(k := None)) i = Some x" by simp
    then have "x \<in> ran (V(k := None))" by (rule ranI)
    with \<open>d_Name x = n\<close> show "n \<in> d_Name ` ran (V(k := None))" by blast
  qed
  moreover have "V0 i = Some x \<Longrightarrow> d_Name x \<noteq> d_Name x0 \<Longrightarrow> i \<noteq> k" for i x using assms(2) by auto
  ultimately show ?thesis
    using assms(1) only unfolding progress_def by (auto split: if_splits)
qed

text \<open>IDs that have been drawn, and the assumption on the random source: its IDs are new and do not
  repeat.\<close>

definition issued :: "'f apply_env \<Rightarrow> nat \<Rightarrow> string set" where
  "issued env n = {newID b |i b. i < n \<and> ay_random env i = Some b}"

definition fresh_ids :: "'f apply_env \<Rightarrow> (string \<rightharpoonup> Deployment) \<Rightarrow> bool" where
  "fresh_ids env V0 \<longleftrightarrow> (\<forall>i b. ay_random env i = Some b \<longrightarrow> newID b \<notin> dom V0) \<and>
     (\<forall>i j b c. ay_random env i = Some b \<longrightarrow> ay_random env j = Some c \<longrightarrow> newID b = newID c \<longrightarrow> i = j)"

lemma issued_mono: "m \<le> n \<Longrightarrow> issued env m \<subseteq> issued env n"
  unfolding issued_def by (blast intro: order_less_le_trans)

lemma issued_Suc: "ay_random env n = Some b \<Longrightarrow> insert (newID b) (issued env n) \<subseteq> issued env (n + 1)"
  unfolding issued_def by (auto intro: less_SucI)

lemma fresh_not_issued: "fresh_ids env V0 \<Longrightarrow> ay_random env n = Some b \<Longrightarrow> newID b \<notin> issued env n"
  unfolding fresh_ids_def issued_def by blast

definition on_track :: "'f apply_env \<Rightarrow> Deployment_v1 gomap \<Rightarrow> (string \<rightharpoonup> Deployment) \<Rightarrow> ('s \<Rightarrow> string \<rightharpoonup> Deployment) \<Rightarrow> ('s \<Rightarrow> bool)
    \<Rightarrow> string set \<Rightarrow> string set \<Rightarrow> ('s, 'h) apply_state \<Rightarrow> bool" where
  "on_track env D V0 view good C R s \<longleftrightarrow> good (ap_store s) \<and> progress env D V0 C R (view (ap_store s)) \<and>
     dom (view (ap_store s)) \<subseteq> dom V0 \<union> issued env (ap_next s)"

lemma on_track_outcome: "on_track env D V0 view good C R s \<Longrightarrow> on_track env D V0 view good C R (add_outcome oc s)"
  by (simp add: on_track_def add_outcome_def)

lemma noops_track: "on_track env D V0 view good C R s \<Longrightarrow> on_track env D V0 view good C R (fold (noop_action ty) cs s)"
  by (rule fold_noops_inv[where I = "on_track env D V0 view good C R"]) (simp_all add: on_track_outcome)

lemma on_store_Inr: "on_store f s = (Inr (), s') \<Longrightarrow> \<exists>r st. f (ap_store s) = (Inr r, st) \<and> s' = s\<lparr>ap_store := st\<rparr>"
  by (auto simp: on_store_def split: prod.splits sum.splits)

definition trimmed_names :: "Deployment_v1 gomap \<Rightarrow> bool" where
  "trimmed_names D \<longleftrightarrow> (\<forall>n d. map_of D n = Some d \<longrightarrow> v1_Name d = n \<and> TrimSpace n = n)"

lemma deploymentFromDesired_Inr:
  "deploymentFromDesired env d k = Inr y \<Longrightarrow> d_ID y = k \<and> d_Name y = TrimSpace (v1_Name d)"
  by (auto simp: deploymentFromDesired_def split: sum.splits)

lemma settled_intro:
  assumes "deploymentFromDesired env d k = Inr y" and "map_of D n = Some d" and "trimmed_names D"
    and z_def: "z = json_Deployment (y\<lparr>d_Status := st, d_Reason := rs, d_Error := er\<rparr>)"
  shows "settled env D z" "d_Name z = n" "d_ID z = k"
proof -
  have y: "d_ID y = k" "d_Name y = n"
    using deploymentFromDesired_Inr[OF assms(1)] assms(2,3) by (auto simp: trimmed_names_def)
  then show "d_Name z = n" "d_ID z = k" by (simp_all add: z_def)
  then show "settled env D z" using assms(1,2) unfolding settled_def reflects_def z_def by blast
qed

context state_store
begin

lemma create_deployment_track:
  assumes "ss_Create ss = create e" and "ok e" and "fresh_ids env V0" and "trimmed_names D"
    and "on_track env D V0 view inv C R s" and "create_deployment env ss D c s = (Inr (), s')" and "rsc_Resource c \<notin> R"
  shows "on_track env D V0 view inv (insert (rsc_Resource c) C) R s'"
proof -
  from assms(6) obtain d b y where d: "map_of D (rsc_Resource c) = Some d" and b: "ay_random env (ap_next s) = Some b"
    and y: "deploymentFromDesired env d (newID b) = Inr y"
    and on: "on_store (ss_Create ss (y\<lparr>d_Status := StatusDeploying\<rparr>)) (s\<lparr>ap_next := ap_next s + 1\<rparr>) = (Inr (), s')"
    by (auto simp: create_deployment_def next_id_def split: option.splits sum.splits)
  from on_store_Inr[OF on] obtain r st where cr: "create e (y\<lparr>d_Status := StatusDeploying\<rparr>) (ap_store s) = (Inr r, st)"
    and s': "s' = s\<lparr>ap_next := ap_next s + 1, ap_store := st\<rparr>" by (auto simp: assms(1))
  let ?z = "json_Deployment (y\<lparr>d_Status := StatusDeploying\<rparr>)"
  have "y\<lparr>d_Status := StatusDeploying\<rparr> = y\<lparr>d_Status := StatusDeploying, d_Reason := d_Reason y, d_Error := d_Error y\<rparr>" by simp
  with settled_intro[OF y d assms(4) refl] have z: "settled env D ?z" "d_Name ?z = rsc_Resource c" "d_ID ?z = newID b" by metis+
  have inv: "inv (ap_store s)" and pr: "progress env D V0 C R (view (ap_store s))"
    and dom: "dom (view (ap_store s)) \<subseteq> dom V0 \<union> issued env (ap_next s)"
    using assms(5) by (simp_all add: on_track_def)
  have V: "view st = (view (ap_store s))(newID b \<mapsto> ?z)" "inv st" "d_Name ?z \<notin> d_Name ` ran (view (ap_store s))"
    using create_Inr[OF assms(2) inv cr] z by simp_all
  have new: "newID b \<notin> dom V0" using assms(3) b by (auto simp: fresh_ids_def)
  then have "newID b \<notin> dom (view (ap_store s))" using dom fresh_not_issued[OF assms(3) b] by blast
  then have "progress env D V0 (insert (d_Name ?z) C) R (view st)"
    unfolding V(1) by (intro progress_create[OF pr _ _ z(1) V(3)]) (use new assms(7) z(2) in auto)
  moreover have "insert (newID b) (issued env (ap_next s)) \<subseteq> issued env (ap_next s + 1)"
    by (rule issued_Suc[OF b])
  ultimately show ?thesis using V(2) dom unfolding on_track_def s' z(2) by (auto simp: V(1))
qed

lemma update_deployment_track:
  assumes "ss_Update ss = update e" and "ok e" and "trimmed_names D" and "\<And>n x. map_of L n = Some x \<Longrightarrow> d_Name x = n \<and> V0 (d_ID x) = Some x"
    and "on_track env D V0 view inv C R s" and "update_deployment env ss D L c s = (Inr (), s')" and "rsc_Resource c \<notin> C \<union> R"
  shows "on_track env D V0 view inv (insert (rsc_Resource c) C) R s'"
proof -
  from assms(6) obtain d x0 y where d: "map_of D (rsc_Resource c) = Some d" and x0: "map_of L (rsc_Resource c) = Some x0"
    and y: "deploymentFromDesired env d (d_ID x0) = Inr y"
    and on: "on_store (ss_Update ss (updated_deployment c x0 y)) s = (Inr (), s')"
    by (auto simp: update_deployment_def split: option.splits sum.splits)
  from on_store_Inr[OF on] obtain r st where up: "update e (updated_deployment c x0 y) (ap_store s) = (Inr r, st)"
    and s': "s' = s\<lparr>ap_store := st\<rparr>" by (auto simp: assms(1))
  let ?z = "json_Deployment (updated_deployment c x0 y)"
  have z: "settled env D ?z" "d_Name ?z = rsc_Resource c" "d_ID ?z = d_ID x0"
    using settled_intro[OF y d assms(3) refl] by (simp_all add: updated_deployment_def)
  have inv: "inv (ap_store s)" and pr: "progress env D V0 C R (view (ap_store s))"
    and dom: "dom (view (ap_store s)) \<subseteq> dom V0 \<union> issued env (ap_next s)"
    using assms(5) by (simp_all add: on_track_def)
  have V: "view st = (view (ap_store s))(d_ID x0 \<mapsto> ?z)" "inv st" "d_ID x0 \<in> dom (view (ap_store s))"
    using update_Inr[OF assms(2) inv up] z by simp_all
  have "progress env D V0 (insert (d_Name ?z) C) R (view st)"
    unfolding V(1) using assms(4)[OF x0] z assms(7) by (intro progress_update[OF pr _ _ z(1), of "d_ID x0" x0]) simp_all
  then show ?thesis using V dom unfolding on_track_def s' z(2) by auto
qed

lemma delete_deployment_track:
  assumes "ss_Delete ss = delete e" and "ok e" and "\<And>n x. map_of L n = Some x \<Longrightarrow> d_Name x = n \<and> V0 (d_ID x) = Some x"
    and "on_track env D V0 view inv C R s" and "delete_deployment ss L c s = (Inr (), s')" and "rsc_Resource c \<notin> C \<union> R"
  shows "on_track env D V0 view inv C (insert (rsc_Resource c) R) s'"
proof -
  from assms(5) obtain x0 where x0: "map_of L (rsc_Resource c) = Some x0" and on: "on_store (ss_Delete ss (d_ID x0)) s = (Inr (), s')"
    by (auto simp: delete_deployment_def split: option.splits)
  from on_store_Inr[OF on] obtain r st where de: "delete e (d_ID x0) (ap_store s) = (Inr r, st)"
    and s': "s' = s\<lparr>ap_store := st\<rparr>" by (auto simp: assms(1))
  have inv: "inv (ap_store s)" and pr: "progress env D V0 C R (view (ap_store s))"
    and dom: "dom (view (ap_store s)) \<subseteq> dom V0 \<union> issued env (ap_next s)"
    using assms(4) by (simp_all add: on_track_def)
  have V: "view st = (view (ap_store s))(d_ID x0 := None)" "inv st"
    using delete_Inr[OF assms(2) inv de] by simp_all
  have x: "d_Name x0 = rsc_Resource c" "V0 (d_ID x0) = Some x0" using assms(3)[OF x0] by simp_all
  have "progress env D V0 C (insert (d_Name x0) R) (view st)"
    unfolding V(1) using assms(6) x by (intro progress_delete[OF pr]) simp_all
  then show ?thesis using V dom unfolding on_track_def s' x(1) by auto
qed

text \<open>Whole phases: a loop that records no failure handles every name of its actions.\<close>

lemma creates_track:
  assumes "ss_Create ss = create e" and "ok e" and "fresh_ids env V0" and "trimmed_names D" and "on_track env D V0 view inv C R s"
    and "failures (fold (attempt_action ty a (create_deployment env ss D)) cs s) = failures s" and "rsc_Resource ` set cs \<inter> R = {}"
  shows "on_track env D V0 view inv (C \<union> rsc_Resource ` set cs) R (fold (attempt_action ty a (create_deployment env ss D)) cs s)"
proof (rule fold_attempts_inv[OF quiet_attempts(4) assms(6), where I = "\<lambda>pre. on_track env D V0 view inv (C \<union> rsc_Resource ` set pre) R"])
  fix pre c suf s s' assume "cs = pre @ c # suf" "on_track env D V0 view inv (C \<union> rsc_Resource ` set pre) R s"
    "create_deployment env ss D c s = (Inr (), s')"
  with create_deployment_track[OF assms(1-4), of "C \<union> rsc_Resource ` set pre" R s c s'] assms(7)
  show "on_track env D V0 view inv (C \<union> rsc_Resource ` set (pre @ [c])) R s'" by auto
qed (simp_all add: assms(5) on_track_outcome)

lemma updates_track:
  assumes "ss_Update ss = update e" and "ok e" and "trimmed_names D"
    and "\<And>n x. map_of L n = Some x \<Longrightarrow> d_Name x = n \<and> V0 (d_ID x) = Some x" and "on_track env D V0 view inv C R s"
    and "failures (fold (attempt_action ty a (update_deployment env ss D L)) cs s) = failures s"
    and "rsc_Resource ` set cs \<inter> (C \<union> R) = {}" and "distinct (map rsc_Resource cs)"
  shows "on_track env D V0 view inv (C \<union> rsc_Resource ` set cs) R (fold (attempt_action ty a (update_deployment env ss D L)) cs s)"
proof (rule fold_attempts_inv[OF quiet_attempts(5) assms(6), where I = "\<lambda>pre. on_track env D V0 view inv (C \<union> rsc_Resource ` set pre) R"])
  fix pre c suf s s' assume a: "cs = pre @ c # suf" "on_track env D V0 view inv (C \<union> rsc_Resource ` set pre) R s"
    "update_deployment env ss D L c s = (Inr (), s')"
  then have "rsc_Resource c \<notin> C \<union> rsc_Resource ` set pre \<union> R" using assms(7,8) by auto
  with update_deployment_track[OF assms(1-4) a(2,3)]
  show "on_track env D V0 view inv (C \<union> rsc_Resource ` set (pre @ [c])) R s'" by simp
qed (simp_all add: assms(5) on_track_outcome)

lemma deletes_track:
  assumes "ss_Delete ss = delete e" and "ok e"
    and "\<And>n x. map_of L n = Some x \<Longrightarrow> d_Name x = n \<and> V0 (d_ID x) = Some x" and "on_track env D V0 view inv C R s"
    and "failures (fold (attempt_action ty a (delete_deployment ss L)) cs s) = failures s"
    and "rsc_Resource ` set cs \<inter> (C \<union> R) = {}" and "distinct (map rsc_Resource cs)"
  shows "on_track env D V0 view inv C (R \<union> rsc_Resource ` set cs) (fold (attempt_action ty a (delete_deployment ss L)) cs s)"
proof (rule fold_attempts_inv[OF quiet_attempts(6) assms(5), where I = "\<lambda>pre. on_track env D V0 view inv C (R \<union> rsc_Resource ` set pre)"])
  fix pre c suf s s' assume a: "cs = pre @ c # suf" "on_track env D V0 view inv C (R \<union> rsc_Resource ` set pre) s"
    "delete_deployment ss L c s = (Inr (), s')"
  then have "rsc_Resource c \<notin> C \<union> (R \<union> rsc_Resource ` set pre)" using assms(6,7) by auto
  with delete_deployment_track[OF assms(1-3) a(2,3)]
  show "on_track env D V0 view inv C (R \<union> rsc_Resource ` set (pre @ [c])) s'" by simp
qed (simp_all add: assms(4) on_track_outcome)

text \<open>The other loops leave the deployments alone, whether or not their attempts succeed.\<close>

definition keeps_track :: "('s, 'h) attempt \<Rightarrow> bool" where
  "keeps_track f \<longleftrightarrow> (\<forall>c s. (inv (ap_store s) \<longrightarrow> inv (ap_store (snd (f c s))) \<and> view (ap_store (snd (f c s))) = view (ap_store s)) \<and>
     ap_next s \<le> ap_next (snd (f c s)))"

lemma keeps_track_fold:
  assumes "keeps_track f" and "on_track env D V0 view inv C R s"
  shows "on_track env D V0 view inv C R (fold (attempt_action ty a f) cs s)"
  using assms(2)
proof (induction cs arbitrary: s)
  case (Cons c cs)
  have "on_track env D V0 view inv C R (snd (f c s))"
    using Cons.prems assms(1) issued_mono[of "ap_next s" "ap_next (snd (f c s))" env] unfolding on_track_def keeps_track_def by fastforce
  then have "on_track env D V0 view inv C R (attempt_action ty a f c s)"
    by (cases "f c s"; cases "fst (f c s)") (auto simp: attempt_action_def on_track_outcome)
  with Cons.IH show ?case by simp
qed simp

lemma keeps_track_attempts:
  "ss_CreateRegistry ss = createRegistry e \<Longrightarrow> keeps_track (create_registry env ss dr)"
  "ss_UpdateRegistry ss = updateRegistry e' \<Longrightarrow> keeps_track (update_registry ss dr ids)"
  "ss_DeleteRegistry ss = deleteRegistry e'' \<Longrightarrow> keeps_track (delete_registry ss ids)"
  "keeps_track (update_host ss dh)"
proof -
  show "keeps_track (create_registry env ss dr)" if "ss_CreateRegistry ss = createRegistry e"
    using that createRegistry_keeps
    by (simp add: keeps_track_def create_registry_def next_id_def on_store_def split: option.split prod.split sum.split)
  show "keeps_track (update_registry ss dr ids)" if "ss_UpdateRegistry ss = updateRegistry e'"
    using that updateRegistry_keeps
    by (simp add: keeps_track_def update_registry_def on_store_def split: option.split prod.split sum.split)
  show "keeps_track (delete_registry ss ids)" if "ss_DeleteRegistry ss = deleteRegistry e''"
    using that deleteRegistry_keeps
    by (simp add: keeps_track_def delete_registry_def on_store_def split: option.split prod.split sum.split)
  show "keeps_track (update_host ss dh)"
    by (simp add: keeps_track_def update_host_def split: option.split prod.split sum.split)
qed

lemma run_actions_track:
  fixes plan live
  defines "deps \<equiv> ac_Deployments (pl_Actions plan)"
  assumes ops: "ss_Create ss = create e1" "ss_Update ss = update e2" "ss_Delete ss = delete e3" "ss_CreateRegistry ss = createRegistry e4"
      "ss_UpdateRegistry ss = updateRegistry e5" "ss_DeleteRegistry ss = deleteRegistry e6"
    and oks: "ok e1" "ok e2" "ok e3"
    and D: "D = gomap_of v1_Name (sp_Deployments spec)" and fresh: "fresh_ids env V0" and trim: "trimmed_names D"
    and L: "\<And>n x. map_of (gomap_of d_Name live) n = Some x \<Longrightarrow> d_Name x = n \<and> V0 (d_ID x) = Some x"
    and start: "on_track env D V0 view inv {} {} s0"
    and none: "failures (run_actions env ss spec plan live entries s0) = failures s0"
    and upd: "rsc_Resource ` set (act_Update deps) \<inter> rsc_Resource ` set (act_Create deps) = {}" "distinct (map rsc_Resource (act_Update deps))"
    and del: "rsc_Resource ` set (act_Delete deps) \<inter> (rsc_Resource ` set (act_Create deps) \<union> rsc_Resource ` set (act_Update deps)) = {}"
      "distinct (map rsc_Resource (act_Delete deps))"
  shows "on_track env D V0 view inv (rsc_Resource ` set (act_Create deps) \<union> rsc_Resource ` set (act_Update deps))
    (rsc_Resource ` set (act_Delete deps)) (run_actions env ss spec plan live entries s0)"
proof -
  obtain s1 s2 s3 s4 s5 s6 s7 s8 s9 where ph:
    "s1 = fold (noop_action ''registry'') (act_Noop (ac_Registries (pl_Actions plan))) s0"
    "s2 = fold (attempt_action ''registry'' ''create'' (create_registry env ss (gomap_of v1r_Prefix (sp_Registries spec))))
            (act_Create (ac_Registries (pl_Actions plan))) s1"
    "s3 = fold (attempt_action ''registry'' ''update'' (update_registry ss (gomap_of v1r_Prefix (sp_Registries spec))
            (fold (\<lambda>en m. AList.update (re_Prefix en) (re_ID en) m) entries []))) (act_Update (ac_Registries (pl_Actions plan))) s2"
    "s4 = fold (noop_action ''deployment'') (act_Noop (ac_Deployments (pl_Actions plan))) s3"
    "s5 = fold (attempt_action ''deployment'' ''create'' (create_deployment env ss (gomap_of v1_Name (sp_Deployments spec))))
            (act_Create (ac_Deployments (pl_Actions plan))) s4"
    "s6 = fold (attempt_action ''deployment'' ''update'' (update_deployment env ss (gomap_of v1_Name (sp_Deployments spec)) (gomap_of d_Name live)))
            (act_Update (ac_Deployments (pl_Actions plan))) s5"
    "s7 = fold (noop_action ''host'') (ha_Noop (ac_Host (pl_Actions plan))) s6"
    "s8 = fold (attempt_action ''host'' ''update'' (update_host ss (sp_Host spec))) (ha_Update (ac_Host (pl_Actions plan))) s7"
    "s9 = fold (attempt_action ''deployment'' ''delete'' (delete_deployment ss (gomap_of d_Name live))) (act_Delete (ac_Deployments (pl_Actions plan))) s8"
    and run: "run_actions env ss spec plan live entries s0 = fold (attempt_action ''registry'' ''delete'' (delete_registry ss
            (fold (\<lambda>en m. AList.update (re_Prefix en) (re_ID en) m) entries []))) (act_Delete (ac_Registries (pl_Actions plan))) s9"
    by (rule run_actions_phases)
  note mono = failures_mono[OF quiet_attempts(1)] failures_mono[OF quiet_attempts(2)] failures_mono[OF quiet_attempts(3)]
    failures_mono[OF quiet_attempts(4)] failures_mono[OF quiet_attempts(5)] failures_mono[OF quiet_attempts(6)] failures_mono[OF quiet_attempts(7)]
  have "failures s0 = failures s1" "failures s3 = failures s4" "failures s6 = failures s7"
    unfolding ph(1) ph(4) ph(7) by (simp_all add: fold_noop_tally)
  moreover have "failures s1 \<le> failures s2" unfolding ph(2) by (rule mono)
  moreover have "failures s2 \<le> failures s3" unfolding ph(3) by (rule mono)
  moreover have "failures s4 \<le> failures s5" unfolding ph(5) by (rule mono)
  moreover have "failures s5 \<le> failures s6" unfolding ph(6) by (rule mono)
  moreover have "failures s7 \<le> failures s8" unfolding ph(8) by (rule mono)
  moreover have "failures s8 \<le> failures s9" unfolding ph(9) by (rule mono)
  moreover have "failures s9 \<le> failures s0" unfolding none[symmetric] run by (rule mono)
  ultimately have f: "failures s5 = failures s4" "failures s6 = failures s5" "failures s9 = failures s8" by linarith+
  have "on_track env D V0 view inv {} {} s1" unfolding ph(1) by (rule noops_track[OF start])
  then have "on_track env D V0 view inv {} {} s2" unfolding ph(2) by (rule keeps_track_fold[OF keeps_track_attempts(1)[OF ops(4)]])
  then have "on_track env D V0 view inv {} {} s3" unfolding ph(3) by (rule keeps_track_fold[OF keeps_track_attempts(2)[OF ops(5)]])
  then have "on_track env D V0 view inv {} {} s4" unfolding ph(4) by (rule noops_track)
  from creates_track[OF ops(1) oks(1) fresh trim this, of "''deployment''" "''create''" "act_Create deps"] f(1)
  have "on_track env D V0 view inv (rsc_Resource ` set (act_Create deps)) {} s5" by (simp add: ph(5) deps_def D)
  from updates_track[OF ops(2) oks(2) trim L this, of "gomap_of d_Name live" "''deployment''" "''update''" "act_Update deps"] f(2) upd
  have "on_track env D V0 view inv (rsc_Resource ` set (act_Create deps) \<union> rsc_Resource ` set (act_Update deps)) {} s6"
    by (simp add: ph(6) deps_def D)
  then have "on_track env D V0 view inv (rsc_Resource ` set (act_Create deps) \<union> rsc_Resource ` set (act_Update deps)) {} s7"
    unfolding ph(7) by (rule noops_track)
  then have "on_track env D V0 view inv (rsc_Resource ` set (act_Create deps) \<union> rsc_Resource ` set (act_Update deps)) {} s8"
    unfolding ph(8) by (rule keeps_track_fold[OF keeps_track_attempts(4)])
  from deletes_track[OF ops(3) oks(3) L this, of "gomap_of d_Name live" "''deployment''" "''delete''" "act_Delete deps"] f(3) del
  have "on_track env D V0 view inv (rsc_Resource ` set (act_Create deps) \<union> rsc_Resource ` set (act_Update deps)) (rsc_Resource ` set (act_Delete deps)) s9"
    by (simp add: ph(9) deps_def)
  then show ?thesis unfolding run by (rule keeps_track_fold[OF keeps_track_attempts(3)[OF ops(6)]])
qed

end

section \<open>Executing a plan of two documents\<close>

lemma Execute_None:
  assumes "Execute env ss spec plan st = ((res, None), st')"
  obtains live entries s where "ss_List ss (fst st) = Inr live"
    "s = run_actions env ss spec plan live entries \<lparr>ap_store = fst st, ap_host = snd st, ap_next = 0, ap_result =
       \<lparr>res_Fingerprint = pl_Fingerprint plan, res_Outcomes = [], res_Applied = 0, res_Noop = 0, res_Failed = 0, res_PartialFailed = False\<rparr>\<rparr>"
    "st' = (ap_store s, ap_host s)" "failures s = 0" "res = ap_result s"
  using assms by (auto simp: Execute_def Let_def tally_def split: sum.splits if_splits)

text \<open>The deployment actions of a plan that \<open>Build\<close> made of two valid documents.\<close>

lemma Build_deployments:
  assumes "plan_env_ok e" and "valid_document want" and "valid_document live"
    and "doc_Spec want = Some D" and "doc_Spec live = Some L" and "Build e want live = Inr plan"
  defines "a \<equiv> ac_Deployments (pl_Actions plan)"
  shows "describes v1_Name diffDeployment (map (canon e) (sp_Deployments D)) (map (canon e) (sp_Deployments L)) a"
    "distinct (map rsc_Resource (act_Update a))" "distinct (map rsc_Resource (act_Delete a))"
    "rsc_Resource ` set (act_Update a) \<subseteq> v1_Name ` set (sp_Deployments D) \<inter> v1_Name ` set (sp_Deployments L)"
proof -
  obtain ds rs where d: "doc_Spec (Canonicalize (config_env.truncate e) want) = Some \<lparr>sp_Deployments = ds, sp_Registries = rs, sp_Host = sp_Host D\<rparr>"
    "mset ds = mset (map (canon e) (sp_Deployments D))" "distinct (map v1_Name ds)"
    using canonical_spec[OF assms(1,2,4)] by blast
  obtain ls qs where l: "doc_Spec (Canonicalize (config_env.truncate e) live) = Some \<lparr>sp_Deployments = ls, sp_Registries = qs, sp_Host = sp_Host L\<rparr>"
    "mset ls = mset (map (canon e) (sp_Deployments L))" "distinct (map v1_Name ls)"
    using canonical_spec[OF assms(1,3,5)] by blast
  let ?p = "plan_specs e \<lparr>sp_Deployments = ds, sp_Registries = rs, sp_Host = sp_Host D\<rparr> \<lparr>sp_Deployments = ls, sp_Registries = qs, sp_Host = sp_Host L\<rparr>"
  let ?r = "plan_resources diffDeployment (gomap_of v1_Name ds) (gomap_of v1_Name ls)"
  from Build_Inr[OF assms(6)] have "pl_Actions plan = pl_Actions ?p"
    unfolding d(1) l(1) option.sel by (metis PlanDocument.select_convs PlanDocument.surjective PlanDocument.update_convs(3))
  then have a: "a = ResourceActions.truncate ?r" by (simp add: a_def plan_specs_parts)
  show "describes v1_Name diffDeployment (map (canon e) (sp_Deployments D)) (map (canon e) (sp_Deployments L)) a"
    unfolding a by (rule describes_perm[OF plan_describes[OF d(3) l(3)] d(2) l(2)])
  show "distinct (map rsc_Resource (act_Update a))" "distinct (map rsc_Resource (act_Delete a))"
    using plan_resources_distinct(2,3)[OF gomap_of_distinct gomap_of_distinct, of diffDeployment v1_Name ds v1_Name ls]
    by (simp_all add: a ResourceActions.defs)
  have names: "v1_Name ` set ds = v1_Name ` set (sp_Deployments D)" "v1_Name ` set ls = v1_Name ` set (sp_Deployments L)"
    using mset_eq_setD[OF d(2)] mset_eq_setD[OF l(2)] by (simp_all add: image_image)
  have "rsc_Resource ` set (act_Update a) = set (updated diffDeployment (gomap_of v1_Name ds) (gomap_of v1_Name ls))"
    by (simp add: a ResourceActions.defs plan_resources_spec change_def image_image)
  also have "\<dots> \<subseteq> v1_Name ` set ds \<inter> v1_Name ` set ls"
    unfolding updated_def map_of_None_keys gomap_of_keys by (auto simp del: set_map)
  finally have "rsc_Resource ` set (act_Update a) \<subseteq> v1_Name ` set ds \<inter> v1_Name ` set ls" .
  then show "rsc_Resource ` set (act_Update a) \<subseteq> v1_Name ` set (sp_Deployments D) \<inter> v1_Name ` set (sp_Deployments L)"
    by (simp only: names)
qed

lemma describes_handled:
  assumes "describes key diff xs ys a" and "x \<in> set xs" and "y \<in> set ys" and "key x = key y" and "key x \<notin> rsc_Resource ` set (act_Update a)"
  shows "diff y x = []"
proof (rule ccontr)
  assume "diff y x \<noteq> []"
  with assms(1-4) have "change (key x) (diff y x) \<in> set (act_Update a)" unfolding describes_def by metis
  then have "rsc_Resource (change (key x) (diff y x)) \<in> rsc_Resource ` set (act_Update a)" by (rule imageI)
  with assms(5) show False by (simp add: change_def)
qed

text \<open>What a successful run leaves in the store.\<close>

definition reached :: "'f apply_env \<Rightarrow> (Deployment \<Rightarrow> Deployment_v1 \<Rightarrow> bool) \<Rightarrow> Spec_v1 \<Rightarrow> (string \<rightharpoonup> Deployment) \<Rightarrow> (string \<rightharpoonup> Deployment) \<Rightarrow> bool" where
  "reached env same D V0 V \<longleftrightarrow> names_unique V \<and> d_Name ` ran V = v1_Name ` set (sp_Deployments D) \<and>
     (\<forall>x \<in> ran V. \<exists>d \<in> set (sp_Deployments D). v1_Name d = d_Name x \<and> (reflects env d x \<or> x \<in> ran V0 \<and> same x d))"

lemma ranE: "x \<in> ran V \<Longrightarrow> (\<And>k. V k = Some x \<Longrightarrow> thesis) \<Longrightarrow> thesis"
  by (auto simp: ran_def)

lemma progress_reached:
  assumes "progress env (gomap_of v1_Name (sp_Deployments D)) V0 C R V"
    and "C \<subseteq> v1_Name ` set (sp_Deployments D)" and "R = d_Name ` ran V0 - v1_Name ` set (sp_Deployments D)"
    and "v1_Name ` set (sp_Deployments D) \<subseteq> C \<union> d_Name ` ran V0"
    and "\<And>x d. x \<in> ran V0 \<Longrightarrow> d \<in> set (sp_Deployments D) \<Longrightarrow> v1_Name d = d_Name x \<Longrightarrow> d_Name x \<notin> C \<Longrightarrow> same x d"
  shows "reached env same D V0 V"
proof -
  let ?N = "v1_Name ` set (sp_Deployments D)"
  have keep: "d_Name x \<notin> C \<union> R \<Longrightarrow> V k = Some x \<longleftrightarrow> V0 k = Some x" for k x using assms(1) unfolding progress_def by blast
  have fin: "V k = Some x \<Longrightarrow> d_Name x \<notin> R" "V k = Some x \<Longrightarrow> d_Name x \<in> C \<Longrightarrow> settled env (gomap_of v1_Name (sp_Deployments D)) x" for k x
    using assms(1) unfolding progress_def by blast+
  have "n \<in> d_Name ` ran V" if "n \<in> ?N" for n
  proof (cases "n \<in> C")
    case True
    then show ?thesis using assms(1) unfolding progress_def by blast
  next
    case False
    with that assms(4) obtain k x where "V0 k = Some x" "d_Name x = n" by (auto simp: ran_def)
    moreover from this False that assms(3) have "d_Name x \<notin> C \<union> R" by blast
    ultimately have "V k = Some x" using keep by blast
    with \<open>d_Name x = n\<close> show ?thesis by (auto simp: ran_def)
  qed
  moreover have "\<exists>d \<in> set (sp_Deployments D). v1_Name d = d_Name x \<and> (reflects env d x \<or> x \<in> ran V0 \<and> same x d)" if "V k = Some x" for k x
  proof (cases "d_Name x \<in> C")
    case True
    from fin(2)[OF that this] show ?thesis unfolding settled_def using gomap_of_key map_of_SomeD by metis
  next
    case False
    with fin(1)[OF that] keep[of x k] that have v0: "V0 k = Some x" by blast
    then have r: "x \<in> ran V0" by (rule ranI)
    with fin(1)[OF that] assms(3) have "d_Name x \<in> ?N" by blast
    with assms(5)[OF r _ _ False] r show ?thesis by auto
  qed
  moreover from this have "d_Name x \<in> ?N" if "V k = Some x" for k x using that by (metis imageI)
  ultimately have "d_Name ` ran V = ?N"
    and "\<forall>x \<in> ran V. \<exists>d \<in> set (sp_Deployments D). v1_Name d = d_Name x \<and> (reflects env d x \<or> x \<in> ran V0 \<and> same x d)"
    by (blast elim: ranE)+
  then show ?thesis using assms(1) unfolding reached_def progress_def by blast
qed

lemma Execute_reaches:
  assumes "plan_env_ok pe" and "valid_document want" and "valid_document live" and "doc_Spec want = Some D" and "doc_Spec live = Some L"
    and build: "Build pe want live = Inr plan"
    and shown: "sp_Deployments L = map (export_deployment os) ds" "set ds = ran (store_view dk)" "distinct (map d_ID ds)"
    and "\<forall>n. env_ok (es n)" and "store_inv dk" and "fresh_ids env (store_view dk)"
    and trim: "\<forall>d \<in> set (sp_Deployments D). TrimSpace (v1_Name d) = v1_Name d"
    and ex: "Execute env (json_state_store cr es he) D plan ((dk, n0), hdk) = ((res, None), ((dk', n1), hdk'))"
  shows "store_inv dk' \<and> reached env (\<lambda>x d. diffDeployment (canon pe (export_deployment os x)) (canon pe d) = []) D (store_view dk) (store_view dk')"
proof -
  let ?V0 = "store_view dk" and ?a = "ac_Deployments (pl_Actions plan)" and ?M = "gomap_of v1_Name (sp_Deployments D)"
  let ?ss = "json_state_store cr es he"
  note b = Build_deployments[OF assms(1-6)]
  obtain lv entries s where lv: "ss_List ?ss (dk, n0) = Inr lv"
    and s: "s = run_actions env ?ss D plan lv entries \<lparr>ap_store = (dk, n0), ap_host = hdk, ap_next = 0, ap_result =
       \<lparr>res_Fingerprint = pl_Fingerprint plan, res_Outcomes = [], res_Applied = 0, res_Noop = 0, res_Failed = 0, res_PartialFailed = False\<rparr>\<rparr>"
    (is "_ = run_actions _ _ _ _ _ _ ?s0")
    and fin: "((dk', n1), hdk') = (ap_store s, ap_host s)" and none: "failures s = 0"
    using Execute_None[OF ex] by (metis fst_conv snd_conv)
  have names: "v1_Name ` set (sp_Deployments L) = d_Name ` ran ?V0"
    by (simp add: shown(1) shown(2)[symmetric] image_image export_deployment_def)
  have "distinct (map v1_Name (sp_Deployments L))" using assms(3,5) by (auto simp: valid_document_def valid_spec_v1_def keys_ok_def)
  then have "distinct (map d_Name ds)" by (simp add: shown(1) comp_def export_deployment_def)
  then have uniq: "names_unique ?V0"
    using shown(2) js.view_key unfolding names_unique_def distinct_map inj_on_def by (metis ranI)
  have sets: "rsc_Resource ` set (act_Create ?a) = v1_Name ` set (sp_Deployments D) - d_Name ` ran ?V0"
    "rsc_Resource ` set (act_Delete ?a) = d_Name ` ran ?V0 - v1_Name ` set (sp_Deployments D)"
    using b(1) names by (simp_all add: describes_def image_image)
  have upd: "rsc_Resource ` set (act_Update ?a) \<subseteq> v1_Name ` set (sp_Deployments D) \<inter> d_Name ` ran ?V0" using b(4) names by simp
  have "trimmed_names ?M" unfolding trimmed_names_def using trim gomap_of_key map_of_SomeD by metis
  moreover have "d_Name x = n \<and> ?V0 (d_ID x) = Some x" if "map_of (gomap_of d_Name lv) n = Some x" for n x
    using gomap_of_key[OF map_of_SomeD[OF that]] cs.list_lookup[OF assms(10), of "(dk, n0)" lv x] lv by (auto simp: json_state_store_def)
  moreover have "on_track env ?M ?V0 (\<lambda>s. store_view (fst s)) (\<lambda>s. store_inv (fst s)) {} {} ?s0"
    using assms(11) uniq by (auto simp: on_track_def progress_refl)
  moreover have "failures (run_actions env ?ss D plan lv entries ?s0) = failures ?s0" using none s by (simp add: tally_def)
  ultimately have "on_track env ?M ?V0 (\<lambda>s. store_view (fst s)) (\<lambda>s. store_inv (fst s))
      (rsc_Resource ` set (act_Create ?a) \<union> rsc_Resource ` set (act_Update ?a)) (rsc_Resource ` set (act_Delete ?a)) s"
    unfolding s
    by (intro cs.run_actions_track[where ss = "json_state_store cr es he" and cr = cr and ?e1.0 = es and ?e2.0 = es and ?e3.0 = es and
      ?e4.0 = es and ?e5.0 = es and ?e6.0 = es])
      (use assms(10,12) sets upd b(2,3) in \<open>auto simp: json_state_store_def\<close>)
  moreover have "fst (ap_store s) = dk'" using fin by (metis fst_conv)
  ultimately have on: "store_inv dk'" and pr: "progress env ?M ?V0 (rsc_Resource ` set (act_Create ?a) \<union> rsc_Resource ` set (act_Update ?a))
      (rsc_Resource ` set (act_Delete ?a)) (store_view dk')"
    by (simp_all add: on_track_def)
  have same: "diffDeployment (canon pe (export_deployment os x)) (canon pe d) = []"
    if "x \<in> ran ?V0" "d \<in> set (sp_Deployments D)" "v1_Name d = d_Name x" "d_Name x \<notin> rsc_Resource ` set (act_Update ?a)" for x d
    by (rule describes_handled[OF b(1)]) (use that shown(1,2) in \<open>auto simp: export_deployment_def\<close>)
  show ?thesis using on
    by (intro conjI progress_reached[OF pr]) (use sets upd same in auto)
qed

section \<open>The record of a run\<close>

text \<open>What every outcome recorded keeps, a whole run keeps.\<close>

lemma attempts_keep:
  assumes "quiet_attempt f" and "P (ap_result s)" and "\<And>oc r. P r \<Longrightarrow> P (appendOutcome oc r)"
  shows "P (ap_result (fold (attempt_action ty a f) cs s))"
  using assms(2)
proof (induction cs arbitrary: s)
  case (Cons c cs)
  have "ap_result (snd (f c s)) = ap_result s" using assms(1) by (simp add: quiet_attempt_def)
  with Cons.prems have "P (ap_result (attempt_action ty a f c s))"
    by (cases "f c s"; cases "fst (f c s)") (auto simp: attempt_action_def add_outcome_def intro: assms(3))
  with Cons.IH show ?case by simp
qed simp

lemma noops_keep:
  assumes "P (ap_result s)" and "\<And>oc r. P r \<Longrightarrow> P (appendOutcome oc r)"
  shows "P (ap_result (fold (noop_action ty) cs s))"
  using assms(1) by (induction cs arbitrary: s) (simp_all add: noop_action_def add_outcome_def assms(2))

lemma run_actions_keep:
  assumes "P (ap_result s0)" and step: "\<And>oc r. P r \<Longrightarrow> P (appendOutcome oc r)"
  shows "P (ap_result (run_actions env ss spec plan live entries s0))"
  unfolding run_actions_def Let_def
  by (intro attempts_keep[where P = P] noops_keep[where P = P] quiet_attempts step assms(1))

text \<open>The counters of a result agree with its outcomes.\<close>

definition counted :: "Result \<Rightarrow> bool" where
  "counted r \<longleftrightarrow>
     res_Applied r = length (filter (\<lambda>oc. oc_Status oc = StatusApplied) (res_Outcomes r)) \<and>
     res_Noop r = length (filter (\<lambda>oc. oc_Status oc = StatusNoop) (res_Outcomes r)) \<and>
     res_Failed r = length (filter (\<lambda>oc. oc_Status oc = ApplyFailed) (res_Outcomes r))"

lemma counted_appendOutcome: "counted r \<Longrightarrow> counted (appendOutcome oc r)"
  by (cases "oc_Status oc") (auto simp: counted_def appendOutcome_def Let_def)

text \<open>What the outcomes are about, in their order.\<close>

definition outcome_labels :: "Result \<Rightarrow> (string \<times> string \<times> string) list" where
  "outcome_labels r = map (\<lambda>oc. (oc_ResourceType oc, oc_Action oc, oc_Resource oc)) (res_Outcomes r)"

abbreviation labelled :: "string \<Rightarrow> string \<Rightarrow> ResourceChange list \<Rightarrow> (string \<times> string \<times> string) list" where
  "labelled ty a cs \<equiv> map (\<lambda>c. (ty, a, rsc_Resource c)) cs"

lemma appendOutcome_labels:
  "outcome_labels (appendOutcome oc r) = outcome_labels r @ [(oc_ResourceType oc, oc_Action oc, oc_Resource oc)]"
  by (cases "oc_Status oc") (simp_all add: outcome_labels_def appendOutcome_def Let_def)

lemma attempts_labels:
  assumes "quiet_attempt f"
  shows "outcome_labels (ap_result (fold (attempt_action ty a f) cs s)) = outcome_labels (ap_result s) @ labelled ty a cs"
proof (induction cs arbitrary: s)
  case (Cons c cs)
  have "ap_result (snd (f c s)) = ap_result s" using assms by (simp add: quiet_attempt_def)
  then have "outcome_labels (ap_result (attempt_action ty a f c s)) = outcome_labels (ap_result s) @ [(ty, a, rsc_Resource c)]"
    by (cases "f c s"; cases "fst (f c s)") (auto simp: attempt_action_def add_outcome_def appendOutcome_labels)
  with Cons.IH show ?case by simp
qed simp

lemma noops_labels:
  "outcome_labels (ap_result (fold (noop_action ty) cs s)) = outcome_labels (ap_result s) @ labelled ty ''noop'' cs"
  by (induction cs arbitrary: s) (simp_all add: noop_action_def add_outcome_def appendOutcome_labels)

definition plan_labels :: "Actions \<Rightarrow> (string \<times> string \<times> string) list" where
  "plan_labels a =
     labelled ''registry'' ''noop'' (act_Noop (ac_Registries a)) @ labelled ''registry'' ''create'' (act_Create (ac_Registries a)) @
     labelled ''registry'' ''update'' (act_Update (ac_Registries a)) @ labelled ''deployment'' ''noop'' (act_Noop (ac_Deployments a)) @
     labelled ''deployment'' ''create'' (act_Create (ac_Deployments a)) @ labelled ''deployment'' ''update'' (act_Update (ac_Deployments a)) @
     labelled ''host'' ''noop'' (ha_Noop (ac_Host a)) @ labelled ''host'' ''update'' (ha_Update (ac_Host a)) @
     labelled ''deployment'' ''delete'' (act_Delete (ac_Deployments a)) @ labelled ''registry'' ''delete'' (act_Delete (ac_Registries a))"

lemma run_actions_labels:
  "outcome_labels (ap_result (run_actions env ss spec plan live entries s0)) = outcome_labels (ap_result s0) @ plan_labels (pl_Actions plan)"
  by (simp add: run_actions_def Let_def noops_labels attempts_labels[OF quiet_attempts(1)] attempts_labels[OF quiet_attempts(2)]
    attempts_labels[OF quiet_attempts(3)] attempts_labels[OF quiet_attempts(4)] attempts_labels[OF quiet_attempts(5)]
    attempts_labels[OF quiet_attempts(6)] attempts_labels[OF quiet_attempts(7)] plan_labels_def)

section \<open>Properties\<close>

text \<open>
  Applying a plan accounts for every action, in the order that keeps references intact. Once the
  live state could be read, the outcomes are those of the actions of the plan, one each:
  registries before the deployments that pull from them, everything new before anything is deleted,
  and registries deleted last. The three counters count the outcomes of their status, a failed
  action never stops the others, and the run reports an error, with the number of failures, exactly
  when there was one.
\<close>

theorem execute_accounts_for_every_action:
  assumes "Execute env ss spec plan st = ((res, err), st')" and "ss_List ss (fst st) = Inr live" and "ss_ListRegistries ss (fst st) = Inr entries"
  shows "outcome_labels res = plan_labels (pl_Actions plan) \<and> counted res \<and> res_Fingerprint res = pl_Fingerprint plan \<and>
    err = (if res_Failed res = 0 then None else Some (FailedActions (res_Failed res))) \<and> (res_PartialFailed res \<longleftrightarrow> res_Failed res > 0)"
proof -
  let ?r0 = "\<lparr>res_Fingerprint = pl_Fingerprint plan, res_Outcomes = [], res_Applied = 0, res_Noop = 0, res_Failed = 0, res_PartialFailed = False\<rparr>"
  let ?s = "run_actions env ss spec plan live entries \<lparr>ap_store = fst st, ap_host = snd st, ap_next = 0, ap_result = ?r0\<rparr>"
  have labels: "outcome_labels (ap_result ?s) = plan_labels (pl_Actions plan)"
    by (simp add: run_actions_labels) (simp add: outcome_labels_def)
  have "counted (ap_result ?s)"
    by (rule run_actions_keep) (simp_all add: counted_appendOutcome, simp add: counted_def)
  moreover have "res_Fingerprint (ap_result ?s) = pl_Fingerprint plan"
    by (rule run_actions_keep[where P = "\<lambda>r. res_Fingerprint r = pl_Fingerprint plan"]) (simp_all add: appendOutcome_simps(4))
  moreover have "\<not> res_PartialFailed (ap_result ?s)"
    by (rule run_actions_keep[where P = "\<lambda>r. \<not> res_PartialFailed r"]) (simp_all add: appendOutcome_simps(5))
  moreover have "res = (ap_result ?s)\<lparr>res_PartialFailed := res_Failed (ap_result ?s) > 0\<rparr>"
    "err = (if res_Failed (ap_result ?s) = 0 then None else Some (FailedActions (res_Failed (ap_result ?s))))"
    using assms calculation(3) by (auto simp: Execute_def Let_def split: if_splits)
  ultimately show ?thesis using labels by (simp add: counted_def outcome_labels_def)
qed

section \<open>Samples\<close>

definition apply_env0 :: "unit apply_env" where
  "apply_env0 = \<lparr>ay_os = os0, ay_bcryptCost = (\<lambda>_. False), ay_bcryptHash = (\<lambda>p. Inr (''$2a$'' @ p)),
     ay_random = (\<lambda>i. if i < 3 then Some (replicate 15 0 @ [int i]) else None)\<rparr>"

definition plain_v1 :: "string \<Rightarrow> string \<Rightarrow> Deployment_v1" where
  "plain_v1 name img = \<lparr>v1_Name = name, v1_Image = img, v1_Domain = name, v1_Public = None, v1_Env = None, v1_Ports = None,
     v1_ProxyPort = None, v1_VolumeMounts = [], v1_FileMounts = [], v1_BasicAuth = None, v1_Security = None\<rparr>"

definition plan0 :: PlanDocument where
  "plan0 = (case Build plan_env0 (document_v1 [plain_v1 ''web'' ''n'', plain_v1 ''db'' ''p''])
     (document_v1 [plain_v1 ''web'' ''m'', plain_v1 ''api'' ''a'']) of Inr p \<Rightarrow> p | Inl _ \<Rightarrow> undefined)"

theorem execute_accounts_for_every_action_witness:
  "case Execute apply_env0 (json_state_store crypto0 (\<lambda>_. env0) host_env0) (the (doc_Spec (document_v1 [plain_v1 ''web'' ''n'', plain_v1 ''db'' ''p'']))) plan0 ((disk1, 0), host_disk0) of
     ((res, err), _) \<Rightarrow> outcome_labels res = [(''deployment'', ''create'', ''db''), (''deployment'', ''update'', ''web''),
       (''host'', ''noop'', ''host''), (''deployment'', ''delete'', ''api'')] \<and> counted res \<and> (err = None \<longleftrightarrow> res_Failed res = 0)"
proof -
  let ?ss = "json_state_store crypto0 (\<lambda>_. env0) host_env0"
  obtain res err st' where ex: "Execute apply_env0 ?ss (the (doc_Spec (document_v1 [plain_v1 ''web'' ''n'', plain_v1 ''db'' ''p'']))) plan0 ((disk1, 0), host_disk0) = ((res, err), st')"
    by (metis surj_pair)
  have "ss_List ?ss (fst ((disk1, 0), host_disk0)) = Inr [web, api]" "ss_ListRegistries ?ss (fst ((disk1, 0), host_disk0)) = Inr []"
    by code_simp+
  note * = execute_accounts_for_every_action[OF ex this]
  have "plan_labels (pl_Actions plan0) = [(''deployment'', ''create'', ''db''), (''deployment'', ''update'', ''web''),
       (''host'', ''noop'', ''host''), (''deployment'', ''delete'', ''api'')]" by code_simp
  with * show ?thesis unfolding ex by (simp split: if_splits)
qed

end
