(* ===== verification/Commands.thy ===== *)
theory Commands
  imports Apply
begin

text \<open>
  The commands \<open>lotsen config validate\<close>, \<open>fmt\<close>, \<open>export\<close>, \<open>plan\<close> and \<open>apply\<close>
  (\<open>api/cmd/lotsen/config.go\<close>), after the flags have been parsed: what they read, the order of
  their checks, what they write and which of them changes the stored state. Files are a map from
  paths to text; \<open>encoding/json\<close> is a pair of an encoder and a decoder for documents and for plans.
  The theorems tie the configuration theories together: what \<open>apply\<close> leaves in the store when it
  reports success, and which plan it can have executed.
\<close>

section \<open>The commands\<close>

datatype printed = PrintedValid | PrintedConfig string | PrintedResult Result

record world =
  wd_files :: "string \<rightharpoonup> string"
  wd_disk :: disk
  wd_host :: host_disk
  wd_stdout :: "printed list"

datatype command_error =
    Usage | OpenConfig | DecodeConfig string | OpenPlan | DecodePlan string | PlanAPIVersion string | PlanKind string
  | PlanFingerprintRequired | ConfigInvalid "config_error list" | FingerprintMismatch | ExportFailed export_error
  | PlanFailed build_error | StaleApproval string string | OpenStoreFailed store_error | OpenHostFailed host_error
  | MarshalFailed string | WriteFailed | StdoutFailed | ApplyFailedWith apply_error | UnknownCommand string

record ('f, 'g) command_env =
  cm_open :: "string \<Rightarrow> bool"
  cm_write :: "string \<Rightarrow> string option option"
  cm_stdout :: bool
  cm_decode_config :: "string \<Rightarrow> string + Document_v1"
  cm_encode_config :: "Document_v1 \<Rightarrow> string + string"
  cm_decode_plan :: "string \<Rightarrow> string + PlanDocument"
  cm_encode_plan :: "PlanDocument \<Rightarrow> string + string"
  cm_encode_result :: "Result \<Rightarrow> string option"
  cm_apply :: "'f apply_env"
  cm_export :: "'g export_env"
  cm_plan :: plan_env
  cm_crypto :: crypto
  cm_open_store :: "store_error option"
  cm_open_host :: "host_error option"
  cm_store :: "nat \<Rightarrow> store_env"
  cm_host :: host_env

definition readConfigFile :: "('f, 'g) command_env \<Rightarrow> string \<Rightarrow> world \<Rightarrow> command_error + Document_v1" where
  "readConfigFile env path w =
     (case wd_files w path of
        None \<Rightarrow> Inl OpenConfig
      | Some raw \<Rightarrow>
          if cm_open env path then Inl OpenConfig
          else case cm_decode_config env raw of Inl err \<Rightarrow> Inl (DecodeConfig err) | Inr doc \<Rightarrow> Inr doc)"

definition readPlanFile :: "('f, 'g) command_env \<Rightarrow> string \<Rightarrow> world \<Rightarrow> command_error + PlanDocument" where
  "readPlanFile env path w =
     (case wd_files w path of
        None \<Rightarrow> Inl OpenPlan
      | Some raw \<Rightarrow>
          if cm_open env path then Inl OpenPlan
          else case cm_decode_plan env raw of
            Inl err \<Rightarrow> Inl (DecodePlan err)
          | Inr plan \<Rightarrow>
              if TrimSpace (pl_APIVersion plan) \<noteq> APIVersion then Inl (PlanAPIVersion (pl_APIVersion plan))
              else if TrimSpace (pl_Kind plan) \<noteq> Kind_plan then Inl (PlanKind (pl_Kind plan))
              else if TrimSpace (pl_Fingerprint plan) = [] then Inl PlanFingerprintRequired
              else Inr plan)"

text \<open>\<open>os.WriteFile\<close>: a failed write may leave the file cut short or not there at all.\<close>

definition WriteFile :: "('f, 'g) command_env \<Rightarrow> string \<Rightarrow> string \<Rightarrow> world \<Rightarrow> (command_error + unit) \<times> world" where
  "WriteFile env path raw w =
     (case cm_write env path of
        None \<Rightarrow> (Inr (), w\<lparr>wd_files := (wd_files w)(path \<mapsto> raw)\<rparr>)
      | Some left \<Rightarrow> (Inl WriteFailed, w\<lparr>wd_files := (wd_files w)(path := left)\<rparr>))"

definition write_stdout :: "('f, 'g) command_env \<Rightarrow> printed \<Rightarrow> world \<Rightarrow> (command_error + unit) \<times> world" where
  "write_stdout env p w = (if cm_stdout env then (Inl StdoutFailed, w) else (Inr (), w\<lparr>wd_stdout := wd_stdout w @ [p]\<rparr>))"

definition MarshalCanonical :: "('f, 'g) command_env \<Rightarrow> Document_v1 \<Rightarrow> string + string" where
  "MarshalCanonical env doc =
     (case cm_encode_config env (Canonicalize (config_env.truncate (cm_plan env)) doc) of
        Inl err \<Rightarrow> Inl err | Inr raw \<Rightarrow> Inr (raw @ [CHR 0x0A]))"

definition MarshalCanonical_plan :: "('f, 'g) command_env \<Rightarrow> PlanDocument \<Rightarrow> string + string" where
  "MarshalCanonical_plan env plan =
     (case cm_encode_plan env (canonicalizePlan (cm_plan env) plan) of
        Inl err \<Rightarrow> Inl err | Inr raw \<Rightarrow> Inr (raw @ [CHR 0x0A]))"

definition read_valid :: "('f, 'g) command_env \<Rightarrow> string \<Rightarrow> world \<Rightarrow> command_error + Document_v1" where
  "read_valid env path w =
     (case readConfigFile env path w of
        Inl err \<Rightarrow> Inl err
      | Inr doc \<Rightarrow>
          (let errs = Validate (config_env.truncate (cm_plan env)) doc in
           if errs \<noteq> [] then Inl (ConfigInvalid errs) else Inr doc))"

definition runConfigValidate :: "('f, 'g) command_env \<Rightarrow> string \<Rightarrow> world \<Rightarrow> (command_error + unit) \<times> world" where
  "runConfigValidate env path w =
     (if TrimSpace path = [] then (Inl Usage, w)
      else case read_valid env path w of
        Inl err \<Rightarrow> (Inl err, w)
      | Inr _ \<Rightarrow> write_stdout env PrintedValid w)"

definition runConfigFmt :: "('f, 'g) command_env \<Rightarrow> string \<Rightarrow> world \<Rightarrow> (command_error + unit) \<times> world" where
  "runConfigFmt env path w =
     (if TrimSpace path = [] then (Inl Usage, w)
      else case read_valid env path w of
        Inl err \<Rightarrow> (Inl err, w)
      | Inr doc \<Rightarrow>
          (case MarshalCanonical env doc of
             Inl err \<Rightarrow> (Inl (MarshalFailed err), w)
           | Inr formatted \<Rightarrow> write_stdout env (PrintedConfig formatted) w))"

definition runConfigExport :: "('f, 'g) command_env \<Rightarrow> string \<Rightarrow> world \<Rightarrow> (command_error + unit) \<times> world" where
  "runConfigExport env path w =
     (if TrimSpace path = [] then (Inl Usage, w)
      else case exportConfigDocument (cm_export env) (wd_disk w) (wd_host w) of
        Inl err \<Rightarrow> (Inl (ExportFailed err), w)
      | Inr doc \<Rightarrow>
          (case MarshalCanonical env doc of
             Inl err \<Rightarrow> (Inl (MarshalFailed err), w)
           | Inr formatted \<Rightarrow> WriteFile env path formatted w))"

definition runConfigPlan :: "('f, 'g) command_env \<Rightarrow> string \<Rightarrow> string \<Rightarrow> world \<Rightarrow> (command_error + unit) \<times> world" where
  "runConfigPlan env configPath outPath w =
     (if TrimSpace configPath = [] \<or> TrimSpace outPath = [] then (Inl Usage, w)
      else case read_valid env configPath w of
        Inl err \<Rightarrow> (Inl err, w)
      | Inr want \<Rightarrow>
          (case exportConfigDocument (cm_export env) (wd_disk w) (wd_host w) of
             Inl err \<Rightarrow> (Inl (ExportFailed err), w)
           | Inr live \<Rightarrow>
               (case Build (cm_plan env) want live of
                  Inl err \<Rightarrow> (Inl (PlanFailed err), w)
                | Inr planDoc \<Rightarrow>
                    (case MarshalCanonical_plan env planDoc of
                       Inl err \<Rightarrow> (Inl (MarshalFailed err), w)
                     | Inr formatted \<Rightarrow> WriteFile env outPath formatted w))))"

definition print_result :: "('f, 'g) command_env \<Rightarrow> Result \<Rightarrow> apply_error option \<Rightarrow> world \<Rightarrow> (command_error + unit) \<times> world" where
  "print_result env res applyErr w =
     (case cm_encode_result env res of
        Some err \<Rightarrow> (Inl (MarshalFailed err), w)
      | None \<Rightarrow>
          (case write_stdout env (PrintedResult res) w of
             (Inl err, w') \<Rightarrow> (Inl err, w')
           | (Inr _, w') \<Rightarrow> (case applyErr of Some err \<Rightarrow> (Inl (ApplyFailedWith err), w') | None \<Rightarrow> (Inr (), w'))))"

definition apply_approved :: "('f, 'g) command_env \<Rightarrow> Document_v1 \<Rightarrow> PlanDocument \<Rightarrow> world \<Rightarrow> (command_error + unit) \<times> world" where
  "apply_approved env want currentPlan w =
     (case cm_open_store env of
        Some err \<Rightarrow> (Inl (OpenStoreFailed err), w)
      | None \<Rightarrow>
          (case cm_open_host env of
             Some err \<Rightarrow> (Inl (OpenHostFailed err), w)
           | None \<Rightarrow>
               (case Execute (cm_apply env) (json_state_store (cm_crypto env) (cm_store env) (cm_host env)) (the (doc_Spec want)) currentPlan
                       ((wd_disk w, 0), wd_host w) of
                  ((res, applyErr), ((dk, _), hdk)) \<Rightarrow> print_result env res applyErr (w\<lparr>wd_disk := dk, wd_host := hdk\<rparr>))))"

definition runConfigApply :: "('f, 'g) command_env \<Rightarrow> string \<Rightarrow> string \<Rightarrow> string \<Rightarrow> world \<Rightarrow> (command_error + unit) \<times> world" where
  "runConfigApply env configPath planPath approve w =
     (let approvedFingerprint = TrimSpace approve in
      if TrimSpace configPath = [] \<or> TrimSpace planPath = [] \<or> approvedFingerprint = [] then (Inl Usage, w)
      else case read_valid env configPath w of
        Inl err \<Rightarrow> (Inl err, w)
      | Inr want \<Rightarrow>
          (case readPlanFile env planPath w of
             Inl err \<Rightarrow> (Inl err, w)
           | Inr planDoc \<Rightarrow>
               if pl_Fingerprint planDoc \<noteq> approvedFingerprint then (Inl FingerprintMismatch, w)
               else case exportConfigDocument (cm_export env) (wd_disk w) (wd_host w) of
                 Inl err \<Rightarrow> (Inl (ExportFailed err), w)
               | Inr live \<Rightarrow>
                   (case Build (cm_plan env) want live of
                      Inl err \<Rightarrow> (Inl (PlanFailed err), w)
                    | Inr currentPlan \<Rightarrow>
                        if pl_Fingerprint currentPlan \<noteq> approvedFingerprint
                        then (Inl (StaleApproval (pl_Fingerprint currentPlan) approvedFingerprint), w)
                        else apply_approved env want currentPlan w)))"

datatype config_command =
    CValidate string | CFmt string | CExport string | CPlan string string | CApply string string string | CNone | COther string

definition runConfig :: "('f, 'g) command_env \<Rightarrow> config_command \<Rightarrow> world \<Rightarrow> (command_error + unit) \<times> world" where
  "runConfig env c w =
     (case c of
        CNone \<Rightarrow> (Inl Usage, w)
      | CValidate f \<Rightarrow> runConfigValidate env f w
      | CFmt f \<Rightarrow> runConfigFmt env f w
      | CExport f \<Rightarrow> runConfigExport env f w
      | CPlan f out \<Rightarrow> runConfigPlan env f out w
      | CApply f p a \<Rightarrow> runConfigApply env f p a w
      | COther name \<Rightarrow> (Inl (UnknownCommand name), w))"

section \<open>Lemmas\<close>

lemma read_valid_Inr:
  assumes "read_valid env path w = Inr doc"
  shows "readConfigFile env path w = Inr doc" "Validate (config_env.truncate (cm_plan env)) doc = []"
  using assms by (auto simp: read_valid_def Let_def split: sum.splits if_splits)

lemma readPlanFile_Inr:
  assumes "readPlanFile env path w = Inr plan"
  obtains raw where "wd_files w path = Some raw" "cm_decode_plan env raw = Inr plan"
  using assms by (auto simp: readPlanFile_def split: option.splits sum.splits if_splits)

lemma print_result_state: "wd_disk (snd (print_result env res err w)) = wd_disk w \<and> wd_host (snd (print_result env res err w)) = wd_host w"
  by (simp add: print_result_def write_stdout_def split: option.split)

text \<open>Either \<open>apply\<close> stops before it touches the stores, or it executes the current plan, whose
  fingerprint is the approved one.\<close>

lemma runConfigApply_cases:
  assumes "runConfigApply env configPath planPath approve w = (r, w')"
  obtains (stopped) err where "r = Inl err" "w' = w"
  | (run) want planDoc live plan res aerr dk n hdk where
    "read_valid env configPath w = Inr want" "readPlanFile env planPath w = Inr planDoc"
    "exportConfigDocument (cm_export env) (wd_disk w) (wd_host w) = Inr live" "Build (cm_plan env) want live = Inr plan"
    "pl_Fingerprint planDoc = TrimSpace approve" "pl_Fingerprint plan = TrimSpace approve"
    "Execute (cm_apply env) (json_state_store (cm_crypto env) (cm_store env) (cm_host env)) (the (doc_Spec want)) plan
       ((wd_disk w, 0), wd_host w) = ((res, aerr), ((dk, n), hdk))"
    "print_result env res aerr (w\<lparr>wd_disk := dk, wd_host := hdk\<rparr>) = (r, w')"
  using assms
  by (auto simp: runConfigApply_def apply_approved_def Let_def split: if_splits sum.splits option.splits prod.splits)

lemma print_result_Inr: "print_result env res aerr w = (Inr u, w') \<Longrightarrow> aerr = None \<and> w' = w\<lparr>wd_stdout := wd_stdout w @ [PrintedResult res]\<rparr>"
  by (auto simp: print_result_def write_stdout_def split: option.splits if_splits)

lemma apply_reaches:
  assumes "plan_env_ok (cm_plan env)" and "xe_config (cm_export env) = config_env.truncate (cm_plan env)"
    and "env_ok (xe_list (cm_export env))" and "\<forall>n. env_ok (cm_store env n)"
    and "store_inv (wd_disk w)" and "fresh_ids (cm_apply env) (store_view (wd_disk w))"
    and "readConfigFile env f w = Inr want" and "doc_Spec want = Some D"
    and "\<forall>d \<in> set (sp_Deployments D). TrimSpace (v1_Name d) = v1_Name d"
    and "runConfigApply env f p approve w = (Inr (), w')"
  shows "store_inv (wd_disk w') \<and>
    reached (cm_apply env)
      (\<lambda>x d. diffDeployment (canon (cm_plan env) (export_deployment (xe_os (cm_export env)) x)) (canon (cm_plan env) d) = [])
      D (store_view (wd_disk w)) (store_view (wd_disk w'))"
  using assms(10)
proof (cases rule: runConfigApply_cases)
  case (run want' planDoc live plan res aerr dk n hdk)
  have want: "want' = want" using read_valid_Inr(1)[OF run(1)] assms(7) by simp
  have ok: "config_env_ok (config_env.truncate (cm_plan env))" using assms(1) by (simp add: plan_env_ok_def)
  have v: "valid_document want" using read_valid_Inr(2)[OF run(1)] want by (simp add: Validate_Nil[OF ok])
  from run(3) obtain ds rs profile where l: "JS_List (xe_list (cm_export env)) (wd_disk w) = Inr ds"
    and doc: "live = document_of (xe_os (cm_export env)) ds rs profile" and lv: "Validate (xe_config (cm_export env)) live = []"
    by (rule export_Inr)
  have vl: "valid_document live" using lv by (simp add: assms(2) Validate_Nil[OF ok])
  have ex: "aerr = None" "dk = wd_disk w'" using print_result_Inr[OF run(8)] by simp_all
  have run': "Execute (cm_apply env) (json_state_store (cm_crypto env) (cm_store env) (cm_host env)) D plan ((wd_disk w, 0), wd_host w) =
      ((res, None), ((wd_disk w', n), hdk))"
    using run(7) assms(8) by (simp add: want ex)
  define L where "L = \<lparr>sp_Deployments = map (export_deployment (xe_os (cm_export env))) ds,
      sp_Registries = map export_registry rs, sp_Host = Some (export_host profile)\<rparr>"
  have L: "doc_Spec live = Some L" "sp_Deployments L = map (export_deployment (xe_os (cm_export env))) ds"
    by (simp_all add: doc document_of_def L_def)
  have ds: "set ds = ran (store_view (wd_disk w))" "distinct (map d_ID ds)" using js.list_Inr[OF assms(3) l] by simp_all
  show ?thesis
    by (rule Execute_reaches[OF assms(1) v vl assms(8) L(1) _ L(2) ds assms(4-6,9) run']) (use run(4) want in simp)
qed simp

text \<open>Two exports of the same state differ only in the order of the deployments.\<close>

lemma list_registries_same:
  assumes "JS_ListRegistriesForExport cr e dk = Inr rs" and "JS_ListRegistriesForExport cr e' dk = Inr rs'"
  shows "rs' = rs"
  using assms
  by (auto simp: JS_ListRegistriesForExport_def withRLock_def readState_def split: if_splits sum.splits option.splits store_doc.splits)

lemma host_get_same:
  assumes "HP_Get e hdk = Inr p" and "HP_Get e' hdk = Inr p'"
  shows "p' = p"
  using assms by (auto simp: HP_Get_def host_locked_def host_read_def split: if_splits option.splits host_doc.splits)

lemma export_same_content:
  assumes "exportConfigDocument xe dk hdk = Inr live" and "exportConfigDocument xe' dk hdk = Inr live'"
    and "env_ok (xe_list xe)" and "env_ok (xe_list xe')" and "xe_os xe' = xe_os xe" and "xe_crypto xe' = xe_crypto xe"
  shows "same_content live live'"
proof -
  from assms(1) obtain ds rs p where a: "JS_List (xe_list xe) dk = Inr ds" "JS_ListRegistriesForExport (xe_crypto xe) (xe_registries xe) dk = Inr rs"
    "HP_Get (xe_host xe) hdk = Inr p" "live = document_of (xe_os xe) ds rs p" by (rule export_Inr)
  from assms(2) obtain ds' rs' p' where b: "JS_List (xe_list xe') dk = Inr ds'"
    "JS_ListRegistriesForExport (xe_crypto xe') (xe_registries xe') dk = Inr rs'" "HP_Get (xe_host xe') hdk = Inr p'"
    "live' = document_of (xe_os xe') ds' rs' p'" by (rule export_Inr)
  have "rs' = rs" "p' = p" using list_registries_same[OF a(2)] b(2) host_get_same[OF a(3) b(3)] by (simp_all add: assms(6))
  moreover have "mset ds = mset ds'"
    using js.list_Inr[OF assms(3) a(1)] js.list_Inr[OF assms(4) b(1)] by (metis distinct_map set_eq_iff_mset_eq_distinct)
  ultimately show ?thesis by (simp add: a(4) b(4) assms(5) document_of_def same_content_def)
qed

lemma cloneMap_subset: "set (cloneMap m) \<subseteq> set m"
proof -
  have "set (fold (\<lambda>(key, val) out. AList.update key val out) m out) \<subseteq> set m \<union> set out" for out
  proof (induction m arbitrary: out)
    case (Cons x m)
    obtain key val where x: "x = (key, val)" by (cases x)
    show ?case using Cons.IH[of "AList.update key val out"] set_update_subset[of key val out] by (auto simp: x)
  qed simp
  from this[of "[]"] show ?thesis by (simp add: cloneMap_def)
qed

lemma reflects_envs:
  assumes "reflects env d x" and "d_Envs x = Some vars"
  shows "set vars \<subseteq> set (Prelude.slice (v1_Env d))"
proof -
  have "d_Envs y = map_option cloneMap (v1_Env d)" if "deploymentFromDesired env d k = Inr y" for k y
    using that by (auto simp: deploymentFromDesired_def split: sum.splits)
  moreover obtain y st rs er where "deploymentFromDesired env d (d_ID x) = Inr y" "x = json_Deployment (y\<lparr>d_Status := st, d_Reason := rs, d_Error := er\<rparr>)"
    using assms(1) by (auto simp: reflects_def)
  moreover from arg_cong[OF this(2), of d_Envs] have "d_Envs x = d_Envs y" by (simp add: json_Deployment_def)
  ultimately obtain z where "v1_Env d = Some z" "vars = cloneMap z" using assms(2) by auto
  with cloneMap_subset[of z] show ?thesis by (simp add: Prelude.slice_def)
qed

section \<open>Properties\<close>

text \<open>
  C5. When \<open>lotsen config apply\<close> reports success, the store is what the document asks for. The
  invariant of the store holds, names are unique, the stored deployments have exactly the names of
  the document, and each of them is either the translation of the desired deployment of its name or
  was stored before and did not differ from it. This holds from any stored state, with registries
  and host profile changed in the same run, as long as the random source yields IDs that are new
  and names carry no white space at their ends.
\<close>

theorem apply_reaches_document:
  assumes "plan_env_ok (cm_plan env)" and "xe_config (cm_export env) = config_env.truncate (cm_plan env)"
    and "env_ok (xe_list (cm_export env))" and "\<forall>n. env_ok (cm_store env n)"
    and "store_inv (wd_disk w)" and "fresh_ids (cm_apply env) (store_view (wd_disk w))"
    and "readConfigFile env f w = Inr want" and "doc_Spec want = Some D"
    and "\<forall>d \<in> set (sp_Deployments D). TrimSpace (v1_Name d) = v1_Name d"
    and "runConfigApply env f p approve w = (Inr (), w')"
  shows "store_inv (wd_disk w') \<and>
    reached (cm_apply env)
      (\<lambda>x d. diffDeployment (canon (cm_plan env) (export_deployment (xe_os (cm_export env)) x)) (canon (cm_plan env) d) = [])
      D (store_view (wd_disk w)) (store_view (wd_disk w'))"
  by (rule apply_reaches[OF assms])

text \<open>
  C6. Nothing but an approved plan changes the stored state. Whatever configuration command is run,
  if the deployments, the registries or the host profile are different afterwards, then it was
  \<open>apply\<close>, and what it executed is the plan of the given document against the state at that moment,
  with the fingerprint that the plan file carries and that was given as approval.
\<close>

theorem only_the_approved_plan_runs:
  assumes "runConfig env c w = (r, w')" and "(wd_disk w', wd_host w') \<noteq> (wd_disk w, wd_host w)"
  shows "\<exists>f p approve want planDoc live plan res err n. c = CApply f p approve \<and>
    readConfigFile env f w = Inr want \<and> Validate (config_env.truncate (cm_plan env)) want = [] \<and> readPlanFile env p w = Inr planDoc \<and>
    exportConfigDocument (cm_export env) (wd_disk w) (wd_host w) = Inr live \<and> Build (cm_plan env) want live = Inr plan \<and>
    pl_Fingerprint planDoc = TrimSpace approve \<and> pl_Fingerprint plan = TrimSpace approve \<and>
    Execute (cm_apply env) (json_state_store (cm_crypto env) (cm_store env) (cm_host env)) (the (doc_Spec want)) plan
      ((wd_disk w, 0), wd_host w) = ((res, err), ((wd_disk w', n), wd_host w'))"
proof (cases c)
  case (CApply f p approve)
  with assms(1) have "runConfigApply env f p approve w = (r, w')" by (simp add: runConfig_def)
  then show ?thesis
  proof (cases rule: runConfigApply_cases)
    case (run want planDoc live plan res aerr dk n hdk)
    have "wd_disk w' = dk" "wd_host w' = hdk"
      using print_result_state[of env res aerr "w\<lparr>wd_disk := dk, wd_host := hdk\<rparr>"] run(8) by simp_all
    with run CApply read_valid_Inr[OF run(1)] show ?thesis by blast
  qed (use assms(2) in simp)
qed (use assms in \<open>auto simp: runConfig_def runConfigValidate_def runConfigFmt_def runConfigExport_def runConfigPlan_def
  WriteFile_def write_stdout_def split: if_splits sum.splits option.splits\<close>)


text \<open>
  Applying a document replaces secrets by their placeholders. A valid document holds a placeholder
  for every sensitive environment variable and \<open>apply\<close> resolves none of them, so every deployment
  that a successful run created or changed has the literal placeholder as the value of each of its
  sensitive variables, also when a real value was stored before.
\<close>

theorem apply_stores_placeholders:
  assumes "plan_env_ok (cm_plan env)" and "xe_config (cm_export env) = config_env.truncate (cm_plan env)"
    and "env_ok (xe_list (cm_export env))" and "\<forall>n. env_ok (cm_store env n)"
    and "store_inv (wd_disk w)" and "fresh_ids (cm_apply env) (store_view (wd_disk w))"
    and "readConfigFile env f w = Inr want" and "doc_Spec want = Some D"
    and "\<forall>d \<in> set (sp_Deployments D). TrimSpace (v1_Name d) = v1_Name d"
    and "runConfigApply env f p approve w = (Inr (), w')"
    and "store_view (wd_disk w') k = Some x" and "x \<notin> ran (store_view (wd_disk w))"
    and "d_Envs x = Some vars" and "(key, val) \<in> set vars" and "looksSensitiveEnvKey key"
  shows "isPlaceholder val"
proof -
  have x: "x \<in> ran (store_view (wd_disk w'))" using assms(11) by (rule ranI)
  with apply_reaches[OF assms(1-10)] assms(12) obtain d where d: "d \<in> set (sp_Deployments D)" "reflects (cm_apply env) d x"
    unfolding reached_def by blast
  have "valid_document want"
    using assms(10)
  proof (cases rule: runConfigApply_cases)
    case (run want' planDoc live plan res aerr dk n hdk)
    with assms(1,7) read_valid_Inr[OF run(1)] show ?thesis by (simp add: Validate_Nil plan_env_ok_def)
  qed simp
  with d(1) assms(8) have "valid_env (Prelude.slice (v1_Env d))" by (auto simp: valid_document_def valid_spec_v1_def valid_deployment_def)
  with reflects_envs[OF d(2) assms(13)] assms(14,15) show ?thesis by (auto simp: valid_env_def)
qed

section \<open>Samples\<close>

text \<open>A document that changes the image of the stored deployment and holds a placeholder for its key.\<close>

definition live0 :: Deployment where
  "live0 = zero_Deployment\<lparr>d_ID := ''1'', d_Name := ''w'', d_Image := ''a'', d_Domain := ''d'', d_Public := True,
     d_Envs := Some [(''KEY'', ''s3'')], d_Status := ''healthy''\<rparr>"

definition live_disk0 :: disk where
  "live_disk0 = \<lparr>dk_file = Some (ObjectDoc (Some [live0]) None), dk_tmp = None\<rparr>"

definition want0 :: Document_v1 where
  "want0 = document_v1 [(plain_v1 ''w'' ''b'')\<lparr>v1_Domain := ''d'', v1_Public := Some True, v1_Env := Some [(''KEY'', ''${LOTSEN_SECRET_K}'')]\<rparr>]"

definition plan_env1 :: plan_env where
  "plan_env1 = plan_env0\<lparr>pe_sha256_hex := (\<lambda>_. [])\<rparr>"

lemma plan_env1_ok: "plan_env_ok plan_env1" "config_env.truncate plan_env1 = config_env0"
  using plan_env0_ok plan_env0_truncate by (simp_all add: plan_env1_def plan_env_ok_def config_env.defs)

definition planned0 :: PlanDocument where
  "planned0 = (case exportConfigDocument export_env0 (live_disk0) host_disk0 of
     Inl _ \<Rightarrow> undefined
   | Inr live \<Rightarrow> (case Build plan_env1 want0 live of Inl _ \<Rightarrow> undefined | Inr plan \<Rightarrow> canonicalizePlan plan_env1 plan))"

definition command_env0 :: "(unit, unit) command_env" where
  "command_env0 = \<lparr>cm_open = (\<lambda>_. False), cm_write = (\<lambda>_. None), cm_stdout = False, cm_decode_config = (\<lambda>_. Inr want0),
     cm_encode_config = (\<lambda>_. Inr ''config''), cm_decode_plan = (\<lambda>_. Inr planned0),
     cm_encode_plan = (\<lambda>q. if q = planned0 then Inr ''plan'' else Inl ''unexpected''), cm_encode_result = (\<lambda>_. None),
     cm_apply = apply_env0, cm_export = export_env0, cm_plan = plan_env1, cm_crypto = crypto0, cm_open_store = None,
     cm_open_host = None, cm_store = (\<lambda>_. env0), cm_host = host_env0\<rparr>"

definition cli_world0 :: world where
  "cli_world0 = \<lparr>wd_files = [''c'' \<mapsto> ''config'', ''p'' \<mapsto> ''plan''], wd_disk = live_disk0, wd_host = host_disk0, wd_stdout = []\<rparr>"

lemma run0: "case runConfigApply command_env0 ''c'' ''p'' ''sha256:'' cli_world0 of (r, w') \<Rightarrow> r = Inr () \<and>
    wd_disk w' = live_disk0\<lparr>dk_file := Some (ObjectDoc (Some [live0\<lparr>d_Image := ''b'', d_Envs := Some [(''KEY'', ''${LOTSEN_SECRET_K}'')],
      d_Status := StatusDeploying\<rparr>]) None)\<rparr>"
  by code_simp

lemma live_disk0_view: "store_view live_disk0 = [''1'' \<mapsto> live0]"
  by (auto simp: store_view_def live_disk0_def live0_def readState_def gomap_of_def fun_eq_iff)

lemma live_disk0_inv: "store_inv live_disk0"
  by (simp add: store_inv_def live_disk0_view) (simp add: live0_def live_disk0_def json_Deployment_def zero_Deployment_def)

lemma fresh0: "fresh_ids apply_env0 (store_view live_disk0)"
proof -
  have "newID (replicate 15 0 @ [0]) \<noteq> ''1''" "newID (replicate 15 0 @ [1]) \<noteq> ''1''" "newID (replicate 15 0 @ [2]) \<noteq> ''1''"
    "newID (replicate 15 0 @ [0]) \<noteq> newID (replicate 15 0 @ [1])" "newID (replicate 15 0 @ [0]) \<noteq> newID (replicate 15 0 @ [2])"
    "newID (replicate 15 0 @ [1]) \<noteq> newID (replicate 15 0 @ [2])" by code_simp+
  moreover have "i < 3 \<Longrightarrow> i = 0 \<or> i = 1 \<or> i = 2" for i :: nat by auto
  ultimately show ?thesis
    unfolding fresh_ids_def live_disk0_view apply_env0_def apply_env.select_convs
    by (intro conjI allI impI) (auto split: if_splits dest!: \<open>\<And>i. i < 3 \<Longrightarrow> _\<close>)
qed

text \<open>The run of \<open>apply\<close> on the samples, and the facts its theorems need.\<close>

lemma sample_run:
  obtains w' where "runConfigApply command_env0 ''c'' ''p'' ''sha256:'' cli_world0 = (Inr (), w')"
    "store_view (wd_disk w') = [''1'' \<mapsto> live0\<lparr>d_Image := ''b'', d_Envs := Some [(''KEY'', ''${LOTSEN_SECRET_K}'')], d_Status := StatusDeploying\<rparr>]"
proof -
  obtain r w' where r: "runConfigApply command_env0 ''c'' ''p'' ''sha256:'' cli_world0 = (r, w')" by (metis surj_pair)
  let ?x = "live0\<lparr>d_Image := ''b'', d_Envs := Some [(''KEY'', ''${LOTSEN_SECRET_K}'')], d_Status := StatusDeploying\<rparr>"
  have "r = Inr ()" and dk: "wd_disk w' = live_disk0\<lparr>dk_file := Some (ObjectDoc (Some [?x]) None)\<rparr>" using run0 by (simp_all add: r)
  moreover have "store_view (wd_disk w') = [''1'' \<mapsto> ?x]"
    unfolding dk by (auto simp: store_view_def live_disk0_def live0_def readState_def gomap_of_def fun_eq_iff)
  ultimately show ?thesis using that r by simp
qed

lemma sample_envs:
  "plan_env_ok (cm_plan command_env0)" "xe_config (cm_export command_env0) = config_env.truncate (cm_plan command_env0)"
  "env_ok (xe_list (cm_export command_env0))" "\<forall>n. env_ok (cm_store command_env0 n)"
  "store_inv (wd_disk cli_world0)" "fresh_ids (cm_apply command_env0) (store_view (wd_disk cli_world0))"
  "readConfigFile command_env0 ''c'' cli_world0 = Inr want0" "doc_Spec want0 = Some (the (doc_Spec want0))"
  "v1_Name ` set (sp_Deployments (the (doc_Spec want0))) = {''w''}"
  by (simp_all add: command_env0_def cli_world0_def plan_env1_ok export_env0_def env_ok_def env0_def fresh0 live_disk0_inv
    readConfigFile_def want0_def document_v1_def plain_v1_def)

theorem apply_reaches_document_witness:
  "\<exists>w'. runConfigApply command_env0 ''c'' ''p'' ''sha256:'' cli_world0 = (Inr (), w') \<and> store_inv (wd_disk w') \<and>
     d_Name ` ran (store_view (wd_disk w')) = {''w''}"
proof -
  obtain w' where w': "runConfigApply command_env0 ''c'' ''p'' ''sha256:'' cli_world0 = (Inr (), w')" by (rule sample_run)
  have trim: "TrimSpace ''w'' = ''w''" by code_simp
  have "\<forall>d \<in> set (sp_Deployments (the (doc_Spec want0))). TrimSpace (v1_Name d) = v1_Name d"
    using sample_envs(9) trim by (metis imageI singletonD)
  note reaches = apply_reaches_document[OF sample_envs(1-8) this w', unfolded reached_def sample_envs(9)]
  show ?thesis by (intro exI[of _ w'] conjI w' reaches[THEN conjunct1] reaches[THEN conjunct2, THEN conjunct2, THEN conjunct1])
qed

theorem apply_stores_placeholders_witness:
  "\<exists>w' x. runConfigApply command_env0 ''c'' ''p'' ''sha256:'' cli_world0 = (Inr (), w') \<and> store_view (wd_disk w') ''1'' = Some x \<and>
     (\<exists>val. d_Envs x = Some [(''KEY'', val)] \<and> isPlaceholder val) \<and> d_Envs (the (store_view (wd_disk cli_world0) ''1'')) = Some [(''KEY'', ''s3'')]"
proof -
  let ?x = "live0\<lparr>d_Image := ''b'', d_Envs := Some [(''KEY'', ''${LOTSEN_SECRET_K}'')], d_Status := StatusDeploying\<rparr>"
  obtain w' where w': "runConfigApply command_env0 ''c'' ''p'' ''sha256:'' cli_world0 = (Inr (), w')"
    and view: "store_view (wd_disk w') = [''1'' \<mapsto> ?x]" by (rule sample_run)
  have trim: "TrimSpace ''w'' = ''w''" by code_simp
  have names: "\<forall>d \<in> set (sp_Deployments (the (doc_Spec want0))). TrimSpace (v1_Name d) = v1_Name d"
    using sample_envs(9) trim by (metis imageI singletonD)
  have x: "store_view (wd_disk w') ''1'' = Some ?x" "?x \<notin> ran (store_view (wd_disk cli_world0))"
    by (simp add: view) (simp add: cli_world0_def live_disk0_view live0_def zero_Deployment_def)
  have sens: "looksSensitiveEnvKey ''KEY''" by code_simp
  have "isPlaceholder ''${LOTSEN_SECRET_K}''"
    by (rule apply_stores_placeholders[OF sample_envs(1-8) names w' x, of "[(''KEY'', ''${LOTSEN_SECRET_K}'')]" "''KEY''"]) (simp_all add: sens)
  then show ?thesis using w' x(1) by (intro exI[of _ w'] exI[of _ ?x]) (simp add: cli_world0_def live_disk0_view live0_def)
qed

theorem only_the_approved_plan_runs_witness:
  "\<exists>f p approve planDoc. CApply ''c'' ''p'' ''sha256:'' = CApply f p approve \<and> readPlanFile command_env0 p cli_world0 = Inr planDoc \<and>
     pl_Fingerprint planDoc = TrimSpace approve"
proof -
  obtain w' where w': "runConfigApply command_env0 ''c'' ''p'' ''sha256:'' cli_world0 = (Inr (), w')"
    and view: "store_view (wd_disk w') = [''1'' \<mapsto> live0\<lparr>d_Image := ''b'', d_Envs := Some [(''KEY'', ''${LOTSEN_SECRET_K}'')], d_Status := StatusDeploying\<rparr>]"
    by (rule sample_run)
  have "store_view (wd_disk w') ''1'' \<noteq> store_view (wd_disk cli_world0) ''1''" by (simp add: view) (simp add: cli_world0_def live_disk0_view live0_def zero_Deployment_def)
  then have state: "(wd_disk w', wd_host w') \<noteq> (wd_disk cli_world0, wd_host cli_world0)" by auto
  have run: "runConfig command_env0 (CApply ''c'' ''p'' ''sha256:'') cli_world0 = (Inr (), w')" using w' by (simp add: runConfig_def)
  show ?thesis using only_the_approved_plan_runs[OF run state] by (elim exE conjE) (intro exI conjI; assumption)
qed


end
