(* ===== verification/Auth.thy ===== *)
theory Auth
  imports Api
begin

text \<open>
  The module \<open>src/auth\<close>: session tokens (\<open>tokens.go\<close>) and the database of users, passkeys and
  invitations (\<open>users.go\<close>, \<open>webauthn.go\<close>, \<open>invites.go\<close>).

  HMAC-SHA256, base64 and the JSON form of the claims are the fields of \<open>token_env\<close>. The SQLite
  database is its three tables, rows in the order of insertion; each store operation is one SQL
  statement and may fail as a whole. Whether SQLite enforces foreign keys is a parameter: the code
  declares one, and SQLite ignores it unless a connection asks for enforcement, which the code does
  not. Credentials belong to the WebAuthn library; what the code reads of one is its ID and its
  counter. Times are nanoseconds.
\<close>

section \<open>Session tokens\<close>

record Claims =
  cl_Username :: string
  cl_IssuedAt :: int
  cl_ExpiresAt :: int

record token_env =
  te_hmac :: "string \<Rightarrow> string \<Rightarrow> string"
  te_b64 :: "string \<Rightarrow> string"
  te_unb64 :: "string \<Rightarrow> string option"
  te_json :: "Claims \<Rightarrow> string"
  te_unjson :: "string \<Rightarrow> Claims option"

datatype token_error = ErrTokenExpired | ErrTokenInvalid

definition Unix :: "int \<Rightarrow> int" where
  "Unix t = t div 1000000000"

definition jwtHeader :: string where
  "jwtHeader = ''eyJhbGciOiJIUzI1NiIsInR5cCI6IkpXVCJ9''"

definition CreateToken :: "token_env \<Rightarrow> string \<Rightarrow> string \<Rightarrow> int \<Rightarrow> int \<Rightarrow> string" where
  "CreateToken te secret username expiry now =
     (let claims = \<lparr>cl_Username = username, cl_IssuedAt = Unix now, cl_ExpiresAt = Unix (now + expiry)\<rparr>;
          data = jwtHeader @ ''.'' @ te_b64 te (te_json te claims);
          sig = te_hmac te secret data
      in data @ ''.'' @ te_b64 te sig)"

definition ValidateToken :: "token_env \<Rightarrow> string \<Rightarrow> string \<Rightarrow> int \<Rightarrow> token_error + Claims" where
  "ValidateToken te secret token now =
     (case Cut token (CHR ''.'') of (header, rest, found) \<Rightarrow>
      (case Cut rest (CHR ''.'') of (payload, signature, found2) \<Rightarrow>
        if \<not> found \<or> \<not> found2 then Inl ErrTokenInvalid
        else case te_unb64 te signature of
          None \<Rightarrow> Inl ErrTokenInvalid
        | Some sig \<Rightarrow>
            if sig \<noteq> te_hmac te secret (header @ ''.'' @ payload) then Inl ErrTokenInvalid
            else case te_unb64 te payload of
              None \<Rightarrow> Inl ErrTokenInvalid
            | Some payloadBytes \<Rightarrow>
                (case te_unjson te payloadBytes of
                   None \<Rightarrow> Inl ErrTokenInvalid
                 | Some claims \<Rightarrow> if Unix now > cl_ExpiresAt claims then Inl ErrTokenExpired else Inr claims)))"

text \<open>What the code relies on: decoding undoes encoding, and base64 text has no dot.\<close>

definition token_env_ok :: "token_env \<Rightarrow> bool" where
  "token_env_ok te \<longleftrightarrow> (\<forall>x. te_unb64 te (te_b64 te x) = Some x \<and> CHR ''.'' \<notin> set (te_b64 te x)) \<and>
     (\<forall>c. te_unjson te (te_json te c) = Some c)"

section \<open>The database\<close>

record 'k Credential =
  cred_ID :: "int list"
  cred_SignCount :: int
  cred_data :: 'k

record 'k passkey_row =
  pk_id :: string
  pk_username :: string
  pk_cred :: "'k Credential"
  pk_device_name :: string
  pk_created_at :: int

record invite_row =
  iv_token :: string
  iv_expires_at :: int
  iv_used :: bool

record 'k user_db =
  db_users :: "string list"
  db_passkeys :: "'k passkey_row list"
  db_invites :: "invite_row list"

datatype auth_error =
    ErrUserNotFound | ErrUserExists | ErrPasskeyNotFound | ErrInviteNotFound | ErrInviteExpired | ErrInviteUsed | DatabaseError

subsection \<open>Users\<close>

definition CreateUser :: "bool \<Rightarrow> string \<Rightarrow> 'k user_db \<Rightarrow> (auth_error + unit) \<times> 'k user_db" where
  "CreateUser fault username db =
     (if fault then (Inl DatabaseError, db)
      else if username \<in> set (db_users db) then (Inl ErrUserExists, db)
      else (Inr (), db\<lparr>db_users := db_users db @ [username]\<rparr>))"

definition DeleteUser :: "bool \<Rightarrow> bool \<Rightarrow> string \<Rightarrow> 'k user_db \<Rightarrow> (auth_error + unit) \<times> 'k user_db" where
  "DeleteUser fk fault username db =
     (if fault then (Inl DatabaseError, db)
      else if username \<notin> set (db_users db) then (Inl ErrUserNotFound, db)
      else (Inr (), db\<lparr>db_users := filter (\<lambda>u. u \<noteq> username) (db_users db),
              db_passkeys := (if fk then filter (\<lambda>p. pk_username p \<noteq> username) (db_passkeys db) else db_passkeys db)\<rparr>))"

definition ListUsers :: "bool \<Rightarrow> 'k user_db \<Rightarrow> auth_error + string list" where
  "ListUsers fault db = (if fault then Inl DatabaseError else Inr (sort (db_users db)))"

definition HasAnyUser :: "bool \<Rightarrow> 'k user_db \<Rightarrow> auth_error + bool" where
  "HasAnyUser fault db = (if fault then Inl DatabaseError else Inr (length (db_users db) > 0))"

subsection \<open>Passkeys\<close>

record 'k WebAuthnUser =
  wu_username :: string
  wu_credentials :: "'k Credential list"

definition NewWebAuthnUser :: "string \<Rightarrow> 'k WebAuthnUser" where
  "NewWebAuthnUser username = \<lparr>wu_username = username, wu_credentials = []\<rparr>"

definition GetWebAuthnUser :: "bool \<Rightarrow> string \<Rightarrow> 'k user_db \<Rightarrow> auth_error + 'k WebAuthnUser" where
  "GetWebAuthnUser fault username db =
     (if fault then Inl DatabaseError
      else if username \<notin> set (db_users db) then Inl ErrUserNotFound
      else Inr \<lparr>wu_username = username, wu_credentials = map pk_cred (filter (\<lambda>p. pk_username p = username) (db_passkeys db))\<rparr>)"

definition SavePasskey :: "bool \<Rightarrow> bool \<Rightarrow> string \<Rightarrow> 'k Credential \<Rightarrow> string \<Rightarrow> int \<Rightarrow> 'k user_db \<Rightarrow> (auth_error + unit) \<times> 'k user_db" where
  "SavePasskey fk fault username cred deviceName now db =
     (if fault \<or> hex (cred_ID cred) \<in> pk_id ` set (db_passkeys db) \<or> fk \<and> username \<notin> set (db_users db)
      then (Inl DatabaseError, db)
      else (Inr (), db\<lparr>db_passkeys := db_passkeys db @ [\<lparr>pk_id = hex (cred_ID cred), pk_username = username, pk_cred = cred,
              pk_device_name = deviceName, pk_created_at = Unix now\<rparr>]\<rparr>))"

definition ListPasskeys :: "bool \<Rightarrow> string \<Rightarrow> 'k user_db \<Rightarrow> auth_error + (string \<times> string \<times> int) list" where
  "ListPasskeys fault username db =
     (if fault then Inl DatabaseError
      else Inr (map (\<lambda>p. (pk_id p, pk_device_name p, pk_created_at p))
                 (sort_key pk_created_at (filter (\<lambda>p. pk_username p = username) (db_passkeys db)))))"

definition DeletePasskey :: "bool \<Rightarrow> string \<Rightarrow> string \<Rightarrow> 'k user_db \<Rightarrow> (auth_error + unit) \<times> 'k user_db" where
  "DeletePasskey fault credID username db =
     (if fault then (Inl DatabaseError, db)
      else if \<not> (\<exists>p \<in> set (db_passkeys db). pk_id p = credID \<and> pk_username p = username) then (Inl ErrPasskeyNotFound, db)
      else (Inr (), db\<lparr>db_passkeys := filter (\<lambda>p. \<not> (pk_id p = credID \<and> pk_username p = username)) (db_passkeys db)\<rparr>))"

text \<open>The counter of a credential that is gone is not updated, which is no error. The two statements
  may fail each.\<close>

definition UpdatePasskeySignCount :: "bool \<Rightarrow> bool \<Rightarrow> int list \<Rightarrow> int \<Rightarrow> 'k user_db \<Rightarrow> (auth_error + unit) \<times> 'k user_db" where
  "UpdatePasskeySignCount fault fault2 credID signCount db =
     (if fault then (Inl DatabaseError, db)
      else if hex credID \<notin> pk_id ` set (db_passkeys db) then (Inr (), db)
      else if fault2 then (Inl DatabaseError, db)
      else (Inr (), db\<lparr>db_passkeys := map (\<lambda>p. if pk_id p = hex credID then p\<lparr>pk_cred := (pk_cred p)\<lparr>cred_SignCount := signCount\<rparr>\<rparr> else p)
              (db_passkeys db)\<rparr>))"

subsection \<open>Invitations\<close>

definition CreateInviteToken :: "bool \<Rightarrow> string \<Rightarrow> int \<Rightarrow> 'k user_db \<Rightarrow> (auth_error + unit) \<times> 'k user_db" where
  "CreateInviteToken fault token expiresAt db =
     (if fault \<or> token \<in> iv_token ` set (db_invites db) then (Inl DatabaseError, db)
      else (Inr (), db\<lparr>db_invites := db_invites db @ [\<lparr>iv_token = token, iv_expires_at = Unix expiresAt, iv_used = False\<rparr>]\<rparr>))"

definition ValidateInviteToken :: "bool \<Rightarrow> int \<Rightarrow> string \<Rightarrow> 'k user_db \<Rightarrow> auth_error + unit" where
  "ValidateInviteToken fault now token db =
     (case (if fault then None else find (\<lambda>i. iv_token i = token) (db_invites db)) of
        None \<Rightarrow> Inl ErrInviteNotFound
      | Some i \<Rightarrow>
          if iv_used i then Inl ErrInviteUsed
          else if Unix now > iv_expires_at i then Inl ErrInviteExpired
          else Inr ())"

definition ConsumeInviteToken :: "bool \<Rightarrow> string \<Rightarrow> 'k user_db \<Rightarrow> (auth_error + unit) \<times> 'k user_db" where
  "ConsumeInviteToken fault token db =
     (if fault then (Inl DatabaseError, db)
      else if token \<notin> iv_token ` set (db_invites db) then (Inl ErrInviteNotFound, db)
      else (Inr (), db\<lparr>db_invites := map (\<lambda>i. if iv_token i = token then i\<lparr>iv_used := True\<rparr> else i) (db_invites db)\<rparr>))"

definition CleanupExpiredTokens :: "bool \<Rightarrow> int \<Rightarrow> 'k user_db \<Rightarrow> (auth_error + unit) \<times> 'k user_db" where
  "CleanupExpiredTokens fault now db =
     (if fault then (Inl DatabaseError, db)
      else (Inr (), db\<lparr>db_invites := filter (\<lambda>i. \<not> (iv_expires_at i < Unix now \<or> iv_used i)) (db_invites db)\<rparr>))"

section \<open>Tokens: lemmas\<close>

lemma Cut_append: "c \<notin> set s \<Longrightarrow> Cut (s @ c # t) c = (s, t, True)"
  using Cut_present[of c s t] by simp

lemma Cut_foundD: "Cut s c = (a, b, True) \<Longrightarrow> s = a @ c # b \<and> c \<notin> set a"
  using takeWhile_dropWhile_id[of "\<lambda>x. x \<noteq> c" s] set_takeWhileD[of c "\<lambda>x. x \<noteq> c" s]
  by (cases "dropWhile (\<lambda>x. x \<noteq> c) s") (auto simp: Cut_def dest!: dropWhile_eq_Cons_conv[THEN iffD1])

text \<open>The parts of a token that is accepted, written as one relation.\<close>

definition signed_by :: "token_env \<Rightarrow> string \<Rightarrow> string \<Rightarrow> Claims \<Rightarrow> bool" where
  "signed_by te secret token claims \<longleftrightarrow> (\<exists>header payload signature raw.
     token = header @ ''.'' @ payload @ ''.'' @ signature \<and> CHR ''.'' \<notin> set header \<and> CHR ''.'' \<notin> set payload \<and>
     te_unb64 te signature = Some (te_hmac te secret (header @ ''.'' @ payload)) \<and>
     te_unb64 te payload = Some raw \<and> te_unjson te raw = Some claims)"

lemma ValidateToken_parts:
  assumes "CHR ''.'' \<notin> set header" and "CHR ''.'' \<notin> set payload"
  shows "ValidateToken te secret (header @ ''.'' @ payload @ ''.'' @ signature) now =
    (case te_unb64 te signature of
       None \<Rightarrow> Inl ErrTokenInvalid
     | Some sig \<Rightarrow>
         if sig \<noteq> te_hmac te secret (header @ ''.'' @ payload) then Inl ErrTokenInvalid
         else case te_unb64 te payload of
           None \<Rightarrow> Inl ErrTokenInvalid
         | Some payloadBytes \<Rightarrow>
             (case te_unjson te payloadBytes of
                None \<Rightarrow> Inl ErrTokenInvalid
              | Some claims \<Rightarrow> if Unix now > cl_ExpiresAt claims then Inl ErrTokenExpired else Inr claims))"
  using Cut_append[OF assms(1), of "payload @ ''.'' @ signature"] Cut_append[OF assms(2), of signature]
  by (simp add: ValidateToken_def)

lemma ValidateToken_Inr:
  "ValidateToken te secret token now = Inr claims \<longleftrightarrow> signed_by te secret token claims \<and> Unix now \<le> cl_ExpiresAt claims"
proof
  assume a: "ValidateToken te secret token now = Inr claims"
  obtain h r f where c1: "Cut token (CHR ''.'') = (h, r, f)" by (metis surj_pair)
  obtain p s f2 where c2: "Cut r (CHR ''.'') = (p, s, f2)" by (metis surj_pair)
  from a have "f" "f2" by (auto simp: ValidateToken_def c1 c2 split: if_splits)
  with Cut_foundD[of token] Cut_foundD[of r] c1 c2
  have parts: "token = h @ ''.'' @ p @ ''.'' @ s" "CHR ''.'' \<notin> set h" "CHR ''.'' \<notin> set p" by auto
  from a have "te_unb64 te s = Some (te_hmac te secret (h @ ''.'' @ p)) \<and> Unix now \<le> cl_ExpiresAt claims \<and>
      (\<exists>raw. te_unb64 te p = Some raw \<and> te_unjson te raw = Some claims)"
    unfolding parts(1) ValidateToken_parts[OF parts(2,3)] by (auto split: option.splits if_splits)
  with parts show "signed_by te secret token claims \<and> Unix now \<le> cl_ExpiresAt claims" unfolding signed_by_def by blast
next
  assume "signed_by te secret token claims \<and> Unix now \<le> cl_ExpiresAt claims"
  then obtain h p s raw where t: "token = h @ ''.'' @ p @ ''.'' @ s" and dots: "CHR ''.'' \<notin> set h" "CHR ''.'' \<notin> set p"
    and sig: "te_unb64 te s = Some (te_hmac te secret (h @ ''.'' @ p))" "te_unb64 te p = Some raw" "te_unjson te raw = Some claims"
    and "Unix now \<le> cl_ExpiresAt claims"
    unfolding signed_by_def by blast
  then show "ValidateToken te secret token now = Inr claims"
    unfolding t ValidateToken_parts[OF dots] by (simp only: sig option.case if_False not_True_eq_False simp_thms) simp
qed

lemma jwtHeader_no_dot: "CHR ''.'' \<notin> set jwtHeader"
  by code_simp

lemma CreateToken_parts:
  "CreateToken te secret username expiry now =
     (let payload = te_b64 te (te_json te \<lparr>cl_Username = username, cl_IssuedAt = Unix now, cl_ExpiresAt = Unix (now + expiry)\<rparr>)
      in jwtHeader @ ''.'' @ payload @ ''.'' @ te_b64 te (te_hmac te secret (jwtHeader @ ''.'' @ payload)))"
  by (simp add: CreateToken_def Let_def)

lemma ValidateToken_CreateToken:
  assumes "token_env_ok te"
  shows "ValidateToken te secret (CreateToken te secret username expiry now) now' =
    (if Unix now' > Unix (now + expiry) then Inl ErrTokenExpired
     else Inr \<lparr>cl_Username = username, cl_IssuedAt = Unix now, cl_ExpiresAt = Unix (now + expiry)\<rparr>)"
  unfolding CreateToken_parts Let_def
  by (subst ValidateToken_parts) (use assms jwtHeader_no_dot in \<open>simp_all add: token_env_ok_def\<close>)

section \<open>Properties\<close>


section \<open>Samples\<close>

text \<open>An encoding of bytes without dots, and one of claims.\<close>

definition escape :: "char \<Rightarrow> string" where
  "escape c = (if c = CHR ''.'' then ''xo'' else if c = CHR ''x'' then ''xx'' else [c])"

fun unescape :: "string \<Rightarrow> string option" where
  "unescape [] = Some []"
| "unescape [c] = (if c = CHR ''x'' then None else Some [c])"
| "unescape (c # d # r) =
     (if c = CHR ''x''
      then map_option (\<lambda>t. (if d = CHR ''o'' then CHR ''.'' else CHR ''x'') # t) (unescape r)
      else map_option ((#) c) (unescape (d # r)))"

definition unary :: "int \<Rightarrow> string" where
  "unary n = (if n < 0 then CHR ''n'' else CHR ''p'') # replicate (nat \<bar>n\<bar>) (CHR ''i'')"

definition of_unary :: "string \<Rightarrow> int" where
  "of_unary s = (if take 1 s = ''n'' then - int (length s - 1) else int (length s - 1))"

definition token_env0 :: token_env where
  "token_env0 = \<lparr>te_hmac = (\<lambda>k d. k @ d), te_b64 = (\<lambda>s. concat (map escape s)), te_unb64 = unescape,
     te_json = (\<lambda>c. unary (cl_IssuedAt c) @ ''e'' @ unary (cl_ExpiresAt c) @ ''e'' @ cl_Username c),
     te_unjson = (\<lambda>s. case Cut s (CHR ''e'') of (a, r, _) \<Rightarrow> (case Cut r (CHR ''e'') of (b, u, _) \<Rightarrow>
       Some \<lparr>cl_Username = u, cl_IssuedAt = of_unary a, cl_ExpiresAt = of_unary b\<rparr>))\<rparr>"

lemma unescape_plain: "c \<noteq> CHR ''x'' \<Longrightarrow> unescape (c # r) = map_option ((#) c) (unescape r)"
  by (cases r) simp_all

lemma unescape_escape: "unescape (concat (map escape s)) = Some s"
  by (induction s) (auto simp: escape_def unescape_plain)

lemma unary_no_e: "CHR ''e'' \<notin> set (unary n)"
  by (simp add: unary_def)

lemma of_unary_unary: "of_unary (unary n) = n"
  by (simp add: unary_def of_unary_def)

lemma token_env0_ok: "token_env_ok token_env0"
proof -
  have "CHR ''.'' \<notin> set (concat (map escape s))" for s by (induction s) (auto simp: escape_def)
  moreover have "te_unjson token_env0 (te_json token_env0 c) = Some c" for c
    using Cut_append[OF unary_no_e, of "cl_IssuedAt c" "unary (cl_ExpiresAt c) @ ''e'' @ cl_Username c"]
      Cut_append[OF unary_no_e, of "cl_ExpiresAt c" "cl_Username c"]
    by (simp add: token_env0_def of_unary_unary)
  ultimately show ?thesis by (simp add: token_env_ok_def) (simp add: token_env0_def unescape_escape)
qed

end
