(* ===== verification/Login.thy ===== *)
theory Login
  imports Auth Host
begin

text \<open>
  Sessions, first-run setup, invitations, passkeys and users of the API
  (\<open>handler_passkey.go\<close>, \<open>handler_auth.go\<close>, \<open>handler_users.go\<close>) and the middleware that protects the
  other routes.

  The state is the database of theory \<open>Auth\<close>, the challenges in flight, and the session cookies that
  were handed out. The WebAuthn library is a parameter: the start of a ceremony yields its session
  or fails, a registration yields a credential or fails, and an assertion is checked against the
  user that the handler looks up by the raw ID of the response. Each call of the database may fail.
\<close>

section \<open>State and environment\<close>

datatype store_call =
    CallHas | CallCreate | CallSave | CallValidate | CallConsume | CallList | CallGet string | CallUpdate | CallUpdateWrite
  | CallDeleteUser | CallListPasskeys | CallDeletePasskey | CallCreateInvite

record ('k, 'c, 'r) login_env =
  lo_store :: bool
  lo_webauthn :: bool
  lo_mode :: string
  lo_secret :: string
  lo_token :: token_env
  lo_now :: int
  lo_random :: "int list option"
  lo_foreign_keys :: bool
  lo_fault :: "store_call \<Rightarrow> bool"
  lo_begin :: "'k WebAuthnUser \<Rightarrow> 'c option"
  lo_begin_login :: "'k WebAuthnUser \<Rightarrow> 'c option"
  lo_begin_discoverable :: "'c option"
  lo_create :: "'k WebAuthnUser \<Rightarrow> 'c \<Rightarrow> 'r \<Rightarrow> 'k Credential option"
  lo_rawID :: "'r \<Rightarrow> int list"
  lo_verify :: "'k WebAuthnUser \<Rightarrow> 'c \<Rightarrow> 'r \<Rightarrow> 'k Credential option"

record ('k, 'c) login_state =
  ls_db :: "'k user_db"
  ls_challenges :: "'c gomap"
  ls_issued :: "(string \<times> string) list"

datatype reply =
    NoContent | Available bool | Begun | LoginBegun string | ReplyUser string | InviteValid bool "auth_error option"
  | InviteCreated string int | Passkeys "(string \<times> string \<times> int) list" | Users "string list"

type_synonym ('k, 'c) handler = "('k, 'c) login_state \<Rightarrow> (failure + int \<times> reply) \<times> ('k, 'c) login_state"

definition apiTokenExpiry :: int where "apiTokenExpiry = 24 * 3600 * 1000000000"

definition queries :: "(auth_error \<Rightarrow> failure) \<Rightarrow> ('k user_db \<Rightarrow> auth_error + 'a) \<Rightarrow> ('k, 'c) login_state
    \<Rightarrow> (failure + 'a) \<times> ('k, 'c) login_state" where
  "queries h f s = (map_sum h id (f (ls_db s)), s)"

definition executes :: "(auth_error \<Rightarrow> failure) \<Rightarrow> ('k user_db \<Rightarrow> (auth_error + unit) \<times> 'k user_db) \<Rightarrow> ('k, 'c) login_state
    \<Rightarrow> (failure + unit) \<times> ('k, 'c) login_state" where
  "executes h f s = (case f (ls_db s) of (r, db) \<Rightarrow> (map_sum h id r, s\<lparr>ls_db := db\<rparr>))"

text \<open>A statement whose error the handler only logs.\<close>

definition executes_logged :: "('k user_db \<Rightarrow> (auth_error + unit) \<times> 'k user_db) \<Rightarrow> ('k, 'c) login_state
    \<Rightarrow> (failure + unit) \<times> ('k, 'c) login_state" where
  "executes_logged f s = (Inr (), s\<lparr>ls_db := snd (f (ls_db s))\<rparr>)"

definition set_challenge :: "string \<Rightarrow> 'c \<Rightarrow> ('k, 'c) login_state \<Rightarrow> (failure + unit) \<times> ('k, 'c) login_state" where
  "set_challenge key sd s = (Inr (), s\<lparr>ls_challenges := AList.update key sd (ls_challenges s)\<rparr>)"

definition delete_challenge :: "string \<Rightarrow> ('k, 'c) login_state \<Rightarrow> (failure + unit) \<times> ('k, 'c) login_state" where
  "delete_challenge key s = (Inr (), s\<lparr>ls_challenges := AList.delete key (ls_challenges s)\<rparr>)"

definition get_challenge :: "api_error \<Rightarrow> string \<Rightarrow> ('k, 'c) login_state \<Rightarrow> (failure + 'c) \<times> ('k, 'c) login_state" where
  "get_challenge err key s = (case map_of (ls_challenges s) key of None \<Rightarrow> (Inl (400, err), s) | Some sd \<Rightarrow> (Inr sd, s))"

text \<open>The cleanup that runs every five minutes forgets all challenges.\<close>

definition cleanup_challenges :: "('k, 'c) login_state \<Rightarrow> ('k, 'c) login_state" where
  "cleanup_challenges s = s\<lparr>ls_challenges := []\<rparr>"

definition internal :: "auth_error \<Rightarrow> failure" where
  "internal _ = (500, Msg ''internal error'')"

definition of_option :: "int \<Rightarrow> string \<Rightarrow> 'a option \<Rightarrow> 's \<Rightarrow> (failure + 'a) \<times> 's" where
  "of_option code msg x = (case x of None \<Rightarrow> fail code (Msg msg) | Some v \<Rightarrow> ok v)"

section \<open>Sessions\<close>

definition tokenFromRequest :: "('k, 'c, 'r) login_env \<Rightarrow> string option \<Rightarrow> failure + Claims" where
  "tokenFromRequest env cookie =
     (case cookie of
        None \<Rightarrow> Inl (401, Msg ''unauthorized'')
      | Some value \<Rightarrow>
          (case ValidateToken (lo_token env) (lo_secret env) value (lo_now env) of
             Inl _ \<Rightarrow> Inl (401, Msg ''unauthorized'')
           | Inr claims \<Rightarrow> Inr claims))"

definition requireAuth :: "('k, 'c, 'r) login_env \<Rightarrow> string option \<Rightarrow> failure + unit" where
  "requireAuth env cookie =
     (if lo_mode env = ''waf_only'' then Inr ()
      else if \<not> lo_store env \<or> length (lo_secret env) = 0 then Inr ()
      else case tokenFromRequest env cookie of Inl err \<Rightarrow> Inl err | Inr _ \<Rightarrow> Inr ())"

definition me :: "('k, 'c, 'r) login_env \<Rightarrow> string option \<Rightarrow> ('k, 'c) handler" where
  "me env cookie =
     (if lo_mode env = ''waf_only'' then fail 503 (Msg ''auth not configured'')
      else if length (lo_secret env) = 0 then fail 503 (Msg ''auth not configured'')
      else case tokenFromRequest env cookie of
        Inl (code, err) \<Rightarrow> fail code err
      | Inr claims \<Rightarrow> ok (200, ReplyUser (cl_Username claims)))"

definition issueSessionCookie :: "('k, 'c, 'r) login_env \<Rightarrow> string \<Rightarrow> ('k, 'c) login_state \<Rightarrow> (failure + unit) \<times> ('k, 'c) login_state" where
  "issueSessionCookie env username s =
     (Inr (), s\<lparr>ls_issued := ls_issued s @ [(username, CreateToken (lo_token env) (lo_secret env) username apiTokenExpiry (lo_now env))]\<rparr>)"

definition configured :: "bool \<Rightarrow> 's \<Rightarrow> (failure + unit) \<times> 's" where
  "configured b = require b 503 (Msg ''auth not configured'')"

section \<open>Setup\<close>

definition setupAvailable :: "('k, 'c, 'r) login_env \<Rightarrow> ('k, 'c) handler" where
  "setupAvailable env =
     (if \<not> lo_store env then ok (200, Available False)
      else bind (queries internal (HasAnyUser (lo_fault env CallHas))) (\<lambda>has. ok (200, Available (\<not> has))))"

definition setupIsAllowed :: "('k, 'c, 'r) login_env \<Rightarrow> ('k, 'c) login_state \<Rightarrow> (failure + unit) \<times> ('k, 'c) login_state" where
  "setupIsAllowed env =
     bind (configured (lo_store env \<and> lo_webauthn env)) (\<lambda>_.
     bind (queries internal (HasAnyUser (lo_fault env CallHas))) (\<lambda>has.
     require (\<not> has) 403 (Msg ''setup already complete'')))"

definition passkeySetupBegin :: "('k, 'c, 'r) login_env \<Rightarrow> string option \<Rightarrow> ('k, 'c) handler" where
  "passkeySetupBegin env decoded =
     bind (setupIsAllowed env) (\<lambda>_.
     bind (of_option 400 ''invalid request body'' decoded) (\<lambda>body.
     (let username = TrimSpace body in
      bind (require (username \<noteq> []) 400 (Msg ''username is required'')) (\<lambda>_.
      bind (of_option 500 ''internal error'' (lo_begin env (NewWebAuthnUser username))) (\<lambda>session.
      bind (set_challenge (''setup:'' @ username) session) (\<lambda>_. ok (200, Begun)))))))"

text \<open>What setup and invitation do with a credential: an existing user is not an error.\<close>

definition register :: "('k, 'c, 'r) login_env \<Rightarrow> string \<Rightarrow> 'c \<Rightarrow> 'r option \<Rightarrow> ('k, 'c) login_state \<Rightarrow> (failure + unit) \<times> ('k, 'c) login_state" where
  "register env username session response =
     bind (of_option 400 ''invalid credential response'' response) (\<lambda>parsed.
     bind (of_option 400 ''registration failed'' (lo_create env (NewWebAuthnUser username) session parsed)) (\<lambda>cred.
     bind (\<lambda>s. case CreateUser (lo_fault env CallCreate) username (ls_db s) of
               (Inl err, db) \<Rightarrow> if err = ErrUserExists then (Inr (), s\<lparr>ls_db := db\<rparr>) else (Inl (internal err), s\<lparr>ls_db := db\<rparr>)
             | (Inr _, db) \<Rightarrow> (Inr (), s\<lparr>ls_db := db\<rparr>)) (\<lambda>_.
     executes internal (SavePasskey (lo_foreign_keys env) (lo_fault env CallSave) username cred [] (lo_now env)))))"

definition passkeySetupFinish :: "('k, 'c, 'r) login_env \<Rightarrow> string \<Rightarrow> 'r option \<Rightarrow> ('k, 'c) handler" where
  "passkeySetupFinish env query response =
     bind (setupIsAllowed env) (\<lambda>_.
     (let username = TrimSpace query in
      bind (require (username \<noteq> []) 400 (Msg ''username query param is required'')) (\<lambda>_.
      bind (get_challenge (Msg ''no pending registration session'') (''setup:'' @ username)) (\<lambda>session.
      bind (delete_challenge (''setup:'' @ username)) (\<lambda>_.
      bind (register env username session response) (\<lambda>_.
      bind (issueSessionCookie env username) (\<lambda>_. ok (200, ReplyUser username))))))))"

section \<open>Invitations\<close>

definition validateInvite :: "('k, 'c, 'r) login_env \<Rightarrow> string \<Rightarrow> ('k, 'c) handler" where
  "validateInvite env query =
     (if \<not> lo_store env then ok (200, InviteValid False None)
      else let token = TrimSpace query in
        bind (require (token \<noteq> []) 400 (Msg ''token is required'')) (\<lambda>_ s.
          case ValidateInviteToken (lo_fault env CallValidate) (lo_now env) token (ls_db s) of
            Inl err \<Rightarrow> (Inr (200, InviteValid False (Some err)), s)
          | Inr _ \<Rightarrow> (Inr (200, InviteValid True None), s)))"

definition invite_allowed :: "('k, 'c, 'r) login_env \<Rightarrow> string \<Rightarrow> ('k, 'c) login_state \<Rightarrow> (failure + unit) \<times> ('k, 'c) login_state" where
  "invite_allowed env token =
     queries (\<lambda>_. (403, Msg ''invalid or expired invite token'')) (ValidateInviteToken (lo_fault env CallValidate) (lo_now env) token)"

definition invite_key :: "string \<Rightarrow> string \<Rightarrow> string" where
  "invite_key token username = ''invite:'' @ token @ '':'' @ username"

definition passkeyInviteBegin :: "('k, 'c, 'r) login_env \<Rightarrow> (string \<times> string) option \<Rightarrow> ('k, 'c) handler" where
  "passkeyInviteBegin env decoded =
     bind (configured (lo_store env \<and> lo_webauthn env)) (\<lambda>_.
     bind (of_option 400 ''invalid request body'' decoded) (\<lambda>body.
     (let token = TrimSpace (fst body); username = TrimSpace (snd body) in
      bind (require (token \<noteq> [] \<and> username \<noteq> []) 400 (Msg ''token and username are required'')) (\<lambda>_.
      bind (invite_allowed env token) (\<lambda>_.
      bind (of_option 500 ''internal error'' (lo_begin env (NewWebAuthnUser username))) (\<lambda>session.
      bind (set_challenge (invite_key token username) session) (\<lambda>_. ok (200, Begun))))))))"

definition passkeyInviteFinish :: "('k, 'c, 'r) login_env \<Rightarrow> string \<Rightarrow> string \<Rightarrow> 'r option \<Rightarrow> ('k, 'c) handler" where
  "passkeyInviteFinish env tokenQuery usernameQuery response =
     bind (configured (lo_store env \<and> lo_webauthn env)) (\<lambda>_.
     (let token = TrimSpace tokenQuery; username = TrimSpace usernameQuery; sessionKey = invite_key token username in
      bind (require (token \<noteq> [] \<and> username \<noteq> []) 400 (Msg ''token and username query params are required'')) (\<lambda>_.
      bind (invite_allowed env token) (\<lambda>_.
      bind (get_challenge (Msg ''no pending registration session'') sessionKey) (\<lambda>session.
      bind (delete_challenge sessionKey) (\<lambda>_.
      bind (register env username session response) (\<lambda>_.
      bind (executes_logged (ConsumeInviteToken (lo_fault env CallConsume) token)) (\<lambda>_.
      bind (issueSessionCookie env username) (\<lambda>_. ok (200, ReplyUser username))))))))))"

section \<open>Login\<close>

definition passkeyLoginBegin :: "('k, 'c, 'r) login_env \<Rightarrow> string option \<Rightarrow> ('k, 'c) handler" where
  "passkeyLoginBegin env decoded =
     bind (configured (lo_store env \<and> lo_webauthn env)) (\<lambda>_.
     (let username = TrimSpace (case decoded of None \<Rightarrow> [] | Some u \<Rightarrow> u) in
      bind (of_option 500 ''internal error'' (lo_random env)) (\<lambda>sidBytes s.
      (let sid = hex sidBytes;
           known = (if username \<noteq> []
                    then (case GetWebAuthnUser (lo_fault env (CallGet username)) username (ls_db s) of
                            Inl _ \<Rightarrow> None | Inr user \<Rightarrow> lo_begin_login env user)
                    else None);
           session = (case known of None \<Rightarrow> lo_begin_discoverable env | Some sd \<Rightarrow> Some sd) in
       bind (of_option 500 ''internal error'' session) (\<lambda>sd.
       bind (set_challenge (''login:'' @ sid) sd) (\<lambda>_. ok (200, LoginBegun sid))) s))))"

text \<open>The user one of whose credentials has the raw ID, looked for in the order of the names.\<close>

fun find_user :: "('k, 'c, 'r) login_env \<Rightarrow> int list \<Rightarrow> 'k user_db \<Rightarrow> string list \<Rightarrow> 'k WebAuthnUser option" where
  "find_user env rawID db [] = None"
| "find_user env rawID db (u # us) =
     (case GetWebAuthnUser (lo_fault env (CallGet u)) u db of
        Inl _ \<Rightarrow> find_user env rawID db us
      | Inr waUser \<Rightarrow>
          if \<exists>c \<in> set (wu_credentials waUser). hex (cred_ID c) = hex rawID then Some waUser
          else find_user env rawID db us)"

definition ValidateDiscoverableLogin :: "('k, 'c, 'r) login_env \<Rightarrow> 'c \<Rightarrow> 'r \<Rightarrow> 'k user_db \<Rightarrow> (string \<times> 'k Credential) option" where
  "ValidateDiscoverableLogin env session parsed db =
     (case ListUsers (lo_fault env CallList) db of
        Inl _ \<Rightarrow> None
      | Inr users \<Rightarrow>
          (case find_user env (lo_rawID env parsed) db users of
             None \<Rightarrow> None
           | Some waUser \<Rightarrow>
               (case lo_verify env waUser session parsed of
                  None \<Rightarrow> None
                | Some cred \<Rightarrow> if wu_username waUser = [] then None else Some (wu_username waUser, cred))))"

definition passkeyLoginFinish :: "('k, 'c, 'r) login_env \<Rightarrow> string option \<Rightarrow> 'r option \<Rightarrow> ('k, 'c) handler" where
  "passkeyLoginFinish env sidCookie response =
     bind (configured (lo_store env \<and> lo_webauthn env)) (\<lambda>_.
     bind (of_option 400 ''missing session cookie'' sidCookie) (\<lambda>value.
     (let sid = TrimSpace value in
      bind (get_challenge (Msg ''no pending login session'') (''login:'' @ sid)) (\<lambda>session.
      bind (of_option 400 ''invalid credential response'' response) (\<lambda>parsed.
      bind (delete_challenge (''login:'' @ sid)) (\<lambda>_.
      bind (\<lambda>s. of_option 401 ''unauthorized'' (ValidateDiscoverableLogin env session parsed (ls_db s)) s) (\<lambda>authenticated.
      bind (executes_logged (UpdatePasskeySignCount (lo_fault env CallUpdate) (lo_fault env CallUpdateWrite)
              (cred_ID (snd authenticated)) (cred_SignCount (snd authenticated)))) (\<lambda>_.
      bind (issueSessionCookie env (fst authenticated)) (\<lambda>_. ok (200, ReplyUser (fst authenticated)))))))))))"

section \<open>Protected routes\<close>

definition createInvite :: "('k, 'c, 'r) login_env \<Rightarrow> ('k, 'c) handler" where
  "createInvite env =
     bind (configured (lo_store env)) (\<lambda>_.
     bind (of_option 500 ''internal error'' (lo_random env)) (\<lambda>tokenBytes.
     (let token = hex tokenBytes; expiresAt = lo_now env + 30 * 60 * 1000000000 in
      bind (executes internal (CreateInviteToken (lo_fault env CallCreateInvite) token expiresAt)) (\<lambda>_.
      ok (201, InviteCreated token expiresAt)))))"

definition listPasskeys :: "('k, 'c, 'r) login_env \<Rightarrow> string option \<Rightarrow> ('k, 'c) handler" where
  "listPasskeys env cookie =
     bind (configured (lo_store env)) (\<lambda>_.
     bind (from_sum id (tokenFromRequest env cookie)) (\<lambda>claims.
     bind (queries internal (ListPasskeys (lo_fault env CallListPasskeys) (cl_Username claims))) (\<lambda>passkeys. ok (200, Passkeys passkeys))))"

definition deletePasskey :: "('k, 'c, 'r) login_env \<Rightarrow> string option \<Rightarrow> string \<Rightarrow> ('k, 'c) handler" where
  "deletePasskey env cookie pathID =
     bind (configured (lo_store env)) (\<lambda>_.
     bind (from_sum id (tokenFromRequest env cookie)) (\<lambda>claims.
     (let credID = TrimSpace pathID in
      bind (require (credID \<noteq> []) 400 (Msg ''id is required'')) (\<lambda>_.
      bind (executes (\<lambda>err. if err = ErrPasskeyNotFound then (404, Msg ''passkey not found'') else internal err)
              (DeletePasskey (lo_fault env CallDeletePasskey) credID (cl_Username claims))) (\<lambda>_. ok (204, NoContent))))))"

definition listUsers :: "('k, 'c, 'r) login_env \<Rightarrow> ('k, 'c) handler" where
  "listUsers env =
     bind (configured (lo_store env)) (\<lambda>_.
     bind (queries internal (ListUsers (lo_fault env CallList))) (\<lambda>users. ok (200, Users users)))"

definition createUser :: "('k, 'c, 'r) login_env \<Rightarrow> string option \<Rightarrow> ('k, 'c) handler" where
  "createUser env decoded =
     bind (configured (lo_store env)) (\<lambda>_.
     bind (of_option 400 ''invalid request body'' decoded) (\<lambda>body.
     (let username = TrimSpace body in
      bind (require (username \<noteq> []) 400 (Msg ''username is required'')) (\<lambda>_.
      bind (executes (\<lambda>err. if err = ErrUserExists then (409, Msg ''user already exists'') else internal err)
              (CreateUser (lo_fault env CallCreate) username)) (\<lambda>_. ok (201, ReplyUser username))))))"

definition deleteUser :: "('k, 'c, 'r) login_env \<Rightarrow> string \<Rightarrow> ('k, 'c) handler" where
  "deleteUser env pathUsername =
     bind (configured (lo_store env)) (\<lambda>_.
     (let username = TrimSpace pathUsername in
      bind (require (username \<noteq> []) 400 (Msg ''username is required'')) (\<lambda>_.
      bind (executes (\<lambda>err. if err = ErrUserNotFound then (404, Msg ''user not found'') else internal err)
              (DeleteUser (lo_foreign_keys env) (lo_fault env CallDeleteUser) username)) (\<lambda>_. ok (204, NoContent)))))"

section \<open>Serving a request\<close>

datatype 'r auth_request =
    Logout | Me | SetupAvailable | SetupBegin "string option" | SetupFinish string "'r option"
  | Invite string | InviteBegin "(string \<times> string) option" | InviteFinish string string "'r option"
  | LoginBegin "string option" | LoginFinish "string option" "'r option"
  | ListUsersReq | CreateUserReq "string option" | DeleteUserReq string | CreateInviteReq | ListPasskeysReq | DeletePasskeyReq string

definition protected :: "'r auth_request \<Rightarrow> bool" where
  "protected req =
     (case req of
        ListUsersReq \<Rightarrow> True | CreateUserReq _ \<Rightarrow> True | DeleteUserReq _ \<Rightarrow> True
      | CreateInviteReq \<Rightarrow> True | ListPasskeysReq \<Rightarrow> True | DeletePasskeyReq _ \<Rightarrow> True
      | _ \<Rightarrow> False)"

definition route :: "('k, 'c, 'r) login_env \<Rightarrow> string option \<Rightarrow> 'r auth_request \<Rightarrow> ('k, 'c) handler" where
  "route env cookie req =
     (case req of
        Logout \<Rightarrow> ok (204, NoContent)
      | Me \<Rightarrow> me env cookie
      | SetupAvailable \<Rightarrow> setupAvailable env
      | SetupBegin body \<Rightarrow> passkeySetupBegin env body
      | SetupFinish username response \<Rightarrow> passkeySetupFinish env username response
      | Invite token \<Rightarrow> validateInvite env token
      | InviteBegin body \<Rightarrow> passkeyInviteBegin env body
      | InviteFinish token username response \<Rightarrow> passkeyInviteFinish env token username response
      | LoginBegin body \<Rightarrow> passkeyLoginBegin env body
      | LoginFinish sid response \<Rightarrow> passkeyLoginFinish env sid response
      | ListUsersReq \<Rightarrow> listUsers env
      | CreateUserReq body \<Rightarrow> createUser env body
      | DeleteUserReq username \<Rightarrow> deleteUser env username
      | CreateInviteReq \<Rightarrow> createInvite env
      | ListPasskeysReq \<Rightarrow> listPasskeys env cookie
      | DeletePasskeyReq k \<Rightarrow> deletePasskey env cookie k)"

definition serve :: "('k, 'c, 'r) login_env \<Rightarrow> string option \<Rightarrow> 'r auth_request \<Rightarrow> ('k, 'c) handler" where
  "serve env cookie req =
     (if protected req then bind (from_sum id (requireAuth env cookie)) (\<lambda>_. route env cookie req) else route env cookie req)"

section \<open>What handlers may change\<close>

text \<open>Every run of \<open>m\<close> relates its states by \<open>R\<close>, which for a reflexive and transitive \<open>R\<close> carries over
  to sequences.\<close>

definition obeys :: "('s \<Rightarrow> 's \<Rightarrow> bool) \<Rightarrow> ('s \<Rightarrow> 'a \<times> 's) \<Rightarrow> bool" where
  "obeys R m \<longleftrightarrow> (\<forall>s. R s (snd (m s)))"

lemma obeys_bind:
  assumes "transp R" and "obeys R m" and "\<And>x. obeys R (f x)"
  shows "obeys R (bind m f)"
  unfolding obeys_def
proof
  fix s
  have m: "R s (snd (m s))" using assms(2) by (simp add: obeys_def)
  show "R s (snd (bind m f s))"
  proof (cases "m s")
    case (Pair r s1)
    have "R s1 (snd (f x s1))" for x using assms(3) by (simp add: obeys_def)
    with m transpD[OF assms(1), of s s1] show ?thesis by (cases r) (auto simp: bind_def Pair)
  qed
qed

lemma obeys_pure:
  assumes "reflp R"
  shows "obeys R (ok x)" "obeys R (fail c e)" "obeys R (require b c e)" "obeys R (from_sum h r)"
    "obeys R (of_option c msg y)" "obeys R (configured b)"
  using assms by (simp_all add: obeys_def ok_def fail_def require_def from_sum_def of_option_def configured_def reflp_def split: option.split)

text \<open>Challenges apart, nothing changes.\<close>

definition same_accounts :: "('k, 'c) login_state \<Rightarrow> ('k, 'c) login_state \<Rightarrow> bool" where
  "same_accounts s s' \<longleftrightarrow> ls_db s' = ls_db s \<and> ls_issued s' = ls_issued s"

text \<open>The user \<open>u\<close> may be created, may get passkeys and sessions, and the invitations in \<open>T\<close> may be used up.\<close>

definition grants :: "('k, 'c, 'r) login_env \<Rightarrow> string \<Rightarrow> string set \<Rightarrow> ('k, 'c) login_state \<Rightarrow> ('k, 'c) login_state \<Rightarrow> bool" where
  "grants env u T s s' \<longleftrightarrow>
     (\<exists>us ps ts T'. db_users (ls_db s') = db_users (ls_db s) @ us \<and> set us \<subseteq> {u} \<and>
        db_passkeys (ls_db s') = db_passkeys (ls_db s) @ ps \<and> (\<forall>p \<in> set ps. pk_username p = u) \<and>
        db_invites (ls_db s') = map (\<lambda>i. if iv_token i \<in> T' then i\<lparr>iv_used := True\<rparr> else i) (db_invites (ls_db s)) \<and> T' \<subseteq> T \<and>
        ls_issued s' = ls_issued s @ ts \<and>
        (\<forall>t \<in> set ts. t = (u, CreateToken (lo_token env) (lo_secret env) u apiTokenExpiry (lo_now env))))"

text \<open>Passkeys keep their owners and change their counters only, and \<open>u\<close> may get sessions.\<close>

definition key_owners :: "'k user_db \<Rightarrow> (string \<times> string \<times> int list) list" where
  "key_owners db = map (\<lambda>p. (pk_id p, pk_username p, cred_ID (pk_cred p))) (db_passkeys db)"

definition logs_in :: "('k, 'c, 'r) login_env \<Rightarrow> string \<Rightarrow> ('k, 'c) login_state \<Rightarrow> ('k, 'c) login_state \<Rightarrow> bool" where
  "logs_in env u s s' \<longleftrightarrow>
     db_users (ls_db s') = db_users (ls_db s) \<and> key_owners (ls_db s') = key_owners (ls_db s) \<and> db_invites (ls_db s') = db_invites (ls_db s) \<and>
     (\<exists>ts. ls_issued s' = ls_issued s @ ts \<and>
        (\<forall>t \<in> set ts. t = (u, CreateToken (lo_token env) (lo_secret env) u apiTokenExpiry (lo_now env))))"

lemma same_accounts_pre: "reflp same_accounts" "transp same_accounts"
  by (auto simp: same_accounts_def intro!: reflpI transpI)

lemma logs_in_pre: "reflp (logs_in env u)" "transp (logs_in env u)"
proof -
  show "reflp (logs_in env u)" by (auto simp: logs_in_def intro!: reflpI)
  show "transp (logs_in env u)"
  proof (rule transpI)
    fix x y z assume a: "logs_in env u x y" "logs_in env u y z"
    let ?ok = "\<lambda>t. t = (u, CreateToken (lo_token env) (lo_secret env) u apiTokenExpiry (lo_now env))"
    from a(1) obtain ts where 1: "ls_issued y = ls_issued x @ ts" "\<forall>t \<in> set ts. ?ok t" unfolding logs_in_def by blast
    from a(2) obtain ts' where 2: "ls_issued z = ls_issued y @ ts'" "\<forall>t \<in> set ts'. ?ok t" unfolding logs_in_def by blast
    from 1 2 have "ls_issued z = ls_issued x @ (ts @ ts')" "\<forall>t \<in> set (ts @ ts'). ?ok t" by auto
    then have "\<exists>ts. ls_issued z = ls_issued x @ ts \<and> (\<forall>t \<in> set ts. ?ok t)" by blast
    with a show "logs_in env u x z" unfolding logs_in_def by metis
  qed
qed

lemma grants_pre: "reflp (grants env u T)" "transp (grants env u T)"
proof -
  have "map (\<lambda>i. if iv_token i \<in> {} then i\<lparr>iv_used := True\<rparr> else i) is = is" for "is" :: "invite_row list" by simp
  then show "reflp (grants env u T)"
    unfolding grants_def by (intro reflpI exI[of _ "[]"] exI[of _ "{}"]) (simp add: map_idI)
  show "transp (grants env u T)"
  proof (rule transpI)
    fix x y z assume "grants env u T x y" "grants env u T y z"
    from this(1) obtain us ps ts T1 where a: "db_users (ls_db y) = db_users (ls_db x) @ us" "set us \<subseteq> {u}"
      "db_passkeys (ls_db y) = db_passkeys (ls_db x) @ ps" "\<forall>p \<in> set ps. pk_username p = u"
      "db_invites (ls_db y) = map (\<lambda>i. if iv_token i \<in> T1 then i\<lparr>iv_used := True\<rparr> else i) (db_invites (ls_db x))" "T1 \<subseteq> T"
      "ls_issued y = ls_issued x @ ts" "\<forall>t \<in> set ts. t = (u, CreateToken (lo_token env) (lo_secret env) u apiTokenExpiry (lo_now env))"
      unfolding grants_def by blast
    from \<open>grants env u T y z\<close> obtain us' ps' ts' T2 where b: "db_users (ls_db z) = db_users (ls_db y) @ us'" "set us' \<subseteq> {u}"
      "db_passkeys (ls_db z) = db_passkeys (ls_db y) @ ps'" "\<forall>p \<in> set ps'. pk_username p = u"
      "db_invites (ls_db z) = map (\<lambda>i. if iv_token i \<in> T2 then i\<lparr>iv_used := True\<rparr> else i) (db_invites (ls_db y))" "T2 \<subseteq> T"
      "ls_issued z = ls_issued y @ ts'" "\<forall>t \<in> set ts'. t = (u, CreateToken (lo_token env) (lo_secret env) u apiTokenExpiry (lo_now env))"
      unfolding grants_def by blast
    have "db_invites (ls_db z) = map (\<lambda>i. if iv_token i \<in> T1 \<union> T2 then i\<lparr>iv_used := True\<rparr> else i) (db_invites (ls_db x))"
      unfolding b(5) a(5) by (auto simp: comp_def)
    then show "grants env u T x z"
      unfolding grants_def
      by (intro exI[of _ "us @ us'"] exI[of _ "ps @ ps'"] exI[of _ "ts @ ts'"] exI[of _ "T1 \<union> T2"]) (use a b in auto)
  qed
qed

lemma obeys_challenges:
  assumes "reflp R" and "\<And>s cs. R s (s\<lparr>ls_challenges := cs\<rparr>)"
  shows "obeys R (set_challenge key sd)" "obeys R (delete_challenge key)" "obeys R (get_challenge err key)" "obeys R (queries h f)"
  using assms by (simp_all add: obeys_def set_challenge_def delete_challenge_def get_challenge_def queries_def reflp_def split: option.split)

lemma challenges_free:
  "same_accounts s (s\<lparr>ls_challenges := cs\<rparr>)" "grants env u T s (s\<lparr>ls_challenges := cs\<rparr>)" "logs_in env u s (s\<lparr>ls_challenges := cs\<rparr>)"
proof -
  have "grants env u T s s" using grants_pre(1)[of env u T] by (simp add: reflp_def)
  then show "grants env u T s (s\<lparr>ls_challenges := cs\<rparr>)" by (simp add: grants_def)
qed (simp_all add: same_accounts_def logs_in_def)

lemmas same_rules = obeys_bind[OF same_accounts_pre(2)] obeys_pure[OF same_accounts_pre(1)]
  obeys_challenges[OF same_accounts_pre(1) challenges_free(1)]
lemmas grants_rules = obeys_bind[OF grants_pre(2)] obeys_pure[OF grants_pre(1)]
  obeys_challenges[OF grants_pre(1) challenges_free(2)]
lemmas logs_in_rules = obeys_bind[OF logs_in_pre(2)] obeys_pure[OF logs_in_pre(1)]
  obeys_challenges[OF logs_in_pre(1) challenges_free(3)]

lemma grantsI:
  assumes "db_users (ls_db s') = db_users (ls_db s) @ us" and "set us \<subseteq> {u}" and "db_passkeys (ls_db s') = db_passkeys (ls_db s) @ ps"
    and "\<forall>p \<in> set ps. pk_username p = u"
    and "db_invites (ls_db s') = map (\<lambda>i. if iv_token i \<in> T' then i\<lparr>iv_used := True\<rparr> else i) (db_invites (ls_db s))" and "T' \<subseteq> T"
    and "ls_issued s' = ls_issued s @ ts"
    and "\<forall>t \<in> set ts. t = (u, CreateToken (lo_token env) (lo_secret env) u apiTokenExpiry (lo_now env))"
  shows "grants env u T s s'"
  using assms unfolding grants_def by blast

lemma grants_refl: "grants env u T s s"
  using grants_pre(1)[of env u T] by (simp add: reflp_def)

lemma obeys_create_user:
  "obeys (grants env u T) (\<lambda>s. case CreateUser f u (ls_db s) of
     (Inl err, db) \<Rightarrow> if err = ErrUserExists then (Inr (), s\<lparr>ls_db := db\<rparr>) else (Inl (internal err), s\<lparr>ls_db := db\<rparr>)
   | (Inr _, db) \<Rightarrow> (Inr (), s\<lparr>ls_db := db\<rparr>))"
proof -
  have "grants env u T s (s\<lparr>ls_db := snd (CreateUser f u (ls_db s))\<rparr>)" for s :: "('a, 'b) login_state"
    by (cases "f \<or> u \<in> set (db_users (ls_db s))")
      (auto simp: CreateUser_def grants_refl intro: grantsI[where us = "[u]" and T' = "{}" and ps = "[]" and ts = "[]"])
  then show ?thesis by (simp add: obeys_def split: prod.split sum.split) (metis snd_conv)
qed

lemma obeys_save: "obeys (grants env u T) (executes h (SavePasskey fk f u cred d now))"
proof -
  have "grants env u T s (s\<lparr>ls_db := snd (SavePasskey fk f u cred d now (ls_db s))\<rparr>)" for s :: "('a, 'b) login_state"
  proof (cases "f \<or> hex (cred_ID cred) \<in> pk_id ` set (db_passkeys (ls_db s)) \<or> fk \<and> u \<notin> set (db_users (ls_db s))")
    case True
    then show ?thesis by (auto simp: SavePasskey_def grants_refl)
  next
    case False
    then show ?thesis
      by (auto simp: SavePasskey_def intro!: grantsI[where us = "[]" and T' = "{}" and ts = "[]"])
  qed
  then show ?thesis by (simp add: obeys_def executes_def split: prod.split) (metis snd_conv)
qed

lemma obeys_consume: "t \<in> T \<Longrightarrow> obeys (grants env u T) (executes_logged (ConsumeInviteToken f t))"
  by (auto simp: obeys_def executes_logged_def ConsumeInviteToken_def grants_refl
    intro: grantsI[where us = "[]" and T' = "{t}" and ps = "[]" and ts = "[]"])

lemma obeys_issue: "obeys (grants env u T) (issueSessionCookie env u)" "obeys (logs_in env u) (issueSessionCookie env u)"
  by (auto simp: obeys_def issueSessionCookie_def logs_in_def intro!: grantsI[where us = "[]" and T' = "{}" and ps = "[]"])

lemma obeys_sign_count: "obeys (logs_in env u) (executes_logged (UpdatePasskeySignCount f g k n))"
  by (auto simp: obeys_def executes_logged_def UpdatePasskeySignCount_def logs_in_def key_owners_def)

lemma register_grants: "obeys (grants env u T) (register env u session response)"
  unfolding register_def by (intro grants_rules obeys_create_user obeys_save)

text \<open>Guards read the state and leave it alone.\<close>

lemma bind_guard:
  assumes "bind m f s = (r, s')" and "snd (m s) = s"
  obtains (refused) e where "fst (m s) = Inl e" "s' = s" | (passed) x where "fst (m s) = Inr x" "f x s = (r, s')"
  using assms by (cases "m s"; cases "fst (m s)") (auto simp: bind_def)

lemma setupIsAllowed_spec:
  "snd (setupIsAllowed env s) = s" "fst (setupIsAllowed env s) = Inr () \<Longrightarrow> db_users (ls_db s) = []"
  by (auto simp: setupIsAllowed_def bind_def configured_def require_def fail_def ok_def queries_def HasAnyUser_def
    split: prod.splits sum.splits if_splits)

lemma invite_allowed_spec:
  "snd (invite_allowed env t s) = s"
  "fst (invite_allowed env t s) = Inr u \<Longrightarrow> ValidateInviteToken (lo_fault env CallValidate) (lo_now env) t (ls_db s) = Inr ()"
  by (auto simp: invite_allowed_def queries_def map_sum_def split: sum.splits)

lemma obeysD: "obeys R m \<Longrightarrow> m s = (r, s') \<Longrightarrow> R s s'"
  by (metis obeys_def snd_conv)

lemma unit_sum: "x = Inr u \<Longrightarrow> x = Inr ()" for u :: unit
  by simp

lemma setup_finish_changes:
  assumes "passkeySetupFinish env q response s = (r, s')"
  shows "same_accounts s s' \<or> db_users (ls_db s) = [] \<and> grants env (TrimSpace q) {} s s'"
  using assms[unfolded passkeySetupFinish_def] setupIsAllowed_spec(1)
proof (cases rule: bind_guard)
  case (passed x)
  have "obeys (grants env (TrimSpace q) {}) (let username = TrimSpace q in
      bind (require (username \<noteq> []) 400 (Msg ''username query param is required'')) (\<lambda>_.
      bind (get_challenge (Msg ''no pending registration session'') (''setup:'' @ username)) (\<lambda>session.
      bind (delete_challenge (''setup:'' @ username)) (\<lambda>_.
      bind (register env username session response) (\<lambda>_.
      bind (issueSessionCookie env username) (\<lambda>_. ok (200, ReplyUser username)))))))"
    unfolding Let_def by (intro grants_rules register_grants obeys_issue)
  from obeysD[OF this passed(2)] setupIsAllowed_spec(2)[of env s] passed(1) show ?thesis by simp
qed (simp add: same_accounts_def)

lemma invite_finish_changes:
  assumes "passkeyInviteFinish env tq uq response s = (r, s')"
  shows "same_accounts s s' \<or> ValidateInviteToken (lo_fault env CallValidate) (lo_now env) (TrimSpace tq) (ls_db s) = Inr () \<and>
    grants env (TrimSpace uq) {TrimSpace tq} s s'"
proof -
  let ?t = "TrimSpace tq" and ?u = "TrimSpace uq"
  have rest: "obeys (grants env ?u {?t}) (bind (get_challenge (Msg ''no pending registration session'') (invite_key ?t ?u)) (\<lambda>session.
      bind (delete_challenge (invite_key ?t ?u)) (\<lambda>_.
      bind (register env ?u session response) (\<lambda>_.
      bind (executes_logged (ConsumeInviteToken (lo_fault env CallConsume) ?t)) (\<lambda>_.
      bind (issueSessionCookie env ?u) (\<lambda>_. ok (200, ReplyUser ?u)))))))"
    by (intro grants_rules register_grants obeys_issue obeys_consume) simp
  have pure: "snd (configured b s) = s" "snd (require b' c e s) = s" for b b' c e
    by (simp_all add: configured_def require_def ok_def fail_def)
  from assms[unfolded passkeyInviteFinish_def Let_def] pure(1) show ?thesis
  proof (cases rule: bind_guard)
    case (passed x)
    from passed(2) pure(2) show ?thesis
    proof (cases rule: bind_guard)
      case p2: (passed x)
      from p2(2) invite_allowed_spec(1) show ?thesis
      proof (cases rule: bind_guard)
        case p3: (passed x)
        from obeysD[OF rest p3(2)] invite_allowed_spec(2)[OF p3(1)] show ?thesis by simp
      qed (simp add: same_accounts_def)
    qed (simp add: same_accounts_def)
  qed (simp add: same_accounts_def)
qed

text \<open>The user shows possession of a passkey: one of the user's stored credentials has the ID of the
  response, and the library accepts the response for that user and this challenge.\<close>

definition possesses_passkey :: "('k, 'c, 'r) login_env \<Rightarrow> 'c \<Rightarrow> 'r \<Rightarrow> 'k user_db \<Rightarrow> string \<Rightarrow> bool" where
  "possesses_passkey env session parsed db u \<longleftrightarrow>
     u \<in> set (db_users db) \<and> u \<noteq> [] \<and>
     (\<exists>p \<in> set (db_passkeys db). pk_username p = u \<and> hex (cred_ID (pk_cred p)) = hex (lo_rawID env parsed)) \<and>
     (\<exists>cred. lo_verify env \<lparr>wu_username = u, wu_credentials = map pk_cred (filter (\<lambda>p. pk_username p = u) (db_passkeys db))\<rparr>
        session parsed = Some cred)"

lemma find_user_Some:
  assumes "find_user env rawID db us = Some w"
  shows "wu_username w \<in> set (db_users db) \<and>
    w = \<lparr>wu_username = wu_username w, wu_credentials = map pk_cred (filter (\<lambda>p. pk_username p = wu_username w) (db_passkeys db))\<rparr> \<and>
    (\<exists>c \<in> set (wu_credentials w). hex (cred_ID c) = hex rawID)"
  using assms
proof (induction us)
  case (Cons u us)
  then show ?case by (auto simp: GetWebAuthnUser_def split: if_splits)
qed simp

lemma ValidateDiscoverableLogin_Some:
  assumes "ValidateDiscoverableLogin env session parsed db = Some (u, cred)"
  shows "possesses_passkey env session parsed db u"
proof -
  from assms obtain users w where w: "find_user env (lo_rawID env parsed) db users = Some w"
    "lo_verify env w session parsed = Some cred" "wu_username w \<noteq> []" "u = wu_username w"
    by (auto simp: ValidateDiscoverableLogin_def split: sum.splits option.splits if_splits)
  from find_user_Some[OF w(1)] have f: "u \<in> set (db_users db)"
    "w = \<lparr>wu_username = u, wu_credentials = map pk_cred (filter (\<lambda>p. pk_username p = u) (db_passkeys db))\<rparr>"
    "\<exists>c \<in> set (wu_credentials w). hex (cred_ID c) = hex (lo_rawID env parsed)" by (simp_all add: w(4))
  from f(3) have "\<exists>p \<in> set (db_passkeys db). pk_username p = u \<and> hex (cred_ID (pk_cred p)) = hex (lo_rawID env parsed)"
    by (subst (asm) f(2)) auto
  with f(1,2) w(2-4) show ?thesis unfolding possesses_passkey_def by metis
qed

lemma of_option_state: "snd (of_option c msg x s) = s" "fst (of_option c msg x s) = Inr y \<Longrightarrow> x = Some y"
  by (auto simp: of_option_def fail_def ok_def split: option.splits)

lemma configured_state: "snd (configured b s) = s" "snd (require b' c e s) = s"
  by (simp_all add: configured_def require_def ok_def fail_def)

lemma get_challenge_state: "snd (get_challenge e k s) = s" "fst (get_challenge e k s) = Inr y \<Longrightarrow> map_of (ls_challenges s) k = Some y"
  by (auto simp: get_challenge_def split: option.splits)

lemma bind_delete_challenge: "bind (delete_challenge k) f s = f () (s\<lparr>ls_challenges := AList.delete k (ls_challenges s)\<rparr>)"
  by (simp add: bind_def delete_challenge_def)

lemma login_finish_changes:
  assumes "passkeyLoginFinish env sidCookie response s = (r, s')"
  shows "same_accounts s s' \<or> (\<exists>v parsed session u. sidCookie = Some v \<and> response = Some parsed \<and>
    map_of (ls_challenges s) (''login:'' @ TrimSpace v) = Some session \<and>
    possesses_passkey env session parsed (ls_db s) u \<and> logs_in env u s s')"
  using assms[unfolded passkeyLoginFinish_def Let_def] configured_state(1)
proof (cases rule: bind_guard)
  case (passed x)
  from passed(2) of_option_state(1) show ?thesis
  proof (cases rule: bind_guard)
    case p2: (passed v)
    from p2(2) get_challenge_state(1) show ?thesis
    proof (cases rule: bind_guard)
      case p3: (passed session)
      from p3(2) of_option_state(1) show ?thesis
      proof (cases rule: bind_guard)
        case p4: (passed parsed)
        let ?k = "''login:'' @ TrimSpace v"
        let ?s = "s\<lparr>ls_challenges := AList.delete ?k (ls_challenges s)\<rparr>"
        have "bind (\<lambda>s. of_option 401 ''unauthorized'' (ValidateDiscoverableLogin env session parsed (ls_db s)) s) (\<lambda>authenticated.
            bind (executes_logged (UpdatePasskeySignCount (lo_fault env CallUpdate) (lo_fault env CallUpdateWrite)
              (cred_ID (snd authenticated)) (cred_SignCount (snd authenticated)))) (\<lambda>_.
            bind (issueSessionCookie env (fst authenticated)) (\<lambda>_. ok (200, ReplyUser (fst authenticated))))) ?s = (r, s')"
          using p4(2) by (simp only: bind_delete_challenge)
        moreover have "snd (of_option 401 ''unauthorized'' (ValidateDiscoverableLogin env session parsed (ls_db ?s)) ?s) = ?s"
          by (rule of_option_state)
        ultimately show ?thesis
        proof (cases rule: bind_guard)
          case p5: (passed a)
          have "obeys (logs_in env (fst a)) (bind (executes_logged (UpdatePasskeySignCount (lo_fault env CallUpdate) (lo_fault env CallUpdateWrite)
              (cred_ID (snd a)) (cred_SignCount (snd a)))) (\<lambda>_.
              bind (issueSessionCookie env (fst a)) (\<lambda>_. ok (200, ReplyUser (fst a)))))"
            by (intro logs_in_rules obeys_sign_count obeys_issue)
          from obeysD[OF this p5(2)] have "logs_in env (fst a) s s'" by (simp add: logs_in_def)
          moreover have "possesses_passkey env session parsed (ls_db s) (fst a)"
            using ValidateDiscoverableLogin_Some[of env session parsed "ls_db s" "fst a" "snd a"] of_option_state(2)[OF p5(1)] by simp
          moreover note of_option_state(2)[OF p2(1)] of_option_state(2)[OF p4(1)] get_challenge_state(2)[OF p3(1)]
          ultimately show ?thesis by blast
        qed (simp_all add: of_option_state same_accounts_def)
      qed (simp add: same_accounts_def)
    qed (simp add: same_accounts_def)
  qed (simp add: same_accounts_def)
qed (simp add: same_accounts_def)

lemma login_begun_keeps:
  fixes session :: "('k, 'c) login_state \<Rightarrow> 'c option"
  shows "obeys same_accounts (\<lambda>s. bind (of_option 500 msg (session s)) (\<lambda>sd. bind (set_challenge k sd) (\<lambda>_. ok x)) s)"
proof -
  have "obeys (same_accounts :: ('k, 'c) login_state \<Rightarrow> _) (bind (of_option 500 msg y) (\<lambda>sd. bind (set_challenge k sd) (\<lambda>_. ok x)))" for y
    by (intro same_rules)
  then show ?thesis by (simp add: obeys_def)
qed

lemma open_handlers_keep:
  "obeys same_accounts (setupAvailable env)" "obeys same_accounts (passkeySetupBegin env body)" "obeys same_accounts (me env cookie)"
  "obeys same_accounts (validateInvite env q)" "obeys same_accounts (passkeyInviteBegin env b)" "obeys same_accounts (passkeyLoginBegin env body)"
proof -
  have q: "obeys same_accounts (setupIsAllowed env)" "obeys same_accounts (invite_allowed env t)" for t
    unfolding setupIsAllowed_def invite_allowed_def by (intro same_rules)+
  show "obeys same_accounts (setupAvailable env)" unfolding setupAvailable_def by (auto intro: same_rules)
  show "obeys same_accounts (passkeySetupBegin env body)" unfolding passkeySetupBegin_def Let_def by (intro same_rules q)
  show "obeys same_accounts (passkeyInviteBegin env b)" unfolding passkeyInviteBegin_def Let_def by (intro same_rules q)
  show "obeys same_accounts (me env cookie)" unfolding me_def by (auto intro: same_rules split: sum.split)
  have "obeys same_accounts (\<lambda>s. case ValidateInviteToken f now t (ls_db s) of
      Inl err \<Rightarrow> (Inr (200, InviteValid False (Some err)), s) | Inr _ \<Rightarrow> (Inr (200, InviteValid True None), s))" for f now t
    by (simp add: obeys_def same_accounts_def split: sum.split)
  then show "obeys same_accounts (validateInvite env q)" unfolding validateInvite_def Let_def by (auto intro!: same_rules)
  show "obeys same_accounts (passkeyLoginBegin env body)"
    unfolding passkeyLoginBegin_def Let_def
    by (intro same_rules) (rule login_begun_keeps)
qed

text \<open>The protected handlers hand out no session.\<close>

definition no_session :: "('k, 'c) login_state \<Rightarrow> ('k, 'c) login_state \<Rightarrow> bool" where
  "no_session s s' \<longleftrightarrow> ls_issued s' = ls_issued s"

lemma no_session_pre: "reflp no_session" "transp no_session"
  by (auto simp: no_session_def intro!: reflpI transpI)

lemma no_session_challenges: "no_session s (s\<lparr>ls_challenges := cs\<rparr>)"
  by (simp add: no_session_def)

lemma no_session_executes: "obeys no_session (executes h f)"
  by (simp add: obeys_def executes_def no_session_def split: prod.split)

lemmas no_session_rules = obeys_bind[OF no_session_pre(2)] obeys_pure[OF no_session_pre(1)]
  obeys_challenges[OF no_session_pre(1)] no_session_executes

lemma protected_no_session:
  assumes "protected req"
  shows "obeys no_session (route env cookie req)"
proof -
  have "obeys no_session (listUsers env)" "obeys no_session (createUser env b)" "obeys no_session (deleteUser env u)"
    "obeys no_session (createInvite env)" "obeys no_session (listPasskeys env cookie)" "obeys no_session (deletePasskey env cookie k)" for b u k
    unfolding listUsers_def createUser_def deleteUser_def createInvite_def listPasskeys_def deletePasskey_def Let_def
    by (intro no_session_rules no_session_challenges)+
  with assms show ?thesis by (cases req) (simp_all add: protected_def route_def)
qed

section \<open>Relations that every request respects\<close>

lemma obeys_require: "reflp R \<Longrightarrow> transp R \<Longrightarrow> (b \<Longrightarrow> obeys R (f ())) \<Longrightarrow> obeys R (bind (require b c e) f)"
  by (cases b) (auto simp: obeys_def bind_def require_def ok_def fail_def reflp_def)

lemma bind_of_Some: "bind (of_option c msg (Some x)) f = f x"
  by (simp add: fun_eq_iff bind_def of_option_def ok_def)

text \<open>A relation between states that each change of the database maintains is maintained by every
  request. \<open>may_create\<close> limits the invitations that are created.\<close>

locale account_relation =
  fixes R :: "('k, 'c) login_state \<Rightarrow> ('k, 'c) login_state \<Rightarrow> bool" and may_create :: "string \<Rightarrow> bool"
  assumes refl: "reflp R" and trans: "transp R"
    and frame: "ls_db s' = ls_db s \<Longrightarrow> R s s'"
    and create_user: "u \<noteq> [] \<Longrightarrow> R s (s\<lparr>ls_db := snd (CreateUser f u (ls_db s))\<rparr>)"
    and delete_user: "R s (s\<lparr>ls_db := snd (DeleteUser fk f u (ls_db s))\<rparr>)"
    and save_passkey: "R s (s\<lparr>ls_db := snd (SavePasskey fk f u cred d now (ls_db s))\<rparr>)"
    and delete_passkey: "R s (s\<lparr>ls_db := snd (DeletePasskey f k u (ls_db s))\<rparr>)"
    and sign_count: "R s (s\<lparr>ls_db := snd (UpdatePasskeySignCount f g raw n (ls_db s))\<rparr>)"
    and create_invite: "may_create t \<Longrightarrow> R s (s\<lparr>ls_db := snd (CreateInviteToken f t at (ls_db s))\<rparr>)"
    and consume_invite: "R s (s\<lparr>ls_db := snd (ConsumeInviteToken f t (ls_db s))\<rparr>)"
begin

lemma pure_rules: "obeys R (ok x)" "obeys R (fail c e)" "obeys R (require b c e)" "obeys R (from_sum h r)"
    "obeys R (of_option c msg y)" "obeys R (configured b)"
  by (rule obeys_pure[OF refl])+

lemma challenge_rules: "obeys R (set_challenge key sd)" "obeys R (delete_challenge key)" "obeys R (get_challenge err key)" "obeys R (queries h q)"
proof -
  have "R s (s\<lparr>ls_challenges := cs\<rparr>)" for s cs by (rule frame) simp
  then show "obeys R (set_challenge key sd)" "obeys R (delete_challenge key)" "obeys R (get_challenge err key)" "obeys R (queries h q)"
    using obeys_challenges[OF refl] by blast+
qed

lemmas rules = obeys_bind[OF trans] obeys_require[OF refl trans] pure_rules challenge_rules

lemma issue_rule: "obeys R (issueSessionCookie env u)"
  by (simp add: obeys_def issueSessionCookie_def) (intro allI frame, simp)

lemma logged_rule: "(\<And>s. R s (s\<lparr>ls_db := snd (f (ls_db s))\<rparr>)) \<Longrightarrow> obeys R (executes_logged f)"
  by (simp add: obeys_def executes_logged_def)

lemma executes_rule: "(\<And>s. R s (s\<lparr>ls_db := snd (f (ls_db s))\<rparr>)) \<Longrightarrow> obeys R (executes h f)"
  unfolding obeys_def executes_def by (auto split: prod.split) (metis snd_conv)

lemma register_rule:
  assumes "username \<noteq> []"
  shows "obeys R (register env username session response)"
proof -
  have "obeys R (\<lambda>s. case CreateUser f username (ls_db s) of
     (Inl err, db) \<Rightarrow> if err = ErrUserExists then (Inr (), s\<lparr>ls_db := db\<rparr>) else (Inl (internal err), s\<lparr>ls_db := db\<rparr>)
   | (Inr _, db) \<Rightarrow> (Inr (), s\<lparr>ls_db := db\<rparr>))" for f
    using create_user[OF assms] unfolding obeys_def by (auto split: prod.split sum.split) (metis snd_conv)+
  then show ?thesis unfolding register_def by (intro rules executes_rule save_passkey)
qed

lemma open_rules:
  "obeys R (setupAvailable env)" "obeys R (passkeySetupBegin env body)" "obeys R (me env cookie)"
  "obeys R (validateInvite env q)" "obeys R (passkeyInviteBegin env b)" "obeys R (passkeyLoginBegin env body)"
proof -
  have "same_accounts s s' \<Longrightarrow> R s s'" for s s' by (rule frame) (simp add: same_accounts_def)
  then have "obeys same_accounts m \<Longrightarrow> obeys R m" for m :: "('k, 'c) handler" by (simp add: obeys_def)
  then show "obeys R (setupAvailable env)" "obeys R (passkeySetupBegin env body)" "obeys R (me env cookie)"
    "obeys R (validateInvite env q)" "obeys R (passkeyInviteBegin env b)" "obeys R (passkeyLoginBegin env body)"
    by (blast intro: open_handlers_keep)+
qed

lemma finish_rules:
  "obeys R (passkeySetupFinish env q response)" "obeys R (passkeyInviteFinish env tq uq response)" "obeys R (passkeyLoginFinish env sid response)"
proof -
  show "obeys R (passkeySetupFinish env q response)"
    unfolding passkeySetupFinish_def Let_def setupIsAllowed_def by (intro rules register_rule issue_rule)
  show "obeys R (passkeyInviteFinish env tq uq response)"
    unfolding passkeyInviteFinish_def Let_def invite_allowed_def
    by (intro rules register_rule issue_rule logged_rule consume_invite) simp
  have "obeys R (\<lambda>s. of_option c msg (g s) s)" for c msg and g :: "('k, 'c) login_state \<Rightarrow> 'd option"
    by (simp add: obeys_def of_option_def fail_def ok_def reflpD[OF refl] split: option.split)
  then show "obeys R (passkeyLoginFinish env sid response)"
    unfolding passkeyLoginFinish_def Let_def by (intro rules issue_rule logged_rule sign_count)
qed

lemma protected_rules:
  assumes "req = CreateInviteReq \<Longrightarrow> \<forall>raw. lo_random env = Some raw \<longrightarrow> may_create (hex raw)" and "protected req"
  shows "obeys R (route env cookie req)"
proof -
  have "obeys R (listUsers env)" unfolding listUsers_def by (intro rules)
  moreover have "obeys R (createUser env b)" for b unfolding createUser_def Let_def by (intro rules executes_rule create_user)
  moreover have "obeys R (deleteUser env u)" for u unfolding deleteUser_def Let_def by (intro rules executes_rule delete_user)
  moreover have "obeys R (listPasskeys env cookie)" unfolding listPasskeys_def by (intro rules)
  moreover have "obeys R (deletePasskey env cookie k)" for k unfolding deletePasskey_def Let_def by (intro rules executes_rule delete_passkey)
  moreover have "obeys R (createInvite env)" if "req = CreateInviteReq"
  proof (cases "lo_random env")
    case None
    show ?thesis unfolding createInvite_def Let_def None
      by (rule obeys_bind[OF trans], rule pure_rules) (simp add: of_option_def bind_def fail_def obeys_def reflpD[OF refl])
  next
    case (Some raw)
    with assms(1) that have "may_create (hex raw)" by blast
    then have "obeys R (bind (executes internal (CreateInviteToken (lo_fault env CallCreateInvite) (hex raw) at)) (\<lambda>_. ok x))" for at x
      by (intro rules executes_rule create_invite)
    note created = this
    show ?thesis unfolding createInvite_def Let_def Some bind_of_Some
      by (rule obeys_bind[OF trans], rule pure_rules) (rule created)
  qed
  ultimately show ?thesis using assms(2) by (cases req) (simp_all add: protected_def route_def)
qed

lemma serve_rule:
  assumes "req = CreateInviteReq \<Longrightarrow> \<forall>raw. lo_random env = Some raw \<longrightarrow> may_create (hex raw)"
  shows "obeys R (serve env cookie req)"
proof (cases "protected req")
  case True
  then show ?thesis unfolding serve_def if_P[OF True] by (intro rules protected_rules[OF assms])
next
  case False
  then have "obeys R (route env cookie req)"
    by (cases req) (simp_all add: protected_def route_def open_rules finish_rules pure_rules)
  with False show ?thesis by (simp add: serve_def)
qed

end

section \<open>Reachable states\<close>

text \<open>States that requests, served under the environments of \<open>E\<close>, and the two cleanups lead to.\<close>

inductive login_reach :: "('k, 'c, 'r) login_env set \<Rightarrow> ('k, 'c) login_state \<Rightarrow> bool" for E where
  start: "ls_db s = \<lparr>db_users = [], db_passkeys = [], db_invites = []\<rparr> \<Longrightarrow> ls_challenges s = [] \<Longrightarrow> ls_issued s = [] \<Longrightarrow> login_reach E s"
| request: "login_reach E s \<Longrightarrow> env \<in> E \<Longrightarrow> serve env cookie req s = (r, s') \<Longrightarrow> login_reach E s'"
| forget: "login_reach E s \<Longrightarrow> login_reach E (cleanup_challenges s)"
| expire: "login_reach E s \<Longrightarrow> CleanupExpiredTokens f now (ls_db s) = (r, db) \<Longrightarrow> login_reach E (s\<lparr>ls_db := db\<rparr>)"

text \<open>What the tables satisfy: no key occurs twice, no user has an empty name, and a passkey is stored
  under the ID of its credential.\<close>

definition accounts_inv :: "'k user_db \<Rightarrow> bool" where
  "accounts_inv db \<longleftrightarrow> distinct (db_users db) \<and> [] \<notin> set (db_users db) \<and> distinct (map pk_id (db_passkeys db)) \<and>
     (\<forall>p \<in> set (db_passkeys db). pk_id p = hex (cred_ID (pk_cred p))) \<and> distinct (map iv_token (db_invites db))"

definition keeps_inv :: "('k, 'c) login_state \<Rightarrow> ('k, 'c) login_state \<Rightarrow> bool" where
  "keeps_inv s s' \<longleftrightarrow> (accounts_inv (ls_db s) \<longrightarrow> accounts_inv (ls_db s'))"

lemma accounts_inv_ops:
  assumes "accounts_inv db"
  shows "u \<noteq> [] \<Longrightarrow> accounts_inv (snd (CreateUser f u db))" "accounts_inv (snd (DeleteUser fk f u db))"
    "accounts_inv (snd (SavePasskey fk f u cred d now db))" "accounts_inv (snd (DeletePasskey f k u db))"
    "accounts_inv (snd (UpdatePasskeySignCount f g raw n db))" "accounts_inv (snd (CreateInviteToken f t at db))"
    "accounts_inv (snd (ConsumeInviteToken f t db))" "accounts_inv (snd (CleanupExpiredTokens f now db))"
proof -
  show "u \<noteq> [] \<Longrightarrow> accounts_inv (snd (CreateUser f u db))" "accounts_inv (snd (DeleteUser fk f u db))"
    "accounts_inv (snd (SavePasskey fk f u cred d now db))" "accounts_inv (snd (DeletePasskey f k u db))"
    "accounts_inv (snd (CreateInviteToken f t at db))" "accounts_inv (snd (CleanupExpiredTokens f now db))"
    using assms by (auto simp: accounts_inv_def CreateUser_def DeleteUser_def SavePasskey_def DeletePasskey_def CreateInviteToken_def
      CleanupExpiredTokens_def distinct_map_filter)
  have "map iv_token (map (\<lambda>i. if iv_token i = t then i\<lparr>iv_used := True\<rparr> else i) is) = map iv_token is" for "is" :: "invite_row list"
    by (induction "is") auto
  then show "accounts_inv (snd (ConsumeInviteToken f t db))"
    using assms by (simp add: accounts_inv_def ConsumeInviteToken_def del: map_map)
  have "map pk_id (map (\<lambda>p. if pk_id p = x then p\<lparr>pk_cred := (pk_cred p)\<lparr>cred_SignCount := n\<rparr>\<rparr> else p) ps) = map pk_id ps"
    for x and ps :: "'a passkey_row list" by (induction ps) auto
  then show "accounts_inv (snd (UpdatePasskeySignCount f g raw n db))"
    using assms by (auto simp: accounts_inv_def UpdatePasskeySignCount_def simp del: map_map)
qed

interpretation inv_rel: account_relation keeps_inv "\<lambda>_. True"
  by unfold_locales (auto simp: keeps_inv_def accounts_inv_ops intro!: reflpI transpI)

text \<open>An invitation that can still be used.\<close>

definition unused :: "'k user_db \<Rightarrow> string \<Rightarrow> bool" where
  "unused db t \<longleftrightarrow> (\<exists>i \<in> set (db_invites db). iv_token i = t \<and> \<not> iv_used i)"

definition keeps_used :: "string \<Rightarrow> ('k, 'c) login_state \<Rightarrow> ('k, 'c) login_state \<Rightarrow> bool" where
  "keeps_used t s s' \<longleftrightarrow> (unused (ls_db s') t \<longrightarrow> unused (ls_db s) t)"

interpretation used_rel: account_relation "keeps_used t" "\<lambda>x. x \<noteq> t" for t
  by unfold_locales (auto simp: keeps_used_def unused_def CreateUser_def DeleteUser_def SavePasskey_def DeletePasskey_def
    UpdatePasskeySignCount_def CreateInviteToken_def ConsumeInviteToken_def intro!: reflpI transpI split: if_splits)

lemma reach_inv: "login_reach E s \<Longrightarrow> accounts_inv (ls_db s)"
proof (induction rule: login_reach.induct)
  case (request s env cookie req r s')
  then show ?case using obeysD[OF inv_rel.serve_rule request(3)] by (simp add: keeps_inv_def)
next
  case (expire s f now r db)
  then show ?case using accounts_inv_ops(8)[of "ls_db s" f now] by simp
qed (simp_all add: accounts_inv_def cleanup_challenges_def)

text \<open>Later states, along requests that do not draw the token \<open>t\<close> again.\<close>

inductive later :: "('k, 'c, 'r) login_env set \<Rightarrow> string \<Rightarrow> ('k, 'c) login_state \<Rightarrow> ('k, 'c) login_state \<Rightarrow> bool" for E t s where
  now: "later E t s s"
| request: "later E t s s1 \<Longrightarrow> env \<in> E \<Longrightarrow> (\<And>raw. lo_random env = Some raw \<Longrightarrow> hex raw \<noteq> t) \<Longrightarrow> serve env cookie req s1 = (r, s2) \<Longrightarrow> later E t s s2"
| forget: "later E t s s1 \<Longrightarrow> later E t s (cleanup_challenges s1)"
| expire: "later E t s s1 \<Longrightarrow> CleanupExpiredTokens f n (ls_db s1) = (r, db) \<Longrightarrow> later E t s (s1\<lparr>ls_db := db\<rparr>)"

lemma later_keeps_used: "later E t s s' \<Longrightarrow> keeps_used t s s'"
proof (induction rule: later.induct)
  case (request s1 env cookie req r s2)
  then have "keeps_used t s1 s2" by (intro obeysD[OF used_rel.serve_rule request(4)]) auto
  with request.IH show ?case by (simp add: keeps_used_def)
next
  case (expire s1 f n r db)
  then show ?case by (auto simp: keeps_used_def unused_def CleanupExpiredTokens_def split: if_splits)
qed (simp_all add: keeps_used_def cleanup_challenges_def)

lemma validate_unused: "ValidateInviteToken f now t db = Inr x \<Longrightarrow> unused db t"
  by (auto simp: ValidateInviteToken_def unused_def find_Some_iff split: if_splits option.splits)

lemma requireAuth_Inr:
  assumes "lo_store env" and "lo_secret env \<noteq> []" and "lo_mode env \<noteq> ''waf_only''"
  shows "requireAuth env cookie = Inr () \<longleftrightarrow>
    (\<exists>t claims. cookie = Some t \<and> signed_by (lo_token env) (lo_secret env) t claims \<and> Unix (lo_now env) \<le> cl_ExpiresAt claims)"
  using assms
  by (auto simp: requireAuth_def tokenFromRequest_def ValidateToken_Inr[symmetric] split: option.splits sum.splits)

lemma serve_protected:
  assumes "serve env cookie req s = (r, s')" and "protected req"
  shows "s' = s \<or> requireAuth env cookie = Inr () \<and> route env cookie req s = (r, s')"
  using assms by (cases "requireAuth env cookie") (auto simp: serve_def bind_def from_sum_def)

section \<open>Properties\<close>

text \<open>
  C7. Nobody changes accounts or gets a session without authority. When authentication is configured,
  a request leaves users, passkeys, invitations and handed-out sessions as they are unless
  (1) it carries an unexpired token signed with the secret, and then it is for a protected route and
  hands out no session; or (2) it finishes the setup while there is no user; or (3) it finishes the
  registration of an invitation that is stored, unused and not expired; or (4) it finishes a login
  with a passkey stored for an existing user. In the cases (2) to (4) it changes nothing but what
  belongs to that one user and that invitation.
\<close>

theorem no_change_without_authority:
  assumes "serve env cookie req s = (r, s')" and "lo_store env" and "lo_secret env \<noteq> []" and "lo_mode env \<noteq> ''waf_only''"
    and "\<not> same_accounts s s'"
  shows "(\<exists>t claims. cookie = Some t \<and> signed_by (lo_token env) (lo_secret env) t claims \<and> Unix (lo_now env) \<le> cl_ExpiresAt claims \<and>
      protected req \<and> ls_issued s' = ls_issued s) \<or>
    (\<exists>q response. req = SetupFinish q response \<and> db_users (ls_db s) = [] \<and> grants env (TrimSpace q) {} s s') \<or>
    (\<exists>tq uq response. req = InviteFinish tq uq response \<and>
      ValidateInviteToken (lo_fault env CallValidate) (lo_now env) (TrimSpace tq) (ls_db s) = Inr () \<and>
      grants env (TrimSpace uq) {TrimSpace tq} s s') \<or>
    (\<exists>sid parsed session u. req = LoginFinish (Some sid) (Some parsed) \<and> map_of (ls_challenges s) (''login:'' @ TrimSpace sid) = Some session \<and>
      possesses_passkey env session parsed (ls_db s) u \<and> logs_in env u s s')"
proof (cases "protected req")
  case True
  from serve_protected[OF assms(1) True] assms(5) have auth: "requireAuth env cookie = Inr ()" and run: "route env cookie req s = (r, s')"
    by (auto simp: same_accounts_def)
  have "ls_issued s' = ls_issued s" using obeysD[OF protected_no_session[OF True] run] by (simp add: no_session_def)
  with auth True show ?thesis unfolding requireAuth_Inr[OF assms(2-4)] by blast
next
  case False
  then have run: "route env cookie req s = (r, s')" using assms(1) by (simp add: serve_def)
  have quiet: "obeys same_accounts (route env cookie req) \<Longrightarrow> ?thesis" using obeysD[of same_accounts "route env cookie req" s r s'] run assms(5) by blast
  show ?thesis
  proof (cases req)
    case (SetupFinish q response)
    with run have "passkeySetupFinish env q response s = (r, s')" by (simp add: route_def)
    from setup_finish_changes[OF this] assms(5) SetupFinish show ?thesis by blast
  next
    case (InviteFinish tq uq response)
    with run have "passkeyInviteFinish env tq uq response s = (r, s')" by (simp add: route_def)
    from invite_finish_changes[OF this] assms(5) InviteFinish show ?thesis by blast
  next
    case (LoginFinish sid response)
    with run have "passkeyLoginFinish env sid response s = (r, s')" by (simp add: route_def)
    from login_finish_changes[OF this] assms(5) LoginFinish show ?thesis by blast
  next
    case Logout
    show ?thesis by (rule quiet) (simp add: route_def Logout obeys_pure[OF same_accounts_pre(1)])
  qed (use False quiet in \<open>simp_all add: protected_def route_def open_handlers_keep\<close>)
qed


text \<open>
  An invitation admits one registration. Once a registration with it has succeeded and its use has
  been recorded, every later attempt to register with it is refused, whatever requests and cleanups
  come in between, as long as the random source does not draw the same token again.
\<close>

theorem used_invitation_is_refused:
  assumes "passkeyInviteFinish env tq uq response s = (Inr x, s')" and "\<not> lo_fault env CallConsume"
    and "later E (TrimSpace tq) s' s''"
    and "passkeyInviteFinish env' tq uq' response' s'' = (r, s3)"
  shows "\<exists>e. r = Inl e \<and> same_accounts s'' s3"
proof -
  let ?t = "TrimSpace tq"
  have used: "\<not> unused (ls_db s') ?t"
    using assms(1,2)
    by (auto simp: passkeyInviteFinish_def Let_def bind_def executes_logged_def issueSessionCookie_def ok_def ConsumeInviteToken_def unused_def
        image_iff split: prod.splits sum.splits if_splits) metis
  then have "\<not> unused (ls_db s'') ?t" using later_keeps_used[OF assms(3)] by (simp add: keeps_used_def)
  then have no: "ValidateInviteToken f n ?t (ls_db s'') \<noteq> Inr ()" for f n using validate_unused by blast
  with invite_finish_changes[OF assms(4)] have "same_accounts s'' s3" by blast
  moreover obtain e where "ValidateInviteToken (lo_fault env' CallValidate) (lo_now env') ?t (ls_db s'') = Inl e"
    using no by (cases "ValidateInviteToken (lo_fault env' CallValidate) (lo_now env') ?t (ls_db s'')") auto
  then have "\<exists>e. r = Inl e"
    using assms(4)
    by (auto simp: passkeyInviteFinish_def Let_def bind_def invite_allowed_def queries_def configured_def require_def ok_def fail_def
        split: prod.splits sum.splits if_splits)
  ultimately show ?thesis by blast
qed

text \<open>
  A session lasts a day. The token handed out by setup, invitation or login is accepted by the
  middleware, with the same secret, exactly until the second in which the 24 hours since it was
  handed out have passed.
\<close>

theorem session_lasts_a_day:
  assumes "token_env_ok (lo_token env)" and "issueSessionCookie env u s = (x, s')" and "lo_token env' = lo_token env"
    and "lo_secret env' = lo_secret env" and "lo_store env'" and "lo_secret env \<noteq> []" and "lo_mode env' \<noteq> ''waf_only''"
  shows "\<exists>t. ls_issued s' = ls_issued s @ [(u, t)] \<and>
    (requireAuth env' (Some t) = Inr () \<longleftrightarrow> Unix (lo_now env') \<le> Unix (lo_now env + 24 * 3600 * 1000000000))"
proof -
  let ?t = "CreateToken (lo_token env) (lo_secret env) u apiTokenExpiry (lo_now env)"
  have "requireAuth env' (Some ?t) = Inr () \<longleftrightarrow> Unix (lo_now env') \<le> Unix (lo_now env + apiTokenExpiry)"
    using assms(3-7) ValidateToken_CreateToken[OF assms(1), of "lo_secret env" u apiTokenExpiry "lo_now env" "lo_now env'"]
    by (simp add: requireAuth_def tokenFromRequest_def)
  moreover have "ls_issued s' = ls_issued s @ [(u, ?t)]" using assms(2) by (auto simp: issueSessionCookie_def)
  ultimately show ?thesis unfolding apiTokenExpiry_def by blast
qed

text \<open>
  An invitation can take over an existing account. Whoever holds a valid invitation may register it
  with the name of a user that exists already: the new passkey is stored for that user, and the
  request is answered with a session for that user.
\<close>

theorem invite_takes_over_account:
  assumes "lo_store env" and "lo_webauthn env" and "TrimSpace tq \<noteq> []" and "TrimSpace uq = u" and "u \<noteq> []"
    and "ValidateInviteToken (lo_fault env CallValidate) (lo_now env) (TrimSpace tq) (ls_db s) = Inr ()"
    and "map_of (ls_challenges s) (invite_key (TrimSpace tq) u) = Some session"
    and "lo_create env (NewWebAuthnUser u) session parsed = Some cred" and "u \<in> set (db_users (ls_db s))"
    and "\<not> lo_fault env CallCreate" and "\<not> lo_fault env CallSave" and "hex (cred_ID cred) \<notin> pk_id ` set (db_passkeys (ls_db s))"
  shows "\<exists>s' p. serve env None (InviteFinish tq uq (Some parsed)) s = (Inr (200, ReplyUser u), s') \<and>
    db_users (ls_db s') = db_users (ls_db s) \<and> db_passkeys (ls_db s') = db_passkeys (ls_db s) @ [p] \<and> pk_username p = u \<and> pk_cred p = cred \<and>
    ls_issued s' = ls_issued s @ [(u, CreateToken (lo_token env) (lo_secret env) u apiTokenExpiry (lo_now env))]"
  using assms
  by (simp add: serve_def protected_def route_def passkeyInviteFinish_def Let_def bind_def configured_def require_def ok_def invite_allowed_def
      queries_def get_challenge_def delete_challenge_def register_def of_option_def CreateUser_def executes_def SavePasskey_def
      executes_logged_def ConsumeInviteToken_def issueSessionCookie_def)

text \<open>
  A deleted user can come back. Deleting a user ends neither the user's sessions nor, as foreign keys
  are not enforced, the user's passkeys: with a token handed out before, the deleted user creates an
  invitation, and the passkeys are still stored.
\<close>

theorem deleted_user_can_return:
  assumes "token_env_ok (lo_token env)" and "serve env1 cookie (DeleteUserReq u) s = (Inr x, s1)" and "\<not> lo_foreign_keys env1"
    and "t = CreateToken (lo_token env) (lo_secret env) (TrimSpace u) apiTokenExpiry issued" and "Unix (lo_now env) \<le> Unix (issued + apiTokenExpiry)"
    and "lo_store env" and "lo_random env = Some raw" and "\<not> lo_fault env CallCreateInvite"
    and "hex raw \<notin> iv_token ` set (db_invites (ls_db s1))"
  shows "TrimSpace u \<notin> set (db_users (ls_db s1)) \<and> db_passkeys (ls_db s1) = db_passkeys (ls_db s) \<and>
    (\<exists>expires s2. serve env (Some t) CreateInviteReq s1 = (Inr (201, InviteCreated (hex raw) expires), s2) \<and> unused (ls_db s2) (hex raw))"
proof -
  have del: "TrimSpace u \<notin> set (db_users (ls_db s1)) \<and> db_passkeys (ls_db s1) = db_passkeys (ls_db s)"
    using assms(2,3)
    by (auto simp: serve_def protected_def route_def deleteUser_def Let_def bind_def configured_def require_def ok_def fail_def executes_def
        DeleteUser_def from_sum_def split: if_splits sum.splits)
  have "requireAuth env (Some t) = Inr ()"
    using assms(5) ValidateToken_CreateToken[OF assms(1), of "lo_secret env" "TrimSpace u" apiTokenExpiry issued "lo_now env"]
    by (simp add: requireAuth_def tokenFromRequest_def assms(4))
  then have "serve env (Some t) CreateInviteReq s1 = createInvite env s1"
    by (simp add: serve_def protected_def route_def bind_def from_sum_def)
  with del show ?thesis
    using assms(6-9)
    by (simp add: createInvite_def Let_def bind_def configured_def require_def ok_def of_option_def executes_def CreateInviteToken_def unused_def)
qed

section \<open>Samples\<close>

definition cred0 :: "unit Credential" where "cred0 = \<lparr>cred_ID = [9], cred_SignCount = 1, cred_data = ()\<rparr>"

definition login_env0 :: "(unit, unit, unit) login_env" where
  "login_env0 = \<lparr>lo_store = True, lo_webauthn = True, lo_mode = ''login_only'', lo_secret = ''k'', lo_token = token_env0, lo_now = 0,
     lo_random = Some [1], lo_foreign_keys = False, lo_fault = (\<lambda>_. False), lo_begin = (\<lambda>_. Some ()), lo_begin_login = (\<lambda>_. Some ()),
     lo_begin_discoverable = Some (), lo_create = (\<lambda>_ _ _. Some cred0), lo_rawID = (\<lambda>_. [9]), lo_verify = (\<lambda>_ _ _. Some cred0)\<rparr>"

definition ann_state :: "(unit, unit) login_state" where
  "ann_state = \<lparr>ls_db = \<lparr>db_users = [''ann''], db_passkeys = [], db_invites = [\<lparr>iv_token = ''t'', iv_expires_at = 100, iv_used = False\<rparr>]\<rparr>,
     ls_challenges = [(''invite:t:ann'', ())], ls_issued = []\<rparr>"

definition empty_state :: "(unit, unit) login_state" where
  "empty_state = \<lparr>ls_db = \<lparr>db_users = [], db_passkeys = [], db_invites = []\<rparr>, ls_challenges = [], ls_issued = []\<rparr>"

lemma sample_names: "TrimSpace ''t'' = ''t''" "TrimSpace ''ann'' = ''ann''" "invite_key ''t'' ''ann'' = ''invite:t:ann''"
  "ValidateInviteToken False 0 ''t'' (ls_db ann_state) = Inr ()"
  by code_simp+

lemma sample_env:
  "lo_store login_env0" "lo_webauthn login_env0" "lo_secret login_env0 \<noteq> []" "lo_mode login_env0 \<noteq> ''waf_only''"
  "lo_fault login_env0 c = False" "lo_now login_env0 = 0" "lo_token login_env0 = token_env0" "lo_secret login_env0 = ''k''"
  "lo_create login_env0 w x y = Some cred0" "lo_random login_env0 = Some [1]" "\<not> lo_foreign_keys login_env0"
  by (simp_all add: login_env0_def)

theorem invite_takes_over_account_witness:
  "\<exists>s' p. serve login_env0 None (InviteFinish ''t'' ''ann'' (Some ())) ann_state = (Inr (200, ReplyUser ''ann''), s') \<and>
    db_users (ls_db s') = [''ann''] \<and> db_passkeys (ls_db s') = [p] \<and> pk_username p = ''ann'' \<and> pk_cred p = cred0"
proof -
  have "map_of (ls_challenges ann_state) (invite_key (TrimSpace ''t'') ''ann'') = Some ()"
    "''ann'' \<in> set (db_users (ls_db ann_state))" "hex (cred_ID cred0) \<notin> pk_id ` set (db_passkeys (ls_db ann_state))"
    by (simp_all add: sample_names) (simp_all add: ann_state_def)
  from invite_takes_over_account[OF sample_env(1,2) _ sample_names(2) _ _ this(1) sample_env(9) this(2) _ _ this(3), of "()"]
  show ?thesis unfolding sample_env sample_names by (fastforce simp: ann_state_def)
qed

text \<open>The same with claims that have an empty text, for evaluating requests.\<close>

definition login_env1 :: "(unit, unit, unit) login_env" where
  "login_env1 = login_env0\<lparr>lo_token := token_env0\<lparr>te_json := (\<lambda>_. [])\<rparr>\<rparr>"

theorem no_change_without_authority_witness:
  "\<exists>r s'. serve login_env1 None (InviteFinish ''t'' ''ann'' (Some ())) ann_state = (r, s') \<and> ls_issued s' \<noteq> [] \<and>
     grants login_env1 ''ann'' {''t''} ann_state s'"
proof -
  obtain r s' where run: "serve login_env1 None (InviteFinish ''t'' ''ann'' (Some ())) ann_state = (r, s')" by (metis surj_pair)
  have "ls_issued (snd (serve login_env1 None (InviteFinish ''t'' ''ann'' (Some ())) ann_state)) \<noteq> []" by code_simp
  then have new: "ls_issued s' \<noteq> []" by (simp add: run)
  then have "\<not> same_accounts ann_state s'" by (simp add: same_accounts_def ann_state_def)
  moreover have "lo_store login_env1" "lo_secret login_env1 \<noteq> []" "lo_mode login_env1 \<noteq> ''waf_only''"
    by (simp_all add: login_env1_def sample_env)
  ultimately have "grants login_env1 (TrimSpace ''ann'') {TrimSpace ''t''} ann_state s'"
    using no_change_without_authority[OF run] by simp
  then show ?thesis using run new by (simp add: sample_names)
qed


theorem session_lasts_a_day_witness:
  "\<exists>t. ls_issued (snd (issueSessionCookie login_env0 ''ann'' empty_state)) = [(''ann'', t)] \<and>
     requireAuth (login_env0\<lparr>lo_now := 86400999999999\<rparr>) (Some t) = Inr () \<and> requireAuth (login_env0\<lparr>lo_now := 86401000000000\<rparr>) (Some t) \<noteq> Inr ()"
proof -
  obtain x s' where i: "issueSessionCookie login_env0 ''ann'' empty_state = (x, s')" by (metis surj_pair)
  have ok: "token_env_ok (lo_token login_env0)" by (simp add: sample_env token_env0_ok)
  note day = session_lasts_a_day[OF ok i]
  have "\<exists>t. ls_issued s' = ls_issued empty_state @ [(''ann'', t)] \<and>
      (requireAuth (login_env0\<lparr>lo_now := n\<rparr>) (Some t) = Inr () \<longleftrightarrow> Unix n \<le> Unix (lo_now login_env0 + 24 * 3600 * 1000000000))" for n
    using day[of "login_env0\<lparr>lo_now := n\<rparr>"] by (simp add: login_env0_def)
  from this[of 86400999999999] this[of 86401000000000] i show ?thesis
    by (auto simp: sample_env Unix_def empty_state_def)
qed

theorem used_invitation_is_refused_witness:
  "\<exists>x s' e s3. passkeyInviteFinish login_env1 ''t'' ''ann'' (Some ()) ann_state = (Inr x, s') \<and>
     passkeyInviteFinish login_env1 ''t'' ''eve'' (Some ()) s' = (Inl e, s3) \<and> same_accounts s' s3"
proof -
  obtain r s' where run: "passkeyInviteFinish login_env1 ''t'' ''ann'' (Some ()) ann_state = (r, s')" by (metis surj_pair)
  have "\<not> isl (fst (passkeyInviteFinish login_env1 ''t'' ''ann'' (Some ()) ann_state))" by code_simp
  then obtain x where x: "r = Inr x" by (cases r) (simp_all add: run)
  obtain r' s3 where again: "passkeyInviteFinish login_env1 ''t'' ''eve'' (Some ()) s' = (r', s3)" by (metis surj_pair)
  have "\<not> lo_fault login_env1 CallConsume" by (simp add: login_env1_def sample_env)
  moreover have "later {login_env1} (TrimSpace ''t'') s' s'" by (rule later.now)
  ultimately obtain e where "r' = Inl e" "same_accounts s' s3"
    using used_invitation_is_refused[OF run[unfolded x] _ _ again] by metis
  with run again x show ?thesis by simp
qed

theorem deleted_user_can_return_witness:
  "\<exists>t x s1 expires s2. serve login_env0 (Some t) (DeleteUserReq ''ann'') ann_state = (Inr x, s1) \<and> db_users (ls_db s1) = [] \<and>
     serve login_env0 (Some t) CreateInviteReq s1 = (Inr (201, InviteCreated (hex [1]) expires), s2)"
proof -
  let ?t = "CreateToken (lo_token login_env0) (lo_secret login_env0) ''ann'' apiTokenExpiry 0"
  have ok: "token_env_ok (lo_token login_env0)" by (simp add: sample_env token_env0_ok)
  have unix: "Unix (lo_now login_env0) \<le> Unix (0 + apiTokenExpiry)" by (simp add: sample_env Unix_def apiTokenExpiry_def)
  have "requireAuth login_env0 (Some ?t) = Inr ()"
    using unix ValidateToken_CreateToken[OF ok, of "lo_secret login_env0" "''ann''" apiTokenExpiry 0 0]
    by (simp add: requireAuth_def tokenFromRequest_def sample_env)
  then have "serve login_env0 (Some ?t) (DeleteUserReq ''ann'') ann_state = deleteUser login_env0 ''ann'' ann_state"
    by (simp add: serve_def protected_def route_def bind_def from_sum_def)
  moreover have "deleteUser login_env0 ''ann'' ann_state = (Inr (204, NoContent), ann_state\<lparr>ls_db := (ls_db ann_state)\<lparr>db_users := []\<rparr>\<rparr>)"
    by code_simp
  ultimately have del: "serve login_env0 (Some ?t) (DeleteUserReq ''ann'') ann_state =
      (Inr (204, NoContent), ann_state\<lparr>ls_db := (ls_db ann_state)\<lparr>db_users := []\<rparr>\<rparr>)" by simp
  have "hex [1] \<notin> iv_token ` set (db_invites (ls_db (ann_state\<lparr>ls_db := (ls_db ann_state)\<lparr>db_users := []\<rparr>\<rparr>)))" by code_simp
  from deleted_user_can_return[OF ok del sample_env(11) _ unix sample_env(1,10) _ this] sample_names(2)
  obtain expires s2 where "serve login_env0 (Some ?t) CreateInviteReq (ann_state\<lparr>ls_db := (ls_db ann_state)\<lparr>db_users := []\<rparr>\<rparr>) =
      (Inr (201, InviteCreated (hex [1]) expires), s2)" by (auto simp: sample_env)
  with del show ?thesis by (intro exI conjI) (assumption, simp_all)
qed

end
