(* ===== verification/Broker.thy ===== *)
theory Broker
  imports Api "HOL-Library.Sublist"
begin

text \<open>
  Delivery of events: the broker for deployment events (\<open>events/broker.go\<close>), its twin for snapshots
  of the system status, and the two handlers that stream events to a client
  (\<open>handler_deployment_events.go\<close>, \<open>handler_system_status_events.go\<close>).

  A broker holds every channel made so far as the list of the events waiting in it, and the set of
  subscribed channels. Publishing visits the subscribed channels in the order of a Go map, which is
  a parameter. What happens around a streaming handler, in the order in which its \<open>select\<close> statement
  and the broker's lock let it happen, is a list of occurrences.
\<close>

section \<open>Brokers\<close>

record 'e broker =
  br_channels :: "'e list list"
  br_subs :: "nat list"

definition NewBroker :: "'e broker" where
  "NewBroker = \<lparr>br_channels = [], br_subs = []\<rparr>"

definition Broker_Subscribe :: "'e broker \<Rightarrow> nat \<times> 'e broker" where
  "Broker_Subscribe b =
     (let ch = length (br_channels b)
      in (ch, \<lparr>br_channels = br_channels b @ [[]], br_subs = br_subs b @ [ch]\<rparr>))"

definition Broker_cancel :: "nat \<Rightarrow> 'e broker \<Rightarrow> 'e broker" where
  "Broker_cancel ch b = b\<lparr>br_subs := removeAll ch (br_subs b)\<rparr>"

definition buffer_size :: nat where "buffer_size = 16"

definition try_send :: "'e \<Rightarrow> nat \<Rightarrow> 'e list list \<Rightarrow> 'e list list" where
  "try_send e ch chans = (if length (chans ! ch) < buffer_size then chans[ch := chans ! ch @ [e]] else chans)"

definition Broker_Publish :: "(nat list \<Rightarrow> nat list) \<Rightarrow> 'e \<Rightarrow> 'e broker \<Rightarrow> 'e broker" where
  "Broker_Publish order e b = b\<lparr>br_channels := fold (try_send e) (order (br_subs b)) (br_channels b)\<rparr>"

text \<open>The receive operation on a channel; on an empty one the receiver waits.\<close>

definition receive :: "nat \<Rightarrow> 'e broker \<Rightarrow> ('e \<times> 'e broker) option" where
  "receive ch b =
     (case br_channels b ! ch of
        [] \<Rightarrow> None
      | e # es \<Rightarrow> Some (e, b\<lparr>br_channels := (br_channels b)[ch := es]\<rparr>))"

section \<open>Streams\<close>

datatype 'e occurrence =
    Publishes "nat list \<Rightarrow> nat list" 'e
  | OtherSubscribes
  | OtherCancels nat
  | OtherReceives nat
  | Wakes bool
  | Ticks bool
  | Disconnects

text \<open>The two handlers differ in the events, in the keep-alive lines and in whether an event that
  cannot be encoded ends the stream.\<close>

record 'e stream_kind =
  sk_marshal :: "'e \<Rightarrow> string option"
  sk_keepalive :: bool
  sk_skips_unencodable :: bool

definition frame :: "string \<Rightarrow> string" where
  "frame data = ''data: '' @ data @ [CHR 0x0A, CHR 0x0A]"

definition keepalive :: string where
  "keepalive = '': keepalive'' @ [CHR 0x0A, CHR 0x0A]"

text \<open>\<open>Wakes written\<close> is a turn of the loop that receives an event, if one is waiting, and whose write
  succeeds if \<open>written\<close>. The result is what was written, and the broker, whose subscription is cancelled
  once the handler returns.\<close>

fun stream_loop :: "'e stream_kind \<Rightarrow> nat \<Rightarrow> 'e occurrence list \<Rightarrow> 'e broker \<Rightarrow> string list \<times> 'e broker" where
  "stream_loop k ch [] b = ([], b)"
| "stream_loop k ch (Publishes order e # os) b = stream_loop k ch os (Broker_Publish order e b)"
| "stream_loop k ch (OtherSubscribes # os) b = stream_loop k ch os (snd (Broker_Subscribe b))"
| "stream_loop k ch (OtherCancels c # os) b = stream_loop k ch os (if c = ch then b else Broker_cancel c b)"
| "stream_loop k ch (OtherReceives c # os) b =
     stream_loop k ch os (if c = ch \<or> c \<ge> length (br_channels b) then b else case receive c b of None \<Rightarrow> b | Some (_, b') \<Rightarrow> b')"
| "stream_loop k ch (Disconnects # os) b = ([], Broker_cancel ch b)"
| "stream_loop k ch (Ticks written # os) b =
     (if \<not> sk_keepalive k then stream_loop k ch os b
      else if \<not> written then ([], Broker_cancel ch b)
      else case stream_loop k ch os b of (out, b') \<Rightarrow> (keepalive # out, b'))"
| "stream_loop k ch (Wakes written # os) b =
     (case receive ch b of
        None \<Rightarrow> stream_loop k ch os b
      | Some (e, b') \<Rightarrow>
          (case sk_marshal k e of
             None \<Rightarrow> if sk_skips_unencodable k then stream_loop k ch os b' else ([], Broker_cancel ch b')
           | Some data \<Rightarrow>
               if \<not> written then ([], Broker_cancel ch b')
               else case stream_loop k ch os b' of (out, b'') \<Rightarrow> (frame data # out, b'')))"

definition deploymentEvents :: "bool \<Rightarrow> (StatusEvent \<Rightarrow> string option) \<Rightarrow> StatusEvent occurrence list \<Rightarrow> StatusEvent broker
    \<Rightarrow> (failure + string list) \<times> StatusEvent broker" where
  "deploymentEvents flusher marshal os b =
     (if \<not> flusher then (Inl (500, Msg ''streaming not supported''), b)
      else case Broker_Subscribe b of (ch, b') \<Rightarrow>
        (case stream_loop \<lparr>sk_marshal = marshal, sk_keepalive = False, sk_skips_unencodable = True\<rparr> ch os b' of
           (out, b'') \<Rightarrow> (Inr out, b'')))"

text \<open>The status stream starts with a snapshot of its own.\<close>

definition stream_from :: "('e \<Rightarrow> string option) \<Rightarrow> bool \<Rightarrow> 'e \<Rightarrow> 'e occurrence list \<Rightarrow> 'e broker \<Rightarrow> string list \<times> 'e broker" where
  "stream_from marshal written first os b =
     (case Broker_Subscribe b of (ch, b') \<Rightarrow>
        (case sk_marshal \<lparr>sk_marshal = marshal, sk_keepalive = True, sk_skips_unencodable = False\<rparr> first of
           None \<Rightarrow> ([], Broker_cancel ch b')
         | Some data \<Rightarrow>
             if \<not> written then ([], Broker_cancel ch b')
             else case stream_loop \<lparr>sk_marshal = marshal, sk_keepalive = True, sk_skips_unencodable = False\<rparr> ch os b' of
               (out, b'') \<Rightarrow> (frame data # out, b'')))"

section \<open>Lemmas\<close>

definition broker_ok :: "'e broker \<Rightarrow> bool" where
  "broker_ok b \<longleftrightarrow> distinct (br_subs b) \<and> (\<forall>c \<in> set (br_subs b). c < length (br_channels b)) \<and>
     (\<forall>q \<in> set (br_channels b). length q \<le> buffer_size)"

definition reorders :: "'e occurrence list \<Rightarrow> bool" where
  "reorders os \<longleftrightarrow> (\<forall>order e. Publishes order e \<in> set os \<longrightarrow> range_order order)"

lemma reorders_simps [simp]:
  "reorders []"
  "reorders (Publishes order e # os) \<longleftrightarrow> range_order order \<and> reorders os"
  "(\<And>order e. x \<noteq> Publishes order e) \<Longrightarrow> reorders (x # os) \<longleftrightarrow> reorders os"
  by (auto simp: reorders_def)

lemma length_try_sends [simp]: "length (fold (try_send e) cs chans) = length chans"
  by (induction cs arbitrary: chans) (simp_all add: try_send_def)

lemma nth_try_send:
  "c < length chans \<Longrightarrow> try_send e x chans ! c =
     (if c = x \<and> length (chans ! c) < buffer_size then chans ! c @ [e] else chans ! c)"
  by (simp add: try_send_def)

lemma length_try_send [simp]: "length (try_send e x chans) = length chans"
  by (simp add: try_send_def)

lemma nth_try_sends:
  assumes "distinct cs" "c < length chans" "\<forall>x \<in> set cs. x < length chans"
  shows "fold (try_send e) cs chans ! c =
    (if c \<in> set cs \<and> length (chans ! c) < buffer_size then chans ! c @ [e] else chans ! c)"
  using assms
proof (induction cs arbitrary: chans)
  case (Cons x cs)
  have "fold (try_send e) cs (try_send e x chans) ! c =
      (if c \<in> set cs \<and> length (try_send e x chans ! c) < buffer_size then try_send e x chans ! c @ [e] else try_send e x chans ! c)"
    by (rule Cons.IH) (use Cons.prems in simp_all)
  with Cons.prems show ?case
    by (cases "c = x") (simp_all add: nth_try_send)
qed simp

lemma Publish_channel:
  assumes "broker_ok b" "range_order order" "c < length (br_channels b)"
  shows "br_channels (Broker_Publish order e b) ! c =
    (if c \<in> set (br_subs b) \<and> length (br_channels b ! c) < buffer_size then br_channels b ! c @ [e] else br_channels b ! c)"
proof -
  have "set (order (br_subs b)) = set (br_subs b)" "distinct (order (br_subs b))"
    using assms(1) range_order_set[OF assms(2)] range_order_distinct_keys[OF assms(2), of id] by (simp_all add: broker_ok_def)
  then show ?thesis
    using assms by (simp add: Broker_Publish_def nth_try_sends broker_ok_def)
qed

lemma br_subs_simps [simp]:
  "br_subs (Broker_Publish order e b) = br_subs b" "br_subs (Broker_cancel c b) = removeAll c (br_subs b)"
  "br_subs (snd (Broker_Subscribe b)) = br_subs b @ [length (br_channels b)]"
  by (simp_all add: Broker_Publish_def Broker_cancel_def Broker_Subscribe_def Let_def)

lemma broker_ok_new: "broker_ok NewBroker"
  by (simp add: broker_ok_def NewBroker_def)

lemma broker_ok_subscribe: "broker_ok b \<Longrightarrow> broker_ok (snd (Broker_Subscribe b))"
  by (auto simp: broker_ok_def Broker_Subscribe_def Let_def)

lemma broker_ok_cancel: "broker_ok b \<Longrightarrow> broker_ok (Broker_cancel c b)"
  by (simp add: broker_ok_def Broker_cancel_def distinct_removeAll)

lemma broker_ok_publish:
  assumes "broker_ok b" "range_order order"
  shows "broker_ok (Broker_Publish order e b)"
proof -
  have "length (br_channels (Broker_Publish order e b) ! c) \<le> buffer_size" if "c < length (br_channels b)" for c
    using assms that by (auto simp: Publish_channel broker_ok_def)
  then show ?thesis
    using assms by (auto simp: broker_ok_def Broker_Publish_def in_set_conv_nth)
qed

lemma receive_Some:
  "receive c b = Some (e, b') \<longleftrightarrow>
     (\<exists>es. br_channels b ! c = e # es \<and> b' = b\<lparr>br_channels := (br_channels b)[c := es]\<rparr>)"
  by (auto simp: receive_def split: list.splits)

lemma broker_ok_receive:
  assumes "broker_ok b" "receive c b = Some (e, b')"
  shows "broker_ok b'"
proof -
  obtain es where es: "br_channels b ! c = e # es" "b' = b\<lparr>br_channels := (br_channels b)[c := es]\<rparr>"
    using assms(2) by (auto simp: receive_Some)
  have "length q \<le> buffer_size" if "q \<in> set ((br_channels b)[c := es])" for q
  proof (cases "c < length (br_channels b)")
    case True
    then have "length (e # es) \<le> buffer_size" using assms(1) es(1) nth_mem[OF True] by (auto simp: broker_ok_def)
    then show ?thesis using that set_update_subset_insert[of "br_channels b" c es] assms(1) by (auto simp: broker_ok_def)
  qed (use that assms(1) in \<open>simp add: broker_ok_def list_update_beyond\<close>)
  then show ?thesis using assms(1) by (simp add: broker_ok_def es(2))
qed

text \<open>The occurrences other than a turn of this stream, as they act on the broker.\<close>

definition around :: "nat \<Rightarrow> 'e occurrence \<Rightarrow> 'e broker \<Rightarrow> 'e broker" where
  "around ch x b =
     (case x of
        Publishes order e \<Rightarrow> Broker_Publish order e b
      | OtherSubscribes \<Rightarrow> snd (Broker_Subscribe b)
      | OtherCancels c \<Rightarrow> (if c = ch then b else Broker_cancel c b)
      | OtherReceives c \<Rightarrow> (if c = ch \<or> c \<ge> length (br_channels b) then b
          else case receive c b of None \<Rightarrow> b | Some (_, b') \<Rightarrow> b')
      | _ \<Rightarrow> b)"

definition subscribed :: "nat \<Rightarrow> 'e broker \<Rightarrow> bool" where
  "subscribed ch b \<longleftrightarrow> broker_ok b \<and> ch \<in> set (br_subs b)"

lemma subscribed_waiting:
  "subscribed ch b \<Longrightarrow> ch < length (br_channels b)" "subscribed ch b \<Longrightarrow> length (br_channels b ! ch) \<le> buffer_size"
  by (simp_all add: subscribed_def broker_ok_def)

lemma subscribed_around:
  assumes "subscribed ch b" "reorders [x]"
  shows "subscribed ch (around ch x b)"
proof (cases x)
  case (OtherReceives c)
  then show ?thesis
    using assms broker_ok_receive[of b c] by (auto simp: around_def subscribed_def receive_Some split: option.split)
qed (use assms in \<open>auto simp: around_def subscribed_def broker_ok_publish broker_ok_subscribe broker_ok_cancel\<close>)

lemma waiting_around:
  assumes "subscribed ch b" "reorders [x]"
  shows "br_channels (around ch x b) ! ch =
    (case x of Publishes order e \<Rightarrow> if length (br_channels b ! ch) < buffer_size then br_channels b ! ch @ [e] else br_channels b ! ch
     | _ \<Rightarrow> br_channels b ! ch)"
proof (cases x)
  case (OtherReceives c)
  then show ?thesis
    using assms by (auto simp: around_def receive_Some split: option.split)
qed (use assms in \<open>auto simp: around_def subscribed_def Publish_channel broker_ok_def
    Broker_Subscribe_def Broker_cancel_def nth_append Let_def\<close>)

lemma subscribed_receive:
  assumes "subscribed ch b" "receive ch b = Some (e, b')"
  shows "subscribed ch b'" "br_channels b ! ch = e # br_channels b' ! ch"
  using assms subscribed_waiting(1)[OF assms(1)] broker_ok_receive[of b ch e b']
  by (auto simp: subscribed_def receive_Some)

lemma subscribed_new: "broker_ok b \<Longrightarrow> Broker_Subscribe b = (ch, b') \<Longrightarrow> subscribed ch b' \<and> br_channels b' ! ch = []"
  using broker_ok_subscribe[of b] by (auto simp: Broker_Subscribe_def subscribed_def Let_def)


definition elsewhere :: "'e occurrence \<Rightarrow> bool" where
  "elsewhere x = (case x of Wakes _ \<Rightarrow> False | Ticks _ \<Rightarrow> False | Disconnects \<Rightarrow> False | _ \<Rightarrow> True)"

lemma stream_loop_elsewhere: "elsewhere x \<Longrightarrow> stream_loop k ch (x # os) b = stream_loop k ch os (around ch x b)"
  by (cases x) (simp_all add: around_def elsewhere_def)

section \<open>What a client is sent\<close>

definition events_of :: "'e occurrence list \<Rightarrow> 'e list" where
  "events_of os = concat (map (\<lambda>x. case x of Publishes _ e \<Rightarrow> [e] | _ \<Rightarrow> []) os)"

definition frames :: "'e stream_kind \<Rightarrow> 'e list \<Rightarrow> string list" where
  "frames k es = map frame (List.map_filter (sk_marshal k) es)"

definition data_lines :: "string list \<Rightarrow> string list" where
  "data_lines out = filter (\<lambda>l. l \<noteq> keepalive) out"

text \<open>The client reads: fewer events than a channel holds are waiting at each publication, and no
  write fails.\<close>

fun keeps_up :: "nat \<Rightarrow> 'e occurrence list \<Rightarrow> bool" where
  "keeps_up waiting [] = True"
| "keeps_up waiting (Publishes order e # os) = (waiting < buffer_size \<and> keeps_up (Suc waiting) os)"
| "keeps_up waiting (Wakes written # os) = ((waiting = 0 \<or> written) \<and> keeps_up (waiting - 1) os)"
| "keeps_up waiting (Ticks written # os) = (written \<and> keeps_up waiting os)"
| "keeps_up waiting (Disconnects # os) = False"
| "keeps_up waiting (x # os) = keeps_up waiting os"

lemma events_of_simps [simp]:
  "events_of [] = []" "events_of (Publishes order e # os) = e # events_of os"
  "(\<And>order e. x \<noteq> Publishes order e) \<Longrightarrow> events_of (x # os) = events_of os"
  by (simp_all add: events_of_def split: occurrence.split)

lemma frames_simps [simp]:
  "frames k [] = []" "frames k (es @ fs) = frames k es @ frames k fs"
  "frames k (e # es) = (case sk_marshal k e of None \<Rightarrow> frames k es | Some data \<Rightarrow> frame data # frames k es)"
  by (simp_all add: frames_def List.map_filter_def split: option.split)

lemma data_lines_simps [simp]:
  "data_lines [] = []" "data_lines (frame d # out) = frame d # data_lines out" "data_lines (keepalive # out) = data_lines out"
  by (simp_all add: data_lines_def frame_def keepalive_def)

lemma around_frames:
  assumes "subscribed ch b" "reorders [x]"
  shows "subseq (frames k (br_channels (around ch x b) ! ch @ events_of os)) (frames k (br_channels b ! ch @ events_of (x # os)))"
  using assms by (cases x) (auto simp: waiting_around subseq_append' intro: list_emb_append2 split: option.split)


text \<open>Whatever happens, a client is sent what was waiting and what was published, in that order and
  with omissions only, and its channel stays within its bound.\<close>

lemma stream_in_order:
  assumes "subscribed ch b" "reorders os" "stream_loop k ch os b = (out, b')"
  shows "subseq (data_lines out) (frames k (br_channels b ! ch @ events_of os))"
  using assms
proof (induction os arbitrary: b out)
  case (Cons x os)
  have ros: "reorders [x]" "reorders os" using Cons.prems(2) by (auto simp: reorders_def)
  note IH = Cons.IH[OF _ ros(2)]
  show ?case
  proof (cases "elsewhere x")
    case True
    then show ?thesis
      using IH[OF subscribed_around[OF Cons.prems(1) ros(1)]] around_frames[OF Cons.prems(1) ros(1)] Cons.prems(3)
      by (auto simp: stream_loop_elsewhere intro: subseq_order.trans)
  next
    case False
    then consider "x = Disconnects" | w where "x = Ticks w" | w where "x = Wakes w"
      by (cases x) (simp_all add: elsewhere_def)
    then show ?thesis
    proof cases
      case 2
      then show ?thesis using IH[OF Cons.prems(1)] Cons.prems(3) by (auto split: if_splits prod.splits)
    next
      case 3
      then show ?thesis
        using IH[OF Cons.prems(1)] IH[OF subscribed_receive(1)[OF Cons.prems(1)]] subscribed_receive(2)[OF Cons.prems(1)] Cons.prems(3)
        by (auto split: option.splits if_splits prod.splits)
    qed (use Cons.prems(3) in simp)
  qed
qed simp

lemma keeps_up_elsewhere:
  assumes "elsewhere x" "subscribed ch b" "reorders [x]" "keeps_up (length (br_channels b ! ch)) (x # os)"
  shows "keeps_up (length (br_channels (around ch x b) ! ch)) os"
    "br_channels (around ch x b) ! ch @ events_of os = br_channels b ! ch @ events_of (x # os)"
  using assms by (cases x; simp add: waiting_around elsewhere_def)+

lemma stream_complete:
  assumes "subscribed ch b" "reorders os" "stream_loop k ch os b = (out, b')" "keeps_up (length (br_channels b ! ch)) os"
    "sk_skips_unencodable k \<or> (\<forall>e. sk_marshal k e \<noteq> None)"
  shows "subscribed ch b' \<and> data_lines out @ frames k (br_channels b' ! ch) = frames k (br_channels b ! ch @ events_of os)"
  using assms(1-4)
proof (induction os arbitrary: b out)
  case (Cons x os)
  have ros: "reorders [x]" "reorders os" using Cons.prems(2) by (auto simp: reorders_def)
  note IH = Cons.IH[OF _ ros(2)] and prems = Cons.prems(1,3,4)
  show ?case
  proof (cases "elsewhere x")
    case True
    show ?thesis
      using IH[OF subscribed_around[OF prems(1) ros(1)] _ keeps_up_elsewhere(1)[OF True prems(1) ros(1) prems(3)]]
        keeps_up_elsewhere(2)[OF True prems(1) ros(1) prems(3)] prems(2)
      by (simp add: stream_loop_elsewhere[OF True])
  next
    case False
    with prems(3) consider w where "x = Ticks w" | w where "x = Wakes w"
      by (cases x) (simp_all add: elsewhere_def)
    then show ?thesis
    proof cases
      case 1
      then show ?thesis using IH[OF prems(1)] prems(2,3) by (auto split: if_splits prod.splits)
    next
      case 2
      show ?thesis
      proof (cases "receive ch b")
        case None
        with 2 show ?thesis using IH[OF prems(1)] prems(2,3) by (auto simp: receive_def split: list.splits)
      next
        case (Some r)
        then obtain e b1 where r: "receive ch b = Some (e, b1)" by (cases r) simp
        note waiting = subscribed_receive(2)[OF prems(1) r]
        have "sk_skips_unencodable k \<or> sk_marshal k e \<noteq> None" using assms(5) by blast
        then show ?thesis
          using IH[OF subscribed_receive(1)[OF prems(1) r]] prems(2,3)
          by (auto simp: 2 r waiting split: option.splits prod.splits if_splits)
      qed
    qed
  qed
qed simp


lemma data_lines_id: "\<not> sk_keepalive k \<Longrightarrow> data_lines (fst (stream_loop k ch os b)) = fst (stream_loop k ch os b)"
  by (induction k ch os b rule: stream_loop.induct) (auto split: prod.splits option.splits)

lemma stream_broker_ok:
  assumes "subscribed ch b" "reorders os"
  shows "broker_ok (snd (stream_loop k ch os b))"
  using assms
proof (induction os arbitrary: b)
  case (Cons x os)
  have ros: "reorders [x]" "reorders os" using Cons.prems(2) by (auto simp: reorders_def)
  note IH = Cons.IH[OF _ ros(2)] and cancelled = broker_ok_cancel[of b ch]
  show ?case
  proof (cases "elsewhere x")
    case True
    then show ?thesis using IH[OF subscribed_around[OF Cons.prems(1) ros(1)]] by (simp add: stream_loop_elsewhere)
  next
    case False
    then show ?thesis
      using Cons.prems(1) IH[OF Cons.prems(1)] IH[OF subscribed_receive(1)[OF Cons.prems(1)]]
        subscribed_receive(1)[OF Cons.prems(1)]
      by (cases x) (auto simp: elsewhere_def subscribed_def broker_ok_cancel split: option.split prod.split)
  qed
qed (simp add: subscribed_def)

text \<open>C16. A client of the deployment event stream is sent the published events in the order of
  publication, with omissions only; nothing is omitted as long as it has never sixteen events
  waiting when another is published and its connection lasts; and no channel ever holds more than
  sixteen events.\<close>

theorem event_stream_delivers:
  assumes "broker_ok b" "reorders os" "deploymentEvents True marshal os b = (Inr out, b')"
  shows "subseq out (map frame (List.map_filter marshal (events_of os))) \<and>
    (keeps_up 0 os \<longrightarrow> out @ map frame (List.map_filter marshal (br_channels b' ! length (br_channels b))) =
       map frame (List.map_filter marshal (events_of os))) \<and> broker_ok b'"
proof -
  obtain ch b1 where sub: "Broker_Subscribe b = (ch, b1)" by fastforce
  then have ch: "length (br_channels b) = ch" by (auto simp: Broker_Subscribe_def Let_def)
  define k where "k = \<lparr>sk_marshal = marshal, sk_keepalive = False, sk_skips_unencodable = True\<rparr>"
  have run: "stream_loop k ch os b1 = (out, b')" and skips: "sk_skips_unencodable k"
    using assms(3) by (auto simp: deploymentEvents_def sub k_def split: prod.splits)
  have out: "data_lines out = out" using data_lines_id[of k ch os b1] by (simp add: run) (simp add: k_def)
  have frames: "frames k es = map frame (List.map_filter marshal es)" for es by (simp add: frames_def k_def)
  note start = subscribed_new[OF assms(1) sub]
  show ?thesis
    using stream_in_order[OF _ assms(2) run] stream_complete[OF _ assms(2) run] skips
      stream_broker_ok[OF _ assms(2), of ch b1 k] start by (simp add: out frames ch run)
qed

definition event0 :: StatusEvent where "event0 = status_event ''d1'' ''deploying''"

definition deliveries0 :: "StatusEvent occurrence list" where
  "deliveries0 = [Publishes id event0, OtherSubscribes, Wakes True, Publishes rev event0]"

lemma deliveries0_run:
  "deploymentEvents True (\<lambda>e. Some (ev_Status e)) deliveries0 NewBroker =
     (Inr [frame ''deploying''], \<lparr>br_channels = [[event0], [event0]], br_subs = [0, 1]\<rparr>)"
  by (simp add: deploymentEvents_def deliveries0_def NewBroker_def Broker_Subscribe_def Broker_Publish_def
      try_send_def receive_def buffer_size_def event0_def status_event_def Let_def)

theorem event_stream_delivers_witness:
  "keeps_up 0 deliveries0 \<and>
   [frame ''deploying''] @ map frame (List.map_filter (\<lambda>e. Some (ev_Status e)) [event0]) =
     map frame (List.map_filter (\<lambda>e. Some (ev_Status e)) (events_of deliveries0))"
proof -
  have up: "keeps_up 0 deliveries0" and ro: "reorders deliveries0"
    by (simp_all add: deliveries0_def buffer_size_def)
  show ?thesis
    using event_stream_delivers[OF broker_ok_new ro deliveries0_run] up by (simp add: NewBroker_def)
qed

end
