(* ===== verification/Status.thy ===== *)
theory Status
  imports Complex_Main Broker
begin

text \<open>
  The system status: the provider that keeps the latest signals and judges their freshness
  (\<open>system_status.go\<close>), the cache of container statistics (\<open>container_stats_cache.go\<close>), and the
  orchestrator's heartbeat (\<open>handler_record_orchestrator_heartbeat.go\<close>) that feeds both and announces
  the new snapshot.

  Times are nanoseconds since Go's zero time, so that the zero time is 0; a difference of times
  saturates at the bounds of a 64-bit duration. Percentages come from JSON numbers, which are finite,
  and are rationals. The clock is read at several places; each reading is a parameter. The handler
  knows the provider through small interfaces that a provider may lack and whose calls may fail: they
  are the fields of \<open>ingestors\<close>, and \<open>default_ingestors\<close> are those of the provider modelled here.
\<close>

section \<open>Snapshots\<close>

datatype SystemStatusState = SystemStatusStateHealthy | SystemStatusStateDegraded | SystemStatusStateUnavailable

record APISystemStatusChecks =
  ac_ProcessRunning :: bool
  ac_DashboardReachable :: bool
  ac_StoreAccessible :: bool

record APISystemStatus =
  sa_State :: SystemStatusState
  sa_LastUpdated :: int
  sa_Checks :: APISystemStatusChecks

record OrchestratorSystemStatusChecks =
  oc_ProcessRunning :: bool
  oc_DockerReachable :: bool
  oc_StoreAccessible :: bool

record OrchestratorSystemStatus =
  so_State :: SystemStatusState
  so_LastUpdated :: "int option"
  so_Checks :: OrchestratorSystemStatusChecks

record LoadBalancerSystemStatusChecks =
  lc_ProcessRunning :: bool
  lc_HealthcheckResponding :: bool

record LoadBalancerBlockedIPStatus =
  bi_IP :: string
  bi_BlockedUntil :: "int option"

record LoadBalancerTrafficSystemStatus =
  lt_TotalRequests :: int
  lt_SuspiciousRequests :: int
  lt_BlockedRequests :: int
  lt_WAFBlockedRequests :: int
  lt_UABlockedRequests :: int
  lt_ActiveBlockedIPs :: int
  lt_BlockedIPs :: "LoadBalancerBlockedIPStatus list"

record LoadBalancerSystemStatus =
  sl_State :: SystemStatusState
  sl_LastUpdated :: "int option"
  sl_Checks :: LoadBalancerSystemStatusChecks
  sl_Traffic :: "LoadBalancerTrafficSystemStatus option"

record DockerSystemStatus =
  sd_State :: SystemStatusState
  sd_LastUpdated :: "int option"
  sd_DaemonHealthy :: bool

record HostMetricSystemStatus =
  sm_State :: SystemStatusState
  sm_UsagePercent :: rat
  sm_LastUpdated :: "int option"

record HostMetadataSpecsSystemStatus =
  sp_CPUCores :: int
  sp_MemoryBytes :: nat
  sp_DiskBytes :: nat

record HostMetadataSystemStatus =
  hm_IPAddress :: string
  hm_OSName :: string
  hm_OSVersion :: string
  hm_Specs :: HostMetadataSpecsSystemStatus

record HostSystemStatus =
  sh_CPU :: HostMetricSystemStatus
  sh_RAM :: HostMetricSystemStatus
  sh_Metadata :: "HostMetadataSystemStatus option"

record SystemStatusSnapshot =
  sn_API :: APISystemStatus
  sn_Orchestrator :: OrchestratorSystemStatus
  sn_LoadBalancer :: LoadBalancerSystemStatus
  sn_Docker :: DockerSystemStatus
  sn_Host :: HostSystemStatus
  sn_Error :: string

section \<open>The provider\<close>

record orchestratorHeartbeatSignal =
  os_lastHeartbeatUTC :: int
  os_storeAccessible :: bool
  os_hasSignal :: bool

record dockerConnectivitySignal =
  ds_lastCheckedUTC :: int
  ds_reachable :: bool
  ds_hasSignal :: bool

record loadBalancerHealthSignal =
  ls_lastCheckedUTC :: int
  ls_responding :: bool
  ls_traffic :: "LoadBalancerTrafficSystemStatus option"
  ls_hasSignal :: bool

record hostMetricSignal =
  ms_lastCheckedUTC :: int
  ms_usagePercent :: rat
  ms_hasSignal :: bool

record hostMetadataSignal =
  hs_metadata :: HostMetadataSystemStatus
  hs_hasSignal :: bool

record defaultSystemStatusProvider =
  pv_orchestratorSignal :: orchestratorHeartbeatSignal
  pv_dockerSignal :: dockerConnectivitySignal
  pv_loadBalancerSignal :: loadBalancerHealthSignal
  pv_cpuSignal :: hostMetricSignal
  pv_ramSignal :: hostMetricSignal
  pv_hostMetadata :: hostMetadataSignal

datatype clock_reading =
    AtRecord | AtOrchestratorDocker | AtOrchestrator | AtAPI | AtLoadBalancer | AtDocker | AtCPU | AtRAM

record provider_env =
  pe_now :: "clock_reading \<Rightarrow> int"
  pe_staleAfter :: int
  pe_apiStoreCheck :: "bool option"

definition no_metadata :: HostMetadataSystemStatus where
  "no_metadata = \<lparr>hm_IPAddress = [], hm_OSName = [], hm_OSVersion = [],
     hm_Specs = \<lparr>sp_CPUCores = 0, sp_MemoryBytes = 0, sp_DiskBytes = 0\<rparr>\<rparr>"

definition no_metric :: hostMetricSignal where
  "no_metric = \<lparr>ms_lastCheckedUTC = 0, ms_usagePercent = 0, ms_hasSignal = False\<rparr>"

definition newDefaultSystemStatusProvider :: defaultSystemStatusProvider where
  "newDefaultSystemStatusProvider =
     \<lparr>pv_orchestratorSignal = \<lparr>os_lastHeartbeatUTC = 0, os_storeAccessible = False, os_hasSignal = False\<rparr>,
      pv_dockerSignal = \<lparr>ds_lastCheckedUTC = 0, ds_reachable = False, ds_hasSignal = False\<rparr>,
      pv_loadBalancerSignal = \<lparr>ls_lastCheckedUTC = 0, ls_responding = False, ls_traffic = None, ls_hasSignal = False\<rparr>,
      pv_cpuSignal = no_metric, pv_ramSignal = no_metric,
      pv_hostMetadata = \<lparr>hs_metadata = no_metadata, hs_hasSignal = False\<rparr>\<rparr>"

definition Sub :: "int \<Rightarrow> int \<Rightarrow> int" where
  "Sub t u = max (- (2 ^ 63)) (min (2 ^ 63 - 1) (t - u))"

definition or_now :: "provider_env \<Rightarrow> int \<Rightarrow> int" where
  "or_now pe t = (if t = 0 then pe_now pe AtRecord else t)"

definition RecordOrchestratorHeartbeat :: "provider_env \<Rightarrow> int \<Rightarrow> bool \<Rightarrow> defaultSystemStatusProvider \<Rightarrow> defaultSystemStatusProvider" where
  "RecordOrchestratorHeartbeat pe t storeAccessible p =
     p\<lparr>pv_orchestratorSignal := \<lparr>os_lastHeartbeatUTC = or_now pe t, os_storeAccessible = storeAccessible, os_hasSignal = True\<rparr>\<rparr>"

definition RecordDockerConnectivity :: "provider_env \<Rightarrow> bool \<Rightarrow> int \<Rightarrow> defaultSystemStatusProvider \<Rightarrow> defaultSystemStatusProvider" where
  "RecordDockerConnectivity pe reachable t p =
     p\<lparr>pv_dockerSignal := \<lparr>ds_lastCheckedUTC = or_now pe t, ds_reachable = reachable, ds_hasSignal = True\<rparr>\<rparr>"

definition RecordLoadBalancerHealth :: "provider_env \<Rightarrow> bool \<Rightarrow> int \<Rightarrow> LoadBalancerTrafficSystemStatus option
    \<Rightarrow> defaultSystemStatusProvider \<Rightarrow> defaultSystemStatusProvider" where
  "RecordLoadBalancerHealth pe responding t traffic p =
     p\<lparr>pv_loadBalancerSignal := \<lparr>ls_lastCheckedUTC = or_now pe t, ls_responding = responding, ls_traffic = traffic, ls_hasSignal = True\<rparr>\<rparr>"

definition RecordCPUUtilization :: "provider_env \<Rightarrow> rat \<Rightarrow> int \<Rightarrow> defaultSystemStatusProvider \<Rightarrow> defaultSystemStatusProvider" where
  "RecordCPUUtilization pe usagePercent t p =
     p\<lparr>pv_cpuSignal := \<lparr>ms_lastCheckedUTC = or_now pe t, ms_usagePercent = usagePercent, ms_hasSignal = True\<rparr>\<rparr>"

definition RecordRAMUtilization :: "provider_env \<Rightarrow> rat \<Rightarrow> int \<Rightarrow> defaultSystemStatusProvider \<Rightarrow> defaultSystemStatusProvider" where
  "RecordRAMUtilization pe usagePercent t p =
     p\<lparr>pv_ramSignal := \<lparr>ms_lastCheckedUTC = or_now pe t, ms_usagePercent = usagePercent, ms_hasSignal = True\<rparr>\<rparr>"

definition RecordHostMetadata :: "HostMetadataSystemStatus \<Rightarrow> defaultSystemStatusProvider \<Rightarrow> defaultSystemStatusProvider" where
  "RecordHostMetadata metadata p = p\<lparr>pv_hostMetadata := \<lparr>hs_metadata = metadata, hs_hasSignal = True\<rparr>\<rparr>"

definition dockerStatus :: "provider_env \<Rightarrow> clock_reading \<Rightarrow> defaultSystemStatusProvider \<Rightarrow> DockerSystemStatus" where
  "dockerStatus pe reading p =
     (let signal = pv_dockerSignal p in
      if \<not> ds_hasSignal signal
      then \<lparr>sd_State = SystemStatusStateUnavailable, sd_LastUpdated = None, sd_DaemonHealthy = False\<rparr>
      else
        let age = Sub (pe_now pe reading) (ds_lastCheckedUTC signal);
            age = (if age < 0 then 0 else age);
            checkedAt = ds_lastCheckedUTC signal in
        if age > pe_staleAfter pe
        then \<lparr>sd_State = SystemStatusStateDegraded, sd_LastUpdated = Some checkedAt, sd_DaemonHealthy = False\<rparr>
        else \<lparr>sd_State = (if ds_reachable signal then SystemStatusStateHealthy else SystemStatusStateDegraded),
               sd_LastUpdated = Some checkedAt, sd_DaemonHealthy = ds_reachable signal\<rparr>)"

definition orchestratorStatus :: "provider_env \<Rightarrow> defaultSystemStatusProvider \<Rightarrow> OrchestratorSystemStatus" where
  "orchestratorStatus pe p =
     (let signal = pv_orchestratorSignal p in
      if \<not> os_hasSignal signal
      then \<lparr>so_State = SystemStatusStateUnavailable, so_LastUpdated = None,
             so_Checks = \<lparr>oc_ProcessRunning = False, oc_DockerReachable = False, oc_StoreAccessible = False\<rparr>\<rparr>
      else
        let lastHeartbeat = os_lastHeartbeatUTC signal;
            dockerReachable = sd_DaemonHealthy (dockerStatus pe AtOrchestratorDocker p);
            age = Sub (pe_now pe AtOrchestrator) lastHeartbeat;
            age = (if age < 0 then 0 else age) in
        \<lparr>so_State = (if age > pe_staleAfter pe \<or> \<not> os_storeAccessible signal \<or> \<not> dockerReachable
                      then SystemStatusStateDegraded else SystemStatusStateHealthy),
         so_LastUpdated = Some lastHeartbeat,
         so_Checks = \<lparr>oc_ProcessRunning = True, oc_DockerReachable = dockerReachable, oc_StoreAccessible = os_storeAccessible signal\<rparr>\<rparr>)"

definition loadBalancerStatus :: "provider_env \<Rightarrow> defaultSystemStatusProvider \<Rightarrow> LoadBalancerSystemStatus" where
  "loadBalancerStatus pe p =
     (let signal = pv_loadBalancerSignal p in
      if \<not> ls_hasSignal signal
      then \<lparr>sl_State = SystemStatusStateUnavailable, sl_LastUpdated = None,
             sl_Checks = \<lparr>lc_ProcessRunning = False, lc_HealthcheckResponding = False\<rparr>, sl_Traffic = None\<rparr>
      else
        let age = Sub (pe_now pe AtLoadBalancer) (ls_lastCheckedUTC signal);
            age = (if age < 0 then 0 else age) in
        \<lparr>sl_State = (if age > pe_staleAfter pe \<or> \<not> ls_responding signal then SystemStatusStateDegraded else SystemStatusStateHealthy),
         sl_LastUpdated = Some (ls_lastCheckedUTC signal),
         sl_Checks = \<lparr>lc_ProcessRunning = True, lc_HealthcheckResponding = ls_responding signal\<rparr>,
         sl_Traffic = ls_traffic signal\<rparr>)"

definition cpuStatus :: "provider_env \<Rightarrow> defaultSystemStatusProvider \<Rightarrow> HostMetricSystemStatus" where
  "cpuStatus pe p =
     (let signal = pv_cpuSignal p in
      if \<not> ms_hasSignal signal
      then \<lparr>sm_State = SystemStatusStateUnavailable, sm_UsagePercent = 0, sm_LastUpdated = None\<rparr>
      else \<lparr>sm_State = (if Sub (pe_now pe AtCPU) (ms_lastCheckedUTC signal) > pe_staleAfter pe
                        then SystemStatusStateDegraded else SystemStatusStateHealthy),
            sm_UsagePercent = ms_usagePercent signal, sm_LastUpdated = Some (ms_lastCheckedUTC signal)\<rparr>)"

definition ramStatus :: "provider_env \<Rightarrow> defaultSystemStatusProvider \<Rightarrow> HostMetricSystemStatus" where
  "ramStatus pe p =
     (let signal = pv_ramSignal p in
      if \<not> ms_hasSignal signal
      then \<lparr>sm_State = SystemStatusStateUnavailable, sm_UsagePercent = 0, sm_LastUpdated = None\<rparr>
      else \<lparr>sm_State = (if Sub (pe_now pe AtRAM) (ms_lastCheckedUTC signal) > pe_staleAfter pe
                        then SystemStatusStateDegraded else SystemStatusStateHealthy),
            sm_UsagePercent = ms_usagePercent signal, sm_LastUpdated = Some (ms_lastCheckedUTC signal)\<rparr>)"

definition hostMetadataStatus :: "defaultSystemStatusProvider \<Rightarrow> HostMetadataSystemStatus option" where
  "hostMetadataStatus p = (if \<not> hs_hasSignal (pv_hostMetadata p) then None else Some (hs_metadata (pv_hostMetadata p)))"

definition Provider_Snapshot :: "provider_env \<Rightarrow> defaultSystemStatusProvider \<Rightarrow> SystemStatusSnapshot" where
  "Provider_Snapshot pe p =
     (let orchestrator = orchestratorStatus pe p;
          storeAccessible = (case pe_apiStoreCheck pe of None \<Rightarrow> True | Some accessible \<Rightarrow> accessible) in
      \<lparr>sn_API = \<lparr>sa_State = (if \<not> storeAccessible then SystemStatusStateDegraded else SystemStatusStateHealthy),
                  sa_LastUpdated = pe_now pe AtAPI,
                  sa_Checks = \<lparr>ac_ProcessRunning = True, ac_DashboardReachable = True, ac_StoreAccessible = storeAccessible\<rparr>\<rparr>,
       sn_Orchestrator = orchestrator,
       sn_LoadBalancer = loadBalancerStatus pe p,
       sn_Docker = dockerStatus pe AtDocker p,
       sn_Host = \<lparr>sh_CPU = cpuStatus pe p, sh_RAM = ramStatus pe p, sh_Metadata = hostMetadataStatus p\<rparr>,
       sn_Error = []\<rparr>)"

definition unavailable_metric :: HostMetricSystemStatus where
  "unavailable_metric = \<lparr>sm_State = SystemStatusStateUnavailable, sm_UsagePercent = 0, sm_LastUpdated = None\<rparr>"

definition unavailableSystemStatusSnapshot :: "int \<Rightarrow> SystemStatusSnapshot" where
  "unavailableSystemStatusSnapshot now =
     \<lparr>sn_API = \<lparr>sa_State = SystemStatusStateUnavailable, sa_LastUpdated = now,
         sa_Checks = \<lparr>ac_ProcessRunning = False, ac_DashboardReachable = False, ac_StoreAccessible = False\<rparr>\<rparr>,
      sn_Orchestrator = \<lparr>so_State = SystemStatusStateUnavailable, so_LastUpdated = None,
         so_Checks = \<lparr>oc_ProcessRunning = False, oc_DockerReachable = False, oc_StoreAccessible = False\<rparr>\<rparr>,
      sn_LoadBalancer = \<lparr>sl_State = SystemStatusStateUnavailable, sl_LastUpdated = None,
         sl_Checks = \<lparr>lc_ProcessRunning = False, lc_HealthcheckResponding = False\<rparr>, sl_Traffic = None\<rparr>,
      sn_Docker = \<lparr>sd_State = SystemStatusStateUnavailable, sd_LastUpdated = None, sd_DaemonHealthy = False\<rparr>,
      sn_Host = \<lparr>sh_CPU = unavailable_metric, sh_RAM = unavailable_metric, sh_Metadata = None\<rparr>,
      sn_Error = ''system status unavailable''\<rparr>"


section \<open>Container statistics\<close>

record ContainerStats =
  cs_CPUPercent :: rat
  cs_MemoryUsedBytes :: nat
  cs_MemoryLimitBytes :: nat
  cs_MemoryPercent :: rat

definition ReplaceAll :: "ContainerStats gomap \<Rightarrow> ContainerStats gomap option \<Rightarrow> ContainerStats gomap option" where
  "ReplaceAll stats c = (case c of None \<Rightarrow> None | Some _ \<Rightarrow> Some stats)"

definition Stats_Get :: "string \<Rightarrow> ContainerStats gomap option \<Rightarrow> ContainerStats option" where
  "Stats_Get deploymentID c = (case c of None \<Rightarrow> None | Some byDeploymentID \<Rightarrow> map_of byDeploymentID deploymentID)"

section \<open>The heartbeat\<close>

record blocked_ip_payload =
  bq_IP :: string
  bq_BlockedUntil :: "int option"

record traffic_payload =
  tq_TotalRequests :: "int option"
  tq_SuspiciousRequests :: "int option"
  tq_BlockedRequests :: "int option"
  tq_WAFBlockedRequests :: "int option"
  tq_UABlockedRequests :: "int option"
  tq_ActiveBlockedIPs :: "int option"
  tq_BlockedIPs :: "blocked_ip_payload list"

record docker_payload =
  kq_Reachable :: "bool option"
  kq_CheckedAt :: "int option"

record load_balancer_payload =
  lq_Responding :: "bool option"
  lq_CheckedAt :: "int option"
  lq_Traffic :: "traffic_payload option"

record metric_payload =
  mq_UsagePercent :: "rat option"
  mq_CheckedAt :: "int option"

record specs_payload =
  sq_CPUCores :: "int option"
  sq_MemoryBytes :: "nat option"
  sq_DiskBytes :: "nat option"

record metadata_payload =
  iq_IPAddress :: string
  iq_OSName :: string
  iq_OSVersion :: string
  iq_Specs :: "specs_payload option"

record host_payload =
  hq_CPU :: "metric_payload option"
  hq_RAM :: "metric_payload option"
  hq_Metadata :: "metadata_payload option"

record stats_payload =
  xq_CPUPercent :: "rat option"
  xq_MemoryUsedBytes :: "nat option"
  xq_MemoryLimitBytes :: "nat option"
  xq_MemoryPercent :: "rat option"

record heartbeat_payload =
  hb_At :: "int option"
  hb_Orchestrator :: "bool option option"
  hb_Docker :: "docker_payload option"
  hb_LoadBalancer :: "load_balancer_payload option"
  hb_Host :: "host_payload option"
  hb_ContainerStats :: "stats_payload gomap option"

text \<open>What the handler can call of a provider with state \<open>'p\<close>: an absent method is \<open>None\<close>, a failing call
  is \<open>Inl\<close>.\<close>

type_synonym 'p recording = "'p \<Rightarrow> (unit + unit) \<times> 'p"

record 'p ingestors =
  ig_heartbeats :: "(int \<Rightarrow> bool \<Rightarrow> 'p recording) option"
  ig_docker :: "(bool \<Rightarrow> int \<Rightarrow> 'p recording) option"
  ig_loadBalancer :: "(bool \<Rightarrow> int \<Rightarrow> LoadBalancerTrafficSystemStatus option \<Rightarrow> 'p recording) option"
  ig_hostMetadata :: "(HostMetadataSystemStatus \<Rightarrow> 'p recording) option"
  ig_cpu :: "(rat \<Rightarrow> int \<Rightarrow> 'p recording) option"
  ig_ram :: "(rat \<Rightarrow> int \<Rightarrow> 'p recording) option"
  ig_snapshot :: "'p \<Rightarrow> SystemStatusSnapshot option"

definition default_ingestors :: "provider_env \<Rightarrow> defaultSystemStatusProvider ingestors" where
  "default_ingestors pe =
     \<lparr>ig_heartbeats = Some (\<lambda>t accessible p. (Inr (), RecordOrchestratorHeartbeat pe t accessible p)),
      ig_docker = Some (\<lambda>reachable t p. (Inr (), RecordDockerConnectivity pe reachable t p)),
      ig_loadBalancer = Some (\<lambda>responding t traffic p. (Inr (), RecordLoadBalancerHealth pe responding t traffic p)),
      ig_hostMetadata = Some (\<lambda>metadata p. (Inr (), RecordHostMetadata metadata p)),
      ig_cpu = Some (\<lambda>usage t p. (Inr (), RecordCPUUtilization pe usage t p)),
      ig_ram = Some (\<lambda>usage t p. (Inr (), RecordRAMUtilization pe usage t p)),
      ig_snapshot = (\<lambda>p. Some (Provider_Snapshot pe p))\<rparr>"

record 'p status_world =
  sw_provider :: 'p
  sw_containerStats :: "ContainerStats gomap option"
  sw_statusEvents :: "SystemStatusSnapshot broker option"

definition records :: "string \<Rightarrow> 'p recording \<Rightarrow> 'p status_world \<Rightarrow> (failure + unit) \<times> 'p status_world" where
  "records msg f s =
     (case f (sw_provider s) of (r, p) \<Rightarrow> (map_sum (\<lambda>_. (500, Msg msg)) id r, s\<lparr>sw_provider := p\<rparr>))"

text \<open>The call of a method that the provider may lack.\<close>

definition present :: "'m option \<Rightarrow> ('m \<Rightarrow> 'p status_world \<Rightarrow> (failure + unit) \<times> 'p status_world)
    \<Rightarrow> 'p status_world \<Rightarrow> (failure + unit) \<times> 'p status_world" where
  "present m f = (case m of None \<Rightarrow> fail 503 (Msg ''system status unavailable'') | Some g \<Rightarrow> f g)"

definition isValidUsagePercent :: "rat \<Rightarrow> bool" where
  "isValidUsagePercent v \<longleftrightarrow> v \<ge> 0 \<and> v \<le> 100"

definition or_zero :: "'a :: zero option \<Rightarrow> 'a" where
  "or_zero x = (case x of None \<Rightarrow> 0 | Some v \<Rightarrow> v)"

definition buildLoadBalancerTraffic :: "traffic_payload option \<Rightarrow> LoadBalancerTrafficSystemStatus option" where
  "buildLoadBalancerTraffic arg =
     (case arg of
        None \<Rightarrow> None
      | Some t \<Rightarrow> Some
          \<lparr>lt_TotalRequests = or_zero (tq_TotalRequests t), lt_SuspiciousRequests = or_zero (tq_SuspiciousRequests t),
           lt_BlockedRequests = or_zero (tq_BlockedRequests t), lt_WAFBlockedRequests = or_zero (tq_WAFBlockedRequests t),
           lt_UABlockedRequests = or_zero (tq_UABlockedRequests t), lt_ActiveBlockedIPs = or_zero (tq_ActiveBlockedIPs t),
           lt_BlockedIPs = map (\<lambda>b. \<lparr>bi_IP = bq_IP b, bi_BlockedUntil = bq_BlockedUntil b\<rparr>)
             (filter (\<lambda>b. bq_IP b \<noteq> []) (tq_BlockedIPs t))\<rparr>)"

definition metadata_of :: "metadata_payload \<Rightarrow> HostMetadataSystemStatus" where
  "metadata_of m =
     \<lparr>hm_IPAddress = iq_IPAddress m, hm_OSName = iq_OSName m, hm_OSVersion = iq_OSVersion m,
      hm_Specs = (case iq_Specs m of
         None \<Rightarrow> \<lparr>sp_CPUCores = 0, sp_MemoryBytes = 0, sp_DiskBytes = 0\<rparr>
       | Some specs \<Rightarrow> \<lparr>sp_CPUCores = or_zero (sq_CPUCores specs), sp_MemoryBytes = or_zero (sq_MemoryBytes specs),
                         sp_DiskBytes = or_zero (sq_DiskBytes specs)\<rparr>)\<rparr>"

definition checked_at :: "int \<Rightarrow> int option \<Rightarrow> int" where
  "checked_at heartbeatAt checkedAt = (case checkedAt of None \<Rightarrow> heartbeatAt | Some t \<Rightarrow> t)"

definition record_docker :: "'p ingestors \<Rightarrow> int \<Rightarrow> docker_payload option \<Rightarrow> 'p status_world \<Rightarrow> (failure + unit) \<times> 'p status_world" where
  "record_docker ig heartbeatAt docker =
     (case docker of
        None \<Rightarrow> ok ()
      | Some body \<Rightarrow>
          (case kq_Reachable body of
             None \<Rightarrow> ok ()
           | Some reachable \<Rightarrow> present (ig_docker ig) (\<lambda>rec.
               records ''failed to record docker connectivity'' (rec reachable (checked_at heartbeatAt (kq_CheckedAt body))))))"

definition record_load_balancer :: "'p ingestors \<Rightarrow> int \<Rightarrow> load_balancer_payload option \<Rightarrow> 'p status_world \<Rightarrow> (failure + unit) \<times> 'p status_world" where
  "record_load_balancer ig heartbeatAt lb =
     (case lb of
        None \<Rightarrow> ok ()
      | Some body \<Rightarrow>
          (case lq_Responding body of
             None \<Rightarrow> ok ()
           | Some responding \<Rightarrow> present (ig_loadBalancer ig) (\<lambda>rec.
               records ''failed to record load balancer health''
                 (rec responding (checked_at heartbeatAt (lq_CheckedAt body)) (buildLoadBalancerTraffic (lq_Traffic body))))))"

definition record_metric :: "(rat \<Rightarrow> int \<Rightarrow> 'p recording) option \<Rightarrow> string \<Rightarrow> int \<Rightarrow> metric_payload option
    \<Rightarrow> 'p status_world \<Rightarrow> (failure + unit) \<times> 'p status_world" where
  "record_metric method msg heartbeatAt metric =
     (case metric of
        None \<Rightarrow> ok ()
      | Some body \<Rightarrow>
          (case mq_UsagePercent body of
             None \<Rightarrow> ok ()
           | Some usage \<Rightarrow> present method (\<lambda>rec.
               bind (require (isValidUsagePercent usage) 400 (Msg ''invalid host metrics'')) (\<lambda>_.
               records msg (rec usage (checked_at heartbeatAt (mq_CheckedAt body)))))))"

definition record_host :: "'p ingestors \<Rightarrow> int \<Rightarrow> host_payload option \<Rightarrow> 'p status_world \<Rightarrow> (failure + unit) \<times> 'p status_world" where
  "record_host ig heartbeatAt host =
     (case host of
        None \<Rightarrow> ok ()
      | Some body \<Rightarrow>
          bind (case hq_Metadata body of
                  None \<Rightarrow> ok ()
                | Some m \<Rightarrow> present (ig_hostMetadata ig) (\<lambda>rec. records ''failed to record host metadata'' (rec (metadata_of m)))) (\<lambda>_.
          bind (record_metric (ig_cpu ig) ''failed to record cpu utilization'' heartbeatAt (hq_CPU body)) (\<lambda>_.
          record_metric (ig_ram ig) ''failed to record ram utilization'' heartbeatAt (hq_RAM body))))"

definition container_stats :: "stats_payload \<Rightarrow> ContainerStats option" where
  "container_stats payload =
     (if (case xq_CPUPercent payload of None \<Rightarrow> False | Some v \<Rightarrow> v < 0) then None
      else if (case xq_MemoryPercent payload of None \<Rightarrow> False | Some v \<Rightarrow> \<not> isValidUsagePercent v) then None
      else Some \<lparr>cs_CPUPercent = or_zero (xq_CPUPercent payload), cs_MemoryUsedBytes = or_zero (xq_MemoryUsedBytes payload),
                  cs_MemoryLimitBytes = or_zero (xq_MemoryLimitBytes payload), cs_MemoryPercent = or_zero (xq_MemoryPercent payload)\<rparr>)"

fun stats_by_deployment :: "stats_payload gomap \<Rightarrow> ContainerStats gomap \<Rightarrow> ContainerStats gomap option" where
  "stats_by_deployment [] acc = Some acc"
| "stats_by_deployment ((deploymentID, payload) # rest) acc =
     (case container_stats payload of
        None \<Rightarrow> None
      | Some stats \<Rightarrow> stats_by_deployment rest (AList.update deploymentID stats acc))"

definition record_stats :: "(stats_payload gomap \<Rightarrow> stats_payload gomap) \<Rightarrow> stats_payload gomap option
    \<Rightarrow> 'p status_world \<Rightarrow> (failure + unit) \<times> 'p status_world" where
  "record_stats order stats s =
     (case stats of
        None \<Rightarrow> ok () s
      | Some payloads \<Rightarrow>
          if sw_containerStats s = None then fail 503 (Msg ''system status unavailable'') s
          else case stats_by_deployment (order payloads) [] of
            None \<Rightarrow> fail 400 (Msg ''invalid container stats'') s
          | Some statsByDeployment \<Rightarrow> (Inr (), s\<lparr>sw_containerStats := ReplaceAll statsByDeployment (sw_containerStats s)\<rparr>))"

definition currentSystemStatusSnapshot :: "'p ingestors \<Rightarrow> int \<Rightarrow> 'p \<Rightarrow> SystemStatusSnapshot" where
  "currentSystemStatusSnapshot ig now p =
     (case ig_snapshot ig p of None \<Rightarrow> unavailableSystemStatusSnapshot now | Some snap \<Rightarrow> snap)"

definition systemStatusBroker_Publish :: "(nat list \<Rightarrow> nat list) \<Rightarrow> SystemStatusSnapshot \<Rightarrow> SystemStatusSnapshot broker
    \<Rightarrow> SystemStatusSnapshot broker" where
  "systemStatusBroker_Publish order snap b = b\<lparr>br_channels := fold (try_send snap) (order (br_subs b)) (br_channels b)\<rparr>"

definition publish_snapshot :: "(nat list \<Rightarrow> nat list) \<Rightarrow> 'p ingestors \<Rightarrow> int \<Rightarrow> 'p status_world \<Rightarrow> (failure + unit) \<times> 'p status_world" where
  "publish_snapshot order ig now s =
     (Inr (), s\<lparr>sw_statusEvents := map_option (systemStatusBroker_Publish order (currentSystemStatusSnapshot ig now (sw_provider s)))
        (sw_statusEvents s)\<rparr>)"

record 'p heartbeat_env =
  he_ingestors :: "'p ingestors"
  he_now :: int
  he_order :: "stats_payload gomap \<Rightarrow> stats_payload gomap"
  he_channels :: "nat list \<Rightarrow> nat list"

definition recordOrchestratorHeartbeat :: "'p heartbeat_env \<Rightarrow> heartbeat_payload option \<Rightarrow> 'p status_world \<Rightarrow> (failure + int) \<times> 'p status_world" where
  "recordOrchestratorHeartbeat env decoded =
     (case ig_heartbeats (he_ingestors env) of
        None \<Rightarrow> fail 503 (Msg ''system status unavailable'')
      | Some rec \<Rightarrow>
          (case decoded of
             None \<Rightarrow> fail 400 (Msg ''invalid request body'')
           | Some body \<Rightarrow>
               (let ig = he_ingestors env;
                    heartbeatAt = (case hb_At body of None \<Rightarrow> 0 | Some t \<Rightarrow> t);
                    storeAccessible = (case hb_Orchestrator body of Some (Some accessible) \<Rightarrow> accessible | _ \<Rightarrow> True) in
                bind (records ''failed to record heartbeat'' (rec heartbeatAt storeAccessible)) (\<lambda>_.
                bind (record_docker ig heartbeatAt (hb_Docker body)) (\<lambda>_.
                bind (record_load_balancer ig heartbeatAt (hb_LoadBalancer body)) (\<lambda>_.
                bind (record_host ig heartbeatAt (hb_Host body)) (\<lambda>_.
                bind (record_stats (he_order env) (hb_ContainerStats body)) (\<lambda>_.
                bind (publish_snapshot (he_channels env) ig (he_now env)) (\<lambda>_. ok 204))))))))) "

definition systemStatus :: "'p ingestors \<Rightarrow> int \<Rightarrow> 'p \<Rightarrow> int \<times> SystemStatusSnapshot" where
  "systemStatus ig now p =
     (case ig_snapshot ig p of None \<Rightarrow> (503, unavailableSystemStatusSnapshot now) | Some snap \<Rightarrow> (200, snap))"

definition systemStatusEvents :: "bool \<Rightarrow> (SystemStatusSnapshot \<Rightarrow> string option) \<Rightarrow> bool \<Rightarrow> SystemStatusSnapshot
    \<Rightarrow> SystemStatusSnapshot occurrence list \<Rightarrow> SystemStatusSnapshot broker \<Rightarrow> (failure + string list) \<times> SystemStatusSnapshot broker" where
  "systemStatusEvents flusher marshal written current os b =
     (if \<not> flusher then (Inl (500, Msg ''streaming not supported''), b)
      else case stream_from marshal written current os b of (out, b') \<Rightarrow> (Inr out, b'))"


section \<open>Signals\<close>

text \<open>What a heartbeat can record, and its record.\<close>

datatype signal =
    HeartbeatSignal int bool
  | DockerSignal bool int
  | LoadBalancerSignal bool int "LoadBalancerTrafficSystemStatus option"
  | MetadataSignal HostMetadataSystemStatus
  | CPUSignal rat int
  | RAMSignal rat int

fun record_signal :: "provider_env \<Rightarrow> signal \<Rightarrow> defaultSystemStatusProvider \<Rightarrow> defaultSystemStatusProvider" where
  "record_signal pe (HeartbeatSignal t accessible) = RecordOrchestratorHeartbeat pe t accessible"
| "record_signal pe (DockerSignal reachable t) = RecordDockerConnectivity pe reachable t"
| "record_signal pe (LoadBalancerSignal responding t traffic) = RecordLoadBalancerHealth pe responding t traffic"
| "record_signal pe (MetadataSignal m) = RecordHostMetadata m"
| "record_signal pe (CPUSignal usage t) = RecordCPUUtilization pe usage t"
| "record_signal pe (RAMSignal usage t) = RecordRAMUtilization pe usage t"

definition docker_signals :: "int \<Rightarrow> docker_payload option \<Rightarrow> signal list" where
  "docker_signals heartbeatAt docker =
     (case docker of None \<Rightarrow> [] | Some body \<Rightarrow>
        (case kq_Reachable body of None \<Rightarrow> [] | Some reachable \<Rightarrow> [DockerSignal reachable (checked_at heartbeatAt (kq_CheckedAt body))]))"

definition load_balancer_signals :: "int \<Rightarrow> load_balancer_payload option \<Rightarrow> signal list" where
  "load_balancer_signals heartbeatAt lb =
     (case lb of None \<Rightarrow> [] | Some body \<Rightarrow>
        (case lq_Responding body of None \<Rightarrow> [] | Some responding \<Rightarrow>
           [LoadBalancerSignal responding (checked_at heartbeatAt (lq_CheckedAt body)) (buildLoadBalancerTraffic (lq_Traffic body))]))"

definition metric_signals :: "(rat \<Rightarrow> int \<Rightarrow> signal) \<Rightarrow> int \<Rightarrow> metric_payload option \<Rightarrow> signal list" where
  "metric_signals mk heartbeatAt metric =
     (case metric of None \<Rightarrow> [] | Some body \<Rightarrow>
        (case mq_UsagePercent body of None \<Rightarrow> [] | Some usage \<Rightarrow> [mk usage (checked_at heartbeatAt (mq_CheckedAt body))]))"

definition host_signals :: "int \<Rightarrow> host_payload option \<Rightarrow> signal list" where
  "host_signals heartbeatAt host =
     (case host of None \<Rightarrow> [] | Some body \<Rightarrow>
        (case hq_Metadata body of None \<Rightarrow> [] | Some m \<Rightarrow> [MetadataSignal (metadata_of m)]) @
        metric_signals CPUSignal heartbeatAt (hq_CPU body) @ metric_signals RAMSignal heartbeatAt (hq_RAM body))"

definition signals_of :: "heartbeat_payload \<Rightarrow> signal list" where
  "signals_of body =
     (let heartbeatAt = (case hb_At body of None \<Rightarrow> 0 | Some t \<Rightarrow> t) in
      HeartbeatSignal heartbeatAt (case hb_Orchestrator body of Some (Some accessible) \<Rightarrow> accessible | _ \<Rightarrow> True) #
      docker_signals heartbeatAt (hb_Docker body) @ load_balancer_signals heartbeatAt (hb_LoadBalancer body) @
      host_signals heartbeatAt (hb_Host body))"

text \<open>A run of \<open>m\<close> records a part of \<open>sigs\<close> from its start, all of them unless it fails, and changes
  nothing else.\<close>

definition logs :: "provider_env \<Rightarrow> signal list \<Rightarrow> (defaultSystemStatusProvider status_world
    \<Rightarrow> (failure + unit) \<times> defaultSystemStatusProvider status_world) \<Rightarrow> bool" where
  "logs pe sigs m \<longleftrightarrow> (\<forall>s r s'. m s = (r, s') \<longrightarrow>
     (\<exists>n. s' = s\<lparr>sw_provider := fold (record_signal pe) (take n sigs) (sw_provider s)\<rparr> \<and>
       (\<forall>u. r = Inr u \<longrightarrow> take n sigs = sigs)))"

lemma logs_ok: "logs pe [] (ok ())"
  by (simp add: logs_def ok_def)

lemma logs_fail: "logs pe sigs (fail c e)"
  by (auto simp: logs_def fail_def intro!: exI[of _ 0])

lemma logs_records: "(\<And>p. f p = (Inr (), record_signal pe sg p)) \<Longrightarrow> logs pe [sg] (records msg f)"
  by (auto simp: logs_def records_def intro!: exI[of _ 1])

lemma logs_bind:
  assumes "logs pe as m" "logs pe bs (f ())"
  shows "logs pe (as @ bs) (bind m f)"
  unfolding logs_def
proof (intro allI impI)
  fix s r s' assume run: "bind m f s = (r, s')"
  obtain r1 s1 where m: "m s = (r1, s1)" by fastforce
  then obtain i where i: "s1 = s\<lparr>sw_provider := fold (record_signal pe) (take i as) (sw_provider s)\<rparr>"
    "\<And>u. r1 = Inr u \<Longrightarrow> take i as = as"
    using assms(1)[unfolded logs_def, rule_format, OF m] by auto
  show "\<exists>n. s' = s\<lparr>sw_provider := fold (record_signal pe) (take n (as @ bs)) (sw_provider s)\<rparr> \<and>
      (\<forall>u. r = Inr u \<longrightarrow> take n (as @ bs) = as @ bs)"
  proof (cases r1)
    case (Inl e)
    then show ?thesis
      using run m i(1) by (auto simp: bind_def intro!: exI[of _ "min i (length as)"]) (simp add: min_def)
  next
    case (Inr u)
    then have f: "f () s1 = (r, s')" using run m by (simp add: bind_def)
    then obtain j where j: "s' = s1\<lparr>sw_provider := fold (record_signal pe) (take j bs) (sw_provider s1)\<rparr>"
      "\<And>u. r = Inr u \<Longrightarrow> take j bs = bs"
      using assms(2)[unfolded logs_def, rule_format, OF f] by auto
    then show ?thesis
      using i Inr by (auto intro!: exI[of _ "length as + j"])
  qed
qed

lemma logs_require: "logs pe sigs m \<Longrightarrow> logs pe sigs (bind (require b c e) (\<lambda>_. m))"
  using logs_bind[of pe "[]" "require b c e" sigs "\<lambda>_. m"] logs_ok logs_fail by (auto simp: require_def)


lemmas logs_rules = logs_ok logs_fail logs_require logs_records

lemma logs_docker: "logs pe (docker_signals t docker) (record_docker (default_ingestors pe) t docker)"
  by (auto simp: docker_signals_def record_docker_def default_ingestors_def present_def intro: logs_rules split: option.split)

lemma logs_load_balancer: "logs pe (load_balancer_signals t lb) (record_load_balancer (default_ingestors pe) t lb)"
  by (auto simp: load_balancer_signals_def record_load_balancer_def default_ingestors_def present_def
      intro: logs_rules split: option.split)

lemma logs_metric:
  "(\<And>usage t p. f usage t p = (Inr (), record_signal pe (mk usage t) p)) \<Longrightarrow>
     logs pe (metric_signals mk t metric) (record_metric (Some f) msg t metric)"
  by (auto simp: metric_signals_def record_metric_def present_def intro!: logs_ok logs_require logs_records split: option.split)

lemma logs_host: "logs pe (host_signals t host) (record_host (default_ingestors pe) t host)"
proof -
  have "logs pe (case hq_Metadata body of None \<Rightarrow> [] | Some m \<Rightarrow> [MetadataSignal (metadata_of m)])
      (case hq_Metadata body of None \<Rightarrow> ok ()
       | Some m \<Rightarrow> present (ig_hostMetadata (default_ingestors pe)) (\<lambda>rec. records ''failed to record host metadata'' (rec (metadata_of m))))"
    for body :: host_payload
    by (auto simp: default_ingestors_def present_def intro: logs_rules split: option.split)
  moreover have "logs pe (metric_signals CPUSignal t metric) (record_metric (ig_cpu (default_ingestors pe)) msg t metric)"
    "logs pe (metric_signals RAMSignal t metric) (record_metric (ig_ram (default_ingestors pe)) msg t metric)" for metric msg
    by (simp_all add: default_ingestors_def logs_metric)
  ultimately show ?thesis
    by (cases host) (simp_all add: host_signals_def record_host_def logs_ok logs_bind)
qed

lemma bind_assoc: "bind (bind m f) g = bind m (\<lambda>x. bind (f x) g)"
  by (auto simp: bind_def fun_eq_iff split: prod.split sum.split)

lemma default_heartbeats:
  "ig_heartbeats (default_ingestors pe) = Some (\<lambda>t accessible p. (Inr (), RecordOrchestratorHeartbeat pe t accessible p))"
  by (simp add: default_ingestors_def)

lemma bind_records: "bind (records msg (\<lambda>p. (Inr (), g p))) f s = f () (s\<lparr>sw_provider := g (sw_provider s)\<rparr>)"
  by (simp add: bind_def records_def)

text \<open>What the handler does after it has recorded the signals.\<close>

definition finish_heartbeat :: "'p heartbeat_env \<Rightarrow> heartbeat_payload \<Rightarrow> 'p status_world \<Rightarrow> (failure + int) \<times> 'p status_world" where
  "finish_heartbeat env body =
     bind (record_stats (he_order env) (hb_ContainerStats body)) (\<lambda>_.
     bind (publish_snapshot (he_channels env) (he_ingestors env) (he_now env)) (\<lambda>_. ok 204))"

lemma heartbeat_phases:
  assumes "he_ingestors env = default_ingestors pe"
  obtains m where "logs pe (tl (signals_of body)) m"
    "\<And>s. recordOrchestratorHeartbeat env (Some body) s =
       bind m (\<lambda>_. finish_heartbeat env body) (s\<lparr>sw_provider := record_signal pe (hd (signals_of body)) (sw_provider s)\<rparr>)"
proof -
  define t where "t = (case hb_At body of None \<Rightarrow> 0 | Some t \<Rightarrow> t)"
  define ig where "ig = default_ingestors pe"
  define m where "m = bind (record_docker ig t (hb_Docker body)) (\<lambda>_.
     bind (record_load_balancer ig t (hb_LoadBalancer body)) (\<lambda>_. record_host ig t (hb_Host body)))"
  show ?thesis
  proof (rule that[of m])
    show "logs pe (tl (signals_of body)) m"
      unfolding m_def ig_def signals_of_def Let_def t_def[symmetric] list.sel
      by (intro logs_bind logs_docker logs_load_balancer logs_host)
    show "recordOrchestratorHeartbeat env (Some body) s =
       bind m (\<lambda>_. finish_heartbeat env body) (s\<lparr>sw_provider := record_signal pe (hd (signals_of body)) (sw_provider s)\<rparr>)" for s
      using assms
      by (simp add: recordOrchestratorHeartbeat_def default_heartbeats bind_records m_def ig_def t_def bind_assoc
          finish_heartbeat_def signals_of_def Let_def)
  qed
qed

lemma finish_heartbeat_cases:
  assumes "finish_heartbeat env body s = (r, s')" "he_ingestors env = default_ingestors pe"
  shows "sw_provider s' = sw_provider s"
    "r = Inl e \<Longrightarrow> s' = s"
    "r = Inr code \<Longrightarrow> code = 204 \<and>
       sw_containerStats s' = (case hb_ContainerStats body of None \<Rightarrow> sw_containerStats s
         | Some payloads \<Rightarrow> stats_by_deployment (he_order env payloads) []) \<and>
       sw_statusEvents s' = map_option (systemStatusBroker_Publish (he_channels env) (Provider_Snapshot pe (sw_provider s))) (sw_statusEvents s)"
  using assms
  by (auto simp: finish_heartbeat_def bind_def record_stats_def publish_snapshot_def ok_def fail_def ReplaceAll_def
      currentSystemStatusSnapshot_def default_ingestors_def split: prod.splits sum.splits option.splits if_splits)

text \<open>C14. A heartbeat that is accepted records every signal it carries, in a fixed order, replaces the
  container statistics if it carries some, and announces the snapshot that results. One that is
  answered with an error has recorded its first signals, the orchestrator's sign of life among them,
  and has left the statistics and the announcements alone.\<close>

theorem heartbeat_outcome:
  assumes "he_ingestors env = default_ingestors pe" "recordOrchestratorHeartbeat env (Some body) s = (r, s')"
  shows "case r of
      Inr code \<Rightarrow> code = 204 \<and> sw_provider s' = fold (record_signal pe) (signals_of body) (sw_provider s) \<and>
        sw_containerStats s' = (case hb_ContainerStats body of None \<Rightarrow> sw_containerStats s
          | Some payloads \<Rightarrow> stats_by_deployment (he_order env payloads) []) \<and>
        sw_statusEvents s' = map_option (systemStatusBroker_Publish (he_channels env) (Provider_Snapshot pe (sw_provider s'))) (sw_statusEvents s)
    | Inl e \<Rightarrow> (\<exists>n \<ge> 1. sw_provider s' = fold (record_signal pe) (take n (signals_of body)) (sw_provider s)) \<and>
        sw_containerStats s' = sw_containerStats s \<and> sw_statusEvents s' = sw_statusEvents s"
proof -
  have sigs: "signals_of body = hd (signals_of body) # tl (signals_of body)"
    by (simp add: signals_of_def Let_def)
  define s1 where "s1 = s\<lparr>sw_provider := record_signal pe (hd (signals_of body)) (sw_provider s)\<rparr>"
  obtain m where m: "logs pe (tl (signals_of body)) m"
    "recordOrchestratorHeartbeat env (Some body) s = bind m (\<lambda>_. finish_heartbeat env body) s1"
    using heartbeat_phases[OF assms(1)] s1_def by metis
  obtain r1 s2 where run: "m s1 = (r1, s2)" by fastforce
  obtain n where n: "s2 = s1\<lparr>sw_provider := fold (record_signal pe) (take n (tl (signals_of body))) (sw_provider s1)\<rparr>"
    "\<And>u. r1 = Inr u \<Longrightarrow> take n (tl (signals_of body)) = tl (signals_of body)"
    using m(1)[unfolded logs_def, rule_format, OF run] by auto
  have taken: "fold (record_signal pe) (take (Suc n) (signals_of body)) (sw_provider s) = sw_provider s2"
    by (subst sigs) (simp add: n(1) s1_def)
  have same: "sw_containerStats s2 = sw_containerStats s" "sw_statusEvents s2 = sw_statusEvents s"
    by (simp_all add: n(1) s1_def)
  show ?thesis
  proof (cases r1)
    case (Inl e)
    then have "r = Inl e" "s' = s2" using assms(2) m(2) run by (auto simp: bind_def)
    then show ?thesis using taken same by (auto intro!: exI[of _ "Suc n"])
  next
    case (Inr u)
    then have fin: "finish_heartbeat env body s2 = (r, s')" using assms(2) m(2) run by (simp add: bind_def)
    have all: "fold (record_signal pe) (signals_of body) (sw_provider s) = sw_provider s2"
      using taken n(2)[OF Inr] by (subst sigs, subst (asm) sigs) simp
    note fin_cases = finish_heartbeat_cases[OF fin assms(1)]
    show ?thesis
    proof (cases r)
      case (Inl e)
      then show ?thesis using fin_cases(2)[OF Inl] taken same by (auto intro!: exI[of _ "Suc n"])
    next
      case (Inr code)
      then show ?thesis using fin_cases(1) fin_cases(3)[OF Inr] all same by (simp split: option.split)
    qed
  qed
qed


section \<open>What a snapshot says\<close>

text \<open>The latest signal of each kind in a history, as its time and whether it was good news.\<close>

type_synonym history = "(provider_env \<times> signal) list"

definition provider_after :: "history \<Rightarrow> defaultSystemStatusProvider" where
  "provider_after h = fold (\<lambda>(pe, sg). record_signal pe sg) h newDefaultSystemStatusProvider"

definition latest :: "(provider_env \<times> signal \<Rightarrow> 'a option) \<Rightarrow> history \<Rightarrow> 'a option" where
  "latest f h = (case List.map_filter f (rev h) of [] \<Rightarrow> None | x # _ \<Rightarrow> Some x)"

definition heartbeat_news :: "provider_env \<times> signal \<Rightarrow> (int \<times> bool) option" where
  "heartbeat_news = (\<lambda>(pe, sg). case sg of HeartbeatSignal t accessible \<Rightarrow> Some (or_now pe t, accessible) | _ \<Rightarrow> None)"

definition docker_news :: "provider_env \<times> signal \<Rightarrow> (int \<times> bool) option" where
  "docker_news = (\<lambda>(pe, sg). case sg of DockerSignal reachable t \<Rightarrow> Some (or_now pe t, reachable) | _ \<Rightarrow> None)"

definition load_balancer_news :: "provider_env \<times> signal \<Rightarrow> (int \<times> bool) option" where
  "load_balancer_news = (\<lambda>(pe, sg). case sg of LoadBalancerSignal responding t _ \<Rightarrow> Some (or_now pe t, responding) | _ \<Rightarrow> None)"

definition cpu_news :: "provider_env \<times> signal \<Rightarrow> (int \<times> rat) option" where
  "cpu_news = (\<lambda>(pe, sg). case sg of CPUSignal usage t \<Rightarrow> Some (or_now pe t, usage) | _ \<Rightarrow> None)"

definition ram_news :: "provider_env \<times> signal \<Rightarrow> (int \<times> rat) option" where
  "ram_news = (\<lambda>(pe, sg). case sg of RAMSignal usage t \<Rightarrow> Some (or_now pe t, usage) | _ \<Rightarrow> None)"

lemma latest_Nil [simp]: "latest f [] = None"
  by (simp add: latest_def List.map_filter_def)

lemma latest_snoc [simp]: "latest f (h @ [x]) = (case f x of None \<Rightarrow> latest f h | Some y \<Rightarrow> Some y)"
  by (simp add: latest_def List.map_filter_def split: option.split)

lemma provider_after_snoc [simp]: "provider_after (h @ [(pe, sg)]) = record_signal pe sg (provider_after h)"
  by (simp add: provider_after_def)

definition news_of :: "int \<Rightarrow> 'a \<Rightarrow> bool \<Rightarrow> (int \<times> 'a) option" where
  "news_of t x has = (if has then Some (t, x) else None)"

text \<open>The provider's fields are the latest signals.\<close>

lemmas record_defs = RecordOrchestratorHeartbeat_def RecordDockerConnectivity_def RecordLoadBalancerHealth_def
  RecordHostMetadata_def RecordCPUUtilization_def RecordRAMUtilization_def

lemmas news_defs = heartbeat_news_def docker_news_def load_balancer_news_def cpu_news_def ram_news_def

lemma provider_after_Nil [simp]: "provider_after [] = newDefaultSystemStatusProvider"
  by (simp add: provider_after_def)

lemma news_induct:
  assumes "f newDefaultSystemStatusProvider = None"
    "\<And>pe sg p. f (record_signal pe sg p) = (case g (pe, sg) of None \<Rightarrow> f p | Some y \<Rightarrow> Some y)"
  shows "f (provider_after h) = latest g h"
proof (induction h rule: rev_induct)
  case (snoc x h)
  then show ?case by (cases x) (simp add: assms(2) split: option.split)
qed (simp add: assms(1))

definition heartbeat_signal :: "defaultSystemStatusProvider \<Rightarrow> (int \<times> bool) option" where
  "heartbeat_signal p = news_of (os_lastHeartbeatUTC (pv_orchestratorSignal p)) (os_storeAccessible (pv_orchestratorSignal p))
     (os_hasSignal (pv_orchestratorSignal p))"

definition docker_signal :: "defaultSystemStatusProvider \<Rightarrow> (int \<times> bool) option" where
  "docker_signal p = news_of (ds_lastCheckedUTC (pv_dockerSignal p)) (ds_reachable (pv_dockerSignal p)) (ds_hasSignal (pv_dockerSignal p))"

definition load_balancer_signal :: "defaultSystemStatusProvider \<Rightarrow> (int \<times> bool) option" where
  "load_balancer_signal p = news_of (ls_lastCheckedUTC (pv_loadBalancerSignal p)) (ls_responding (pv_loadBalancerSignal p))
     (ls_hasSignal (pv_loadBalancerSignal p))"

definition metric_signal :: "hostMetricSignal \<Rightarrow> (int \<times> rat) option" where
  "metric_signal m = news_of (ms_lastCheckedUTC m) (ms_usagePercent m) (ms_hasSignal m)"

lemmas signal_defs = heartbeat_signal_def docker_signal_def load_balancer_signal_def metric_signal_def

lemma provider_after_signals:
  "heartbeat_signal (provider_after h) = latest heartbeat_news h"
  "docker_signal (provider_after h) = latest docker_news h"
  "load_balancer_signal (provider_after h) = latest load_balancer_news h"
  "metric_signal (pv_cpuSignal (provider_after h)) = latest cpu_news h"
  "metric_signal (pv_ramSignal (provider_after h)) = latest ram_news h"
  by (rule news_induct news_induct[of "\<lambda>p. metric_signal (pv_cpuSignal p)"] news_induct[of "\<lambda>p. metric_signal (pv_ramSignal p)"];
      simp add: signal_defs news_of_def newDefaultSystemStatusProvider_def no_metric_def news_defs record_defs split: signal.split)+

text \<open>A signal is judged by its age and its content.\<close>

definition judge :: "int \<Rightarrow> int \<Rightarrow> (int \<times> bool) option \<Rightarrow> SystemStatusState" where
  "judge staleAfter now news =
     (case news of
        None \<Rightarrow> SystemStatusStateUnavailable
      | Some (t, good) \<Rightarrow> if now - t \<le> staleAfter \<and> good then SystemStatusStateHealthy else SystemStatusStateDegraded)"

lemma Sub_stale:
  assumes "0 \<le> d" "d < 2 ^ 63 - 1"
  shows "Sub t u > d \<longleftrightarrow> t - u > d" "(if Sub t u < 0 then 0 else Sub t u) > d \<longleftrightarrow> t - u > d"
  using assms by (auto simp: Sub_def max_def min_def)


lemma status_judged:
  assumes "0 \<le> pe_staleAfter pe" "pe_staleAfter pe < 2 ^ 63 - 1"
  shows "sd_State (dockerStatus pe reading p) = judge (pe_staleAfter pe) (pe_now pe reading) (docker_signal p)"
    "sd_DaemonHealthy (dockerStatus pe reading p) \<longleftrightarrow>
       judge (pe_staleAfter pe) (pe_now pe reading) (docker_signal p) = SystemStatusStateHealthy"
    "sl_State (loadBalancerStatus pe p) = judge (pe_staleAfter pe) (pe_now pe AtLoadBalancer) (load_balancer_signal p)"
    "sm_State (cpuStatus pe p) = judge (pe_staleAfter pe) (pe_now pe AtCPU) (map_option (\<lambda>(t, _). (t, True)) (metric_signal (pv_cpuSignal p)))"
    "sm_State (ramStatus pe p) = judge (pe_staleAfter pe) (pe_now pe AtRAM) (map_option (\<lambda>(t, _). (t, True)) (metric_signal (pv_ramSignal p)))"
  using Sub_stale[OF assms]
  by (simp_all add: dockerStatus_def loadBalancerStatus_def cpuStatus_def ramStatus_def judge_def signal_defs news_of_def Let_def not_less)

lemma orchestrator_judged:
  assumes "0 \<le> pe_staleAfter pe" "pe_staleAfter pe < 2 ^ 63 - 1"
  shows "so_State (orchestratorStatus pe p) = judge (pe_staleAfter pe) (pe_now pe AtOrchestrator)
    (map_option (\<lambda>(t, accessible). (t, accessible \<and>
       judge (pe_staleAfter pe) (pe_now pe AtOrchestratorDocker) (docker_signal p) = SystemStatusStateHealthy)) (heartbeat_signal p))"
  using Sub_stale[OF assms]
  by (simp add: orchestratorStatus_def status_judged(2)[OF assms] heartbeat_signal_def news_of_def Let_def not_less)
    (simp add: judge_def not_less)

text \<open>C10. The states of a snapshot are those the latest signals call for, whatever was recorded before: a
  part that never sent a signal is unavailable; one whose latest signal is at most \<open>staleAfter\<close> old
  and positive is healthy; the others are degraded. The orchestrator is healthy only if Docker is,
  too. The metrics shown are the latest ones.\<close>

theorem snapshot_judges_latest_signals:
  assumes "0 \<le> pe_staleAfter pe" "pe_staleAfter pe < 2 ^ 63 - 1"
  shows "sd_State (sn_Docker (Provider_Snapshot pe (provider_after h))) =
      judge (pe_staleAfter pe) (pe_now pe AtDocker) (latest docker_news h) \<and>
    sl_State (sn_LoadBalancer (Provider_Snapshot pe (provider_after h))) =
      judge (pe_staleAfter pe) (pe_now pe AtLoadBalancer) (latest load_balancer_news h) \<and>
    so_State (sn_Orchestrator (Provider_Snapshot pe (provider_after h))) =
      judge (pe_staleAfter pe) (pe_now pe AtOrchestrator)
        (map_option (\<lambda>(t, accessible). (t, accessible \<and>
          judge (pe_staleAfter pe) (pe_now pe AtOrchestratorDocker) (latest docker_news h) = SystemStatusStateHealthy))
        (latest heartbeat_news h)) \<and>
    sm_State (sh_CPU (sn_Host (Provider_Snapshot pe (provider_after h)))) =
      judge (pe_staleAfter pe) (pe_now pe AtCPU) (map_option (\<lambda>(t, _). (t, True)) (latest cpu_news h)) \<and>
    sm_State (sh_RAM (sn_Host (Provider_Snapshot pe (provider_after h)))) =
      judge (pe_staleAfter pe) (pe_now pe AtRAM) (map_option (\<lambda>(t, _). (t, True)) (latest ram_news h)) \<and>
    sm_UsagePercent (sh_CPU (sn_Host (Provider_Snapshot pe (provider_after h)))) = (case latest cpu_news h of None \<Rightarrow> 0 | Some (_, usage) \<Rightarrow> usage) \<and>
    sm_UsagePercent (sh_RAM (sn_Host (Provider_Snapshot pe (provider_after h)))) = (case latest ram_news h of None \<Rightarrow> 0 | Some (_, usage) \<Rightarrow> usage)"
proof -
  have usage: "sm_UsagePercent (cpuStatus pe p) = (case metric_signal (pv_cpuSignal p) of None \<Rightarrow> 0 | Some (_, usage) \<Rightarrow> usage)"
    "sm_UsagePercent (ramStatus pe p) = (case metric_signal (pv_ramSignal p) of None \<Rightarrow> 0 | Some (_, usage) \<Rightarrow> usage)" for p
    by (simp_all add: cpuStatus_def ramStatus_def metric_signal_def news_of_def Let_def)
  show ?thesis
    by (simp add: Provider_Snapshot_def Let_def status_judged[OF assms] orchestrator_judged[OF assms] usage provider_after_signals)
qed

section \<open>Well-formed snapshots\<close>

definition metric_ok :: "HostMetricSystemStatus \<Rightarrow> bool" where
  "metric_ok m \<longleftrightarrow> isValidUsagePercent (sm_UsagePercent m) \<and> (sm_State m = SystemStatusStateUnavailable \<longleftrightarrow> sm_LastUpdated m = None)"

definition snapshot_ok :: "SystemStatusSnapshot \<Rightarrow> bool" where
  "snapshot_ok sn \<longleftrightarrow> metric_ok (sh_CPU (sn_Host sn)) \<and> metric_ok (sh_RAM (sn_Host sn)) \<and>
     (sd_State (sn_Docker sn) = SystemStatusStateUnavailable \<longleftrightarrow> sd_LastUpdated (sn_Docker sn) = None) \<and>
     (sd_State (sn_Docker sn) = SystemStatusStateHealthy \<longleftrightarrow> sd_DaemonHealthy (sn_Docker sn)) \<and>
     (so_State (sn_Orchestrator sn) = SystemStatusStateUnavailable \<longleftrightarrow> so_LastUpdated (sn_Orchestrator sn) = None) \<and>
     (so_State (sn_Orchestrator sn) = SystemStatusStateHealthy \<longrightarrow>
        so_Checks (sn_Orchestrator sn) = \<lparr>oc_ProcessRunning = True, oc_DockerReachable = True, oc_StoreAccessible = True\<rparr>) \<and>
     (sl_State (sn_LoadBalancer sn) = SystemStatusStateUnavailable \<longleftrightarrow> sl_LastUpdated (sn_LoadBalancer sn) = None) \<and>
     (sl_State (sn_LoadBalancer sn) = SystemStatusStateHealthy \<longrightarrow>
        sl_Checks (sn_LoadBalancer sn) = \<lparr>lc_ProcessRunning = True, lc_HealthcheckResponding = True\<rparr>) \<and>
     (\<forall>traffic b. sl_Traffic (sn_LoadBalancer sn) = Some traffic \<longrightarrow> b \<in> set (lt_BlockedIPs traffic) \<longrightarrow> bi_IP b \<noteq> [])"

definition stats_ok :: "ContainerStats \<Rightarrow> bool" where
  "stats_ok c \<longleftrightarrow> 0 \<le> cs_CPUPercent c \<and> isValidUsagePercent (cs_MemoryPercent c)"

definition signal_ok :: "signal \<Rightarrow> bool" where
  "signal_ok sg = (case sg of
      CPUSignal usage _ \<Rightarrow> isValidUsagePercent usage
    | RAMSignal usage _ \<Rightarrow> isValidUsagePercent usage
    | LoadBalancerSignal _ _ (Some traffic) \<Rightarrow> (\<forall>b \<in> set (lt_BlockedIPs traffic). bi_IP b \<noteq> [])
    | _ \<Rightarrow> True)"

definition provider_ok :: "defaultSystemStatusProvider \<Rightarrow> bool" where
  "provider_ok p \<longleftrightarrow> isValidUsagePercent (ms_usagePercent (pv_cpuSignal p)) \<and> isValidUsagePercent (ms_usagePercent (pv_ramSignal p)) \<and>
     (\<forall>traffic. ls_traffic (pv_loadBalancerSignal p) = Some traffic \<longrightarrow> (\<forall>b \<in> set (lt_BlockedIPs traffic). bi_IP b \<noteq> []))"

lemma Provider_Snapshot_ok: "provider_ok p \<Longrightarrow> snapshot_ok (Provider_Snapshot pe p)"
  by (auto simp: snapshot_ok_def provider_ok_def metric_ok_def Provider_Snapshot_def Let_def dockerStatus_def orchestratorStatus_def
      loadBalancerStatus_def cpuStatus_def ramStatus_def isValidUsagePercent_def)

lemma record_signal_ok: "provider_ok p \<Longrightarrow> signal_ok sg \<Longrightarrow> provider_ok (record_signal pe sg p)"
  by (cases sg) (auto simp: provider_ok_def signal_ok_def record_defs split: option.splits)

lemma provider_ok_new: "provider_ok newDefaultSystemStatusProvider"
  by (simp add: provider_ok_def newDefaultSystemStatusProvider_def no_metric_def isValidUsagePercent_def)


definition channels_ok :: "SystemStatusSnapshot broker \<Rightarrow> bool" where
  "channels_ok b \<longleftrightarrow> broker_ok b \<and> (\<forall>q \<in> set (br_channels b). \<forall>sn \<in> set q. snapshot_ok sn)"

definition world_ok :: "defaultSystemStatusProvider status_world \<Rightarrow> bool" where
  "world_ok s \<longleftrightarrow> provider_ok (sw_provider s) \<and>
     (\<forall>k c. Stats_Get k (sw_containerStats s) = Some c \<longrightarrow> stats_ok c) \<and>
     (\<forall>b. sw_statusEvents s = Some b \<longrightarrow> channels_ok b)"

definition keeps :: "('s \<Rightarrow> bool) \<Rightarrow> ('s \<Rightarrow> (failure + 'a) \<times> 's) \<Rightarrow> bool" where
  "keeps I m \<longleftrightarrow> (\<forall>s. I s \<longrightarrow> I (snd (m s)))"

lemma keeps_pure: "keeps I (ok x)" "keeps I (fail c e)"
  by (simp_all add: keeps_def ok_def fail_def)

lemma keeps_bind: "keeps I m \<Longrightarrow> (\<And>x. keeps I (f x)) \<Longrightarrow> keeps I (bind m f)"
  by (auto simp: keeps_def bind_def split: prod.split sum.split)

lemma keeps_require: "(b \<Longrightarrow> keeps I m) \<Longrightarrow> keeps I (bind (require b c e) (\<lambda>_. m))"
  by (cases b) (simp_all add: keeps_def bind_def require_def ok_def fail_def)

lemma keeps_record: "signal_ok sg \<Longrightarrow> keeps world_ok (records msg (\<lambda>p. (Inr (), record_signal pe sg p)))"
  by (simp add: keeps_def records_def world_ok_def record_signal_ok)

lemma traffic_signal_ok: "signal_ok (LoadBalancerSignal responding t (buildLoadBalancerTraffic traffic))"
  by (auto simp: signal_ok_def buildLoadBalancerTraffic_def split: option.split)

lemmas keeps_signals =
  keeps_record[of "HeartbeatSignal t accessible" for t accessible, simplified]
  keeps_record[of "DockerSignal reachable t" for t reachable, simplified]
  keeps_record[of "LoadBalancerSignal responding t traffic" for t responding traffic, simplified]
  keeps_record[of "MetadataSignal m" for m, simplified]
  keeps_record[of "CPUSignal usage t" for t usage, simplified]
  keeps_record[of "RAMSignal usage t" for t usage, simplified]

lemma keeps_metric:
  assumes "\<And>usage t msg. isValidUsagePercent usage \<Longrightarrow> keeps world_ok (records msg (f usage t))"
  shows "keeps world_ok (record_metric (Some f) msg t metric)"
  using assms by (auto simp: record_metric_def present_def intro!: keeps_pure keeps_require split: option.split)

lemma stats_by_deployment_ok:
  "stats_by_deployment ps acc = Some m \<Longrightarrow> (\<And>k c. map_of acc k = Some c \<Longrightarrow> stats_ok c) \<Longrightarrow> map_of m k = Some c \<Longrightarrow> stats_ok c"
proof (induction ps arbitrary: acc)
  case (Cons x ps)
  obtain i payload where x: "x = (i, payload)" by (cases x)
  then obtain st where st: "container_stats payload = Some st" "stats_by_deployment ps (AList.update i st acc) = Some m"
    using Cons.prems(1) by (auto split: option.splits)
  have "stats_ok st"
    using st(1) by (auto simp: container_stats_def stats_ok_def isValidUsagePercent_def or_zero_def split: if_splits option.splits)
  then show ?case
    by - (rule Cons.IH[OF st(2) _ Cons.prems(3)], use Cons.prems(2) in \<open>auto simp: update_conv' split: if_splits\<close>)
qed simp

lemma keeps_stats: "keeps world_ok (record_stats order stats)"
  unfolding keeps_def
proof (intro allI impI)
  fix s assume "world_ok s"
  then show "world_ok (snd (record_stats order stats s))"
    by (auto simp: record_stats_def world_ok_def ok_def fail_def ReplaceAll_def Stats_Get_def
        dest: stats_by_deployment_ok split: option.split)
qed

lemma publish_ok:
  assumes "channels_ok b" "range_order order" "snapshot_ok sn"
  shows "channels_ok (systemStatusBroker_Publish order sn b)"
proof -
  have eq: "systemStatusBroker_Publish order sn b = Broker_Publish order sn b"
    by (simp add: systemStatusBroker_Publish_def Broker_Publish_def)
  have b: "broker_ok b" using assms(1) by (simp add: channels_ok_def)
  have "\<forall>sn \<in> set q. snapshot_ok sn" if "q \<in> set (br_channels (Broker_Publish order sn b))" for q
  proof -
    from that obtain c where c: "c < length (br_channels b)" "q = br_channels (Broker_Publish order sn b) ! c"
      by (auto simp: in_set_conv_nth Broker_Publish_def)
    then show ?thesis
      using assms(1,3) nth_mem[OF c(1)] by (auto simp: channels_ok_def Publish_channel[OF b assms(2)] split: if_splits)
  qed
  then show ?thesis using broker_ok_publish[OF b assms(2)] by (simp add: channels_ok_def eq)
qed

lemma keeps_publish:
  assumes "range_order order"
  shows "keeps world_ok (publish_snapshot order (default_ingestors pe) now)"
  unfolding keeps_def
proof (intro allI impI)
  fix s assume s: "world_ok s"
  have "snapshot_ok (currentSystemStatusSnapshot (default_ingestors pe) now (sw_provider s))"
    using s by (simp add: currentSystemStatusSnapshot_def default_ingestors_def Provider_Snapshot_ok world_ok_def)
  then show "world_ok (snd (publish_snapshot order (default_ingestors pe) now s))"
    using s assms by (auto simp: publish_snapshot_def world_ok_def publish_ok)
qed

lemma keeps_heartbeat:
  assumes "he_ingestors env = default_ingestors pe" "range_order (he_channels env)"
  shows "keeps world_ok (recordOrchestratorHeartbeat env decoded)"
proof -
  have docker: "keeps world_ok (record_docker (default_ingestors pe) t docker)" for t docker
    by (auto simp: record_docker_def default_ingestors_def present_def signal_ok_def intro: keeps_pure keeps_signals split: option.split)
  have lb: "keeps world_ok (record_load_balancer (default_ingestors pe) t lb)" for t lb
    by (auto simp: record_load_balancer_def default_ingestors_def present_def traffic_signal_ok
        intro: keeps_pure keeps_signals split: option.split)
  have metric: "keeps world_ok (record_metric (ig_cpu (default_ingestors pe)) msg t metric)"
    "keeps world_ok (record_metric (ig_ram (default_ingestors pe)) msg t metric)" for msg t metric
    by (simp_all add: default_ingestors_def signal_ok_def keeps_metric keeps_signals)
  have meta: "keeps world_ok (present (ig_hostMetadata (default_ingestors pe)) (\<lambda>rec. records msg (rec m)))" for msg m
    by (simp add: default_ingestors_def present_def signal_ok_def keeps_signals)
  have host: "keeps world_ok (record_host (default_ingestors pe) t host)" for t host
    using meta by (auto simp: record_host_def intro!: keeps_pure keeps_bind metric split: option.split)
  show ?thesis
    using assms(2)
    by (auto simp: recordOrchestratorHeartbeat_def assms(1) default_heartbeats Let_def signal_ok_def
        intro!: keeps_bind keeps_pure keeps_signals docker lb host keeps_stats keeps_publish split: option.split)
qed


text \<open>The states of the status component along heartbeats and the actions of the clients of its stream.\<close>

inductive status_reach :: "defaultSystemStatusProvider status_world \<Rightarrow> bool" where
  start: "status_reach \<lparr>sw_provider = newDefaultSystemStatusProvider, sw_containerStats = Some [], sw_statusEvents = Some NewBroker\<rparr>"
| heartbeat: "status_reach s \<Longrightarrow> he_ingestors env = default_ingestors pe \<Longrightarrow> range_order (he_channels env) \<Longrightarrow>
    recordOrchestratorHeartbeat env decoded s = (r, s') \<Longrightarrow> status_reach s'"
| subscribes: "status_reach s \<Longrightarrow> sw_statusEvents s = Some b \<Longrightarrow> status_reach (s\<lparr>sw_statusEvents := Some (snd (Broker_Subscribe b))\<rparr>)"
| cancels: "status_reach s \<Longrightarrow> sw_statusEvents s = Some b \<Longrightarrow> status_reach (s\<lparr>sw_statusEvents := Some (Broker_cancel c b)\<rparr>)"
| receives: "status_reach s \<Longrightarrow> sw_statusEvents s = Some b \<Longrightarrow> receive c b = Some (sn, b') \<Longrightarrow>
    status_reach (s\<lparr>sw_statusEvents := Some b'\<rparr>)"

lemma channels_ok_clients:
  "channels_ok b \<Longrightarrow> channels_ok (snd (Broker_Subscribe b))" "channels_ok b \<Longrightarrow> channels_ok (Broker_cancel c b)"
  by (auto simp: channels_ok_def broker_ok_subscribe broker_ok_cancel)
    (auto simp: Broker_Subscribe_def Broker_cancel_def Let_def)

lemma channels_ok_receive:
  assumes "channels_ok b" "receive c b = Some (sn, b')"
  shows "channels_ok b'"
proof -
  obtain es where es: "br_channels b ! c = sn # es" "b' = b\<lparr>br_channels := (br_channels b)[c := es]\<rparr>"
    using assms(2) by (auto simp: receive_Some)
  have "\<forall>x \<in> set q. snapshot_ok x" if "q \<in> set ((br_channels b)[c := es])" for q
  proof (cases "c < length (br_channels b)")
    case True
    then show ?thesis
      using that set_update_subset_insert[of "br_channels b" c es] assms(1) nth_mem[OF True] es(1)
      by (auto simp: channels_ok_def)
  qed (use that assms(1) in \<open>simp add: channels_ok_def list_update_beyond\<close>)
  then show ?thesis using assms broker_ok_receive[of b c sn b'] by (simp add: channels_ok_def es(2))
qed

lemma status_reach_ok: "status_reach s \<Longrightarrow> world_ok s"
proof (induction rule: status_reach.induct)
  case start
  show ?case by (simp add: world_ok_def provider_ok_new Stats_Get_def channels_ok_def broker_ok_new) (simp add: NewBroker_def)
next
  case (heartbeat s env pe decoded r s')
  then show ?case using keeps_heartbeat[of env pe decoded] by (auto simp: keeps_def dest!: spec[of _ s])
next
  case (subscribes s b)
  then show ?case by (simp add: world_ok_def channels_ok_clients)
next
  case (cancels s b c)
  then show ?case by (simp add: world_ok_def channels_ok_clients)
next
  case (receives s b c sn b')
  then show ?case using channels_ok_receive[of b c sn b'] by (simp add: world_ok_def)
qed

text \<open>C23. Along every sequence of heartbeats, however malformed, the snapshot shown at any time and all
  snapshots waiting for subscribers are well formed: percentages lie between 0 and 100, a part is
  unavailable exactly if it has no time of update, a healthy part has passed its checks, blocked
  addresses are not empty; and the statistics of every container are in their ranges.\<close>

theorem snapshots_well_formed:
  assumes "status_reach s"
  shows "snapshot_ok (Provider_Snapshot pe (sw_provider s)) \<and> (\<forall>k c. Stats_Get k (sw_containerStats s) = Some c \<longrightarrow> stats_ok c) \<and>
    (\<forall>b q sn. sw_statusEvents s = Some b \<longrightarrow> q \<in> set (br_channels b) \<longrightarrow> sn \<in> set q \<longrightarrow> snapshot_ok sn)"
  using status_reach_ok[OF assms] by (auto simp: world_ok_def channels_ok_def Provider_Snapshot_ok)

section \<open>Witnesses\<close>

definition pe0 :: provider_env where
  "pe0 = \<lparr>pe_now = (\<lambda>_. 1000), pe_staleAfter = 30, pe_apiStoreCheck = None\<rparr>"

definition he0 :: "defaultSystemStatusProvider heartbeat_env" where
  "he0 = \<lparr>he_ingestors = default_ingestors pe0, he_now = 1000, he_order = id, he_channels = id\<rparr>"

definition status0 :: "defaultSystemStatusProvider status_world" where
  "status0 = \<lparr>sw_provider = newDefaultSystemStatusProvider, sw_containerStats = Some [], sw_statusEvents = Some NewBroker\<rparr>"

text \<open>A heartbeat whose CPU usage is out of range: it is rejected, and the orchestrator counts as alive.\<close>

definition body0 :: heartbeat_payload where
  "body0 = \<lparr>hb_At = Some 990, hb_Orchestrator = None, hb_Docker = Some \<lparr>kq_Reachable = Some True, kq_CheckedAt = None\<rparr>, hb_LoadBalancer = None,
     hb_Host = Some \<lparr>hq_CPU = Some \<lparr>mq_UsagePercent = Some 120, mq_CheckedAt = None\<rparr>, hq_RAM = None, hq_Metadata = None\<rparr>,
     hb_ContainerStats = None\<rparr>"

lemma body0_rejected: "fst (recordOrchestratorHeartbeat he0 (Some body0) status0) = Inl (400, Msg ''invalid host metrics'')"
  by (simp add: recordOrchestratorHeartbeat_def he0_def body0_def bind_def records_def record_docker_def record_load_balancer_def
      record_host_def record_metric_def default_ingestors_def present_def require_def ok_def fail_def isValidUsagePercent_def)

lemma he0_ingestors: "he_ingestors he0 = default_ingestors pe0"
  by (simp add: he0_def)

theorem heartbeat_outcome_witness:
  "\<exists>s' n. recordOrchestratorHeartbeat he0 (Some body0) status0 = (Inl (400, Msg ''invalid host metrics''), s') \<and> 1 \<le> n \<and>
     sw_provider s' = fold (record_signal pe0) (take n (signals_of body0)) newDefaultSystemStatusProvider"
proof -
  obtain s' where run: "recordOrchestratorHeartbeat he0 (Some body0) status0 = (Inl (400, Msg ''invalid host metrics''), s')"
    using body0_rejected by (metis prod.collapse)
  show ?thesis using heartbeat_outcome[OF he0_ingestors run] run by (auto simp: status0_def)
qed

definition history0 :: history where
  "history0 = [(pe0, HeartbeatSignal 990 True), (pe0, DockerSignal True 0)]"

lemma history0_latest:
  "latest heartbeat_news history0 = Some (990, True)" "latest docker_news history0 = Some (1000, True)"
  "latest load_balancer_news history0 = None"
  by (simp_all add: history0_def latest_def List.map_filter_simps news_defs or_now_def pe0_def)

lemma pe0_values: "pe_now pe0 reading = 1000" "pe_staleAfter pe0 = 30"
  by (simp_all add: pe0_def)

theorem snapshot_judges_latest_signals_witness:
  "so_State (sn_Orchestrator (Provider_Snapshot pe0 (provider_after history0))) = SystemStatusStateHealthy \<and>
   sl_State (sn_LoadBalancer (Provider_Snapshot pe0 (provider_after history0))) = SystemStatusStateUnavailable"
proof -
  have pe: "0 \<le> pe_staleAfter pe0" "pe_staleAfter pe0 < 2 ^ 63 - 1" by (simp_all add: pe0_values)
  show ?thesis
    using snapshot_judges_latest_signals[OF pe, of history0] by (simp add: judge_def history0_latest pe0_values)
qed

theorem snapshots_well_formed_witness:
  "snapshot_ok (Provider_Snapshot pe0 (sw_provider (snd (recordOrchestratorHeartbeat he0 (Some body0) status0))))"
proof -
  have "status_reach status0" unfolding status0_def by (rule status_reach.start)
  then have "status_reach (snd (recordOrchestratorHeartbeat he0 (Some body0) status0))"
    by (rule status_reach.heartbeat[OF _ he0_ingestors _ surjective_pairing]) (simp add: he0_def)
  from snapshots_well_formed[OF this, of pe0] show ?thesis by simp
qed

end
