(* ===== verification/Version.thy ===== *)
theory Version
  imports Api "HOL-Library.Product_Lexorder"
begin

text \<open>
  Release versions (\<open>version/service.go\<close>) and their handlers (\<open>handler_version.go\<close>,
  \<open>handler_version_releases.go\<close>).

  An answer of the release server, or its absence, is an argument, as are the readings of the clock
  and the parser of time stamps. Times are nanoseconds since Go's zero time. The service keeps one
  cached release.
\<close>

section \<open>The service\<close>

record version_snapshot =
  vs_CurrentVersion :: string
  vs_LatestVersion :: string
  vs_ReleaseNotes :: string
  vs_PublishedAt :: int
  vs_UpgradeAvailable :: bool
  vs_CachedAt :: int

record Release =
  rl_TagName :: string
  rl_Body :: string
  rl_PublishedAt :: int

record cachedRelease =
  cr_latestVersion :: string
  cr_releaseNotes :: string
  cr_publishedAt :: int
  cr_cachedAt :: int

record Service =
  sv_currentVersion :: string
  sv_ttl :: int
  sv_cached :: cachedRelease
  sv_hasHit :: bool

record latestReleaseResponse =
  lr_TagName :: string
  lr_Body :: string
  lr_PublishedAt :: string

record releaseResponse =
  rr_TagName :: string
  rr_Body :: string
  rr_PublishedAt :: string
  rr_Draft :: bool
  rr_Prerelease :: bool

datatype version_error =
    NewRequestFailed | CallFailed | UnexpectedStatus int | DecodeFailed | MissingTag | BadPublishedAt

text \<open>What a request meets: the request cannot be made, the call fails, or a status and a body that may
  not decode.\<close>

datatype 'a http_answer = NoRequest | NoResponse | Response int "'a option"

record version_env =
  ve_latest :: "latestReleaseResponse http_answer"
  ve_releases :: "int \<Rightarrow> releaseResponse list http_answer"
  ve_parseTime :: "string \<Rightarrow> int option"
  ve_now :: int
  ve_fetched :: int

definition defaultCacheTTL :: int where "defaultCacheTTL = 5 * 60 * 1000000000"

definition New_Service :: "string \<Rightarrow> Service" where
  "New_Service currentVersion =
     \<lparr>sv_currentVersion = (if currentVersion = [] then ''dev'' else currentVersion), sv_ttl = defaultCacheTTL,
      sv_cached = \<lparr>cr_latestVersion = [], cr_releaseNotes = [], cr_publishedAt = 0, cr_cachedAt = 0\<rparr>, sv_hasHit = False\<rparr>"

definition parseSemver :: "string \<Rightarrow> (int \<times> int \<times> int) option" where
  "parseSemver raw0 =
     (let raw = TrimSpace (TrimPrefix raw0 ''v'') in
      if raw = [] then None
      else
        let parts = Split raw (CHR ''.'') in
        if length parts < 3 then None
        else case Atoi (parts ! 0) of
          None \<Rightarrow> None
        | Some a \<Rightarrow>
            if a < 0 then None
            else case Atoi (parts ! 1) of
              None \<Rightarrow> None
            | Some b \<Rightarrow>
                if b < 0 then None
                else case Atoi (parts ! 2) of
                  None \<Rightarrow> None
                | Some c \<Rightarrow> if c < 0 then None else Some (a, b, c))"

definition upgradeAvailable :: "string \<Rightarrow> string \<Rightarrow> bool" where
  "upgradeAvailable currentVersion latestVersion =
     (if currentVersion = [] \<or> latestVersion = [] then False
      else if currentVersion = ''dev'' then False
      else case parseSemver currentVersion of
        None \<Rightarrow> False
      | Some (c0, c1, c2) \<Rightarrow>
          (case parseSemver latestVersion of
             None \<Rightarrow> False
           | Some (l0, l1, l2) \<Rightarrow>
               if c0 \<noteq> l0 then c0 < l0
               else if c1 \<noteq> l1 then c1 < l1
               else c2 < l2))"

definition snapshotFromCache :: "Service \<Rightarrow> cachedRelease \<Rightarrow> version_snapshot" where
  "snapshotFromCache s cached =
     \<lparr>vs_CurrentVersion = sv_currentVersion s, vs_LatestVersion = cr_latestVersion cached,
      vs_ReleaseNotes = cr_releaseNotes cached, vs_PublishedAt = cr_publishedAt cached,
      vs_UpgradeAvailable = upgradeAvailable (sv_currentVersion s) (cr_latestVersion cached), vs_CachedAt = cr_cachedAt cached\<rparr>"

definition fetchLatestRelease :: "version_env \<Rightarrow> version_error + Release" where
  "fetchLatestRelease env =
     (case ve_latest env of
        NoRequest \<Rightarrow> Inl NewRequestFailed
      | NoResponse \<Rightarrow> Inl CallFailed
      | Response status decoded \<Rightarrow>
          if status \<noteq> 200 then Inl (UnexpectedStatus status)
          else case decoded of
            None \<Rightarrow> Inl DecodeFailed
          | Some payload \<Rightarrow>
              (let tagName = TrimSpace (lr_TagName payload); body = TrimSpace (lr_Body payload) in
               if tagName = [] then Inl MissingTag
               else if lr_PublishedAt payload \<noteq> []
               then (case ve_parseTime env (lr_PublishedAt payload) of
                       None \<Rightarrow> Inl BadPublishedAt
                     | Some t \<Rightarrow> Inr \<lparr>rl_TagName = tagName, rl_Body = body, rl_PublishedAt = t\<rparr>)
               else Inr \<lparr>rl_TagName = tagName, rl_Body = body, rl_PublishedAt = 0\<rparr>))"

text \<open>A snapshot and, when none can be had, the error beside the version that runs.\<close>

definition version_snapshot_of :: "version_env \<Rightarrow> bool \<Rightarrow> Service \<Rightarrow> (version_snapshot \<times> version_error option) \<times> Service" where
  "version_snapshot_of env forceRefresh s =
     (if \<not> forceRefresh \<and> sv_hasHit s \<and> ve_now env - cr_cachedAt (sv_cached s) < sv_ttl s
      then ((snapshotFromCache s (sv_cached s), None), s)
      else case fetchLatestRelease env of
        Inl err \<Rightarrow>
          if sv_hasHit s then ((snapshotFromCache s (sv_cached s), None), s)
          else ((\<lparr>vs_CurrentVersion = sv_currentVersion s, vs_LatestVersion = [], vs_ReleaseNotes = [], vs_PublishedAt = 0,
                  vs_UpgradeAvailable = False, vs_CachedAt = 0\<rparr>, Some err), s)
      | Inr release \<Rightarrow>
          (let cached = \<lparr>cr_latestVersion = rl_TagName release, cr_releaseNotes = rl_Body release,
                         cr_publishedAt = rl_PublishedAt release, cr_cachedAt = ve_fetched env\<rparr> in
           ((snapshotFromCache s cached, None), s\<lparr>sv_cached := cached, sv_hasHit := True\<rparr>)))"

fun collect_releases :: "(string \<Rightarrow> int option) \<Rightarrow> releaseResponse list \<Rightarrow> Release list" where
  "collect_releases parseTime [] = []"
| "collect_releases parseTime (item # rest) =
     (if rr_Draft item \<or> rr_Prerelease item then collect_releases parseTime rest
      else
        let tag = TrimSpace (rr_TagName item) in
        if tag = [] then collect_releases parseTime rest
        else if rr_PublishedAt item \<noteq> []
        then (case parseTime (rr_PublishedAt item) of
                None \<Rightarrow> collect_releases parseTime rest
              | Some t \<Rightarrow> \<lparr>rl_TagName = tag, rl_Body = TrimSpace (rr_Body item), rl_PublishedAt = t\<rparr> # collect_releases parseTime rest)
        else \<lparr>rl_TagName = tag, rl_Body = TrimSpace (rr_Body item), rl_PublishedAt = 0\<rparr> # collect_releases parseTime rest)"

definition Releases :: "version_env \<Rightarrow> int \<Rightarrow> version_error + Release list" where
  "Releases env limit0 =
     (let limit = (if limit0 \<le> 0 then 25 else limit0) in
      case ve_releases env limit of
        NoRequest \<Rightarrow> Inl NewRequestFailed
      | NoResponse \<Rightarrow> Inl CallFailed
      | Response status decoded \<Rightarrow>
          if status \<noteq> 200 then Inl (UnexpectedStatus status)
          else case decoded of None \<Rightarrow> Inl DecodeFailed | Some payload \<Rightarrow> Inr (collect_releases (ve_parseTime env) payload))"

section \<open>The handlers\<close>

record versionResponse =
  vr_CurrentVersion :: string
  vr_LatestVersion :: string
  vr_ReleaseNotes :: string
  vr_PublishedAt :: "int option"
  vr_UpgradeAvailable :: bool
  vr_CachedAt :: "int option"

definition unless_zero :: "int \<Rightarrow> int option" where
  "unless_zero t = (if t = 0 then None else Some t)"

text \<open>The handler asks twice when a refresh is wanted: \<open>again\<close> is the environment of the second request.\<close>

definition getVersion :: "version_env \<Rightarrow> version_env \<Rightarrow> string \<Rightarrow> Service \<Rightarrow> versionResponse \<times> Service" where
  "getVersion env again refresh s =
     (case version_snapshot_of env False s of
        (first, s1) \<Rightarrow>
          (case (if refresh = ''1'' then version_snapshot_of again True s1 else (first, s1)) of
             ((snap, err), s2) \<Rightarrow>
               (\<lparr>vr_CurrentVersion = vs_CurrentVersion snap, vr_LatestVersion = vs_LatestVersion snap,
                 vr_ReleaseNotes = vs_ReleaseNotes snap, vr_PublishedAt = unless_zero (vs_PublishedAt snap),
                 vr_UpgradeAvailable = vs_UpgradeAvailable snap, vr_CachedAt = unless_zero (vs_CachedAt snap)\<rparr>, s2)))"

definition getVersionReleases :: "version_env \<Rightarrow> string \<Rightarrow> failure + (string \<times> string \<times> int option) list" where
  "getVersionReleases env raw =
     (case (if raw = [] then Inr 25
            else case Atoi raw of
              None \<Rightarrow> Inl (400, Msg ''invalid limit'')
            | Some parsed \<Rightarrow> if parsed \<le> 0 \<or> parsed > 100 then Inl (400, Msg ''invalid limit'') else Inr parsed) of
        Inl err \<Rightarrow> Inl err
      | Inr limit \<Rightarrow>
          (case Releases env limit of
             Inl _ \<Rightarrow> Inr []
           | Inr releases \<Rightarrow> Inr (map (\<lambda>r. (rl_TagName r, rl_Body r, unless_zero (rl_PublishedAt r))) releases)))"

section \<open>Comparison of versions\<close>

definition version_text :: "int \<times> int \<times> int \<Rightarrow> string" where
  "version_text = (\<lambda>(a, b, c). ''v'' @ Itoa a @ ''.'' @ Itoa b @ ''.'' @ Itoa c)"

definition in_range :: "int \<times> int \<times> int \<Rightarrow> bool" where
  "in_range = (\<lambda>(a, b, c). \<forall>n \<in> {a, b, c}. 0 \<le> n \<and> n < 9223372036854775808)"

lemma upgradeAvailable_iff:
  "upgradeAvailable current latest \<longleftrightarrow>
     (\<exists>c l. parseSemver current = Some c \<and> parseSemver latest = Some l \<and> c < l)"
proof -
  have "parseSemver [] = None" "parseSemver ''dev'' = None" by code_simp+
  then show ?thesis
    by (auto simp: upgradeAvailable_def less_prod_def' split: option.splits prod.splits)
qed


lemma parseSemver_text:
  assumes "in_range v"
  shows "parseSemver (version_text v) = Some v"
proof -
  obtain a b c where v: "v = (a, b, c)" by (cases v)
  then have r: "0 \<le> a" "0 \<le> b" "0 \<le> c" "a < 9223372036854775808" "b < 9223372036854775808" "c < 9223372036854775808"
    using assms by (simp_all add: in_range_def)
  have digits: "\<forall>x \<in> set (Itoa n). is_digit x" if "0 \<le> n" for n using Itoa_digits[OF that] by (simp add: list_all_iff)
  have sep: "CHR ''.'' \<notin> set (Itoa n)" if "0 \<le> n" for n using digits[OF that] by (auto simp: is_digit_def byte_def)
  let ?raw = "Itoa a @ CHR ''.'' # Itoa b @ CHR ''.'' # Itoa c"
  have "graphic (CHR ''.'')" by (simp add: graphic_def byte_def)
  then have trim: "TrimSpace ?raw = ?raw"
    using r(1-3) by (intro TrimSpace_all_graphic) (simp add: Itoa_graphic)
  have split: "Split ?raw (CHR ''.'') = [Itoa a, Itoa b, Itoa c]"
    using sep r(1-3) by (simp add: Split_present Split_absent)
  have "TrimPrefix (version_text v) ''v'' = ?raw"
    by (simp add: v version_text_def TrimPrefix_def HasPrefix_def)
  then show ?thesis
    using r by (simp add: parseSemver_def trim split Atoi_Itoa v Let_def)
qed

text \<open>For versions written as the releases are, the parser recovers the three numbers and an upgrade is
  offered exactly if the latest release follows the running one in the lexicographic order; text that
  is no version is never offered an upgrade.\<close>

theorem upgrade_offered_iff_newer:
  assumes "in_range c" "in_range l" "parseSemver other = None"
  shows "parseSemver (version_text c) = Some c \<and>
    (upgradeAvailable (version_text c) (version_text l) \<longleftrightarrow> c < l) \<and>
    \<not> upgradeAvailable other (version_text l) \<and> \<not> upgradeAvailable (version_text c) other"
  using assms by (simp add: upgradeAvailable_iff parseSemver_text)

theorem upgrade_offered_iff_newer_witness:
  "upgradeAvailable (version_text (1, 9, 3)) (version_text (1, 10, 0)) \<and> \<not> upgradeAvailable ''dev'' (version_text (1, 10, 0))"
proof -
  have "in_range (1, 9, 3)" "in_range (1, 10, 0)" by (simp_all add: in_range_def)
  moreover have "parseSemver ''dev'' = None" by code_simp
  ultimately show ?thesis using upgrade_offered_iff_newer[of "(1, 9, 3)" "(1, 10, 0)" "''dev''"] by simp
qed

section \<open>The cache\<close>

text \<open>A snapshot comes without an error exactly if a release is cached afterwards, and then shows that
  release. It was fetched by this very request, or the fetch failed, or it is younger than the
  cache's lifetime and no refresh was asked for. A failing request leaves the cache as it was, and a
  refresh that succeeds always replaces it.\<close>

theorem version_snapshot_is_current:
  assumes "version_snapshot_of env force s = ((snap, err), s')"
  shows "(err = None \<longleftrightarrow> sv_hasHit s') \<and> vs_CurrentVersion snap = sv_currentVersion s \<and>
    (err = None \<longrightarrow> snap = snapshotFromCache s' (sv_cached s')) \<and>
    (err = None \<longrightarrow>
       (\<exists>release. fetchLatestRelease env = Inr release \<and> cr_latestVersion (sv_cached s') = rl_TagName release \<and> cr_cachedAt (sv_cached s') = ve_fetched env) \<or>
       (\<exists>e. fetchLatestRelease env = Inl e \<and> s' = s) \<or>
       (\<not> force \<and> s' = s \<and> ve_now env - cr_cachedAt (sv_cached s) < sv_ttl s)) \<and>
    (err \<noteq> None \<longrightarrow> s' = s \<and> \<not> vs_UpgradeAvailable snap) \<and>
    (force \<longrightarrow> (\<forall>release. fetchLatestRelease env = Inr release \<longrightarrow> cr_latestVersion (sv_cached s') = rl_TagName release))"
  using assms
  by (auto simp: version_snapshot_of_def snapshotFromCache_def Let_def split: if_splits sum.splits)

definition version_env0 :: version_env where
  "version_env0 = \<lparr>ve_latest = Response 200 (Some \<lparr>lr_TagName = '' v1.2.0 '', lr_Body = [], lr_PublishedAt = []\<rparr>),
     ve_releases = (\<lambda>_. NoResponse), ve_parseTime = (\<lambda>_. None), ve_now = 5, ve_fetched = 7\<rparr>"

theorem version_snapshot_is_current_witness:
  "\<exists>snap s'. version_snapshot_of version_env0 True (New_Service ''v1.1.9'') = ((snap, None), s') \<and>
     cr_latestVersion (sv_cached s') = ''v1.2.0''"
proof -
  have f: "fetchLatestRelease version_env0 = Inr \<lparr>rl_TagName = ''v1.2.0'', rl_Body = [], rl_PublishedAt = 0\<rparr>"
    by code_simp
  then obtain snap s' where run: "version_snapshot_of version_env0 True (New_Service ''v1.1.9'') = ((snap, None), s')"
    by (simp add: version_snapshot_of_def Let_def)
  show ?thesis using version_snapshot_is_current[OF run] run f by auto
qed

section \<open>The list of releases\<close>

lemma collect_releases_filter:
  "collect_releases parseTime items =
     map (\<lambda>i. \<lparr>rl_TagName = TrimSpace (rr_TagName i), rl_Body = TrimSpace (rr_Body i),
            rl_PublishedAt = (if rr_PublishedAt i = [] then 0 else the (parseTime (rr_PublishedAt i)))\<rparr>)
       (filter (\<lambda>i. \<not> rr_Draft i \<and> \<not> rr_Prerelease i \<and> TrimSpace (rr_TagName i) \<noteq> [] \<and>
            (rr_PublishedAt i = [] \<or> parseTime (rr_PublishedAt i) \<noteq> None)) items)"
  by (induction items) (auto simp: Let_def split: option.splits)

lemma getVersionReleases_limits: "getVersionReleases env raw = Inl e \<Longrightarrow> e = (400, Msg ''invalid limit'')"
  by (auto simp: getVersionReleases_def split: if_splits option.splits sum.splits)

end
