(* ===== verification/Upgrade.thy ===== *)
theory Upgrade
  imports Version Broker
begin

text \<open>
  Upgrades: the runner of the upgrade process with the distribution of its output
  (\<open>upgrade/runner.go\<close>) and the handlers that start an upgrade and stream its output
  (\<open>handler_upgrade.go\<close>).

  The runner's state is the progress of the upgrade, the channels made so far, each with the lines
  waiting in it and whether it is closed, and the identifiers of the subscribed ones; the identifier
  of a channel is its position, as the runner numbers them. Channels do not depend on each other, so
  the order in which Go visits the map of subscribers cannot be observed. Which call of the operating
  system fails is a parameter; the calls on files are recorded.
\<close>

section \<open>The runner\<close>

datatype upgrade_state = StateIdle | StateRunning | StateDone | StateFailed

datatype upgrade_error =
    ErrAlreadyRunning | ErrNotRunning | BuildError | OpenNullError | PipeError | OpenLogError | StartProcessError

record channel =
  cn_waiting :: "string list"
  cn_closed :: bool

record Runner =
  ru_state :: upgrade_state
  ru_channels :: "channel list"
  ru_subscribers :: "nat list"

definition NewRunner :: Runner where
  "NewRunner = \<lparr>ru_state = StateIdle, ru_channels = [], ru_subscribers = []\<rparr>"

definition close_channel :: "nat \<Rightarrow> channel list \<Rightarrow> channel list" where
  "close_channel ch cs = cs[ch := (cs ! ch)\<lparr>cn_closed := True\<rparr>]"

definition finish :: "upgrade_state \<Rightarrow> Runner \<Rightarrow> Runner" where
  "finish st r = \<lparr>ru_state = st, ru_channels = fold close_channel (ru_subscribers r) (ru_channels r), ru_subscribers = []\<rparr>"

definition line_buffer :: nat where "line_buffer = 32"

definition offer :: "string \<Rightarrow> nat \<Rightarrow> Runner \<Rightarrow> Runner" where
  "offer line ch r =
     (if length (cn_waiting (ru_channels r ! ch)) < line_buffer
      then r\<lparr>ru_channels := (ru_channels r)[ch := (ru_channels r ! ch)\<lparr>cn_waiting := cn_waiting (ru_channels r ! ch) @ [line]\<rparr>]\<rparr>
      else r\<lparr>ru_channels := close_channel ch (ru_channels r), ru_subscribers := removeAll ch (ru_subscribers r)\<rparr>)"

definition broadcast :: "string \<Rightarrow> Runner \<Rightarrow> Runner" where
  "broadcast line r = fold (offer line) (ru_subscribers r) r"

definition Runner_Subscribe :: "Runner \<Rightarrow> (upgrade_error + nat) \<times> Runner" where
  "Runner_Subscribe r =
     (if ru_state r \<noteq> StateRunning then (Inl ErrNotRunning, r)
      else let ch = length (ru_channels r) in
        (Inr ch, r\<lparr>ru_channels := ru_channels r @ [\<lparr>cn_waiting = [], cn_closed = False\<rparr>], ru_subscribers := ru_subscribers r @ [ch]\<rparr>))"

definition unsubscribe :: "nat \<Rightarrow> Runner \<Rightarrow> Runner" where
  "unsubscribe ch r =
     (if ch \<notin> set (ru_subscribers r) then r
      else r\<lparr>ru_channels := close_channel ch (ru_channels r), ru_subscribers := removeAll ch (ru_subscribers r)\<rparr>)"

definition IsRunning :: "Runner \<Rightarrow> bool" where
  "IsRunning r \<longleftrightarrow> ru_state r = StateRunning"

datatype os_file = Stdin | PipeReader | PipeWriter | LogFile

datatype os_action = Opened os_file | Closed os_file | Cleaned

record launch_env =
  le_build :: bool
  le_null :: bool
  le_pipe :: bool
  le_log :: bool
  le_process :: bool

text \<open>The first locked section of \<open>Start\<close> and what follows it.\<close>

definition Start_enter :: "Runner \<Rightarrow> (upgrade_error + unit) \<times> Runner" where
  "Start_enter r = (if ru_state r = StateRunning then (Inl ErrAlreadyRunning, r) else (Inr (), r\<lparr>ru_state := StateRunning\<rparr>))"

definition Start_launch :: "launch_env \<Rightarrow> Runner \<Rightarrow> (upgrade_error + unit) \<times> os_action list \<times> Runner" where
  "Start_launch le r =
     (if \<not> le_build le then (Inl BuildError, [], finish StateFailed r)
      else if \<not> le_null le then (Inl OpenNullError, [Cleaned], finish StateFailed r)
      else if \<not> le_pipe le then (Inl PipeError, [Opened Stdin, Closed Stdin, Cleaned], finish StateFailed r)
      else if \<not> le_log le
      then (Inl OpenLogError,
            [Opened Stdin, Opened PipeReader, Opened PipeWriter, Closed Stdin, Closed PipeReader, Closed PipeWriter, Cleaned],
            finish StateFailed r)
      else if \<not> le_process le
      then (Inl StartProcessError,
            [Opened Stdin, Opened PipeReader, Opened PipeWriter, Opened LogFile, Closed Stdin, Closed PipeWriter,
             Closed PipeReader, Closed LogFile, Cleaned],
            finish StateFailed r)
      else (Inr (), [Opened Stdin, Opened PipeReader, Opened PipeWriter, Opened LogFile, Closed Stdin, Closed PipeWriter], r))"

definition Start :: "launch_env \<Rightarrow> Runner \<Rightarrow> (upgrade_error + unit) \<times> os_action list \<times> Runner" where
  "Start le r =
     (case Start_enter r of
        (Inl err, r') \<Rightarrow> (Inl err, [], r')
      | (Inr _, r') \<Rightarrow> Start_launch le r')"

text \<open>The goroutine that reads the process's output: its effect without others in between, the log file
  it writes, and the deferred calls.\<close>

definition exit_state :: "bool \<Rightarrow> bool \<Rightarrow> upgrade_state" where
  "exit_state scan_failed success = (if scan_failed \<or> \<not> success then StateFailed else StateDone)"

definition collect :: "string list \<Rightarrow> bool \<Rightarrow> bool \<Rightarrow> Runner \<Rightarrow> string \<times> os_action list \<times> Runner" where
  "collect lines scan_failed success r =
     (concat (map (\<lambda>line. line @ [CHR 0x0A]) lines), [Cleaned, Closed LogFile, Closed PipeReader],
      finish (exit_state scan_failed success) (fold broadcast lines r))"

record processConfig =
  pc_path :: string
  pc_args :: "string list"
  pc_env :: "string list"

definition defaultProcessBuilder :: "string option \<Rightarrow> string \<Rightarrow> string \<Rightarrow> string list \<Rightarrow> string \<Rightarrow> processConfig" where
  "defaultProcessBuilder systemdRun startedAt unixNano environ target =
     (let targetVersion = (if target = [] then ''latest'' else target) in
      case systemdRun of
        Some systemdRunPath \<Rightarrow>
          \<lparr>pc_path = systemdRunPath,
           pc_args = [''systemd-run'', ''--unit'', ''lotsen-upgrade-'' @ unixNano, ''--collect'', ''--no-block'',
             ''--setenv=LOTSEN_UPGRADE_STARTED_AT='' @ startedAt, ''/bin/sh'', ''-c'',
             ''exec /usr/local/bin/lotsen upgrade --to '' @ [CHR 0x22] @ ''$1'' @ [CHR 0x22] @
               '' --non-interactive --yes >> /tmp/lotsen-upgrade.log 2>&1'',
             ''sh'', targetVersion],
           pc_env = environ\<rparr>
      | None \<Rightarrow>
          \<lparr>pc_path = ''/usr/local/bin/lotsen'',
           pc_args = [''lotsen'', ''upgrade'', ''--to'', targetVersion, ''--non-interactive'', ''--yes''],
           pc_env = environ @ [''LOTSEN_UPGRADE_STARTED_AT='' @ startedAt]\<rparr>)"

section \<open>The handlers\<close>

text \<open>The body is absent, does not decode, or names a version.\<close>

datatype upgrade_body = NoBody | BadBody | Target string

record upgrade_world =
  uw_versions :: Service
  uw_runner :: Runner

definition upgrade_target :: "string \<Rightarrow> string \<Rightarrow> string" where
  "upgrade_target requested latestVersion =
     (let targetVersion = (if requested = [] then ''latest'' else requested) in
      if targetVersion = ''latest'' \<and> latestVersion \<noteq> [] then latestVersion else targetVersion)"

text \<open>The result is the answer with the version the process was asked for.\<close>

definition startUpgrade :: "version_env \<Rightarrow> (string \<Rightarrow> launch_env) \<Rightarrow> upgrade_body \<Rightarrow> upgrade_world \<Rightarrow> (failure + int \<times> string) \<times> upgrade_world" where
  "startUpgrade ve launch body w =
     (case body of
        BadBody \<Rightarrow> (Inl (400, Msg ''invalid upgrade payload''), w)
      | _ \<Rightarrow>
          (let requested = (case body of Target v \<Rightarrow> TrimSpace v | _ \<Rightarrow> []) in
           case version_snapshot_of ve False (uw_versions w) of
             ((snap, _), versions) \<Rightarrow>
               (let targetVersion = upgrade_target requested (vs_LatestVersion snap) in
                case Start (launch targetVersion) (uw_runner w) of
                  (r, _, runner) \<Rightarrow>
                    (case r of
                       Inl err \<Rightarrow>
                         (Inl (if err = ErrAlreadyRunning then (409, Msg ''upgrade already in progress'')
                               else (500, Msg ''failed to start upgrade'')), \<lparr>uw_versions = versions, uw_runner = runner\<rparr>)
                     | Inr _ \<Rightarrow> (Inr (202, targetVersion), \<lparr>uw_versions = versions, uw_runner = runner\<rparr>)))))"

datatype log_occurrence =
    Outputs string
  | Exits upgrade_state
  | ReaderJoins
  | ReaderLeaves nat
  | Turn bool
  | ClientLeaves

fun log_loop :: "(string \<Rightarrow> string option) \<Rightarrow> nat \<Rightarrow> log_occurrence list \<Rightarrow> Runner \<Rightarrow> string list \<times> Runner" where
  "log_loop marshal ch [] r = ([], r)"
| "log_loop marshal ch (Outputs line # os) r = log_loop marshal ch os (broadcast line r)"
| "log_loop marshal ch (Exits st # os) r = log_loop marshal ch os (finish st r)"
| "log_loop marshal ch (ReaderJoins # os) r = log_loop marshal ch os (snd (Runner_Subscribe r))"
| "log_loop marshal ch (ReaderLeaves c # os) r = log_loop marshal ch os (if c = ch then r else unsubscribe c r)"
| "log_loop marshal ch (ClientLeaves # os) r = ([], unsubscribe ch r)"
| "log_loop marshal ch (Turn written # os) r =
     (case cn_waiting (ru_channels r ! ch) of
        [] \<Rightarrow> if cn_closed (ru_channels r ! ch) then ([], unsubscribe ch r) else log_loop marshal ch os r
      | line # rest \<Rightarrow>
          (let r' = r\<lparr>ru_channels := (ru_channels r)[ch := (ru_channels r ! ch)\<lparr>cn_waiting := rest\<rparr>]\<rparr> in
           case marshal line of
             None \<Rightarrow> log_loop marshal ch os r'
           | Some data \<Rightarrow>
               if \<not> written then ([], unsubscribe ch r')
               else case log_loop marshal ch os r' of (out, r'') \<Rightarrow> (frame data # out, r'')))"

definition upgradeLogs :: "bool \<Rightarrow> (string \<Rightarrow> string option) \<Rightarrow> log_occurrence list \<Rightarrow> Runner \<Rightarrow> (failure + string list) \<times> Runner" where
  "upgradeLogs flusher marshal os r =
     (if \<not> flusher then (Inl (500, Msg ''streaming not supported''), r)
      else case Runner_Subscribe r of
        (Inl err, r') \<Rightarrow>
          (Inl (if err = ErrNotRunning then (404, Msg ''no upgrade in progress'') else (500, Msg ''failed to subscribe upgrade logs'')), r')
      | (Inr ch, r') \<Rightarrow> (case log_loop marshal ch os r' of (out, r'') \<Rightarrow> (Inr out, r'')))"

section \<open>Channels\<close>

text \<open>Exactly the open channels are subscribed, none holds more than its buffer, and there are subscribers
  only while an upgrade runs.\<close>

definition runner_ok :: "Runner \<Rightarrow> bool" where
  "runner_ok r \<longleftrightarrow> distinct (ru_subscribers r) \<and>
     (\<forall>ch. ch \<in> set (ru_subscribers r) \<longleftrightarrow> ch < length (ru_channels r) \<and> \<not> cn_closed (ru_channels r ! ch)) \<and>
     (\<forall>ch < length (ru_channels r). length (cn_waiting (ru_channels r ! ch)) \<le> line_buffer) \<and>
     (ru_subscribers r \<noteq> [] \<longrightarrow> ru_state r = StateRunning)"

lemma close_channel_simps [simp]:
  "length (close_channel ch cs) = length cs"
  "c < length cs \<Longrightarrow> close_channel ch cs ! c = (if c = ch then (cs ! c)\<lparr>cn_closed := True\<rparr> else cs ! c)"
  by (simp_all add: close_channel_def nth_list_update)

lemma close_channels:
  "length (fold close_channel xs cs) = length cs"
  "c < length cs \<Longrightarrow> fold close_channel xs cs ! c = (if c \<in> set xs then (cs ! c)\<lparr>cn_closed := True\<rparr> else cs ! c)"
  by (induction xs arbitrary: cs) (auto)

lemma finish_channel:
  "runner_ok r \<Longrightarrow> c < length (ru_channels r) \<Longrightarrow> ru_channels (finish st r) ! c = (ru_channels r ! c)\<lparr>cn_closed := True\<rparr>"
  by (cases "ru_channels r ! c") (auto simp: finish_def close_channels runner_ok_def)

lemma finish_ok: "runner_ok r \<Longrightarrow> runner_ok (finish st r)"
  by (auto simp: runner_ok_def finish_def close_channels)

lemma unsubscribe_ok: "runner_ok r \<Longrightarrow> runner_ok (unsubscribe ch r)"
  by (auto simp: runner_ok_def unsubscribe_def distinct_removeAll removeAll_filter_not_eq split: if_splits)

lemma subscribe_ok: "runner_ok r \<Longrightarrow> runner_ok (snd (Runner_Subscribe r))"
  by (auto simp: runner_ok_def Runner_Subscribe_def Let_def nth_append)

lemma enter_ok: "runner_ok r \<Longrightarrow> runner_ok (snd (Start_enter r))"
  by (auto simp: runner_ok_def Start_enter_def)

lemma new_ok: "runner_ok NewRunner"
  by (simp add: runner_ok_def NewRunner_def)


definition offered :: "string \<Rightarrow> channel \<Rightarrow> channel" where
  "offered line c = (if length (cn_waiting c) < line_buffer then c\<lparr>cn_waiting := cn_waiting c @ [line]\<rparr> else c\<lparr>cn_closed := True\<rparr>)"

definition has_room :: "Runner \<Rightarrow> nat \<Rightarrow> bool" where
  "has_room r ch \<longleftrightarrow> length (cn_waiting (ru_channels r ! ch)) < line_buffer"

lemma offer_simps:
  "length (ru_channels (offer line x r)) = length (ru_channels r)" "ru_state (offer line x r) = ru_state r"
  "ru_subscribers (offer line x r) = (if has_room r x then ru_subscribers r else removeAll x (ru_subscribers r))"
  by (simp_all add: offer_def has_room_def)

lemma offer_channel:
  "c < length (ru_channels r) \<Longrightarrow> ru_channels (offer line x r) ! c = (if c = x then offered line (ru_channels r ! c) else ru_channels r ! c)"
  by (simp add: offer_def offered_def)

lemma offers:
  assumes "distinct xs" "\<forall>x \<in> set xs. x < length (ru_channels r)"
  shows "length (ru_channels (fold (offer line) xs r)) = length (ru_channels r) \<and> ru_state (fold (offer line) xs r) = ru_state r \<and>
    ru_subscribers (fold (offer line) xs r) = filter (\<lambda>c. c \<notin> set xs \<or> has_room r c) (ru_subscribers r) \<and>
    (\<forall>c < length (ru_channels r). ru_channels (fold (offer line) xs r) ! c =
       (if c \<in> set xs then offered line (ru_channels r ! c) else ru_channels r ! c))"
  using assms
proof (induction xs arbitrary: r)
  case (Cons x xs)
  let ?r = "offer line x r"
  have room: "has_room ?r c = has_room r c" if "c \<in> set xs" for c
    using that Cons.prems by (auto simp: has_room_def offer_channel)
  have "\<forall>y \<in> set xs. y < length (ru_channels ?r)" using Cons.prems(2) by (simp add: offer_simps)
  note IH = Cons.IH[OF _ this]
  have "filter (\<lambda>c. c \<notin> set xs \<or> has_room ?r c) (ru_subscribers ?r) = filter (\<lambda>c. c \<notin> set (x # xs) \<or> has_room r c) (ru_subscribers r)"
    using Cons.prems(1) room by (auto simp: offer_simps removeAll_filter_not_eq intro!: filter_cong)
  then show ?case
    using IH Cons.prems by (auto simp: offer_simps offer_channel)
qed (simp add: filter_True)

lemma broadcast_spec:
  assumes "runner_ok r"
  shows "length (ru_channels (broadcast line r)) = length (ru_channels r)" "ru_state (broadcast line r) = ru_state r"
    "ru_subscribers (broadcast line r) = filter (has_room r) (ru_subscribers r)"
    "c < length (ru_channels r) \<Longrightarrow> ru_channels (broadcast line r) ! c =
       (if cn_closed (ru_channels r ! c) then ru_channels r ! c else offered line (ru_channels r ! c))"
  using assms offers[of "ru_subscribers r" r line]
  by (auto simp: runner_ok_def broadcast_def intro: filter_cong)

lemma broadcast_ok:
  assumes "runner_ok r"
  shows "runner_ok (broadcast line r)"
proof -
  note spec = broadcast_spec[OF assms, where line = line]
  have open_iff: "ch \<in> set (ru_subscribers r) \<longleftrightarrow> ch < length (ru_channels r) \<and> \<not> cn_closed (ru_channels r ! ch)" for ch
    using assms by (simp add: runner_ok_def)
  have waiting: "length (cn_waiting (ru_channels r ! ch)) \<le> line_buffer" if "ch < length (ru_channels r)" for ch
    using assms that by (simp add: runner_ok_def)
  have "ch \<in> set (ru_subscribers (broadcast line r)) \<longleftrightarrow>
      ch < length (ru_channels (broadcast line r)) \<and> \<not> cn_closed (ru_channels (broadcast line r) ! ch)" for ch
    by (cases "ch < length (ru_channels r)") (auto simp: spec open_iff offered_def has_room_def)
  moreover have "length (cn_waiting (ru_channels (broadcast line r) ! ch)) \<le> line_buffer" if "ch < length (ru_channels r)" for ch
    using that waiting[OF that] by (auto simp: spec offered_def)
  ultimately show ?thesis
    using assms by (auto simp: runner_ok_def spec(1-3))
qed

lemma receive_ok:
  "runner_ok r \<Longrightarrow> cn_waiting (ru_channels r ! ch) = line # rest \<Longrightarrow> ch < length (ru_channels r) \<Longrightarrow>
     runner_ok (r\<lparr>ru_channels := (ru_channels r)[ch := (ru_channels r ! ch)\<lparr>cn_waiting := rest\<rparr>]\<rparr>)"
  by (auto simp: runner_ok_def nth_list_update dest!: spec[of _ ch])

section \<open>One upgrade at a time\<close>

text \<open>The runner with its concurrent callers: the calls of \<open>Start\<close> between their two parts and the goroutines
  that collect output are counted.\<close>

record upgrade_machine =
  um_runner :: Runner
  um_starting :: nat
  um_collecting :: nat

inductive upgrade_step :: "upgrade_machine \<Rightarrow> upgrade_machine \<Rightarrow> bool" where
  entered: "Start_enter r = (Inr (), r') \<Longrightarrow> upgrade_step \<lparr>um_runner = r, um_starting = n, um_collecting = m\<rparr>
     \<lparr>um_runner = r', um_starting = Suc n, um_collecting = m\<rparr>"
| launched: "Start_launch le r = (Inr (), acts, r') \<Longrightarrow> upgrade_step \<lparr>um_runner = r, um_starting = Suc n, um_collecting = m\<rparr>
     \<lparr>um_runner = r', um_starting = n, um_collecting = Suc m\<rparr>"
| launch_failed: "Start_launch le r = (Inl err, acts, r') \<Longrightarrow> upgrade_step \<lparr>um_runner = r, um_starting = Suc n, um_collecting = m\<rparr>
     \<lparr>um_runner = r', um_starting = n, um_collecting = m\<rparr>"
| outputs: "upgrade_step \<lparr>um_runner = r, um_starting = n, um_collecting = Suc m\<rparr>
     \<lparr>um_runner = broadcast line r, um_starting = n, um_collecting = Suc m\<rparr>"
| exits: "upgrade_step \<lparr>um_runner = r, um_starting = n, um_collecting = Suc m\<rparr>
     \<lparr>um_runner = finish (exit_state scan_failed success) r, um_starting = n, um_collecting = m\<rparr>"
| joins: "upgrade_step \<lparr>um_runner = r, um_starting = n, um_collecting = m\<rparr>
     \<lparr>um_runner = snd (Runner_Subscribe r), um_starting = n, um_collecting = m\<rparr>"
| leaves: "upgrade_step \<lparr>um_runner = r, um_starting = n, um_collecting = m\<rparr>
     \<lparr>um_runner = unsubscribe ch r, um_starting = n, um_collecting = m\<rparr>"
| reads: "ch < length (ru_channels r) \<Longrightarrow> cn_waiting (ru_channels r ! ch) = line # rest \<Longrightarrow>
     upgrade_step \<lparr>um_runner = r, um_starting = n, um_collecting = m\<rparr>
     \<lparr>um_runner = r\<lparr>ru_channels := (ru_channels r)[ch := (ru_channels r ! ch)\<lparr>cn_waiting := rest\<rparr>]\<rparr>, um_starting = n, um_collecting = m\<rparr>"

inductive upgrade_reach :: "upgrade_machine \<Rightarrow> bool" where
  start: "upgrade_reach \<lparr>um_runner = NewRunner, um_starting = 0, um_collecting = 0\<rparr>"
| step: "upgrade_reach m \<Longrightarrow> upgrade_step m m' \<Longrightarrow> upgrade_reach m'"

definition machine_ok :: "upgrade_machine \<Rightarrow> bool" where
  "machine_ok m \<longleftrightarrow> runner_ok (um_runner m) \<and>
     um_starting m + um_collecting m = (if ru_state (um_runner m) = StateRunning then 1 else 0)"

lemma runner_states [simp]:
  "ru_state (finish st r) = st" "ru_state (unsubscribe ch r) = ru_state r" "ru_state (snd (Runner_Subscribe r)) = ru_state r"
  "exit_state b c \<noteq> StateRunning"
  by (simp_all add: finish_def unsubscribe_def Runner_Subscribe_def Let_def exit_state_def)

lemma Start_launch_cases:
  "Start_launch le r = (Inr x, acts, r') \<Longrightarrow> r' = r" "Start_launch le r = (Inl err, acts, r') \<Longrightarrow> r' = finish StateFailed r"
  by (auto simp: Start_launch_def split: if_splits)

lemma step_ok: "upgrade_step m m' \<Longrightarrow> machine_ok m \<Longrightarrow> machine_ok m'"
proof (induction rule: upgrade_step.induct)
  case (entered r r' n m)
  then show ?case using enter_ok[of r] by (auto simp: machine_ok_def Start_enter_def split: if_splits)
next
  case (launched le r acts r' n m)
  then show ?case using Start_launch_cases(1)[OF launched.hyps] by (simp add: machine_ok_def)
next
  case (launch_failed le r err acts r' n m)
  then show ?case using Start_launch_cases(2)[OF launch_failed.hyps] by (simp add: machine_ok_def finish_ok split: if_splits)
qed (simp_all add: machine_ok_def broadcast_ok broadcast_spec finish_ok subscribe_ok unsubscribe_ok receive_ok split: if_splits)

lemma reach_ok: "upgrade_reach m \<Longrightarrow> machine_ok m"
proof (induction rule: upgrade_reach.induct)
  case start
  show ?case by (simp add: machine_ok_def new_ok) (simp add: NewRunner_def)
qed (rule step_ok)




section \<open>Files\<close>

fun left_open :: "os_action list \<Rightarrow> os_file list \<Rightarrow> os_file list" where
  "left_open [] fs = fs"
| "left_open (Opened f # acts) fs = left_open acts (f # fs)"
| "left_open (Closed f # acts) fs = left_open acts (removeAll f fs)"
| "left_open (Cleaned # acts) fs = left_open acts fs"

definition cleanups :: "os_action list \<Rightarrow> nat" where
  "cleanups acts = length (filter (\<lambda>a. a = Cleaned) acts)"

text \<open>A start that fails, at whatever call, leaves no file open, has cleaned up exactly once what was
  built, and leaves the runner failed, without subscribers and ready for the next start. After a start
  that succeeds the log file and the reading end of the pipe are open, and once the output has been
  collected nothing is, and the clean-up has run once.\<close>

theorem start_leaks_nothing:
  assumes "runner_ok r" "ru_state r \<noteq> StateRunning" "Start le r = (result, acts, r')"
  shows "case result of
      Inl err \<Rightarrow> left_open acts [] = [] \<and> cleanups acts = (if le_build le then 1 else 0) \<and> ru_state r' = StateFailed \<and>
        ru_subscribers r' = [] \<and> (\<exists>r''. Start_enter r' = (Inr (), r''))
    | Inr _ \<Rightarrow> set (left_open acts []) = {LogFile, PipeReader} \<and> ru_state r' = StateRunning \<and>
        (\<forall>lines scan_failed success. case collect lines scan_failed success r' of (log, acts', r'') \<Rightarrow>
           left_open (acts @ acts') [] = [] \<and> cleanups (acts @ acts') = 1 \<and> ru_state r'' \<noteq> StateRunning \<and>
           log = concat (map (\<lambda>line. line @ [CHR 0x0A]) lines))"
  using assms
  by (auto simp: Start_def Start_enter_def Start_launch_def collect_def cleanups_def finish_def exit_state_def split: if_splits)

theorem start_leaks_nothing_witness:
  "\<exists>acts r'. Start \<lparr>le_build = True, le_null = True, le_pipe = True, le_log = False, le_process = True\<rparr> NewRunner = (Inl OpenLogError, acts, r') \<and>
     left_open acts [] = [] \<and> cleanups acts = 1"
proof -
  have st: "ru_state NewRunner \<noteq> StateRunning" by (simp add: NewRunner_def)
  then obtain acts r' where run: "Start \<lparr>le_build = True, le_null = True, le_pipe = True, le_log = False, le_process = True\<rparr> NewRunner =
      (Inl OpenLogError, acts, r')"
    by (simp add: Start_def Start_enter_def Start_launch_def)
  show ?thesis using start_leaks_nothing[OF new_ok st run] run by auto
qed

section \<open>The stream of the output\<close>

fun lines_until_exit :: "log_occurrence list \<Rightarrow> string list" where
  "lines_until_exit [] = []"
| "lines_until_exit (Outputs line # os) = line # lines_until_exit os"
| "lines_until_exit (Exits st # os) = []"
| "lines_until_exit (_ # os) = lines_until_exit os"

definition log_frames :: "(string \<Rightarrow> string option) \<Rightarrow> string list \<Rightarrow> string list" where
  "log_frames marshal lines = map frame (List.map_filter marshal lines)"

lemma log_frames_simps [simp]:
  "log_frames marshal [] = []" "log_frames marshal (xs @ ys) = log_frames marshal xs @ log_frames marshal ys"
  "log_frames marshal (x # xs) = (case marshal x of None \<Rightarrow> log_frames marshal xs | Some data \<Rightarrow> frame data # log_frames marshal xs)"
  by (simp_all add: log_frames_def List.map_filter_def split: option.split)

text \<open>What a reader can still get.\<close>

definition pending :: "nat \<Rightarrow> log_occurrence list \<Rightarrow> Runner \<Rightarrow> string list" where
  "pending ch os r = cn_waiting (ru_channels r ! ch) @ (if cn_closed (ru_channels r ! ch) then [] else lines_until_exit os)"

lemma pending_broadcast:
  assumes "runner_ok r" "ch < length (ru_channels r)"
  shows "prefix (log_frames marshal (pending ch os (broadcast line r))) (log_frames marshal (pending ch (Outputs line # os) r))"
  using assms by (auto simp: pending_def broadcast_spec offered_def split: option.split)

lemma pending_others:
  assumes "runner_ok r" "ch < length (ru_channels r)"
  shows "pending ch os (finish st r) = pending ch (Exits st # os) r"
    "pending ch os (snd (Runner_Subscribe r)) = pending ch (ReaderJoins # os) r"
    "c \<noteq> ch \<Longrightarrow> pending ch os (unsubscribe c r) = pending ch (ReaderLeaves c # os) r"
  using assms by (simp_all add: pending_def finish_channel Runner_Subscribe_def unsubscribe_def nth_append Let_def)

lemma pending_leaves: "pending ch (ReaderLeaves c # os) r = pending ch os r"
  by (simp add: pending_def)

lemma other_lengths:
  "length (ru_channels (finish st r)) = length (ru_channels r)"
  "length (ru_channels r) \<le> length (ru_channels (snd (Runner_Subscribe r)))"
  "length (ru_channels (unsubscribe c r)) = length (ru_channels r)"
  by (simp_all add: finish_def close_channels Runner_Subscribe_def unsubscribe_def Let_def)

lemma log_loop_prefix:
  assumes "runner_ok r" "ch < length (ru_channels r)"
  shows "prefix (fst (log_loop marshal ch os r)) (log_frames marshal (pending ch os r)) \<and> runner_ok (snd (log_loop marshal ch os r))"
  using assms
proof (induction os arbitrary: r)
  case (Cons x os)
  note IH = Cons.IH and prems = Cons.prems
  show ?case
  proof (cases x)
    case (Outputs line)
    have "prefix (fst (log_loop marshal ch os (broadcast line r))) (log_frames marshal (pending ch os (broadcast line r))) \<and>
        runner_ok (snd (log_loop marshal ch os (broadcast line r)))"
      by (rule IH) (use prems in \<open>simp_all add: broadcast_ok broadcast_spec\<close>)
    then show ?thesis
      using pending_broadcast[OF prems] by (auto simp: Outputs intro: prefix_order.trans)
  next
    case (Turn written)
    let ?c = "ru_channels r ! ch"
    show ?thesis
    proof (cases "cn_waiting ?c")
      case Nil
      then show ?thesis
        using IH[OF prems] prems by (auto simp: Turn pending_def unsubscribe_ok split: if_splits)
    next
      case (Cons line rest)
      let ?r = "r\<lparr>ru_channels := (ru_channels r)[ch := ?c\<lparr>cn_waiting := rest\<rparr>]\<rparr>"
      have ok: "runner_ok ?r" "ch < length (ru_channels ?r)"
        using receive_ok[OF prems(1) Cons prems(2)] prems(2) by simp_all
      have "pending ch (Turn written # os) r = line # pending ch os ?r"
        using prems(2) by (simp add: pending_def Cons)
      then show ?thesis
        using IH[OF ok] ok
        by (auto simp: Turn Cons Let_def unsubscribe_ok split: option.split prod.split)
    qed
  next
    case ClientLeaves
    then show ?thesis using prems by (simp add: unsubscribe_ok)
  next
    case (ReaderLeaves c)
    then show ?thesis
      using IH[OF prems] IH[of "unsubscribe c r"] prems pending_others(3)[OF prems, of c os]
      by (cases "c = ch") (simp_all add: pending_leaves unsubscribe_ok other_lengths)
  qed (use IH[of "finish x2 r" for x2] IH[of "snd (Runner_Subscribe r)"] prems pending_others[OF prems]
      other_lengths(2)[of r] in \<open>auto simp: finish_ok subscribe_ok other_lengths\<close>)
qed simp


text \<open>A reader that keeps up: at each line before the exit fewer than a channel holds are waiting, and no
  write fails.\<close>

fun keeps_pace :: "nat \<Rightarrow> log_occurrence list \<Rightarrow> bool" where
  "keeps_pace n [] = True"
| "keeps_pace n (Outputs line # os) = (n < line_buffer \<and> keeps_pace (Suc n) os)"
| "keeps_pace n (Exits st # os) = (\<forall>x \<in> set os. x \<noteq> ClientLeaves \<and> x \<noteq> Turn False)"
| "keeps_pace n (Turn written # os) = (written \<and> keeps_pace (n - 1) os)"
| "keeps_pace n (ClientLeaves # os) = False"
| "keeps_pace n (_ # os) = keeps_pace n os"

text \<open>After the exit the reader drains its channel.\<close>

lemma log_loop_drains:
  assumes "runner_ok r" "ch < length (ru_channels r)" "cn_closed (ru_channels r ! ch)" "\<forall>x \<in> set os. x \<noteq> ClientLeaves \<and> x \<noteq> Turn False"
  shows "fst (log_loop marshal ch os r) @ log_frames marshal (cn_waiting (ru_channels (snd (log_loop marshal ch os r)) ! ch)) =
    log_frames marshal (cn_waiting (ru_channels r ! ch))"
  using assms
proof (induction os arbitrary: r)
  case (Cons x os)
  note IH = Cons.IH and prems = Cons.prems
  have gone: "ch \<notin> set (ru_subscribers r)" using prems(1,3) by (simp add: runner_ok_def)
  show ?case
  proof (cases x)
    case (Outputs line)
    then show ?thesis using IH[of "broadcast line r"] prems by (simp add: broadcast_ok broadcast_spec)
  next
    case (Exits st)
    then show ?thesis using IH[of "finish st r"] prems by (simp add: finish_ok finish_channel other_lengths)
  next
    case ReaderJoins
    then show ?thesis
      using IH[of "snd (Runner_Subscribe r)"] prems other_lengths(2)[of r] pending_others(2)[OF prems(1,2), of "[]"]
      by (auto simp: subscribe_ok) (simp add: Runner_Subscribe_def nth_append Let_def split: if_splits)+
  next
    case (ReaderLeaves c)
    then show ?thesis
      using IH[of r] IH[of "unsubscribe c r"] prems
      by (cases "c = ch") (simp_all add: unsubscribe_ok other_lengths, simp add: unsubscribe_def split: if_splits)
  next
    case (Turn written)
    then have w: "written" using prems(4) by auto
    show ?thesis
    proof (cases "cn_waiting (ru_channels r ! ch)")
      case Nil
      then show ?thesis using prems(3) gone by (simp add: Turn unsubscribe_def)
    next
      case (Cons line rest)
      let ?r = "r\<lparr>ru_channels := (ru_channels r)[ch := (ru_channels r ! ch)\<lparr>cn_waiting := rest\<rparr>]\<rparr>"
      have "fst (log_loop marshal ch os ?r) @ log_frames marshal (cn_waiting (ru_channels (snd (log_loop marshal ch os ?r)) ! ch)) =
          log_frames marshal (cn_waiting (ru_channels ?r ! ch))"
        by (rule IH) (use receive_ok[OF prems(1) Cons prems(2)] prems in simp_all)
      then show ?thesis
        using prems(2) w by (auto simp: Turn Cons Let_def split: option.split prod.split)
    qed
  next
    case ClientLeaves
    then show ?thesis using prems(4) by simp
  qed
qed simp


lemma log_loop_complete:
  assumes "runner_ok r" "ch \<in> set (ru_subscribers r)" "keeps_pace (length (cn_waiting (ru_channels r ! ch))) os"
  shows "fst (log_loop marshal ch os r) @ log_frames marshal (cn_waiting (ru_channels (snd (log_loop marshal ch os r)) ! ch)) =
    log_frames marshal (cn_waiting (ru_channels r ! ch) @ lines_until_exit os)"
  using assms
proof (induction os arbitrary: r)
  case (Cons x os)
  note IH = Cons.IH and prems = Cons.prems
  have ch: "ch < length (ru_channels r)" "\<not> cn_closed (ru_channels r ! ch)" using prems(1,2) by (simp_all add: runner_ok_def)
  show ?case
  proof (cases x)
    case (Outputs line)
    have "ch \<in> set (ru_subscribers (broadcast line r))" "cn_waiting (ru_channels (broadcast line r) ! ch) = cn_waiting (ru_channels r ! ch) @ [line]"
      using prems ch by (simp_all add: Outputs broadcast_spec has_room_def offered_def)
    then show ?thesis using IH[of "broadcast line r"] prems by (simp add: Outputs broadcast_ok)
  next
    case (Exits st)
    then show ?thesis
      using log_loop_drains[of "finish st r" ch os marshal] prems ch by (simp add: finish_ok finish_channel other_lengths)
  next
    case ReaderJoins
    have "ch \<in> set (ru_subscribers (snd (Runner_Subscribe r)))" "ru_channels (snd (Runner_Subscribe r)) ! ch = ru_channels r ! ch"
      using prems(2) ch by (simp_all add: Runner_Subscribe_def nth_append Let_def)
    then show ?thesis using IH[of "snd (Runner_Subscribe r)"] prems by (simp add: ReaderJoins subscribe_ok)
  next
    case (ReaderLeaves c)
    have "ch \<in> set (ru_subscribers (unsubscribe c r))" "ru_channels (unsubscribe c r) ! ch = ru_channels r ! ch" if "c \<noteq> ch"
      using prems(2) ch that by (simp_all add: unsubscribe_def)
    then show ?thesis
      using IH[of r] IH[of "unsubscribe c r"] prems by (cases "c = ch") (simp_all add: ReaderLeaves unsubscribe_ok)
  next
    case (Turn written)
    then have w: "written" using prems(3) by simp
    show ?thesis
    proof (cases "cn_waiting (ru_channels r ! ch)")
      case Nil
      then show ?thesis using ch IH[of r] prems by (simp add: Turn)
    next
      case (Cons line rest)
      let ?r = "r\<lparr>ru_channels := (ru_channels r)[ch := (ru_channels r ! ch)\<lparr>cn_waiting := rest\<rparr>]\<rparr>"
      have "fst (log_loop marshal ch os ?r) @ log_frames marshal (cn_waiting (ru_channels (snd (log_loop marshal ch os ?r)) ! ch)) =
          log_frames marshal (cn_waiting (ru_channels ?r ! ch) @ lines_until_exit os)"
        by (rule IH) (use receive_ok[OF prems(1) Cons ch(1)] prems ch in \<open>simp_all add: Turn Cons\<close>)
      then show ?thesis
        using ch w by (auto simp: Turn Cons Let_def split: option.split prod.split)
    qed
  next
    case ClientLeaves
    then show ?thesis using prems(3) by simp
  qed
qed simp

text \<open>C18. The stream of an upgrade's output has no gaps: whatever happens, a client is sent a prefix of the
  lines the process writes from its subscription to its exit. A client that keeps up is sent all of
  them, those written before the exit but not yet read included.\<close>

theorem upgrade_log_has_no_gaps:
  assumes "runner_ok r" "upgradeLogs True marshal os r = (Inr out, r')"
  shows "prefix out (map frame (List.map_filter marshal (lines_until_exit os))) \<and>
    (keeps_pace 0 os \<longrightarrow> out @ map frame (List.map_filter marshal (cn_waiting (ru_channels r' ! length (ru_channels r)))) =
       map frame (List.map_filter marshal (lines_until_exit os))) \<and> runner_ok r'"
proof -
  define ch where "ch = length (ru_channels r)"
  obtain r1 where sub: "Runner_Subscribe r = (Inr ch, r1)" and run: "log_loop marshal ch os r1 = (out, r')"
    using assms(2) by (auto simp: upgradeLogs_def Runner_Subscribe_def ch_def Let_def split: if_splits prod.splits)
  have r1: "runner_ok r1" "ch < length (ru_channels r1)" "ch \<in> set (ru_subscribers r1)" "ru_channels r1 ! ch = \<lparr>cn_waiting = [], cn_closed = False\<rparr>"
    using subscribe_ok[OF assms(1)] sub by (auto simp: Runner_Subscribe_def ch_def Let_def split: if_splits)
  show ?thesis
    using log_loop_prefix[OF r1(1,2), of marshal os] log_loop_complete[OF r1(1,3), of os marshal]
    by (simp add: run r1(4) pending_def log_frames_def flip: ch_def)
qed

definition readings0 :: "log_occurrence list" where
  "readings0 = [Outputs ''one'', Turn True, Outputs ''two'', Exits StateDone]"

definition running0 :: Runner where
  "running0 = \<lparr>ru_state = StateRunning, ru_channels = [], ru_subscribers = []\<rparr>"

theorem upgrade_log_has_no_gaps_witness:
  "keeps_pace 0 readings0 \<and>
   (\<exists>out r'. upgradeLogs True Some readings0 running0 = (Inr out, r') \<and>
     out @ map frame (List.map_filter Some (cn_waiting (ru_channels r' ! 0))) = map frame (List.map_filter Some [''one'', ''two'']))"
proof -
  have ok: "runner_ok running0" by (simp add: runner_ok_def running0_def)
  obtain out r' where run: "upgradeLogs True Some readings0 running0 = (Inr out, r')"
    by (cases "upgradeLogs True Some readings0 running0")
      (auto simp: upgradeLogs_def running0_def Runner_Subscribe_def Let_def split: prod.splits)
  have pace: "keeps_pace 0 readings0" by (simp add: readings0_def line_buffer_def)
  have l: "lines_until_exit readings0 = [''one'', ''two'']" "length (ru_channels running0) = 0"
    by (simp_all add: readings0_def running0_def)
  show ?thesis using upgrade_log_has_no_gaps[OF ok run] pace run unfolding l by blast
qed

section \<open>The version an upgrade is asked for\<close>

text \<open>The version reaches the process as one argument of its own; the script the shell runs does not
  depend on it.\<close>

lemma target_is_an_argument:
  "\<exists>before after. \<forall>target. pc_args (defaultProcessBuilder systemd startedAt nano environ target) =
     before @ [if target = [] then ''latest'' else target] @ after"
proof (cases systemd)
  case None
  show ?thesis
    by (rule exI[of _ "[''lotsen'', ''upgrade'', ''--to'']"], rule exI[of _ "[''--non-interactive'', ''--yes'']"])
      (simp add: defaultProcessBuilder_def None)
next
  case (Some path)
  then show ?thesis
    by (simp add: defaultProcessBuilder_def) (rule exI[of _ "butlast (pc_args (defaultProcessBuilder (Some path) startedAt nano environ []))"],
      rule exI[of _ "[]"], simp add: defaultProcessBuilder_def)
qed

lemma startUpgrade_target:
  "startUpgrade ve launch body w = (Inr (code, target), w') \<Longrightarrow> code = 202 \<and> target \<noteq> [] \<and> IsRunning (uw_runner w')"
  by (auto simp: startUpgrade_def upgrade_target_def Start_def Start_enter_def Start_launch_def IsRunning_def Let_def
      split: upgrade_body.splits prod.splits sum.splits if_splits)

end
