(* ===== verification/Text.thy ===== *)
theory Text
  imports Prelude "HOL-Library.Word"
begin

text \<open>
  Text that is read line by line or word by word: the lines that \<open>bufio.Scanner\<close> delivers,
  \<open>strings.Fields\<close> and \<open>strconv.ParseUint\<close>.
\<close>

section \<open>Lines\<close>

definition line_feed :: char where "line_feed = CHR 0x0A"

definition drop_cr :: "string \<Rightarrow> string" where
  "drop_cr s = (if s \<noteq> [] \<and> last s = CHR 0x0D then butlast s else s)"

definition scan_pieces :: "string \<Rightarrow> string list" where
  "scan_pieces content = (let ps = Split content line_feed in if last ps = [] then butlast ps else ps)"

text \<open>A scanner stops, with an error, at a line that does not fit its buffer.\<close>

definition scanned :: "int \<Rightarrow> string \<Rightarrow> string list \<times> bool" where
  "scanned buffer content =
     (let ps = scan_pieces content in
      (map drop_cr (takeWhile (\<lambda>p. int (length p) < buffer) ps), list_all (\<lambda>p. int (length p) < buffer) ps))"

text \<open>\<open>bufio.MaxScanTokenSize\<close>.\<close>

definition MaxScanTokenSize :: int where "MaxScanTokenSize = 65536"

section \<open>Words\<close>

definition word_done :: "string \<Rightarrow> string list" where
  "word_done cur = (if cur = [] then [] else [cur])"

function fields_from :: "string \<Rightarrow> string \<Rightarrow> string list" where
  "fields_from cur s =
     (case s of
        [] \<Rightarrow> word_done cur
      | c # r \<Rightarrow>
          (case front_seq space_seqs s of
             None \<Rightarrow> fields_from (cur @ [c]) r
           | Some w \<Rightarrow> word_done cur @ fields_from [] (drop (length w) s)))"
  by pat_completeness auto
termination
proof (relation "measure (\<lambda>(cur, s). length s)", goal_cases)
  case 1
  then show ?case by simp
next
  case (2 cur s c r)
  then show ?case by simp
next
  case (3 cur s c r w)
  from front_seq_SomeD[OF 3(2)] show ?case by (cases w; cases s) auto
qed

declare fields_from.simps [simp del]

definition Fields :: "string \<Rightarrow> string list" where
  "Fields s = fields_from [] s"

lemma Join_set: "set (Join ws sep) \<subseteq> \<Union> (set ` set ws) \<union> set sep"
  by (induction ws sep rule: Join.induct) auto

definition plain_word :: "string \<Rightarrow> bool" where
  "plain_word w \<longleftrightarrow> w \<noteq> [] \<and> list_all graphic w"

lemma fields_from_graphic:
  "list_all graphic w \<Longrightarrow> fields_from cur (w @ s) = fields_from (cur @ w) s"
proof (induction w arbitrary: cur)
  case (Cons c w)
  then have "front_seq space_seqs (c # w @ s) = None"
    by (intro front_seq_graphic not_graphic_space_hd) simp
  then have "fields_from cur ((c # w) @ s) = fields_from (cur @ [c]) (w @ s)"
    by (subst fields_from.simps) simp
  with Cons show ?case by simp
qed simp

lemma fields_from_Nil: "fields_from cur [] = word_done cur"
  by (subst fields_from.simps) simp

lemma front_seq_blank: "front_seq space_seqs (CHR 0x20 # s) = Some [CHR 0x20]"
  by (simp add: front_seq_def space_seqs_def HasPrefix_def)

lemma fields_from_blank: "fields_from cur (CHR 0x20 # s) = word_done cur @ fields_from [] s"
  by (subst fields_from.simps) (simp add: front_seq_blank)

lemma fields_from_Join:
  "ws \<noteq> [] \<Longrightarrow> \<forall>w \<in> set ws. plain_word w \<Longrightarrow> fields_from [] (Join ws [CHR 0x20]) = ws"
proof (induction ws rule: induct_list012)
  case (2 w)
  then show ?case
    using fields_from_graphic[of w "[]" "[]"] by (simp add: fields_from_Nil word_done_def plain_word_def)
next
  case (3 w v ws)
  then show ?case
    using fields_from_graphic[of w "[]" "CHR 0x20 # Join (v # ws) [CHR 0x20]"]
    by (simp add: fields_from_blank word_done_def plain_word_def)
qed simp

lemma Fields_Join: "\<forall>w \<in> set ws. plain_word w \<Longrightarrow> Fields (Join ws [CHR 0x20]) = ws"
  by (cases "ws = []") (simp_all add: Fields_def fields_from_Nil word_done_def fields_from_Join)

section \<open>Unsigned numbers\<close>

text \<open>\<open>strconv.ParseUint(s, 10, 64)\<close>.\<close>

definition ParseUint64 :: "string \<Rightarrow> (64 word) option" where
  "ParseUint64 s =
     (if s = [] \<or> \<not> list_all is_digit s then None
      else if digits_val s < 2 ^ 64 then Some (word_of_int (digits_val s)) else None)"

lemma ParseUint64_nat_str: "n < 2 ^ 64 \<Longrightarrow> ParseUint64 (nat_str (int n)) = Some (of_nat n)"
proof -
  assume "n < 2 ^ 64"
  then have "int n < 2 ^ 64" by simp
  then show ?thesis by (simp add: ParseUint64_def nat_str_digits)
qed

lemma plain_word_nat_str: "0 \<le> n \<Longrightarrow> plain_word (nat_str n)"
  using nat_str_digits[of n] by (auto simp: plain_word_def list_all_iff is_digit_graphic)

end
