(* ===== verification/AccessLogs.thy ===== *)
theory AccessLogs
  imports Api Text
begin

text \<open>
  The access log on disk: the proxy writes it (\<open>proxy/internal/handler/access_log.go\<close>) and the API pages
  through it (\<open>handler_load_balancer_access_logs.go\<close>).

  The directory they share is a list of names with their content and time of modification. JSON, the
  text of a cursor and the name of an hour are parameters. Which call fails is a parameter. Lines are
  read as \<open>bufio.Scanner\<close> reads them with the buffer the code gives it.
\<close>

section \<open>The directory\<close>

record log_file =
  lf_content :: string
  lf_modified :: int
  lf_isDir :: bool

type_synonym log_dir = "log_file gomap"

definition accessLogFilenamePrefix :: string where "accessLogFilenamePrefix = ''access-''"

definition is_access_log :: "string \<Rightarrow> bool" where
  "is_access_log name \<longleftrightarrow> HasPrefix name accessLogFilenamePrefix \<and> HasSuffix name ''.log''"

definition max_token :: nat where "max_token = 1048576"

text \<open>The lines of a file: separated by newlines, a final empty piece dropped, a carriage return at the
  end of a line removed; a line that does not fit the buffer is an error.\<close>

definition scan_lines :: "string \<Rightarrow> string list option" where
  "scan_lines content =
     (if \<exists>p \<in> set (scan_pieces content). int (length p) \<ge> 1048576 then None else Some (map drop_cr (scan_pieces content)))"

section \<open>Reading\<close>

record access_entry =
  ae_Timestamp :: int
  ae_ClientIP :: string
  ae_Host :: string
  ae_Method :: string
  ae_Path :: string
  ae_Query :: string
  ae_Status :: int
  ae_DurationMs :: int
  ae_BytesWritten :: int
  ae_Outcome :: string
  ae_Headers :: "string gomap"

record accessLogsCursor =
  ac_File :: string
  ac_OffsetFromEnd :: int

record accessLogsFilters =
  af_Method :: string
  af_Status :: int
  af_Host :: string
  af_IP :: string

record access_env =
  xe_decode :: "string \<Rightarrow> access_entry option"
  xe_readDir :: bool
  xe_open :: "string \<Rightarrow> bool"
  xe_cursor :: "string \<Rightarrow> accessLogsCursor option"
  xe_encode_cursor :: "accessLogsCursor \<Rightarrow> string"

definition parseAccessLogsLimit :: "string \<Rightarrow> string + int" where
  "parseAccessLogsLimit raw0 =
     (let raw = TrimSpace raw0 in
      if raw = [] then Inr 200
      else case Atoi raw of
        None \<Rightarrow> Inl ''limit must be a positive integer''
      | Some n \<Rightarrow>
          if n \<le> 0 then Inl ''limit must be a positive integer''
          else if n > 500 then Inr 500 else Inr n)"

definition parseAccessLogsFilters :: "string \<Rightarrow> string \<Rightarrow> string \<Rightarrow> string \<Rightarrow> string + accessLogsFilters" where
  "parseAccessLogsFilters qMethod qHost qIP qStatus =
     (let method = ToUpper (TrimSpace qMethod); host = ToLower (TrimSpace qHost); ip = TrimSpace qIP;
          rawStatus = TrimSpace qStatus in
      case (if rawStatus = [] then Inr 0
            else case Atoi rawStatus of
              None \<Rightarrow> Inl ''status must be an HTTP status code''
            | Some status \<Rightarrow> if status < 100 \<or> status > 599 then Inl ''status must be an HTTP status code'' else Inr status) of
        Inl err \<Rightarrow> Inl err
      | Inr status \<Rightarrow>
          if method \<noteq> [] \<and> \<not> (\<forall>ch \<in> set method. byte (CHR ''A'') \<le> byte ch \<and> byte ch \<le> byte (CHR ''Z''))
          then Inl ''method must contain only letters''
          else Inr \<lparr>af_Method = method, af_Status = status, af_Host = host, af_IP = ip\<rparr>)"

definition decodeAccessLogsCursor :: "access_env \<Rightarrow> string \<Rightarrow> unit + accessLogsCursor option" where
  "decodeAccessLogsCursor env raw0 =
     (let raw = TrimSpace raw0 in
      if raw = [] then Inr None
      else case xe_cursor env raw of
        None \<Rightarrow> Inl ()
      | Some cursor \<Rightarrow> if TrimSpace (ac_File cursor) = [] \<or> ac_OffsetFromEnd cursor < 0 then Inl () else Inr (Some cursor))"

definition entryMatchesAccessLogFilters :: "access_entry \<Rightarrow> accessLogsFilters \<Rightarrow> bool" where
  "entryMatchesAccessLogFilters entry f =
     (if af_Method f \<noteq> [] \<and> ToUpper (TrimSpace (ae_Method entry)) \<noteq> af_Method f then False
      else if af_Status f \<noteq> 0 \<and> ae_Status entry \<noteq> af_Status f then False
      else if af_Host f \<noteq> [] \<and> \<not> Contains (ToLower (TrimSpace (ae_Host entry))) (af_Host f) then False
      else if af_IP f \<noteq> [] \<and> \<not> Contains (TrimSpace (ae_ClientIP entry)) (af_IP f) then False
      else True)"

text \<open>The names of the log files, newest first. A directory that does not exist is empty.\<close>

definition listAccessLogFiles :: "access_env \<Rightarrow> log_dir option \<Rightarrow> unit + string list" where
  "listAccessLogFiles env dir =
     (case dir of
        None \<Rightarrow> Inr []
      | Some entries \<Rightarrow>
          if \<not> xe_readDir env then Inl ()
          else Inr (rev (sort (map fst (filter (\<lambda>(name, f). \<not> lf_isDir f \<and> is_access_log name) entries)))))"

definition readLogLines :: "access_env \<Rightarrow> log_dir option \<Rightarrow> string \<Rightarrow> unit + string list" where
  "readLogLines env dir name =
     (case dir of
        None \<Rightarrow> Inl ()
      | Some entries \<Rightarrow>
          (case map_of entries name of
             None \<Rightarrow> Inl ()
           | Some f \<Rightarrow>
               if \<not> xe_open env name then Inl ()
               else case scan_lines (lf_content f) of None \<Rightarrow> Inl () | Some lines \<Rightarrow> Inr lines))"

text \<open>What a line shows under the filters.\<close>

definition line_entry :: "access_env \<Rightarrow> accessLogsFilters \<Rightarrow> string \<Rightarrow> access_entry option" where
  "line_entry env filters raw =
     (let line = TrimSpace raw in
      if line = [] then None
      else case xe_decode env line of
        None \<Rightarrow> None
      | Some entry \<Rightarrow> if \<not> entryMatchesAccessLogFilters entry filters then None else Some entry)"

text \<open>The inner loop, over the lines of a file from its end, of which \<open>consumed\<close> are behind: either the
  page is full, with the number of lines consumed, or the items so far.\<close>

fun page_lines :: "access_env \<Rightarrow> accessLogsFilters \<Rightarrow> nat \<Rightarrow> int \<Rightarrow> string list \<Rightarrow> access_entry list
    \<Rightarrow> (access_entry list \<times> int) + access_entry list" where
  "page_lines env filters limit consumed [] items = Inr items"
| "page_lines env filters limit consumed (raw # rest) items =
     (case line_entry env filters raw of
        None \<Rightarrow> page_lines env filters limit (consumed + 1) rest items
      | Some entry \<Rightarrow>
          if length items + 1 = limit then Inl (items @ [entry], consumed + 1)
          else page_lines env filters limit (consumed + 1) rest (items @ [entry]))"

fun more_lines :: "access_env \<Rightarrow> accessLogsFilters \<Rightarrow> string list \<Rightarrow> bool" where
  "more_lines env filters [] = False"
| "more_lines env filters (raw # rest) =
     (case line_entry env filters raw of None \<Rightarrow> more_lines env filters rest | Some _ \<Rightarrow> True)"

fun more_files :: "access_env \<Rightarrow> log_dir option \<Rightarrow> accessLogsFilters \<Rightarrow> int \<Rightarrow> string list \<Rightarrow> unit + bool" where
  "more_files env dir filters offset [] = Inr False"
| "more_files env dir filters offset (name # names) =
     (case readLogLines env dir name of
        Inl _ \<Rightarrow> Inl ()
      | Inr lines \<Rightarrow>
          if more_lines env filters (drop (nat offset) (rev lines)) then Inr True
          else more_files env dir filters 0 names)"

definition from_file :: "string \<Rightarrow> string list \<Rightarrow> string list" where
  "from_file name names = dropWhile (\<lambda>n. n \<noteq> name) names"

definition hasMoreFilteredAccessLogs :: "access_env \<Rightarrow> log_dir option \<Rightarrow> string list \<Rightarrow> accessLogsCursor \<Rightarrow> accessLogsFilters \<Rightarrow> unit + bool" where
  "hasMoreFilteredAccessLogs env dir files cursor filters =
     (if ac_File cursor \<notin> set files then Inr False
      else more_files env dir filters (ac_OffsetFromEnd cursor) (from_file (ac_File cursor) files))"

fun page_files :: "access_env \<Rightarrow> log_dir option \<Rightarrow> string list \<Rightarrow> accessLogsFilters \<Rightarrow> nat \<Rightarrow> int \<Rightarrow> string list \<Rightarrow> access_entry list
    \<Rightarrow> unit + access_entry list \<times> accessLogsCursor option \<times> bool" where
  "page_files env dir files filters limit offset [] items = Inr (items, None, False)"
| "page_files env dir files filters limit offset (name # names) items =
     (case readLogLines env dir name of
        Inl _ \<Rightarrow> Inl ()
      | Inr lines \<Rightarrow>
          (case page_lines env filters limit offset (drop (nat offset) (rev lines)) items of
             Inr items' \<Rightarrow> page_files env dir files filters limit 0 names items'
           | Inl (items', consumed) \<Rightarrow>
               (let nextCursor = \<lparr>ac_File = name, ac_OffsetFromEnd = consumed\<rparr> in
                case hasMoreFilteredAccessLogs env dir files nextCursor filters of
                  Inl _ \<Rightarrow> Inl ()
                | Inr hasMore \<Rightarrow> Inr (items', Some nextCursor, hasMore))))"

definition readAccessLogsPage :: "access_env \<Rightarrow> log_dir option \<Rightarrow> accessLogsCursor option \<Rightarrow> accessLogsFilters \<Rightarrow> int
    \<Rightarrow> unit + access_entry list \<times> accessLogsCursor option \<times> bool" where
  "readAccessLogsPage env dir cursor filters limit =
     (if limit \<le> 0 then Inr ([], None, False)
      else case listAccessLogFiles env dir of
        Inl _ \<Rightarrow> Inl ()
      | Inr files \<Rightarrow>
          if files = [] then Inr ([], None, False)
          else case cursor of
            None \<Rightarrow> page_files env dir files filters (nat limit) 0 files []
          | Some c \<Rightarrow>
              if ac_File c \<notin> set files then Inr ([], None, False)
              else page_files env dir files filters (nat limit) (ac_OffsetFromEnd c) (from_file (ac_File c) files) [])"

record access_query =
  aq_limit :: string
  aq_method :: string
  aq_host :: string
  aq_ip :: string
  aq_status :: string
  aq_cursor :: string

definition loadBalancerAccessLogs :: "access_env \<Rightarrow> log_dir option \<Rightarrow> access_query \<Rightarrow> failure + access_entry list \<times> bool \<times> string" where
  "loadBalancerAccessLogs env dir q =
     (case parseAccessLogsLimit (aq_limit q) of
        Inl err \<Rightarrow> Inl (400, Msg err)
      | Inr limit \<Rightarrow>
          (case parseAccessLogsFilters (aq_method q) (aq_host q) (aq_ip q) (aq_status q) of
             Inl err \<Rightarrow> Inl (400, Msg err)
           | Inr filters \<Rightarrow>
               (case decodeAccessLogsCursor env (aq_cursor q) of
                  Inl _ \<Rightarrow> Inl (400, Msg ''invalid cursor'')
                | Inr cursor \<Rightarrow>
                    (case readAccessLogsPage env dir cursor filters limit of
                       Inl _ \<Rightarrow> Inl (500, Msg ''failed to read access logs'')
                     | Inr (items, nextCursor, hasMore) \<Rightarrow>
                         Inr (items, hasMore, case nextCursor of None \<Rightarrow> [] | Some c \<Rightarrow> xe_encode_cursor env c)))))"


section \<open>Pages\<close>

abbreviation shown :: "access_env \<Rightarrow> accessLogsFilters \<Rightarrow> string list \<Rightarrow> access_entry list" where
  "shown env filters lines \<equiv> List.map_filter (line_entry env filters) lines"

definition lines_of :: "access_env \<Rightarrow> log_dir option \<Rightarrow> string \<Rightarrow> string list" where
  "lines_of env dir name = (case readLogLines env dir name of Inl _ \<Rightarrow> [] | Inr lines \<Rightarrow> lines)"

definition readable :: "access_env \<Rightarrow> log_dir option \<Rightarrow> string list \<Rightarrow> bool" where
  "readable env dir names \<longleftrightarrow> (\<forall>name \<in> set names. readLogLines env dir name = Inr (lines_of env dir name))"

text \<open>Everything the log holds under the filters from a position on, newest first.\<close>

fun entries_from :: "access_env \<Rightarrow> log_dir option \<Rightarrow> accessLogsFilters \<Rightarrow> int \<Rightarrow> string list \<Rightarrow> access_entry list" where
  "entries_from env dir filters offset [] = []"
| "entries_from env dir filters offset (name # names) =
     shown env filters (drop (nat offset) (rev (lines_of env dir name))) @ entries_from env dir filters 0 names"

lemma shown_append: "shown env filters (xs @ ys) = shown env filters xs @ shown env filters ys"
  by (simp add: List.map_filter_def)

lemma page_lines_spec:
  assumes "length items < limit"
  shows "case page_lines env filters limit consumed rls items of
      Inr items' \<Rightarrow> items' = items @ shown env filters rls \<and> length items' < limit
    | Inl (items', c) \<Rightarrow> \<exists>k \<le> length rls. c = consumed + int k \<and> items' = items @ shown env filters (take k rls) \<and> length items' = limit"
  using assms
proof (induction rls arbitrary: consumed items)
  case (Cons raw rest)
  show ?case
  proof (cases "line_entry env filters raw")
    case None
    from Cons.IH[OF Cons.prems, of "consumed + 1"] show ?thesis
      by (auto simp: None List.map_filter_simps split: sum.splits intro: exI[of _ "Suc k" for k])
  next
    case (Some entry)
    show ?thesis
    proof (cases "length items + 1 = limit")
      case True
      then show ?thesis by (auto simp: Some List.map_filter_simps intro!: exI[of _ 1])
    next
      case False
      then have "length (items @ [entry]) < limit" using Cons.prems by simp
      from Cons.IH[OF this, of "consumed + 1"] False show ?thesis
        by (auto simp: Some List.map_filter_simps split: sum.splits intro: exI[of _ "Suc k" for k])
    qed
  qed
qed (simp add: List.map_filter_simps)

lemma more_lines_iff: "more_lines env filters rls \<longleftrightarrow> shown env filters rls \<noteq> []"
  by (induction rls) (auto simp: List.map_filter_simps split: option.split)

lemma more_files_spec:
  "readable env dir names \<Longrightarrow> more_files env dir filters offset names = Inr (entries_from env dir filters offset names \<noteq> [])"
  by (induction names arbitrary: offset) (auto simp: readable_def more_lines_iff)

lemma from_file_split: "name \<notin> set pre \<Longrightarrow> from_file name (pre @ name # post) = name # post"
  by (induction pre) (auto simp: from_file_def)

text \<open>How a page ends: what is left and whether the page is full determine its cursor.\<close>

definition page_end :: "access_env \<Rightarrow> log_dir option \<Rightarrow> string list \<Rightarrow> accessLogsFilters \<Rightarrow> access_entry list \<Rightarrow> bool
    \<Rightarrow> accessLogsCursor option \<Rightarrow> bool \<Rightarrow> bool" where
  "page_end env dir files filters left full nextCursor hasMore =
     (case nextCursor of
        None \<Rightarrow> \<not> full \<and> \<not> hasMore
      | Some c \<Rightarrow> full \<and> ac_File c \<in> set files \<and> 0 \<le> ac_OffsetFromEnd c \<and>
          entries_from env dir filters (ac_OffsetFromEnd c) (from_file (ac_File c) files) = left \<and> hasMore = (left \<noteq> []))"

lemma page_files_spec:
  assumes "readable env dir names" "files = pre @ names" "distinct files" "length items < limit" "0 \<le> offset"
  shows "\<exists>nextCursor hasMore. page_files env dir files filters limit offset names items =
      Inr (items @ take (limit - length items) (entries_from env dir filters offset names), nextCursor, hasMore) \<and>
    page_end env dir files filters (drop (limit - length items) (entries_from env dir filters offset names))
      (limit - length items \<le> length (entries_from env dir filters offset names)) nextCursor hasMore"
  using assms
proof (induction names arbitrary: pre items offset)
  case (Cons name names)
  let ?rls = "drop (nat offset) (rev (lines_of env dir name))"
  have lines: "readLogLines env dir name = Inr (lines_of env dir name)" and rest: "readable env dir names"
    using Cons.prems(1) by (simp_all add: readable_def)
  note page = page_lines_spec[OF Cons.prems(4), where env = env and filters = filters and consumed = offset and rls = ?rls]
  show ?case
  proof (cases "page_lines env filters limit offset ?rls items")
    case (Inr items')
    let ?S = "shown env filters ?rls" and ?E = "entries_from env dir filters 0 names"
    have items': "items' = items @ ?S" "length items' < limit" using page unfolding Inr sum.case by blast+
    have files: "files = (pre @ [name]) @ names" using Cons.prems(2) by simp
    have le: "length ?S \<le> limit - length items" using items' by simp
    obtain nextCursor hasMore where IH: "page_files env dir files filters limit 0 names items' =
        Inr (items' @ take (limit - length items') ?E, nextCursor, hasMore)"
      "page_end env dir files filters (drop (limit - length items') ?E) (limit - length items' \<le> length ?E) nextCursor hasMore"
      using Cons.IH[OF rest files Cons.prems(3) items'(2), of 0] by auto
    have n: "limit - length items' = limit - length items - length ?S" by (simp add: items'(1))
    have run: "page_files env dir files filters limit offset (name # names) items =
        Inr (items @ take (limit - length items) (?S @ ?E), nextCursor, hasMore)"
      using IH(1) le by (simp add: lines Inr items'(1))
    have left: "drop (limit - length items) (?S @ ?E) = drop (limit - length items') ?E" using le by (simp add: n)
    have full: "(limit - length items \<le> length (?S @ ?E)) = (limit - length items' \<le> length ?E)"
      using le items'(2) by (auto simp: items'(1))
    show ?thesis
      unfolding entries_from.simps left full using run IH(2) by blast
  next
    case (Inl full)
    obtain items' c where full: "full = (items', c)" by (cases full)
    then obtain k where k: "k \<le> length ?rls" "c = offset + int k" "items' = items @ shown env filters (take k ?rls)" "length items' = limit"
      using page Inl by auto
    have files: "from_file name files = name # names"
      using Cons.prems(2,3) by (auto intro: from_file_split)
    have split: "shown env filters ?rls = shown env filters (take k ?rls) @ shown env filters (drop k ?rls)"
      by (metis append_take_drop_id shown_append)
    have len: "length (shown env filters (take k ?rls)) = limit - length items"
      using k(3,4) by simp
    have drop: "drop (nat c) (rev (lines_of env dir name)) = drop k ?rls"
      using k(2) Cons.prems(5) by (simp add: nat_add_distrib add.commute)
    let ?R = "entries_from env dir filters offset (name # names)"
    have suffix: "entries_from env dir filters c (from_file name files) = drop (limit - length items) ?R"
      by (simp add: files drop split len[symmetric])
    have taken: "items' = items @ take (limit - length items) ?R"
      by (simp add: k(3) split len[symmetric])
    have readable: "readable env dir (from_file name files)" using Cons.prems(1) by (simp add: files)
    have name: "name \<in> set files" using Cons.prems(2) by simp
    have more: "hasMoreFilteredAccessLogs env dir files \<lparr>ac_File = name, ac_OffsetFromEnd = c\<rparr> filters =
        Inr (drop (limit - length items) ?R \<noteq> [])"
      using more_files_spec[OF readable, of filters c] name suffix by (simp add: hasMoreFilteredAccessLogs_def)
    have bound: "limit - length items \<le> length ?R"
      by (simp add: split len[symmetric])
    have result: "page_files env dir files filters limit offset (name # names) items =
        Inr (items', Some \<lparr>ac_File = name, ac_OffsetFromEnd = c\<rparr>, drop (limit - length items) ?R \<noteq> [])"
      by (simp only: page_files.simps lines sum.case Inl full prod.case Let_def more)
    have "page_end env dir files filters (drop (limit - length items) ?R) (limit - length items \<le> length ?R)
        (Some \<lparr>ac_File = name, ac_OffsetFromEnd = c\<rparr>) (drop (limit - length items) ?R \<noteq> [])"
      using name suffix bound k(2) Cons.prems(5) by (simp only: page_end_def option.case accessLogsCursor.select_convs) simp
    then show ?thesis
      unfolding result taken by blast
  qed
qed (simp add: page_end_def ex_bool_eq)


text \<open>A client that asks for page after page, at most \<open>n\<close> of them; \<open>None\<close> if a request fails or the
  pages do not suffice.\<close>

fun pages :: "access_env \<Rightarrow> log_dir option \<Rightarrow> accessLogsFilters \<Rightarrow> int \<Rightarrow> nat \<Rightarrow> accessLogsCursor option \<Rightarrow> access_entry list option" where
  "pages env dir filters limit 0 cursor = None"
| "pages env dir filters limit (Suc n) cursor =
     (case readAccessLogsPage env dir cursor filters limit of
        Inl _ \<Rightarrow> None
      | Inr (items, nextCursor, hasMore) \<Rightarrow>
          if \<not> hasMore then Some items else map_option ((@) items) (pages env dir filters limit n nextCursor))"

lemma listed_distinct:
  assumes "distinct (map fst (the dir))" "listAccessLogFiles env dir = Inr files"
  shows "distinct files"
proof (cases dir)
  case None
  then show ?thesis using assms by (simp add: listAccessLogFiles_def)
next
  case (Some entries)
  have "distinct (map fst (filter P entries))" for P :: "string \<times> log_file \<Rightarrow> bool"
    using assms(1) by (auto simp: Some intro: distinct_map_filter)
  then show ?thesis using assms(2) by (auto simp: Some listAccessLogFiles_def split: if_splits)
qed

lemma from_file_suffix: "name \<in> set files \<Longrightarrow> \<exists>pre. files = pre @ from_file name files"
  unfolding from_file_def by (metis takeWhile_dropWhile_id)

lemma readable_suffix: "readable env dir files \<Longrightarrow> name \<in> set files \<Longrightarrow> readable env dir (from_file name files)"
  by (metis Un_iff from_file_suffix readable_def set_append)

text \<open>The entries from a cursor on.\<close>

definition rest_at :: "access_env \<Rightarrow> log_dir option \<Rightarrow> string list \<Rightarrow> accessLogsFilters \<Rightarrow> accessLogsCursor option \<Rightarrow> access_entry list" where
  "rest_at env dir files filters cursor =
     (case cursor of None \<Rightarrow> entries_from env dir filters 0 files
      | Some c \<Rightarrow> entries_from env dir filters (ac_OffsetFromEnd c) (from_file (ac_File c) files))"

definition cursor_ok :: "string list \<Rightarrow> accessLogsCursor option \<Rightarrow> bool" where
  "cursor_ok files cursor = (case cursor of None \<Rightarrow> True | Some c \<Rightarrow> ac_File c \<in> set files \<and> 0 \<le> ac_OffsetFromEnd c)"

lemma page_spec:
  assumes "distinct (map fst (the dir))" "listAccessLogFiles env dir = Inr files" "readable env dir files" "0 < limit" "cursor_ok files cursor"
  shows "\<exists>nextCursor hasMore. readAccessLogsPage env dir cursor filters limit =
      Inr (take (nat limit) (rest_at env dir files filters cursor), nextCursor, hasMore) \<and>
    (hasMore \<longleftrightarrow> drop (nat limit) (rest_at env dir files filters cursor) \<noteq> []) \<and> cursor_ok files nextCursor \<and>
    (hasMore \<longrightarrow> rest_at env dir files filters nextCursor = drop (nat limit) (rest_at env dir files filters cursor))"
proof (cases "files = []")
  case True
  then show ?thesis
    using assms by (cases cursor) (simp_all add: readAccessLogsPage_def rest_at_def cursor_ok_def, blast)
next
  case False
  note d = listed_distinct[OF assms(1,2)]
  define offset where "offset = (case cursor of None \<Rightarrow> 0 | Some c \<Rightarrow> ac_OffsetFromEnd c)"
  define names where "names = (case cursor of None \<Rightarrow> files | Some c \<Rightarrow> from_file (ac_File c) files)"
  have names: "\<exists>pre. files = pre @ names" "readable env dir names" "0 \<le> offset"
    using assms(3,5) from_file_suffix readable_suffix by (auto simp: names_def offset_def cursor_ok_def split: option.splits)
  then obtain pre where pre: "files = pre @ names" by blast
  have rest: "rest_at env dir files filters cursor = entries_from env dir filters offset names"
    by (simp add: rest_at_def offset_def names_def split: option.split)
  have page: "readAccessLogsPage env dir cursor filters limit = page_files env dir files filters (nat limit) offset names []"
    using assms(2,4,5) False by (cases cursor) (simp_all add: readAccessLogsPage_def offset_def names_def cursor_ok_def)
  obtain nextCursor hasMore where run: "page_files env dir files filters (nat limit) offset names [] =
      Inr (take (nat limit) (entries_from env dir filters offset names), nextCursor, hasMore)"
    "page_end env dir files filters (drop (nat limit) (entries_from env dir filters offset names))
      (nat limit \<le> length (entries_from env dir filters offset names)) nextCursor hasMore"
    using page_files_spec[OF names(2) pre d _ names(3), of "[]" "nat limit" filters] assms(4) by auto
  show ?thesis
    unfolding rest page run(1)
    by (intro exI conjI, rule refl) (use run(2) in \<open>auto simp: page_end_def cursor_ok_def rest_at_def split: option.splits\<close>)
qed

text \<open>C19. While the log does not change, the pages a client gets by following the cursors list every entry
  that matches the filters exactly once, newest first; each page but the last is full, the last one is
  recognised, and one page more than there are entries is always enough.\<close>

theorem pages_list_everything_once:
  assumes "distinct (map fst (the dir))" "listAccessLogFiles env dir = Inr files" "readable env dir files" "0 < limit"
    "length (entries_from env dir filters 0 files) < n"
  shows "pages env dir filters limit n None = Some (entries_from env dir filters 0 files) \<and>
    (\<exists>nextCursor. readAccessLogsPage env dir None filters limit =
       Inr (take (nat limit) (entries_from env dir filters 0 files), nextCursor, int (length (entries_from env dir filters 0 files)) > limit))"
proof -
  have all: "pages env dir filters limit n cursor = Some (rest_at env dir files filters cursor)"
    if "cursor_ok files cursor" "length (rest_at env dir files filters cursor) < n" for cursor n
    using that
  proof (induction n arbitrary: cursor)
    case (Suc n)
    obtain nextCursor hasMore where page: "readAccessLogsPage env dir cursor filters limit =
        Inr (take (nat limit) (rest_at env dir files filters cursor), nextCursor, hasMore)"
      "hasMore \<longleftrightarrow> drop (nat limit) (rest_at env dir files filters cursor) \<noteq> []" "cursor_ok files nextCursor"
      "hasMore \<Longrightarrow> rest_at env dir files filters nextCursor = drop (nat limit) (rest_at env dir files filters cursor)"
      using page_spec[OF assms(1-4) Suc.prems(1)] by blast
    have "pages env dir filters limit n nextCursor = Some (rest_at env dir files filters nextCursor)" if hasMore
      by (rule Suc.IH) (use page that Suc.prems(2) assms(4) in auto)
    then show ?case using page by auto
  qed simp
  have start: "cursor_ok files None" "rest_at env dir files filters None = entries_from env dir filters 0 files"
    by (simp_all add: cursor_ok_def rest_at_def)
  obtain nextCursor hasMore where page: "readAccessLogsPage env dir None filters limit =
      Inr (take (nat limit) (entries_from env dir filters 0 files), nextCursor, hasMore)"
    "hasMore \<longleftrightarrow> drop (nat limit) (entries_from env dir filters 0 files) \<noteq> []"
    using page_spec[OF assms(1-4) start(1), where filters = filters] unfolding start(2) by blast
  have "hasMore \<longleftrightarrow> int (length (entries_from env dir filters 0 files)) > limit"
    using page(2) assms(4) by auto
  then show ?thesis using all[OF start(1)] assms(5) page(1) by (auto simp: start(2))
qed


section \<open>Writing\<close>

record fileAccessLogger =
  fl_retention :: int
  fl_allowed :: "string list"
  fl_currentKey :: string
  fl_current :: "string option"
  fl_broken :: bool

text \<open>What the logger meets: the hour's name, whether files can be opened, closed and listed, after how
  many characters a write fails if it does, the entries that cannot be inspected or removed, the
  encoder, and the order of the header map.\<close>

record logger_env =
  le_now :: int
  le_key :: "int \<Rightarrow> string"
  le_open :: bool
  le_close :: bool
  le_readDir :: bool
  le_info :: "string \<Rightarrow> bool"
  le_remove :: "string \<Rightarrow> bool"
  le_write :: "string \<Rightarrow> nat option"
  le_encode :: "access_entry \<Rightarrow> string option"
  le_order :: "(string \<times> string list) list \<Rightarrow> (string \<times> string list) list"

record AccessLogEvent =
  al_entry :: access_entry
  al_Headers :: "(string \<times> string list) list"

definition allowed_keys :: "string list \<Rightarrow> string list" where
  "allowed_keys keys = filter (\<lambda>k. k \<noteq> []) (map (\<lambda>k. ToLower (TrimSpace k)) keys)"

fun pick_loop :: "string list \<Rightarrow> (string \<times> string list) list \<Rightarrow> string gomap \<Rightarrow> string gomap" where
  "pick_loop allowed [] out = out"
| "pick_loop allowed ((rawKey, values) # headers) out =
     (let key = ToLower (TrimSpace rawKey) in
      if key \<notin> set allowed then pick_loop allowed headers out
      else if values = [] then pick_loop allowed headers out
      else pick_loop allowed headers (AList.update key (Join values '','') out))"

definition pickHeaders :: "logger_env \<Rightarrow> fileAccessLogger \<Rightarrow> (string \<times> string list) list \<Rightarrow> string \<Rightarrow> string gomap" where
  "pickHeaders env l headers host =
     (if fl_allowed l = [] then []
      else
        let out = pick_loop (fl_allowed l) (le_order env headers) [] in
        if out = [] then (if ''host'' \<in> set (fl_allowed l) \<and> host \<noteq> [] then [(''host'', host)] else [])
        else if ''host'' \<in> set (fl_allowed l) \<and> host \<noteq> [] \<and> map_of out ''host'' = None
        then AList.update ''host'' host out
        else out)"

fun cleanup_loop :: "logger_env \<Rightarrow> int \<Rightarrow> string option \<Rightarrow> (string \<times> log_file) list \<Rightarrow> log_dir \<Rightarrow> log_dir" where
  "cleanup_loop env cutoff current [] dir = dir"
| "cleanup_loop env cutoff current ((name, f) # entries) dir =
     (if lf_isDir f then cleanup_loop env cutoff current entries dir
      else if \<not> is_access_log name then cleanup_loop env cutoff current entries dir
      else if current = Some name then cleanup_loop env cutoff current entries dir
      else if \<not> le_info env name then cleanup_loop env cutoff current entries dir
      else if lf_modified f < cutoff \<and> le_remove env name
      then cleanup_loop env cutoff current entries (AList.delete name dir)
      else cleanup_loop env cutoff current entries dir)"

definition cleanupExpired :: "logger_env \<Rightarrow> fileAccessLogger \<Rightarrow> int \<Rightarrow> log_dir \<Rightarrow> log_dir" where
  "cleanupExpired env l now dir =
     (if \<not> le_readDir env then dir else cleanup_loop env (now - fl_retention l) (fl_current l) dir dir)"

definition file_of_hour :: "string \<Rightarrow> string" where
  "file_of_hour key = accessLogFilenamePrefix @ key @ ''.log''"

definition open_append :: "int \<Rightarrow> string \<Rightarrow> log_dir \<Rightarrow> log_dir" where
  "open_append now name dir =
     (case map_of dir name of
        None \<Rightarrow> AList.update name \<lparr>lf_content = [], lf_modified = now, lf_isDir = False\<rparr> dir
      | Some _ \<Rightarrow> dir)"

text \<open>The writer is flushed after every line, so nothing waits in it when the file is changed. A buffered
  writer that met an error answers every later call with it; \<open>fl_broken\<close> says that it did.\<close>

definition rotateIfNeeded :: "logger_env \<Rightarrow> int \<Rightarrow> fileAccessLogger \<Rightarrow> log_dir \<Rightarrow> bool \<times> fileAccessLogger \<times> log_dir" where
  "rotateIfNeeded env now l dir =
     (let key = le_key env now in
      if fl_current l \<noteq> None \<and> fl_currentKey l = key then (True, l, dir)
      else if fl_current l \<noteq> None \<and> (fl_broken l \<or> \<not> le_close env) then (False, l, dir)
      else
        let path = file_of_hour key in
        if \<not> le_open env \<or> (\<exists>f. map_of dir path = Some f \<and> lf_isDir f) then (False, l, dir)
        else
          let l' = l\<lparr>fl_currentKey := key, fl_current := Some path, fl_broken := False\<rparr> in
          (True, l', cleanupExpired env l' now (open_append now path dir)))"

definition append_text :: "int \<Rightarrow> string \<Rightarrow> string \<Rightarrow> log_dir \<Rightarrow> log_dir" where
  "append_text now name text dir =
     (case map_of dir name of
        None \<Rightarrow> dir
      | Some f \<Rightarrow> AList.update name (f\<lparr>lf_content := lf_content f @ text, lf_modified := now\<rparr>) dir)"

definition record_of :: "logger_env \<Rightarrow> fileAccessLogger \<Rightarrow> AccessLogEvent \<Rightarrow> access_entry" where
  "record_of env l event =
     (let e = al_entry event in
      e\<lparr>ae_Timestamp := (if ae_Timestamp e = 0 then le_now env else ae_Timestamp e),
        ae_Headers := pickHeaders env l (al_Headers event) (ae_Host e)\<rparr>)"

definition Log :: "logger_env \<Rightarrow> AccessLogEvent \<Rightarrow> fileAccessLogger \<Rightarrow> log_dir \<Rightarrow> fileAccessLogger \<times> log_dir" where
  "Log env event l dir =
     (case le_encode env (record_of env l event) of
        None \<Rightarrow> (l, dir)
      | Some line \<Rightarrow>
          (case rotateIfNeeded env (le_now env) l dir of
             (opened, l', dir') \<Rightarrow>
               if \<not> opened then (l', dir')
               else case fl_current l' of
                 None \<Rightarrow> (l', dir')
               | Some name \<Rightarrow>
                   if fl_broken l' then (l', dir')
                   else case le_write env (line @ [line_feed]) of
                     None \<Rightarrow> (l', append_text (le_now env) name (line @ [line_feed]) dir')
                   | Some written \<Rightarrow>
                       (l'\<lparr>fl_broken := True\<rparr>, append_text (le_now env) name (take written (line @ [line_feed])) dir')))"

definition Logger_Close :: "logger_env \<Rightarrow> fileAccessLogger \<Rightarrow> bool \<times> fileAccessLogger" where
  "Logger_Close env l =
     (if fl_current l \<noteq> None \<and> fl_broken l then (False, l)
      else if fl_current l \<noteq> None \<and> \<not> le_close env then (False, l)
      else (True, l\<lparr>fl_current := None\<rparr>))"

definition NewFileAccessLogger :: "logger_env \<Rightarrow> string \<Rightarrow> int \<Rightarrow> string list \<Rightarrow> log_dir \<Rightarrow> (fileAccessLogger \<times> log_dir) option" where
  "NewFileAccessLogger env dirName retention keys dir =
     (if TrimSpace dirName = [] then None
      else
        let l = \<lparr>fl_retention = (if retention \<le> 0 then 7 * 24 * 3600 * 1000000000 else retention),
                 fl_allowed = allowed_keys keys, fl_currentKey = [], fl_current = None, fl_broken = False\<rparr> in
        case rotateIfNeeded env (le_now env) l dir of (opened, l', dir') \<Rightarrow> if opened then Some (l', dir') else None)"


section \<open>What the logger does\<close>

definition expired :: "logger_env \<Rightarrow> int \<Rightarrow> string option \<Rightarrow> string \<Rightarrow> log_file \<Rightarrow> bool" where
  "expired env cutoff current name f \<longleftrightarrow> \<not> lf_isDir f \<and> is_access_log name \<and> current \<noteq> Some name \<and> le_info env name \<and>
     lf_modified f < cutoff \<and> le_remove env name"

lemma cleanup_loop_step:
  "cleanup_loop env cutoff current ((name, f) # entries) dir =
     cleanup_loop env cutoff current entries (if expired env cutoff current name f then AList.delete name dir else dir)"
  by (simp add: expired_def)

lemma cleanup_loop_map:
  "map_of (cleanup_loop env cutoff current entries dir) name =
     (if \<exists>f. (name, f) \<in> set entries \<and> expired env cutoff current name f then None else map_of dir name)"
proof (induction entries arbitrary: dir)
  case (Cons x entries)
  obtain n f where x: "x = (n, f)" by (cases x)
  show ?case unfolding x cleanup_loop_step Cons.IH by (auto simp: delete_conv')
qed simp

lemma cleanupExpired_map:
  assumes "distinct (map fst dir)"
  shows "map_of (cleanupExpired env l now dir) name =
    (case map_of dir name of
       None \<Rightarrow> None
     | Some f \<Rightarrow> if le_readDir env \<and> expired env (now - fl_retention l) (fl_current l) name f then None else Some f)"
proof -
  have "(name, f) \<in> set dir \<longleftrightarrow> map_of dir name = Some f" for f using assms by simp
  then show ?thesis by (auto simp: cleanupExpired_def cleanup_loop_map split: option.split simp del: map_of_eq_Some_iff)
qed

lemma cleanup_loop_distinct: "distinct (map fst dir) \<Longrightarrow> distinct (map fst (cleanup_loop env cutoff current entries dir))"
  by (induction entries arbitrary: dir) (auto simp: cleanup_loop_step distinct_delete simp del: cleanup_loop.simps(2))

lemma rotate_cases:
  assumes "rotateIfNeeded env now l dir = (opened, l', dir')" "distinct (map fst dir)"
  shows "(l' = l \<and> dir' = dir \<and> (opened \<longleftrightarrow> fl_current l \<noteq> None \<and> fl_currentKey l = le_key env now)) \<or>
    (opened \<and> fl_current l' = Some (file_of_hour (le_key env now)) \<and> \<not> fl_broken l' \<and> fl_allowed l' = fl_allowed l \<and> fl_retention l' = fl_retention l \<and>
     (fl_current l = None \<or> \<not> fl_broken l) \<and>
     (\<forall>name. map_of dir' name = map_of (cleanupExpired env l' now (open_append now (file_of_hour (le_key env now)) dir)) name) \<and>
     dir' = cleanupExpired env l' now (open_append now (file_of_hour (le_key env now)) dir))"
  using assms by (auto simp: rotateIfNeeded_def Let_def split: if_splits)

lemma open_append_map:
  "map_of (open_append now path dir) name =
     (if name = path \<and> map_of dir path = None then Some \<lparr>lf_content = [], lf_modified = now, lf_isDir = False\<rparr> else map_of dir name)"
  by (auto simp: open_append_def update_conv' split: option.split)

lemma open_append_distinct: "distinct (map fst dir) \<Longrightarrow> distinct (map fst (open_append now path dir))"
  by (auto simp: open_append_def distinct_update split: option.split)

lemma append_text_map:
  "map_of (append_text now path text dir) name =
     (if name = path then map_option (\<lambda>f. f\<lparr>lf_content := lf_content f @ text, lf_modified := now\<rparr>) (map_of dir path) else map_of dir name)"
  by (auto simp: append_text_def update_conv' split: option.split)

lemma pick_loop_allowed:
  "fst ` set out \<subseteq> set allowed \<Longrightarrow> fst ` set (pick_loop allowed headers out) \<subseteq> set allowed"
proof (induction headers arbitrary: out)
  case (Cons h headers)
  obtain k vs where h: "h = (k, vs)" by (cases h)
  show ?case
    using Cons.IH[of out] Cons.IH[of "AList.update (ToLower (TrimSpace k)) (Join vs '','') out"] Cons.prems
    by (simp add: h Let_def dom_update)
qed simp

lemma pickHeaders_allowed: "fst ` set (pickHeaders env l headers host) \<subseteq> set (fl_allowed l)"
  using pick_loop_allowed[of "[]" "fl_allowed l" "le_order env headers"]
  by (auto simp: pickHeaders_def Let_def dom_update split: if_splits)

lemma rotate_map:
  assumes "rotateIfNeeded env now l dir = (opened, l', dir')" "distinct (map fst dir)" "map_of dir name = Some f"
  shows "map_of dir' name = Some f \<or>
    map_of dir' name = None \<and> is_access_log name \<and> \<not> lf_isDir f \<and> lf_modified f < now - fl_retention l' \<and> fl_current l' \<noteq> Some name"
proof -
  have "dir' = dir \<or> fl_retention l' = fl_retention l \<and> dir' = cleanupExpired env l' now (open_append now (file_of_hour (le_key env now)) dir)"
    using rotate_cases[OF assms(1,2)] by blast
  then show ?thesis
    using assms(3) cleanupExpired_map[OF open_append_distinct[OF assms(2)], of env l' now now "file_of_hour (le_key env now)" name]
    by (auto simp: open_append_map expired_def split: if_splits)
qed

text \<open>Logging an event changes the directory in two ways only: the current file of the log gets text
  appended, and access logs other than it that have not been modified within the retention are
  removed. Other files are never touched. And the headers that are written down are among those that
  were allowed.\<close>

theorem log_touches_only_its_files:
  assumes "distinct (map fst dir)" "Log env event l dir = (l', dir')" "map_of dir name = Some f"
  shows "(map_of dir' name = Some f \<or>
    map_of dir' name = None \<and> is_access_log name \<and> \<not> lf_isDir f \<and> lf_modified f < le_now env - fl_retention l \<and> fl_current l' \<noteq> Some name \<or>
    fl_current l' = Some name \<and> (\<exists>text. map_of dir' name = Some (f\<lparr>lf_content := lf_content f @ text, lf_modified := le_now env\<rparr>))) \<and>
    fst ` set (ae_Headers (record_of env l event)) \<subseteq> set (fl_allowed l)"
proof (rule conjI)
  obtain opened l1 dir1 where rot: "rotateIfNeeded env (le_now env) l dir = (opened, l1, dir1)" by (metis prod_cases3)
  have retained: "fl_retention l1 = fl_retention l" using rotate_cases[OF rot assms(1)] by auto
  have "l' = l \<and> dir' = dir \<or> l' = l1 \<and> dir' = dir1 \<or> fl_current l' = fl_current l1 \<and>
      (\<exists>current text. fl_current l1 = Some current \<and> dir' = append_text (le_now env) current text dir1)"
    using assms(2) by (auto simp: Log_def rot split: option.splits if_splits)
  then show "map_of dir' name = Some f \<or>
    map_of dir' name = None \<and> is_access_log name \<and> \<not> lf_isDir f \<and> lf_modified f < le_now env - fl_retention l \<and> fl_current l' \<noteq> Some name \<or>
    fl_current l' = Some name \<and> (\<exists>text. map_of dir' name = Some (f\<lparr>lf_content := lf_content f @ text, lf_modified := le_now env\<rparr>))"
  proof (elim disjE conjE exE)
    assume "l' = l" "dir' = dir"
    then show ?thesis using assms(3) by simp
  next
    assume "l' = l1" "dir' = dir1"
    then show ?thesis using rotate_map[OF rot assms(1,3)] retained by auto
  next
    fix current added
    assume c: "fl_current l' = fl_current l1" "fl_current l1 = Some current" "dir' = append_text (le_now env) current added dir1"
    show ?thesis
      using rotate_map[OF rot assms(1,3)] retained
      by (cases "name = current") (auto simp: c append_text_map)
  qed
qed (simp add: record_of_def Let_def pickHeaders_allowed)

text \<open>After one write has failed nothing is logged any more: the writer keeps its error, which also makes
  the change to a new file fail, hour after hour.\<close>

theorem one_failed_write_stops_the_log:
  assumes "fl_current l = Some name" "\<not> fl_broken l" "fl_currentKey l = le_key env (le_now env)"
    "le_encode env (record_of env l event) = Some line" "le_write env (line @ [line_feed]) = Some n"
    "Log env event l dir = (l1, dir1)"
  shows "Log env' event' l1 dir' = (l1, dir')"
proof -
  have l1: "fl_current l1 = Some name" "fl_broken l1"
    using assms by (auto simp: Log_def rotateIfNeeded_def)
  then show ?thesis
    by (auto simp: Log_def rotateIfNeeded_def Let_def split: option.split)
qed


section \<open>What is logged is listed\<close>

lemma Split_append: "Split (a @ c # b) c = Split a c @ Split b c"
  by (induction a) (auto split: list.splits)

definition complete_lines :: "string \<Rightarrow> bool" where
  "complete_lines content \<longleftrightarrow> content = [] \<or> last content = line_feed"

lemma scan_pieces_snoc:
  assumes "complete_lines content" "line_feed \<notin> set line"
  shows "scan_pieces (content @ line @ [line_feed]) = scan_pieces content @ [line]"
proof -
  have line: "Split (line @ [line_feed]) line_feed = [line, []]"
    using Split_absent[OF assms(2)] by (simp add: Split_append)
  show ?thesis
  proof (cases "content = []")
    case True
    then show ?thesis by (simp add: scan_pieces_def line)
  next
    case False
    then obtain c where c: "content = c @ [line_feed]" using assms(1) by (metis append_butlast_last_id complete_lines_def)
    have "Split (content @ line @ [line_feed]) line_feed = Split c line_feed @ [line, []]" "Split content line_feed = Split c line_feed @ [[]]"
      using Split_absent[OF assms(2)] by (simp_all add: c Split_append)
    then show ?thesis by (simp add: scan_pieces_def butlast_append)
  qed
qed

lemma scan_lines_snoc:
  assumes "complete_lines content" "line_feed \<notin> set line" "length line < 1048576" "scan_lines content = Some lines"
  shows "scan_lines (content @ line @ [line_feed]) = Some (lines @ [drop_cr line])"
  using assms by (auto simp: scan_lines_def scan_pieces_snoc split: if_splits)

text \<open>What the two programs rely on: a record is one line of JSON, an object between braces, and decodes to
  itself.\<close>

definition codec_ok :: "logger_env \<Rightarrow> access_env \<Rightarrow> bool" where
  "codec_ok env xe \<longleftrightarrow> (\<forall>r line. le_encode env r = Some line \<longrightarrow>
     xe_decode xe line = Some r \<and> line_feed \<notin> set line \<and> line \<noteq> [] \<and> hd line = CHR 0x7B \<and> last line = CHR 0x7D)"

definition no_filters :: accessLogsFilters where
  "no_filters = \<lparr>af_Method = [], af_Status = 0, af_Host = [], af_IP = []\<rparr>"

lemma listed_after_append:
  assumes "map_of dir name = Some f"
  shows "listAccessLogFiles xe (Some (append_text now name t dir)) = listAccessLogFiles xe (Some dir)"
proof -
  have "map (\<lambda>(n, g). (n, lf_isDir g)) (append_text now name t dir) = map (\<lambda>(n, g). (n, lf_isDir g)) dir"
    using assms by (induction dir) (auto simp: append_text_def)
  moreover have same: "map fst (filter (\<lambda>(n, g). \<not> lf_isDir g \<and> is_access_log n) d) =
      map fst (filter (\<lambda>(n, b). \<not> b \<and> is_access_log n) (map (\<lambda>(n, g). (n, lf_isDir g)) d))" for d
    by (induction d) auto
  ultimately have "map fst (filter (\<lambda>(n, g). \<not> lf_isDir g \<and> is_access_log n) (append_text now name t dir)) =
      map fst (filter (\<lambda>(n, g). \<not> lf_isDir g \<and> is_access_log n) dir)"
    by (simp only: same)
  then show ?thesis by (simp add: listAccessLogFiles_def)
qed


lemma no_filters_match [simp]: "entryMatchesAccessLogFilters r no_filters"
  by (simp add: entryMatchesAccessLogFilters_def no_filters_def)

lemma Log_appends:
  assumes "le_encode env (record_of env l event) = Some line" "rotateIfNeeded env (le_now env) l dir = (True, l1, dir1)"
    "fl_current l1 = Some name" "\<not> fl_broken l1" "le_write env (line @ [line_feed]) = None"
  shows "Log env event l dir = (l1, append_text (le_now env) name (line @ [line_feed]) dir1)"
  using assms by (simp add: Log_def)


text \<open>A single line that does not fit the reader's buffer makes every page that reaches its file fail, the
  newest file's first page among them.\<close>

theorem long_line_blocks_listing:
  assumes "listAccessLogFiles xe (Some dir) = Inr (name # older)" "map_of dir name = Some f"
    "p \<in> set (scan_pieces (lf_content f))" "1048576 \<le> length p" "0 < limit"
  shows "readAccessLogsPage xe (Some dir) None filters limit = Inl ()"
proof -
  have "scan_lines (lf_content f) = None" using assms(3,4) by (auto simp: scan_lines_def)
  then show ?thesis using assms(1,2,5) by (simp add: readAccessLogsPage_def readLogLines_def)
qed

text \<open>Cursors count lines from the end of a file, so a line logged between two requests shifts them: the
  second page starts with an entry the first one had.\<close>

theorem appended_line_repeats_entry:
  assumes "lines_of xe (Some dir) name = older @ [line]" "lines_of xe (Some dir') name = older @ [line, new]"
    "line_entry xe filters line = Some entry"
  shows "hd (entries_from xe (Some dir) filters 0 [name]) = entry \<and> hd (entries_from xe (Some dir') filters 1 [name]) = entry"
  using assms by (simp add: List.map_filter_simps)


section \<open>Witnesses\<close>

definition entry0 :: access_entry where
  "entry0 = \<lparr>ae_Timestamp = 7, ae_ClientIP = ''10.0.0.1'', ae_Host = ''app.example'', ae_Method = ''GET'', ae_Path = ''/'', ae_Query = [],
     ae_Status = 200, ae_DurationMs = 3, ae_BytesWritten = 10, ae_Outcome = ''ok'', ae_Headers = []\<rparr>"

definition event0 :: AccessLogEvent where "event0 = \<lparr>al_entry = entry0, al_Headers = [(''Authorization'', [''secret''])]\<rparr>"

definition logger0 :: fileAccessLogger where
  "logger0 = \<lparr>fl_retention = 100, fl_allowed = [], fl_currentKey = [], fl_current = None, fl_broken = False\<rparr>"

definition logger1 :: fileAccessLogger where
  "logger1 = \<lparr>fl_retention = 100, fl_allowed = [], fl_currentKey = ''h'', fl_current = Some ''access-h.log'', fl_broken = False\<rparr>"

definition logger_env0 :: logger_env where
  "logger_env0 = \<lparr>le_now = 7, le_key = (\<lambda>_. ''h''), le_open = True, le_close = True, le_readDir = True, le_info = (\<lambda>_. True),
     le_remove = (\<lambda>_. True), le_write = (\<lambda>_. None), le_encode = (\<lambda>r. if r = entry0 then Some ''{entry0}'' else None), le_order = id\<rparr>"

definition access_env0 :: access_env where
  "access_env0 = \<lparr>xe_decode = (\<lambda>line. if line = ''{entry0}'' then Some entry0 else None), xe_readDir = True, xe_open = (\<lambda>_. True),
     xe_cursor = (\<lambda>_. None), xe_encode_cursor = (\<lambda>_. [])\<rparr>"

definition dir0 :: log_dir where
  "dir0 = [(''access-h.log'', \<lparr>lf_content = [], lf_modified = 7, lf_isDir = False\<rparr>)]"

lemma samples:
  "record_of logger_env0 l0 event0 = entry0" if "fl_allowed l0 = []" for l0
  using that by (simp add: record_of_def event0_def entry0_def pickHeaders_def Let_def)

lemma file0: "file_of_hour ''h'' = ''access-h.log''" "is_access_log ''access-h.log''"
  by code_simp+

lemma rotated0: "rotateIfNeeded logger_env0 (le_now logger_env0) logger0 [] = (True, logger1, dir0)"
  by (simp add: rotateIfNeeded_def logger_env0_def logger0_def logger1_def dir0_def file0 open_append_def cleanupExpired_def Let_def)

lemma dir0_reads:
  "listAccessLogFiles access_env0 (Some dir0) = Inr [''access-h.log'']" "readLogLines access_env0 (Some dir0) ''access-h.log'' = Inr []"
  by (simp_all add: listAccessLogFiles_def dir0_def access_env0_def file0 readLogLines_def scan_lines_def scan_pieces_def)


definition content0 :: string where
  "content0 = ''{entry0}'' @ [line_feed] @ ''{entry0}'' @ [line_feed]"

theorem pages_list_everything_once_witness:
  "pages access_env0 (Some (append_text 7 ''access-h.log'' content0 dir0)) no_filters 1 3 None =
     Some [entry0, entry0]"
proof -
  let ?dir = "append_text 7 ''access-h.log'' content0 dir0"
  have f: "map_of dir0 ''access-h.log'' = Some \<lparr>lf_content = [], lf_modified = 7, lf_isDir = False\<rparr>" by (simp add: dir0_def)
  have files: "listAccessLogFiles access_env0 (Some ?dir) = Inr [''access-h.log'']"
    using listed_after_append[OF f] dir0_reads(1) by simp
  have "scan_lines content0 = Some [''{entry0}'', ''{entry0}'']"
    by (simp add: content0_def scan_lines_def scan_pieces_def line_feed_def drop_cr_def)
  then have lines: "readLogLines access_env0 (Some ?dir) ''access-h.log'' = Inr [''{entry0}'', ''{entry0}'']"
    by (simp add: readLogLines_def append_text_map f) (simp add: access_env0_def)
  have r: "readable access_env0 (Some ?dir) [''access-h.log'']" by (simp add: readable_def lines_of_def lines)
  have d: "distinct (map fst (the (Some ?dir)))" by (simp add: append_text_def dir0_def)
  have "TrimSpace ''{entry0}'' = ''{entry0}''" by code_simp
  then have "line_entry access_env0 no_filters ''{entry0}'' = Some entry0"
    by (simp add: line_entry_def) (simp add: access_env0_def)
  then have all: "entries_from access_env0 (Some ?dir) no_filters 0 [''access-h.log''] = [entry0, entry0]"
    by (simp add: lines_of_def lines List.map_filter_simps)
  show ?thesis
    using pages_list_everything_once[OF d files r, of 1 no_filters 3] unfolding all by simp
qed

theorem log_touches_only_its_files_witness:
  "\<exists>dir' l'. Log logger_env0 event0 logger1 ((''access-a.log'', \<lparr>lf_content = [], lf_modified = -500, lf_isDir = False\<rparr>) # dir0) = (l', dir') \<and>
     map_of dir' ''access-a.log'' \<noteq> map_of dir0 ''access-h.log'' \<and> fst ` set (ae_Headers (record_of logger_env0 logger1 event0)) \<subseteq> {}"
proof -
  let ?dir = "(''access-a.log'', \<lparr>lf_content = [], lf_modified = -500, lf_isDir = False\<rparr>) # dir0"
  obtain l' dir' where run: "Log logger_env0 event0 logger1 ?dir = (l', dir')" by fastforce
  have d: "distinct (map fst ?dir)" "map_of ?dir ''access-a.log'' = Some \<lparr>lf_content = [], lf_modified = -500, lf_isDir = False\<rparr>"
    by (simp_all add: dir0_def)
  have cur: "fl_current l' = Some ''access-h.log''"
    using run by (auto simp: Log_def rotateIfNeeded_def logger1_def logger_env0_def split: option.splits)
  have "map_of dir0 ''access-h.log'' = Some \<lparr>lf_content = [], lf_modified = 7, lf_isDir = False\<rparr>" by (simp add: dir0_def)
  then show ?thesis
    using log_touches_only_its_files[OF d(1) run d(2)] run cur by (auto simp: logger1_def)
qed

theorem one_failed_write_stops_the_log_witness:
  "\<exists>l1 dir1. Log (logger_env0\<lparr>le_write := (\<lambda>_. Some 0)\<rparr>) event0 logger1 dir0 = (l1, dir1) \<and>
     Log (logger_env0\<lparr>le_key := (\<lambda>_. ''i'')\<rparr>) event0 l1 dir1 = (l1, dir1)"
proof -
  let ?env = "logger_env0\<lparr>le_write := (\<lambda>_. Some 0)\<rparr>"
  obtain l1 dir1 where run: "Log ?env event0 logger1 dir0 = (l1, dir1)" by fastforce
  have r: "record_of ?env logger1 event0 = entry0"
    by (simp add: record_of_def event0_def entry0_def pickHeaders_def logger1_def Let_def)
  have "fl_current logger1 = Some ''access-h.log''" "\<not> fl_broken logger1" "fl_currentKey logger1 = le_key ?env (le_now ?env)"
    "le_encode ?env (record_of ?env logger1 event0) = Some ''{entry0}''" "le_write ?env (''{entry0}'' @ [line_feed]) = Some 0"
    unfolding r by (simp_all add: logger1_def logger_env0_def)
  from one_failed_write_stops_the_log[OF this run] run show ?thesis by blast
qed

end
