(* ===== verification/RegistryApi.thy ===== *)
theory RegistryApi
  imports Registries Api
begin

text \<open>
  The handlers for registry credentials (\<open>handler_registries.go\<close>) over the store's operations of theory
  \<open>Registries\<close>. A body is decoded or not; the random bytes of a new ID are a parameter.
\<close>

record registryRequest =
  rq_Prefix :: string
  rq_Username :: string
  rq_Password :: string

record registry_env =
  ge_crypto :: crypto
  ge_store :: store_env
  ge_random :: "int list option"

datatype registry_reply = RegistryList "RegistryEntry list" | RegistryReply RegistryEntry | RegistryGone

definition listRegistries :: "registry_env \<Rightarrow> disk \<Rightarrow> (failure + int \<times> registry_reply) \<times> disk" where
  "listRegistries env dk =
     (case JS_ListRegistries (ge_store env) dk of
        Inl _ \<Rightarrow> (Inl (500, Msg ''failed to list registries''), dk)
      | Inr registries \<Rightarrow> (Inr (200, RegistryList registries), dk))"

definition createRegistry :: "registry_env \<Rightarrow> registryRequest option \<Rightarrow> disk \<Rightarrow> (failure + int \<times> registry_reply) \<times> disk" where
  "createRegistry env decoded dk =
     (case decoded of
        None \<Rightarrow> (Inl (400, Msg ''invalid request body''), dk)
      | Some body \<Rightarrow>
          (let prefix = TrimSpace (rq_Prefix body); username = TrimSpace (rq_Username body); password = TrimSpace (rq_Password body) in
           if prefix = [] \<or> username = [] \<or> password = []
           then (Inl (400, Msg ''prefix, username and password are required''), dk)
           else case ge_random env of
             None \<Rightarrow> (Inl (500, Msg ''failed to generate id''), dk)
           | Some raw \<Rightarrow>
               (case JS_CreateRegistry (ge_crypto env) (ge_store env) (newID raw) prefix username password dk of
                  (Inl err, dk') \<Rightarrow>
                    (Inl (if err = ErrDuplicateRegistryPrefix then (409, Msg ''registry prefix already in use'')
                          else (500, Msg ''failed to create registry'')), dk')
                | (Inr created, dk') \<Rightarrow> (Inr (201, RegistryReply created), dk'))))"

definition updateRegistry :: "registry_env \<Rightarrow> string \<Rightarrow> registryRequest option \<Rightarrow> disk \<Rightarrow> (failure + int \<times> registry_reply) \<times> disk" where
  "updateRegistry env pathID decoded dk =
     (let k = TrimSpace pathID in
      if k = [] then (Inl (400, Msg ''registry id is required''), dk)
      else case decoded of
        None \<Rightarrow> (Inl (400, Msg ''invalid request body''), dk)
      | Some body \<Rightarrow>
          (let prefix = TrimSpace (rq_Prefix body); username = TrimSpace (rq_Username body) in
           if prefix = [] \<or> username = [] then (Inl (400, Msg ''prefix and username are required''), dk)
           else case JS_UpdateRegistry (ge_crypto env) (ge_store env) k prefix username (TrimSpace (rq_Password body)) dk of
             (Inl err, dk') \<Rightarrow>
               (Inl (if err = ErrRegistryNotFound then (404, Msg ''registry not found'')
                     else if err = ErrDuplicateRegistryPrefix then (409, Msg ''registry prefix already in use'')
                     else (500, Msg ''failed to update registry'')), dk')
           | (Inr updated, dk') \<Rightarrow> (Inr (200, RegistryReply updated), dk')))"

definition deleteRegistry :: "registry_env \<Rightarrow> string \<Rightarrow> disk \<Rightarrow> (failure + int \<times> registry_reply) \<times> disk" where
  "deleteRegistry env pathID dk =
     (let k = TrimSpace pathID in
      if k = [] then (Inl (400, Msg ''registry id is required''), dk)
      else case JS_DeleteRegistry (ge_store env) k dk of
        (Inl err, dk') \<Rightarrow>
          (Inl (if err = ErrRegistryNotFound then (404, Msg ''registry not found'') else (500, Msg ''failed to delete registry'')), dk')
      | (Inr _, dk') \<Rightarrow> (Inr (204, RegistryGone), dk'))"

datatype registry_request = ListReg | CreateReg "registryRequest option" | UpdateReg string "registryRequest option" | DeleteReg string

definition serve_registry :: "registry_env \<Rightarrow> registry_request \<Rightarrow> disk \<Rightarrow> (failure + int \<times> registry_reply) \<times> disk" where
  "serve_registry env req =
     (case req of
        ListReg \<Rightarrow> listRegistries env
      | CreateReg body \<Rightarrow> createRegistry env body
      | UpdateReg k body \<Rightarrow> updateRegistry env k body
      | DeleteReg k \<Rightarrow> deleteRegistry env k)"


section \<open>Lemmas\<close>

lemmas registry_handler_defs = listRegistries_def createRegistry_def updateRegistry_def deleteRegistry_def

text \<open>The random bytes of a request give no ID that a stored registry has.\<close>

definition fresh_id :: "registry_env \<Rightarrow> registry_request \<Rightarrow> disk \<Rightarrow> bool" where
  "fresh_id env req dk \<longleftrightarrow>
     (case req of
        CreateReg _ \<Rightarrow> (case ge_random env of None \<Rightarrow> True | Some raw \<Rightarrow> newID raw \<notin> r_ID ` set (registry_view dk))
      | _ \<Rightarrow> True)"

text \<open>Every request either leaves the disk or runs one operation of the store, which decides whether it fails.\<close>

lemma serve_registry_cases:
  assumes "serve_registry env req dk = (r, dk')"
  obtains (same) "dk' = dk"
  | (create) raw p u w res where "ge_random env = Some raw" and "req \<noteq> ListReg" and "\<exists>body. req = CreateReg body"
      and "JS_CreateRegistry (ge_crypto env) (ge_store env) (newID raw) p u w dk = (res, dk')" and "isl r = isl res"
  | (update) k p u w res where "JS_UpdateRegistry (ge_crypto env) (ge_store env) k p u w dk = (res, dk')" and "isl r = isl res"
  | (delete) k res where "JS_DeleteRegistry (ge_store env) k dk = (res, dk')" and "isl r = isl res"
  using assms
  by (cases req)
    (auto simp: serve_registry_def registry_handler_defs Let_def split: option.splits if_splits sum.splits prod.splits)

lemma serve_registry_step:
  assumes "serve_registry env req dk = (r, dk')" and "fresh_id env req dk"
    and "store_inv dk" and "registry_inv (registry_view dk)"
  shows "store_inv dk' \<and> registry_inv (registry_view dk') \<and> store_view dk' = store_view dk \<and>
    (isl r \<longrightarrow> registry_view dk' = registry_view dk)"
  using assms(1)
proof (cases rule: serve_registry_cases)
  case same
  with assms show ?thesis by simp
next
  case (create raw p u w res)
  with assms(2) have new: "newID raw \<notin> r_ID ` set (registry_view dk)" by (auto simp: fresh_id_def)
  from registry_ops_keep_invariant[OF assms(3,4) disjI1[OF conjI[OF new create(4)[symmetric]]]] create(5)
  show ?thesis by (cases res) auto
next
  case (update k p u w res)
  from registry_ops_keep_invariant[OF assms(3,4) disjI2[OF disjI1[OF update(1)[symmetric]]]] update(2)
  show ?thesis by (cases res) auto
next
  case (delete k res)
  have "map_sum id (\<lambda>_. ()) (map_sum id (\<lambda>_. undefined :: RegistryEntry) res) = res" by (cases res) simp_all
  then have "(map_sum id (\<lambda>_. ()) (map_sum id (\<lambda>_. undefined :: RegistryEntry) res), dk') = JS_DeleteRegistry (ge_store env) k dk"
    using delete(1) by simp
  from registry_ops_keep_invariant[OF assms(3,4) disjI2[OF disjI2[OF this]]] delete(2)
  show ?thesis by (cases res) auto
qed

text \<open>The disks that requests lead to from a first one.\<close>

inductive registry_reach :: "disk \<Rightarrow> disk \<Rightarrow> bool" for dk0 where
  registry_start: "registry_reach dk0 dk0"
| registry_request: "registry_reach dk0 dk \<Longrightarrow> fresh_id env req dk \<Longrightarrow> serve_registry env req dk = (r, dk') \<Longrightarrow>
    registry_reach dk0 dk'"

section \<open>Properties\<close>

text \<open>
  C21. Whatever requests for registries are served, by handlers with any faults of the disk and as long as new IDs are
  fresh: the file stays well formed, no two registries share a prefix or an ID, the deployments are those of the start,
  and a request that is answered with an error has left the registries as they were.
\<close>

theorem registry_requests_keep_store:
  assumes "store_inv dk0" and "registry_inv (registry_view dk0)" and "registry_reach dk0 dk"
  shows "store_inv dk \<and> registry_inv (registry_view dk) \<and> store_view dk = store_view dk0 \<and>
    (\<forall>env req f dk'. fresh_id env req dk \<longrightarrow> serve_registry env req dk = (Inl f, dk') \<longrightarrow>
       registry_view dk' = registry_view dk)"
proof -
  from assms(3) have "store_inv dk \<and> registry_inv (registry_view dk) \<and> store_view dk = store_view dk0"
  proof induction
    case registry_start
    show ?case using assms(1,2) by simp
  next
    case (registry_request dk env req r dk')
    with serve_registry_step[of env req dk r dk'] show ?case by simp
  qed
  with serve_registry_step show ?thesis by fastforce
qed

definition registry_env0 :: "nat \<Rightarrow> registry_env" where
  "registry_env0 i = \<lparr>ge_crypto = crypto0, ge_store = env0, ge_random = Some (replicate 16 (int i))\<rparr>"

definition registry_request0 :: registryRequest where
  "registry_request0 = \<lparr>rq_Prefix = '' https://registry.io/ '', rq_Username = ''bob '', rq_Password = '' s3cret''\<rparr>"

theorem registry_requests_keep_store_witness:
  "registry_inv (registry_view (snd (serve_registry (registry_env0 1) (CreateReg (Some registry_request0)) disk1))) \<and>
   store_view (snd (serve_registry (registry_env0 1) (CreateReg (Some registry_request0)) disk1)) = store_view disk1"
proof -
  let ?s = "serve_registry (registry_env0 1) (CreateReg (Some registry_request0)) disk1"
  have v: "registry_view disk1 = []" by code_simp
  then have "registry_inv (registry_view disk1)" "fresh_id (registry_env0 1) (CreateReg (Some registry_request0)) disk1"
    by (simp_all add: registry_inv_def fresh_id_def registry_env0_def)
  moreover from this(2) have "registry_reach disk1 (snd ?s)"
    by (rule registry_request[OF registry_start]) (rule prod.collapse[symmetric])
  ultimately show ?thesis using registry_requests_keep_store[OF disk1_inv] by blast
qed

text \<open>
  C22. From the form to the engine: after a registry was created, an image below its prefix, of which no other registry
  has a longer one, is pulled with the user name and the password of the request, both trimmed, and the answer names
  the registry but holds no password.
\<close>

theorem created_registry_resolves:
  assumes "crypto_ok (ge_crypto env)" and "faultless (ge_store env)" and "faultless e" and "store_inv dk"
    and "createRegistry env (Some body) dk = (Inr (code, reply), dk')"
    and "registryMatchesImage (normalizeRegistryPrefix (TrimSpace (rq_Prefix body))) (normalizeImageRef ref)"
    and "\<forall>q \<in> set (registry_view dk). registryMatchesImage (r_Prefix q) (normalizeImageRef ref) \<longrightarrow>
      length (r_Prefix q) < length (normalizeRegistryPrefix (TrimSpace (rq_Prefix body)))"
  shows "JS_ResolveRegistryAuth (ge_crypto env) e ref dk' =
      Inr (Some \<lparr>ra_Username = TrimSpace (rq_Username body), ra_Password = TrimSpace (rq_Password body)\<rparr>) \<and>
    code = 201 \<and> (\<exists>raw. ge_random env = Some raw \<and> reply = RegistryReply \<lparr>re_ID = newID raw,
      re_Prefix = normalizeRegistryPrefix (TrimSpace (rq_Prefix body)), re_Username = TrimSpace (rq_Username body)\<rparr>)"
proof -
  from assms(5) obtain raw en where raw: "ge_random env = Some raw" and reply: "code = 201" "reply = RegistryReply en"
    and create: "JS_CreateRegistry (ge_crypto env) (ge_store env) (newID raw) (TrimSpace (rq_Prefix body))
      (TrimSpace (rq_Username body)) (TrimSpace (rq_Password body)) dk = (Inr en, dk')"
    by (auto simp: createRegistry_def Let_def split: if_splits option.splits prod.splits sum.splits)
  from create assms(4) have en: "en = \<lparr>re_ID = newID raw, re_Prefix = normalizeRegistryPrefix (TrimSpace (rq_Prefix body)),
      re_Username = TrimSpace (TrimSpace (rq_Username body))\<rparr>"
    by (rule JS_CreateRegistry_Inr)
  have "JS_ResolveRegistryAuth (ge_crypto env) (ge_store env) ref dk' = Inr (Some \<lparr>ra_Username = TrimSpace (TrimSpace (rq_Username body)),
      ra_Password = TrimSpace (TrimSpace (rq_Password body))\<rparr>)"
    by (rule registry_resolve_roundtrip[OF assms(1,2,4) create]) (use assms(6,7) en in simp_all)
  moreover have "JS_ResolveRegistryAuth (ge_crypto env) e ref dk' = JS_ResolveRegistryAuth (ge_crypto env) (ge_store env) ref dk'"
    using assms(2,3) by (simp add: JS_ResolveRegistryAuth_def Let_def withRLock_def faultless_def)
  ultimately show ?thesis using raw reply en by simp
qed

theorem created_registry_resolves_witness:
  "JS_ResolveRegistryAuth crypto0 env0 ''Registry.io/App:1''
     (snd (createRegistry (registry_env0 1) (Some registry_request0) disk1)) =
   Inr (Some \<lparr>ra_Username = ''bob'', ra_Password = ''s3cret''\<rparr>)"
proof -
  let ?c = "createRegistry (registry_env0 1) (Some registry_request0) disk1"
  have "\<not> isl (fst ?c)" by code_simp
  then obtain code reply where "fst ?c = Inr (code, reply)" by (cases "fst ?c") auto
  then have c: "?c = (Inr (code, reply), snd ?c)" by (metis prod.collapse)
  have m: "registryMatchesImage (normalizeRegistryPrefix (TrimSpace (rq_Prefix registry_request0))) (normalizeImageRef ''Registry.io/App:1'')"
    by code_simp
  have v: "registry_view disk1 = []" by code_simp
  have e: "ge_crypto (registry_env0 1) = crypto0" "ge_store (registry_env0 1) = env0" by (simp_all add: registry_env0_def)
  from created_registry_resolves[OF _ _ env0_ok(2) disk1_inv c m] v e crypto0_ok env0_ok(2)
  have "JS_ResolveRegistryAuth crypto0 env0 ''Registry.io/App:1'' (snd ?c) =
    Inr (Some \<lparr>ra_Username = TrimSpace (rq_Username registry_request0), ra_Password = TrimSpace (rq_Password registry_request0)\<rparr>)" by simp
  moreover have "TrimSpace (rq_Username registry_request0) = ''bob''" "TrimSpace (rq_Password registry_request0) = ''s3cret''"
    by code_simp+
  ultimately show ?thesis by simp
qed

end
