(* ===== verification/Telemetry.thy ===== *)
theory Telemetry
  imports Docker Status Net Text
begin

text \<open>
  What the orchestrator measures and reports: the host's metrics (\<open>hostmetrics.go\<close>) and identity
  (\<open>hostinfo.go\<close>), the statistics of containers (\<open>docker.go\<close>), the client of the API
  (\<open>apiclient/client.go\<close>), and the loop that sends a heartbeat and then reconciles
  (\<open>cmd/orchestrator/main.go\<close>).

  Counters and sizes are 64-bit words, whose differences wrap around as in the code; a percentage, a
  \<open>float64\<close> of the code, is the rational number that it rounds. Files, the network and the engine are
  read at fixed points of a tick; what each reading gives is a field of the tick's environment. The
  payload that reaches the API's handler is \<open>wire\<close> of the request: members marked \<open>omitempty\<close> are absent
  when they are zero.
\<close>

section \<open>Metrics of the host\<close>

record cpuSample =
  cp_total :: "64 word"
  cp_idle :: "64 word"

datatype metrics_error = ReadStat | ReadMemInfo | MissingCPUFields | BadCPUField | BadIdle | CPULineNotFound | BadMemTotal | BadMemAvailable

fun sum_fields :: "string list \<Rightarrow> 64 word \<Rightarrow> (64 word) option" where
  "sum_fields [] totalv = Some totalv"
| "sum_fields (f # fs) totalv = (case ParseUint64 f of None \<Rightarrow> None | Some v \<Rightarrow> sum_fields fs (totalv + v))"

definition cpu_line_sample :: "string \<Rightarrow> metrics_error + cpuSample" where
  "cpu_line_sample line =
     (let fields = Fields line in
      if length fields < 5 then Inl MissingCPUFields
      else case sum_fields (tl fields) 0 of
        None \<Rightarrow> Inl BadCPUField
      | Some totalv \<Rightarrow>
          (case ParseUint64 (fields ! 4) of
             None \<Rightarrow> Inl BadIdle
           | Some idle \<Rightarrow>
               Inr \<lparr>cp_total = totalv,
                    cp_idle = (if length fields > 5
                               then (case ParseUint64 (fields ! 5) of None \<Rightarrow> idle | Some iowait \<Rightarrow> idle + iowait)
                               else idle)\<rparr>))"

definition parseCPUSample :: "string \<Rightarrow> metrics_error + cpuSample" where
  "parseCPUSample raw =
     (case find (\<lambda>line. HasPrefix line ''cpu '') (Split raw line_feed) of
        None \<Rightarrow> Inl CPULineNotFound
      | Some line \<Rightarrow> cpu_line_sample line)"

text \<open>The state of a collector is the last sample. A reading is the text of the file, or absent when it
  cannot be read; the result is an error, no value, or a percentage.\<close>

definition CPUUsagePercent :: "string option \<Rightarrow> cpuSample option \<Rightarrow> (metrics_error + rat option) \<times> cpuSample option" where
  "CPUUsagePercent reading prevCPU =
     (case reading of
        None \<Rightarrow> (Inl ReadStat, prevCPU)
      | Some raw \<Rightarrow>
          (case parseCPUSample raw of
             Inl err \<Rightarrow> (Inl err, prevCPU)
           | Inr sample \<Rightarrow>
               (case prevCPU of
                  None \<Rightarrow> (Inr None, Some sample)
                | Some prev \<Rightarrow>
                    (let deltaTotal = cp_total sample - cp_total prev;
                         deltaIdle = cp_idle sample - cp_idle prev in
                     if deltaTotal = 0 \<or> deltaIdle > deltaTotal then (Inr None, Some sample)
                     else
                       let usage = 100 * (1 - of_nat (unat deltaIdle) / of_nat (unat deltaTotal));
                           usage = (if usage < 0 then 0 else usage);
                           usage = (if usage > 100 then 100 else usage) in
                       (Inr (Some usage), Some sample)))))"

fun parse_mem_lines :: "string list \<Rightarrow> 64 word \<times> 64 word \<Rightarrow> metrics_error + 64 word \<times> 64 word" where
  "parse_mem_lines [] acc = Inr acc"
| "parse_mem_lines (line # lines) (totalv, available) =
     (let fields = Fields line in
      if length fields < 2 then parse_mem_lines lines (totalv, available)
      else if fields ! 0 = ''MemTotal:''
      then (case ParseUint64 (fields ! 1) of None \<Rightarrow> Inl BadMemTotal | Some v \<Rightarrow> parse_mem_lines lines (v, available))
      else if fields ! 0 = ''MemAvailable:''
      then (case ParseUint64 (fields ! 1) of None \<Rightarrow> Inl BadMemAvailable | Some v \<Rightarrow> parse_mem_lines lines (totalv, v))
      else parse_mem_lines lines (totalv, available))"

definition parseMemInfo :: "string \<Rightarrow> metrics_error + 64 word \<times> 64 word \<times> bool" where
  "parseMemInfo raw =
     (case parse_mem_lines (Split raw line_feed) (0, 0) of
        Inl err \<Rightarrow> Inl err
      | Inr (totalv, available) \<Rightarrow> Inr (totalv, available, \<not> (totalv = 0 \<or> available = 0)))"

definition RAMUsagePercent :: "string option \<Rightarrow> metrics_error + rat option" where
  "RAMUsagePercent reading =
     (case reading of
        None \<Rightarrow> Inl ReadMemInfo
      | Some raw \<Rightarrow>
          (case parseMemInfo raw of
             Inl err \<Rightarrow> Inl err
           | Inr (totalv, available, found) \<Rightarrow>
               if \<not> found \<or> totalv = 0 \<or> available > totalv then Inr None
               else
                 let used = totalv - available;
                     usage = of_nat (unat used) / of_nat (unat totalv) * 100;
                     usage = (if usage < 0 then 0 else usage);
                     usage = (if usage > 100 then 100 else usage) in
                 Inr (Some usage)))"

section \<open>Statistics of containers\<close>

record RuntimeStats =
  rt_CPUPercent :: rat
  rt_MemoryUsedBytes :: "64 word"
  rt_MemoryLimitBytes :: "64 word"
  rt_MemoryPercent :: rat

record cpu_stats =
  cu_TotalUsage :: "64 word"
  cu_SystemUsage :: "64 word"
  cu_OnlineCPUs :: "32 word"

record memory_stats =
  my_Usage :: "64 word"
  my_Limit :: "64 word"
  my_Stats :: "(64 word) gomap"

definition calculateCPUPercent :: "cpu_stats \<Rightarrow> cpu_stats \<Rightarrow> rat" where
  "calculateCPUPercent current previous =
     (let cpuDelta = sint (cu_TotalUsage current - cu_TotalUsage previous);
          systemDelta = sint (cu_SystemUsage current - cu_SystemUsage previous) in
      if cpuDelta \<le> 0 \<or> systemDelta \<le> 0 then 0
      else
        let onlineCPUs = (if cu_OnlineCPUs current = 0 then 1 else cu_OnlineCPUs current) in
        of_int cpuDelta / of_int systemDelta * of_nat (unat onlineCPUs) * 100)"

definition stat_of :: "(64 word) gomap \<Rightarrow> string \<Rightarrow> 64 word" where
  "stat_of stats key = (case map_of stats key of None \<Rightarrow> 0 | Some v \<Rightarrow> v)"

definition calculateMemoryUsedBytes :: "64 word \<Rightarrow> (64 word) gomap \<Rightarrow> 64 word" where
  "calculateMemoryUsedBytes usage stats =
     (if usage = 0 then 0
      else
        let cache = stat_of stats ''total_inactive_file'';
            cache = (if cache = 0 then stat_of stats ''inactive_file'' else cache) in
        if usage > cache then usage - cache else usage)"

definition calculateMemoryPercent :: "64 word \<Rightarrow> 64 word \<Rightarrow> (64 word) gomap \<Rightarrow> rat" where
  "calculateMemoryPercent usage limit stats =
     (if limit = 0 then 0
      else of_nat (unat (calculateMemoryUsedBytes usage stats)) / of_nat (unat limit) * 100)"

text \<open>A body that decodes is its three parts.\<close>

type_synonym stats_body = "cpu_stats \<times> cpu_stats \<times> memory_stats"

definition decodeContainerStats :: "stats_body option \<Rightarrow> RuntimeStats option" where
  "decodeContainerStats body =
     (case body of
        None \<Rightarrow> None
      | Some (cpu, precpu, memory) \<Rightarrow>
          Some \<lparr>rt_CPUPercent = calculateCPUPercent cpu precpu,
                rt_MemoryUsedBytes = calculateMemoryUsedBytes (my_Usage memory) (my_Stats memory),
                rt_MemoryLimitBytes = my_Limit memory,
                rt_MemoryPercent = calculateMemoryPercent (my_Usage memory) (my_Limit memory) (my_Stats memory)\<rparr>)"

text \<open>One goroutine per container asks for its statistics; they finish in any order, which is
  \<open>arrival\<close>. A failing request or body is skipped.\<close>

record stats_env =
  sv_list :: "client_error + container_summary list"
  sv_stats :: "string \<Rightarrow> stats_body option option"
  sv_arrival :: "(string \<times> RuntimeStats) list \<Rightarrow> (string \<times> RuntimeStats) list"

definition container_result :: "stats_env \<Rightarrow> container_summary \<Rightarrow> (string \<times> RuntimeStats) option" where
  "container_result env c =
     (let deploymentID = TrimSpace (case map_of (su_Labels c) ''lotsen.id'' of None \<Rightarrow> [] | Some v \<Rightarrow> v) in
      if deploymentID = [] then None
      else case sv_stats env (su_ID c) of
        None \<Rightarrow> None
      | Some body \<Rightarrow> map_option (Pair deploymentID) (decodeContainerStats body))"

definition CollectStats :: "stats_env \<Rightarrow> string + RuntimeStats gomap" where
  "CollectStats env =
     (case sv_list env of
        Inl e \<Rightarrow> Inl (if \<not> ce_context e then unavailable e else ''docker: list running containers: '' @ ce_text e)
      | Inr containers \<Rightarrow>
          Inr (fold (\<lambda>(deploymentID, stats). AList.update deploymentID stats)
                 (sv_arrival env (List.map_filter (container_result env) containers)) []))"

section \<open>The host's identity\<close>

record HostMetadata =
  md_IPAddress :: string
  md_OSName :: string
  md_OSVersion :: string
  md_CPUCores :: int
  md_MemoryBytes :: "64 word"
  md_DiskBytes :: "64 word"

text \<open>The local address of the socket, the contents of the two files, and the blocks and block size of the
  root file system; each is absent when its call fails.\<close>

record host_readings =
  hr_NumCPU :: int
  hr_localAddr :: "IP option"
  hr_osRelease :: "string option"
  hr_meminfo :: "string option"
  hr_statfs :: "(64 word \<times> 64 word) option"

definition ipv4_text :: "IP \<Rightarrow> string" where
  "ipv4_text ip = Join (map (\<lambda>b. nat_str (uint b)) ip) ''.''"

definition primaryIPv4 :: "IP option \<Rightarrow> string" where
  "primaryIPv4 addr = (case addr of None \<Rightarrow> [] | Some ip \<Rightarrow> (case To4 ip of None \<Rightarrow> [] | Some ip4 \<Rightarrow> ipv4_text ip4))"

definition TrimQuotes :: "string \<Rightarrow> string" where
  "TrimQuotes s = rev (dropWhile (\<lambda>c. c = CHR 0x22) (rev (dropWhile (\<lambda>c. c = CHR 0x22) s)))"

definition os_line :: "string \<Rightarrow> string \<times> string \<times> string \<Rightarrow> string \<times> string \<times> string" where
  "os_line raw = (\<lambda>(name, version, prettyName).
     let line = TrimSpace raw in
     if line = [] \<or> HasPrefix line ''#'' then (name, version, prettyName)
     else case Cut line (CHR ''='') of
       (key, v, found) \<Rightarrow>
         if \<not> found then (name, version, prettyName)
         else let content = TrimQuotes v in
           if key = ''PRETTY_NAME'' then (name, version, content)
           else if key = ''NAME'' then (content, version, prettyName)
           else if key = ''VERSION_ID'' then (name, content, prettyName)
           else (name, version, prettyName))"

definition osIdentity :: "string option \<Rightarrow> string \<times> string" where
  "osIdentity file =
     (case file of
        None \<Rightarrow> ([], [])
      | Some content \<Rightarrow>
          (case fold os_line (fst (scanned MaxScanTokenSize content)) ([], [], []) of
             (name, version, prettyName) \<Rightarrow> if prettyName \<noteq> [] then (prettyName, version) else (name, version)))"

fun mem_total_kib :: "string list \<Rightarrow> (64 word) option" where
  "mem_total_kib [] = None"
| "mem_total_kib (line # lines) =
     (let fields = Fields line in
      if length fields < 2 \<or> fields ! 0 \<noteq> ''MemTotal:'' then mem_total_kib lines else ParseUint64 (fields ! 1))"

definition totalMemoryBytes :: "string option \<Rightarrow> (64 word) option" where
  "totalMemoryBytes file =
     (case file of None \<Rightarrow> None | Some content \<Rightarrow> map_option (\<lambda>kib. kib * 1024) (mem_total_kib (Split content line_feed)))"

definition totalDiskBytes :: "(64 word \<times> 64 word) option \<Rightarrow> (64 word) option" where
  "totalDiskBytes = map_option (\<lambda>(blocks, bsize). blocks * bsize)"

definition or_empty :: "(64 word) option \<Rightarrow> 64 word" where
  "or_empty v = (case v of None \<Rightarrow> 0 | Some w \<Rightarrow> w)"

definition Collect :: "host_readings \<Rightarrow> HostMetadata" where
  "Collect hr =
     (case osIdentity (hr_osRelease hr) of
        (name, version) \<Rightarrow>
          \<lparr>md_IPAddress = primaryIPv4 (hr_localAddr hr), md_OSName = name, md_OSVersion = version,
           md_CPUCores = hr_NumCPU hr, md_MemoryBytes = or_empty (totalMemoryBytes (hr_meminfo hr)),
           md_DiskBytes = or_empty (totalDiskBytes (hr_statfs hr))\<rparr>)"

section \<open>The client of the API\<close>

record HeartbeatLoadBalancerTraffic =
  ht_TotalRequests :: int
  ht_SuspiciousRequests :: int
  ht_BlockedRequests :: int
  ht_WAFBlockedRequests :: int
  ht_UABlockedRequests :: int
  ht_ActiveBlockedIPs :: int
  ht_BlockedIPs :: "(string \<times> int option) list"

record heartbeatRequest =
  qh_At :: int
  qh_StoreAccessible :: bool
  qh_DockerReachable :: bool
  qh_Responding :: bool
  qh_Traffic :: "HeartbeatLoadBalancerTraffic option"
  qh_Host :: "(rat option \<times> rat option \<times> HostMetadata option) option"
  qh_ContainerStats :: "RuntimeStats gomap"

definition buildHeartbeatHostState :: "rat option \<Rightarrow> rat option \<Rightarrow> HostMetadata option
    \<Rightarrow> (rat option \<times> rat option \<times> HostMetadata option) option" where
  "buildHeartbeatHostState cpu ram metadata =
     (if cpu = None \<and> ram = None \<and> metadata = None then None else Some (cpu, ram, metadata))"

datatype client_failure_kind = BuildRequest | SendFailed | UnexpectedResponse int

text \<open>A client is the base URL, whether requests can be built for it, and a transport over the state of the
  server: a call fails, or is answered with a status.\<close>

record ('b, 's) api_client =
  cl_baseURL :: string
  cl_buildable :: "string \<Rightarrow> bool"
  cl_do :: "string \<Rightarrow> string \<Rightarrow> 'b \<Rightarrow> 's \<Rightarrow> (unit + int) \<times> 's"

definition call :: "('b, 's) api_client \<Rightarrow> string \<Rightarrow> string \<Rightarrow> 'b \<Rightarrow> int \<Rightarrow> 's \<Rightarrow> client_failure_kind option \<times> 's" where
  "call c verb url body expected s =
     (if \<not> cl_buildable c url then (Some BuildRequest, s)
      else case cl_do c verb url body s of
        (Inl _, s') \<Rightarrow> (Some SendFailed, s')
      | (Inr code, s') \<Rightarrow> ((if code \<noteq> expected then Some (UnexpectedResponse code) else None), s'))"

text \<open>The body of a status update: status, reason and error, of which the API reads absent members as empty.\<close>

definition NotifyStatus :: "(string \<times> string \<times> string, 's) api_client \<Rightarrow> string \<Rightarrow> Status \<Rightarrow> StatusReason \<Rightarrow> string
    \<Rightarrow> 's \<Rightarrow> client_failure_kind option \<times> 's" where
  "NotifyStatus c k status reason errorMessage =
     call c ''PATCH'' (cl_baseURL c @ ''/api/deployments/'' @ k @ ''/status'') (status, reason, errorMessage) 200"

definition omit_zero :: "'a :: zero \<Rightarrow> 'a option" where
  "omit_zero v = (if v = 0 then None else Some v)"

definition wire_traffic :: "HeartbeatLoadBalancerTraffic \<Rightarrow> traffic_payload" where
  "wire_traffic t =
     \<lparr>tq_TotalRequests = Some (ht_TotalRequests t), tq_SuspiciousRequests = Some (ht_SuspiciousRequests t),
      tq_BlockedRequests = Some (ht_BlockedRequests t), tq_WAFBlockedRequests = Some (ht_WAFBlockedRequests t),
      tq_UABlockedRequests = Some (ht_UABlockedRequests t), tq_ActiveBlockedIPs = Some (ht_ActiveBlockedIPs t),
      tq_BlockedIPs = map (\<lambda>(ip, until). \<lparr>bq_IP = ip, bq_BlockedUntil = until\<rparr>) (ht_BlockedIPs t)\<rparr>"

definition wire_metadata :: "HostMetadata \<Rightarrow> metadata_payload" where
  "wire_metadata m =
     \<lparr>iq_IPAddress = md_IPAddress m, iq_OSName = md_OSName m, iq_OSVersion = md_OSVersion m,
      iq_Specs = Some \<lparr>sq_CPUCores = omit_zero (md_CPUCores m), sq_MemoryBytes = omit_zero (unat (md_MemoryBytes m)),
        sq_DiskBytes = omit_zero (unat (md_DiskBytes m))\<rparr>\<rparr>"

definition wire_metric :: "int \<Rightarrow> rat \<Rightarrow> metric_payload" where
  "wire_metric t usage = \<lparr>mq_UsagePercent = Some usage, mq_CheckedAt = Some t\<rparr>"

definition wire_stats :: "RuntimeStats \<Rightarrow> stats_payload" where
  "wire_stats st =
     \<lparr>xq_CPUPercent = Some (rt_CPUPercent st), xq_MemoryUsedBytes = Some (unat (rt_MemoryUsedBytes st)),
      xq_MemoryLimitBytes = Some (unat (rt_MemoryLimitBytes st)), xq_MemoryPercent = Some (rt_MemoryPercent st)\<rparr>"

definition wire :: "heartbeatRequest \<Rightarrow> heartbeat_payload" where
  "wire q =
     \<lparr>hb_At = Some (qh_At q),
      hb_Orchestrator = Some (Some (qh_StoreAccessible q)),
      hb_Docker = Some \<lparr>kq_Reachable = Some (qh_DockerReachable q), kq_CheckedAt = Some (qh_At q)\<rparr>,
      hb_LoadBalancer = Some \<lparr>lq_Responding = Some (qh_Responding q), lq_CheckedAt = Some (qh_At q),
        lq_Traffic = map_option wire_traffic (qh_Traffic q)\<rparr>,
      hb_Host = map_option (\<lambda>(cpu, ram, metadata). \<lparr>hq_CPU = map_option (wire_metric (qh_At q)) cpu,
        hq_RAM = map_option (wire_metric (qh_At q)) ram, hq_Metadata = map_option wire_metadata metadata\<rparr>) (qh_Host q),
      hb_ContainerStats = Some (map (\<lambda>(k, st). (k, wire_stats st)) (qh_ContainerStats q))\<rparr>"

text \<open>The time is replaced by the clock's when it is zero; the traffic and the statistics are copied.\<close>

definition NotifyHeartbeat :: "(heartbeat_payload, 's) api_client \<Rightarrow> int \<Rightarrow> bool \<Rightarrow> bool \<Rightarrow> HeartbeatLoadBalancerTraffic option
    \<Rightarrow> bool \<Rightarrow> int \<Rightarrow> rat option \<Rightarrow> rat option \<Rightarrow> HostMetadata option \<Rightarrow> RuntimeStats gomap \<Rightarrow> 's \<Rightarrow> client_failure_kind option \<times> 's" where
  "NotifyHeartbeat c now dockerReachable responding traffic storeAccessible checkedAt cpu ram metadata stats =
     (let checkedAt = (if checkedAt = 0 then now else checkedAt) in
      call c ''POST'' (cl_baseURL c @ ''/api/system-status/orchestrator-heartbeat'')
        (wire \<lparr>qh_At = checkedAt, qh_StoreAccessible = storeAccessible, qh_DockerReachable = dockerReachable,
           qh_Responding = responding, qh_Traffic = traffic, qh_Host = buildHeartbeatHostState cpu ram metadata,
           qh_ContainerStats = stats\<rparr>) 204)"

section \<open>A tick of the orchestrator\<close>

text \<open>A probe of the proxy fails or is answered with a status; the body of its traffic may not decode.\<close>

definition probeProxyHealth :: "unit + int \<Rightarrow> bool" where
  "probeProxyHealth answer = (case answer of Inl _ \<Rightarrow> False | Inr code \<Rightarrow> code = 200)"

definition probeProxyTraffic :: "unit + int \<times> HeartbeatLoadBalancerTraffic option \<Rightarrow> HeartbeatLoadBalancerTraffic option" where
  "probeProxyTraffic answer =
     (case answer of
        Inl _ \<Rightarrow> None
      | Inr (code, body) \<Rightarrow>
          if code \<noteq> 200 then None
          else map_option (\<lambda>t. t\<lparr>ht_BlockedIPs := filter (\<lambda>(ip, _). ip \<noteq> []) (ht_BlockedIPs t)\<rparr>) body)"

record tick_env =
  te_now :: int
  te_host :: host_readings
  te_ping :: "client_error option"
  te_stats :: stats_env
  te_list :: "store_error + Deployment list"
  te_health :: "unit + int"
  te_traffic :: "unit + int \<times> HeartbeatLoadBalancerTraffic option"
  te_stat :: "string option"
  te_meminfo :: "string option"
  te_clock :: int
  te_reconcile :: int

record ('p, 's, 'w) agent =
  ag_cpu :: "cpuSample option"
  ag_api :: 'p
  ag_world :: "('s, 'w) world"

definition usage_of :: "metrics_error + rat option \<Rightarrow> rat option" where
  "usage_of r = (case r of Inl _ \<Rightarrow> None | Inr u \<Rightarrow> u)"

definition tick_stats :: "tick_env \<Rightarrow> RuntimeStats gomap" where
  "tick_stats env =
     (if te_ping env \<noteq> None then []
      else case CollectStats (te_stats env) of Inl _ \<Rightarrow> [] | Inr statsByDeployment \<Rightarrow> statsByDeployment)"

definition tick :: "(heartbeat_payload, 'p) api_client \<Rightarrow> ('s, 'w) deps \<Rightarrow> tick_env \<Rightarrow> ('p, 's, 'w) agent
    \<Rightarrow> client_failure_kind option \<times> reconcile_error option \<times> ('p, 's, 'w) agent" where
  "tick c dp env a =
     (let containerStats = tick_stats env;
          (cpu, prevCPU) = CPUUsagePercent (te_stat env) (ag_cpu a);
          (sent, api) = NotifyHeartbeat c (te_clock env) (te_ping env = None) (probeProxyHealth (te_health env))
            (probeProxyTraffic (te_traffic env)) (\<not> isl (te_list env)) (te_now env) (usage_of cpu)
            (usage_of (RAMUsagePercent (te_meminfo env))) (Some (Collect (te_host env))) containerStats (ag_api a);
          (reconciled, w) = Reconcile dp (te_reconcile env) (ag_world a) in
      (sent, reconciled, \<lparr>ag_cpu = prevCPU, ag_api = api, ag_world = w\<rparr>))"


section \<open>Metrics are what they say\<close>

text \<open>The first line of \<open>/proc/stat\<close> for counters \<open>cs\<close>: user, nice, system, idle, iowait and so on.\<close>

definition stat_text :: "nat list \<Rightarrow> string \<Rightarrow> string" where
  "stat_text cs rest = ''cpu  '' @ Join (map (\<lambda>n. nat_str (int n)) cs) [CHR 0x20] @ line_feed # rest"

definition idle_count :: "nat list \<Rightarrow> nat" where
  "idle_count cs = cs ! 3 + (if length cs > 4 then cs ! 4 else 0)"

lemma numbers_no_line_feed: "line_feed \<notin> set (Join (map (\<lambda>n. nat_str (int n)) cs) [CHR 0x20])"
proof
  assume "line_feed \<in> set (Join (map (\<lambda>n. nat_str (int n)) cs) [CHR 0x20])"
  then obtain n where "n \<in> set cs" "line_feed \<in> set (nat_str (int n))"
    using Join_set[of "map (\<lambda>n. nat_str (int n)) cs" "[CHR 0x20]"] by (auto simp: line_feed_def)
  then show False using nat_str_digits[of "int n"] by (auto simp: list_all_iff is_digit_def line_feed_def byte_def)
qed

lemma sum_fields_numbers:
  "\<forall>c \<in> set cs. c < 2 ^ 64 \<Longrightarrow> sum_fields (map (\<lambda>n. nat_str (int n)) cs) acc = Some (acc + of_nat (sum_list cs))"
  by (induction cs arbitrary: acc) (simp_all add: ParseUint64_nat_str)

lemma Fields_cpu_line:
  "Fields (''cpu  '' @ Join (map (\<lambda>n. nat_str (int n)) cs) [CHR 0x20]) = ''cpu'' # map (\<lambda>n. nat_str (int n)) cs"
proof -
  have g: "list_all graphic ''cpu''" by code_simp
  have "fields_from [] (''cpu'' @ CHR 0x20 # CHR 0x20 # s) = ''cpu'' # fields_from [] s" for s
    unfolding fields_from_graphic[OF g] fields_from_blank append_Nil by (simp add: word_done_def)
  moreover have "fields_from [] (Join (map (\<lambda>n. nat_str (int n)) cs) [CHR 0x20]) = map (\<lambda>n. nat_str (int n)) cs"
    using Fields_Join[of "map (\<lambda>n. nat_str (int n)) cs"] by (simp add: Fields_def plain_word_nat_str)
  ultimately show ?thesis by (simp add: Fields_def)
qed

lemma parse_stat_text:
  assumes "4 \<le> length cs" "\<forall>c \<in> set cs. c < 2 ^ 64"
  shows "parseCPUSample (stat_text cs rest) =
    Inr \<lparr>cp_total = of_nat (sum_list cs), cp_idle = of_nat (idle_count cs)\<rparr>"
proof -
  let ?line = "''cpu  '' @ Join (map (\<lambda>n. nat_str (int n)) cs) [CHR 0x20]"
  have "line_feed \<notin> set ?line" using numbers_no_line_feed by (simp add: line_feed_def)
  then have "Split (stat_text cs rest) line_feed = ?line # Split rest line_feed"
    using Split_present[of line_feed ?line rest] by (simp add: stat_text_def)
  moreover have "HasPrefix ?line ''cpu ''" by (simp add: HasPrefix_def)
  ultimately have "parseCPUSample (stat_text cs rest) = cpu_line_sample ?line"
    by (simp add: parseCPUSample_def)
  moreover have "cpu_line_sample ?line = Inr \<lparr>cp_total = of_nat (sum_list cs), cp_idle = of_nat (idle_count cs)\<rparr>"
  proof -
    obtain a b c d r where cs: "cs = a # b # c # d # r"
      using assms(1) by (auto simp: Suc_le_length_iff eval_nat_numeral)
    note sum = sum_fields_numbers[OF assms(2), of 0]
    have "ParseUint64 (nat_str (int n)) = Some (of_nat n)" if "n \<in> set cs" for n
      using that assms(2) by (simp add: ParseUint64_nat_str)
    then show ?thesis
      unfolding cpu_line_sample_def Fields_cpu_line list.sel sum Let_def
      by (cases r) (simp_all add: cs idle_count_def)
  qed
  ultimately show ?thesis by simp
qed

lemma word_difference:
  assumes "m \<le> n" "n - m < 2 ^ 64"
  shows "unat (of_nat n - of_nat m :: 64 word) = n - m"
  using assms by (simp add: unat_of_nat take_bit_nat_eq_self flip: of_nat_diff)

lemma usage_in_range:
  "fst (CPUUsagePercent reading prev) = Inr (Some u) \<Longrightarrow> 0 \<le> u \<and> u \<le> 100"
  "RAMUsagePercent reading = Inr (Some u) \<Longrightarrow> 0 \<le> u \<and> u \<le> 100"
  by (auto simp: CPUUsagePercent_def RAMUsagePercent_def Let_def split: option.splits sum.splits if_splits prod.splits)

text \<open>
  C40. The CPU usage is the share of the time between two readings that was not spent idle or waiting, in percent,
  for counters of any size: the sums may wrap around their 64 bits as long as their growth fits. It lies between
  0 and 100, as does every other percentage the collector reports.
\<close>

theorem cpu_usage_of_counters:
  assumes "4 \<le> length cs" "\<forall>c \<in> set cs. c < 2 ^ 64" "4 \<le> length cs'" "\<forall>c \<in> set cs'. c < 2 ^ 64"
    and "sum_list cs < sum_list cs'" "sum_list cs' - sum_list cs < 2 ^ 64"
    and "idle_count cs \<le> idle_count cs'" "idle_count cs' - idle_count cs \<le> sum_list cs' - sum_list cs"
  shows "fst (CPUUsagePercent (Some (stat_text cs' rest')) (snd (CPUUsagePercent (Some (stat_text cs rest)) prev))) =
      Inr (Some (100 * (1 - of_nat (idle_count cs' - idle_count cs) / of_nat (sum_list cs' - sum_list cs)))) \<and>
    (\<forall>reading p u. fst (CPUUsagePercent reading p) = Inr (Some u) \<or> RAMUsagePercent reading = Inr (Some u) \<longrightarrow> 0 \<le> u \<and> u \<le> 100)"
proof -
  let ?I = "idle_count cs' - idle_count cs" and ?D = "sum_list cs' - sum_list cs"
  have first: "snd (CPUUsagePercent (Some (stat_text cs rest)) prev) =
      Some \<lparr>cp_total = of_nat (sum_list cs), cp_idle = of_nat (idle_count cs)\<rparr>"
    by (simp add: CPUUsagePercent_def parse_stat_text[OF assms(1,2)] Let_def split: option.split)
  have d: "unat (of_nat (sum_list cs') - of_nat (sum_list cs) :: 64 word) = ?D"
    by (rule word_difference) (use assms in auto)
  have i: "unat (of_nat (idle_count cs') - of_nat (idle_count cs) :: 64 word) = ?I"
    by (rule word_difference) (use assms in auto)
  have "of_nat (sum_list cs') - of_nat (sum_list cs) \<noteq> (0 :: 64 word)"
    using d assms(5) by (metis unat_0 zero_less_diff less_numeral_extra(3))
  moreover have "\<not> of_nat (idle_count cs') - of_nat (idle_count cs) > (of_nat (sum_list cs') - of_nat (sum_list cs) :: 64 word)"
    using d i assms(8) by (simp add: word_less_nat_alt)
  moreover have "(of_nat ?I :: rat) / of_nat ?D \<le> 1" "\<not> 100 * (of_nat ?I :: rat) / of_nat ?D < 0"
    using assms(5,8) by (simp_all add: divide_le_eq not_less)
  ultimately have "fst (CPUUsagePercent (Some (stat_text cs' rest')) (snd (CPUUsagePercent (Some (stat_text cs rest)) prev))) =
      Inr (Some (100 * (1 - of_nat ?I / of_nat ?D)))"
    unfolding first by (simp add: CPUUsagePercent_def parse_stat_text[OF assms(3,4)] Let_def d i)
  then show ?thesis using usage_in_range by blast
qed

theorem cpu_usage_of_counters_witness:
  "fst (CPUUsagePercent (Some (stat_text [20, 0, 10, 150, 20] []))
     (snd (CPUUsagePercent (Some (stat_text [10, 0, 0, 80, 10] [])) None))) = Inr (Some 20)"
  using conjunct1[OF cpu_usage_of_counters[of "[10, 0, 0, 80, 10]" "[20, 0, 10, 150, 20]" "[]" "[]" None]]
  by (simp add: idle_count_def)


section \<open>Statistics are what they say\<close>

lemma memory_used_le: "calculateMemoryUsedBytes usage stats \<le> usage"
  by (auto simp: calculateMemoryUsedBytes_def Let_def word_sub_le)

lemma ratio_nonneg: "0 \<le> (of_nat a / of_nat b * 100 :: rat)"
  by simp

lemma ratio_le: "a \<le> b \<Longrightarrow> (of_nat a / of_nat b * 100 :: rat) \<le> 100"
  by (cases "b = 0") (simp_all add: divide_le_eq)

lemma memory_percent_nonneg: "0 \<le> calculateMemoryPercent usage limit stats"
  unfolding calculateMemoryPercent_def by (simp only: ratio_nonneg order_refl split: if_split) blast

lemma memory_percent_le:
  assumes "usage \<le> limit"
  shows "calculateMemoryPercent usage limit stats \<le> 100"
proof -
  have "unat (calculateMemoryUsedBytes usage stats) \<le> unat limit"
    using memory_used_le[of usage stats] assms by (simp add: word_le_nat_alt)
  from ratio_le[OF this] show ?thesis unfolding calculateMemoryPercent_def by (cases "limit = 0") (simp_all only: if_True if_False, simp)
qed

lemma cpu_percent_nonneg: "0 \<le> calculateCPUPercent current previous"
proof -
  have "0 \<le> (of_int a / of_int b * of_nat n * 100 :: rat)" if "0 \<le> a" "0 \<le> b" for a b :: int and n :: nat
    using that by simp
  note pos = this
  show ?thesis
  proof (cases "sint (cu_TotalUsage current - cu_TotalUsage previous) \<le> 0 \<or> sint (cu_SystemUsage current - cu_SystemUsage previous) \<le> 0")
    case True
    then show ?thesis unfolding calculateCPUPercent_def Let_def by (simp only: if_True order_refl)
  next
    case False
    then have "0 \<le> sint (cu_TotalUsage current - cu_TotalUsage previous)" "0 \<le> sint (cu_SystemUsage current - cu_SystemUsage previous)" by auto
    from pos[OF this] False show ?thesis unfolding calculateCPUPercent_def Let_def by (simp only: if_False)
  qed
qed

definition runtime_ok :: "RuntimeStats \<Rightarrow> bool" where
  "runtime_ok st \<longleftrightarrow> rt_MemoryPercent st \<le> 100"

lemma decoded_stats:
  assumes "decodeContainerStats body = Some st"
  shows "0 \<le> rt_CPUPercent st" "0 \<le> rt_MemoryPercent st"
    "(\<And>cpu precpu memory. body = Some (cpu, precpu, memory) \<Longrightarrow> my_Usage memory \<le> my_Limit memory) \<Longrightarrow> runtime_ok st"
  using assms
  by (auto simp: decodeContainerStats_def cpu_percent_nonneg memory_percent_nonneg runtime_ok_def memory_percent_le
      split: option.splits)

lemma fold_update_from:
  "map_of (fold (\<lambda>(k, x). AList.update k x) xs m) k = Some v \<Longrightarrow> (k, v) \<in> set xs \<or> map_of m k = Some v"
  by (induction xs arbitrary: m) (fastforce simp: update_conv' split: if_splits)+

lemma fold_update_distinct:
  "distinct (map fst m) \<Longrightarrow> distinct (map fst (fold (\<lambda>(k, x). AList.update k x) xs m))"
  by (induction xs arbitrary: m) (auto simp: distinct_update)

text \<open>Every statistic that is collected comes from a running container of its deployment.\<close>

lemma CollectStats_from:
  assumes "CollectStats env = Inr m" "range_order (sv_arrival env)" "map_of m k = Some st"
  obtains containers c where "sv_list env = Inr containers" "c \<in> set containers" "container_result env c = Some (k, st)"
proof -
  from assms(1) obtain containers where l: "sv_list env = Inr containers"
    and m: "m = fold (\<lambda>(k, x). AList.update k x) (sv_arrival env (List.map_filter (container_result env) containers)) []"
    by (auto simp: CollectStats_def split: sum.splits)
  have "set (sv_arrival env xs) = set xs" for xs
    using assms(2) by (metis range_order_def set_mset_mset)
  moreover have "(k, st) \<in> set (sv_arrival env (List.map_filter (container_result env) containers))"
    using fold_update_from assms(3) m by fastforce
  ultimately have "(k, st) \<in> set (List.map_filter (container_result env) containers)" by simp
  then obtain c where "c \<in> set containers" "container_result env c = Some (k, st)"
    by (auto simp: List.map_filter_def)
  with l show thesis by (rule that)
qed

lemma CollectStats_nonneg:
  assumes "CollectStats env = Inr m" "range_order (sv_arrival env)" "map_of m k = Some st"
  shows "0 \<le> rt_CPUPercent st" "0 \<le> rt_MemoryPercent st"
proof -
  obtain containers c where "container_result env c = Some (k, st)"
    by (rule CollectStats_from[OF assms])
  then obtain body where "decodeContainerStats body = Some st"
    by (auto simp: container_result_def Let_def split: option.splits if_splits)
  then show "0 \<le> rt_CPUPercent st" "0 \<le> rt_MemoryPercent st" by (rule decoded_stats)+
qed

lemma CollectStats_distinct: "CollectStats env = Inr m \<Longrightarrow> distinct (map fst m)"
  by (auto simp: CollectStats_def fold_update_distinct split: sum.splits)


section \<open>From a tick to the status that is shown\<close>

text \<open>The API's handler as the server behind the client.\<close>

definition api_do :: "'p heartbeat_env \<Rightarrow> string \<Rightarrow> string \<Rightarrow> heartbeat_payload \<Rightarrow> 'p status_world
    \<Rightarrow> (unit + int) \<times> 'p status_world" where
  "api_do env verb url body s =
     (case recordOrchestratorHeartbeat env (Some body) s of
        (Inl (code, _), s') \<Rightarrow> (Inr code, s')
      | (Inr code, s') \<Rightarrow> (Inr code, s'))"

text \<open>What the status shows for what was measured.\<close>

definition shown_metadata :: "HostMetadata \<Rightarrow> HostMetadataSystemStatus" where
  "shown_metadata m =
     \<lparr>hm_IPAddress = md_IPAddress m, hm_OSName = md_OSName m, hm_OSVersion = md_OSVersion m,
      hm_Specs = \<lparr>sp_CPUCores = md_CPUCores m, sp_MemoryBytes = unat (md_MemoryBytes m), sp_DiskBytes = unat (md_DiskBytes m)\<rparr>\<rparr>"

definition shown_traffic :: "HeartbeatLoadBalancerTraffic \<Rightarrow> LoadBalancerTrafficSystemStatus" where
  "shown_traffic t =
     \<lparr>lt_TotalRequests = ht_TotalRequests t, lt_SuspiciousRequests = ht_SuspiciousRequests t,
      lt_BlockedRequests = ht_BlockedRequests t, lt_WAFBlockedRequests = ht_WAFBlockedRequests t,
      lt_UABlockedRequests = ht_UABlockedRequests t, lt_ActiveBlockedIPs = ht_ActiveBlockedIPs t,
      lt_BlockedIPs = map (\<lambda>(ip, until). \<lparr>bi_IP = ip, bi_BlockedUntil = until\<rparr>) (filter (\<lambda>(ip, _). ip \<noteq> []) (ht_BlockedIPs t))\<rparr>"

definition shown_stats :: "RuntimeStats \<Rightarrow> ContainerStats" where
  "shown_stats st =
     \<lparr>cs_CPUPercent = rt_CPUPercent st, cs_MemoryUsedBytes = unat (rt_MemoryUsedBytes st),
      cs_MemoryLimitBytes = unat (rt_MemoryLimitBytes st), cs_MemoryPercent = rt_MemoryPercent st\<rparr>"

definition good :: "bool \<Rightarrow> SystemStatusState" where
  "good b = (if b then SystemStatusStateHealthy else SystemStatusStateDegraded)"

lemma or_zero_omit_zero: "or_zero (omit_zero v) = v"
  by (simp add: or_zero_def omit_zero_def)

lemma or_zero_Some: "or_zero (Some v) = v"
  by (simp add: or_zero_def)

lemma metadata_of_wire: "metadata_of (wire_metadata m) = shown_metadata m"
  by (simp add: metadata_of_def wire_metadata_def shown_metadata_def or_zero_omit_zero)

lemma traffic_of_wire: "buildLoadBalancerTraffic (map_option wire_traffic t) = map_option shown_traffic t"
proof -
  have "filter (\<lambda>b. bq_IP b \<noteq> []) (map (\<lambda>(ip, until). \<lparr>bq_IP = ip, bq_BlockedUntil = until\<rparr>) bs) =
      map (\<lambda>(ip, until). \<lparr>bq_IP = ip, bq_BlockedUntil = until\<rparr>) (filter (\<lambda>(ip, _). ip \<noteq> []) bs)" for bs
    by (induction bs) auto
  then show ?thesis
    by (cases t) (simp_all add: buildLoadBalancerTraffic_def wire_traffic_def shown_traffic_def or_zero_Some o_def case_prod_unfold)
qed

lemma container_stats_wire:
  "0 \<le> rt_CPUPercent st \<Longrightarrow> 0 \<le> rt_MemoryPercent st \<Longrightarrow>
     container_stats (wire_stats st) = (if runtime_ok st then Some (shown_stats st) else None)"
  by (auto simp: container_stats_def wire_stats_def shown_stats_def runtime_ok_def isValidUsagePercent_def or_zero_Some)

text \<open>Statistics convert one by one; one that does not is enough to reject all.\<close>

lemma stats_by_deployment_Some:
  assumes "\<And>k p. (k, p) \<in> set ps \<Longrightarrow> container_stats p = Some (f p)" "distinct (map fst ps)"
  shows "\<exists>m. stats_by_deployment ps acc = Some m \<and>
    (\<forall>k. map_of m k = (case map_of ps k of None \<Rightarrow> map_of acc k | Some p \<Rightarrow> Some (f p)))"
  using assms
proof (induction ps arbitrary: acc)
  case (Cons x ps)
  obtain k p where x: "x = (k, p)" by (cases x)
  have "container_stats p = Some (f p)" using Cons.prems(1)[of k p] x by simp
  moreover obtain m where "stats_by_deployment ps (AList.update k (f p) acc) = Some m"
    "\<forall>j. map_of m j = (case map_of ps j of None \<Rightarrow> map_of (AList.update k (f p) acc) j | Some p \<Rightarrow> Some (f p))"
    using Cons.IH[of "AList.update k (f p) acc"] Cons.prems by auto
  moreover have "map_of ps k = None" using Cons.prems(2) x by (auto simp: map_of_eq_None_iff)
  ultimately show ?case by (auto simp: x update_conv' split: option.split)
qed simp

lemma stats_by_deployment_None:
  "(k, p) \<in> set ps \<Longrightarrow> container_stats p = None \<Longrightarrow> stats_by_deployment ps acc = None"
  by (induction ps acc rule: stats_by_deployment.induct) (auto split: option.splits)

lemma wired_stats:
  assumes "\<And>k st. (k, st) \<in> set stats \<Longrightarrow> 0 \<le> rt_CPUPercent st \<and> 0 \<le> rt_MemoryPercent st \<and> runtime_ok st"
    and "distinct (map fst stats)" "range_order order"
  obtains m where "stats_by_deployment (order (map (\<lambda>(k, st). (k, wire_stats st)) stats)) [] = Some m"
    "\<And>k. map_of m k = map_option shown_stats (map_of stats k)"
proof -
  let ?ps = "map (\<lambda>(k, st). (k, wire_stats st)) stats"
  define f where "f = (\<lambda>p. the (container_stats p))"
  have fw: "f (wire_stats st) = shown_stats st \<and> container_stats (wire_stats st) = Some (f (wire_stats st))" if "(k, st) \<in> set stats" for k st
    using assms(1)[OF that] by (simp add: f_def container_stats_wire)
  have d: "distinct (map fst ?ps)" using assms(2) by (simp add: o_def case_prod_unfold)
  then have d': "distinct (map fst (order ?ps))"
    using range_order_distinct_keys[OF assms(3), of fst] by blast
  have lookup: "map_of (order ?ps) = map_of ?ps"
    by (rule map_of_range_order[OF assms(3) d])
  have conv: "container_stats p = Some (f p)" if "(k, p) \<in> set (order ?ps)" for k p
  proof -
    from that have "(k, p) \<in> set ?ps" by (simp only: range_order_set[OF assms(3)])
    then obtain st where "(k, st) \<in> set stats" "p = wire_stats st" by auto
    then show ?thesis using fw by blast
  qed
  have "\<exists>m. stats_by_deployment (order ?ps) [] = Some m \<and>
      (\<forall>k. map_of m k = (case map_of (order ?ps) k of None \<Rightarrow> map_of [] k | Some p \<Rightarrow> Some (f p)))"
    by (rule stats_by_deployment_Some) (use conv d' in auto)
  then obtain m where m: "stats_by_deployment (order ?ps) [] = Some m"
    "\<And>k. map_of m k = (case map_of ?ps k of None \<Rightarrow> None | Some p \<Rightarrow> Some (f p))" unfolding lookup by (auto cong: option.case_cong)
  moreover have "map_of ?ps k = map_option wire_stats (map_of stats k)" for k
    by (induction stats) auto
  ultimately have "map_of m k = map_option shown_stats (map_of stats k)" for k
    using fw by (auto split: option.split dest: map_of_SomeD)
  with m(1) show thesis by (rule that)
qed


text \<open>With valid percentages of the host, a heartbeat is recorded up to the statistics.\<close>

definition valid_host :: "heartbeatRequest \<Rightarrow> bool" where
  "valid_host q \<longleftrightarrow>
     (\<forall>cpu ram m. qh_Host q = Some (cpu, ram, m) \<longrightarrow>
        (\<forall>u. cpu = Some u \<or> ram = Some u \<longrightarrow> isValidUsagePercent u))"

lemma bind_pass: "m s = (Inr x, s') \<Longrightarrow> bind m f s = f x s'"
  by (simp add: bind_def)

lemma metric_recorded:
  assumes "metric = None \<or> (\<exists>u. metric = Some u \<and> isValidUsagePercent u)" "\<And>u t p. f u t p = (Inr (), record_signal pe (mk u t) p)"
  shows "record_metric (Some f) msg t (map_option (wire_metric at') metric) s =
    (Inr (), s\<lparr>sw_provider := fold (record_signal pe) (metric_signals mk t (map_option (wire_metric at') metric)) (sw_provider s)\<rparr>)"
  using assms
  by (auto simp: record_metric_def metric_signals_def wire_metric_def present_def bind_def require_def records_def ok_def split: option.split)

lemma host_recorded:
  assumes "valid_host q"
  shows "record_host (default_ingestors pe) t (hb_Host (wire q)) s =
    (Inr (), s\<lparr>sw_provider := fold (record_signal pe) (host_signals t (hb_Host (wire q))) (sw_provider s)\<rparr>)"
proof (cases "qh_Host q")
  case None
  then show ?thesis by (simp add: record_host_def host_signals_def wire_def ok_def)
next
  case (Some h)
  obtain cpu ram m where h: "h = (cpu, ram, m)" by (cases h) auto
  have v: "cpu = None \<or> (\<exists>u. cpu = Some u \<and> isValidUsagePercent u)" "ram = None \<or> (\<exists>u. ram = Some u \<and> isValidUsagePercent u)"
    using assms by (auto simp: valid_host_def Some h)
  note metrics = metric_recorded[OF v(1), where f = "\<lambda>usage t p. (Inr (), RecordCPUUtilization pe usage t p)" and mk = CPUSignal and pe = pe]
    metric_recorded[OF v(2), where f = "\<lambda>usage t p. (Inr (), RecordRAMUtilization pe usage t p)" and mk = RAMSignal and pe = pe]
  show ?thesis
    using metrics
    by (cases m) (simp_all add: record_host_def host_signals_def wire_def Some h default_ingestors_def present_def records_def ok_def bind_def)
qed

lemma heartbeat_run:
  assumes "he_ingestors env = default_ingestors pe" "valid_host q"
  shows "recordOrchestratorHeartbeat env (Some (wire q)) s =
    finish_heartbeat env (wire q) (s\<lparr>sw_provider := fold (record_signal pe) (signals_of (wire q)) (sw_provider s)\<rparr>)"
proof -
  have d: "record_docker (default_ingestors pe) (qh_At q) (hb_Docker (wire q)) s =
      (Inr (), s\<lparr>sw_provider := fold (record_signal pe) (docker_signals (qh_At q) (hb_Docker (wire q))) (sw_provider s)\<rparr>)"
    "record_load_balancer (default_ingestors pe) (qh_At q) (hb_LoadBalancer (wire q)) s =
      (Inr (), s\<lparr>sw_provider := fold (record_signal pe) (load_balancer_signals (qh_At q) (hb_LoadBalancer (wire q))) (sw_provider s)\<rparr>)"
    for s :: "defaultSystemStatusProvider status_world"
    by (simp_all add: record_docker_def docker_signals_def record_load_balancer_def load_balancer_signals_def wire_def
        default_ingestors_def present_def records_def)
  have w: "hb_At (wire q) = Some (qh_At q)" "hb_Orchestrator (wire q) = Some (Some (qh_StoreAccessible q))"
    by (simp_all add: wire_def)
  show ?thesis
    unfolding recordOrchestratorHeartbeat_def assms(1) default_heartbeats option.case w Let_def bind_records
    by (simp add: bind_pass[OF d(1)] bind_pass[OF d(2)] bind_pass[OF host_recorded[OF assms(2)]] finish_heartbeat_def
        signals_of_def w Let_def assms(1))
qed


definition measured :: "tick_env \<Rightarrow> cpuSample option \<Rightarrow> heartbeatRequest" where
  "measured env prevCPU =
     \<lparr>qh_At = te_now env, qh_StoreAccessible = \<not> isl (te_list env), qh_DockerReachable = (te_ping env = None),
      qh_Responding = probeProxyHealth (te_health env), qh_Traffic = probeProxyTraffic (te_traffic env),
      qh_Host = Some (usage_of (fst (CPUUsagePercent (te_stat env) prevCPU)), usage_of (RAMUsagePercent (te_meminfo env)),
        Some (Collect (te_host env))),
      qh_ContainerStats = tick_stats env\<rparr>"

lemma measured_valid: "valid_host (measured env prevCPU)"
  using usage_in_range
  by (auto simp: valid_host_def measured_def isValidUsagePercent_def usage_of_def split: sum.splits)

lemma tick_stats_nonneg:
  assumes "range_order (sv_arrival (te_stats env))" "(k, st) \<in> set (tick_stats env)"
  shows "0 \<le> rt_CPUPercent st \<and> 0 \<le> rt_MemoryPercent st"
proof -
  from assms(2) obtain m where m: "CollectStats (te_stats env) = Inr m" "tick_stats env = m"
    by (cases "te_ping env"; cases "CollectStats (te_stats env)") (auto simp: tick_stats_def)
  then have "map_of m k = Some st" using assms(2) CollectStats_distinct by simp
  with CollectStats_nonneg[OF m(1) assms(1)] show ?thesis by simp
qed

lemma tick_stats_distinct: "distinct (map fst (tick_stats env))"
  by (auto simp: tick_stats_def CollectStats_distinct split: sum.split)

lemma tick_sends:
  assumes "te_now env \<noteq> 0" "cl_buildable c (cl_baseURL c @ ''/api/system-status/orchestrator-heartbeat'')"
    and "cl_do c = api_do henv" "tick c dp env a = (sent, reconciled, a')"
    and "recordOrchestratorHeartbeat henv (Some (wire (measured env (ag_cpu a)))) (ag_api a) = (r, s')"
  shows "ag_api a' = s'"
    and "sent = (case r of Inl (code, _) \<Rightarrow> if code \<noteq> 204 then Some (UnexpectedResponse code) else None
      | Inr code \<Rightarrow> if code \<noteq> 204 then Some (UnexpectedResponse code) else None)"
  using assms
  by (auto simp: tick_def Let_def NotifyHeartbeat_def call_def api_do_def measured_def buildHeartbeatHostState_def
      split: prod.splits sum.splits if_splits)

lemma finish_accepted:
  assumes "he_ingestors henv = default_ingestors pe" "sw_containerStats s \<noteq> None"
    and "hb_ContainerStats body = Some payloads" "stats_by_deployment (he_order henv payloads) [] = Some m"
  shows "\<exists>s'. finish_heartbeat henv body s = (Inr 204, s') \<and> sw_provider s' = sw_provider s \<and> sw_containerStats s' = Some m"
  using assms
  by (auto simp: finish_heartbeat_def bind_def record_stats_def publish_snapshot_def ok_def ReplaceAll_def split: option.splits)

lemma provider_after_wire:
  assumes "qh_At q \<noteq> 0" "p' = fold (record_signal pe) (signals_of (wire q)) p"
  shows "heartbeat_signal p' = Some (qh_At q, qh_StoreAccessible q)"
    and "docker_signal p' = Some (qh_At q, qh_DockerReachable q)"
    and "load_balancer_signal p' = Some (qh_At q, qh_Responding q)"
    and "ls_traffic (pv_loadBalancerSignal p') = map_option shown_traffic (qh_Traffic q)"
    and "\<And>cpu ram m. qh_Host q = Some (cpu, ram, Some m) \<Longrightarrow> hostMetadataStatus p' = Some (shown_metadata m) \<and>
      (case cpu of None \<Rightarrow> pv_cpuSignal p' = pv_cpuSignal p | Some u \<Rightarrow> metric_signal (pv_cpuSignal p') = Some (qh_At q, u)) \<and>
      (case ram of None \<Rightarrow> pv_ramSignal p' = pv_ramSignal p | Some u \<Rightarrow> metric_signal (pv_ramSignal p') = Some (qh_At q, u))"
  using assms
  by (auto simp: wire_def signals_of_def docker_signals_def load_balancer_signals_def host_signals_def metric_signals_def
      wire_metric_def checked_at_def signal_defs news_of_def record_defs or_now_def traffic_of_wire metadata_of_wire
      hostMetadataStatus_def Let_def split: option.splits)


section \<open>Properties\<close>

lemma cpu_shown:
  assumes "0 \<le> pe_staleAfter now" "pe_staleAfter now < 2 ^ 63 - 1"
    and "\<And>reading b. judge (pe_staleAfter now) (pe_now now reading) (Some (moment, b)) = good b"
    and "metric_signal (pv_cpuSignal p') = Some (moment, u)"
  shows "sm_UsagePercent (cpuStatus now p') = u \<and> sm_State (cpuStatus now p') = SystemStatusStateHealthy"
  using assms(4) status_judged(4)[OF assms(1,2), of p'] assms(3)[of AtCPU True]
  by (simp add: good_def cpuStatus_def metric_signal_def news_of_def Let_def split: if_splits)

lemma ram_shown:
  assumes "0 \<le> pe_staleAfter now" "pe_staleAfter now < 2 ^ 63 - 1"
    and "\<And>reading b. judge (pe_staleAfter now) (pe_now now reading) (Some (moment, b)) = good b"
    and "metric_signal (pv_ramSignal p') = Some (moment, u)"
  shows "sm_UsagePercent (ramStatus now p') = u \<and> sm_State (ramStatus now p') = SystemStatusStateHealthy"
  using assms(4) status_judged(5)[OF assms(1,2), of p'] assms(3)[of AtRAM True]
  by (simp add: good_def ramStatus_def metric_signal_def news_of_def Let_def split: if_splits)

lemma traffic_shown:
  "load_balancer_signal p' = Some x \<Longrightarrow> sl_Traffic (loadBalancerStatus now p') = ls_traffic (pv_loadBalancerSignal p')"
  by (simp add: loadBalancerStatus_def load_balancer_signal_def news_of_def Let_def split: if_splits)

text \<open>
  C33. What one program measures is what the other shows. A tick whose container statistics are at most at 100
  percent of their limit has its heartbeat accepted by the API, whatever else it measured and whatever failed. As
  long as the signals are fresh, the status then shows Docker as healthy exactly if the ping succeeded, the load
  balancer exactly if the probe was answered with 200, the orchestrator exactly if Docker is and the store could be
  listed; it shows the percentages, the traffic without nameless addresses and the host's identity as measured, and
  the statistics of exactly the containers collected.
\<close>

theorem tick_reaches_status:
  assumes "cl_do c = api_do henv" "cl_buildable c (cl_baseURL c @ ''/api/system-status/orchestrator-heartbeat'')"
    and "he_ingestors henv = default_ingestors pe" "range_order (he_order henv)" "range_order (sv_arrival (te_stats env))"
    and "te_now env \<noteq> 0" "sw_containerStats (ag_api a) \<noteq> None"
    and "\<forall>(k, st) \<in> set (tick_stats env). runtime_ok st"
    and "tick c dp env a = (sent, reconciled, a')"
    and "0 \<le> pe_staleAfter now" "pe_staleAfter now < 2 ^ 63 - 1" "\<forall>reading. pe_now now reading - te_now env \<le> pe_staleAfter now"
    and "sn = Provider_Snapshot now (sw_provider (ag_api a'))"
  shows "sent = None \<and>
    sd_State (sn_Docker sn) = good (te_ping env = None) \<and>
    sl_State (sn_LoadBalancer sn) = good (probeProxyHealth (te_health env)) \<and>
    sl_Traffic (sn_LoadBalancer sn) = map_option shown_traffic (probeProxyTraffic (te_traffic env)) \<and>
    so_State (sn_Orchestrator sn) = good (te_ping env = None \<and> \<not> isl (te_list env)) \<and>
    (\<forall>u. fst (CPUUsagePercent (te_stat env) (ag_cpu a)) = Inr (Some u) \<longrightarrow>
       sm_UsagePercent (sh_CPU (sn_Host sn)) = u \<and> sm_State (sh_CPU (sn_Host sn)) = SystemStatusStateHealthy) \<and>
    (\<forall>u. RAMUsagePercent (te_meminfo env) = Inr (Some u) \<longrightarrow>
       sm_UsagePercent (sh_RAM (sn_Host sn)) = u \<and> sm_State (sh_RAM (sn_Host sn)) = SystemStatusStateHealthy) \<and>
    sh_Metadata (sn_Host sn) = Some (shown_metadata (Collect (te_host env))) \<and>
    (\<forall>k. Stats_Get k (sw_containerStats (ag_api a')) = map_option shown_stats (map_of (tick_stats env) k))"
proof -
  define q where "q = measured env (ag_cpu a)"
  define p' where "p' = fold (record_signal pe) (signals_of (wire q)) (sw_provider (ag_api a))"
  obtain m where m: "stats_by_deployment (he_order henv (map (\<lambda>(k, st). (k, wire_stats st)) (tick_stats env))) [] = Some m"
    "\<And>k. map_of m k = map_option shown_stats (map_of (tick_stats env) k)"
    by (rule wired_stats[OF _ tick_stats_distinct assms(4)]) (use assms(8) tick_stats_nonneg[OF assms(5)] in fastforce)+
  have "hb_ContainerStats (wire q) = Some (map (\<lambda>(k, st). (k, wire_stats st)) (tick_stats env))"
    by (simp add: wire_def q_def measured_def)
  from finish_accepted[OF assms(3) _ this m(1), of "(ag_api a)\<lparr>sw_provider := p'\<rparr>"] assms(7)
  obtain s' where s': "finish_heartbeat henv (wire q) ((ag_api a)\<lparr>sw_provider := p'\<rparr>) = (Inr 204, s')"
    "sw_provider s' = p'" "sw_containerStats s' = Some m" by auto
  then have run: "recordOrchestratorHeartbeat henv (Some (wire (measured env (ag_cpu a)))) (ag_api a) = (Inr 204, s')"
    using heartbeat_run[OF assms(3) measured_valid] by (simp add: q_def p'_def)
  note sent = tick_sends[OF assms(6,2,1,9) run]
  have at: "qh_At q \<noteq> 0" using assms(6) by (simp add: q_def measured_def)
  note signals = provider_after_wire[OF at p'_def]
  have host: "qh_Host q = Some (usage_of (fst (CPUUsagePercent (te_stat env) (ag_cpu a))), usage_of (RAMUsagePercent (te_meminfo env)),
        Some (Collect (te_host env)))" by (simp add: q_def measured_def)
  have fields: "qh_At q = te_now env" "qh_StoreAccessible q = (\<not> isl (te_list env))" "qh_DockerReachable q = (te_ping env = None)"
    "qh_Responding q = probeProxyHealth (te_health env)" "qh_Traffic q = probeProxyTraffic (te_traffic env)"
    by (simp_all add: q_def measured_def)
  have judged: "judge (pe_staleAfter now) (pe_now now reading) (Some (te_now env, b)) = good b" for reading b
    using assms(12) by (simp add: judge_def good_def)
  have sn: "sn = Provider_Snapshot now p'" using assms(13) sent(1) s'(2) by simp
  note usage = cpu_shown[OF assms(10,11) judged] and ram = ram_shown[OF assms(10,11) judged] and traffic = traffic_shown[OF signals(3)]
  have states: "sd_State (sn_Docker sn) = good (te_ping env = None)" "sl_State (sn_LoadBalancer sn) = good (probeProxyHealth (te_health env))"
    "so_State (sn_Orchestrator sn) = good (te_ping env = None \<and> \<not> isl (te_list env))"
    "sl_Traffic (sn_LoadBalancer sn) = map_option shown_traffic (probeProxyTraffic (te_traffic env))"
    unfolding sn Provider_Snapshot_def Let_def SystemStatusSnapshot.select_convs status_judged[OF assms(10,11)]
      orchestrator_judged[OF assms(10,11)] signals(1-3) fields traffic
    by (simp_all add: judged signals(4) fields) (auto simp: good_def)
  have metrics: "(\<forall>u. fst (CPUUsagePercent (te_stat env) (ag_cpu a)) = Inr (Some u) \<longrightarrow>
       sm_UsagePercent (sh_CPU (sn_Host sn)) = u \<and> sm_State (sh_CPU (sn_Host sn)) = SystemStatusStateHealthy)"
    "(\<forall>u. RAMUsagePercent (te_meminfo env) = Inr (Some u) \<longrightarrow>
       sm_UsagePercent (sh_RAM (sn_Host sn)) = u \<and> sm_State (sh_RAM (sn_Host sn)) = SystemStatusStateHealthy)"
    "sh_Metadata (sn_Host sn) = Some (shown_metadata (Collect (te_host env)))"
    using signals(5)[OF host] usage ram by (auto simp: sn Provider_Snapshot_def Let_def usage_of_def fields)
  have "Stats_Get k (sw_containerStats (ag_api a')) = map_option shown_stats (map_of (tick_stats env) k)" for k
    by (simp add: Stats_Get_def sent(1) s'(3) m(2))
  then show ?thesis using sent(2) states metrics by simp
qed

text \<open>A tick with one container, which uses 24 percent of its memory.\<close>

definition container0 :: container_summary where
  "container0 = \<lparr>su_ID = ''c1'', su_Names = [], su_Labels = [(''lotsen.id'', ''d1'')], su_State = ''running''\<rparr>"

definition usage0 :: stats_body where
  "usage0 = (\<lparr>cu_TotalUsage = 5, cu_SystemUsage = 9, cu_OnlineCPUs = 2\<rparr>, \<lparr>cu_TotalUsage = 5, cu_SystemUsage = 5, cu_OnlineCPUs = 2\<rparr>,
     \<lparr>my_Usage = 100, my_Limit = 400, my_Stats = [(''inactive_file'', 4)]\<rparr>)"

definition tick0 :: tick_env where
  "tick0 = \<lparr>te_now = 990, te_host = \<lparr>hr_NumCPU = 2, hr_localAddr = None, hr_osRelease = None, hr_meminfo = None, hr_statfs = None\<rparr>,
     te_ping = None, te_stats = \<lparr>sv_list = Inr [container0], sv_stats = (\<lambda>_. Some (Some usage0)), sv_arrival = id\<rparr>,
     te_list = Inr [], te_health = Inr 200, te_traffic = Inl (), te_stat = None, te_meminfo = None, te_clock = 991, te_reconcile = 992\<rparr>"

definition client0 :: "(heartbeat_payload, defaultSystemStatusProvider status_world) api_client" where
  "client0 = \<lparr>cl_baseURL = ''http://localhost:8080'', cl_buildable = (\<lambda>_. True), cl_do = api_do he0\<rparr>"

definition agent0 :: "(defaultSystemStatusProvider status_world, disk, ManagedContainer list) agent" where
  "agent0 = \<lparr>ag_cpu = None, ag_api = status0, ag_world = world0 []\<rparr>"

lemma usage0_decodes: "decodeContainerStats (Some usage0) =
  Some \<lparr>rt_CPUPercent = 0, rt_MemoryUsedBytes = 96, rt_MemoryLimitBytes = 400, rt_MemoryPercent = 24\<rparr>"
  by (simp add: decodeContainerStats_def usage0_def calculateCPUPercent_def calculateMemoryUsedBytes_def calculateMemoryPercent_def
      stat_of_def Let_def)

lemma tick0_stats: "tick_stats tick0 =
  [(''d1'', \<lparr>rt_CPUPercent = 0, rt_MemoryUsedBytes = 96, rt_MemoryLimitBytes = 400, rt_MemoryPercent = 24\<rparr>)]"
proof -
  have "TrimSpace ''d1'' = ''d1''" by code_simp
  then show ?thesis
    by (simp add: tick_stats_def tick0_def CollectStats_def container_result_def container0_def List.map_filter_simps usage0_decodes)
qed

theorem tick_reaches_status_witness:
  "fst (tick client0 deps0 tick0 agent0) = None \<and>
   sd_State (sn_Docker (Provider_Snapshot pe0 (sw_provider (ag_api (snd (snd (tick client0 deps0 tick0 agent0))))))) = SystemStatusStateHealthy \<and>
   Stats_Get ''d1'' (sw_containerStats (ag_api (snd (snd (tick client0 deps0 tick0 agent0))))) =
     Some \<lparr>cs_CPUPercent = 0, cs_MemoryUsedBytes = 96, cs_MemoryLimitBytes = 400, cs_MemoryPercent = 24\<rparr>"
proof -
  obtain sent reconciled a' where t: "tick client0 deps0 tick0 agent0 = (sent, reconciled, a')" by (metis prod_cases3)
  have c: "cl_do client0 = api_do he0" "cl_buildable client0 u" for u by (simp_all add: client0_def)
  have e: "te_now tick0 = 990" "te_ping tick0 = None" "range_order (sv_arrival (te_stats tick0))" by (simp_all add: tick0_def)
  have o: "range_order (he_order he0)" "sw_containerStats (ag_api agent0) \<noteq> None"
    by (simp_all add: he0_def agent0_def status0_def)
  have r: "\<forall>(k, st) \<in> set (tick_stats tick0). runtime_ok st" by (simp add: tick0_stats runtime_ok_def)
  have fresh: "0 \<le> pe_staleAfter pe0" "pe_staleAfter pe0 < 2 ^ 63 - 1" "\<forall>reading. pe_now pe0 reading - te_now tick0 \<le> pe_staleAfter pe0"
    by (simp_all add: pe0_values e)
  from tick_reaches_status[OF c he0_ingestors o(1) e(3) _ o(2) r t fresh refl] show ?thesis
    by (simp add: t e tick0_stats shown_stats_def good_def)
qed

text \<open>One container above its limit is enough to have the whole heartbeat rejected with 400, tick after tick: the
  statistics of all containers are dropped and no snapshot is announced.\<close>

lemma over_limit_rejects_heartbeat:
  assumes "cl_do c = api_do henv" "cl_buildable c (cl_baseURL c @ ''/api/system-status/orchestrator-heartbeat'')"
    and "he_ingestors henv = default_ingestors pe" "range_order (he_order henv)" "range_order (sv_arrival (te_stats env))"
    and "te_now env \<noteq> 0" "sw_containerStats (ag_api a) \<noteq> None"
    and "(k, st) \<in> set (tick_stats env)" "\<not> runtime_ok st"
    and "tick c dp env a = (sent, reconciled, a')"
  shows "sent = Some (UnexpectedResponse 400) \<and> sw_containerStats (ag_api a') = sw_containerStats (ag_api a) \<and>
    sw_statusEvents (ag_api a') = sw_statusEvents (ag_api a)"
proof -
  define q where "q = measured env (ag_cpu a)"
  let ?ps = "map (\<lambda>(k, st). (k, wire_stats st)) (tick_stats env)"
  have "container_stats (wire_stats st) = None"
    using tick_stats_nonneg[OF assms(5,8)] assms(9) by (simp add: container_stats_wire)
  moreover have "(k, wire_stats st) \<in> set (he_order henv ?ps)"
    unfolding range_order_set[OF assms(4)] using assms(8) by force
  ultimately have "stats_by_deployment (he_order henv ?ps) [] = None" by (metis stats_by_deployment_None)
  moreover have "hb_ContainerStats (wire q) = Some ?ps" by (simp add: wire_def q_def measured_def)
  ultimately have "finish_heartbeat henv (wire q) s = (Inl (400, Msg ''invalid container stats''), s)" if "sw_containerStats s \<noteq> None" for s
    using that by (simp add: finish_heartbeat_def bind_def record_stats_def fail_def)
  then have run: "recordOrchestratorHeartbeat henv (Some (wire (measured env (ag_cpu a)))) (ag_api a) =
      (Inl (400, Msg ''invalid container stats''),
       (ag_api a)\<lparr>sw_provider := fold (record_signal pe) (signals_of (wire q)) (sw_provider (ag_api a))\<rparr>)"
    using heartbeat_run[OF assms(3) measured_valid] assms(7) by (simp add: q_def)
  from tick_sends[OF assms(6,2,1,10) run] show ?thesis by simp
qed

end
