(* ===== verification/Launch.thy ===== *)
theory Launch
  imports Proxy Host Auth AccessLogs
begin

text \<open>
  How the proxy and the API are configured when they start (\<open>proxy/cmd/proxy/main.go\<close>,
  \<open>api/cmd/lotsen/main.go\<close>), and what of it is decided anew for every request: the access mode and the
  firewall of the dashboard, which the proxy reads from the API's profile file, the hosts that get
  certificates, and the split between the internal control API and the redirect to HTTPS.

  The environment is a function from names to values, empty for unset variables. \<open>time.ParseDuration\<close>
  is a parameter. A start either ends with an error or gives the handler with its first state; the
  servers themselves and the log messages are left out.
\<close>

section \<open>The environment\<close>

record process_env =
  en_get :: "string \<Rightarrow> string"
  en_duration :: "string \<Rightarrow> int option"

datatype launch_error =
    OpenStore | BadAccessMode | BadWAFMode | BadCookieDomain | BadHardening | BadIPList string | InitWAF string
  | BadRetention | NoLogHeaders | OpenAccessLog | MkCertDir | OpenUserStore | CheckUsers

definition dataPath :: "process_env \<Rightarrow> string" where
  "dataPath e = (let p = en_get e ''LOTSEN_DATA'' in if p \<noteq> [] then p else ''/var/lib/lotsen/deployments.json'')"

definition envOrDefault :: "process_env \<Rightarrow> string \<Rightarrow> string \<Rightarrow> string" where
  "envOrDefault e key fallback = (let v = en_get e key in if v \<noteq> [] then v else fallback)"

definition hostProfilePath :: "string \<Rightarrow> string" where
  "hostProfilePath storePath = FilepathJoin [Dir storePath, ''host_profile.json'']"

definition parseCSVList :: "string \<Rightarrow> string list" where
  "parseCSVList raw0 =
     (let raw = TrimSpace raw0 in
      if raw = [] then [] else filter (\<lambda>part. part \<noteq> []) (map TrimSpace (Split raw (CHR '',''))))"

definition dashboardAuthFromEnv :: "process_env \<Rightarrow> string option" where
  "dashboardAuthFromEnv e =
     (let domain = normalizeDomain (en_get e ''LOTSEN_DASHBOARD_DOMAIN'') in if domain = [] then None else Some domain)"

definition dashboardAccessModeFromEnv :: "process_env \<Rightarrow> launch_error + string" where
  "dashboardAccessModeFromEnv e =
     (let raw = ToLower (TrimSpace (en_get e ''LOTSEN_DASHBOARD_ACCESS_MODE'')) in
      if raw = [] then Inr ''login_only''
      else if raw \<in> set [''login_only'', ''waf_only'', ''waf_and_login''] then Inr raw
      else Inl BadAccessMode)"

definition dashboardWAFConfigFromEnv :: "process_env \<Rightarrow> launch_error + DashboardWAFConfig" where
  "dashboardWAFConfigFromEnv e =
     (let mode = ToLower (TrimSpace (envOrDefault e ''LOTSEN_DASHBOARD_WAF_MODE'' WAFModeDetection)) in
      if mode \<noteq> WAFModeDetection \<and> mode \<noteq> WAFModeEnforcement then Inl BadWAFMode
      else
        let rawRules = TrimSpace (en_get e ''LOTSEN_DASHBOARD_WAF_RULES'') in
        Inr \<lparr>dw_Mode = mode, dw_IPAllowlist = parseCSVList (en_get e ''LOTSEN_DASHBOARD_IP_ALLOWLIST''),
             dw_CustomRules = (if rawRules \<noteq> [] then filter (\<lambda>l. l \<noteq> []) (map TrimSpace (Split rawRules line_feed)) else [])\<rparr>)"

definition hardeningProfileFromEnv :: "process_env \<Rightarrow> launch_error + string" where
  "hardeningProfileFromEnv e =
     (let profile = ToLower (TrimSpace (envOrDefault e ''LOTSEN_PROXY_HARDENING_PROFILE'' HardeningStandard)) in
      if profile \<in> set [HardeningOff, HardeningStandard, HardeningStrict] then Inr profile else Inl BadHardening)"

record AccessLogConfig =
  gc_Dir :: string
  gc_Retention :: int
  gc_WhitelistedKeys :: "string list"

definition accessLogConfigFromEnv :: "process_env \<Rightarrow> launch_error + AccessLogConfig" where
  "accessLogConfigFromEnv e =
     (case en_duration e (TrimSpace (envOrDefault e ''LOTSEN_PROXY_ACCESS_LOG_RETENTION'' ''168h'')) of
        None \<Rightarrow> Inl BadRetention
      | Some retention \<Rightarrow>
          if retention \<le> 0 then Inl BadRetention
          else
            let raw = TrimSpace (en_get e ''LOTSEN_PROXY_ACCESS_LOG_HEADERS'');
                headers = (if raw \<noteq> [] then filter (\<lambda>h. h \<noteq> []) (map (\<lambda>part. ToLower (TrimSpace part)) (Split raw (CHR '','')))
                           else [''host'', ''user-agent'', ''accept'', ''accept-encoding'', ''accept-language'', ''referer'',
                                 ''x-forwarded-for'', ''x-real-ip'']) in
            if headers = [] then Inl NoLogHeaders
            else Inr \<lparr>gc_Dir = TrimSpace (envOrDefault e ''LOTSEN_PROXY_ACCESS_LOG_DIR'' ''/var/lib/lotsen/logs/proxy''),
                      gc_Retention = retention, gc_WhitelistedKeys = headers\<rparr>)"

definition authFromEnv :: "process_env \<Rightarrow> string option" where
  "authFromEnv e = (let secret = TrimSpace (en_get e ''LOTSEN_JWT_SECRET'') in if secret = [] then None else Some secret)"

definition label_char :: "char \<Rightarrow> bool" where
  "label_char c \<longleftrightarrow> 97 \<le> byte c \<and> byte c \<le> 122 \<or> is_digit c \<or> c = CHR ''-''"

definition valid_label :: "string \<Rightarrow> bool" where
  "valid_label label \<longleftrightarrow> label \<noteq> [] \<and> \<not> HasPrefix label ''-'' \<and> \<not> HasSuffix label ''-'' \<and> list_all label_char label"

definition isValidCookieDomain :: "string \<Rightarrow> bool" where
  "isValidCookieDomain domain =
     (if domain = [] \<or> HasPrefix domain ''.'' \<or> HasSuffix domain ''.'' then False
      else
        let labels = Split domain (CHR ''.'') in
        if length labels < 2 then False else list_all valid_label labels)"

definition authCookieDomainFromEnv :: "process_env \<Rightarrow> launch_error + string" where
  "authCookieDomainFromEnv e =
     (let raw = TrimSpace (TrimPrefix (en_get e ''LOTSEN_AUTH_COOKIE_DOMAIN'') ''.'') in
      if raw = [] then Inr []
      else let domain = normalizeDomain raw in if isValidCookieDomain domain then Inr domain else Inl BadCookieDomain)"

section \<open>What is read for every request\<close>

text \<open>The bytes of the profile file: absent, unreadable or a document; the proxy reads it without the lock.\<close>

definition dashboardAccessModeResolver :: "string \<Rightarrow> bool \<Rightarrow> host_disk \<Rightarrow> string" where
  "dashboardAccessModeResolver fallback can_read dk =
     (if \<not> can_read then fallback
      else case hd_file dk of
        None \<Rightarrow> fallback
      | Some BadProfile \<Rightarrow> fallback
      | Some (ProfileDoc profile) \<Rightarrow>
          (let mode = ToLower (TrimSpace (hp_DashboardAccessMode profile)) in
           if mode \<in> set [''login_only'', ''waf_only'', ''waf_and_login''] then mode else fallback))"

definition dashboardWAFConfigResolver :: "DashboardWAFConfig \<Rightarrow> bool \<Rightarrow> host_disk \<Rightarrow> DashboardWAFConfig" where
  "dashboardWAFConfigResolver fallback can_read dk =
     (if \<not> can_read then fallback
      else case hd_file dk of
        None \<Rightarrow> fallback
      | Some BadProfile \<Rightarrow> fallback
      | Some (ProfileDoc profile) \<Rightarrow>
          (let w = hp_DashboardWAF profile in
           if TrimSpace (hw_Mode w) = [] \<and> hw_IPAllowlist w = [] \<and> hw_CustomRules w = [] then fallback
           else
             let mode = ToLower (TrimSpace (hw_Mode w)) in
             \<lparr>dw_Mode = (if mode = WAFModeDetection \<or> mode = WAFModeEnforcement then mode else dw_Mode fallback),
              dw_IPAllowlist = filter (\<lambda>x. x \<noteq> []) (map TrimSpace (hw_IPAllowlist w)),
              dw_CustomRules = filter (\<lambda>x. x \<noteq> []) (map TrimSpace (hw_CustomRules w))\<rparr>))"

definition hostPolicyFromTable :: "Table \<Rightarrow> string \<Rightarrow> string option" where
  "hostPolicyFromTable table raw =
     (let host = normalizeDomain raw in
      if host = [] then Some ''empty host''
      else case Table_Get host table of None \<Rightarrow> Some (''host '' @ host @ '' not configured'') | Some _ \<Rightarrow> None)"

definition hostWithoutPort :: "string \<Rightarrow> string" where
  "hostWithoutPort raw =
     (let host = TrimSpace raw in normalizeDomain (case SplitHostPort host of Some (h, _) \<Rightarrow> h | None \<Rightarrow> host))"

definition portFromAddr :: "string \<Rightarrow> string" where
  "portFromAddr raw =
     (let addr = TrimSpace raw in
      if HasPrefix addr '':'' then TrimPrefix addr '':''
      else case SplitHostPort addr of Some (_, port) \<Rightarrow> port | None \<Rightarrow> [])"

definition JoinHostPort :: "string \<Rightarrow> string \<Rightarrow> string" where
  "JoinHostPort host port =
     (if CHR '':'' \<in> set host then ''['' @ host @ '']:'' @ port else host @ '':'' @ port)"

text \<open>The target of a redirect: host, path and query, the scheme being https.\<close>

definition redirectToHTTPS :: "string \<Rightarrow> Request \<Rightarrow> (int \<times> string) + string \<times> string \<times> string" where
  "redirectToHTTPS httpsAddr r =
     (let host = hostWithoutPort (rq_Host r) in
      if host = [] then Inl (400, ''missing host'')
      else
        let port = portFromAddr httpsAddr;
            host = (if port \<noteq> [] \<and> port \<noteq> ''443'' then JoinHostPort host port else host) in
        Inr (host, rq_Path r, rq_RawQuery r))"

section \<open>The internal control API\<close>

record HardeningSettings =
  hs_Profile :: string
  hs_SuspiciousWindowSeconds :: int
  hs_SuspiciousThreshold :: int
  hs_SuspiciousBlockForSeconds :: int
  hs_GlobalIPDenylist :: "IPNet list"
  hs_GlobalIPAllowlist :: "IPNet list"

definition proxy_securityConfig :: "'g Handler \<Rightarrow> scannerLimiter option \<Rightarrow> HardeningSettings" where
  "proxy_securityConfig h scanner =
     \<lparr>hs_Profile = hd_hardening h,
      hs_SuspiciousWindowSeconds = (case scanner of None \<Rightarrow> 0 | Some l \<Rightarrow> sl_window l div 1000000000),
      hs_SuspiciousThreshold = (case scanner of None \<Rightarrow> 0 | Some l \<Rightarrow> sl_threshold l),
      hs_SuspiciousBlockForSeconds = (case scanner of None \<Rightarrow> 0 | Some l \<Rightarrow> sl_blockFor l div 1000000000),
      hs_GlobalIPDenylist = (case hd_ipFilter h of None \<Rightarrow> [] | Some f \<Rightarrow> ipf_globalDenylist f),
      hs_GlobalIPAllowlist = (case hd_ipFilter h of None \<Rightarrow> [] | Some f \<Rightarrow> ipf_globalAllowlist f)\<rparr>"

text \<open>The access log of the handler may have no \<open>List\<close> method, as the one on disk.\<close>

definition proxy_listAccessLogs :: "(int \<Rightarrow> 'e list) option \<Rightarrow> string \<Rightarrow> 'e list" where
  "proxy_listAccessLogs provider limit = (case provider of None \<Rightarrow> [] | Some list \<Rightarrow> list (accessLogLimit limit))"

definition traffic :: "(scannerEntry gomap \<Rightarrow> scannerEntry gomap) \<Rightarrow> int \<Rightarrow> 'g proxy_state \<Rightarrow> trafficStatus \<times> int \<times> int" where
  "traffic order now s =
     (case px_scanner s of
        None \<Rightarrow> \<lparr>ts_TotalRequests = 0, ts_SuspiciousRequests = 0, ts_BlockedRequests = 0, ts_ActiveBlockedIPs = 0, ts_BlockedIPs = []\<rparr>
      | Some l \<Rightarrow> Snapshot order now l,
      px_wafBlocked s, px_uaBlocked s)"

text \<open>The listener for plain HTTP: the internal routes and, for all other requests, the handler of ACME
  challenges around the redirect. A body that decodes is a domain and an upstream.\<close>

datatype 'e internal_answer =
    Code int
  | TrafficAnswer "trafficStatus \<times> int \<times> int"
  | EntriesAnswer "'e list"
  | SettingsAnswer HardeningSettings
  | External "(int \<times> string) + string \<times> string \<times> string"

record ('g, 'e) http_server =
  ht_handler :: "'g Handler"
  ht_provider :: "(int \<Rightarrow> 'e list) option"
  ht_order :: "scannerEntry gomap \<Rightarrow> scannerEntry gomap"
  ht_httpsAddr :: string

definition newHTTPMux :: "('g, 'e) http_server \<Rightarrow> int \<Rightarrow> Request \<Rightarrow> string \<Rightarrow> (string \<times> string) option
    \<Rightarrow> 'g proxy_state \<Rightarrow> 'e internal_answer \<times> 'g proxy_state" where
  "newHTTPMux srv now r limit body s =
     (if rq_Method r \<in> set [''GET'', ''HEAD''] \<and> rq_Path r = ''/internal/health'' then (Code 200, s)
      else if rq_Method r \<in> set [''GET'', ''HEAD''] \<and> rq_Path r = ''/internal/traffic''
      then (TrafficAnswer (traffic (ht_order srv) now s), s)
      else if rq_Method r = ''POST'' \<and> rq_Path r = ''/internal/routes''
      then (case setRoute body (px_table s) of (code, t) \<Rightarrow> (Code code, s\<lparr>px_table := t\<rparr>))
      else if rq_Method r \<in> set [''GET'', ''HEAD''] \<and> rq_Path r = ''/internal/access-logs''
      then (EntriesAnswer (proxy_listAccessLogs (ht_provider srv) limit), s)
      else if rq_Method r \<in> set [''GET'', ''HEAD''] \<and> rq_Path r = ''/internal/security-config''
      then (SettingsAnswer (proxy_securityConfig (ht_handler srv) (px_scanner s)), s)
      else (External (redirectToHTTPS (ht_httpsAddr srv) r), s))"

section \<open>Starting the proxy\<close>

record 'g proxy_config =
  pc_handler :: "host_disk \<Rightarrow> bool \<Rightarrow> 'g Handler"
  pc_accessLog :: AccessLogConfig
  pc_interval :: int
  pc_httpAddr :: string
  pc_httpsAddr :: string

text \<open>An interval that does not parse is ignored; one that is not positive makes the poller's ticker panic.\<close>

definition pollInterval :: "process_env \<Rightarrow> int" where
  "pollInterval e =
     (let v = en_get e ''LOTSEN_POLL_INTERVAL'' in
      if v \<noteq> [] then (case en_duration e v of Some d \<Rightarrow> d | None \<Rightarrow> 5000000000) else 5000000000)"

text \<open>What the start meets besides the environment: whether the store opens and the directory for
  certificates can be made, the libraries, the access log's directory.\<close>

record 'g launch_world =
  lw_store :: bool
  lw_certDir :: bool
  lw_hashes :: hashes
  lw_waf :: "'g waf_engine"
  lw_validateToken :: "string \<Rightarrow> string \<Rightarrow> bool"
  lw_logger :: logger_env

definition New_Handler :: "process_env \<Rightarrow> 'g launch_world \<Rightarrow> string \<Rightarrow> DashboardWAFConfig \<Rightarrow> string \<Rightarrow> string \<Rightarrow> IPFilter
    \<Rightarrow> host_disk \<Rightarrow> bool \<Rightarrow> 'g Handler" where
  "New_Handler e lw mode waf cookieDomain hardening ipFilter profile can_read =
     \<lparr>hd_dashboardDomain = dashboardAuthFromEnv e, hd_dashboardAccess = ''login_only'',
      hd_dashboardResolve = Some (dashboardAccessModeResolver mode can_read profile),
      hd_dashboardWAF = \<lparr>dw_Mode = WAFModeDetection, dw_IPAllowlist = [], dw_CustomRules = []\<rparr>,
      hd_dashboardWAFLoad = Some (dashboardWAFConfigResolver waf can_read profile),
      hd_authCookieDomain = normalizeDomain cookieDomain, hd_hardening = normalizeHardeningProfile hardening,
      hd_ipFilter = Some ipFilter,
      hd_uaFilter = Some (NewUAFilter (hardening = HardeningStrict) (parseCSVList (en_get e ''LOTSEN_UA_BLOCK_LIST''))),
      hd_jwtSecret = authFromEnv e, hd_hashes = lw_hashes lw, hd_waf_engine = lw_waf lw, hd_validateToken = lw_validateToken lw\<rparr>"

definition launch_proxy :: "process_env \<Rightarrow> 'g launch_world \<Rightarrow> log_dir
    \<Rightarrow> launch_error + 'g proxy_config \<times> 'g proxy_state \<times> fileAccessLogger \<times> log_dir" where
  "launch_proxy e lw logs =
     (if \<not> lw_store lw then Inl OpenStore
      else case dashboardAccessModeFromEnv e of Inl err \<Rightarrow> Inl err
    | Inr mode \<Rightarrow> (case dashboardWAFConfigFromEnv e of Inl err \<Rightarrow> Inl err
    | Inr wafConfig \<Rightarrow> (case authCookieDomainFromEnv e of Inl err \<Rightarrow> Inl err
    | Inr cookieDomain \<Rightarrow> (case hardeningProfileFromEnv e of Inl err \<Rightarrow> Inl err
    | Inr hardening \<Rightarrow>
        (case NewIPFilter (parseCSVList (en_get e ''LOTSEN_IP_DENYLIST'')) (parseCSVList (en_get e ''LOTSEN_IP_ALLOWLIST'')) of
           Inl err \<Rightarrow> Inl (BadIPList err)
    | Inr ipFilter \<Rightarrow> (case NewWAF (lw_waf lw) of Inl err \<Rightarrow> Inl (InitWAF err)
    | Inr waf \<Rightarrow> (case accessLogConfigFromEnv e of Inl err \<Rightarrow> Inl err
    | Inr accessLogConfig \<Rightarrow>
        (case NewFileAccessLogger (lw_logger lw) (gc_Dir accessLogConfig) (gc_Retention accessLogConfig)
                (gc_WhitelistedKeys accessLogConfig) logs of
           None \<Rightarrow> Inl OpenAccessLog
    | Some (logger, logs') \<Rightarrow>
         if \<not> lw_certDir lw then Inl MkCertDir
         else
           let handler = New_Handler e lw mode wafConfig cookieDomain hardening ipFilter in
           Inr (\<lparr>pc_handler = handler, pc_accessLog = accessLogConfig, pc_interval = pollInterval e,
                 pc_httpAddr = envOrDefault e ''LOTSEN_PROXY_HTTP_ADDR'' (envOrDefault e ''LOTSEN_PROXY_ADDR'' '':80''),
                 pc_httpsAddr = envOrDefault e ''LOTSEN_PROXY_HTTPS_ADDR'' '':443''\<rparr>,
                \<lparr>px_table = (case dashboardAuthFromEnv e of None \<Rightarrow> NewTable
                             | Some domain \<Rightarrow> Table_SetStatic domain ''localhost:8080'' NewTable),
                 px_scanner = newScannerLimiter (normalizeHardeningProfile hardening), px_waf = Some waf,
                 px_wafBlocked = 0, px_uaBlocked = 0\<rparr>, logger, logs')))))))))"

section \<open>Starting the API\<close>

text \<open>The user database opens or not; a failing clean-up is only logged.\<close>

record api_start =
  as_open :: bool
  as_cleanup_fails :: bool
  as_has_fails :: bool
  as_now :: int

definition api_authFromEnv :: "process_env \<Rightarrow> api_start \<Rightarrow> 'k user_db \<Rightarrow> launch_error + (string \<times> 'k user_db) option" where
  "api_authFromEnv e st db =
     (case authFromEnv e of
        None \<Rightarrow> Inr None
      | Some secret \<Rightarrow>
          if \<not> as_open st then Inl OpenUserStore
          else
            let db' = snd (CleanupExpiredTokens (as_cleanup_fails st) (as_now st) db) in
            case HasAnyUser (as_has_fails st) db' of
              Inl _ \<Rightarrow> Inl CheckUsers
            | Inr _ \<Rightarrow> Inr (Some (secret, db')))"

text \<open>The orchestrator's base URL for route changes (\<open>docker.go\<close>).\<close>

definition proxyURLFromEnv :: "process_env \<Rightarrow> string" where
  "proxyURLFromEnv e =
     (let baseURL = TrimSpace (en_get e ''LOTSEN_PROXY_URL'') in
      if baseURL \<noteq> [] then TrimSuffix baseURL ''/'' else ''http://localhost:2019'')"


section \<open>Lemmas\<close>

lemma hardening_values: "hardeningProfileFromEnv e = Inr h \<Longrightarrow> h \<in> {HardeningOff, HardeningStandard, HardeningStrict}"
  by (auto simp: hardeningProfileFromEnv_def Let_def split: if_splits)

lemma access_mode_values: "dashboardAccessModeFromEnv e = Inr m \<Longrightarrow> m \<in> {''login_only'', ''waf_only'', ''waf_and_login''}"
  by (auto simp: dashboardAccessModeFromEnv_def Let_def split: if_splits)

lemma normalize_access_mode: "m \<in> {''login_only'', ''waf_only'', ''waf_and_login''} \<Longrightarrow> normalizeDashboardAccessMode m = m"
proof -
  have "normalizeDashboardAccessMode ''login_only'' = ''login_only''" "normalizeDashboardAccessMode ''waf_only'' = ''waf_only''"
    "normalizeDashboardAccessMode ''waf_and_login'' = ''waf_and_login''" by code_simp+
  then show "m \<in> {''login_only'', ''waf_only'', ''waf_and_login''} \<Longrightarrow> normalizeDashboardAccessMode m = m" by blast
qed

lemma waf_mode_values:
  "dashboardWAFConfigFromEnv e = Inr c \<Longrightarrow> dw_Mode c \<in> {WAFModeDetection, WAFModeEnforcement}"
  by (auto simp: dashboardWAFConfigFromEnv_def Let_def split: if_splits)

text \<open>A valid cookie domain is its own normal form.\<close>

lemma valid_domain_chars:
  assumes "isValidCookieDomain d" "c \<in> set d"
  shows "label_char c \<or> c = CHR ''.''"
proof -
  from assms have "list_all valid_label (Split d (CHR ''.''))" by (auto simp: isValidCookieDomain_def Let_def split: if_splits)
  then have l: "\<forall>l \<in> set (Split d (CHR ''.'')). list_all label_char l" by (simp add: list_all_iff valid_label_def)
  have "c \<in> set (Join (Split d (CHR ''.'')) [CHR ''.''])" using assms(2) by (simp add: Join_Split)
  then obtain l where "l \<in> set (Split d (CHR ''.'')) \<and> c \<in> set l \<or> c = CHR ''.''"
    using Join_set by fastforce
  with l show ?thesis by (auto simp: list_all_iff)
qed

lemma normalizeDomain_valid:
  assumes "isValidCookieDomain d"
  shows "normalizeDomain d = d"
proof -
  have c: "graphic c \<and> lower_char c = c" if "c \<in> set d" for c
    using valid_domain_chars[OF assms that]
    by (auto simp: label_char_def is_digit_def graphic_def lower_char_def byte_def)
  then have "TrimSpace d = d" by (simp add: TrimSpace_all_graphic list_all_iff)
  moreover have "\<not> HasSuffix d ''.''" using assms by (simp add: isValidCookieDomain_def split: if_splits)
  moreover have "ToLower d = d" using c by (simp add: ToLower_def map_idI)
  ultimately show ?thesis by (simp add: normalizeDomain_def TrimSuffix_def Let_def)
qed

lemma cookie_domain_values: "authCookieDomainFromEnv e = Inr d \<Longrightarrow> d = [] \<or> isValidCookieDomain d"
  by (auto simp: authCookieDomainFromEnv_def Let_def split: if_splits)

text \<open>The resolvers look at the stored profile only; without one they use what the environment says.\<close>

definition resolved_mode :: "string \<Rightarrow> HostProfile \<Rightarrow> string" where
  "resolved_mode fallback p =
     (let mode = ToLower (TrimSpace (hp_DashboardAccessMode p)) in
      if mode \<in> set [''login_only'', ''waf_only'', ''waf_and_login''] then mode else fallback)"

lemma TrimSpace_words: "TrimSpace ''detection'' = ''detection''" "TrimSpace ''enforcement'' = ''enforcement''"
  "ToLower ''detection'' = ''detection''" "ToLower ''enforcement'' = ''enforcement''"
  by code_simp+

lemma access_mode_resolved:
  "dashboardAccessModeResolver fallback True dk = (case host_view dk of None \<Rightarrow> fallback | Some p \<Rightarrow> resolved_mode fallback p)"
  by (auto simp: dashboardAccessModeResolver_def host_view_def resolved_mode_def zero_HostProfile_def ToLower_def Let_def
      split: option.split host_doc.split)

definition normal_waf :: "HostWAFConfig \<Rightarrow> bool" where
  "normal_waf w \<longleftrightarrow> hw_Mode w \<in> {WAFModeDetection, WAFModeEnforcement} \<and>
     normalizeCustomRules (hw_IPAllowlist w) = hw_IPAllowlist w \<and> normalizeCustomRules (hw_CustomRules w) = hw_CustomRules w"

definition as_config :: "HostWAFConfig \<Rightarrow> DashboardWAFConfig" where
  "as_config w = \<lparr>dw_Mode = hw_Mode w, dw_IPAllowlist = hw_IPAllowlist w, dw_CustomRules = hw_CustomRules w\<rparr>"

lemmas waf_modes = WAFModeDetection_def WAFModeEnforcement_def

lemma normal_waf_normalized: "normal_waf (normalizeHostWAFConfig w)"
  by (simp add: normal_waf_def normalizeHostWAFConfig_def waf_modes)

lemma waf_resolved:
  assumes "host_view dk = Some p" "normal_waf (hp_DashboardWAF p)"
  shows "dashboardWAFConfigResolver fallback True dk = as_config (hp_DashboardWAF p)"
    and "normalizeDashboardWAFConfig (as_config (hp_DashboardWAF p)) = as_config (hp_DashboardWAF p)"
proof -
  have m: "TrimSpace (hw_Mode (hp_DashboardWAF p)) = hw_Mode (hp_DashboardWAF p)" "ToLower (hw_Mode (hp_DashboardWAF p)) = hw_Mode (hp_DashboardWAF p)"
    "hw_Mode (hp_DashboardWAF p) \<in> {WAFModeDetection, WAFModeEnforcement}" "hw_Mode (hp_DashboardWAF p) \<noteq> []"
    using assms(2) TrimSpace_words by (auto simp: normal_waf_def waf_modes)
  have "hd_file dk = Some (ProfileDoc p)"
  proof (cases "hd_file dk")
    case None
    with assms(1) m(4) show ?thesis by (auto simp: host_view_def zero_HostProfile_def)
  next
    case (Some doc)
    with assms(1) show ?thesis by (cases doc) (simp_all add: host_view_def)
  qed
  then show "dashboardWAFConfigResolver fallback True dk = as_config (hp_DashboardWAF p)"
    using m assms(2) by (auto simp: dashboardWAFConfigResolver_def as_config_def normal_waf_def normalizeCustomRules_def Let_def)
  show "normalizeDashboardWAFConfig (as_config (hp_DashboardWAF p)) = as_config (hp_DashboardWAF p)"
    using m by (auto simp: normalizeDashboardWAFConfig_def as_config_def Let_def)
qed

lemma set_waf_normal: "set_waf (Some w) p = Inr p' \<Longrightarrow> normal_waf (hp_DashboardWAF p')"
  by (auto simp: set_waf_def Let_def normal_waf_normalized split: sum.splits)

lemma updateHost_cases:
  assumes "updateHost hostProfiles (Some body) dk = (r, dk')"
  obtains (failed) f where "r = Inl f" and "host_view dk' = host_view dk"
  | (updated) q p' where "r = Inr \<lparr>hp_DisplayName = hp_DisplayName p',
        hp_DashboardAccessMode = normalizeAccessMode (hp_DashboardAccessMode p'),
        hp_DashboardWAF = normalizeHostWAFConfig (hp_DashboardWAF p')\<rparr>"
      and "host_view dk = Some q" and "edit_profile body q = Inr p'" and "host_view dk' = Some p'"
proof (cases r)
  case (Inl f)
  have "host_view dk' = host_view dk"
    using assms[unfolded Inl]
    by (auto simp: updateHost_def split: option.splits prod.splits if_splits sum.splits dest: hps.update_Inl)
  with Inl show thesis by (rule failed)
next
  case (Inr response)
  from assms[unfolded Inr] obtain e1 e2 q p' upd where q: "HP_Get e1 dk = Inr q"
    and ed: "edit_profile body q = Inr p'" and up: "HP_Update e2 p' dk = (Inr upd, dk')"
    and rs: "response = \<lparr>hp_DisplayName = hp_DisplayName upd,
        hp_DashboardAccessMode = normalizeAccessMode (hp_DashboardAccessMode upd),
        hp_DashboardWAF = normalizeHostWAFConfig (hp_DashboardWAF upd)\<rparr>"
    by (auto simp: updateHost_def split: option.splits prod.splits if_splits sum.splits)
  from hps.update_Inr[OF up] have "host_view dk' = Some p'" "upd = p'" by auto
  with Inr rs ed hps.get_Inr[OF q] show thesis by (intro updated) simp_all
qed

lemma edit_profile_waf:
  "edit_profile body q = Inr p' \<Longrightarrow> hq_DashboardWAF body = Some w \<Longrightarrow> normal_waf (hp_DashboardWAF p')"
  by (auto simp: edit_profile_def split: sum.splits dest: set_waf_normal)

lemma edit_profile_mode:
  "edit_profile body q = Inr p' \<Longrightarrow> hq_DashboardAccessMode body = Some raw \<Longrightarrow>
     hp_DashboardAccessMode p' \<in> {''login_only'', ''waf_only'', ''waf_and_login''}"
  by (auto simp: edit_profile_def set_access_mode_def set_waf_def Let_def split: sum.splits option.splits if_splits)


section \<open>Properties\<close>

text \<open>What a successful start has configured.\<close>

lemma launch_proxy_Inr:
  assumes "launch_proxy e lw logs = Inr (cfg, s, logger, logs')"
  obtains mode waf cookieDomain hardening ipFilter where
    "dashboardAccessModeFromEnv e = Inr mode" "dashboardWAFConfigFromEnv e = Inr waf" "authCookieDomainFromEnv e = Inr cookieDomain"
    "hardeningProfileFromEnv e = Inr hardening" "accessLogConfigFromEnv e = Inr (pc_accessLog cfg)"
    "pc_handler cfg = New_Handler e lw mode waf cookieDomain hardening ipFilter"
    "px_table s = (case dashboardAuthFromEnv e of None \<Rightarrow> NewTable | Some domain \<Rightarrow> Table_SetStatic domain ''localhost:8080'' NewTable)"
    "px_scanner s = newScannerLimiter (normalizeHardeningProfile hardening)"
  using assms by (auto simp: launch_proxy_def Let_def split: if_splits sum.splits option.splits)

lemma hardening_normal:
  assumes "h \<in> {HardeningOff, HardeningStandard, HardeningStrict}"
  shows "normalizeHardeningProfile h = h" "newScannerLimiter h = None \<longleftrightarrow> h = HardeningOff"
proof -
  have "normalizeHardeningProfile HardeningOff = HardeningOff" "normalizeHardeningProfile HardeningStandard = HardeningStandard"
    "normalizeHardeningProfile HardeningStrict = HardeningStrict" "HardeningStandard \<noteq> HardeningOff" "HardeningStrict \<noteq> HardeningOff" by code_simp+
  then show "normalizeHardeningProfile h = h" "newScannerLimiter h = None \<longleftrightarrow> h = HardeningOff"
    using assms by (auto simp: newScannerLimiter_def Let_def)
qed

lemma access_log_values:
  "accessLogConfigFromEnv e = Inr c \<Longrightarrow> 0 < gc_Retention c \<and> gc_WhitelistedKeys c \<noteq> []"
  by (auto simp: accessLogConfigFromEnv_def Let_def split: option.splits if_splits)

lemma dashboard_mode_values: "dashboardAccessMode h \<in> {''login_only'', ''waf_only'', ''waf_and_login''}"
  by (simp add: dashboardAccessMode_def normalizeDashboardAccessMode_def Let_def split: option.split)

lemma dashboard_waf_values: "dw_Mode (dashboardWAFConfig h) \<in> {WAFModeDetection, WAFModeEnforcement}"
  by (simp add: dashboardWAFConfig_def normalizeDashboardWAFConfig_def Let_def split: option.split)

text \<open>
  C35. A proxy that has started is configured within the rules, whatever the environment says: the modes of the
  dashboard and the hardening profile are among the known ones at every request, the scanner limiter runs exactly if
  hardening is on, the cookie domain is empty or a valid domain that the handler has left as it is, the access log
  keeps entries for a positive time and logs some headers, a secret that is set is not empty, and the domain of the
  dashboard is routed to the API and protected. All other values end the start with an error.
\<close>

theorem started_proxy_is_configured:
  assumes "launch_proxy e lw logs = Inr (cfg, s, logger, logs')" "h = pc_handler cfg profile can_read"
  shows "dashboardAccessMode h \<in> {''login_only'', ''waf_only'', ''waf_and_login''} \<and>
    dw_Mode (dashboardWAFConfig h) \<in> {WAFModeDetection, WAFModeEnforcement} \<and>
    hd_hardening h \<in> {HardeningOff, HardeningStandard, HardeningStrict} \<and>
    (px_scanner s = None \<longleftrightarrow> hd_hardening h = HardeningOff) \<and>
    (hd_authCookieDomain h = [] \<or> isValidCookieDomain (hd_authCookieDomain h)) \<and>
    0 < gc_Retention (pc_accessLog cfg) \<and> gc_WhitelistedKeys (pc_accessLog cfg) \<noteq> [] \<and>
    hd_jwtSecret h \<noteq> Some [] \<and>
    (\<forall>domain. hd_dashboardDomain h = Some domain \<longrightarrow> domain \<noteq> [] \<and>
       Table_Get domain (px_table s) = Some \<lparr>rt_Upstream = ''localhost:8080'', rt_Public = False, rt_BasicAuth = None, rt_Security = None\<rparr>)"
proof -
  from assms(1) obtain mode waf cookieDomain hardening ipFilter where
    c: "authCookieDomainFromEnv e = Inr cookieDomain" "hardeningProfileFromEnv e = Inr hardening"
      "accessLogConfigFromEnv e = Inr (pc_accessLog cfg)"
    and h: "pc_handler cfg = New_Handler e lw mode waf cookieDomain hardening ipFilter"
    and t: "px_table s = (case dashboardAuthFromEnv e of None \<Rightarrow> NewTable | Some domain \<Rightarrow> Table_SetStatic domain ''localhost:8080'' NewTable)"
    and sc: "px_scanner s = newScannerLimiter (normalizeHardeningProfile hardening)"
    by (rule launch_proxy_Inr)
  note hv = hardening_values[OF c(2)]
  have "0 < gc_Retention (pc_accessLog cfg) \<and> gc_WhitelistedKeys (pc_accessLog cfg) \<noteq> []"
    by (rule access_log_values[OF c(3)])
  moreover have "normalizeDomain cookieDomain = [] \<or> isValidCookieDomain (normalizeDomain cookieDomain)"
  proof -
    have "normalizeDomain [] = []" by code_simp
    then show ?thesis using cookie_domain_values[OF c(1)] normalizeDomain_valid by metis
  qed
  moreover have "hd_hardening h = hardening" "hd_authCookieDomain h = normalizeDomain cookieDomain"
    "hd_jwtSecret h = authFromEnv e" "hd_dashboardDomain h = dashboardAuthFromEnv e"
    by (simp_all add: assms(2) h New_Handler_def hardening_normal[OF hv])
  moreover have "authFromEnv e \<noteq> Some []" "dashboardAuthFromEnv e \<noteq> Some []"
    by (simp_all add: authFromEnv_def dashboardAuthFromEnv_def Let_def)
  ultimately show ?thesis
    using hv hardening_normal[OF hv] dashboard_mode_values[of h] dashboard_waf_values[of h]
    by (auto simp: t sc Table_Get_def Table_SetStatic_def NewTable_def)
qed


lemma access_mode_word:
  assumes "x \<in> {''login_only'', ''waf_only'', ''waf_and_login''}"
  shows "TrimSpace x = x \<and> ToLower x = x \<and> normalizeAccessMode x = x"
proof -
  have "TrimSpace ''login_only'' = ''login_only''" "TrimSpace ''waf_only'' = ''waf_only''" "TrimSpace ''waf_and_login'' = ''waf_and_login''"
    "ToLower ''login_only'' = ''login_only''" "ToLower ''waf_only'' = ''waf_only''" "ToLower ''waf_and_login'' = ''waf_and_login''"
    "normalizeAccessMode ''login_only'' = ''login_only''" "normalizeAccessMode ''waf_only'' = ''waf_only''"
    "normalizeAccessMode ''waf_and_login'' = ''waf_and_login''" by code_simp+
  with assms show ?thesis by blast
qed

lemma normal_waf_fixed: "normal_waf x \<Longrightarrow> normalizeHostWAFConfig x = x"
  using TrimSpace_words by (auto simp: normal_waf_def normalizeHostWAFConfig_def waf_modes intro!: HostWAFConfig.equality)

text \<open>
  C34. The two programs agree on the dashboard's protection, which one stores and the other enforces. After a request to
  the API has changed the access mode or the firewall of the dashboard, the proxy applies to its very next request the
  mode and the firewall that the API answered with; after a request that failed, at whatever step, it applies what it
  applied before. What the request does not change stays in force, except that a firewall that was never stored is
  the environment's.
\<close>

theorem proxy_enforces_stored_profile:
  assumes "launch_proxy e lw logs = Inr (cfg, s, logger, logs')"
    and "updateHost hostProfiles (Some body) dk = (r, dk')"
    and "before = pc_handler cfg dk True" "h = pc_handler cfg dk' True"
  shows "(\<forall>shown raw. r = Inr shown \<longrightarrow> hq_DashboardAccessMode body = Some raw \<longrightarrow>
      dashboardAccessMode h = hp_DashboardAccessMode shown \<and> dashboardAccessMode h = ToLower (TrimSpace raw)) \<and>
    (\<forall>shown w. r = Inr shown \<longrightarrow> hq_DashboardWAF body = Some w \<longrightarrow> dashboardWAFConfig h = as_config (hp_DashboardWAF shown)) \<and>
    (\<forall>shown. r = Inr shown \<longrightarrow> hq_DashboardAccessMode body = None \<longrightarrow> dashboardAccessMode h = dashboardAccessMode before) \<and>
    (\<forall>f. r = Inl f \<longrightarrow> dashboardAccessMode h = dashboardAccessMode before)"
proof -
  from assms(1) obtain mode waf cookieDomain hardening ipFilter where
    handler: "pc_handler cfg = New_Handler e lw mode waf cookieDomain hardening ipFilter"
    by (rule launch_proxy_Inr)
  have m: "dashboardAccessMode (pc_handler cfg d True) =
      normalizeDashboardAccessMode (case host_view d of None \<Rightarrow> mode | Some p \<Rightarrow> resolved_mode mode p)" for d
    by (simp add: handler New_Handler_def dashboardAccessMode_def access_mode_resolved)
  have w: "dashboardWAFConfig (pc_handler cfg d True) = normalizeDashboardWAFConfig (dashboardWAFConfigResolver waf True d)" for d
    by (simp add: handler New_Handler_def dashboardWAFConfig_def)
  from assms(2) show ?thesis
  proof (cases rule: updateHost_cases)
    case (failed f)
    then show ?thesis by (simp add: assms(3,4) m)
  next
    case (updated q p')
    note keeps = edit_profile_keeps[OF updated(3)]
    have mode': "dashboardAccessMode h = hp_DashboardAccessMode p' \<and> normalizeAccessMode (hp_DashboardAccessMode p') = hp_DashboardAccessMode p'"
      if "hq_DashboardAccessMode body = Some raw" for raw
    proof -
      note v = edit_profile_mode[OF updated(3) that]
      have "resolved_mode mode p' = hp_DashboardAccessMode p'" using v access_mode_word[OF v] by (simp add: resolved_mode_def)
      then show ?thesis using updated(4) normalize_access_mode[OF v] access_mode_word[OF v] by (simp add: assms(4) m)
    qed
    have waf': "dashboardWAFConfig h = as_config (hp_DashboardWAF p') \<and> normalizeHostWAFConfig (hp_DashboardWAF p') = hp_DashboardWAF p'"
      if "hq_DashboardWAF body = Some x" for x
    proof -
      note n = edit_profile_waf[OF updated(3) that]
      from waf_resolved[OF updated(4) n] normal_waf_fixed[OF n] show ?thesis by (simp add: assms(4) w)
    qed
    have same: "dashboardAccessMode h = dashboardAccessMode before" if "hq_DashboardAccessMode body = None"
      using keeps(2)[OF that] updated(2,4) by (simp add: assms(3,4) m resolved_mode_def)
    show ?thesis using mode' waf' same keeps(5) updated(1) by auto
  qed
qed


text \<open>
  C36. One secret serves both programs. If the API and the proxy start from the same environment and the API's
  authentication is on, the proxy accepts the tokens the API issues until they expire, and no token that has expired
  or that was signed with another secret; if it is off, the proxy asks for no token at all.
\<close>

theorem proxy_accepts_api_tokens:
  assumes "token_env_ok te" "launch_proxy e lw logs = Inr (cfg, s, logger, logs')"
    and "lw_validateToken lw = (\<lambda>secret token. \<not> isl (ValidateToken te secret token moment))"
    and "api_authFromEnv e st db = Inr auth" "h = pc_handler cfg profile can_read"
  shows "case auth of
      Some (secret, db') \<Rightarrow>
        (rq_TokenCookie r = Some (CreateToken te secret username expiry now) \<longrightarrow> (validProxyToken h r \<longleftrightarrow> Unix moment \<le> Unix (now + expiry))) \<and>
        (\<forall>token. rq_TokenCookie r = Some token \<longrightarrow> validProxyToken h r \<longrightarrow> (\<exists>claims. signed_by te secret token claims)) \<and>
        db_users db' = db_users db
    | None \<Rightarrow> validProxyToken h r"
proof -
  from assms(2) obtain mode waf cookieDomain hardening ipFilter where
    "pc_handler cfg = New_Handler e lw mode waf cookieDomain hardening ipFilter"
    by (rule launch_proxy_Inr)
  then have h: "hd_jwtSecret h = authFromEnv e" "hd_validateToken h = (\<lambda>secret token. \<not> isl (ValidateToken te secret token moment))"
    by (simp_all add: assms(3,5) New_Handler_def)
  show ?thesis
  proof (cases auth)
    case None
    then have "authFromEnv e = None" using assms(4) by (auto simp: api_authFromEnv_def Let_def split: option.splits if_splits sum.splits)
    with None h show ?thesis by (simp add: validProxyToken_def)
  next
    case (Some a)
    obtain secret db' where a: "a = (secret, db')" by (cases a)
    have sec: "authFromEnv e = Some secret" and db': "db' = snd (CleanupExpiredTokens (as_cleanup_fails st) (as_now st) db)"
      using assms(4) by (auto simp: Some a api_authFromEnv_def Let_def split: option.splits if_splits sum.splits)
    have "secret \<noteq> []" using sec by (auto simp: authFromEnv_def Let_def split: if_splits)
    then have v: "validProxyToken h r = (case rq_TokenCookie r of None \<Rightarrow> False | Some token \<Rightarrow> \<not> isl (ValidateToken te secret token moment))"
      by (simp add: validProxyToken_def h sec split: option.split)
    have "\<exists>claims. signed_by te secret token claims" if "\<not> isl (ValidateToken te secret token moment)" for token
      using that by (cases "ValidateToken te secret token moment") (auto simp: ValidateToken_Inr)
    moreover have "db_users db' = db_users db" by (simp add: db' CleanupExpiredTokens_def)
    ultimately show ?thesis by (simp add: Some a v ValidateToken_CreateToken[OF assms(1)])
  qed
qed

text \<open>What a forwarded request is forwarded to.\<close>

lemma forwarded_to_route:
  assumes "proxy h now r s = (Forward upstream outcome, s')"
  shows "\<exists>route. Table_Get (request_host r) (px_table s) = Some route \<and> upstream = rt_Upstream route"
proof -
  obtain b s1 where sc: "scanner_step (clientIP r) now s = (b, s1)" by fastforce
  have "px_table s1 = px_table s"
    using sc by (auto simp: scanner_step_def Let_def split: option.splits if_splits prod.splits)
  with assms sc obtain route where route: "Table_Get (request_host r) (px_table s) = Some route"
    and rs: "route_step h r (clientIP r) (request_host r) route s1 = (Forward upstream outcome, s')"
    by (auto simp: proxy_def Let_def split: if_splits ip_verdict.splits option.splits)
  obtain v s2 where w: "waf_step h r (clientIP r) (request_host r) route s1 = (v, s2)" by fastforce
  have "v \<noteq> Inl x" if "x = Forward upstream outcome" for x
    using w that by (auto simp: waf_step_def split: option.splits if_splits prod.splits sum.splits)
  with rs w obtain oc where "auth_step h r (request_host r) route oc = Forward upstream outcome"
    by (cases v) (auto simp: route_step_def split: ip_verdict.splits if_splits option.splits)
  then have "upstream = rt_Upstream route" by (auto simp: auth_step_def split: if_splits)
  with route show ?thesis by blast
qed

text \<open>
  The listener for plain HTTP, port 80 by default, serves the internal control API to everybody: a request from any
  address and without any credential replaces the route of any domain but the dashboard's, and from then on every
  request for that domain that the proxy forwards goes to the upstream that was named, until the route is set again.
\<close>

theorem anyone_can_replace_routes:
  assumes "rq_Method r = ''POST''" "rq_Path r = ''/internal/routes''" "domain \<noteq> []" "upstream \<noteq> []"
    and "map_of (tb_staticRoutes (px_table s)) (normalizeDomain domain) = None"
    and "newHTTPMux srv now r limit (Some (domain, upstream)) s = (answer, s')"
  shows "answer = Code 204 \<and>
    (\<forall>h moment q to outcome s''. proxy h moment q s' = (Forward to outcome, s'') \<longrightarrow> request_host q = normalizeDomain domain \<longrightarrow>
       to = upstream)"
proof -
  have s': "answer = Code 204" "s' = s\<lparr>px_table := Table_Set (normalizeDomain domain) upstream False None None (px_table s)\<rparr>"
    using assms by (simp_all add: newHTTPMux_def setRoute_def)
  have "Table_Get (normalizeDomain domain) (px_table s') =
      Some \<lparr>rt_Upstream = upstream, rt_Public = False, rt_BasicAuth = None, rt_Security = None\<rparr>"
    using assms(5) by (simp add: s'(2) Table_Get_def Table_Set_def update_conv')
  with forwarded_to_route[where s = s'] s'(1) show ?thesis by fastforce
qed

text \<open>
  The first rule that is stored drops the environment's allow list. As long as no firewall is stored the proxy
  applies the one of the environment, of which the API shows nothing; storing custom rules alone, with the API, has the
  proxy apply an empty allow list from the next request on.
\<close>

theorem first_rule_drops_allowlist:
  assumes "launch_proxy e lw logs = Inr (cfg, s, logger, logs')" "dashboardWAFConfigFromEnv e = Inr waf"
    and "host_view dk = Some p" "hp_DashboardWAF p = hp_DashboardWAF zero_HostProfile"
    and "hq_DashboardWAF body = Some \<lparr>wq_Mode = None, wq_IPAllowlist = None, wq_CustomRules = Some rules\<rparr>"
    and "updateHost hostProfiles (Some body) dk = (Inr answer, dk')"
  shows "dw_IPAllowlist (dashboardWAFConfig (pc_handler cfg dk True)) = dw_IPAllowlist waf \<and>
    dw_IPAllowlist (dashboardWAFConfig (pc_handler cfg dk' True)) = []"
proof -
  from assms(1,2) obtain mode cookieDomain hardening ipFilter where
    handler: "pc_handler cfg = New_Handler e lw mode waf cookieDomain hardening ipFilter"
    using launch_proxy_Inr[OF assms(1)] by (metis sum.inject(2))
  have w: "dashboardWAFConfig (pc_handler cfg d True) = normalizeDashboardWAFConfig (dashboardWAFConfigResolver waf True d)" for d
    by (simp add: handler New_Handler_def dashboardWAFConfig_def)
  have "dashboardWAFConfigResolver waf True dk = waf"
    using assms(3,4) by (auto simp: dashboardWAFConfigResolver_def host_view_def zero_HostProfile_def Let_def split: option.splits host_doc.splits)
  moreover from assms(6) have "dw_IPAllowlist (dashboardWAFConfig (pc_handler cfg dk' True)) = []"
  proof (cases rule: updateHost_cases)
    case (updated q p')
    have q: "q = p" using updated(2) assms(3) by simp
    have "hw_IPAllowlist (hp_DashboardWAF p') = []"
      using updated(3) assms(4,5)
      by (auto simp: q edit_profile_def set_display_name_def set_access_mode_def set_waf_def set_waf_mode_def set_waf_allowlist_def
          normalizeHostWAFConfig_def normalizeCustomRules_def zero_HostProfile_def Let_def split: sum.splits option.splits if_splits)
    with waf_resolved[OF updated(4) edit_profile_waf[OF updated(3) assms(5)]] show ?thesis by (simp add: w as_config_def)
  qed simp
  ultimately show ?thesis by (simp add: w normalizeDashboardWAFConfig_def Let_def)
qed

text \<open>Without settings, the orchestrator changes routes at a port on which the proxy does not listen.\<close>

definition plain_env :: process_env where
  "plain_env = \<lparr>en_get = (\<lambda>_. []), en_duration = (\<lambda>_. Some 604800000000000)\<rparr>"

lemma default_route_url_is_unserved:
  "proxyURLFromEnv plain_env = ''http://localhost:2019'' \<and>
   portFromAddr (envOrDefault plain_env ''LOTSEN_PROXY_HTTP_ADDR'' (envOrDefault plain_env ''LOTSEN_PROXY_ADDR'' '':80'')) = ''80'' \<and>
   portFromAddr (envOrDefault plain_env ''LOTSEN_PROXY_HTTPS_ADDR'' '':443'') = ''443''"
  by code_simp


section \<open>Witnesses\<close>

definition settings0 :: process_env where
  "settings0 = plain_env\<lparr>en_get := (\<lambda>key.
     if key = ''LOTSEN_DASHBOARD_DOMAIN'' then ''dash.example.com''
     else if key = ''LOTSEN_JWT_SECRET'' then ''s3cret''
     else if key = ''LOTSEN_AUTH_COOKIE_DOMAIN'' then ''.example.com''
     else if key = ''LOTSEN_DASHBOARD_IP_ALLOWLIST'' then ''10.0.0.0/8'' else [])\<rparr>"

definition launch_world0 :: "string launch_world" where
  "launch_world0 = \<lparr>lw_store = True, lw_certDir = True, lw_hashes = \<lparr>ha_sha256 = (\<lambda>x. x), ha_bcrypt_ok = (=)\<rparr>, lw_waf = waf_engine0,
     lw_validateToken = (\<lambda>secret token. \<not> isl (ValidateToken token_env0 secret token 0)), lw_logger = logger_env0\<rparr>"

lemma launched0: "\<exists>cfg s logger logs. launch_proxy settings0 launch_world0 [] = Inr (cfg, s, logger, logs)"
proof -
  have "dashboardAccessModeFromEnv settings0 = Inr ''login_only''" "authCookieDomainFromEnv settings0 = Inr ''example.com''"
    "hardeningProfileFromEnv settings0 = Inr ''standard''"
    "dashboardWAFConfigFromEnv settings0 = Inr \<lparr>dw_Mode = ''detection'', dw_IPAllowlist = [''10.0.0.0/8''], dw_CustomRules = []\<rparr>"
    "NewIPFilter (parseCSVList (en_get settings0 ''LOTSEN_IP_DENYLIST'')) (parseCSVList (en_get settings0 ''LOTSEN_IP_ALLOWLIST'')) =
      Inr \<lparr>ipf_globalDenylist = [], ipf_globalAllowlist = []\<rparr>" by code_simp+
  moreover have "\<not> isl (NewWAF waf_engine0)" by code_simp
  then obtain w where "NewWAF waf_engine0 = Inr w" by (cases "NewWAF waf_engine0") auto
  moreover have "\<not> isl (accessLogConfigFromEnv settings0)" "gc_Dir (case accessLogConfigFromEnv settings0 of Inr c \<Rightarrow> c) = ''/var/lib/lotsen/logs/proxy''"
    by code_simp+
  then obtain c where "accessLogConfigFromEnv settings0 = Inr c" "gc_Dir c = ''/var/lib/lotsen/logs/proxy''"
    by (cases "accessLogConfigFromEnv settings0") auto
  moreover have "TrimSpace ''/var/lib/lotsen/logs/proxy'' \<noteq> []" by code_simp
  then have "\<exists>l dir. NewFileAccessLogger logger_env0 ''/var/lib/lotsen/logs/proxy'' retention keys [] = Some (l, dir)" for retention keys
    by (simp add: NewFileAccessLogger_def rotateIfNeeded_def logger_env0_def Let_def)
  then obtain l dir where "NewFileAccessLogger logger_env0 ''/var/lib/lotsen/logs/proxy'' (gc_Retention c) (gc_WhitelistedKeys c) [] = Some (l, dir)"
    by blast
  ultimately show ?thesis by (simp add: launch_proxy_def launch_world0_def Let_def)
qed

theorem started_proxy_is_configured_witness:
  "\<exists>cfg s logger logs. launch_proxy settings0 launch_world0 [] = Inr (cfg, s, logger, logs) \<and>
     isValidCookieDomain (hd_authCookieDomain (pc_handler cfg \<lparr>hd_file = None, hd_tmp = None\<rparr> True)) \<and>
     map_option rt_Upstream (Table_Get ''dash.example.com'' (px_table s)) = Some ''localhost:8080''"
proof -
  obtain cfg s logger logs where l: "launch_proxy settings0 launch_world0 [] = Inr (cfg, s, logger, logs)" using launched0 by blast
  let ?h = "pc_handler cfg \<lparr>hd_file = None, hd_tmp = None\<rparr> True"
  from l obtain mode waf cookieDomain hardening ipFilter where
    "authCookieDomainFromEnv settings0 = Inr cookieDomain" "pc_handler cfg = New_Handler settings0 launch_world0 mode waf cookieDomain hardening ipFilter"
    by (rule launch_proxy_Inr)
  moreover have "authCookieDomainFromEnv settings0 = Inr ''example.com''" "dashboardAuthFromEnv settings0 = Some ''dash.example.com''"
    "normalizeDomain ''example.com'' = ''example.com''" by code_simp+
  ultimately have "hd_authCookieDomain ?h = ''example.com''" "hd_dashboardDomain ?h = Some ''dash.example.com''"
    by (simp_all add: New_Handler_def)
  with started_proxy_is_configured[OF l refl, of "\<lparr>hd_file = None, hd_tmp = None\<rparr>" True] l show ?thesis by auto
qed

theorem proxy_enforces_stored_profile_witness:
  "\<exists>cfg s logger logs. launch_proxy settings0 launch_world0 [] = Inr (cfg, s, logger, logs) \<and>
     dashboardAccessMode (pc_handler cfg (snd (updateHost (Some (host_env0, host_env0)) (Some host_request0) \<lparr>hd_file = None, hd_tmp = None\<rparr>)) True) =
       ''waf_only''"
proof -
  let ?r = "updateHost (Some (host_env0, host_env0)) (Some host_request0) \<lparr>hd_file = None, hd_tmp = None\<rparr>"
  obtain cfg s logger logs where l: "launch_proxy settings0 launch_world0 [] = Inr (cfg, s, logger, logs)" using launched0 by blast
  have "\<not> isl (fst ?r)" by code_simp
  then obtain x where x: "fst ?r = Inr x" by (cases "fst ?r") auto
  have "ToLower (TrimSpace ''WAF_only'') = ''waf_only''" by code_simp
  moreover have "hq_DashboardAccessMode host_request0 = Some ''WAF_only''" by (simp add: host_request0_def)
  ultimately show ?thesis
    using proxy_enforces_stored_profile[OF l prod.collapse[of ?r, symmetric] refl refl] x l by metis
qed

definition db0 :: "unit user_db" where
  "db0 = \<lparr>db_users = [], db_passkeys = [], db_invites = []\<rparr>"

theorem proxy_accepts_api_tokens_witness:
  "\<exists>cfg s logger logs. launch_proxy settings0 launch_world0 [] = Inr (cfg, s, logger, logs) \<and>
     validProxyToken (pc_handler cfg \<lparr>hd_file = None, hd_tmp = None\<rparr> True)
       (request0\<lparr>rq_TokenCookie := Some (CreateToken token_env0 ''s3cret'' ''bob'' 3600000000000 0)\<rparr>)"
proof -
  let ?st = "\<lparr>as_open = True, as_cleanup_fails = False, as_has_fails = False, as_now = 0\<rparr>"
  obtain cfg s logger logs where l: "launch_proxy settings0 launch_world0 [] = Inr (cfg, s, logger, logs)" using launched0 by blast
  have v: "lw_validateToken launch_world0 = (\<lambda>secret token. \<not> isl (ValidateToken token_env0 secret token 0))"
    by (simp add: launch_world0_def)
  have "authFromEnv settings0 = Some ''s3cret''" by code_simp
  then have a: "api_authFromEnv settings0 ?st db0 = Inr (Some (''s3cret'', snd (CleanupExpiredTokens False 0 db0)))"
    by (simp add: api_authFromEnv_def HasAnyUser_def)
  have "Unix 0 \<le> Unix (0 + 3600000000000)" by code_simp
  then show ?thesis
    using proxy_accepts_api_tokens[OF token_env0_ok l v a refl, where profile = "\<lparr>hd_file = None, hd_tmp = None\<rparr>"
        and can_read = True and now = 0 and expiry = 3600000000000 and username = "''bob''"
        and r = "request0\<lparr>rq_TokenCookie := Some (CreateToken token_env0 ''s3cret'' ''bob'' 3600000000000 0)\<rparr>"] l
    by auto
qed

theorem anyone_can_replace_routes_witness:
  "fst (newHTTPMux (\<lparr>ht_handler = handler0, ht_provider = None, ht_order = id, ht_httpsAddr = '':443''\<rparr> :: (string, access_entry) http_server) 100
      (request0\<lparr>rq_Method := ''POST'', rq_Path := ''/internal/routes''\<rparr>) [] (Some (''web.example.com'', ''203.0.113.9:80'')) state0) = Code 204"
proof -
  let ?m = "newHTTPMux (\<lparr>ht_handler = handler0, ht_provider = None, ht_order = id, ht_httpsAddr = '':443''\<rparr> :: (string, access_entry) http_server) 100
      (request0\<lparr>rq_Method := ''POST'', rq_Path := ''/internal/routes''\<rparr>) [] (Some (''web.example.com'', ''203.0.113.9:80'')) state0"
  have "map_of (tb_staticRoutes (px_table state0)) (normalizeDomain ''web.example.com'') = None" by code_simp
  from anyone_can_replace_routes[OF _ _ _ _ this, of "request0\<lparr>rq_Method := ''POST'', rq_Path := ''/internal/routes''\<rparr>" "''203.0.113.9:80''"
      "\<lparr>ht_handler = handler0, ht_provider = None, ht_order = id, ht_httpsAddr = '':443''\<rparr> :: (string, access_entry) http_server"
      100 "[]" "fst ?m" "snd ?m"] show ?thesis by simp
qed

definition rules_only0 :: hostRequest where
  "rules_only0 = \<lparr>hq_DisplayName = None, hq_DashboardAccessMode = None,
     hq_DashboardWAF = Some \<lparr>wq_Mode = None, wq_IPAllowlist = None, wq_CustomRules = Some [''SecRule A'']\<rparr>\<rparr>"

theorem first_rule_drops_allowlist_witness:
  "\<exists>cfg s logger logs. launch_proxy settings0 launch_world0 [] = Inr (cfg, s, logger, logs) \<and>
     dw_IPAllowlist (dashboardWAFConfig (pc_handler cfg \<lparr>hd_file = None, hd_tmp = None\<rparr> True)) = [''10.0.0.0/8''] \<and>
     dw_IPAllowlist (dashboardWAFConfig (pc_handler cfg
       (snd (updateHost (Some (host_env0, host_env0)) (Some rules_only0) \<lparr>hd_file = None, hd_tmp = None\<rparr>)) True)) = []"
proof -
  let ?r = "updateHost (Some (host_env0, host_env0)) (Some rules_only0) \<lparr>hd_file = None, hd_tmp = None\<rparr>"
  obtain cfg s logger logs where l: "launch_proxy settings0 launch_world0 [] = Inr (cfg, s, logger, logs)" using launched0 by blast
  have w: "dashboardWAFConfigFromEnv settings0 = Inr \<lparr>dw_Mode = ''detection'', dw_IPAllowlist = [''10.0.0.0/8''], dw_CustomRules = []\<rparr>" by code_simp
  have "\<not> isl (fst ?r)" by code_simp
  then obtain x where "fst ?r = Inr x" by (cases "fst ?r") auto
  then have r: "?r = (Inr x, snd ?r)" by (metis prod.collapse)
  have v: "host_view \<lparr>hd_file = None, hd_tmp = None\<rparr> = Some zero_HostProfile" by (simp add: host_view_def)
  have b: "hq_DashboardWAF rules_only0 = Some \<lparr>wq_Mode = None, wq_IPAllowlist = None, wq_CustomRules = Some [''SecRule A'']\<rparr>"
    by (simp add: rules_only0_def)
  from first_rule_drops_allowlist[OF l w v refl b r] l show ?thesis by auto
qed

end
