(* ===== verification/Cli.thy ===== *)
theory Cli
  imports Launch
begin

text \<open>
  The command line for the host (\<open>cli/cmd/lotsen/main.go\<close>): set-up, upgrade, restart of the proxy,
  the check of the installation, and invitations.

  A command takes its parsed flags (\<open>None\<close> if they do not parse), what the environment, the terminal
  and the network answer, and the world it changes: temporary files, the scripts that ran with their
  environment, restarts of the proxy. The terminal is the list of the lines that the prompts will read,
  absent where \<open>/dev/tty\<close> cannot be used. Of several values of a variable the last one counts.
\<close>

section \<open>World and errors\<close>

datatype cli_error =
    BadFlags | NeedsTTY | InvalidProfile string | InvalidHardening string | NeedsDomain | PromptFailed | Cancelled
  | DownloadFailed | DownloadStatus int | CreateScript | WriteScript | ChmodScript | CloseScript | ScriptFailed
  | HashFailed | RestartFailed | OpenUsers string | RandomFailed | InviteFailed | DoctorIssues

record cli_world =
  cw_tmp :: "string gomap"
  cw_ran :: "(string \<times> string gomap) list"
  cw_restarts :: nat

definition var :: "string gomap \<Rightarrow> string \<Rightarrow> string option" where
  "var vars key = map_of (rev vars) key"

section \<open>Prompts\<close>

definition TrimNewlines :: "string \<Rightarrow> string" where
  "TrimNewlines s = rev (dropWhile (\<lambda>c. c = CHR 0x0D \<or> c = line_feed) (rev s))"

type_synonym terminal = "string option list"

definition promptLine :: "terminal \<Rightarrow> string option \<times> terminal" where
  "promptLine tty = (case tty of [] \<Rightarrow> (None, []) | line # rest \<Rightarrow> (map_option TrimNewlines line, rest))"

definition promptYesNo :: "bool \<Rightarrow> terminal \<Rightarrow> bool option \<times> terminal" where
  "promptYesNo defaultYes tty =
     (case promptLine tty of
        (None, rest) \<Rightarrow> (None, rest)
      | (Some line, rest) \<Rightarrow>
          (let v = ToLower (TrimSpace line) in
           (Some (if v = [] then defaultYes
                  else if v = ''y'' \<or> v = ''yes'' then True
                  else if v = ''n'' \<or> v = ''no'' then False
                  else defaultYes), rest)))"

definition promptProfileWithStrictDefault :: "terminal \<Rightarrow> string \<times> terminal" where
  "promptProfileWithStrictDefault tty =
     (case promptLine tty of
        (None, rest) \<Rightarrow> (''strict'', rest)
      | (Some choice, rest) \<Rightarrow>
          (let c = TrimSpace choice in
           (if c \<in> set ['''', ''1'', ''strict''] then ''strict''
            else if c \<in> set [''2'', ''standard''] then ''standard''
            else if c \<in> set [''3'', ''off''] then ''off''
            else ''strict'', rest)))"

section \<open>Releases\<close>

definition releaseBaseLatest :: string where
  "releaseBaseLatest = ''https://github.com/lotsendev/lotsen/releases/latest/download''"

definition releaseScriptURL :: "string \<Rightarrow> string \<Rightarrow> string" where
  "releaseScriptURL version0 name =
     (let version = TrimSpace version0 in
      if version = [] \<or> version = ''latest'' then releaseBaseLatest @ ''/'' @ name
      else ''https://github.com/lotsendev/lotsen/releases/download/'' @ version @ ''/'' @ name)"

definition determineUpgradeVersions :: "string \<Rightarrow> (unit + string \<times> string) option \<Rightarrow> string \<times> string" where
  "determineUpgradeVersions target lookup =
     (let to = (if TrimSpace target = [] then ''latest'' else TrimSpace target) in
      case lookup of
        None \<Rightarrow> (''unknown'', to)
      | Some (Inl _) \<Rightarrow> (''unknown'', to)
      | Some (Inr (currentVersion, latestVersion)) \<Rightarrow>
          (if TrimSpace currentVersion \<noteq> [] then TrimSpace currentVersion else ''unknown'',
           if to = ''latest'' \<and> TrimSpace latestVersion \<noteq> [] then TrimSpace latestVersion else to))"

text \<open>The version endpoint: no answer, or a status with a body that may not decode.\<close>

definition fetchLocalVersionSnapshot :: "unit + int \<times> (string \<times> string) option \<Rightarrow> unit + string \<times> string" where
  "fetchLocalVersionSnapshot answer =
     (case answer of
        Inl _ \<Rightarrow> Inl ()
      | Inr (code, body) \<Rightarrow> if code \<noteq> 200 then Inl () else (case body of None \<Rightarrow> Inl () | Some answered \<Rightarrow> Inr answered))"

fun checksum_lines :: "string \<Rightarrow> string list \<Rightarrow> string option" where
  "checksum_lines name [] = None"
| "checksum_lines name (line # lines) =
     (let fields = Fields line in
      if length fields \<ge> 2 \<and> fields ! 1 = name then Some (fields ! 0) else checksum_lines name lines)"

definition parseChecksumEntry :: "string \<Rightarrow> string \<Rightarrow> unit + string" where
  "parseChecksumEntry body name =
     (case scanned MaxScanTokenSize body of
        (lines, complete) \<Rightarrow>
          (case checksum_lines name lines of Some h \<Rightarrow> Inr h | None \<Rightarrow> if complete then Inr [] else Inl ()))"

definition fetchRemoteHash :: "(string \<Rightarrow> unit + int \<times> string) \<Rightarrow> string \<Rightarrow> string \<Rightarrow> unit + string" where
  "fetchRemoteHash download version binaryName =
     (case download (releaseScriptURL version ''sha256sums.txt'') of
        Inl _ \<Rightarrow> Inl ()
      | Inr (code, body) \<Rightarrow>
          if code = 404 then Inr [] else if code \<noteq> 200 then Inl () else parseChecksumEntry body binaryName)"

definition proxyRestartNeeded :: "string \<Rightarrow> string \<Rightarrow> bool" where
  "proxyRestartNeeded preHash currentHash \<longleftrightarrow> preHash = [] \<or> currentHash \<noteq> preHash"

section \<open>Running a script of a release\<close>

text \<open>The download, the name of the temporary file if it can be created, after how many bytes the
  copy breaks off if it does, the other steps, the removal, and whether the script succeeds.\<close>

record script_env =
  sc_download :: "string \<Rightarrow> unit + int \<times> string"
  sc_create :: "string option"
  sc_copy :: "nat option"
  sc_chmod :: bool
  sc_close :: bool
  sc_remove :: bool
  sc_started :: string
  sc_run :: bool

definition remove_tmp :: "script_env \<Rightarrow> string \<Rightarrow> cli_world \<Rightarrow> cli_world" where
  "remove_tmp se name w = (if sc_remove se then w\<lparr>cw_tmp := AList.delete name (cw_tmp w)\<rparr> else w)"

definition runRemoteScript :: "script_env \<Rightarrow> string \<Rightarrow> string gomap \<Rightarrow> cli_world \<Rightarrow> (cli_error + unit) \<times> cli_world" where
  "runRemoteScript se url vars w =
     (case sc_download se url of
        Inl _ \<Rightarrow> (Inl DownloadFailed, w)
      | Inr (code, body) \<Rightarrow>
          if code \<noteq> 200 then (Inl (DownloadStatus code), w)
          else case sc_create se of
            None \<Rightarrow> (Inl CreateScript, w)
          | Some name \<Rightarrow>
              (let w1 = w\<lparr>cw_tmp := AList.update name (case sc_copy se of None \<Rightarrow> body | Some n \<Rightarrow> take n body) (cw_tmp w)\<rparr> in
               if sc_copy se \<noteq> None then (Inl WriteScript, remove_tmp se name w1)
               else if \<not> sc_chmod se then (Inl ChmodScript, remove_tmp se name w1)
               else if \<not> sc_close se then (Inl CloseScript, remove_tmp se name w1)
               else
                 (if sc_run se then Inr () else Inl ScriptFailed,
                  remove_tmp se name (w1\<lparr>cw_ran := cw_ran w1 @ [(body, vars @ [(''LOTSEN_SETUP_STARTED_AT'', sc_started se)])]\<rparr>))))"

section \<open>Set-up\<close>

record setup_flags =
  sf_interactive :: bool
  sf_nonInteractive :: bool
  sf_yes :: bool
  sf_profile :: string
  sf_hardening :: string
  sf_version :: string
  sf_expose :: bool
  sf_domain :: string
  sf_cookieDomain :: string

definition known_profile :: "string \<Rightarrow> bool" where
  "known_profile p \<longleftrightarrow> p \<in> set [''strict'', ''standard'', ''off'']"

definition setup_vars :: "setup_flags \<Rightarrow> string \<Rightarrow> string \<Rightarrow> string gomap \<Rightarrow> string gomap" where
  "setup_vars fl profile hardening environ =
     environ @ [(''LOTSEN_VERSION'', sf_version fl), (''LOTSEN_SECURITY_PROFILE'', profile), (''LOTSEN_PROXY_HARDENING_PROFILE'', hardening)] @
     (if sf_nonInteractive fl then [(''LOTSEN_NON_INTERACTIVE'', ''1'')] else []) @
     (if sf_expose fl then [(''LOTSEN_DASHBOARD_DOMAIN'', TrimSpace (sf_domain fl))] else []) @
     (if TrimSpace (sf_cookieDomain fl) \<noteq> [] then [(''LOTSEN_AUTH_COOKIE_DOMAIN'', TrimSpace (sf_cookieDomain fl))] else [])"

definition plan_setup :: "setup_flags option \<Rightarrow> bool \<Rightarrow> string gomap \<Rightarrow> terminal \<Rightarrow> cli_error + string \<times> string gomap" where
  "plan_setup flags isTTY environ tty =
     (case flags of
        None \<Rightarrow> Inl BadFlags
      | Some fl \<Rightarrow>
          if sf_interactive fl \<and> \<not> isTTY then Inl NeedsTTY
          else
            let interactive = (if \<not> sf_interactive fl \<and> \<not> sf_nonInteractive fl \<and> isTTY then True else sf_interactive fl);
                given = TrimSpace (sf_profile fl);
                (profile, tty1) = (if given = [] then (if interactive then promptProfileWithStrictDefault tty else (''standard'', tty))
                                   else (given, tty)) in
            if \<not> known_profile profile then Inl (InvalidProfile profile)
            else
              let h1 = TrimSpace (sf_hardening fl);
                  h2 = (if h1 = [] then TrimSpace (case var environ ''LOTSEN_PROXY_HARDENING_PROFILE'' of None \<Rightarrow> [] | Some v \<Rightarrow> v) else h1);
                  hardening = (if h2 = [] then profile else h2) in
              if \<not> known_profile hardening then Inl (InvalidHardening hardening)
              else if sf_expose fl \<and> TrimSpace (sf_domain fl) = [] then Inl NeedsDomain
              else
                let plan = (releaseScriptURL (sf_version fl) ''setup.sh'', setup_vars fl profile hardening environ) in
                if interactive \<and> \<not> sf_yes fl
                then (case promptYesNo True tty1 of
                        (None, _) \<Rightarrow> Inl PromptFailed
                      | (Some confirmed, _) \<Rightarrow> if \<not> confirmed then Inl Cancelled else Inr plan)
                else Inr plan)"

definition runSetup :: "script_env \<Rightarrow> setup_flags option \<Rightarrow> bool \<Rightarrow> string gomap \<Rightarrow> terminal \<Rightarrow> cli_world
    \<Rightarrow> (cli_error + unit) \<times> cli_world" where
  "runSetup se flags isTTY environ tty w =
     (case plan_setup flags isTTY environ tty of
        Inl err \<Rightarrow> (Inl err, w)
      | Inr (url, vars) \<Rightarrow> runRemoteScript se url vars w)"

section \<open>Upgrades\<close>

datatype prediction = DowntimeUnknown | NoDowntime | Downtime

definition predict :: "string option \<Rightarrow> unit + string \<Rightarrow> prediction" where
  "predict localHash remoteHash =
     (case localHash of
        None \<Rightarrow> DowntimeUnknown
      | Some local \<Rightarrow>
          (case remoteHash of
             Inl _ \<Rightarrow> DowntimeUnknown
           | Inr remote \<Rightarrow> if remote = [] then DowntimeUnknown else if local = remote then NoDowntime else Downtime))"

record upgrade_flags =
  uf_to :: string
  uf_nonInteractive :: bool
  uf_yes :: bool

definition upgrade_vars :: "upgrade_flags \<Rightarrow> bool \<Rightarrow> string option \<Rightarrow> string gomap \<Rightarrow> string gomap" where
  "upgrade_vars fl nonInteractive localHash environ =
     environ @ [(''LOTSEN_VERSION'', uf_to fl), (''LOTSEN_UPGRADE'', ''1'')] @
     (case localHash of None \<Rightarrow> [] | Some h \<Rightarrow> [(''LOTSEN_PROXY_PRE_HASH'', h)]) @
     (if nonInteractive then [(''LOTSEN_NON_INTERACTIVE'', ''1'')] else []) @
     (if uf_yes fl then [(''LOTSEN_YES'', ''1'')] else [])"

text \<open>The hash of the installed proxy is absent when the file cannot be read. The first results are what is
  printed: the versions and the prediction.\<close>

definition runUpgrade :: "script_env \<Rightarrow> upgrade_flags option \<Rightarrow> unit + int \<times> (string \<times> string) option \<Rightarrow> string option
    \<Rightarrow> bool \<Rightarrow> string gomap \<Rightarrow> terminal \<Rightarrow> cli_world
    \<Rightarrow> ((string \<times> string) \<times> prediction) option \<times> (cli_error + unit) \<times> cli_world" where
  "runUpgrade se flags version localHash isTTY environ tty w =
     (case flags of
        None \<Rightarrow> (None, Inl BadFlags, w)
      | Some fl \<Rightarrow>
          (let printed = Some (determineUpgradeVersions (uf_to fl) (Some (fetchLocalVersionSnapshot version)),
                 predict localHash (fetchRemoteHash (sc_download se) (uf_to fl) ''lotsen-proxy''));
               nonInteractive = (uf_nonInteractive fl \<or> \<not> isTTY);
               go = runRemoteScript se (releaseScriptURL (uf_to fl) ''setup.sh'') (upgrade_vars fl nonInteractive localHash environ) w in
           if \<not> nonInteractive \<and> \<not> uf_yes fl
           then (case promptYesNo True tty of
                   (None, _) \<Rightarrow> (printed, Inl PromptFailed, w)
                 | (Some confirmed, _) \<Rightarrow> if \<not> confirmed then (printed, Inl Cancelled, w) else (printed, go))
           else (printed, go)))"

text \<open>\<open>None\<close> for flags that do not parse, else the hash from before the upgrade.\<close>

definition runUpgradeProxy :: "string option \<Rightarrow> string option \<Rightarrow> bool \<Rightarrow> cli_world \<Rightarrow> (cli_error + unit) \<times> cli_world" where
  "runUpgradeProxy preHash currentHash restarts w =
     (case preHash of
        None \<Rightarrow> (Inl BadFlags, w)
      | Some pre \<Rightarrow>
          (case currentHash of
             None \<Rightarrow> (Inl HashFailed, w)
           | Some current \<Rightarrow>
               if \<not> proxyRestartNeeded pre current then (Inr (), w)
               else (if restarts then Inr () else Inl RestartFailed, w\<lparr>cw_restarts := cw_restarts w + 1\<rparr>)))"

definition runDoctor :: "bool option \<Rightarrow> bool \<Rightarrow> (cli_error + unit) \<times> string" where
  "runDoctor json apiBinary =
     (case json of
        None \<Rightarrow> (Inl BadFlags, [])
      | Some jsonOutput \<Rightarrow>
          (let api = (if apiBinary then ''ok'' else ''missing'') in
           (if apiBinary then Inr () else Inl DoctorIssues,
            if jsonOutput then ''{'' @ [CHR 0x22] @ ''binary'' @ [CHR 0x22] @ '':'' @ [CHR 0x22] @ ''ok'' @ [CHR 0x22] @ '','' @
              [CHR 0x22] @ ''api_binary'' @ [CHR 0x22] @ '':'' @ [CHR 0x22] @ api @ [CHR 0x22] @ ''}'' @ [line_feed]
            else ''Lotsen doctor'' @ [line_feed] @ ''- CLI binary: ok'' @ [line_feed] @ ''- API binary: '' @ api @ [line_feed])))"

section \<open>Invitations\<close>

definition defaultDataDir :: "process_env \<Rightarrow> string" where
  "defaultDataDir e = (let p = en_get e ''LOTSEN_DATA'' in if p \<noteq> [] then Dir p else ''/var/lib/lotsen'')"

record invite_flags =
  vf_baseURL :: string
  vf_dataDir :: string
  vf_ttl :: int

text \<open>The databases by path; opening one may fail. The result is the link that is printed.\<close>

record 'k invite_env =
  ie_open :: "string \<Rightarrow> bool"
  ie_random :: "int list option"
  ie_now :: int
  ie_fault :: bool

definition runInvite :: "'k invite_env \<Rightarrow> invite_flags option \<Rightarrow> (string \<Rightarrow> 'k user_db) \<Rightarrow> (cli_error + string) \<times> (string \<Rightarrow> 'k user_db)" where
  "runInvite env flags dbs =
     (case flags of
        None \<Rightarrow> (Inl BadFlags, dbs)
      | Some fl \<Rightarrow>
          (let dbPath = FilepathJoin [vf_dataDir fl, ''users.db''] in
           if \<not> ie_open env dbPath then (Inl (OpenUsers dbPath), dbs)
           else case ie_random env of
             None \<Rightarrow> (Inl RandomFailed, dbs)
           | Some tokenBytes \<Rightarrow>
               (let token = hex tokenBytes in
                case CreateInviteToken (ie_fault env) token (ie_now env + vf_ttl fl) (dbs dbPath) of
                  (Inl _, db) \<Rightarrow> (Inl InviteFailed, dbs(dbPath := db))
                | (Inr _, db) \<Rightarrow> (Inr (TrimSuffix (vf_baseURL fl) ''/'' @ ''/join?token='' @ token), dbs(dbPath := db)))))"

section \<open>Running a script\<close>

definition script_complete :: "script_env \<Rightarrow> string \<Rightarrow> string option" where
  "script_complete se url =
     (case sc_download se url of
        Inr (code, body) \<Rightarrow>
          if code = 200 \<and> sc_create se \<noteq> None \<and> sc_copy se = None \<and> sc_chmod se \<and> sc_close se then Some body else None
      | Inl _ \<Rightarrow> None)"

lemma run_remote_ran:
  "cw_ran (snd (runRemoteScript se url vars w)) =
     cw_ran w @ (case script_complete se url of None \<Rightarrow> []
                 | Some body \<Rightarrow> [(body, vars @ [(''LOTSEN_SETUP_STARTED_AT'', sc_started se)])])"
  by (auto simp: runRemoteScript_def script_complete_def remove_tmp_def Let_def split: sum.splits option.splits)

lemma run_remote_ok:
  "fst (runRemoteScript se url vars w) = Inr () \<longleftrightarrow> script_complete se url \<noteq> None \<and> sc_run se"
  by (auto simp: runRemoteScript_def script_complete_def Let_def split: sum.splits option.splits)

lemma delete_update_fresh: "name \<notin> fst ` set m \<Longrightarrow> AList.delete name (AList.update name v m) = m"
  by (induction m) (auto simp: AList.delete_eq)

lemma run_remote_tmp:
  assumes "sc_remove se" "\<forall>name. sc_create se = Some name \<longrightarrow> name \<notin> fst ` set (cw_tmp w)"
  shows "cw_tmp (snd (runRemoteScript se url vars w)) = cw_tmp w"
  using assms
  by (auto simp: runRemoteScript_def remove_tmp_def Let_def delete_update_fresh split: sum.splits option.splits)

text \<open>A script of a release runs, once and with the environment it was given, exactly if its download was
  answered with status 200 and written, made executable and closed without a fault; the command succeeds
  exactly if that script then succeeds, and no temporary file is left on any path.\<close>

theorem remote_script_runs_whole_or_not:
  assumes "sc_remove se" "\<forall>name. sc_create se = Some name \<longrightarrow> name \<notin> fst ` set (cw_tmp w)"
  shows "let (r, w') = runRemoteScript se url vars w in
    cw_tmp w' = cw_tmp w \<and> cw_restarts w' = cw_restarts w \<and>
    cw_ran w' = cw_ran w @ (case script_complete se url of None \<Rightarrow> []
                            | Some body \<Rightarrow> [(body, vars @ [(''LOTSEN_SETUP_STARTED_AT'', sc_started se)])]) \<and>
    (r = Inr () \<longleftrightarrow> script_complete se url \<noteq> None \<and> sc_run se)"
proof -
  have "cw_restarts (snd (runRemoteScript se url vars w)) = cw_restarts w"
    by (auto simp: runRemoteScript_def remove_tmp_def Let_def split: sum.splits option.splits)
  with run_remote_tmp[OF assms] run_remote_ran run_remote_ok show ?thesis
    by (simp add: case_prod_beta)
qed

section \<open>Set-up\<close>

lemma var_append: "var (xs @ ys) k = (case var ys k of None \<Rightarrow> var xs k | Some v \<Rightarrow> Some v)"
  by (simp add: var_def map_add_def split: option.split)

lemma var_Cons: "var (p # xs) k = (case var xs k of None \<Rightarrow> if fst p = k then Some (snd p) else None | Some v \<Rightarrow> Some v)"
  using var_append[of "[p]" xs k] by (cases p) (auto simp: var_def split: option.split)

lemma var_Nil: "var [] k = None"
  by (simp add: var_def)

definition prompted :: "setup_flags \<Rightarrow> terminal \<Rightarrow> terminal" where
  "prompted fl tty = (if TrimSpace (sf_profile fl) = [] then drop 1 tty else tty)"

lemma prompt_profile_known: "known_profile (fst (promptProfileWithStrictDefault tty))"
  by (auto simp: promptProfileWithStrictDefault_def known_profile_def Let_def split: prod.split option.split)

lemma prompt_profile_rest: "snd (promptProfileWithStrictDefault tty) = drop 1 tty"
  by (cases tty) (auto simp: promptProfileWithStrictDefault_def promptLine_def Let_def split: option.split)

lemma plan_setup_Inr:
  assumes "plan_setup flags isTTY environ tty = Inr (url, vars)"
  shows "\<exists>fl profile hardening. flags = Some fl \<and> url = releaseScriptURL (sf_version fl) ''setup.sh'' \<and>
    vars = setup_vars fl profile hardening environ \<and> known_profile profile \<and> known_profile hardening \<and>
    (sf_expose fl \<longrightarrow> TrimSpace (sf_domain fl) \<noteq> []) \<and>
    (isTTY \<and> \<not> sf_nonInteractive fl \<and> \<not> sf_yes fl \<longrightarrow> fst (promptYesNo True (prompted fl tty)) = Some True)"
  using assms prompt_profile_rest[of tty]
  by (auto simp: plan_setup_def Let_def prompted_def split: option.splits if_splits prod.splits)

lemma known_profile_configures:
  assumes "known_profile h" "en_get e ''LOTSEN_PROXY_HARDENING_PROFILE'' = h"
  shows "hardeningProfileFromEnv e = Inr h"
proof -
  have *: "ToLower (TrimSpace p) = p" if "p \<in> set [''strict'', ''standard'', ''off'']" for p
    using that by (auto; code_simp)
  have "h \<noteq> []" using assms(1) by (auto simp: known_profile_def)
  with assms * [of h] show ?thesis
    by (auto simp: hardeningProfileFromEnv_def envOrDefault_def known_profile_def HardeningOff_def HardeningStandard_def HardeningStrict_def)
qed

lemma setup_vars_are:
  assumes "vars = setup_vars fl profile hardening environ @ [(''LOTSEN_SETUP_STARTED_AT'', t)]"
  shows "var vars ''LOTSEN_SECURITY_PROFILE'' = Some profile \<and> var vars ''LOTSEN_PROXY_HARDENING_PROFILE'' = Some hardening \<and>
    var vars ''LOTSEN_VERSION'' = Some (sf_version fl) \<and>
    (sf_expose fl \<longrightarrow> var vars ''LOTSEN_DASHBOARD_DOMAIN'' = Some (TrimSpace (sf_domain fl)))"
  using assms by (simp add: setup_vars_def var_append var_Cons var_Nil)

text \<open>C37. If a set-up runs a script, it is the script of the chosen release and it runs with a known security
  profile, a hardening profile that the proxy accepts at its start as it is, and a non-empty dashboard domain if
  the dashboard is to be exposed; at a terminal without \<open>--yes\<close>, the question was answered with yes.\<close>

theorem setup_runs_valid_script:
  assumes "runSetup se flags isTTY environ tty w = (r, w')" "cw_ran w' \<noteq> cw_ran w"
  shows "\<exists>fl body vars profile hardening.
    flags = Some fl \<and> sc_download se (releaseScriptURL (sf_version fl) ''setup.sh'') = Inr (200, body) \<and>
    cw_ran w' = cw_ran w @ [(body, vars)] \<and> var vars ''LOTSEN_VERSION'' = Some (sf_version fl) \<and>
    var vars ''LOTSEN_SECURITY_PROFILE'' = Some profile \<and> profile \<in> {''strict'', ''standard'', ''off''} \<and>
    var vars ''LOTSEN_PROXY_HARDENING_PROFILE'' = Some hardening \<and>
    (\<forall>e. en_get e ''LOTSEN_PROXY_HARDENING_PROFILE'' = hardening \<longrightarrow> hardeningProfileFromEnv e = Inr hardening) \<and>
    (sf_expose fl \<longrightarrow> TrimSpace (sf_domain fl) \<noteq> [] \<and>
       var vars ''LOTSEN_DASHBOARD_DOMAIN'' = Some (TrimSpace (sf_domain fl))) \<and>
    (isTTY \<and> \<not> sf_nonInteractive fl \<and> \<not> sf_yes fl \<longrightarrow> fst (promptYesNo True (prompted fl tty)) = Some True)"
proof -
  from assms obtain url vars where plan: "plan_setup flags isTTY environ tty = Inr (url, vars)"
    and w': "w' = snd (runRemoteScript se url vars w)"
    by (auto simp: runSetup_def split: sum.splits)
  from assms(2) w' obtain body where body: "script_complete se url = Some body"
    and ran: "cw_ran w' = cw_ran w @ [(body, vars @ [(''LOTSEN_SETUP_STARTED_AT'', sc_started se)])]"
    by (auto simp: run_remote_ran split: option.splits)
  from body have download: "sc_download se url = Inr (200, body)"
    by (auto simp: script_complete_def split: sum.splits if_splits)
  from plan_setup_Inr[OF plan] obtain fl profile hardening where fl: "flags = Some fl"
    "url = releaseScriptURL (sf_version fl) ''setup.sh''" "vars = setup_vars fl profile hardening environ"
    "known_profile profile" "known_profile hardening" "sf_expose fl \<longrightarrow> TrimSpace (sf_domain fl) \<noteq> []"
    "isTTY \<and> \<not> sf_nonInteractive fl \<and> \<not> sf_yes fl \<longrightarrow> fst (promptYesNo True (prompted fl tty)) = Some True"
    by blast
  note vars = setup_vars_are[of "vars @ [(''LOTSEN_SETUP_STARTED_AT'', sc_started se)]" fl profile hardening environ "sc_started se"]
  have "profile \<in> {''strict'', ''standard'', ''off''}" using fl(4) by (simp add: known_profile_def)
  then show ?thesis
    using fl download ran vars known_profile_configures by metis
qed

section \<open>Checksums and restarts\<close>

definition checksum_file :: "(string \<times> string) list \<Rightarrow> string" where
  "checksum_file entries = concat (map (\<lambda>(h, name). h @ ''  '' @ name @ [line_feed]) entries)"

lemma line_feed_not_plain: "plain_word v \<Longrightarrow> line_feed \<notin> set v"
  by (auto simp: plain_word_def list_all_iff graphic_def line_feed_def byte_def)

lemma fields_of_entry: "plain_word h \<Longrightarrow> plain_word name \<Longrightarrow> Fields (h @ ''  '' @ name) = [h, name]"
  using fields_from_graphic[of h "[]" "CHR 0x20 # CHR 0x20 # name"] fields_from_graphic[of name "[]" "[]"]
  by (simp add: Fields_def fields_from_blank fields_from_Nil word_done_def plain_word_def)

lemma drop_cr_entry:
  assumes "plain_word name"
  shows "drop_cr (h @ ''  '' @ name) = h @ ''  '' @ name"
proof -
  have "name \<noteq> []" "graphic (last name)" using assms by (auto simp: plain_word_def list_all_iff)
  then have "last name \<noteq> CHR 0x0D" by (auto simp: graphic_def byte_def)
  with \<open>name \<noteq> []\<close> show ?thesis by (simp add: drop_cr_def)
qed

lemma checksum_file_split:
  "\<forall>(h, name) \<in> set entries. plain_word h \<and> plain_word name \<Longrightarrow>
    Split (checksum_file entries) line_feed = map (\<lambda>(h, name). h @ ''  '' @ name) entries @ [[]]"
proof (induction entries)
  case (Cons e entries)
  obtain h name where e: "e = (h, name)" by (cases e)
  from Cons.prems e have "line_feed \<notin> set (h @ ''  '' @ name)"
    using line_feed_not_plain by (auto simp: line_feed_def)
  from Split_present[OF this] Cons show ?case by (simp add: checksum_file_def e)
qed (simp add: checksum_file_def)

lemma checksum_lines_entries:
  "\<forall>(h, name) \<in> set entries. plain_word h \<and> plain_word name \<Longrightarrow>
    checksum_lines n (map drop_cr (map (\<lambda>(h, name). h @ ''  '' @ name) entries)) = map_option fst (find (\<lambda>e. snd e = n) entries)"
proof (induction entries)
  case (Cons e entries)
  obtain h name where e: "e = (h, name)" by (cases e)
  with Cons.prems have "drop_cr (h @ ''  '' @ name) = h @ ''  '' @ name" "Fields (h @ ''  '' @ name) = [h, name]"
    by (simp_all only: list.set insert_iff ball_simps prod.case drop_cr_entry fields_of_entry)
  with Cons e show ?case by (simp add: Let_def)
qed simp

lemma parse_checksum_file:
  assumes "\<forall>(h, name) \<in> set entries. plain_word h \<and> plain_word name \<and> int (length h + 2 + length name) < MaxScanTokenSize"
  shows "parseChecksumEntry (checksum_file entries) n = Inr (case find (\<lambda>e. snd e = n) entries of None \<Rightarrow> [] | Some e \<Rightarrow> fst e)"
proof -
  let ?lines = "map (\<lambda>(h, name). h @ ''  '' @ name) entries"
  have short: "\<forall>p \<in> set ?lines. int (length p) < MaxScanTokenSize" using assms by auto
  have "scan_pieces (checksum_file entries) = ?lines"
    using assms by (subst scan_pieces_def, subst checksum_file_split) auto
  moreover have "takeWhile (\<lambda>p. int (length p) < MaxScanTokenSize) ?lines = ?lines"
    using short by (simp only: takeWhile_eq_all_conv)
  ultimately have "scanned MaxScanTokenSize (checksum_file entries) = (map drop_cr ?lines, True)"
    using short by (simp only: scanned_def Let_def list_all_iff prod.inject simp_thms)
  moreover have "checksum_lines n (map drop_cr ?lines) = map_option fst (find (\<lambda>e. snd e = n) entries)"
    using assms by (intro checksum_lines_entries) auto
  ultimately show ?thesis by (simp add: parseChecksumEntry_def split: option.split)
qed

text \<open>If a release publishes the hash of the proxy in its list of checksums, an upgrade predicts the
  downtime of the proxy exactly: when the new binary has the published hash, \<open>upgrade-proxy\<close> with the hash from
  before restarts the proxy if and only if downtime was announced, and nothing is announced as unknown.\<close>

theorem downtime_prediction_is_right:
  assumes "\<forall>(h, name) \<in> set entries. plain_word h \<and> plain_word name \<and> int (length h + 2 + length name) < MaxScanTokenSize"
    and "download (releaseScriptURL version ''sha256sums.txt'') = Inr (200, checksum_file entries)"
    and "find (\<lambda>e. snd e = ''lotsen-proxy'') entries = Some (published, ''lotsen-proxy'')"
    and "before \<noteq> []"
  shows "predict (Some before) (fetchRemoteHash download version ''lotsen-proxy'') =
      (if cw_restarts (snd (runUpgradeProxy (Some before) (Some published) restarts w)) = cw_restarts w then NoDowntime else Downtime)"
proof -
  from assms(3) have "(published, ''lotsen-proxy'') \<in> set entries"
    by (metis find_Some_iff nth_mem)
  with assms(1) have "published \<noteq> []" by (auto simp: plain_word_def)
  moreover have "fetchRemoteHash download version ''lotsen-proxy'' = Inr published"
    using assms(2,3) by (simp add: fetchRemoteHash_def parse_checksum_file[OF assms(1)])
  ultimately show ?thesis using assms(4) by (auto simp: predict_def runUpgradeProxy_def proxyRestartNeeded_def)
qed

section \<open>Invitations\<close>

lemma default_dir_is_the_apis: "FilepathJoin [defaultDataDir e, ''users.db''] = FilepathJoin [Dir (dataPath e), ''users.db'']"
proof (cases "en_get e ''LOTSEN_DATA'' = []")
  case True
  have "Dir ''/var/lib/lotsen/deployments.json'' = ''/var/lib/lotsen''" by code_simp
  with True show ?thesis by (simp add: defaultDataDir_def dataPath_def Let_def)
qed (simp add: defaultDataDir_def dataPath_def Let_def)

lemma find_new_invite:
  "token \<notin> iv_token ` set is \<Longrightarrow> find (\<lambda>i. iv_token i = token) (is @ [i]) = (if iv_token i = token then Some i else None)"
  by (induction "is") auto

text \<open>C38. A link that \<open>lotsen invite\<close> prints for its default data directory carries a token that the API
  accepts from then until the link expires, and rejects as expired afterwards: both programs use the same
  database for the same \<open>LOTSEN_DATA\<close>. No other database changes.\<close>

theorem invite_link_admits:
  assumes "runInvite env (Some fl) dbs = (Inr link, dbs')" "vf_dataDir fl = defaultDataDir e"
  shows "\<exists>token db. link = TrimSuffix (vf_baseURL fl) ''/'' @ ''/join?token='' @ token \<and>
    dbs' = dbs(FilepathJoin [Dir (dataPath e), ''users.db''] := db) \<and>
    ValidateInviteToken False t token db =
      (if Unix t \<le> Unix (ie_now env + vf_ttl fl) then Inr () else Inl ErrInviteExpired)"
proof -
  from assms obtain token db where t: "link = TrimSuffix (vf_baseURL fl) ''/'' @ ''/join?token='' @ token"
    "dbs' = dbs(FilepathJoin [Dir (dataPath e), ''users.db''] := db)"
    "CreateInviteToken (ie_fault env) token (ie_now env + vf_ttl fl) (dbs (FilepathJoin [Dir (dataPath e), ''users.db''])) = (Inr (), db)"
    by (auto simp: runInvite_def Let_def default_dir_is_the_apis simp del: FilepathJoin.simps
        split: if_splits option.splits prod.splits sum.splits)
  then show ?thesis
    by (auto simp: CreateInviteToken_def ValidateInviteToken_def find_new_invite split: if_splits)
qed

section \<open>Witnesses\<close>

definition script_env0 :: script_env where
  "script_env0 = \<lparr>sc_download = (\<lambda>_. Inr (200, ''echo done'')), sc_create = Some ''/tmp/lotsen-setup-1.sh'', sc_copy = None,
     sc_chmod = True, sc_close = True, sc_remove = True, sc_started = ''2025-01-01T00:00:00Z'', sc_run = True\<rparr>"

definition cli_start0 :: cli_world where
  "cli_start0 = \<lparr>cw_tmp = [(''/tmp/other'', ''x'')], cw_ran = [], cw_restarts = 0\<rparr>"

theorem remote_script_runs_whole_or_not_witness:
  "\<exists>r w'. runRemoteScript script_env0 ''u'' [] cli_start0 = (r, w') \<and> r = Inr () \<and> cw_tmp w' = cw_tmp cli_start0 \<and> length (cw_ran w') = 1"
  using remote_script_runs_whole_or_not[of script_env0 cli_start0 "''u''" "[]"]
  by (auto simp: script_env0_def cli_start0_def script_complete_def)

definition setup_flags0 :: setup_flags where
  "setup_flags0 = \<lparr>sf_interactive = False, sf_nonInteractive = False, sf_yes = False, sf_profile = [], sf_hardening = ''off'',
     sf_version = ''v1.2.0'', sf_expose = True, sf_domain = ''dash.example.com '', sf_cookieDomain = []\<rparr>"

definition terminal0 :: terminal where
  "terminal0 = [Some (''2'' @ [line_feed]), Some (''Yes'' @ [line_feed])]"

lemma setup0_runs: "length (cw_ran (snd (runSetup script_env0 (Some setup_flags0) True [] terminal0 cli_start0))) = 1"
  by code_simp

theorem setup_runs_valid_script_witness:
  "\<exists>body vars. cw_ran (snd (runSetup script_env0 (Some setup_flags0) True [] terminal0 cli_start0)) = [(body, vars)] \<and>
     var vars ''LOTSEN_DASHBOARD_DOMAIN'' = Some (TrimSpace ''dash.example.com '')"
proof -
  let ?run = "runSetup script_env0 (Some setup_flags0) True [] terminal0 cli_start0"
  have "cw_ran (snd ?run) \<noteq> cw_ran cli_start0" using setup0_runs by (auto simp: cli_start0_def)
  from setup_runs_valid_script[OF prod.collapse[symmetric] this] obtain fl body vars where
    "Some setup_flags0 = Some fl" "cw_ran (snd ?run) = cw_ran cli_start0 @ [(body, vars)]"
    "sf_expose fl \<longrightarrow> TrimSpace (sf_domain fl) \<noteq> [] \<and> var vars ''LOTSEN_DASHBOARD_DOMAIN'' = Some (TrimSpace (sf_domain fl))"
    by blast
  moreover have "sf_expose setup_flags0" "sf_domain setup_flags0 = ''dash.example.com ''" "cw_ran cli_start0 = []"
    by (simp_all add: setup_flags0_def cli_start0_def)
  ultimately show ?thesis by auto
qed

definition checksums0 :: "(string \<times> string) list" where
  "checksums0 = [(''aa11'', ''lotsen-api''), (''bb22'', ''lotsen-proxy'')]"

theorem downtime_prediction_is_right_witness:
  "predict (Some ''bb22'') (fetchRemoteHash (\<lambda>_. Inr (200, checksum_file checksums0)) ''latest'' ''lotsen-proxy'') = NoDowntime"
proof -
  have "\<forall>(h, name) \<in> set checksums0. plain_word h \<and> plain_word name \<and> int (length h + 2 + length name) < MaxScanTokenSize"
    by code_simp
  moreover have "find (\<lambda>e. snd e = ''lotsen-proxy'') checksums0 = Some (''bb22'', ''lotsen-proxy'')"
    by (simp add: checksums0_def)
  ultimately show ?thesis
    using downtime_prediction_is_right[of checksums0 "\<lambda>_. Inr (200, checksum_file checksums0)" "''latest''" "''bb22''" "''bb22''" True cli_start0]
    by (simp add: runUpgradeProxy_def proxyRestartNeeded_def)
qed

definition invite_env0 :: "string invite_env" where
  "invite_env0 = \<lparr>ie_open = (\<lambda>_. True), ie_random = Some [10, 255], ie_now = 0, ie_fault = False\<rparr>"

definition invite_flags0 :: invite_flags where
  "invite_flags0 = \<lparr>vf_baseURL = ''https://dash.example.com/'', vf_dataDir = ''/var/lib/lotsen'', vf_ttl = 1800000000000\<rparr>"

definition no_dbs :: "string \<Rightarrow> string user_db" where
  "no_dbs = (\<lambda>_. \<lparr>db_users = [], db_passkeys = [], db_invites = []\<rparr>)"

theorem invite_link_admits_witness:
  "\<exists>token db. ValidateInviteToken False 1800000000000 token (db :: string user_db) = Inr () \<and>
     snd (runInvite invite_env0 (Some invite_flags0) no_dbs) = no_dbs(FilepathJoin [Dir (dataPath plain_env), ''users.db''] := db)"
proof -
  let ?run = "runInvite invite_env0 (Some invite_flags0) no_dbs"
  have "\<not> isl (fst ?run)" by code_simp
  then obtain link where "?run = (Inr link, snd ?run)" by (cases "fst ?run") (auto simp: prod_eq_iff)
  moreover have "vf_dataDir invite_flags0 = defaultDataDir plain_env" by code_simp
  ultimately obtain token db where "snd ?run = no_dbs(FilepathJoin [Dir (dataPath plain_env), ''users.db''] := db)"
    "ValidateInviteToken False 1800000000000 token db =
      (if Unix 1800000000000 \<le> Unix (ie_now invite_env0 + vf_ttl invite_flags0) then Inr () else Inl ErrInviteExpired)"
    using invite_link_admits[of invite_env0 invite_flags0 no_dbs link "snd ?run" plain_env 1800000000000] by blast
  moreover have "ie_now invite_env0 + vf_ttl invite_flags0 = 1800000000000" by (simp add: invite_env0_def invite_flags0_def)
  ultimately have "ValidateInviteToken False 1800000000000 token db = Inr () \<and>
      snd ?run = no_dbs(FilepathJoin [Dir (dataPath plain_env), ''users.db''] := db)" by simp
  then show ?thesis by blast
qed

end
