(* ===== verification/Logs.thy ===== *)
theory Logs
  imports Launch
begin

text \<open>
  What the API only passes on: logs of containers (\<open>docker/logs.go\<close>, \<open>handler_deployment_logs.go\<close>,
  \<open>handler_deployment_recent_logs.go\<close>), logs of the services (\<open>handler_core_service_logs.go\<close>), views of the proxy
  (\<open>handler_proxy_observability.go\<close>) and the dashboard's files (\<open>dashboard/handler.go\<close>).

  The container engine, the decoder of its log frames, \<open>journalctl\<close>, the proxy and the file system are
  parameters. A stream is the text it delivers until it ends.
\<close>

section \<open>Container logs\<close>

record log_container =
  lc_ID :: string
  lc_Created :: int
  lc_Labels :: "string gomap"

text \<open>\<open>lg_logs\<close> takes the container, whether to follow, and the number of lines; \<open>lg_demux\<close> is \<open>stdcopy\<close> with
  one pipe for both outputs.\<close>

record logs_client =
  lg_list :: "(string \<times> string) list \<Rightarrow> unit + log_container list"
  lg_logs :: "string \<Rightarrow> bool \<Rightarrow> string \<Rightarrow> unit + string"
  lg_demux :: "string \<Rightarrow> string"

definition newer :: "log_container \<Rightarrow> log_container \<Rightarrow> log_container" where
  "newer latest c = (if lc_Created c > lc_Created latest then c else latest)"

definition latestContainer :: "logs_client \<Rightarrow> string \<Rightarrow> unit + log_container option" where
  "latestContainer cl deploymentID =
     (case lg_list cl [(''lotsen.managed'', ''true''), (''lotsen.id'', deploymentID)] of
        Inl _ \<Rightarrow> Inl ()
      | Inr containers \<Rightarrow> (case containers of [] \<Rightarrow> Inr None | c # cs \<Rightarrow> Inr (Some (foldl newer c cs))))"

definition StreamLogs :: "logs_client \<Rightarrow> string \<Rightarrow> int \<Rightarrow> unit + string option" where
  "StreamLogs cl deploymentID tail =
     (case latestContainer cl deploymentID of
        Inl _ \<Rightarrow> Inl ()
      | Inr None \<Rightarrow> Inr None
      | Inr (Some c) \<Rightarrow>
          (case lg_logs cl (lc_ID c) True (Itoa tail) of Inl _ \<Rightarrow> Inl () | Inr raw \<Rightarrow> Inr (Some (lg_demux cl raw))))"

definition RecentLogs :: "logs_client \<Rightarrow> string \<Rightarrow> int \<Rightarrow> unit + string list" where
  "RecentLogs cl deploymentID tail =
     (case latestContainer cl deploymentID of
        Inl _ \<Rightarrow> Inl ()
      | Inr None \<Rightarrow> Inr []
      | Inr (Some c) \<Rightarrow>
          (case lg_logs cl (lc_ID c) False (Itoa tail) of
             Inl _ \<Rightarrow> Inl ()
           | Inr raw \<Rightarrow>
               (case scanned MaxScanTokenSize (lg_demux cl raw) of
                  (lines, complete) \<Rightarrow> if complete then Inr lines else Inl ())))"

text \<open>\<open>sm_encode\<close> is \<open>json.Marshal\<close> of a line; \<open>sm_write n\<close> tells whether the write after \<open>n\<close> sent events
  succeeds.\<close>

record stream_env =
  sm_flusher :: bool
  sm_encode :: "string \<Rightarrow> string option"
  sm_write :: "nat \<Rightarrow> bool"

definition log_event :: "string \<Rightarrow> string" where
  "log_event data = ''data: '' @ data @ [line_feed, line_feed]"

fun send_lines :: "stream_env \<Rightarrow> string list \<Rightarrow> string list \<Rightarrow> string list" where
  "send_lines sm sent [] = sent"
| "send_lines sm sent (line # lines) =
     (case sm_encode sm line of
        None \<Rightarrow> send_lines sm sent lines
      | Some data \<Rightarrow> if sm_write sm (length sent) then send_lines sm (sent @ [log_event data]) lines else sent)"

definition deploymentLogs :: "store_env \<Rightarrow> logs_client \<Rightarrow> stream_env \<Rightarrow> string \<Rightarrow> disk \<Rightarrow> failure + string list" where
  "deploymentLogs se cl sm k dk =
     (if \<not> sm_flusher sm then Inl (500, Msg ''streaming not supported'')
      else case JS_Get se k dk of
        Inl err \<Rightarrow> Inl (get_failure err)
      | Inr _ \<Rightarrow>
          (case StreamLogs cl k 100 of
             Inl _ \<Rightarrow> Inr []
           | Inr None \<Rightarrow> Inr []
           | Inr (Some content) \<Rightarrow> Inr (send_lines sm [] (fst (scanned MaxScanTokenSize content)))))"

definition parseRecentDeploymentLogTail :: "string \<Rightarrow> int option" where
  "parseRecentDeploymentLogTail raw0 =
     (let raw = TrimSpace raw0 in
      if raw = [] then Some 300
      else case Atoi raw of
        None \<Rightarrow> None
      | Some n \<Rightarrow> if n \<le> 0 then None else Some (if n > 1000 then 1000 else n))"

definition deploymentRecentLogs :: "store_env \<Rightarrow> logs_client \<Rightarrow> string \<Rightarrow> string \<Rightarrow> disk \<Rightarrow> failure + string \<times> string list" where
  "deploymentRecentLogs se cl k tail_query dk =
     (case JS_Get se k dk of
        Inl err \<Rightarrow> Inl (get_failure err)
      | Inr _ \<Rightarrow>
          (case parseRecentDeploymentLogTail tail_query of
             None \<Rightarrow> Inl (400, Msg ''tail must be a positive integer'')
           | Some tail \<Rightarrow>
               (case RecentLogs cl k tail of
                  Inl _ \<Rightarrow> Inl (500, Msg ''failed to read deployment logs'')
                | Inr lines \<Rightarrow> Inr (k, lines))))"

section \<open>Service logs\<close>

definition coreServiceUnits :: "string gomap" where
  "coreServiceUnits = [(''api'', ''lotsen-api''), (''orchestrator'', ''lotsen-orchestrator''), (''proxy'', ''lotsen-proxy'')]"

definition parseCoreServiceLogTail :: "string \<Rightarrow> int option" where
  "parseCoreServiceLogTail raw0 =
     (let raw = TrimSpace raw0 in
      if raw = [] then Some 200
      else case Atoi raw of
        None \<Rightarrow> None
      | Some n \<Rightarrow> if n \<le> 0 then None else Some (if n > 1000 then 1000 else n))"

text \<open>\<open>journalctl\<close> takes its arguments and answers with its output, or fails. The second result lists the
  commands that ran.\<close>

definition readJournalctlUnitLogs :: "(string list \<Rightarrow> string option) \<Rightarrow> string \<Rightarrow> int \<Rightarrow> (unit + string list) \<times> string list list" where
  "readJournalctlUnitLogs journalctl unit_name tail =
     (if TrimSpace unit_name = [] then (Inl (), [])
      else
        let args = [''--no-pager'', ''--output=short-iso'', ''-u'', unit_name, ''-n'', Itoa tail] in
        (case journalctl args of
           None \<Rightarrow> Inl ()
         | Some out \<Rightarrow> (let trimmed = TrimSpace out in if trimmed = [] then Inr [] else Inr (Split trimmed line_feed)),
         [args]))"

definition coreServiceLogs :: "(string list \<Rightarrow> string option) \<Rightarrow> string \<Rightarrow> string \<Rightarrow> (failure + string \<times> string list) \<times> string list list" where
  "coreServiceLogs journalctl service_query tail_query =
     (let service = TrimSpace service_query in
      case map_of coreServiceUnits service of
        None \<Rightarrow> (Inl (400, Msg ''service must be one of: api, orchestrator, proxy''), [])
      | Some unit_name \<Rightarrow>
          (case parseCoreServiceLogTail tail_query of
             None \<Rightarrow> (Inl (400, Msg ''tail must be a positive integer''), [])
           | Some tail \<Rightarrow>
               (case readJournalctlUnitLogs journalctl unit_name tail of
                  (Inl _, calls) \<Rightarrow> (Inl (500, Msg ''failed to read service logs''), calls)
                | (Inr lines, calls) \<Rightarrow> (Inr (service, lines), calls))))"

section \<open>Views of the proxy\<close>

definition fetchProxyJSON :: "(string \<Rightarrow> unit + int \<times> string) \<Rightarrow> string \<Rightarrow> string \<Rightarrow> unit + string" where
  "fetchProxyJSON get base path =
     (case get (base @ path) of
        Inl _ \<Rightarrow> Inl ()
      | Inr (code, body) \<Rightarrow> if code < 200 \<or> code \<ge> 300 then Inl () else Inr body)"

definition api_limit :: "string \<Rightarrow> int" where
  "api_limit limit_query =
     (let raw = TrimSpace limit_query in
      if raw \<noteq> [] then (case Atoi raw of Some parsed \<Rightarrow> if parsed > 0 \<and> parsed \<le> 1000 then parsed else 200 | None \<Rightarrow> 200)
      else 200)"

text \<open>A decoded list may be \<open>null\<close>.\<close>

definition api_accessLogs :: "(string \<Rightarrow> unit + int \<times> string) \<Rightarrow> (string \<Rightarrow> 'e list option option) \<Rightarrow> string \<Rightarrow> string \<Rightarrow> failure + 'e list" where
  "api_accessLogs get decode base limit_query =
     (case fetchProxyJSON get base (''/internal/access-logs?limit='' @ Itoa (api_limit limit_query)) of
        Inl _ \<Rightarrow> Inl (502, Msg ''failed to fetch access logs'')
      | Inr body \<Rightarrow>
          (case decode body of
             None \<Rightarrow> Inl (502, Msg ''invalid access log response'')
           | Some entries \<Rightarrow> Inr (case entries of None \<Rightarrow> [] | Some es \<Rightarrow> es)))"

definition api_securityConfig :: "(string \<Rightarrow> unit + int \<times> string) \<Rightarrow> (string \<Rightarrow> 'c option) \<Rightarrow> string \<Rightarrow> failure + 'c" where
  "api_securityConfig get decode base =
     (case fetchProxyJSON get base ''/internal/security-config'' of
        Inl _ \<Rightarrow> Inl (502, Msg ''failed to fetch security config'')
      | Inr body \<Rightarrow> (case decode body of None \<Rightarrow> Inl (502, Msg ''invalid security config response'') | Some cfg \<Rightarrow> Inr cfg))"

section \<open>The dashboard\<close>

datatype site_reply = PassToAPI | NotAllowed | Index bool | ServeFile string

definition isAPIPath :: "string \<Rightarrow> bool" where
  "isAPIPath path \<longleftrightarrow> path = ''/api'' \<or> HasPrefix path ''/api/'' \<or> path = ''/auth'' \<or> HasPrefix path ''/auth/''"

text \<open>The files: absent, or whether the name is a directory.\<close>

definition fileExists :: "(string \<Rightarrow> bool option) \<Rightarrow> string \<Rightarrow> bool" where
  "fileExists assets name = (case assets name of None \<Rightarrow> False | Some isDir \<Rightarrow> \<not> isDir)"

definition serve_site :: "(string \<Rightarrow> bool option) \<Rightarrow> string \<Rightarrow> string \<Rightarrow> site_reply" where
  "serve_site assets verb path =
     (if isAPIPath path then PassToAPI
      else if verb \<noteq> ''GET'' \<and> verb \<noteq> ''HEAD'' then NotAllowed
      else
        let assetPath = TrimPrefix (Clean path) ''/'' in
        if assetPath = ''.'' \<or> assetPath = [] then Index (verb \<noteq> ''HEAD'')
        else if assetPath = ''index.html'' \<or> fileExists assets assetPath then ServeFile path
        else Index (verb \<noteq> ''HEAD''))"

section \<open>The newest container\<close>

lemma newest_of:
  "foldl newer c cs \<in> set (c # cs) \<and> (\<forall>d \<in> set (c # cs). lc_Created d \<le> lc_Created (foldl newer c cs))"
proof (induction cs arbitrary: c)
  case (Cons d cs)
  from Cons.IH[of "newer c d"] show ?case by (auto simp: newer_def split: if_splits)
qed simp

definition newest :: "log_container list \<Rightarrow> log_container \<Rightarrow> bool" where
  "newest containers c \<longleftrightarrow> c \<in> set containers \<and> list_all (\<lambda>d. lc_Created d \<le> lc_Created c) containers"

lemma latest_is_newest:
  assumes "latestContainer cl k = Inr (Some c)"
  shows "\<exists>containers. lg_list cl [(''lotsen.managed'', ''true''), (''lotsen.id'', k)] = Inr containers \<and> newest containers c"
  using assms newest_of
  by (auto simp: latestContainer_def newest_def list_all_iff split: sum.splits list.splits)

lemma recent_tail: "parseRecentDeploymentLogTail q = Some n \<Longrightarrow> 1 \<le> n \<and> n \<le> 1000"
  by (auto simp: parseRecentDeploymentLogTail_def Let_def split: if_splits option.splits)

lemma core_tail: "parseCoreServiceLogTail q = Some n \<Longrightarrow> 1 \<le> n \<and> n \<le> 1000"
  by (auto simp: parseCoreServiceLogTail_def Let_def split: if_splits option.splits)

text \<open>Recent logs are answered only for a stored deployment, and are all lines, between 1 and 1000 of which were
  asked for, that the engine holds for the newest of the containers it lists for that deployment; without a
  container they are empty.\<close>

theorem recent_logs_of_newest:
  assumes "deploymentRecentLogs se cl k q dk = Inr (k', lines)"
  shows "k' = k \<and> \<not> isl (JS_Get se k dk) \<and>
    (\<exists>containers. lg_list cl [(''lotsen.managed'', ''true''), (''lotsen.id'', k)] = Inr containers \<and>
      (if containers = [] then lines = []
       else \<exists>c n raw. newest containers c \<and> 1 \<le> n \<and> n \<le> 1000 \<and> lg_logs cl (lc_ID c) False (Itoa n) = Inr raw \<and>
         scanned MaxScanTokenSize (lg_demux cl raw) = (lines, True)))"
proof -
  from assms obtain n where n: "parseRecentDeploymentLogTail q = Some n" "RecentLogs cl k n = Inr lines"
    "k' = k" "\<not> isl (JS_Get se k dk)"
    by (auto simp: deploymentRecentLogs_def split: sum.splits option.splits)
  from n(2) obtain latest where latest: "latestContainer cl k = Inr latest"
    by (auto simp: RecentLogs_def split: sum.splits)
  then obtain containers where containers: "lg_list cl [(''lotsen.managed'', ''true''), (''lotsen.id'', k)] = Inr containers"
    by (auto simp: latestContainer_def split: sum.splits)
  show ?thesis
  proof (cases latest)
    case None
    with latest containers have "containers = []" by (auto simp: latestContainer_def split: list.splits)
    with None latest containers n show ?thesis by (simp add: RecentLogs_def)
  next
    case (Some c)
    with latest containers have "containers \<noteq> []" by (auto simp: latestContainer_def)
    moreover have "newest containers c" using latest_is_newest[of cl k c] Some latest containers by simp
    moreover have "\<exists>raw. lg_logs cl (lc_ID c) False (Itoa n) = Inr raw \<and> scanned MaxScanTokenSize (lg_demux cl raw) = (lines, True)"
      using n(2) latest Some by (auto simp: RecentLogs_def split: sum.splits prod.splits if_splits)
    ultimately show ?thesis using n(3,4) containers recent_tail[OF n(1)] by auto
  qed
qed

section \<open>The stream\<close>

lemma send_lines_prefix:
  assumes "\<forall>line \<in> set lines. sm_encode sm line = Some (enc line)"
  shows "\<exists>m \<le> length lines. send_lines sm sent lines = sent @ map (log_event \<circ> enc) (take m lines) \<and>
    ((\<forall>i. sm_write sm i) \<longrightarrow> m = length lines)"
  using assms
proof (induction lines arbitrary: sent)
  case (Cons line lines)
  show ?case
  proof (cases "sm_write sm (length sent)")
    case True
    from Cons obtain m where "m \<le> length lines"
      "send_lines sm (sent @ [log_event (enc line)]) lines = sent @ [log_event (enc line)] @ map (log_event \<circ> enc) (take m lines)"
      "(\<forall>i. sm_write sm i) \<longrightarrow> m = length lines"
      by (metis append_assoc list.set_intros(2))
    with True Cons.prems show ?thesis by (intro exI[of _ "Suc m"]) auto
  next
    case False
    with Cons.prems show ?thesis by (intro exI[of _ 0]) auto
  qed
qed simp

lemma Split_lines:
  "\<forall>line \<in> set lines. line_feed \<notin> set line \<Longrightarrow> Split (concat (map (\<lambda>line. line @ [line_feed]) lines)) line_feed = lines @ [[]]"
  by (induction lines) (simp_all add: Split_present)

definition plain_line :: "string \<Rightarrow> bool" where
  "plain_line line \<longleftrightarrow> line_feed \<notin> set line \<and> CHR 0x0D \<notin> set line \<and> int (length line) < MaxScanTokenSize"

lemma plain_line_kept: "plain_line line \<Longrightarrow> drop_cr line = line"
  by (metis drop_cr_def last_in_set plain_line_def)

lemma scanned_lines:
  assumes "\<forall>line \<in> set lines. plain_line line"
  shows "scanned MaxScanTokenSize (concat (map (\<lambda>line. line @ [line_feed]) lines)) = (lines, True)"
proof -
  have "scan_pieces (concat (map (\<lambda>line. line @ [line_feed]) lines)) = lines"
    using assms by (simp add: scan_pieces_def Split_lines plain_line_def)
  moreover have short: "\<forall>p \<in> set lines. int (length p) < MaxScanTokenSize"
    using assms by (simp add: plain_line_def)
  moreover from short have "takeWhile (\<lambda>p. int (length p) < MaxScanTokenSize) lines = lines"
    by (simp only: takeWhile_eq_all_conv)
  moreover have "map drop_cr lines = lines"
    using assms by (simp add: map_idI plain_line_kept)
  ultimately show ?thesis by (simp only: scanned_def Let_def list_all_iff prod.inject simp_thms)
qed


text \<open>A line of 64 KiB or more ends the stream without a word, and makes the recent logs fail.\<close>

lemma long_line_hides_logs:
  assumes "JS_Get se k dk = Inr d" "latestContainer cl k = Inr (Some c)" "\<forall>f n. lg_logs cl (lc_ID c) f n = Inr raw"
    and "lg_demux cl raw = replicate 65536 (CHR ''x'') @ [line_feed]" "sm_flusher sm"
  shows "deploymentLogs se cl sm k dk = Inr [] \<and> isl (deploymentRecentLogs se cl k [] dk)"
proof -
  let ?long = "replicate 65536 (CHR ''x'')"
  have "line_feed \<notin> set ?long" by (simp add: line_feed_def)
  from Split_present[OF this, of "[]"] have "scan_pieces (?long @ [line_feed]) = [?long]"
    by (simp add: scan_pieces_def)
  then have "scanned MaxScanTokenSize (?long @ [line_feed]) = ([], False)"
    by (simp add: scanned_def MaxScanTokenSize_def)
  with assms show ?thesis
    by (simp add: deploymentLogs_def StreamLogs_def deploymentRecentLogs_def RecentLogs_def parseRecentDeploymentLogTail_def)
qed

section \<open>Service logs, views and files\<close>

text \<open>Whatever the query, the only program that a request for service logs runs is \<open>journalctl\<close> with fixed
  options, for one of the three units and between 1 and 1000 lines, and at most once.\<close>

theorem service_logs_confined:
  "snd (coreServiceLogs journalctl q t) = [] \<or>
   (\<exists>unit_name n. snd (coreServiceLogs journalctl q t) = [[''--no-pager'', ''--output=short-iso'', ''-u'', unit_name, ''-n'', Itoa n]] \<and>
      unit_name \<in> {''lotsen-api'', ''lotsen-orchestrator'', ''lotsen-proxy''} \<and> 1 \<le> n \<and> n \<le> 1000)"
proof (cases "snd (coreServiceLogs journalctl q t) = []")
  case False
  then obtain u n where u: "map_of coreServiceUnits (TrimSpace q) = Some u" "parseCoreServiceLogTail t = Some n"
    by (auto simp: coreServiceLogs_def Let_def split: option.splits)
  with False have "snd (coreServiceLogs journalctl q t) = [[''--no-pager'', ''--output=short-iso'', ''-u'', u, ''-n'', Itoa n]]"
    by (auto simp: coreServiceLogs_def readJournalctlUnitLogs_def Let_def split: option.splits prod.splits sum.splits if_splits)
  moreover have "u \<in> {''lotsen-api'', ''lotsen-orchestrator'', ''lotsen-proxy''}"
    using u(1) by (auto simp: coreServiceUnits_def split: if_splits)
  ultimately show ?thesis using core_tail[OF u(2)] by blast
qed simp

lemma Atoi_Nil: "Atoi [] = None"
  by code_simp

lemma api_limit_accepted: "accessLogLimit (Itoa (api_limit q)) = api_limit q \<and> 1 \<le> api_limit q \<and> api_limit q \<le> 1000"
proof -
  have n: "1 \<le> api_limit q \<and> api_limit q \<le> 1000"
    by (auto simp: api_limit_def Let_def split: option.split)
  then have "TrimSpace (Itoa (api_limit q)) = Itoa (api_limit q)" "Atoi (Itoa (api_limit q)) = Some (api_limit q)"
    by (simp_all add: TrimSpace_digits Itoa_digits Atoi_Itoa)
  moreover have "Itoa (api_limit q) \<noteq> []" using calculation(2) Atoi_Nil by (metis option.distinct(1))
  ultimately show ?thesis using n by (simp add: accessLogLimit_def)
qed

text \<open>The API's view of the proxy's access log is the newest entries of the proxy's ring, as many as the query
  asks for, when the proxy keeps one; with a logger that has no list it is empty.\<close>

theorem access_log_view:
  assumes "\<forall>n. get (base @ ''/internal/access-logs?limit='' @ n) = Inr (200, encode (proxy_listAccessLogs (map_option (\<lambda>b limit. Buffer_List limit b) provider) n))"
    and "\<forall>es. decode (encode es) = Some (Some es)" "\<forall>b. provider = Some b \<longrightarrow> ring_inv b"
  shows "api_accessLogs get decode base q =
    Inr (case provider of None \<Rightarrow> [] | Some b \<Rightarrow> take (nat (api_limit q)) (ring_view b)) \<and> 1 \<le> api_limit q \<and> api_limit q \<le> 1000"
  using assms api_limit_accepted[of q]
  by (simp add: api_accessLogs_def fetchProxyJSON_def proxy_listAccessLogs_def Buffer_List_view split: option.split)

lemma Clean_index: "IsAbs p \<Longrightarrow> TrimPrefix (Clean p) ''/'' = a \<Longrightarrow> \<exists>es. list_all proper_elem es \<and> a = Join es ''/'' \<and> Clean p = abs_path es"
  by (erule Clean_abs) (auto simp: TrimPrefix_def abs_path_def HasPrefix_def)

text \<open>A request reaches the API only by a path below \<open>/api\<close> or \<open>/auth\<close>; every other GET or HEAD is answered with
  the index page or with an existing file whose cleaned path has no \<open>..\<close>, and other verbs are refused.\<close>

theorem site_serves_files_or_index:
  assumes "IsAbs p"
  shows "case serve_site assets verb p of
      PassToAPI \<Rightarrow> p = ''/api'' \<or> p = ''/auth'' \<or> HasPrefix p ''/api/'' \<or> HasPrefix p ''/auth/''
    | NotAllowed \<Rightarrow> verb \<noteq> ''GET'' \<and> verb \<noteq> ''HEAD''
    | Index body \<Rightarrow> (body \<longleftrightarrow> verb = ''GET'')
    | ServeFile q \<Rightarrow> q = p \<and> verb \<in> {''GET'', ''HEAD''} \<and>
        (\<exists>es. es \<noteq> [] \<and> list_all proper_elem es \<and> Clean p = abs_path es \<and>
           (es = [''index.html''] \<or> assets (Join es ''/'') = Some False))"
proof (cases "serve_site assets verb p")
  case (ServeFile q)
  then have s: "q = p" "verb \<in> {''GET'', ''HEAD''}" "TrimPrefix (Clean p) ''/'' \<noteq> []"
    "TrimPrefix (Clean p) ''/'' = ''index.html'' \<or> fileExists assets (TrimPrefix (Clean p) ''/'')"
    by (auto simp: serve_site_def Let_def split: if_splits)
  from Clean_index[OF assms refl] obtain es where es: "list_all proper_elem es" "TrimPrefix (Clean p) ''/'' = Join es ''/''" "Clean p = abs_path es"
    by blast
  from s(3) es(2) have "es \<noteq> []" by auto
  moreover have "es = [''index.html''] \<or> assets (Join es ''/'') = Some False"
  proof (cases "Join es ''/'' = ''index.html''")
    case True
    from \<open>es \<noteq> []\<close> es(1) have "Split (Join es ''/'') (CHR ''/'') = es"
      by (intro Split_Join) (auto simp: list_all_iff proper_elem_def)
    moreover have "Split ''index.html'' (CHR ''/'') = [''index.html'']" by code_simp
    ultimately show ?thesis using True by simp
  next
    case False
    with s(4) es(2) show ?thesis by (auto simp: fileExists_def split: option.splits)
  qed
  ultimately show ?thesis using ServeFile s(1,2) es by auto
qed (auto simp: serve_site_def isAPIPath_def Let_def split: if_splits)

section \<open>Witnesses\<close>

definition log_container0 :: log_container where
  "log_container0 = \<lparr>lc_ID = ''c2'', lc_Created = 20, lc_Labels = [(''lotsen.managed'', ''true''), (''lotsen.id'', ''d1'')]\<rparr>"

definition logs_client0 :: logs_client where
  "logs_client0 = \<lparr>lg_list = (\<lambda>_. Inr [log_container0\<lparr>lc_ID := ''c1'', lc_Created := 10\<rparr>, log_container0]),
     lg_logs = (\<lambda>c _ _. Inr (c @ [line_feed] @ ''up'' @ [line_feed])), lg_demux = (\<lambda>s. s)\<rparr>"

definition stream_env0 :: stream_env where
  "stream_env0 = \<lparr>sm_flusher = True, sm_encode = (\<lambda>s. Some s), sm_write = (\<lambda>_. True)\<rparr>"

definition log_disk0 :: disk where
  "log_disk0 = snd (JS_Create env0 web disk0)"

lemma stored0: "\<not> isl (JS_Get env0 ''1'' log_disk0)"
  by code_simp

lemma latest0: "latestContainer logs_client0 k = Inr (Some log_container0)"
  by (simp add: latestContainer_def logs_client0_def newer_def log_container0_def)

lemma recent0: "deploymentRecentLogs env0 logs_client0 ''1'' ''5'' log_disk0 = Inr (''1'', [''c2'', ''up''])"
proof -
  have "\<not> isl (deploymentRecentLogs env0 logs_client0 ''1'' ''5'' log_disk0) \<and>
      projr (deploymentRecentLogs env0 logs_client0 ''1'' ''5'' log_disk0) = (''1'', [''c2'', ''up''])" by code_simp
  then show ?thesis by (cases "deploymentRecentLogs env0 logs_client0 ''1'' ''5'' log_disk0") auto
qed

theorem recent_logs_of_newest_witness:
  "\<not> isl (JS_Get env0 ''1'' log_disk0) \<and>
   (\<exists>containers. lg_list logs_client0 [(''lotsen.managed'', ''true''), (''lotsen.id'', ''1'')] = Inr containers)"
  using recent_logs_of_newest[OF recent0] by auto


definition ring0 :: "unit AccessLogBuffer" where
  "ring0 = fold Buffer_Log [(), ()] (NewAccessLogBuffer 3 ())"

definition proxy0 :: "string \<Rightarrow> unit + int \<times> string" where
  "proxy0 url = Inr (200, map (\<lambda>_. CHR ''x'') (proxy_listAccessLogs (Some (\<lambda>limit. Buffer_List limit ring0)) (drop (length ''http://p/internal/access-logs?limit='') url)))"

theorem access_log_view_witness:
  "api_accessLogs proxy0 (\<lambda>s. Some (Some (map (\<lambda>_. ()) s))) ''http://p'' ''1'' = Inr [()]"
proof -
  have "ring_inv ring0" "take (nat (api_limit ''1'')) (ring_view ring0) = [()]" by code_simp+
  moreover have "map (\<lambda>_. ()) (map (\<lambda>_. CHR ''x'') es) = es" for es :: "unit list" by (induction es) simp_all
  ultimately show ?thesis
    using access_log_view[of proxy0 "''http://p''" "map (\<lambda>_. CHR ''x'')" "Some ring0" "\<lambda>s. Some (Some (map (\<lambda>_. ()) s))" "''1''"]
    by (simp add: proxy0_def)
qed

theorem site_serves_files_or_index_witness:
  "\<exists>es. es \<noteq> [] \<and> list_all proper_elem es \<and> Clean ''/assets/../app.js'' = abs_path es"
proof -
  have "serve_site (\<lambda>f. if f = ''app.js'' then Some False else None) ''GET'' ''/assets/../app.js'' = ServeFile ''/assets/../app.js''"
    by code_simp
  moreover have "IsAbs ''/assets/../app.js''" by code_simp
  ultimately show ?thesis
    using site_serves_files_or_index[where p = "''/assets/../app.js''" and verb = "''GET''" and
        assets = "\<lambda>f. if f = ''app.js'' then Some False else None"] by auto
qed

end
