(* ===== verification/Spec2Isabelle.thy ===== *)
theory Spec2Isabelle
  imports Docker Proxy Commands Login Status Upgrade AccessLogs RegistryApi Telemetry Launch Cli Logs
begin

text \<open>
  Lotsen runs containers on one host. Its Go code is these programs around one JSON file:

    \<^item> the API (\<open>src/api\<close>) stores deployments and registries and answers the dashboard,
    \<^item> the orchestrator (\<open>src/orchestrator\<close>) brings the containers in line with the stored deployments,
    \<^item> the proxy (\<open>src/proxy\<close>) forwards requests by domain to the containers and protects them,
    \<^item> the command line (\<open>src/api/cmd/lotsen\<close>) exports the state as a document, plans changes against a
      document and applies an approved plan,
    \<^item> the command line of the host (\<open>src/cli\<close>) installs and upgrades the others and issues invitations.

  They share the module \<open>src/store\<close>; the API, the orchestrator and the proxy also call each other
  over HTTP (status updates, heartbeats, a route swapped during a replacement).

  \<^bold>\<open>Theories.\<close>

    \<^item> \<open>Prelude\<close>: Go strings, maps, slices and decimal numbers, and the lemmas on them.
    \<^item> \<open>Store\<close>, \<open>Registries\<close>: \<open>store.go\<close>. The state is the file and its temporary sibling; an
      operation maps a state and the faults it meets to a result and a state. The locale
      \<open>deployment_store\<close> is the contract clients rely on, \<open>state_store\<close> adds the registries.
    \<^item> \<open>Paths\<close>, \<open>Net\<close>, \<open>Text\<close>: the parts of \<open>path/filepath\<close>, \<open>net\<close>, \<open>bufio\<close>, \<open>strings\<close> and \<open>strconv\<close>
      that the code uses.
    \<^item> \<open>Ports\<close>, \<open>Mounts\<close>, \<open>Api\<close>: \<open>handler*.go\<close> of the API for deployments; \<open>Host\<close>: the host profile,
      its file and its handlers, with the locale \<open>host_profile_store\<close>.
    \<^item> \<open>Auth\<close>, \<open>Login\<close>: session tokens and the database of users, passkeys and invitations (\<open>src/auth\<close>), and
      the handlers and the middleware built on them (\<open>handler_passkey.go\<close>, \<open>handler_auth.go\<close>,
      \<open>handler_users.go\<close>); the locale \<open>account_relation\<close> lifts a relation kept by the database operations to
      every request.
    \<^item> \<open>RegistryApi\<close>: the handlers for registries.
    \<^item> \<open>Broker\<close>, \<open>Status\<close>: the event brokers and streams; the system status with its heartbeats.
    \<^item> \<open>Version\<close>, \<open>Upgrade\<close>: the service that looks up releases, and the runner of upgrades with the stream of
      its output, as a machine whose steps are the requests, the process and the readers.
    \<^item> \<open>AccessLogs\<close>: the access log on disk, which the proxy writes (\<open>access_log.go\<close>) and the API pages through.
    \<^item> \<open>Reconciler\<close>, \<open>Docker\<close>: the reconciliation pass over its three interfaces, and the container
      engine behind one of them.
    \<^item> \<open>Routing\<close>, \<open>Poller\<close>, \<open>Filters\<close>, \<open>Proxy\<close>: the routing table (locale \<open>route_table\<close>), its
      synchronisation with the store, and the checks in front of the reverse proxy.
    \<^item> \<open>Telemetry\<close>: what the orchestrator measures (\<open>hostmetrics.go\<close>, \<open>hostinfo.go\<close>, the statistics of
      \<open>docker.go\<close>), the client that sends it (\<open>apiclient/client.go\<close>) and one tick of its main loop.
    \<^item> \<open>Launch\<close>: the start of the proxy and of the API from their environment, and the paths the proxy serves
      itself.
    \<^item> \<open>Cli\<close>: the commands of \<open>cli/cmd/lotsen/main.go\<close>.
    \<^item> \<open>Logs\<close>: the logs of containers and services, the views of the proxy, and the dashboard's files.
    \<^item> \<open>Config\<close>, \<open>Plan\<close>, \<open>Export\<close>, \<open>Apply\<close>, \<open>Commands\<close>: \<open>configv1\<close>, \<open>configplan\<close>, the export and the
      commands of \<open>config.go\<close>, and \<open>configapply\<close>.

  \<^bold>\<open>How state and operations correspond.\<close> A Go struct is a record with the fields in the order of
  the source; pointers, and slices or maps whose nil value the code tells from an empty one, are
  options. A method that changes state takes the state and returns it with its result; errors are
  the left side of a sum. What the operating system, the container engine, the random source and
  the ciphers answer, and the order in which Go visits a map, are arguments: records of functions
  or of faults, one per call where calls may differ. Theorems name what they assume of them
  (\<open>env_ok\<close>: an iteration order is a permutation; \<open>crypto_ok\<close>: what was sealed can be opened;
  \<open>fresh_ids\<close>: random IDs are new). Locks make store and table operations atomic, so executions are
  sequences of whole operations; where the code composes several operations without a lock, the
  theorems speak of the interleaving.

  \<^bold>\<open>What is shown.\<close>

    \<^item> The store: round trips, atomic replacement of the file, and the invariant of every reachable
      file (\<open>store_reach_inv\<close>); the contract in \<open>deployment_store\<close> is discharged for the model.
    \<^item> The API: the invariant over all request sequences (\<open>api_reach_inv\<close>), effects and answers of the
      handlers on success and on error, the assignment of host ports, the confinement of managed
      files, and the round trip of mounts.
    \<^item> Accounts: tokens are accepted exactly if signed and unexpired; nobody without a session, an unused
      invitation or a passkey changes an account or gets a session, the first setup excepted.
    \<^item> Events and status: a stream delivers what is published in order and completely to a client that
      keeps up; a snapshot is what the latest signals call for and is always well formed; what a
      rejected heartbeat leaves behind.
    \<^item> Upgrades and logs: at most one upgrade runs and its output reaches a client without gaps; paging lists
      every access log entry once, the latest first.
    \<^item> The orchestrator: only legal changes of status, which containers a pass removes, bounds of the
      retry delay, and the order of a replacement (route first, then the old container).
    \<^item> The proxy: the table a synchronisation produces, the checks that every forwarded request has
      passed, the filters, the scanner limiter and the access log.
    \<^item> The configuration: \<open>Validate\<close> decides a declarative notion of validity, the canonical form and
      the plan depend on content only, a plan covers every resource, the export reveals no secret,
      nothing but an approved plan changes the state, and a successful \<open>apply\<close> reaches the document.
    \<^item> Between the programs: what a tick measures is what the API shows; the proxy enforces the profile that the
      API stores and accepts the tokens the API issues; a started proxy is configured within the rules; a
      set-up runs only a checked and confirmed script; an invitation of the command line is one the API accepts.
    \<^item> Behaviour the code probably does not intend is stated as theorems too, e.g.
      \<open>apply_stores_placeholders\<close>, \<open>concurrent_creates_share_port\<close>, \<open>update_stops_retries\<close>.

  \<^bold>\<open>Termination.\<close> Loops over slices are structural recursion or folds; the search for a free host port
  is a recursion over the bounded port range (\<open>allocate_first_free\<close>). There is no fuel. Floating point numbers
  are real numbers, counters of the kernel are 64-bit words that wrap around.

  \<^bold>\<open>Not modelled.\<close> The multiplexer and the servers of \<open>net/http\<close>, certificates, and the encoding of answers,
  which belong to libraries; the goroutines that only start the modelled loops; the text that the command
  line prints; the dashboard, the web site and the installer, which are not Go.
\<close>

end
